(* ===== verification/Rust_Prelude.thy ===== *)
theory Rust_Prelude
  imports Main "HOL-Library.Word" "HOL-Library.AList" "HOL-Library.List_Lexorder"
    "HOL-Library.Char_ord"
begin

text \<open>
  What the components share: the parts of the Rust language and standard library that
  the sources use (strings, decimal printing and parsing, checked machine arithmetic,
  the two map types, \<open>Result\<close>), the interfaces stated as locales (\<open>rust_map\<close>, \<open>codec\<close>),
  and the lemma collections the component proofs name.

  A Rust \<open>String\<close> is a \<open>string\<close> holding its UTF-8 bytes, one \<open>char\<close> per byte. Every
  operation of \<open>str\<close> the sources use with an ASCII pattern (\<open>split\<close>, \<open>replace\<close>,
  \<open>trim_matches\<close>, \<open>starts_with\<close>, comparison) is the same on bytes and on code points;
  where the source iterates over code points, \<open>utf8_chars\<close> groups the bytes.
\<close>

named_theorems str_simps \<open>rewriting of the string operations of the Rust standard library\<close>
named_theorems map_laws \<open>what the operations of a Rust map do to a lookup\<close>

type_synonym rust_char = string

abbreviation Ok :: "'a \<Rightarrow> 'e + 'a" where "Ok \<equiv> Inr"
abbreviation Err :: "'e \<Rightarrow> 'e + 'a" where "Err \<equiv> Inl"

text \<open>The \<open>?\<close> operator: an error leaves the function.\<close>

fun and_then :: "'e + 'a \<Rightarrow> ('a \<Rightarrow> 'e + 'b) \<Rightarrow> 'e + 'b" where
  "and_then (Inl e) f = Inl e"
| "and_then (Inr x) f = f x"

fun ok_or :: "'e \<Rightarrow> 'a option \<Rightarrow> 'e + 'a" where
  "ok_or e None = Inl e"
| "ok_or e (Some x) = Inr x"

text \<open>An await: \<open>Pending\<close> when what it waits for has not come.\<close>

datatype 'a poll = Pending | Ready 'a

fun poll_map :: "('a \<Rightarrow> 'b) \<Rightarrow> 'a poll \<Rightarrow> 'b poll" where
  "poll_map f Pending = Pending"
| "poll_map f (Ready x) = Ready (f x)"

lemma and_then_Ok: "and_then r f = Ok y \<longleftrightarrow> (\<exists>x. r = Ok x \<and> f x = Ok y)"
  by (cases r) auto

lemma ok_or_Ok [simp]: "ok_or e v = Ok x \<longleftrightarrow> v = Some x"
  by (cases v) auto

subsection \<open>Characters\<close>

definition is_ascii_digit :: "char \<Rightarrow> bool" where
  "is_ascii_digit c \<longleftrightarrow> 48 \<le> (of_char c :: nat) \<and> (of_char c :: nat) \<le> 57"

definition is_ascii_alphabetic :: "char \<Rightarrow> bool" where
  "is_ascii_alphabetic c \<longleftrightarrow>
     (65 \<le> (of_char c :: nat) \<and> (of_char c :: nat) \<le> 90) \<or>
     (97 \<le> (of_char c :: nat) \<and> (of_char c :: nat) \<le> 122)"

definition is_ascii_alphanumeric :: "char \<Rightarrow> bool" where
  "is_ascii_alphanumeric c \<longleftrightarrow> is_ascii_alphabetic c \<or> is_ascii_digit c"

text \<open>The code points of a UTF-8 string: a leading byte and the continuation bytes
  (\<open>0x80 .. 0xBF\<close>) that follow it.\<close>

definition is_utf8_cont :: "char \<Rightarrow> bool" where
  "is_utf8_cont c \<longleftrightarrow> 128 \<le> (of_char c :: nat) \<and> (of_char c :: nat) < 192"

fun utf8_chars :: "string \<Rightarrow> rust_char list" where
  "utf8_chars [] = []"
| "utf8_chars (c # cs) =
     (case utf8_chars cs of
        [] \<Rightarrow> [[c]]
      | g # gs \<Rightarrow> if is_utf8_cont (hd g) then (c # g) # gs else [c] # g # gs)"

text \<open>A predicate on ASCII characters, lifted to code points: multi-byte ones fail it.\<close>

fun on_ascii :: "(char \<Rightarrow> bool) \<Rightarrow> rust_char \<Rightarrow> bool" where
  "on_ascii p [c] = p c"
| "on_ascii p _ = False"

lemma concat_utf8_chars [simp]: "concat (utf8_chars s) = s"
  by (induction s) (auto split: list.split)

lemma utf8_chars_nonempty: "g \<in> set (utf8_chars s) \<Longrightarrow> g \<noteq> []"
  by (induction s arbitrary: g) (auto split: list.splits if_splits)

lemma utf8_chars_eq_Nil [simp]: "utf8_chars s = [] \<longleftrightarrow> s = []"
  by (cases s) (auto split: list.split)

lemma hd_utf8_chars: "s \<noteq> [] \<Longrightarrow> hd (hd (utf8_chars s)) = hd s"
  by (cases s) (auto split: list.split)

lemma is_ascii_alphanumeric_not_cont: "is_ascii_alphanumeric c \<Longrightarrow> \<not> is_utf8_cont c"
  by (auto simp: is_ascii_alphanumeric_def is_ascii_alphabetic_def is_ascii_digit_def is_utf8_cont_def)

lemma utf8_chars_ascii:
  assumes "\<And>c. c \<in> set s \<Longrightarrow> \<not> is_utf8_cont c"
  shows "utf8_chars s = map (\<lambda>c. [c]) s"
  using assms
proof (induction s)
  case (Cons c cs)
  then show ?case by (cases cs) (auto)
qed simp

text \<open>All code points satisfy an ASCII predicate exactly when all bytes do.\<close>

lemma list_all_utf8_chars:
  assumes np: "\<And>c. p c \<Longrightarrow> \<not> is_utf8_cont c"
  shows "list_all (on_ascii p) (utf8_chars s) \<longleftrightarrow> list_all p s"
proof (induction s)
  case (Cons c cs)
  show ?case
  proof (cases "utf8_chars cs")
    case Nil
    then show ?thesis by simp
  next
    case (Cons g gs)
    then have cs: "cs \<noteq> []" by (cases cs) auto
    with Cons have g: "g \<noteq> []" "hd g = hd cs" "cs \<noteq> []"
      using utf8_chars_nonempty [of g cs] hd_utf8_chars [of cs] by auto
    show ?thesis
    proof (cases "is_utf8_cont (hd g)")
      case True
      with g have "\<not> list_all p cs" using np by (cases cs) auto
      moreover obtain d ds where "g = d # ds" using g by (cases g) auto
      ultimately show ?thesis using Cons True by simp
    next
      case False
      with Cons Cons.IH show ?thesis by simp
    qed
  qed
qed simp

subsection \<open>Strings\<close>

fun split_on :: "char \<Rightarrow> string \<Rightarrow> string list" where
  "split_on c [] = [[]]"
| "split_on c (x # xs) =
     (if x = c then [] # split_on c xs
      else (case split_on c xs of [] \<Rightarrow> [[x]] | y # ys \<Rightarrow> (x # y) # ys))"

fun join_with :: "char \<Rightarrow> string list \<Rightarrow> string" where
  "join_with c [] = []"
| "join_with c [s] = s"
| "join_with c (s # t # ts) = s @ c # join_with c (t # ts)"

fun split_once :: "char \<Rightarrow> string \<Rightarrow> (string \<times> string) option" where
  "split_once c [] = None"
| "split_once c (x # xs) =
     (if x = c then Some ([], xs)
      else map_option (\<lambda>(a, b). (x # a, b)) (split_once c xs))"

definition rsplit_once :: "char \<Rightarrow> string \<Rightarrow> (string \<times> string) option" where
  "rsplit_once c s = map_option (\<lambda>(a, b). (rev b, rev a)) (split_once c (rev s))"

text \<open>\<open>str::splitn\<close>: at most \<open>n\<close> pieces, the last one the unsplit rest.\<close>

fun splitn :: "nat \<Rightarrow> char \<Rightarrow> string \<Rightarrow> string list" where
  "splitn 0 c s = []"
| "splitn (Suc 0) c s = [s]"
| "splitn (Suc (Suc n)) c s =
     (case split_once c s of None \<Rightarrow> [s] | Some (a, b) \<Rightarrow> a # splitn (Suc n) c b)"

definition replace_char :: "char \<Rightarrow> string \<Rightarrow> string \<Rightarrow> string" where
  "replace_char c r s = concat (map (\<lambda>x. if x = c then r else [x]) s)"

definition trim_matches :: "char \<Rightarrow> string \<Rightarrow> string" where
  "trim_matches c s = rev (dropWhile (\<lambda>x. x = c) (rev (dropWhile (\<lambda>x. x = c) s)))"

definition strip_prefix_char :: "char \<Rightarrow> string \<Rightarrow> string option" where
  "strip_prefix_char c s = (case s of [] \<Rightarrow> None | x # xs \<Rightarrow> if x = c then Some xs else None)"

definition starts_with_char :: "(char \<Rightarrow> bool) \<Rightarrow> string \<Rightarrow> bool" where
  "starts_with_char p s = (case s of [] \<Rightarrow> False | x # _ \<Rightarrow> p x)"

definition ends_with_char :: "char \<Rightarrow> string \<Rightarrow> bool" where
  "ends_with_char c s \<longleftrightarrow> s \<noteq> [] \<and> last s = c"

fun contains_str :: "string \<Rightarrow> string \<Rightarrow> bool" where
  "contains_str pat [] \<longleftrightarrow> pat = []"
| "contains_str pat (x # xs) \<longleftrightarrow> take (length pat) (x # xs) = pat \<or> contains_str pat xs"

lemma split_on_nonempty [simp]: "split_on c s \<noteq> []"
  by (induction s) (auto split: list.split)

lemma split_on_no_sep: "c \<notin> set s \<Longrightarrow> split_on c s = [s]"
  by (induction s) auto

lemma split_on_pieces: "p \<in> set (split_on c s) \<Longrightarrow> c \<notin> set p"
proof (induction s arbitrary: p)
  case (Cons x xs)
  then show ?case by (cases "split_on c xs") (auto split: if_splits)
qed simp

lemma split_on_append: "c \<notin> set a \<Longrightarrow> split_on c (a @ c # b) = a # split_on c b"
  by (induction a) auto

lemma split_on_join [str_simps]:
  "ss \<noteq> [] \<Longrightarrow> (\<And>s. s \<in> set ss \<Longrightarrow> c \<notin> set s) \<Longrightarrow> split_on c (join_with c ss) = ss"
  by (induction c ss rule: join_with.induct) (auto simp: split_on_no_sep split_on_append)

lemma join_split_on [str_simps]: "join_with c (split_on c s) = s"
proof (induction s)
  case (Cons x xs)
  show ?case
  proof (cases "split_on c xs")
    case Nil
    then show ?thesis by simp
  next
    case (Cons y ys)
    with Cons.IH show ?thesis by (cases ys) auto
  qed
qed simp

lemma split_once_append [str_simps]: "c \<notin> set a \<Longrightarrow> split_once c (a @ c # b) = Some (a, b)"
  by (induction a) auto

lemma split_once_None: "split_once c s = None \<longleftrightarrow> c \<notin> set s"
  by (induction s) auto

lemma split_once_SomeD: "split_once c s = Some (a, b) \<Longrightarrow> s = a @ c # b \<and> c \<notin> set a"
  by (induction s arbitrary: a b) (auto split: if_splits)

lemma rsplit_once_append [str_simps]:
  "c \<notin> set b \<Longrightarrow> rsplit_once c (a @ c # b) = Some (a, b)"
  using split_once_append [of c "rev b" "rev a"] by (simp add: rsplit_once_def)

lemma rsplit_once_None: "rsplit_once c s = None \<longleftrightarrow> c \<notin> set s"
  by (simp add: rsplit_once_def split_once_None)

lemma rsplit_once_SomeD: "rsplit_once c s = Some (a, b) \<Longrightarrow> s = a @ c # b \<and> c \<notin> set b"
  unfolding rsplit_once_def
  by (auto dest!: split_once_SomeD simp: rev_swap)

lemma replace_char_append [simp]: "replace_char c r (a @ b) = replace_char c r a @ replace_char c r b"
  by (simp add: replace_char_def)

lemma replace_char_Nil [simp]: "replace_char c r [] = []"
  by (simp add: replace_char_def)

lemma replace_char_Cons:
  "replace_char c r (x # xs) = (if x = c then r else [x]) @ replace_char c r xs"
  by (simp add: replace_char_def)

lemma replace_char_id: "c \<notin> set s \<Longrightarrow> replace_char c r s = s"
  by (induction s) (auto simp: replace_char_Cons)

lemma replace_char_inverse:
  "d \<notin> set s \<Longrightarrow> replace_char d [c] (replace_char c [d] s) = s"
  by (induction s) (auto simp: replace_char_Cons)

lemma set_replace_char: "c \<notin> set r \<Longrightarrow> c \<notin> set (replace_char c r s)"
  by (induction s) (auto simp: replace_char_Cons)

lemma replace_char_eq_Nil [simp]: "replace_char c [d] s = [] \<longleftrightarrow> s = []"
  by (cases s) (auto simp: replace_char_Cons)

lemma strip_prefix_char_Some:
  "strip_prefix_char c s = Some t \<longleftrightarrow> s = c # t"
  by (auto simp: strip_prefix_char_def split: list.splits)

lemma trim_matches_Cons [simp]: "trim_matches c (c # s) = trim_matches c s"
  by (simp add: trim_matches_def)

lemma dropWhile_hd: "s \<noteq> [] \<Longrightarrow> hd s \<noteq> c \<Longrightarrow> dropWhile (\<lambda>x. x = c) s = s"
  by (cases s) auto

lemma trim_matches_id: "s \<noteq> [] \<Longrightarrow> hd s \<noteq> c \<Longrightarrow> last s \<noteq> c \<Longrightarrow> trim_matches c s = s"
  using dropWhile_hd [of s c] dropWhile_hd [of "rev s" c] by (simp add: trim_matches_def hd_rev)

lemma join_with_append: "ss \<noteq> [] \<Longrightarrow> ts \<noteq> [] \<Longrightarrow> join_with c (ss @ ts) = join_with c ss @ c # join_with c ts"
  by (induction c ss rule: join_with.induct) (auto simp: neq_Nil_conv)

lemma starts_with_char_iff: "starts_with_char p s \<longleftrightarrow> s \<noteq> [] \<and> p (hd s)"
  by (simp add: starts_with_char_def split: list.split)

lemma ends_with_char_snoc [simp]: "ends_with_char c (s @ [d]) \<longleftrightarrow> c = d"
  by (auto simp: ends_with_char_def)

end
