(* ===== verification/Rust_Numbers.thy ===== *)
theory Rust_Numbers
  imports Rust_Prelude
begin

text \<open>
  Machine integers and their text forms as the sources use them. Signed integers are
  \<open>int\<close> with their range written out; an arithmetic operation that leaves the range
  panics when overflow checks are on and wraps when they are off, so it takes the
  \<open>overflow_mode\<close> of the build and returns \<open>None\<close> for a panic. Decimal printing is
  \<open>to_string\<close>, parsing is \<open>str::parse\<close> on an unsigned type.
\<close>

named_theorems range_simps \<open>the ranges of the machine integer types, unfolded\<close>

subsection \<open>Ranges, casts and checked arithmetic\<close>

datatype overflow_mode = Checked | Wrapping

definition in_signed :: "nat \<Rightarrow> int \<Rightarrow> bool" where
  "in_signed w x \<longleftrightarrow> - (2 ^ (w - 1)) \<le> x \<and> x < 2 ^ (w - 1)"

definition in_unsigned :: "nat \<Rightarrow> int \<Rightarrow> bool" where
  "in_unsigned w x \<longleftrightarrow> 0 \<le> x \<and> x < 2 ^ w"

text \<open>An \<open>as\<close> cast to a signed or unsigned type of \<open>w\<close> bits.\<close>

definition wrap_signed :: "nat \<Rightarrow> int \<Rightarrow> int" where
  "wrap_signed w x = (x + 2 ^ (w - 1)) mod 2 ^ w - 2 ^ (w - 1)"

definition wrap_unsigned :: "nat \<Rightarrow> int \<Rightarrow> int" where
  "wrap_unsigned w x = x mod 2 ^ w"

definition signed_result :: "overflow_mode \<Rightarrow> nat \<Rightarrow> int \<Rightarrow> int option" where
  "signed_result mode w x =
     (if in_signed w x then Some x
      else case mode of Checked \<Rightarrow> None | Wrapping \<Rightarrow> Some (wrap_signed w x))"

abbreviation i64_ok :: "int \<Rightarrow> bool" where "i64_ok \<equiv> in_signed 64"
abbreviation i32_ok :: "int \<Rightarrow> bool" where "i32_ok \<equiv> in_signed 32"
abbreviation u32_ok :: "int \<Rightarrow> bool" where "u32_ok \<equiv> in_unsigned 32"
abbreviation u64_ok :: "int \<Rightarrow> bool" where "u64_ok \<equiv> in_unsigned 64"
abbreviation i64_max :: int where "i64_max \<equiv> 9223372036854775807"
abbreviation i32_max :: int where "i32_max \<equiv> 2147483647"
abbreviation i32_min :: int where "i32_min \<equiv> -2147483648"
abbreviation u32_max :: int where "u32_max \<equiv> 4294967295"

lemma i64_ok_iff [range_simps]: "i64_ok x \<longleftrightarrow> -9223372036854775808 \<le> x \<and> x \<le> 9223372036854775807"
  by (auto simp: in_signed_def)

lemma i32_ok_iff [range_simps]: "i32_ok x \<longleftrightarrow> -2147483648 \<le> x \<and> x \<le> 2147483647"
  by (auto simp: in_signed_def)

lemma u32_ok_iff [range_simps]: "u32_ok x \<longleftrightarrow> 0 \<le> x \<and> x \<le> 4294967295"
  by (auto simp: in_unsigned_def)

lemma u64_ok_iff [range_simps]: "u64_ok x \<longleftrightarrow> 0 \<le> x \<and> x \<le> 18446744073709551615"
  by (auto simp: in_unsigned_def)

lemma signed_result_in_range [simp]: "in_signed w x \<Longrightarrow> signed_result mode w x = Some x"
  by (simp add: signed_result_def)

lemma signed_result_Checked: "signed_result Checked w x = (if in_signed w x then Some x else None)"
  by (simp add: signed_result_def)

lemma in_signed_wrap: "0 < w \<Longrightarrow> in_signed w (wrap_signed w x)"
proof -
  assume w: "0 < w"
  then have two: "(2::int) ^ w = 2 * 2 ^ (w - 1)"
    by (cases w) auto
  have "0 \<le> (x + 2 ^ (w - 1)) mod 2 ^ w" "(x + 2 ^ (w - 1)) mod 2 ^ w < 2 ^ w"
    by simp_all
  with two show ?thesis by (simp add: in_signed_def wrap_signed_def)
qed

lemma signed_result_Some_range: "0 < w \<Longrightarrow> signed_result mode w x = Some y \<Longrightarrow> in_signed w y"
  by (auto simp: signed_result_def in_signed_wrap split: if_splits overflow_mode.splits)

lemma wrap_signed_id [simp]: "0 < w \<Longrightarrow> in_signed w x \<Longrightarrow> wrap_signed w x = x"
proof -
  assume w: "0 < w" and x: "in_signed w x"
  from w have "(2::int) ^ w = 2 * 2 ^ (w - 1)"
    by (cases w) auto
  with x have "0 \<le> x + 2 ^ (w - 1)" "x + 2 ^ (w - 1) < 2 ^ w"
    by (auto simp: in_signed_def)
  then show ?thesis by (simp add: wrap_signed_def)
qed

lemma wrap_unsigned_id [simp]: "in_unsigned w x \<Longrightarrow> wrap_unsigned w x = x"
  by (simp add: in_unsigned_def wrap_unsigned_def)

text \<open>Rust's \<open>/\<close> and \<open>%\<close> truncate towards zero.\<close>

definition trunc_div :: "int \<Rightarrow> int \<Rightarrow> int" where
  "trunc_div a b = sgn a * sgn b * (\<bar>a\<bar> div \<bar>b\<bar>)"

definition trunc_rem :: "int \<Rightarrow> int \<Rightarrow> int" where
  "trunc_rem a b = a - trunc_div a b * b"

lemma trunc_div_nonneg: "0 \<le> a \<Longrightarrow> 0 < b \<Longrightarrow> trunc_div a b = a div b"
  by (cases "a = 0") (auto simp: trunc_div_def)

lemma trunc_div_neg: "a < 0 \<Longrightarrow> 0 < b \<Longrightarrow> trunc_div a b = - ((- a) div b)"
  by (simp add: trunc_div_def)

lemma trunc_rem_nonneg: "0 \<le> a \<Longrightarrow> 0 < b \<Longrightarrow> trunc_rem a b = a mod b"
  by (simp add: trunc_rem_def trunc_div_nonneg minus_div_mult_eq_mod)

lemma trunc_rem_neg: "a < 0 \<Longrightarrow> 0 < b \<Longrightarrow> trunc_rem a b = - ((- a) mod b)"
  by (simp add: trunc_rem_def trunc_div_neg minus_div_mult_eq_mod [symmetric])

lemmas trunc_simps = trunc_div_nonneg trunc_div_neg trunc_rem_nonneg trunc_rem_neg

lemma trunc_div_rem: "trunc_div a b * b + trunc_rem a b = a"
  by (simp add: trunc_rem_def)

text \<open>The truncated quotient and remainder against the rounded ones.\<close>

lemma trunc_rem_pos_floor:
  assumes "0 < b" and "0 \<le> trunc_rem a b"
  shows "trunc_div a b = a div b \<and> trunc_rem a b = a mod b"
proof (cases "0 \<le> a")
  case False
  with assms have "(- a) mod b = 0"
    using pos_mod_sign [OF assms(1), of "- a"] by (simp add: trunc_rem_neg)
  with assms False show ?thesis
    using zmod_zminus1_eq_if [of "- a" b] zdiv_zminus1_eq_if [of b "- a"] by (simp add: trunc_simps)
qed (simp add: assms trunc_simps)

lemma trunc_rem_neg_floor:
  assumes "0 < b" and "trunc_rem a b < 0"
  shows "a < 0 \<and> a mod b \<noteq> 0 \<and> trunc_div a b = a div b + 1 \<and> trunc_rem a b = a mod b - b"
proof -
  have neg: "a < 0"
    using assms trunc_rem_nonneg [of a b] pos_mod_sign [OF assms(1), of a] by (cases "0 \<le> a") auto
  then have "(- a) mod b \<noteq> 0" using assms by (simp add: trunc_rem_neg)
  moreover have "a mod b = b - (- a) mod b \<and> a div b = - ((- a) div b) - 1"
    using calculation assms(1) zmod_zminus1_eq_if [of "- a" b] zdiv_zminus1_eq_if [of b "- a"] by simp
  moreover have "(- a) mod b \<noteq> b" using pos_mod_bound [OF assms(1), of "- a"] by linarith
  ultimately show ?thesis using neg assms(1) by (simp add: trunc_simps)
qed

subsection \<open>Decimal text\<close>

definition digit_char :: "nat \<Rightarrow> char" where
  "digit_char d = char_of (48 + d)"

definition digit_value :: "char \<Rightarrow> nat" where
  "digit_value c = of_char c - 48"

fun show_nat :: "nat \<Rightarrow> string" where
  "show_nat n = (if n < 10 then [digit_char n] else show_nat (n div 10) @ [digit_char (n mod 10)])"

declare show_nat.simps [simp del]

definition digits_value :: "string \<Rightarrow> nat" where
  "digits_value s = foldl (\<lambda>v c. 10 * v + digit_value c) 0 s"

text \<open>\<open>str::parse\<close> for an unsigned integer of \<open>w\<close> bits: an optional plus sign, at least one
  digit, no other character, and a value in range.\<close>

definition parse_unsigned :: "nat \<Rightarrow> string \<Rightarrow> nat option" where
  "parse_unsigned w s =
     (let ds = (case s of c # t \<Rightarrow> if c = CHR ''+'' then t else s | [] \<Rightarrow> s)
      in if ds \<noteq> [] \<and> list_all is_ascii_digit ds \<and> digits_value ds < 2 ^ w
         then Some (digits_value ds) else None)"

definition show_int :: "int \<Rightarrow> string" where
  "show_int i = (if i < 0 then CHR ''-'' # show_nat (nat (- i)) else show_nat (nat i))"

lemma of_char_digit_char: "d < 10 \<Longrightarrow> (of_char (digit_char d) :: nat) = 48 + d"
  by (simp add: digit_char_def)

lemma is_ascii_digit_digit_char [simp]: "d < 10 \<Longrightarrow> is_ascii_digit (digit_char d)"
  by (simp add: is_ascii_digit_def of_char_digit_char)

lemma digit_value_digit_char [simp]: "d < 10 \<Longrightarrow> digit_value (digit_char d) = d"
  by (simp add: digit_value_def of_char_digit_char)

lemma show_nat_nonempty [simp]: "show_nat n \<noteq> []"
  by (subst show_nat.simps) simp

lemma show_nat_digits: "list_all is_ascii_digit (show_nat n)"
proof (induction n rule: show_nat.induct)
  case (1 n)
  then show ?case by (subst show_nat.simps) auto
qed

lemma digits_value_snoc: "digits_value (s @ [c]) = 10 * digits_value s + digit_value c"
  by (simp add: digits_value_def)

lemma digits_value_show_nat [simp]: "digits_value (show_nat n) = n"
proof (induction n rule: show_nat.induct)
  case (1 n)
  show ?case
  proof (cases "n < 10")
    case True
    then show ?thesis by (subst show_nat.simps) (simp add: digits_value_def)
  next
    case False
    with 1 show ?thesis by (subst show_nat.simps) (simp add: digits_value_snoc)
  qed
qed

lemma digit_not_in: "list_all is_ascii_digit s \<Longrightarrow> \<not> is_ascii_digit c \<Longrightarrow> c \<notin> set s"
  by (auto simp: list_all_iff)

lemma show_nat_not_in: "\<not> is_ascii_digit c \<Longrightarrow> c \<notin> set (show_nat n)"
  by (rule digit_not_in [OF show_nat_digits])

lemma parse_show_nat [str_simps]: "n < 2 ^ w \<Longrightarrow> parse_unsigned w (show_nat n) = Some n"
proof -
  assume n: "n < 2 ^ w"
  have plus: "\<not> is_ascii_digit CHR ''+''" by (simp add: is_ascii_digit_def)
  obtain c t where s: "show_nat n = c # t" by (cases "show_nat n") auto
  with show_nat_not_in [OF plus, of n] have "c \<noteq> CHR ''+''" by auto
  with n s show_nat_digits [of n] digits_value_show_nat [of n] show ?thesis
    by (simp add: parse_unsigned_def del: digits_value_show_nat)
qed

lemma show_nat_inj [simp]: "show_nat m = show_nat n \<longleftrightarrow> m = n"
  by (metis digits_value_show_nat)

lemma parse_unsigned_bound: "parse_unsigned w s = Some n \<Longrightarrow> n < 2 ^ w"
  by (auto simp: parse_unsigned_def Let_def split: if_splits list.splits)

lemma parse_unsigned_Nil [simp]: "parse_unsigned w [] = None"
  by (simp add: parse_unsigned_def)

subsection \<open>Hexadecimal text\<close>

definition hex_char :: "nat \<Rightarrow> char" where
  "hex_char d = (if d < 10 then char_of (48 + d) else char_of (87 + d))"

text \<open>The format \<open>{:0kx}\<close> of a value below \<open>16 ^ k\<close>: exactly \<open>k\<close> lower-case digits.\<close>

fun hex_fixed :: "nat \<Rightarrow> nat \<Rightarrow> string" where
  "hex_fixed 0 n = []"
| "hex_fixed (Suc k) n = hex_fixed k (n div 16) @ [hex_char (n mod 16)]"

lemma length_hex_fixed [simp]: "length (hex_fixed k n) = k"
  by (induction k arbitrary: n) auto

lemma of_char_hex_char: "d < 16 \<Longrightarrow> (of_char (hex_char d) :: nat) = (if d < 10 then 48 + d else 87 + d)"
  by (simp add: hex_char_def)

lemma hex_char_inj: "d < 16 \<Longrightarrow> e < 16 \<Longrightarrow> hex_char d = hex_char e \<longleftrightarrow> d = e"
proof
  assume d: "d < 16" and e: "e < 16" and "hex_char d = hex_char e"
  then have "(of_char (hex_char d) :: nat) = of_char (hex_char e)" by simp
  with d e show "d = e" by (simp add: of_char_hex_char split: if_splits)
qed simp

lemma hex_fixed_inj: "m < 16 ^ k \<Longrightarrow> n < 16 ^ k \<Longrightarrow> hex_fixed k m = hex_fixed k n \<Longrightarrow> m = n"
proof (induction k arbitrary: m n)
  case (Suc k)
  from Suc.prems have "m div 16 < 16 ^ k" "n div 16 < 16 ^ k"
    by (simp_all add: less_mult_imp_div_less mult.commute)
  moreover from Suc.prems(3) have "hex_fixed k (m div 16) = hex_fixed k (n div 16)"
    and "m mod 16 = n mod 16"
    by (simp_all add: hex_char_inj)
  ultimately have "m div 16 = n div 16" "m mod 16 = n mod 16"
    using Suc.IH by blast+
  then show ?case by (metis div_mult_mod_eq)
qed simp

end
