(* ===== verification/Rust_Maps.thy ===== *)
theory Rust_Maps
  imports Rust_Numbers
begin

text \<open>
  The two interfaces several components rely on. \<open>rust_map\<close> is what a client of
  \<open>HashMap\<close> or \<open>BTreeMap\<close> may use of it; both are association lists, the hash map with
  its keys in no promised order and the tree map sorted by key, and both interpret the
  locale. \<open>codec\<close> is a pair of an encoder and a decoder with a round trip; the wire
  formats of the crate interpret it.
\<close>

subsection \<open>Maps\<close>

locale rust_map =
  fixes insert :: "'k \<Rightarrow> 'v \<Rightarrow> ('k \<times> 'v) list \<Rightarrow> ('k \<times> 'v) list"
    and remove :: "'k \<Rightarrow> ('k \<times> 'v) list \<Rightarrow> ('k \<times> 'v) list"
    and inv :: "('k \<times> 'v) list \<Rightarrow> bool"
  assumes inv_Nil: "inv []"
    and inv_insert: "inv m \<Longrightarrow> inv (insert k v m)"
    and inv_remove: "inv m \<Longrightarrow> inv (remove k m)"
    and inv_distinct: "inv m \<Longrightarrow> distinct (map fst m)"
    and get_insert: "inv m \<Longrightarrow> map_of (insert k v m) = (map_of m)(k \<mapsto> v)"
    and get_remove: "inv m \<Longrightarrow> map_of (remove k m) = (map_of m)(k := None)"
begin

lemma entry_iff: "inv m \<Longrightarrow> (k, v) \<in> set m \<longleftrightarrow> map_of m k = Some v"
  by (simp add: inv_distinct)

lemma length_filter_card:
  assumes "inv m"
  shows "length (filter P m) = card {(k, v). map_of m k = Some v \<and> P (k, v)}"
proof -
  have "distinct m" using assms inv_distinct distinct_map by blast
  then have "length (filter P m) = card (set (filter P m))"
    by (metis distinct_card distinct_filter)
  moreover have "set (filter P m) = {(k, v). map_of m k = Some v \<and> P (k, v)}"
    using entry_iff [OF assms] by auto
  ultimately show ?thesis by simp
qed

lemma finite_entries: "finite {(k, v). map_of m k = Some v \<and> P (k, v)}"
  by (rule finite_subset [of _ "set m"]) (auto dest: map_of_SomeD)

lemma count_insert_new:
  assumes "inv m" and "map_of m k = None"
  shows "length (filter P (insert k v m)) = length (filter P m) + (if P (k, v) then 1 else 0)"
proof -
  let ?S = "\<lambda>g. {(k', v'). g k' = Some v' \<and> P (k', v')}"
  have "?S ((map_of m)(k \<mapsto> v)) = (if P (k, v) then Set.insert (k, v) (?S (map_of m)) else ?S (map_of m))"
    using assms(2) by (auto split: if_splits)
  moreover have "(k, v) \<notin> ?S (map_of m)" using assms(2) by simp
  ultimately show ?thesis
    using assms inv_insert get_insert finite_entries [of m P]
    by (simp add: length_filter_card)
qed

lemma count_remove:
  assumes "inv m" and "map_of m k = Some v"
  shows "length (filter P m) = length (filter P (remove k m)) + (if P (k, v) then 1 else 0)"
proof -
  let ?S = "\<lambda>g. {(k', v'). g k' = Some v' \<and> P (k', v')}"
  have "?S (map_of m) = (if P (k, v) then Set.insert (k, v) (?S ((map_of m)(k := None)))
    else ?S ((map_of m)(k := None)))"
    using assms(2) by (auto split: if_splits)
  moreover have "(k, v) \<notin> ?S ((map_of m)(k := None))" by simp
  moreover have "finite (?S ((map_of m)(k := None)))"
    by (rule finite_subset [OF _ finite_entries [of m P]]) (auto split: if_splits)
  ultimately show ?thesis
    using assms inv_remove get_remove by (simp add: length_filter_card)
qed

lemma size_insert:
  assumes "inv m"
  shows "length (insert k v m) = (if map_of m k = None then Suc (length m) else length m)"
proof (cases "map_of m k")
  case None
  then show ?thesis using count_insert_new [OF assms None, of "\<lambda>_. True"] by simp
next
  case (Some w)
  have "length (insert k v m) = length (remove k (insert k v m)) + 1"
    using count_remove [of "insert k v m" k v "\<lambda>_. True"] assms inv_insert get_insert by simp
  moreover have "length m = length (remove k m) + 1"
    using count_remove [OF assms Some, of "\<lambda>_. True"] by simp
  moreover have "length (remove k (insert k v m)) = length (remove k m)"
    using length_filter_card [of "remove k (insert k v m)" "\<lambda>_. True"]
      length_filter_card [of "remove k m" "\<lambda>_. True"] assms inv_insert inv_remove get_insert get_remove
    by simp
  ultimately show ?thesis using Some by simp
qed

lemma inv_fold_remove: "inv m \<Longrightarrow> inv (fold remove ks m)"
  by (induction ks arbitrary: m) (auto simp: inv_remove)

lemma get_fold_remove: "inv m \<Longrightarrow> map_of (fold remove ks m) k = (if k \<in> set ks then None else map_of m k)"
  by (induction ks arbitrary: m) (auto simp: inv_remove get_remove)

end

text \<open>\<open>HashMap\<close>: no order of the entries is promised.\<close>

abbreviation hm_insert :: "'k \<Rightarrow> 'v \<Rightarrow> ('k \<times> 'v) list \<Rightarrow> ('k \<times> 'v) list" where
  "hm_insert \<equiv> AList.update"
abbreviation hm_remove :: "'k \<Rightarrow> ('k \<times> 'v) list \<Rightarrow> ('k \<times> 'v) list" where
  "hm_remove \<equiv> AList.delete"

definition hm_inv :: "('k \<times> 'v) list \<Rightarrow> bool" where
  "hm_inv m \<longleftrightarrow> distinct (map fst m)"

interpretation hash_map: rust_map hm_insert hm_remove hm_inv
  by unfold_locales (auto simp: hm_inv_def AList.distinct_update AList.distinct_delete
      AList.update_conv' AList.delete_conv')

text \<open>\<open>BTreeMap\<close>: the entries in ascending key order, which its iterators follow.\<close>

fun bt_insert :: "'k::linorder \<Rightarrow> 'v \<Rightarrow> ('k \<times> 'v) list \<Rightarrow> ('k \<times> 'v) list" where
  "bt_insert k v [] = [(k, v)]"
| "bt_insert k v ((a, b) # m) =
     (if k < a then (k, v) # (a, b) # m
      else if k = a then (k, v) # m else (a, b) # bt_insert k v m)"

definition bt_remove :: "'k::linorder \<Rightarrow> ('k \<times> 'v) list \<Rightarrow> ('k \<times> 'v) list" where
  "bt_remove k m = filter (\<lambda>p. fst p \<noteq> k) m"

definition bt_inv :: "('k::linorder \<times> 'v) list \<Rightarrow> bool" where
  "bt_inv m \<longleftrightarrow> sorted_wrt (<) (map fst m)"

lemma set_bt_insert: "fst ` set (bt_insert k v m) = Set.insert k (fst ` set m)"
  by (induction k v m rule: bt_insert.induct) auto

lemma bt_inv_insert: "bt_inv m \<Longrightarrow> bt_inv (bt_insert k v m)"
proof (induction k v m rule: bt_insert.induct)
  case (2 k v a b m)
  then show ?case
    using set_bt_insert [of k v m] by (fastforce simp: bt_inv_def)
qed (simp add: bt_inv_def)

lemma bt_inv_remove: "bt_inv m \<Longrightarrow> bt_inv (bt_remove k m)"
  unfolding bt_inv_def bt_remove_def
  by (simp add: sorted_wrt_map sorted_wrt_filter)

lemma bt_inv_distinct: "bt_inv m \<Longrightarrow> distinct (map fst m)"
  unfolding bt_inv_def by (metis strict_sorted_iff)

lemma bt_get_insert: "map_of (bt_insert k v m) = (map_of m)(k \<mapsto> v)"
  by (induction k v m rule: bt_insert.induct) (auto simp: fun_eq_iff)

lemma bt_get_remove: "map_of (bt_remove k m) = (map_of m)(k := None)"
  unfolding bt_remove_def by (induction m) (auto simp: fun_eq_iff)

interpretation btree_map: rust_map bt_insert bt_remove bt_inv
proof unfold_locales
  show "bt_inv []" by (simp add: bt_inv_def)
qed (simp_all add: bt_inv_insert bt_inv_remove bt_inv_distinct bt_get_insert bt_get_remove)

lemmas [map_laws] = bt_get_insert bt_get_remove AList.update_conv' AList.delete_conv'

text \<open>\<open>values_mut\<close> on an entry: the key keeps its place.\<close>

definition bt_modify :: "'k::linorder \<Rightarrow> ('v \<Rightarrow> 'v) \<Rightarrow> ('k \<times> 'v) list \<Rightarrow> ('k \<times> 'v) list" where
  "bt_modify k f m = map (\<lambda>(a, b). (a, if a = k then f b else b)) m"

lemma map_fst_bt_modify [simp]: "map fst (bt_modify k f m) = map fst m"
  by (simp add: bt_modify_def comp_def case_prod_unfold)

lemma bt_inv_modify [simp]: "bt_inv (bt_modify k f m) = bt_inv m"
  by (simp add: bt_inv_def)

lemma bt_get_modify [map_laws]:
  "map_of (bt_modify k f m) a = (if a = k then map_option f (map_of m a) else map_of m a)"
  by (induction m) (auto simp: bt_modify_def)

subsection \<open>Encoders and decoders\<close>

locale codec =
  fixes enc :: "'a \<Rightarrow> 'b" and dec :: "'b \<Rightarrow> 'e + 'a" and wf :: "'a \<Rightarrow> bool"
  assumes dec_enc: "wf x \<Longrightarrow> dec (enc x) = Ok x"
begin

lemma enc_inj: "wf x \<Longrightarrow> wf y \<Longrightarrow> enc x = enc y \<longleftrightarrow> x = y"
  using dec_enc by (metis sum.inject(2))

lemma dec_enc_iff: "wf x \<Longrightarrow> wf y \<Longrightarrow> dec (enc x) = Ok y \<longleftrightarrow> x = y"
  using dec_enc by auto

lemma dec_canonical: "dec b = Ok x \<Longrightarrow> wf x \<Longrightarrow> dec (enc x) = dec b"
  using dec_enc by simp

end

text \<open>A decoder that only accepts what the encoder can decode again.\<close>

locale total_codec = codec +
  assumes dec_wf: "dec b = Ok x \<Longrightarrow> wf x"
begin

lemma reencode: "dec b = Ok x \<Longrightarrow> dec (enc x) = Ok x"
  using dec_enc dec_wf by blast

lemma reencode_fixpoint: "dec b = Ok x \<Longrightarrow> dec (enc x) = Ok y \<Longrightarrow> enc y = enc x"
  using reencode by (metis sum.inject(2))

end

end
