(* ===== verification/Ros_Names.thy ===== *)
theory Ros_Names
  imports Rust_Maps
begin

text \<open>
  ROS 2 names (\<open>src/src/names.rs\<close>): node names, topic and service names, and the type
  names of messages, services and actions, with the checks of their constructors, their
  parser and printer, and the conversions to DDS names.
\<close>

subsection \<open>The model\<close>

record node_name =
  node_namespace :: string
  node_base_name :: string

datatype name_error = Empty | BadChar rust_char | BadSlash string string

record name =
  base_name :: string
  preceeding_tokens :: "string list"
  absolute :: bool

definition name_start :: "char \<Rightarrow> bool" where
  "name_start c \<longleftrightarrow> is_ascii_alphabetic c \<or> c = CHR ''_''"

definition name_char :: "char \<Rightarrow> bool" where
  "name_char c \<longleftrightarrow> is_ascii_alphanumeric c \<or> c = CHR ''_''"

definition namespace_char :: "char \<Rightarrow> bool" where
  "namespace_char c \<longleftrightarrow> is_ascii_alphanumeric c \<or> c = CHR ''_'' \<or> c = CHR ''/''"

definition node_name_new :: "string \<Rightarrow> string \<Rightarrow> name_error + node_name" where
  "node_name_new namespace base =
     (case utf8_chars base of
        [] \<Rightarrow> Err Empty
      | b # _ \<Rightarrow>
          if \<not> on_ascii name_start b then Err (BadChar b)
          else (case find (\<lambda>c. \<not> on_ascii name_char c) (utf8_chars base) of
              Some bad \<Rightarrow> Err (BadChar bad)
            | None \<Rightarrow>
                (case utf8_chars namespace of
                   [] \<Rightarrow> Err (BadSlash ''<empty_namespace>'' base)
                 | n # _ \<Rightarrow>
                     if \<not> on_ascii (\<lambda>c. is_ascii_alphabetic c \<or> c = CHR ''/'') n then Err (BadChar n)
                     else if \<not> starts_with_char (\<lambda>c. c = CHR ''/'') namespace
                     then Err (BadSlash namespace base)
                     else (case find (\<lambda>c. \<not> on_ascii namespace_char c) (utf8_chars namespace) of
                         Some bad \<Rightarrow> Err (BadChar bad)
                       | None \<Rightarrow>
                           if ends_with_char (CHR ''/'') namespace \<and> namespace \<noteq> ''/''
                           then Err (BadSlash namespace base)
                           else Ok \<lparr>node_namespace = namespace, node_base_name = base\<rparr>))))"

definition fully_qualified_name :: "node_name \<Rightarrow> string" where
  "fully_qualified_name n =
     (if ends_with_char (CHR ''/'') (node_namespace n) then node_namespace n
      else node_namespace n @ ''/'') @ node_base_name n"

definition name_new :: "string \<Rightarrow> string \<Rightarrow> name_error + name" where
  "name_new namespace base =
     (let (namespace_rel, is_abs) =
        (case strip_prefix_char (CHR ''/'') namespace of
           Some rel \<Rightarrow> (rel, True) | None \<Rightarrow> (namespace, False))
      in
      if base = [] then Err Empty
      else (case find (\<lambda>c. \<not> on_ascii name_char c) (utf8_chars base) of
          Some bad \<Rightarrow> Err (BadChar bad)
        | None \<Rightarrow>
          if \<not> starts_with_char name_start base
          then Err (BadChar (case utf8_chars base of [] \<Rightarrow> ''?'' | c # _ \<Rightarrow> c))
          else if contains_str ''__'' base then Err (BadChar ''_'')
          else
            (let toks = (if namespace_rel = [] then [] else split_on (CHR ''/'') namespace_rel)
             in if list_ex (\<lambda>t. t = []) toks then Err (BadSlash namespace_rel base)
                else if list_all (\<lambda>tok. list_all (on_ascii name_char) (utf8_chars tok)
                       \<and> starts_with_char name_start tok \<and> \<not> contains_str ''__'' tok) toks
                then Ok \<lparr>base_name = base, preceeding_tokens = toks, absolute = is_abs\<rparr>
                else Err (BadChar ''?''))))"

definition name_parse :: "string \<Rightarrow> name_error + name" where
  "name_parse full =
     (case rsplit_once (CHR ''/'') full of
        None \<Rightarrow> name_new '''' full
      | Some (pre, base) \<Rightarrow>
          if base = [] then (if pre = [] then Err Empty else Err (BadSlash pre ''''))
          else if pre = [] then name_new ''/'' base
          else if ends_with_char (CHR ''/'') pre then Err (BadSlash pre base)
          else name_new pre base)"

text \<open>\<open>to_dds_name\<close> asserts that the kind prefix does not end in a slash: \<open>None\<close> is the panic.\<close>

definition to_dds_name :: "name \<Rightarrow> string \<Rightarrow> node_name \<Rightarrow> string \<Rightarrow> string option" where
  "to_dds_name n kind_prefix node suffix =
     (if ends_with_char (CHR ''/'') kind_prefix then None
      else Some (kind_prefix
        @ (if absolute n then '''' else node_namespace node)
        @ ''/'' @ concat (map (\<lambda>tok. tok @ ''/'') (preceeding_tokens n))
        @ base_name n @ suffix))"

definition name_push :: "name \<Rightarrow> string \<Rightarrow> name" where
  "name_push n new_suffix =
     \<lparr>base_name = new_suffix, preceeding_tokens = preceeding_tokens n @ [base_name n],
      absolute = absolute n\<rparr>"

text \<open>\<open>Display\<close> of a name.\<close>

definition show_name :: "name \<Rightarrow> string" where
  "show_name n = (if absolute n then ''/'' else '''')
     @ concat (map (\<lambda>t. t @ ''/'') (preceeding_tokens n)) @ base_name n"

record message_type_name =
  msg_prefix :: string
  ros2_package_name :: string
  ros2_type_name :: string

definition message_type_name_new :: "string \<Rightarrow> string \<Rightarrow> message_type_name" where
  "message_type_name_new pkg ty =
     \<lparr>msg_prefix = ''msg'', ros2_package_name = pkg, ros2_type_name = ty\<rparr>"

definition message_type_name_new_prefix :: "string \<Rightarrow> string \<Rightarrow> string \<Rightarrow> message_type_name" where
  "message_type_name_new_prefix pkg ty prefix =
     \<lparr>msg_prefix = prefix, ros2_package_name = pkg, ros2_type_name = ty\<rparr>"

definition slash_to_colons :: "string \<Rightarrow> string" where
  "slash_to_colons s = replace_char (CHR ''/'') ''::'' s"

definition dds_msg_type :: "message_type_name \<Rightarrow> string" where
  "dds_msg_type m = slash_to_colons (ros2_package_name m @ ''/'' @ msg_prefix m @ ''/dds_/''
     @ ros2_type_name m @ ''_'')"

record service_type_name =
  srv_prefix :: string
  srv_msg :: message_type_name

definition service_type_name_new :: "string \<Rightarrow> string \<Rightarrow> service_type_name" where
  "service_type_name_new pkg ty = \<lparr>srv_prefix = ''srv'', srv_msg = message_type_name_new pkg ty\<rparr>"

definition service_type_name_new_prefix :: "string \<Rightarrow> string \<Rightarrow> string \<Rightarrow> service_type_name" where
  "service_type_name_new_prefix pkg ty prefix =
     \<lparr>srv_prefix = prefix, srv_msg = message_type_name_new pkg ty\<rparr>"

definition dds_service_type :: "service_type_name \<Rightarrow> string" where
  "dds_service_type s = slash_to_colons (ros2_package_name (srv_msg s) @ ''/'' @ srv_prefix s
     @ ''/dds_/'' @ ros2_type_name (srv_msg s) @ ''_'')"

definition dds_request_type :: "service_type_name \<Rightarrow> string" where
  "dds_request_type s = slash_to_colons (ros2_package_name (srv_msg s) @ ''/'' @ srv_prefix s
     @ ''/dds_/'' @ ros2_type_name (srv_msg s) @ ''_Request_'')"

definition dds_response_type :: "service_type_name \<Rightarrow> string" where
  "dds_response_type s = slash_to_colons (ros2_package_name (srv_msg s) @ ''/'' @ srv_prefix s
     @ ''/dds_/'' @ ros2_type_name (srv_msg s) @ ''_Response_'')"

datatype action_type_name = ActionTypeName message_type_name

definition action_type_name_new :: "string \<Rightarrow> string \<Rightarrow> action_type_name" where
  "action_type_name_new pkg ty = ActionTypeName (message_type_name_new pkg ty)"

fun dds_action_topic :: "action_type_name \<Rightarrow> string \<Rightarrow> message_type_name" where
  "dds_action_topic (ActionTypeName m) topic =
     message_type_name_new_prefix (ros2_package_name m) (ros2_type_name m @ topic) ''action''"

fun dds_action_service :: "action_type_name \<Rightarrow> string \<Rightarrow> service_type_name" where
  "dds_action_service (ActionTypeName m) srv =
     service_type_name_new_prefix (ros2_package_name m) (ros2_type_name m @ srv) ''action''"

record action_type_hashes =
  send_goal_hash :: string
  get_result_hash :: string
  feedback_message_hash :: string

subsection \<open>What a well-formed name is\<close>

text \<open>The grammar the constructors enforce, stated without their control flow.\<close>

definition wf_token :: "string \<Rightarrow> bool" where
  "wf_token t \<longleftrightarrow> t \<noteq> [] \<and> list_all name_char t \<and> name_start (hd t) \<and> \<not> contains_str ''__'' t"

definition wf_name :: "name \<Rightarrow> bool" where
  "wf_name n \<longleftrightarrow> wf_token (base_name n) \<and> list_all wf_token (preceeding_tokens n)"

definition wf_node_base :: "string \<Rightarrow> bool" where
  "wf_node_base b \<longleftrightarrow> b \<noteq> [] \<and> name_start (hd b) \<and> list_all name_char b"

definition wf_node_namespace :: "string \<Rightarrow> bool" where
  "wf_node_namespace ns \<longleftrightarrow> ns \<noteq> [] \<and> hd ns = CHR ''/'' \<and> list_all namespace_char ns
     \<and> (last ns = CHR ''/'' \<longrightarrow> ns = ''/'')"

definition wf_node_name :: "node_name \<Rightarrow> bool" where
  "wf_node_name n \<longleftrightarrow> wf_node_base (node_base_name n) \<and> wf_node_namespace (node_namespace n)"

text \<open>The tokens of a namespace and whether it is absolute.\<close>

definition namespace_parts :: "string \<Rightarrow> string list \<times> bool" where
  "namespace_parts ns =
     (case strip_prefix_char (CHR ''/'') ns of
        Some rel \<Rightarrow> (if rel = [] then [] else split_on (CHR ''/'') rel, True)
      | None \<Rightarrow> (if ns = [] then [] else split_on (CHR ''/'') ns, False))"

subsection \<open>The constructors accept exactly the grammar\<close>

lemma name_char_not_cont: "name_char c \<Longrightarrow> \<not> is_utf8_cont c"
  by (auto simp: name_char_def is_utf8_cont_def dest: is_ascii_alphanumeric_not_cont)

lemma namespace_char_not_cont: "namespace_char c \<Longrightarrow> \<not> is_utf8_cont c"
  by (auto simp: namespace_char_def is_utf8_cont_def dest: is_ascii_alphanumeric_not_cont)

lemma name_start_name_char: "name_start c \<Longrightarrow> name_char c"
  by (auto simp: name_start_def name_char_def is_ascii_alphanumeric_def)

lemmas list_all_name_chars = list_all_utf8_chars [of name_char, OF name_char_not_cont]
lemmas list_all_namespace_chars = list_all_utf8_chars [of namespace_char, OF namespace_char_not_cont]

lemma find_not_None: "find (\<lambda>c. \<not> P c) xs = None \<longleftrightarrow> list_all P xs"
  by (auto simp: find_None_iff list_all_iff)

lemma hd_on_ascii:
  assumes "utf8_chars s = g # gs" and "list_all p s" and "\<And>c. p c \<Longrightarrow> \<not> is_utf8_cont c"
  shows "on_ascii q g \<longleftrightarrow> q (hd s)"
proof -
  have "utf8_chars s = map (\<lambda>c. [c]) s"
    using assms(2,3) by (intro utf8_chars_ascii) (auto simp: list_all_iff)
  with assms(1) show ?thesis by (cases s) auto
qed

lemma slash_not_name_char [simp]: "\<not> name_char (CHR ''/'')"
  by (simp add: name_char_def is_ascii_alphanumeric_def is_ascii_alphabetic_def is_ascii_digit_def)

lemma percent_not_namespace_char [simp]: "\<not> namespace_char (CHR ''%'')"
  by (simp add: namespace_char_def is_ascii_alphanumeric_def is_ascii_alphabetic_def is_ascii_digit_def)

lemma percent_not_name_char [simp]: "\<not> name_char (CHR ''%'')"
  by (simp add: name_char_def is_ascii_alphanumeric_def is_ascii_alphabetic_def is_ascii_digit_def)

lemma wf_token_no_slash: "wf_token t \<Longrightarrow> CHR ''/'' \<notin> set t"
  by (auto simp: wf_token_def list_all_iff)

lemma wf_node_base_no_slash: "wf_node_base b \<Longrightarrow> CHR ''/'' \<notin> set b"
  by (auto simp: wf_node_base_def list_all_iff)

text \<open>\<open>Name::new\<close> in terms of the grammar.\<close>

lemma wf_token_checks:
  "b \<noteq> [] \<and> find (\<lambda>c. \<not> on_ascii name_char c) (utf8_chars b) = None
    \<and> starts_with_char name_start b \<and> \<not> contains_str ''__'' b \<longleftrightarrow> wf_token b"
  by (auto simp: find_not_None wf_token_def list_all_name_chars starts_with_char_iff)

lemma wf_tokens_checks:
  "\<not> list_ex (\<lambda>t. t = []) ts \<and> list_all (\<lambda>tok. list_all (on_ascii name_char) (utf8_chars tok)
      \<and> starts_with_char name_start tok \<and> \<not> contains_str ''__'' tok) ts \<longleftrightarrow> list_all wf_token ts"
  by (induction ts) (auto simp: wf_token_def list_all_name_chars starts_with_char_iff)

lemma name_new_Ok:
  "name_new ns b = Ok n \<longleftrightarrow>
     wf_token b \<and> list_all wf_token (fst (namespace_parts ns)) \<and>
     n = \<lparr>base_name = b, preceeding_tokens = fst (namespace_parts ns),
          absolute = snd (namespace_parts ns)\<rparr>"
proof -
  obtain ts a rel where np: "namespace_parts ns = (ts, a)"
    "(case strip_prefix_char (CHR ''/'') ns of Some rel \<Rightarrow> (rel, True) | None \<Rightarrow> (ns, False)) = (rel, a)"
    "(if rel = [] then [] else split_on (CHR ''/'') rel) = ts"
    by (cases "strip_prefix_char (CHR ''/'') ns") (auto simp: namespace_parts_def)
  show ?thesis
  proof (cases "wf_token b")
    case True
    with wf_token_checks [of b] have "b \<noteq> []" "starts_with_char name_start b" "\<not> contains_str ''__'' b"
      "find (\<lambda>c. \<not> on_ascii name_char c) (utf8_chars b) = None"
      by simp_all
    then have "name_new ns b = Ok n \<longleftrightarrow>
      \<not> list_ex (\<lambda>t. t = []) ts \<and> list_all (\<lambda>tok. list_all (on_ascii name_char) (utf8_chars tok)
      \<and> starts_with_char name_start tok \<and> \<not> contains_str ''__'' tok) ts \<and>
      \<lparr>base_name = b, preceeding_tokens = ts, absolute = a\<rparr> = n"
      by (simp add: name_new_def np)
    with True np(1) wf_tokens_checks [of ts] show ?thesis by auto
  next
    case False
    with wf_token_checks [of b] have "name_new ns b \<noteq> Ok n"
      by (auto simp: name_new_def np Let_def split: option.splits if_splits)
    with False show ?thesis by simp
  qed
qed

lemma name_new_wf: "name_new ns b = Ok n \<Longrightarrow> wf_name n"
  by (auto simp: name_new_Ok wf_name_def)

lemma name_parse_wf: "name_parse s = Ok n \<Longrightarrow> wf_name n"
  unfolding name_parse_def by (auto split: option.splits if_splits intro: name_new_wf)

subsection \<open>Printing and parsing\<close>

lemma concat_slash: "ts \<noteq> [] \<Longrightarrow> concat (map (\<lambda>t. t @ ''/'') ts) = join_with (CHR ''/'') ts @ ''/''"
  by (induction "CHR ''/''" ts rule: join_with.induct) auto

lemma hd_join_with: "ts \<noteq> [] \<Longrightarrow> hd ts \<noteq> [] \<Longrightarrow> join_with c ts \<noteq> [] \<and> hd (join_with c ts) = hd (hd ts)"
  by (cases "(c, ts)" rule: join_with.cases) auto

lemma last_join_with: "ts \<noteq> [] \<Longrightarrow> last ts \<noteq> [] \<Longrightarrow> join_with c ts \<noteq> [] \<and> last (join_with c ts) = last (last ts)"
  by (induction c ts rule: join_with.induct) auto

lemma wf_tokens_join:
  assumes "list_all wf_token ts" and "ts \<noteq> []"
  shows "split_on (CHR ''/'') (join_with (CHR ''/'') ts) = ts"
    and "strip_prefix_char (CHR ''/'') (join_with (CHR ''/'') ts) = None"
    and "\<not> ends_with_char (CHR ''/'') (join_with (CHR ''/'') ts)"
    and "join_with (CHR ''/'') ts \<noteq> []"
proof -
  have hd: "wf_token (hd ts)" and la: "wf_token (last ts)"
    using assms by (auto simp: list_all_iff)
  have ne: "hd ts \<noteq> []" "last ts \<noteq> []" using hd la by (auto simp: wf_token_def)
  note j = hd_join_with [OF assms(2) ne(1), of "CHR ''/''"] last_join_with [OF assms(2) ne(2), of "CHR ''/''"]
  show "split_on (CHR ''/'') (join_with (CHR ''/'') ts) = ts"
    using assms by (intro split_on_join) (auto simp: list_all_iff dest: wf_token_no_slash)
  have "hd (hd ts) \<noteq> CHR ''/''" "last (last ts) \<noteq> CHR ''/''"
    using wf_token_no_slash [OF hd] wf_token_no_slash [OF la] ne
    by (metis list.set_sel(1), metis last_in_set)
  with j show "strip_prefix_char (CHR ''/'') (join_with (CHR ''/'') ts) = None"
    and "\<not> ends_with_char (CHR ''/'') (join_with (CHR ''/'') ts)"
    and "join_with (CHR ''/'') ts \<noteq> []"
    by (auto simp: strip_prefix_char_def ends_with_char_def split: list.splits)
qed

lemma name_parse_show: "wf_name n \<Longrightarrow> name_parse (show_name n) = Ok n"
proof -
  assume wf: "wf_name n"
  let ?b = "base_name n" and ?ts = "preceeding_tokens n" and ?s = "CHR ''/''"
  have b: "wf_token ?b" "?s \<notin> set ?b" "?b \<noteq> []" and ts: "list_all wf_token ?ts"
    using wf wf_token_no_slash by (auto simp: wf_name_def wf_token_def)
  show ?thesis
  proof (cases "?ts = []")
    case True
    show ?thesis
    proof (cases "absolute n")
      case abs: True
      have "rsplit_once ?s ([] @ ?s # ?b) = Some ([], ?b)" using b by (intro rsplit_once_append)
      with abs True b show ?thesis
        by (simp add: show_name_def name_parse_def name_new_Ok namespace_parts_def strip_prefix_char_def)
    next
      case False
      with True b show ?thesis
        by (simp add: show_name_def name_parse_def rsplit_once_None name_new_Ok namespace_parts_def
            strip_prefix_char_def iffD2 [OF rsplit_once_None])
    qed
  next
    case False
    note j = wf_tokens_join [OF ts False]
    let ?pre = "(if absolute n then [?s] else []) @ join_with ?s ?ts"
    have "show_name n = ?pre @ ?s # ?b" using False by (simp add: show_name_def concat_slash)
    then have "rsplit_once ?s (show_name n) = Some (?pre, ?b)"
      using rsplit_once_append [OF b(2), of ?pre] by simp
    moreover have "?pre \<noteq> []" "\<not> ends_with_char ?s ?pre"
      using j(3,4) by (auto simp: ends_with_char_def)
    moreover have "namespace_parts ?pre = (?ts, absolute n)"
      using j by (auto simp: namespace_parts_def strip_prefix_char_def)
    ultimately show ?thesis using b ts by (simp add: name_parse_def name_new_Ok)
  qed
qed

interpretation names: total_codec show_name name_parse wf_name
  by unfold_locales (rule name_parse_show, assumption, rule name_parse_wf)

subsection \<open>Node names\<close>

lemma node_base_ok:
  "(case utf8_chars b of [] \<Rightarrow> False | g # _ \<Rightarrow> on_ascii name_start g) \<and>
     find (\<lambda>c. \<not> on_ascii name_char c) (utf8_chars b) = None \<longleftrightarrow> wf_node_base b"
proof (cases "list_all name_char b \<and> b \<noteq> []")
  case True
  then obtain g gs where g: "utf8_chars b = g # gs" by (cases "utf8_chars b") auto
  have "find (\<lambda>c. \<not> on_ascii name_char c) (utf8_chars b) = None"
    using True by (simp add: find_not_None list_all_name_chars)
  moreover have "on_ascii name_start g \<longleftrightarrow> name_start (hd b)"
    using True by (intro hd_on_ascii [OF g, of name_char]) (simp_all add: name_char_not_cont)
  ultimately show ?thesis using True g by (simp add: wf_node_base_def)
next
  case False
  then show ?thesis by (auto simp: wf_node_base_def find_not_None list_all_name_chars)
qed

lemma node_namespace_ok:
  "(case utf8_chars ns of [] \<Rightarrow> False
      | g # _ \<Rightarrow> on_ascii (\<lambda>c. is_ascii_alphabetic c \<or> c = CHR ''/'') g) \<and>
     starts_with_char (\<lambda>c. c = CHR ''/'') ns \<and>
     find (\<lambda>c. \<not> on_ascii namespace_char c) (utf8_chars ns) = None \<and>
     (ends_with_char (CHR ''/'') ns \<longrightarrow> ns = ''/'') \<longleftrightarrow> wf_node_namespace ns"
proof (cases "list_all namespace_char ns \<and> ns \<noteq> []")
  case True
  then obtain g gs where g: "utf8_chars ns = g # gs" by (cases "utf8_chars ns") auto
  have "find (\<lambda>c. \<not> on_ascii namespace_char c) (utf8_chars ns) = None"
    using True by (simp add: find_not_None list_all_namespace_chars)
  moreover have "on_ascii (\<lambda>c. is_ascii_alphabetic c \<or> c = CHR ''/'') g \<longleftrightarrow>
      is_ascii_alphabetic (hd ns) \<or> hd ns = CHR ''/''"
    using True by (intro hd_on_ascii [OF g, of namespace_char]) (simp_all add: namespace_char_not_cont)
  ultimately show ?thesis
    using True g by (simp add: wf_node_namespace_def starts_with_char_iff ends_with_char_def) blast
next
  case False
  then show ?thesis by (auto simp: wf_node_namespace_def find_not_None list_all_namespace_chars)
qed

lemma node_name_new_Ok:
  "node_name_new ns b = Ok n \<longleftrightarrow>
     wf_node_base b \<and> wf_node_namespace ns \<and> n = \<lparr>node_namespace = ns, node_base_name = b\<rparr>"
proof (cases "wf_node_base b")
  case True
  then have b: "find (\<lambda>c. \<not> on_ascii name_char c) (utf8_chars b) = None"
    "\<exists>g gs. utf8_chars b = g # gs \<and> on_ascii name_start g"
    using node_base_ok [of b] by (auto split: list.splits)
  show ?thesis
  proof (cases "wf_node_namespace ns")
    case ns: True
    then show ?thesis
      using True b node_namespace_ok [of ns]
      by (auto simp: node_name_new_def split: list.splits)
  next
    case False
    then have "node_name_new ns b \<noteq> Ok n"
      using b node_namespace_ok [of ns]
      by (simp add: node_name_new_def split: list.split option.split) auto
    with False show ?thesis by simp
  qed
next
  case False
  then have "node_name_new ns b \<noteq> Ok n"
    using node_base_ok [of b] by (auto simp: node_name_new_def split: list.split option.split)
  with False show ?thesis by simp
qed

lemma rsplit_fully_qualified_name:
  assumes "wf_node_name n"
  shows "rsplit_once (CHR ''/'') (fully_qualified_name n) =
    Some (if node_namespace n = ''/'' then [] else node_namespace n, node_base_name n)"
proof -
  let ?ns = "node_namespace n" and ?b = "node_base_name n"
  have b: "CHR ''/'' \<notin> set ?b" and ns: "wf_node_namespace ?ns"
    using assms wf_node_base_no_slash by (auto simp: wf_node_name_def)
  have "fully_qualified_name n = (if ?ns = ''/'' then [] else ?ns) @ CHR ''/'' # ?b"
    using ns by (cases "?ns = ''/''")
      (simp_all add: fully_qualified_name_def wf_node_namespace_def ends_with_char_def)
  then show ?thesis using rsplit_once_append [OF b] by simp
qed

subsection \<open>DDS names\<close>

lemma to_dds_name_absolute:
  "absolute n \<Longrightarrow> \<not> ends_with_char (CHR ''/'') k \<Longrightarrow>
     to_dds_name n k node suf = Some (k @ show_name n @ suf)"
  by (simp add: to_dds_name_def show_name_def)

lemma to_dds_name_relative:
  "\<not> absolute n \<Longrightarrow> \<not> ends_with_char (CHR ''/'') k \<Longrightarrow>
     to_dds_name n k node suf = Some (k @ node_namespace node @ ''/'' @ show_name n @ suf)"
  by (simp add: to_dds_name_def show_name_def)

lemma slash_to_colons_no_slash: "CHR ''/'' \<notin> set (slash_to_colons s)"
  by (simp add: slash_to_colons_def set_replace_char)

lemma dds_type_no_slash:
  "CHR ''/'' \<notin> set (dds_msg_type m)" "CHR ''/'' \<notin> set (dds_service_type s)"
  "CHR ''/'' \<notin> set (dds_request_type s)" "CHR ''/'' \<notin> set (dds_response_type s)"
  by (simp_all add: dds_msg_type_def dds_service_type_def dds_request_type_def dds_response_type_def
      slash_to_colons_no_slash)

subsection \<open>The namespace of a name, and exactness\<close>

lemma namespace_parts_inverse:
  assumes "list_all wf_token (fst (namespace_parts ns))"
  shows "ns = (if snd (namespace_parts ns) then ''/'' else [])
    @ join_with (CHR ''/'') (fst (namespace_parts ns))"
proof (cases "strip_prefix_char (CHR ''/'') ns")
  case None
  then show ?thesis by (simp add: namespace_parts_def join_split_on)
next
  case (Some rel)
  then have "ns = CHR ''/'' # rel" by (simp add: strip_prefix_char_Some)
  with Some show ?thesis by (simp add: namespace_parts_def join_split_on)
qed

lemma namespace_parts_join:
  assumes "list_all wf_token ts"
  shows "namespace_parts ((if a then ''/'' else []) @ join_with (CHR ''/'') ts) = (ts, a)"
proof (cases "ts = []")
  case True
  then show ?thesis by (simp add: namespace_parts_def strip_prefix_char_def)
next
  case False
  note j = wf_tokens_join [OF assms False]
  show ?thesis
  proof (cases a)
    case True
    with j show ?thesis by (simp add: namespace_parts_def strip_prefix_char_def)
  next
    case False
    with j show ?thesis by (simp add: namespace_parts_def)
  qed
qed

lemma show_name_parse: "name_parse s = Ok n \<Longrightarrow> show_name n = s"
proof -
  assume p: "name_parse s = Ok n"
  show ?thesis
  proof (cases "rsplit_once (CHR ''/'') s")
    case None
    with p show ?thesis
      by (auto simp: name_parse_def name_new_Ok namespace_parts_def strip_prefix_char_def show_name_def)
  next
    case (Some pb)
    then obtain pre b where pb: "pb = (pre, b)" and s: "s = pre @ CHR ''/'' # b"
      by (cases pb) (auto dest: rsplit_once_SomeD)
    show ?thesis
    proof (cases "pre = []")
      case True
      with p Some pb s show ?thesis
        by (auto simp: name_parse_def name_new_Ok namespace_parts_def strip_prefix_char_def show_name_def
            split: if_splits)
    next
      case False
      with p Some pb have n: "name_new pre b = Ok n" and e: "\<not> ends_with_char (CHR ''/'') pre"
        by (auto simp: name_parse_def split: if_splits)
      then have pre: "pre = (if absolute n then ''/'' else []) @ join_with (CHR ''/'') (preceeding_tokens n)"
        and b: "base_name n = b"
        using namespace_parts_inverse [of pre] by (simp_all add: name_new_Ok)
      with False e have "preceeding_tokens n \<noteq> []"
        by (cases "preceeding_tokens n") (auto simp: ends_with_char_def split: if_splits)
      with s pre b show ?thesis by (simp add: show_name_def concat_slash)
    qed
  qed
qed

subsection \<open>Properties\<close>

text \<open>C22. \<open>Name::parse\<close> accepts a string exactly when it is the printed form of a well-formed
  name, and then returns that name: parsing and \<open>Display\<close> are inverse to each other.\<close>

theorem name_parse_exact: "name_parse s = Ok n \<longleftrightarrow> wf_name n \<and> show_name n = s"
  using names.dec_enc names.dec_wf show_name_parse by blast

text \<open>\<open>Name::new\<close> succeeds exactly on the namespaces and base names of well-formed names:
  the namespace is the tokens joined by single slashes, after a slash for an absolute name.\<close>

lemma name_new_exact:
  "name_new ns b = Ok n \<longleftrightarrow>
     wf_name n \<and> base_name n = b \<and>
     ns = (if absolute n then ''/'' else []) @ join_with (CHR ''/'') (preceeding_tokens n)"
proof
  assume "name_new ns b = Ok n"
  then show "wf_name n \<and> base_name n = b \<and>
     ns = (if absolute n then ''/'' else []) @ join_with (CHR ''/'') (preceeding_tokens n)"
    using namespace_parts_inverse [of ns] by (simp add: name_new_Ok wf_name_def)
next
  assume "wf_name n \<and> base_name n = b \<and>
     ns = (if absolute n then ''/'' else []) @ join_with (CHR ''/'') (preceeding_tokens n)"
  then show "name_new ns b = Ok n"
    using namespace_parts_join [of "preceeding_tokens n" "absolute n"]
    by (auto simp: name_new_Ok wf_name_def)
qed

text \<open>\<open>NodeName::new\<close> accepts exactly a base name of letters, digits and underscores that
  does not start with a digit, and a namespace of such characters and slashes that starts
  with a slash and does not end with one unless it is the root.\<close>

lemma node_name_new_exact:
  "node_name_new ns b = Ok n \<longleftrightarrow> wf_node_name n \<and> node_namespace n = ns \<and> node_base_name n = b"
  by (cases n) (auto simp: node_name_new_Ok wf_node_name_def)

text \<open>The fully qualified name identifies a node: two accepted node names with the same
  fully qualified name are the same.\<close>

lemma fully_qualified_name_inj:
  assumes "wf_node_name m" and "wf_node_name n"
  shows "fully_qualified_name m = fully_qualified_name n \<longleftrightarrow> m = n"
proof
  assume "fully_qualified_name m = fully_qualified_name n"
  then have "(if node_namespace m = ''/'' then [] else node_namespace m) =
      (if node_namespace n = ''/'' then [] else node_namespace n)"
    and "node_base_name m = node_base_name n"
    using rsplit_fully_qualified_name [OF assms(1)] rsplit_fully_qualified_name [OF assms(2)] by simp_all
  moreover have "node_namespace m \<noteq> []" "node_namespace n \<noteq> []"
    using assms by (simp_all add: wf_node_name_def wf_node_namespace_def)
  ultimately show "m = n" by (cases m; cases n) (auto split: if_splits)
qed simp

theorem fully_qualified_name_inj_witness:
  "fully_qualified_name \<lparr>node_namespace = ''/robot1'', node_base_name = ''talker''\<rparr>
     \<noteq> fully_qualified_name \<lparr>node_namespace = ''/'', node_base_name = ''talker''\<rparr>"
proof -
  have "wf_node_name \<lparr>node_namespace = ''/robot1'', node_base_name = ''talker''\<rparr>"
    and "wf_node_name \<lparr>node_namespace = ''/'', node_base_name = ''talker''\<rparr>"
    by code_simp+
  from fully_qualified_name_inj [OF this] show ?thesis by simp
qed

text \<open>The DDS name of a relative name in a node of the root namespace has an empty level:
  \<open>to_dds_name\<close> appends the namespace \<open>/\<close> and then another slash.\<close>

lemma to_dds_name_root_double_slash:
  assumes "\<not> absolute n" and "node_namespace node = ''/''" and "\<not> ends_with_char (CHR ''/'') k"
  shows "\<exists>r. to_dds_name n k node suf = Some r \<and> (\<exists>a b. r = a @ ''//'' @ b)"
  using assms by (simp add: to_dds_name_relative) blast

theorem to_dds_name_root_double_slash_witness:
  "to_dds_name \<lparr>base_name = ''chatter'', preceeding_tokens = [], absolute = False\<rparr> ''rt''
     \<lparr>node_namespace = ''/'', node_base_name = ''talker''\<rparr> [] = Some ''rt//chatter'' \<and>
   (\<exists>r. to_dds_name \<lparr>base_name = ''chatter'', preceeding_tokens = [], absolute = False\<rparr> ''rt''
     \<lparr>node_namespace = ''/'', node_base_name = ''talker''\<rparr> [] = Some r \<and> (\<exists>a b. r = a @ ''//'' @ b))"
proof
  show "to_dds_name \<lparr>base_name = ''chatter'', preceeding_tokens = [], absolute = False\<rparr> ''rt''
     \<lparr>node_namespace = ''/'', node_base_name = ''talker''\<rparr> [] = Some ''rt//chatter''"
    by code_simp
next
  show "\<exists>r. to_dds_name \<lparr>base_name = ''chatter'', preceeding_tokens = [], absolute = False\<rparr> ''rt''
     \<lparr>node_namespace = ''/'', node_base_name = ''talker''\<rparr> [] = Some r \<and> (\<exists>a b. r = a @ ''//'' @ b)"
    by (rule to_dds_name_root_double_slash) (simp_all add: ends_with_char_def)
qed

end
