(* ===== verification/Zenoh_Keyexpr.thy ===== *)
theory Zenoh_Keyexpr
  imports Ros_Names
begin

text \<open>
  Zenoh key expressions (\<open>src/src/zenoh_backend/keyexpr.rs\<close>): the data-plane keys of topics
  and services, the liveliness keys of nodes and entities with their name mangling, and the
  parser of liveliness keys. The lemmas show when a key is parsed back into the entity it
  was built from.
\<close>

subsection \<open>The model\<close>

abbreviation slash :: char where "slash \<equiv> CHR ''/''"
abbreviation percent :: char where "percent \<equiv> CHR ''%''"

definition ADMIN_SPACE :: string where
  "ADMIN_SPACE = ''@ros2_lv''"

datatype entity_kind = Node | Publisher | Subscription | ServiceServer | ServiceClient

fun entity_kind_code :: "entity_kind \<Rightarrow> string" where
  "entity_kind_code Node = ''NN''"
| "entity_kind_code Publisher = ''MP''"
| "entity_kind_code Subscription = ''MS''"
| "entity_kind_code ServiceServer = ''SS''"
| "entity_kind_code ServiceClient = ''SC''"

definition mangle :: "string \<Rightarrow> string" where
  "mangle name = (if name = [] then ''%'' else replace_char slash ''%'' name)"

definition demangle :: "string \<Rightarrow> string" where
  "demangle name = replace_char percent ''/'' name"

definition strip_slashes :: "string \<Rightarrow> string" where
  "strip_slashes fq_name = trim_matches slash fq_name"

definition topic_keyexpr :: "nat \<Rightarrow> string \<Rightarrow> string \<Rightarrow> string \<Rightarrow> string" where
  "topic_keyexpr domain_id fq_name type_name type_hash =
     show_nat domain_id @ ''/'' @ strip_slashes fq_name @ ''/'' @ type_name @ ''/'' @ type_hash"

record entity_ids =
  session_id :: string
  node_id :: nat
  entity_id :: nat
  enclave :: string
  ids_namespace :: string
  ids_node_name :: string

definition node_liveliness_keyexpr :: "nat \<Rightarrow> entity_ids \<Rightarrow> string" where
  "node_liveliness_keyexpr domain_id ids =
     ADMIN_SPACE @ ''/'' @ show_nat domain_id @ ''/'' @ session_id ids @ ''/''
     @ show_nat (node_id ids) @ ''/'' @ show_nat (node_id ids) @ ''/'' @ entity_kind_code Node @ ''/''
     @ mangle (enclave ids) @ ''/'' @ mangle (ids_namespace ids) @ ''/'' @ mangle (ids_node_name ids)"

definition entity_liveliness_keyexpr ::
    "nat \<Rightarrow> entity_ids \<Rightarrow> entity_kind \<Rightarrow> string \<Rightarrow> string \<Rightarrow> string \<Rightarrow> string \<Rightarrow> string" where
  "entity_liveliness_keyexpr domain_id ids kind qualified_name type_name type_hash qos =
     ADMIN_SPACE @ ''/'' @ show_nat domain_id @ ''/'' @ session_id ids @ ''/''
     @ show_nat (node_id ids) @ ''/'' @ show_nat (entity_id ids) @ ''/'' @ entity_kind_code kind @ ''/''
     @ mangle (enclave ids) @ ''/'' @ mangle (ids_namespace ids) @ ''/'' @ mangle (ids_node_name ids)
     @ ''/'' @ mangle qualified_name @ ''/'' @ type_name @ ''/'' @ type_hash @ ''/'' @ qos"

definition graph_cache_keyexpr :: "nat \<Rightarrow> string" where
  "graph_cache_keyexpr domain_id = ADMIN_SPACE @ ''/'' @ show_nat domain_id @ ''/**''"

record parsed_entity =
  pe_domain_id :: nat
  pe_zid :: string
  pe_node_id :: nat
  pe_entity_id :: nat
  pe_kind :: entity_kind
  pe_namespace :: string
  pe_node_name :: string
  pe_topic_name :: "string option"
  pe_type_name :: "string option"
  pe_type_hash :: "string option"
  pe_qos :: "string option"

definition parse_kind :: "string \<Rightarrow> entity_kind option" where
  "parse_kind code =
     (if code = ''NN'' then Some Node
      else if code = ''MP'' then Some Publisher
      else if code = ''MS'' then Some Subscription
      else if code = ''SS'' then Some ServiceServer
      else if code = ''SC'' then Some ServiceClient
      else None)"

text \<open>The parser indexes \<open>p[1] .. p[8]\<close> after checking that there are at least nine chunks, and
  \<open>p[9] .. p[12]\<close> after checking that there are thirteen, so no index is out of range.\<close>

definition parse_liveliness_key :: "string \<Rightarrow> parsed_entity option" where
  "parse_liveliness_key key =
     (let p = split_on slash key in
      if hd p \<noteq> ADMIN_SPACE \<or> length p < 9 then None
      else
        (case parse_unsigned 16 (p ! 1) of None \<Rightarrow> None | Some domain_id \<Rightarrow>
        (case parse_unsigned 64 (p ! 3) of None \<Rightarrow> None | Some nid \<Rightarrow>
        (case parse_unsigned 64 (p ! 4) of None \<Rightarrow> None | Some eid \<Rightarrow>
        (case parse_kind (p ! 5) of None \<Rightarrow> None | Some kind \<Rightarrow>
          (let mk = (\<lambda>topic ty hash qos.
             \<lparr>pe_domain_id = domain_id, pe_zid = p ! 2, pe_node_id = nid, pe_entity_id = eid,
              pe_kind = kind, pe_namespace = demangle (p ! 7), pe_node_name = demangle (p ! 8),
              pe_topic_name = topic, pe_type_name = ty, pe_type_hash = hash, pe_qos = qos\<rparr>) in
           if kind = Node then Some (mk None None None None)
           else if length p < 13 then None
           else Some (mk (Some (demangle (p ! 9))) (Some (p ! 10)) (Some (p ! 11)) (Some (p ! 12)))))))))"

subsection \<open>Mangling\<close>

lemma mangle_Nil [simp]: "mangle [] = ''%''"
  by (simp add: mangle_def)

lemma mangle_no_slash [simp]: "slash \<notin> set (mangle s)"
  by (simp add: mangle_def set_replace_char)

lemma mangle_nonempty [simp]: "mangle s \<noteq> []"
  by (simp add: mangle_def)

lemma demangle_mangle: "percent \<notin> set s \<Longrightarrow> demangle (mangle s) = (if s = [] then ''/'' else s)"
  by (simp add: demangle_def mangle_def replace_char_inverse replace_char_Cons)

subsection \<open>Keys as chunks\<close>

lemma node_key_chunks:
  "node_liveliness_keyexpr d ids = join_with slash
     [ADMIN_SPACE, show_nat d, session_id ids, show_nat (node_id ids), show_nat (node_id ids), ''NN'',
      mangle (enclave ids), mangle (ids_namespace ids), mangle (ids_node_name ids)]"
  by (simp add: node_liveliness_keyexpr_def)

lemma entity_key_chunks:
  "entity_liveliness_keyexpr d ids kind name ty hash qos = join_with slash
     [ADMIN_SPACE, show_nat d, session_id ids, show_nat (node_id ids), show_nat (entity_id ids),
      entity_kind_code kind, mangle (enclave ids), mangle (ids_namespace ids),
      mangle (ids_node_name ids), mangle name, ty, hash, qos]"
  by (simp add: entity_liveliness_keyexpr_def)

lemma show_nat_no_slash [simp]: "slash \<notin> set (show_nat n)"
  by (rule show_nat_not_in) (simp add: is_ascii_digit_def)

lemma admin_no_slash [simp]: "slash \<notin> set ADMIN_SPACE"
  by (simp add: ADMIN_SPACE_def)

lemma kind_code_no_slash [simp]: "slash \<notin> set (entity_kind_code k)"
  by (cases k) simp_all

lemma parse_kind_code [simp]: "parse_kind (entity_kind_code k) = Some k"
  by (cases k) (simp_all add: parse_kind_def)

lemma node_key_split:
  "slash \<notin> set (session_id ids) \<Longrightarrow> split_on slash (node_liveliness_keyexpr d ids) =
     [ADMIN_SPACE, show_nat d, session_id ids, show_nat (node_id ids), show_nat (node_id ids), ''NN'',
      mangle (enclave ids), mangle (ids_namespace ids), mangle (ids_node_name ids)]"
  unfolding node_key_chunks by (rule split_on_join) auto

lemma entity_key_split:
  "slash \<notin> set (session_id ids) \<Longrightarrow> slash \<notin> set ty \<Longrightarrow> slash \<notin> set hash \<Longrightarrow> slash \<notin> set qos \<Longrightarrow>
   split_on slash (entity_liveliness_keyexpr d ids kind name ty hash qos) =
     [ADMIN_SPACE, show_nat d, session_id ids, show_nat (node_id ids), show_nat (entity_id ids),
      entity_kind_code kind, mangle (enclave ids), mangle (ids_namespace ids),
      mangle (ids_node_name ids), mangle name, ty, hash, qos]"
  unfolding entity_key_chunks by (rule split_on_join) auto

subsection \<open>The name in a data-plane key\<close>

lemma show_name_join:
  "show_name n = (if absolute n then ''/'' else []) @ join_with slash (preceeding_tokens n @ [base_name n])"
  by (cases "preceeding_tokens n = []") (simp_all add: show_name_def concat_slash join_with_append)

lemma strip_slashes_show_name:
  assumes "wf_name n"
  shows "strip_slashes (show_name n) = join_with slash (preceeding_tokens n @ [base_name n])"
proof -
  let ?ts = "preceeding_tokens n @ [base_name n]"
  have ts: "list_all wf_token ?ts" "?ts \<noteq> []" using assms by (auto simp: wf_name_def)
  have "hd ?ts \<noteq> []" "last ?ts \<noteq> []" using ts by (auto simp: wf_token_def list_all_iff hd_append)
  with ts(2) have "hd (join_with slash ?ts) = hd (hd ?ts)" "last (join_with slash ?ts) = last (last ?ts)"
    "join_with slash ?ts \<noteq> []"
    using hd_join_with last_join_with by blast+
  moreover have "\<not> ends_with_char slash (join_with slash ?ts)"
    "strip_prefix_char slash (join_with slash ?ts) = None"
    using wf_tokens_join [OF ts] by simp_all
  ultimately have "trim_matches slash (join_with slash ?ts) = join_with slash ?ts"
    by (intro trim_matches_id) (auto simp: ends_with_char_def strip_prefix_char_def split: list.splits)
  then show ?thesis by (simp add: strip_slashes_def show_name_join)
qed

lemma topic_key_split:
  assumes "wf_name n" and "slash \<notin> set ty" and "slash \<notin> set hash"
  shows "split_on slash (topic_keyexpr d (show_name n) ty hash) =
    show_nat d # preceeding_tokens n @ [base_name n, ty, hash]"
proof -
  let ?ts = "preceeding_tokens n @ [base_name n]"
  have "topic_keyexpr d (show_name n) ty hash = join_with slash ([show_nat d] @ ?ts @ [ty, hash])"
    using strip_slashes_show_name [OF assms(1)]
    by (subst join_with_append, simp, simp, subst join_with_append) (simp_all add: topic_keyexpr_def)
  moreover have "split_on slash (join_with slash ([show_nat d] @ ?ts @ [ty, hash])) = [show_nat d] @ ?ts @ [ty, hash]"
    using assms by (intro split_on_join) (auto simp: wf_name_def list_all_iff dest: wf_token_no_slash)
  ultimately show ?thesis by simp
qed

lemma node_key_parsed:
  assumes "d < 2 ^ 16" and "node_id ids < 2 ^ 64" and "slash \<notin> set (session_id ids)"
    and "percent \<notin> set (ids_namespace ids)" and "percent \<notin> set (ids_node_name ids)"
    and "ids_node_name ids \<noteq> []"
  shows "parse_liveliness_key (node_liveliness_keyexpr d ids) = Some
    \<lparr>pe_domain_id = d, pe_zid = session_id ids, pe_node_id = node_id ids, pe_entity_id = node_id ids,
     pe_kind = Node,
     pe_namespace = (if ids_namespace ids = [] then ''/'' else ids_namespace ids),
     pe_node_name = ids_node_name ids,
     pe_topic_name = None, pe_type_name = None, pe_type_hash = None, pe_qos = None\<rparr>"
proof -
  have "parse_kind ''NN'' = Some Node" by (simp add: parse_kind_def)
  with assms show ?thesis
    unfolding parse_liveliness_key_def node_key_split [OF assms(3)] Let_def
    by (simp add: parse_show_nat demangle_mangle del: power_numeral)
qed

lemma entity_key_parsed:
  assumes "d < 2 ^ 16" and "node_id ids < 2 ^ 64" and "entity_id ids < 2 ^ 64" and "kind \<noteq> Node"
    and "slash \<notin> set (session_id ids)" and "slash \<notin> set ty" and "slash \<notin> set hash" and "slash \<notin> set qos"
    and "percent \<notin> set (ids_namespace ids)" and "percent \<notin> set (ids_node_name ids)"
    and "ids_node_name ids \<noteq> []" and "percent \<notin> set name" and "name \<noteq> []"
  shows "parse_liveliness_key (entity_liveliness_keyexpr d ids kind name ty hash qos) = Some
    \<lparr>pe_domain_id = d, pe_zid = session_id ids, pe_node_id = node_id ids, pe_entity_id = entity_id ids,
     pe_kind = kind,
     pe_namespace = (if ids_namespace ids = [] then ''/'' else ids_namespace ids),
     pe_node_name = ids_node_name ids,
     pe_topic_name = Some name, pe_type_name = Some ty, pe_type_hash = Some hash, pe_qos = Some qos\<rparr>"
  using assms
  unfolding parse_liveliness_key_def entity_key_split [OF assms(5-8)] Let_def
  by (simp add: parse_show_nat demangle_mangle del: power_numeral)

subsection \<open>Properties\<close>

text \<open>A node's liveliness key is parsed back into the node: its domain, session, ids, namespace
  (the empty one as the root) and name, as long as the ids fit their types, the session id has
  no slash and the names have no percent sign (no ROS name has one).\<close>

lemma parse_node_key:
  assumes "d < 2 ^ 16" and "node_id ids < 2 ^ 64" and "slash \<notin> set (session_id ids)"
    and "percent \<notin> set (ids_namespace ids)" and "percent \<notin> set (ids_node_name ids)"
    and "ids_node_name ids \<noteq> []"
  shows "parse_liveliness_key (node_liveliness_keyexpr d ids) = Some
    \<lparr>pe_domain_id = d, pe_zid = session_id ids, pe_node_id = node_id ids, pe_entity_id = node_id ids,
     pe_kind = Node,
     pe_namespace = (if ids_namespace ids = [] then ''/'' else ids_namespace ids),
     pe_node_name = ids_node_name ids,
     pe_topic_name = None, pe_type_name = None, pe_type_hash = None, pe_qos = None\<rparr>"
  using assms by (rule node_key_parsed)

theorem parse_node_key_witness:
  "parse_liveliness_key ''@ros2_lv/0/aac3/3/3/NN/%/%robot1/talker'' = Some
    \<lparr>pe_domain_id = 0, pe_zid = ''aac3'', pe_node_id = 3, pe_entity_id = 3, pe_kind = Node,
     pe_namespace = ''/robot1'', pe_node_name = ''talker'',
     pe_topic_name = None, pe_type_name = None, pe_type_hash = None, pe_qos = None\<rparr>"
proof -
  let ?ids = "\<lparr>session_id = ''aac3'', node_id = 3, entity_id = 3, enclave = [],
    ids_namespace = ''/robot1'', ids_node_name = ''talker''\<rparr>"
  have k: "node_liveliness_keyexpr 0 ?ids = ''@ros2_lv/0/aac3/3/3/NN/%/%robot1/talker''"
    by code_simp
  have "parse_liveliness_key (node_liveliness_keyexpr 0 ?ids) = Some
    \<lparr>pe_domain_id = 0, pe_zid = session_id ?ids, pe_node_id = node_id ?ids, pe_entity_id = node_id ?ids,
     pe_kind = Node,
     pe_namespace = (if ids_namespace ?ids = [] then ''/'' else ids_namespace ?ids),
     pe_node_name = ids_node_name ?ids,
     pe_topic_name = None, pe_type_name = None, pe_type_hash = None, pe_qos = None\<rparr>"
    by (rule parse_node_key) simp_all
  with k show ?thesis by simp
qed

text \<open>C30. The liveliness key of a publisher, subscription, service server or client is parsed
  back into the entity: besides the node's fields, the entity id, the kind, the topic name, the
  type name, the type hash and the QoS string.\<close>

theorem parse_entity_key:
  assumes "d < 2 ^ 16" and "node_id ids < 2 ^ 64" and "entity_id ids < 2 ^ 64" and "kind \<noteq> Node"
    and "slash \<notin> set (session_id ids)" and "slash \<notin> set ty" and "slash \<notin> set hash" and "slash \<notin> set qos"
    and "percent \<notin> set (ids_namespace ids)" and "percent \<notin> set (ids_node_name ids)"
    and "ids_node_name ids \<noteq> []" and "percent \<notin> set name" and "name \<noteq> []"
  shows "parse_liveliness_key (entity_liveliness_keyexpr d ids kind name ty hash qos) = Some
    \<lparr>pe_domain_id = d, pe_zid = session_id ids, pe_node_id = node_id ids, pe_entity_id = entity_id ids,
     pe_kind = kind,
     pe_namespace = (if ids_namespace ids = [] then ''/'' else ids_namespace ids),
     pe_node_name = ids_node_name ids,
     pe_topic_name = Some name, pe_type_name = Some ty, pe_type_hash = Some hash, pe_qos = Some qos\<rparr>"
  using assms by (rule entity_key_parsed)

theorem parse_entity_key_witness:
  "parse_liveliness_key
     ''@ros2_lv/0/aac3/0/10/MS/%/%/listener/%chatter/std_msgs::msg::dds_::String_/RIHS01_df66/::,10:,:,:,,'' = Some
    \<lparr>pe_domain_id = 0, pe_zid = ''aac3'', pe_node_id = 0, pe_entity_id = 10, pe_kind = Subscription,
     pe_namespace = ''/'', pe_node_name = ''listener'',
     pe_topic_name = Some ''/chatter'', pe_type_name = Some ''std_msgs::msg::dds_::String_'',
     pe_type_hash = Some ''RIHS01_df66'', pe_qos = Some ''::,10:,:,:,,''\<rparr>"
proof -
  let ?ids = "\<lparr>session_id = ''aac3'', node_id = 0, entity_id = 10, enclave = [],
    ids_namespace = [], ids_node_name = ''listener''\<rparr>"
  let ?ty = "''std_msgs::msg::dds_::String_''"
  have k: "entity_liveliness_keyexpr 0 ?ids Subscription ''/chatter'' ?ty ''RIHS01_df66'' ''::,10:,:,:,,'' =
     ''@ros2_lv/0/aac3/0/10/MS/%/%/listener/%chatter/std_msgs::msg::dds_::String_/RIHS01_df66/::,10:,:,:,,''"
    by code_simp
  have "parse_liveliness_key
      (entity_liveliness_keyexpr 0 ?ids Subscription ''/chatter'' ?ty ''RIHS01_df66'' ''::,10:,:,:,,'') = Some
    \<lparr>pe_domain_id = 0, pe_zid = session_id ?ids, pe_node_id = node_id ?ids, pe_entity_id = entity_id ?ids,
     pe_kind = Subscription,
     pe_namespace = (if ids_namespace ?ids = [] then ''/'' else ids_namespace ?ids),
     pe_node_name = ids_node_name ?ids,
     pe_topic_name = Some ''/chatter'', pe_type_name = Some ?ty, pe_type_hash = Some ''RIHS01_df66'',
     pe_qos = Some ''::,10:,:,:,,''\<rparr>"
    by (rule parse_entity_key) simp_all
  with k show ?thesis by simp
qed

text \<open>C31. Two topics share a data-plane key exactly when their domains, names, types and type
  hashes agree: the key matches no other topic.\<close>

theorem topic_keyexpr_inj:
  assumes "wf_name m" and "wf_name n" and "absolute m" and "absolute n"
    and "slash \<notin> set ty" and "slash \<notin> set ty'" and "slash \<notin> set hash" and "slash \<notin> set hash'"
  shows "topic_keyexpr d (show_name m) ty hash = topic_keyexpr d' (show_name n) ty' hash' \<longleftrightarrow>
    d = d' \<and> m = n \<and> ty = ty' \<and> hash = hash'"
proof
  assume "topic_keyexpr d (show_name m) ty hash = topic_keyexpr d' (show_name n) ty' hash'"
  then have "show_nat d # preceeding_tokens m @ [base_name m, ty, hash] =
      show_nat d' # preceeding_tokens n @ [base_name n, ty', hash']"
    using assms topic_key_split by metis
  then have "d = d'" "preceeding_tokens m = preceeding_tokens n" "base_name m = base_name n"
    "ty = ty'" "hash = hash'"
    by (auto dest: append_eq_append_conv [THEN iffD1, rotated])
  with assms(3,4) show "d = d' \<and> m = n \<and> ty = ty' \<and> hash = hash'" by simp
qed simp

theorem topic_keyexpr_inj_witness:
  "topic_keyexpr 0 ''/chatter'' ''T_'' ''RIHS01_0'' \<noteq> topic_keyexpr 0 ''/robot1/chatter'' ''T_'' ''RIHS01_0''"
proof -
  let ?m = "\<lparr>base_name = ''chatter'', preceeding_tokens = [], absolute = True\<rparr>"
  let ?n = "\<lparr>base_name = ''chatter'', preceeding_tokens = [''robot1''], absolute = True\<rparr>"
  have "wf_name ?m" "wf_name ?n" by code_simp+
  moreover have "show_name ?m = ''/chatter''" "show_name ?n = ''/robot1/chatter''"
    by (simp_all add: show_name_def)
  ultimately show ?thesis
    using topic_keyexpr_inj [of ?m ?n "''T_''" "''T_''" "''RIHS01_0''" "''RIHS01_0''" 0 0] by simp
qed

end
