(* ===== verification/Rust_Duration.thy ===== *)
theory Rust_Duration
  imports Rust_Maps
begin

text \<open>
  \<open>std::time::Duration\<close>: whole seconds of 64 bits and nanoseconds below one second. The
  constructor carries excess nanoseconds into the seconds and panics when they overflow.
\<close>

record duration =
  dur_secs :: nat
  dur_nanos :: nat

definition duration_ok :: "duration \<Rightarrow> bool" where
  "duration_ok d \<longleftrightarrow> dur_secs d < 2 ^ 64 \<and> dur_nanos d < 1000000000"

definition duration_zero :: duration where
  "duration_zero = \<lparr>dur_secs = 0, dur_nanos = 0\<rparr>"

text \<open>\<open>Duration::new\<close>; \<open>None\<close> is the panic.\<close>

definition duration_new :: "nat \<Rightarrow> nat \<Rightarrow> duration option" where
  "duration_new s ns =
     (if s + ns div 1000000000 < 2 ^ 64
      then Some \<lparr>dur_secs = s + ns div 1000000000, dur_nanos = ns mod 1000000000\<rparr> else None)"

definition duration_as_nanos :: "duration \<Rightarrow> nat" where
  "duration_as_nanos d = dur_secs d * 1000000000 + dur_nanos d"

definition duration_from_nanos :: "nat \<Rightarrow> duration" where
  "duration_from_nanos n = \<lparr>dur_secs = n div 1000000000, dur_nanos = n mod 1000000000\<rparr>"

lemma duration_new_ok: "duration_new s ns = Some d \<Longrightarrow> duration_ok d"
  by (auto simp: duration_new_def duration_ok_def split: if_splits)

lemma duration_new_id: "duration_ok d \<Longrightarrow> duration_new (dur_secs d) (dur_nanos d) = Some d"
  by (simp add: duration_new_def duration_ok_def)

lemma duration_as_from_nanos [simp]: "duration_as_nanos (duration_from_nanos n) = n"
  by (simp add: duration_as_nanos_def duration_from_nanos_def)

lemma duration_from_as_nanos: "dur_nanos d < 1000000000 \<Longrightarrow> duration_from_nanos (duration_as_nanos d) = d"
  by (cases d) (simp add: duration_as_nanos_def duration_from_nanos_def)

lemma duration_from_nanos_ok: "n < 2 ^ 64 \<Longrightarrow> duration_ok (duration_from_nanos n)"
  by (simp add: duration_ok_def duration_from_nanos_def)

lemma duration_as_nanos_inj:
  "duration_ok d \<Longrightarrow> duration_ok e \<Longrightarrow> duration_as_nanos d = duration_as_nanos e \<longleftrightarrow> d = e"
  unfolding duration_ok_def by (metis duration_from_as_nanos)

end
