(* ===== verification/Qos_Profile.thy ===== *)
theory Qos_Profile
  imports Rust_Duration
begin

text \<open>
  The QoS profile (\<open>src/src/qos.rs\<close>) and its compact text form in liveliness keys
  (\<open>src/src/zenoh_backend/qos_encoding.rs\<close>). The decoder can fail with \<open>QosDecodeError\<close>; it can
  also panic in \<open>Duration::new\<close>, which is the constructor \<open>DurationPanic\<close> here.
\<close>

subsection \<open>The profile\<close>

datatype reliability = BestEffort | Reliable
datatype durability = Volatile | TransientLocal
datatype history = KeepLast nat | KeepAll
datatype liveliness = Automatic | ManualByTopic

record qos_profile =
  reliability :: reliability
  durability :: durability
  history :: history
  deadline :: "duration option"
  lifespan :: "duration option"
  liveliness :: liveliness
  liveliness_lease :: "duration option"

definition subscription_default :: qos_profile where
  "subscription_default =
     \<lparr>reliability = BestEffort, durability = Volatile, history = KeepLast 1, deadline = None,
      lifespan = None, liveliness = Automatic, liveliness_lease = None\<rparr>"

definition publisher_default :: qos_profile where
  "publisher_default = subscription_default\<lparr>reliability := Reliable\<rparr>"

definition with_reliability :: "qos_profile \<Rightarrow> reliability \<Rightarrow> qos_profile" where
  "with_reliability q r = q\<lparr>reliability := r\<rparr>"

definition with_durability :: "qos_profile \<Rightarrow> durability \<Rightarrow> qos_profile" where
  "with_durability q d = q\<lparr>durability := d\<rparr>"

definition with_history :: "qos_profile \<Rightarrow> history \<Rightarrow> qos_profile" where
  "with_history q h = q\<lparr>history := h\<rparr>"

definition qos_default :: qos_profile where
  "qos_default = subscription_default"

subsection \<open>The compact encoding\<close>

definition DEFAULT_RELIABILITY :: reliability where "DEFAULT_RELIABILITY = Reliable"
definition DEFAULT_DURABILITY :: durability where "DEFAULT_DURABILITY = Volatile"
definition DEFAULT_LIVELINESS :: liveliness where "DEFAULT_LIVELINESS = Automatic"

fun reliability_code :: "reliability \<Rightarrow> string" where
  "reliability_code Reliable = ''1''"
| "reliability_code BestEffort = ''2''"

fun durability_code :: "durability \<Rightarrow> string" where
  "durability_code TransientLocal = ''1''"
| "durability_code Volatile = ''2''"

fun liveliness_code :: "liveliness \<Rightarrow> string" where
  "liveliness_code Automatic = ''1''"
| "liveliness_code ManualByTopic = ''3''"

fun duration_fields :: "duration option \<Rightarrow> string \<times> string" where
  "duration_fields None = ([], [])"
| "duration_fields (Some d) = (show_nat (dur_secs d), show_nat (dur_nanos d))"

definition encode_qos :: "qos_profile \<Rightarrow> string" where
  "encode_qos q =
     (let rel = (if reliability q = DEFAULT_RELIABILITY then [] else reliability_code (reliability q));
          dur = (if durability q = DEFAULT_DURABILITY then [] else durability_code (durability q));
          (hist, depth) = (case history q of KeepLast depth \<Rightarrow> ([], depth) | KeepAll \<Rightarrow> (''2'', 0));
          liv = (if liveliness q = DEFAULT_LIVELINESS then [] else liveliness_code (liveliness q));
          (dl_s, dl_ns) = duration_fields (deadline q);
          (ls_s, ls_ns) = duration_fields (lifespan q);
          (lease_s, lease_ns) = duration_fields (liveliness_lease q)
      in rel @ '':'' @ dur @ '':'' @ hist @ '','' @ show_nat depth @ '':'' @ dl_s @ '','' @ dl_ns @ '':''
         @ ls_s @ '','' @ ls_ns @ '':'' @ liv @ '','' @ lease_s @ '','' @ lease_ns)"

datatype qos_decode_error = QosDecodeError | DurationPanic

definition parse_duration :: "string \<Rightarrow> string \<Rightarrow> qos_decode_error + duration option" where
  "parse_duration sec nsec =
     (if sec = [] \<and> nsec = [] then Ok None
      else and_then (ok_or QosDecodeError (parse_unsigned 64 sec)) (\<lambda>s.
           and_then (ok_or QosDecodeError (parse_unsigned 32 nsec)) (\<lambda>ns.
           and_then (ok_or DurationPanic (duration_new s ns)) (\<lambda>d. Ok (Some d)))))"

text \<open>The groups of the encoding, each decoded by a \<open>match\<close> of \<open>decode_qos\<close>.\<close>

definition decode_reliability :: "string \<Rightarrow> qos_decode_error + reliability" where
  "decode_reliability g =
     (if g = [] then Ok DEFAULT_RELIABILITY else if g = ''1'' then Ok Reliable
      else if g = ''2'' then Ok BestEffort else Err QosDecodeError)"

definition decode_durability :: "string \<Rightarrow> qos_decode_error + durability" where
  "decode_durability g =
     (if g = [] then Ok DEFAULT_DURABILITY else if g = ''1'' then Ok TransientLocal
      else if g = ''2'' then Ok Volatile else Err QosDecodeError)"

definition decode_history :: "string \<Rightarrow> qos_decode_error + history" where
  "decode_history g =
     and_then (ok_or QosDecodeError (split_once (CHR '','') g)) (\<lambda>(hist_str, depth_str).
     and_then (if depth_str = [] then Ok 0
               else ok_or QosDecodeError (parse_unsigned 64 depth_str)) (\<lambda>depth.
       if hist_str = [] \<or> hist_str = ''1'' then Ok (KeepLast depth)
       else if hist_str = ''2'' then Ok KeepAll else Err QosDecodeError))"

definition decode_duration_group :: "string \<Rightarrow> qos_decode_error + duration option" where
  "decode_duration_group g =
     and_then (ok_or QosDecodeError (split_once (CHR '','') g)) (\<lambda>(s, ns). parse_duration s ns)"

definition decode_liveliness_group :: "string \<Rightarrow> qos_decode_error + (liveliness \<times> duration option)" where
  "decode_liveliness_group g =
     (let liv_parts = splitn 3 (CHR '','') g;
          part = (\<lambda>i. if i < length liv_parts then liv_parts ! i else []);
          liv_str = part 0; lease_s = part 1; lease_ns = part 2
      in and_then (if liv_str = [] then Ok DEFAULT_LIVELINESS else if liv_str = ''1'' then Ok Automatic
                   else if liv_str = ''3'' then Ok ManualByTopic else Err QosDecodeError) (\<lambda>liv.
         and_then (parse_duration lease_s lease_ns) (\<lambda>lease. Ok (liv, lease))))"

definition decode_qos :: "string \<Rightarrow> qos_decode_error + qos_profile" where
  "decode_qos s =
     (let groups = split_on (CHR '':'') s in
      if length groups \<noteq> 6 then Err QosDecodeError
      else
        and_then (decode_reliability (groups ! 0)) (\<lambda>rel.
        and_then (decode_durability (groups ! 1)) (\<lambda>dur.
        and_then (decode_history (groups ! 2)) (\<lambda>hist.
        and_then (decode_duration_group (groups ! 3)) (\<lambda>dl.
        and_then (decode_duration_group (groups ! 4)) (\<lambda>ls.
        and_then (decode_liveliness_group (groups ! 5)) (\<lambda>(liv, lease).
          Ok \<lparr>reliability = rel, durability = dur, history = hist, deadline = dl,
              lifespan = ls, liveliness = liv, liveliness_lease = lease\<rparr>)))))))"

subsection \<open>Representable profiles\<close>

definition wf_duration_option :: "duration option \<Rightarrow> bool" where
  "wf_duration_option d = pred_option duration_ok d"

definition wf_history :: "history \<Rightarrow> bool" where
  "wf_history h = (case h of KeepLast depth \<Rightarrow> depth < 2 ^ 64 | KeepAll \<Rightarrow> True)"

definition wf_qos :: "qos_profile \<Rightarrow> bool" where
  "wf_qos q \<longleftrightarrow> wf_history (history q) \<and> wf_duration_option (deadline q)
     \<and> wf_duration_option (lifespan q) \<and> wf_duration_option (liveliness_lease q)"

text \<open>The six groups of an encoded profile.\<close>

definition encode_history :: "history \<Rightarrow> string" where
  "encode_history h = (case h of KeepLast depth \<Rightarrow> '','' @ show_nat depth | KeepAll \<Rightarrow> ''2,'' @ show_nat 0)"

definition encode_duration_group :: "duration option \<Rightarrow> string" where
  "encode_duration_group d = fst (duration_fields d) @ '','' @ snd (duration_fields d)"

definition qos_groups :: "qos_profile \<Rightarrow> string list" where
  "qos_groups q =
     [if reliability q = DEFAULT_RELIABILITY then [] else reliability_code (reliability q),
      if durability q = DEFAULT_DURABILITY then [] else durability_code (durability q),
      encode_history (history q), encode_duration_group (deadline q), encode_duration_group (lifespan q),
      (if liveliness q = DEFAULT_LIVELINESS then [] else liveliness_code (liveliness q)) @ '',''
        @ encode_duration_group (liveliness_lease q)]"

subsection \<open>Fields and groups\<close>

lemma show_nat_no_sep [simp]:
  "CHR '':'' \<notin> set (show_nat n)" "CHR '','' \<notin> set (show_nat n)"
  by (rule show_nat_not_in, simp add: is_ascii_digit_def)+

lemma reliability_code_no_sep [simp]: "CHR '':'' \<notin> set (reliability_code r)"
  by (cases r) simp_all

lemma durability_code_no_sep [simp]: "CHR '':'' \<notin> set (durability_code d)"
  by (cases d) simp_all

lemma liveliness_code_no_sep [simp]: "CHR '':'' \<notin> set (liveliness_code l) \<and> CHR '','' \<notin> set (liveliness_code l)"
  by (cases l) simp_all

lemma duration_fields_no_sep [simp]:
  "CHR '':'' \<notin> set (fst (duration_fields d))" "CHR '':'' \<notin> set (snd (duration_fields d))"
  "CHR '','' \<notin> set (fst (duration_fields d))" "CHR '','' \<notin> set (snd (duration_fields d))"
  by (cases d; simp)+

lemma parse_duration_fields:
  "wf_duration_option d \<Longrightarrow> parse_duration (fst (duration_fields d)) (snd (duration_fields d)) = Ok d"
proof (cases d)
  case (Some e)
  assume "wf_duration_option d"
  with Some have e: "duration_ok e" by (simp add: wf_duration_option_def)
  then have "dur_secs e < 2 ^ 64" "dur_nanos e < 2 ^ 32" by (simp_all add: duration_ok_def)
  then have "parse_unsigned 64 (show_nat (dur_secs e)) = Some (dur_secs e)"
    "parse_unsigned 32 (show_nat (dur_nanos e)) = Some (dur_nanos e)"
    by (simp_all only: parse_show_nat)
  with Some e show ?thesis by (simp add: parse_duration_def duration_new_id)
qed (simp add: parse_duration_def)

lemma parse_duration_wf: "parse_duration s ns = Ok d \<Longrightarrow> wf_duration_option d"
  by (auto simp: parse_duration_def wf_duration_option_def and_then_Ok dest: duration_new_ok
      split: if_splits)

lemma encode_qos_groups: "encode_qos q = join_with (CHR '':'') (qos_groups q)"
  by (simp add: encode_qos_def qos_groups_def encode_history_def encode_duration_group_def Let_def
      case_prod_unfold split: history.split)

lemma group_no_colon [simp]:
  "CHR '':'' \<notin> set (encode_history h)" "CHR '':'' \<notin> set (encode_duration_group d)"
  by (simp_all add: encode_history_def encode_duration_group_def split: history.split)

lemma split_encode_qos: "split_on (CHR '':'') (encode_qos q) = qos_groups q"
  unfolding encode_qos_groups
  by (rule split_on_join) (auto simp: qos_groups_def split: if_splits)

subsection \<open>Each group is decoded to what was encoded\<close>

lemma decode_reliability_encode:
  "decode_reliability (if r = DEFAULT_RELIABILITY then [] else reliability_code r) = Ok r"
  by (cases r) (simp_all add: decode_reliability_def DEFAULT_RELIABILITY_def)

lemma decode_durability_encode:
  "decode_durability (if d = DEFAULT_DURABILITY then [] else durability_code d) = Ok d"
  by (cases d) (simp_all add: decode_durability_def DEFAULT_DURABILITY_def)

lemma decode_history_encode: "wf_history h \<Longrightarrow> decode_history (encode_history h) = Ok h"
proof (cases h)
  case (KeepLast depth)
  assume "wf_history h"
  with KeepLast have "parse_unsigned 64 (show_nat depth) = Some depth"
    by (intro parse_show_nat) (simp add: wf_history_def)
  with KeepLast show ?thesis by (simp add: decode_history_def encode_history_def)
next
  case KeepAll
  have "parse_unsigned 64 (show_nat 0) = Some 0" by (rule parse_show_nat) simp
  with KeepAll show ?thesis by (simp add: decode_history_def encode_history_def)
qed

lemma decode_duration_group_encode:
  "wf_duration_option d \<Longrightarrow> decode_duration_group (encode_duration_group d) = Ok d"
  by (simp add: decode_duration_group_def encode_duration_group_def split_once_append parse_duration_fields
      case_prod_unfold)

lemma splitn_3:
  "CHR '','' \<notin> set a \<Longrightarrow> CHR '','' \<notin> set b \<Longrightarrow> splitn 3 (CHR '','') (a @ CHR '','' # b @ CHR '','' # c) = [a, b, c]"
  by (simp add: numeral_3_eq_3 split_once_append)

lemma decode_liveliness_group_encode:
  assumes "wf_duration_option d"
  shows "decode_liveliness_group ((if l = DEFAULT_LIVELINESS then [] else liveliness_code l) @ '',''
    @ encode_duration_group d) = Ok (l, d)"
proof -
  let ?l = "if l = DEFAULT_LIVELINESS then [] else liveliness_code l"
  have "splitn 3 (CHR '','') (?l @ '','' @ encode_duration_group d) =
      [?l, fst (duration_fields d), snd (duration_fields d)]"
    using splitn_3 [of ?l "fst (duration_fields d)"] by (simp add: encode_duration_group_def)
  with parse_duration_fields [OF assms] show ?thesis
    by (cases l) (simp_all add: decode_liveliness_group_def DEFAULT_LIVELINESS_def)
qed

lemma decode_encode_qos: "wf_qos q \<Longrightarrow> decode_qos (encode_qos q) = Ok q"
  unfolding decode_qos_def split_encode_qos
  by (simp add: qos_groups_def wf_qos_def decode_reliability_encode decode_durability_encode
      decode_history_encode decode_duration_group_encode decode_liveliness_group_encode [simplified])

lemma decode_history_wf: "decode_history g = Ok h \<Longrightarrow> wf_history h"
  by (auto simp: decode_history_def and_then_Ok wf_history_def dest!: parse_unsigned_bound split: if_splits)

lemma decode_duration_group_wf: "decode_duration_group g = Ok d \<Longrightarrow> wf_duration_option d"
  by (auto simp: decode_duration_group_def and_then_Ok dest: parse_duration_wf)

lemma decode_liveliness_group_wf: "decode_liveliness_group g = Ok (l, d) \<Longrightarrow> wf_duration_option d"
  by (auto simp: decode_liveliness_group_def Let_def and_then_Ok dest!: parse_duration_wf)

lemma decode_qos_wf: "decode_qos s = Ok q \<Longrightarrow> wf_qos q"
  unfolding decode_qos_def wf_qos_def Let_def
  by (auto simp: and_then_Ok dest: decode_history_wf decode_duration_group_wf decode_liveliness_group_wf
      split: if_splits)

interpretation qos: total_codec encode_qos decode_qos wf_qos
  by unfold_locales (rule decode_encode_qos, assumption, rule decode_qos_wf)

subsection \<open>Properties\<close>

definition sensor_qos :: qos_profile where
  "sensor_qos = \<lparr>reliability = BestEffort, durability = Volatile, history = KeepLast 10,
     deadline = Some \<lparr>dur_secs = 1, dur_nanos = 500\<rparr>, lifespan = None, liveliness = ManualByTopic,
     liveliness_lease = Some \<lparr>dur_secs = 30, dur_nanos = 0\<rparr>\<rparr>"

lemmas decode_qos_eval = decode_qos_def decode_reliability_def decode_durability_def decode_history_def
  decode_duration_group_def decode_liveliness_group_def parse_duration_def parse_unsigned_def
  duration_new_def DEFAULT_RELIABILITY_def DEFAULT_DURABILITY_def DEFAULT_LIVELINESS_def
  is_ascii_digit_def digits_value_def digit_value_def numeral_3_eq_3 Let_def

lemma wf_sensor_qos: "wf_qos sensor_qos"
  by (simp add: wf_qos_def sensor_qos_def wf_history_def wf_duration_option_def duration_ok_def)

text \<open>C18. The compact QoS encoding loses nothing: a profile whose depth is a \<open>usize\<close> and whose
  durations are values of \<open>std::time::Duration\<close> is decoded to itself, and its encoding is the
  encoding of no other such profile.\<close>

theorem qos_round_trip:
  assumes "wf_qos q"
  shows "decode_qos (encode_qos q) = Ok q \<and> (\<forall>p. wf_qos p \<and> encode_qos p = encode_qos q \<longrightarrow> p = q)"
  using qos.dec_enc [OF assms] qos.enc_inj [OF _ assms] by blast

theorem qos_round_trip_witness:
  "decode_qos (encode_qos sensor_qos) = Ok sensor_qos
   \<and> encode_qos (sensor_qos\<lparr>lifespan := Some \<lparr>dur_secs = 0, dur_nanos = 0\<rparr>\<rparr>) \<noteq> encode_qos sensor_qos"
proof -
  let ?p = "sensor_qos\<lparr>lifespan := Some \<lparr>dur_secs = 0, dur_nanos = 0\<rparr>\<rparr>"
  have "wf_qos ?p" using wf_sensor_qos by (simp add: wf_qos_def wf_duration_option_def duration_ok_def)
  moreover have "?p \<noteq> sensor_qos" by (simp add: sensor_qos_def)
  ultimately show ?thesis using qos_round_trip [OF wf_sensor_qos] by blast
qed

text \<open>C39. Whatever text a peer sends, a successfully decoded profile is representable (depth in
  \<open>usize\<close>, normalised durations), and encoding it gives a text that is decoded to the same
  profile.\<close>

theorem decode_qos_canonical:
  "decode_qos s = Ok q \<Longrightarrow> wf_qos q \<and> decode_qos (encode_qos q) = Ok q"
  using decode_qos_wf qos.dec_enc by blast

theorem decode_qos_canonical_witness:
  "decode_qos ''2:2:1,01:,:,:1,,'' = Ok subscription_default
   \<and> decode_qos (encode_qos subscription_default) = Ok subscription_default"
proof -
  have "decode_qos ''2:2:1,01:,:,:1,,'' = Ok subscription_default"
    by (simp add: decode_qos_eval subscription_default_def)
  with decode_qos_canonical show ?thesis by blast
qed

text \<open>\<open>decode_qos\<close> is not total on peer input: a deadline of \<open>u64::MAX\<close> seconds and
  \<open>10\<^sup>9\<close> nanoseconds parses field by field, but \<open>Duration::new\<close> then panics on the carry
  instead of a \<open>QosDecodeError\<close> being returned.\<close>

lemma decode_qos_panics:
  "decode_qos ''::,7:18446744073709551615,1000000000:,:,,'' = Err DurationPanic"
  by (simp add: decode_qos_eval)

end
