(* ===== verification/Graph_Cache.thy ===== *)
theory Graph_Cache
  imports Zenoh_Keyexpr Qos_Profile
begin

text \<open>
  The graph cache (\<open>zenoh_backend/graph_cache.rs\<close>): the set of live entities built from
  liveliness tokens, with the channels its events are sent to. The map of entities is a
  \<open>HashMap\<close> (the interpretation \<open>hash_map\<close>). A channel of the unbounded kind is its identity,
  whether its receiver was dropped, and everything sent to it so far. The abstract graph is the
  set of keys of live tokens; every query is a function of that set.
\<close>

subsection \<open>Entities and events\<close>

record graph_entity =
  ge_kind :: entity_kind
  ge_node_name :: string
  ge_name :: "string option"
  ge_type_name :: "string option"

datatype graph_event = EntityDeclared graph_entity | EntityUndeclared graph_entity

definition join_fqn :: "string \<Rightarrow> string \<Rightarrow> string" where
  "join_fqn namespace name =
     (if namespace = [] \<or> namespace = ''/'' then ''/'' @ name else namespace @ ''/'' @ name)"

definition graph_entity_from :: "parsed_entity \<Rightarrow> graph_entity" where
  "graph_entity_from e =
     \<lparr>ge_kind = pe_kind e, ge_node_name = join_fqn (pe_namespace e) (pe_node_name e),
      ge_name = pe_topic_name e, ge_type_name = pe_type_name e\<rparr>"

record channel =
  ch_id :: nat
  ch_closed :: bool
  ch_sent :: "graph_event list"

record graph_cache =
  entities :: "(string \<times> parsed_entity) list"
  subscribers :: "channel list"
  next_channel :: nat

definition graph_cache_default :: graph_cache where
  "graph_cache_default = \<lparr>entities = [], subscribers = [], next_channel = 0\<rparr>"

subsection \<open>Operations\<close>

definition broadcast :: "graph_event \<Rightarrow> graph_cache \<Rightarrow> graph_cache" where
  "broadcast event c =
     (let subs = filter (\<lambda>s. \<not> ch_closed s) (subscribers c)
      in c\<lparr>subscribers := map (\<lambda>s. s\<lparr>ch_sent := ch_sent s @ [event]\<rparr>) subs\<rparr>)"

definition apply_put :: "string \<Rightarrow> graph_cache \<Rightarrow> graph_cache" where
  "apply_put key c =
     (case parse_liveliness_key key of
        Some entity \<Rightarrow>
          (let event = EntityDeclared (graph_entity_from entity)
           in broadcast event (c\<lparr>entities := hm_insert key entity (entities c)\<rparr>))
      | None \<Rightarrow> c)"

definition apply_delete :: "string \<Rightarrow> graph_cache \<Rightarrow> graph_cache" where
  "apply_delete key c =
     (let removed = map_of (entities c) key;
          c' = c\<lparr>entities := hm_remove key (entities c)\<rparr>
      in case removed of
           Some entity \<Rightarrow> broadcast (EntityUndeclared (graph_entity_from entity)) c'
         | None \<Rightarrow> c')"

definition subscribe :: "graph_cache \<Rightarrow> nat \<times> graph_cache" where
  "subscribe c =
     (next_channel c,
      c\<lparr>subscribers := subscribers c @ [\<lparr>ch_id = next_channel c, ch_closed = False, ch_sent = []\<rparr>],
        next_channel := Suc (next_channel c)\<rparr>)"

text \<open>Dropping a receiver closes its channel; the sender stays until the next broadcast.\<close>

definition drop_receiver :: "nat \<Rightarrow> graph_cache \<Rightarrow> graph_cache" where
  "drop_receiver i c =
     c\<lparr>subscribers := map (\<lambda>s. if ch_id s = i then s\<lparr>ch_closed := True\<rparr> else s) (subscribers c)\<rparr>"

definition count_kind_on_topic :: "entity_kind \<Rightarrow> string \<Rightarrow> graph_cache \<Rightarrow> nat" where
  "count_kind_on_topic kind topic c =
     length (filter (\<lambda>e. pe_kind e = kind \<and> pe_topic_name e = Some topic) (map snd (entities c)))"

definition publisher_count :: "string \<Rightarrow> graph_cache \<Rightarrow> nat" where
  "publisher_count topic c = count_kind_on_topic Publisher topic c"

definition subscription_count :: "string \<Rightarrow> graph_cache \<Rightarrow> nat" where
  "subscription_count topic c = count_kind_on_topic Subscription topic c"

definition service_server_count :: "string \<Rightarrow> graph_cache \<Rightarrow> nat" where
  "service_server_count service c = count_kind_on_topic ServiceServer service c"

definition node_names :: "graph_cache \<Rightarrow> string list" where
  "node_names c =
     (let names = map (\<lambda>e. join_fqn (pe_namespace e) (pe_node_name e))
                    (filter (\<lambda>e. pe_kind e = Node) (map snd (entities c)))
      in remdups_adj (sort names))"

definition graph_len :: "graph_cache \<Rightarrow> nat" where
  "graph_len c = length (entities c)"

definition graph_is_empty :: "graph_cache \<Rightarrow> bool" where
  "graph_is_empty c \<longleftrightarrow> entities c = []"

text \<open>A history of the cache: the samples of the liveliness subscriber, and the subscribers
  that come and go between them.\<close>

datatype graph_op = PutSample string | DeleteSample string | Subscribe | DropReceiver nat

fun graph_step :: "graph_op \<Rightarrow> graph_cache \<Rightarrow> graph_cache" where
  "graph_step (PutSample key) c = apply_put key c"
| "graph_step (DeleteSample key) c = apply_delete key c"
| "graph_step Subscribe c = snd (subscribe c)"
| "graph_step (DropReceiver i) c = drop_receiver i c"

definition graph_run :: "graph_op list \<Rightarrow> graph_cache \<Rightarrow> graph_cache" where
  "graph_run ops c = fold graph_step ops c"

subsection \<open>The abstract graph\<close>

definition is_token :: "string \<Rightarrow> bool" where
  "is_token key \<longleftrightarrow> parse_liveliness_key key \<noteq> None"

fun live_step :: "graph_op \<Rightarrow> string set \<Rightarrow> string set" where
  "live_step (PutSample key) live = (if is_token key then insert key live else live)"
| "live_step (DeleteSample key) live = live - {key}"
| "live_step _ live = live"

definition live_run :: "graph_op list \<Rightarrow> string set \<Rightarrow> string set" where
  "live_run ops live = fold live_step ops live"

definition token_entity :: "string \<Rightarrow> graph_entity" where
  "token_entity key = graph_entity_from (the (parse_liveliness_key key))"

text \<open>The events one operation causes when the tokens of \<open>live\<close> are live.\<close>

fun events_of :: "string set \<Rightarrow> graph_op \<Rightarrow> graph_event list" where
  "events_of live (PutSample key) = (if is_token key then [EntityDeclared (token_entity key)] else [])"
| "events_of live (DeleteSample key) = (if key \<in> live then [EntityUndeclared (token_entity key)] else [])"
| "events_of live _ = []"

fun events_run :: "string set \<Rightarrow> graph_op list \<Rightarrow> graph_event list" where
  "events_run live [] = []"
| "events_run live (op # ops) = events_of live op @ events_run (live_step op live) ops"

definition live_keys :: "graph_cache \<Rightarrow> string set" where
  "live_keys c = dom (map_of (entities c))"

text \<open>The invariant: one entry per key, and the entry is what the key parses to; channels have
  distinct identities, all issued.\<close>

definition graph_inv :: "graph_cache \<Rightarrow> bool" where
  "graph_inv c \<longleftrightarrow> hm_inv (entities c)
     \<and> (\<forall>k e. map_of (entities c) k = Some e \<longrightarrow> parse_liveliness_key k = Some e)
     \<and> distinct (map ch_id (subscribers c))
     \<and> (\<forall>s\<in>set (subscribers c). ch_id s < next_channel c)"

lemma graph_inv_default [simp]: "graph_inv graph_cache_default"
  by (simp add: graph_inv_def graph_cache_default_def hm_inv_def)

lemma entities_broadcast [simp]: "entities (broadcast ev c) = entities c"
  by (simp add: broadcast_def Let_def)

lemma graph_inv_broadcast: "graph_inv c \<Longrightarrow> graph_inv (broadcast ev c)"
  by (auto simp: graph_inv_def broadcast_def Let_def comp_def distinct_map_filter)

lemma graph_inv_insert:
  "graph_inv c \<Longrightarrow> parse_liveliness_key k = Some e \<Longrightarrow> graph_inv (c\<lparr>entities := hm_insert k e (entities c)\<rparr>)"
  by (simp add: graph_inv_def hash_map.inv_insert map_laws)

lemma graph_inv_remove: "graph_inv c \<Longrightarrow> graph_inv (c\<lparr>entities := hm_remove k (entities c)\<rparr>)"
  by (simp add: graph_inv_def hash_map.inv_remove map_laws)

lemma graph_inv_put: "graph_inv c \<Longrightarrow> graph_inv (apply_put key c)"
  by (simp add: apply_put_def graph_inv_broadcast graph_inv_insert split: option.split)

lemma graph_inv_delete: "graph_inv c \<Longrightarrow> graph_inv (apply_delete key c)"
  by (simp add: apply_delete_def Let_def graph_inv_broadcast graph_inv_remove split: option.split)

lemma graph_inv_subscribe: "graph_inv c \<Longrightarrow> graph_inv (snd (subscribe c))"
  by (force simp: graph_inv_def subscribe_def)

lemma graph_inv_drop: "graph_inv c \<Longrightarrow> graph_inv (drop_receiver i c)"
  by (auto simp: graph_inv_def drop_receiver_def comp_def if_distrib cong: if_cong)

lemma graph_inv_step: "graph_inv c \<Longrightarrow> graph_inv (graph_step op c)"
  by (cases op) (simp_all add: graph_inv_put graph_inv_delete graph_inv_subscribe graph_inv_drop)

lemma graph_inv_run: "graph_inv c \<Longrightarrow> graph_inv (graph_run ops c)"
  unfolding graph_run_def by (induction ops arbitrary: c) (simp_all add: graph_inv_step)

lemma live_keys_step: "graph_inv c \<Longrightarrow> live_keys (graph_step op c) = live_step op (live_keys c)"
  by (cases op) (auto simp: live_keys_def apply_put_def apply_delete_def subscribe_def drop_receiver_def
      Let_def map_laws is_token_def graph_inv_def split: option.split if_splits)

lemma live_keys_run: "graph_inv c \<Longrightarrow> live_keys (graph_run ops c) = live_run ops (live_keys c)"
  unfolding graph_run_def live_run_def
  by (induction ops arbitrary: c) (simp_all add: live_keys_step graph_inv_step)

lemma live_keys_parse: "graph_inv c \<Longrightarrow> map_of (entities c) k = (if k \<in> live_keys c then parse_liveliness_key k else None)"
  by (auto simp: graph_inv_def live_keys_def)

subsection \<open>What a subscriber sees\<close>

text \<open>The log of the channel \<open>i\<close>, while the cache still holds its sender.\<close>

definition channel_log :: "nat \<Rightarrow> graph_cache \<Rightarrow> graph_event list option" where
  "channel_log i c = map_option ch_sent (find (\<lambda>s. ch_id s = i \<and> \<not> ch_closed s) (subscribers c))"

lemma find_open_broadcast:
  "find (\<lambda>s. ch_id s = i \<and> \<not> ch_closed s) (map (\<lambda>s. s\<lparr>ch_sent := ch_sent s @ [ev]\<rparr>) (filter (\<lambda>s. \<not> ch_closed s) ss)) =
   map_option (\<lambda>s. s\<lparr>ch_sent := ch_sent s @ [ev]\<rparr>) (find (\<lambda>s. ch_id s = i \<and> \<not> ch_closed s) ss)"
  by (induction ss) auto

lemma channel_log_broadcast: "channel_log i (broadcast ev c) = map_option (\<lambda>l. l @ [ev]) (channel_log i c)"
  by (simp add: channel_log_def broadcast_def Let_def find_open_broadcast option.map_comp comp_def)

lemma channel_log_entities [simp]: "channel_log i (c\<lparr>entities := m\<rparr>) = channel_log i c"
  by (simp add: channel_log_def)

lemma find_append: "find P (xs @ ys) = (case find P xs of None \<Rightarrow> find P ys | Some x \<Rightarrow> Some x)"
  by (induction xs) auto

lemma channel_log_subscribe:
  "channel_log i c = Some l \<Longrightarrow> channel_log i (snd (subscribe c)) = Some l"
  by (auto simp: channel_log_def subscribe_def find_append)

lemma channel_log_new:
  assumes "graph_inv c"
  shows "channel_log (fst (subscribe c)) (snd (subscribe c)) = Some []"
proof -
  have "find (\<lambda>s. ch_id s = next_channel c \<and> \<not> ch_closed s) (subscribers c) = None"
    using assms by (auto simp: find_None_iff graph_inv_def)
  then show ?thesis by (simp add: channel_log_def subscribe_def find_append)
qed

lemma find_open_drop:
  "i \<noteq> j \<Longrightarrow> map_option ch_sent (find (\<lambda>s. ch_id s = i \<and> \<not> ch_closed s)
     (map (\<lambda>s. if ch_id s = j then s\<lparr>ch_closed := True\<rparr> else s) ss)) =
   map_option ch_sent (find (\<lambda>s. ch_id s = i \<and> \<not> ch_closed s) ss)"
  by (induction ss) auto

lemma channel_log_drop: "i \<noteq> j \<Longrightarrow> channel_log i (drop_receiver j c) = channel_log i c"
  by (simp add: channel_log_def drop_receiver_def find_open_drop)

lemma channel_log_step:
  assumes "graph_inv c" and "channel_log i c = Some l" and "op \<noteq> DropReceiver i"
  shows "channel_log i (graph_step op c) = Some (l @ events_of (live_keys c) op)"
proof (cases op)
  case (PutSample key)
  with assms show ?thesis
    by (auto simp: apply_put_def channel_log_broadcast is_token_def token_entity_def Let_def split: option.split)
next
  case (DeleteSample key)
  show ?thesis
  proof (cases "map_of (entities c) key")
    case None
    with DeleteSample assms show ?thesis by (auto simp: apply_delete_def live_keys_def)
  next
    case (Some e)
    then have "parse_liveliness_key key = Some e" using assms(1) by (simp add: graph_inv_def)
    with Some DeleteSample assms show ?thesis
      by (auto simp: apply_delete_def channel_log_broadcast live_keys_def token_entity_def Let_def)
  qed
qed (use assms in \<open>simp_all add: channel_log_subscribe channel_log_drop\<close>)

lemma channel_log_run:
  assumes "graph_inv c" and "channel_log i c = Some l" and "DropReceiver i \<notin> set ops"
  shows "channel_log i (graph_run ops c) = Some (l @ events_run (live_keys c) ops)"
  using assms unfolding graph_run_def
proof (induction ops arbitrary: c l)
  case (Cons op ops)
  then have "op \<noteq> DropReceiver i" by auto
  with Cons show ?case
    using channel_log_step [of c i l op] by (simp add: graph_inv_step live_keys_step)
qed simp

subsection \<open>Queries as functions of the live tokens\<close>

lemma count_kind_on_topic_card:
  assumes "graph_inv c"
  shows "count_kind_on_topic kind topic c =
    card {k \<in> live_keys c. \<exists>e. parse_liveliness_key k = Some e \<and> pe_kind e = kind \<and> pe_topic_name e = Some topic}"
    (is "_ = card ?K")
proof -
  let ?P = "\<lambda>e. pe_kind e = kind \<and> pe_topic_name e = Some topic"
  have "count_kind_on_topic kind topic c = length (filter (\<lambda>p. ?P (snd p)) (entities c))"
    by (simp add: count_kind_on_topic_def filter_map comp_def)
  also have "\<dots> = card {(k, e). map_of (entities c) k = Some e \<and> ?P e}"
    using hash_map.length_filter_card [of "entities c" "\<lambda>p. ?P (snd p)"] assms by (simp add: graph_inv_def)
  also have "\<dots> = card ?K"
  proof (rule bij_betw_same_card [of fst])
    show "bij_betw fst {(k, e). map_of (entities c) k = Some e \<and> ?P e} ?K"
      using live_keys_parse [OF assms] unfolding bij_betw_def inj_on_def
      by (auto simp: image_iff split: if_splits)
  qed
  finally show ?thesis .
qed

lemma set_node_names:
  assumes "graph_inv c"
  shows "set (node_names c) = {join_fqn (pe_namespace e) (pe_node_name e) | k e.
    k \<in> live_keys c \<and> parse_liveliness_key k = Some e \<and> pe_kind e = Node}"
proof -
  have "snd ` set (entities c) = ran (map_of (entities c))"
    using assms by (simp add: graph_inv_def hash_map.inv_distinct ran_distinct)
  also have "\<dots> = {e. \<exists>k\<in>live_keys c. parse_liveliness_key k = Some e}"
    by (auto simp: ran_def live_keys_parse [OF assms])
  finally have "snd ` set (entities c) = {e. \<exists>k\<in>live_keys c. parse_liveliness_key k = Some e}" .
  then show ?thesis by (auto simp: node_names_def Let_def)
qed

lemma strict_sorted_remdups_adj: "sorted xs \<Longrightarrow> sorted_wrt (<) (remdups_adj xs)"
  by (induction xs rule: remdups_adj.induct) auto

lemma sorted_node_names: "sorted_wrt (<) (node_names c)"
  by (simp add: node_names_def strict_sorted_remdups_adj)

lemma live_keys_default [simp]: "live_keys graph_cache_default = {}"
  by (simp add: live_keys_def graph_cache_default_def)

lemma entities_length_card:
  assumes "graph_inv c"
  shows "graph_len c = card (live_keys c)"
proof -
  have "distinct (map fst (entities c))" using assms by (simp add: graph_inv_def hm_inv_def)
  then show ?thesis
    using distinct_card by (fastforce simp: graph_len_def live_keys_def dom_map_of_conv_image_fst)
qed

subsection \<open>Properties\<close>

text \<open>C3. After any history the cache holds exactly the live tokens: a key has an entry when its
  last sample was a PUT and it parses as a liveliness key, the entry is what the key parses to, the
  length is the number of live tokens, and the count for a kind and topic is the number of live
  tokens of that kind on that topic.\<close>

theorem graph_cache_refines_live_tokens:
  fixes ops :: "graph_op list"
  defines "c \<equiv> graph_run ops graph_cache_default" and "live \<equiv> live_run ops {}"
  shows "map_of (entities c) k = (if k \<in> live then parse_liveliness_key k else None)
    \<and> graph_len c = card live \<and> (graph_is_empty c \<longleftrightarrow> live = {})
    \<and> count_kind_on_topic kind topic c = card {k \<in> live. \<exists>e. parse_liveliness_key k = Some e
        \<and> pe_kind e = kind \<and> pe_topic_name e = Some topic}"
proof -
  have inv: "graph_inv c" and live: "live_keys c = live"
    by (simp_all add: c_def live_def graph_inv_run live_keys_run)
  have "graph_is_empty c \<longleftrightarrow> live = {}"
    unfolding live [symmetric] by (cases "entities c") (auto simp: graph_is_empty_def live_keys_def)
  then show ?thesis
    using live_keys_parse [OF inv] entities_length_card [OF inv] count_kind_on_topic_card [OF inv]
    by (simp add: live)
qed

text \<open>\<open>node_names\<close> lists the fully qualified names of the live node tokens, each once, in
  ascending order.\<close>

lemma node_names_sorted_exact:
  "sorted_wrt (<) (node_names (graph_run ops graph_cache_default))
   \<and> set (node_names (graph_run ops graph_cache_default)) =
     {join_fqn (pe_namespace e) (pe_node_name e) | k e.
        k \<in> live_run ops {} \<and> parse_liveliness_key k = Some e \<and> pe_kind e = Node}"
  using sorted_node_names set_node_names [of "graph_run ops graph_cache_default"]
  by (simp add: graph_inv_run live_keys_run)

text \<open>C25. A subscriber sees every later change, in order: as long as its receiver is not dropped,
  its channel holds one \<open>EntityDeclared\<close> per PUT of a token and one \<open>EntityUndeclared\<close> per
  DELETE of a token that was live, whatever other subscribers come and go.\<close>

theorem subscriber_sees_all_events:
  assumes "graph_inv c" and "DropReceiver (fst (subscribe c)) \<notin> set ops"
  shows "channel_log (fst (subscribe c)) (graph_run ops (snd (subscribe c))) =
    Some (events_run (live_keys c) ops)"
proof -
  have "live_keys (snd (subscribe c)) = live_keys c" by (simp add: live_keys_def subscribe_def)
  then show ?thesis
    using channel_log_run [OF graph_inv_subscribe [OF assms(1)] channel_log_new [OF assms(1)] assms(2)]
    by simp
qed

lemma talker_token:
  "parse_liveliness_key ''@ros2_lv/0/a/3/3/NN/%/%/talker'' = Some
    \<lparr>pe_domain_id = 0, pe_zid = ''a'', pe_node_id = 3, pe_entity_id = 3, pe_kind = Node,
     pe_namespace = ''/'', pe_node_name = ''talker'',
     pe_topic_name = None, pe_type_name = None, pe_type_hash = None, pe_qos = None\<rparr>"
  by (simp add: parse_liveliness_key_def ADMIN_SPACE_def parse_unsigned_def is_ascii_digit_def
      digits_value_def digit_value_def parse_kind_def demangle_def replace_char_Cons Let_def)

theorem subscriber_sees_all_events_witness:
  "channel_log 0 (graph_run [PutSample ''@ros2_lv/0/a/3/3/NN/%/%/talker'', PutSample ''0/chatter'',
       Subscribe, DeleteSample ''@ros2_lv/0/a/3/3/NN/%/%/talker'', DropReceiver 1] (snd (subscribe graph_cache_default)))
   = Some [EntityDeclared \<lparr>ge_kind = Node, ge_node_name = ''/talker'', ge_name = None, ge_type_name = None\<rparr>,
       EntityUndeclared \<lparr>ge_kind = Node, ge_node_name = ''/talker'', ge_name = None, ge_type_name = None\<rparr>]"
proof -
  let ?ops = "[PutSample ''@ros2_lv/0/a/3/3/NN/%/%/talker'', PutSample ''0/chatter'',
       Subscribe, DeleteSample ''@ros2_lv/0/a/3/3/NN/%/%/talker'', DropReceiver 1]"
  have i: "fst (subscribe graph_cache_default) = 0" by (simp add: subscribe_def graph_cache_default_def)
  have n: "\<not> is_token ''0/chatter''" by (simp add: is_token_def parse_liveliness_key_def)
  have t: "is_token ''@ros2_lv/0/a/3/3/NN/%/%/talker''" by (simp add: is_token_def talker_token)
  have e: "token_entity ''@ros2_lv/0/a/3/3/NN/%/%/talker'' =
      \<lparr>ge_kind = Node, ge_node_name = ''/talker'', ge_name = None, ge_type_name = None\<rparr>"
    unfolding token_entity_def talker_token by (simp add: graph_entity_from_def join_fqn_def)
  have "channel_log (fst (subscribe graph_cache_default)) (graph_run ?ops (snd (subscribe graph_cache_default))) =
      Some (events_run (live_keys graph_cache_default) ?ops)"
    by (rule subscriber_sees_all_events) (simp_all add: i)
  then show ?thesis using n t e i by simp
qed

end
