(* ===== verification/Type_Description.thy ===== *)
theory Type_Description
  imports Rust_Maps
begin

text \<open>
  Type descriptions and their hashes (\<open>zenoh_backend/type_description.rs\<close>,
  \<open>zenoh_backend/type_hash.rs\<close>). The JSON writers return the text they push. SHA-256 is code of
  another crate: the parameter \<open>sha256\<close>, from a text to its digest of 32 bytes. The writers of
  the nested objects interpret \<open>prefix_writer\<close> and \<open>object_writer\<close>: what they push determines
  both what was written and where the text goes on.
\<close>

subsection \<open>Descriptions\<close>

definition NESTED_TYPE :: nat where "NESTED_TYPE = 1"
definition INT32 :: nat where "INT32 = 6"
definition UINT32 :: nat where "UINT32 = 7"
definition INT64 :: nat where "INT64 = 8"
definition UINT64 :: nat where "UINT64 = 9"
definition FLOAT :: nat where "FLOAT = 10"
definition DOUBLE :: nat where "DOUBLE = 11"
definition BOOLEAN :: nat where "BOOLEAN = 15"
definition ARRAY_OFFSET :: nat where "ARRAY_OFFSET = 48"
definition BOUNDED_SEQUENCE_OFFSET :: nat where "BOUNDED_SEQUENCE_OFFSET = 96"

record field_type =
  ft_type_id :: nat
  ft_capacity :: nat
  ft_string_capacity :: nat
  ft_nested_type_name :: string

definition field_type_scalar :: "nat \<Rightarrow> field_type" where
  "field_type_scalar tid =
     \<lparr>ft_type_id = tid, ft_capacity = 0, ft_string_capacity = 0, ft_nested_type_name = []\<rparr>"

text \<open>The sum of the base id and the offset is a \<open>u8\<close>; \<open>None\<close> is the overflow panic.\<close>

definition field_type_array :: "overflow_mode \<Rightarrow> nat \<Rightarrow> nat \<Rightarrow> field_type option" where
  "field_type_array mode base cap =
     (let s = base + ARRAY_OFFSET in
      if s < 2 ^ 8 \<or> mode = Wrapping
      then Some \<lparr>ft_type_id = s mod 2 ^ 8, ft_capacity = cap, ft_string_capacity = 0,
        ft_nested_type_name = []\<rparr>
      else None)"

definition field_type_nested :: "string \<Rightarrow> field_type" where
  "field_type_nested nm =
     \<lparr>ft_type_id = NESTED_TYPE, ft_capacity = 0, ft_string_capacity = 0, ft_nested_type_name = nm\<rparr>"

definition field_type_nested_bounded_sequence :: "string \<Rightarrow> nat \<Rightarrow> field_type" where
  "field_type_nested_bounded_sequence nm cap =
     \<lparr>ft_type_id = NESTED_TYPE + BOUNDED_SEQUENCE_OFFSET, ft_capacity = cap, ft_string_capacity = 0,
      ft_nested_type_name = nm\<rparr>"

record field =
  fld_name :: string
  fld_type :: field_type
  fld_default_value :: string

definition field_new :: "string \<Rightarrow> field_type \<Rightarrow> field" where
  "field_new nm ft = \<lparr>fld_name = nm, fld_type = ft, fld_default_value = []\<rparr>"

record individual_type_description =
  itd_type_name :: string
  itd_fields :: "field list"

record type_description =
  td_type_description :: individual_type_description
  td_referenced :: "individual_type_description list"

definition service_type_description ::
    "string \<Rightarrow> individual_type_description \<Rightarrow> individual_type_description \<Rightarrow>
     individual_type_description \<Rightarrow> individual_type_description list \<Rightarrow> type_description" where
  "service_type_description service_name request response event referenced =
     (let top = \<lparr>itd_type_name = service_name, itd_fields =
            [field_new ''request_message'' (field_type_nested (service_name @ ''_Request'')),
             field_new ''response_message'' (field_type_nested (service_name @ ''_Response'')),
             field_new ''event_message'' (field_type_nested (service_name @ ''_Event''))]\<rparr>;
          refs = [request, response, event] @ referenced
      in \<lparr>td_type_description = top, td_referenced = refs\<rparr>)"

subsection \<open>The canonical JSON\<close>

abbreviation dquote :: char where "dquote \<equiv> CHR 0x22"
abbreviation backslash :: char where "backslash \<equiv> CHR 0x5C"

text \<open>The scalar value of a code point given by its UTF-8 bytes, and its UTF-16 units.\<close>

fun code_point :: "rust_char \<Rightarrow> nat" where
  "code_point [a] = of_char a"
| "code_point [a, b] = (of_char a mod 32) * 64 + of_char b mod 64"
| "code_point [a, b, c] = (of_char a mod 16) * 4096 + (of_char b mod 64) * 64 + of_char c mod 64"
| "code_point [a, b, c, d] =
     (of_char a mod 8) * 262144 + (of_char b mod 64) * 4096 + (of_char c mod 64) * 64 + of_char d mod 64"
| "code_point _ = 65533"

definition encode_utf16 :: "nat \<Rightarrow> nat list" where
  "encode_utf16 n =
     (if n < 65536 then [n] else [55296 + (n - 65536) div 1024, 56320 + (n - 65536) mod 1024])"

definition short_escape :: "nat \<Rightarrow> char option" where
  "short_escape n =
     (if n = 34 then Some dquote else if n = 92 then Some backslash
      else if n = 10 then Some (CHR ''n'') else if n = 13 then Some (CHR ''r'')
      else if n = 9 then Some (CHR ''t'') else if n = 8 then Some (CHR ''b'')
      else if n = 12 then Some (CHR ''f'') else None)"

definition unicode_escape :: "nat \<Rightarrow> string" where
  "unicode_escape n = backslash # CHR ''u'' # hex_fixed 4 n"

definition escape_char :: "rust_char \<Rightarrow> string" where
  "escape_char c =
     (case short_escape (code_point c) of
        Some e \<Rightarrow> [backslash, e]
      | None \<Rightarrow>
          if code_point c < 32 then unicode_escape (code_point c)
          else if code_point c < 128 then c
          else concat (map unicode_escape (encode_utf16 (code_point c))))"

definition write_json_string :: "string \<Rightarrow> string" where
  "write_json_string s = [dquote] @ concat (map escape_char (utf8_chars s)) @ [dquote]"

definition json_key :: "string \<Rightarrow> string" where
  "json_key k = [dquote] @ k @ [dquote] @ '': ''"

definition write_field_type :: "field_type \<Rightarrow> string" where
  "write_field_type ft =
     ''{'' @ json_key ''type_id'' @ show_nat (ft_type_id ft)
     @ '', '' @ json_key ''capacity'' @ show_nat (ft_capacity ft)
     @ '', '' @ json_key ''string_capacity'' @ show_nat (ft_string_capacity ft)
     @ '', '' @ json_key ''nested_type_name'' @ write_json_string (ft_nested_type_name ft) @ ''}''"

definition write_field :: "field \<Rightarrow> string" where
  "write_field f =
     ''{'' @ json_key ''name'' @ write_json_string (fld_name f)
     @ '', '' @ json_key ''type'' @ write_field_type (fld_type f) @ ''}''"

text \<open>The loop that writes the elements of an array, with a separator before all but the first.\<close>

fun write_elements :: "('a \<Rightarrow> string) \<Rightarrow> nat \<Rightarrow> 'a list \<Rightarrow> string" where
  "write_elements w i [] = []"
| "write_elements w i (x # xs) = (if i > 0 then '', '' else []) @ w x @ write_elements w (Suc i) xs"

definition write_itd :: "individual_type_description \<Rightarrow> string" where
  "write_itd itd =
     ''{'' @ json_key ''type_name'' @ write_json_string (itd_type_name itd)
     @ '', '' @ json_key ''fields'' @ ''['' @ write_elements write_field 0 (itd_fields itd) @ '']}''"

definition hashable_json :: "type_description \<Rightarrow> string" where
  "hashable_json td =
     (let refs = sort_key itd_type_name (td_referenced td)
      in ''{'' @ json_key ''type_description'' @ write_itd (td_type_description td)
         @ '', '' @ json_key ''referenced_type_descriptions'' @ ''['' @ write_elements write_itd 0 refs @ '']}'')"

definition rihs01 :: "(string \<Rightarrow> 8 word list) \<Rightarrow> type_description \<Rightarrow> string" where
  "rihs01 sha256 td =
     ''RIHS01_'' @ concat (map (\<lambda>b. hex_fixed 2 (unat b)) (sha256 (hashable_json td)))"

subsection \<open>The table of known hashes\<close>

definition WILDCARD :: string where "WILDCARD = ''*''"

definition PLACEHOLDER_HASH :: string where
  "PLACEHOLDER_HASH = ''RIHS01_'' @ replicate 64 (CHR ''0'')"

definition std_msgs_scalars :: "(string \<times> string \<times> nat) list" where
  "std_msgs_scalars =
     [(''std_msgs::msg::dds_::Bool_'', ''std_msgs/msg/Bool'', BOOLEAN),
      (''std_msgs::msg::dds_::Float32_'', ''std_msgs/msg/Float32'', FLOAT),
      (''std_msgs::msg::dds_::Float64_'', ''std_msgs/msg/Float64'', DOUBLE),
      (''std_msgs::msg::dds_::Int32_'', ''std_msgs/msg/Int32'', INT32),
      (''std_msgs::msg::dds_::Int64_'', ''std_msgs/msg/Int64'', INT64),
      (''std_msgs::msg::dds_::UInt32_'', ''std_msgs/msg/UInt32'', UINT32),
      (''std_msgs::msg::dds_::UInt64_'', ''std_msgs/msg/UInt64'', UINT64)]"

definition scalar_description :: "string \<Rightarrow> nat \<Rightarrow> type_description" where
  "scalar_description ros tid =
     \<lparr>td_type_description = \<lparr>itd_type_name = ros, itd_fields = [field_new ''data'' (field_type_scalar tid)]\<rparr>,
      td_referenced = []\<rparr>"

definition STD_MSGS_SCALAR_HASHES :: "(string \<Rightarrow> 8 word list) \<Rightarrow> (string \<times> string) list" where
  "STD_MSGS_SCALAR_HASHES sha256 =
     map (\<lambda>(dds, ros, tid). (dds, rihs01 sha256 (scalar_description ros tid))) std_msgs_scalars"

definition known_type_hash :: "(string \<Rightarrow> 8 word list) \<Rightarrow> string \<Rightarrow> string option" where
  "known_type_hash sha256 dds_type_name =
     (if dds_type_name = ''std_msgs::msg::dds_::String_''
      then Some ''RIHS01_df668c740482bbd48fb39d76a70dfd4bd59db1288021743503259e948f6b1a18''
      else if dds_type_name = ''example_interfaces::srv::dds_::AddTwoInts_''
      then Some ''RIHS01_e118de6bf5eeb66a2491b5bda11202e7b68f198d6f67922cf30364858239c81a''
      else map_of (STD_MSGS_SCALAR_HASHES sha256) dds_type_name)"

definition sender_hash :: "(string \<Rightarrow> 8 word list) \<Rightarrow> string \<Rightarrow> string" where
  "sender_hash sha256 dds_type_name =
     (case known_type_hash sha256 dds_type_name of Some h \<Rightarrow> h | None \<Rightarrow> PLACEHOLDER_HASH)"

subsection \<open>Writers that can be read back\<close>

locale prefix_writer =
  fixes w :: "'a \<Rightarrow> string" and wf :: "'a \<Rightarrow> bool"
  assumes prefix_inj: "wf x \<Longrightarrow> wf y \<Longrightarrow> w x @ r = w y @ s \<longleftrightarrow> x = y \<and> r = s"
begin

lemma writes_inj: "wf x \<Longrightarrow> wf y \<Longrightarrow> w x = w y \<longleftrightarrow> x = y"
  using prefix_inj [of x y "[]" "[]"] by simp

end

text \<open>Objects open with a brace, so the elements of an array of objects can be told apart from
  the bracket that closes it.\<close>

locale object_writer = prefix_writer +
  assumes opens: "wf x \<Longrightarrow> \<exists>t. w x = CHR ''{'' # t"
begin

lemma not_closing: "wf x \<Longrightarrow> CHR '']'' # r \<noteq> w x @ t \<and> w x @ t \<noteq> CHR '']'' # r"
  using opens [of x] by auto

lemma elements_inj:
  assumes "list_all wf xs" and "list_all wf ys"
  shows "write_elements w i xs @ CHR '']'' # r = write_elements w i ys @ CHR '']'' # s \<longleftrightarrow> xs = ys \<and> r = s"
  using assms
proof (induction xs arbitrary: ys i)
  case Nil
  then show ?case using not_closing by (cases ys) auto
next
  case (Cons x xs)
  note x = Cons
  show ?case
  proof (cases ys)
    case Nil
    then show ?thesis using not_closing x by auto
  next
    case (Cons y zs)
    have "w x @ write_elements w (Suc i) xs @ CHR '']'' # r = w y @ write_elements w (Suc i) zs @ CHR '']'' # s
        \<longleftrightarrow> x = y \<and> xs = zs \<and> r = s"
      using x Cons prefix_inj [of x y] by auto
    then show ?thesis using Cons by auto
  qed
qed

end

subsection \<open>The writers of this module\<close>

definition ascii_string :: "string \<Rightarrow> bool" where
  "ascii_string s \<longleftrightarrow> list_all (\<lambda>c. (of_char c :: nat) < 128) s"

definition wf_field_type :: "field_type \<Rightarrow> bool" where
  "wf_field_type ft \<longleftrightarrow> ascii_string (ft_nested_type_name ft)"

definition wf_field :: "field \<Rightarrow> bool" where
  "wf_field f \<longleftrightarrow> ascii_string (fld_name f) \<and> wf_field_type (fld_type f) \<and> fld_default_value f = []"

definition wf_itd :: "individual_type_description \<Rightarrow> bool" where
  "wf_itd itd \<longleftrightarrow> ascii_string (itd_type_name itd) \<and> list_all wf_field (itd_fields itd)"

lemma utf8_chars_ascii_string: "ascii_string s \<Longrightarrow> utf8_chars s = map (\<lambda>c. [c]) s"
  by (rule utf8_chars_ascii) (auto simp: ascii_string_def list_all_iff is_utf8_cont_def)

lemma short_escape_not_u: "short_escape n = Some e \<Longrightarrow> e \<noteq> CHR ''u''"
  by (auto simp: short_escape_def split: if_splits)

lemma short_escape_inj: "short_escape m = Some e \<Longrightarrow> short_escape n = Some e \<Longrightarrow> m = n"
  by (auto simp: short_escape_def split: if_splits)

lemma short_escape_None: "short_escape (of_char c) = None \<Longrightarrow> c \<noteq> dquote \<and> c \<noteq> backslash"
  by (auto simp: short_escape_def)

lemma escape_char_inj:
  assumes "(of_char c :: nat) < 128" and "(of_char d :: nat) < 128"
  shows "escape_char [c] @ r = escape_char [d] @ s \<longleftrightarrow> c = d \<and> r = s"
proof
  assume eq: "escape_char [c] @ r = escape_char [d] @ s"
  show "c = d \<and> r = s"
  proof (cases "short_escape (of_char c)"; cases "short_escape (of_char d)")
    assume "short_escape (of_char c) = None" "short_escape (of_char d) = None"
    moreover have "hex_fixed 4 (of_char c) = hex_fixed 4 (of_char d) \<longleftrightarrow> c = d"
      using hex_fixed_inj [of "of_char c" 4 "of_char d"] assms by auto
    ultimately show ?thesis
      using eq assms short_escape_None by (auto simp: escape_char_def unicode_escape_def split: if_splits)
  next
    fix e assume "short_escape (of_char c) = None" "short_escape (of_char d) = Some e"
    then show ?thesis
      using eq assms short_escape_None short_escape_not_u
      by (auto simp: escape_char_def unicode_escape_def split: if_splits)
  next
    fix e assume "short_escape (of_char c) = Some e" "short_escape (of_char d) = None"
    then show ?thesis
      using eq assms short_escape_None short_escape_not_u
      by (auto simp: escape_char_def unicode_escape_def split: if_splits)
  next
    fix e f assume "short_escape (of_char c) = Some e" "short_escape (of_char d) = Some f"
    then show ?thesis
      using eq short_escape_inj [of "of_char c" e "of_char d"] by (auto simp: escape_char_def)
  qed
qed simp

lemma escape_char_opens:
  assumes "(of_char c :: nat) < 128"
  shows "escape_char [c] @ r \<noteq> dquote # s \<and> dquote # s \<noteq> escape_char [c] @ r"
  using assms short_escape_None [of c]
  by (auto simp: escape_char_def unicode_escape_def split: option.split)

lemma escaped_inj:
  assumes "ascii_string s" and "ascii_string t"
  shows "concat (map escape_char (map (\<lambda>c. [c]) s)) @ dquote # r =
    concat (map escape_char (map (\<lambda>c. [c]) t)) @ dquote # r' \<longleftrightarrow> s = t \<and> r = r'"
  using assms
proof (induction s arbitrary: t)
  case Nil
  then show ?case using escape_char_opens by (cases t) (auto simp: ascii_string_def)
next
  case (Cons c s)
  then show ?case
    using escape_char_opens escape_char_inj [of c "hd t"]
    by (cases t) (auto simp: ascii_string_def)
qed

interpretation json_string: prefix_writer write_json_string ascii_string
  by unfold_locales (simp add: write_json_string_def utf8_chars_ascii_string escaped_inj [simplified])

text \<open>A decimal number is read back up to the first character that is not a digit.\<close>

lemma show_nat_prefix_inj:
  assumes "\<not> is_ascii_digit c" and "\<not> is_ascii_digit d"
  shows "show_nat m @ c # r = show_nat n @ d # s \<longleftrightarrow> m = n \<and> c # r = d # s"
proof
  assume eq: "show_nat m @ c # r = show_nat n @ d # s"
  have "takeWhile is_ascii_digit (show_nat k @ e # t) = show_nat k" if "\<not> is_ascii_digit e" for k e t
    using that show_nat_digits [of k] by (simp add: list_all_iff)
  with assms eq have "show_nat m = show_nat n" by metis
  with eq show "m = n \<and> c # r = d # s" using digits_value_show_nat by (metis same_append_eq)
qed simp

lemma show_nat_comma_inj: "show_nat m @ CHR '','' # r = show_nat n @ CHR '','' # s \<longleftrightarrow> m = n \<and> r = s"
  using show_nat_prefix_inj [of "CHR '',''" "CHR '',''"] by (simp add: is_ascii_digit_def)

interpretation json_field_type: object_writer write_field_type wf_field_type
proof unfold_locales
  fix x y :: field_type and r s assume "wf_field_type x" "wf_field_type y"
  then show "write_field_type x @ r = write_field_type y @ s \<longleftrightarrow> x = y \<and> r = s"
    by (cases x; cases y) (auto simp: write_field_type_def wf_field_type_def show_nat_comma_inj
        json_string.prefix_inj)
qed (simp add: write_field_type_def)

interpretation json_field: object_writer write_field wf_field
proof unfold_locales
  fix x y :: field and r s assume "wf_field x" "wf_field y"
  then show "write_field x @ r = write_field y @ s \<longleftrightarrow> x = y \<and> r = s"
    by (cases x; cases y) (auto simp: write_field_def wf_field_def json_string.prefix_inj
        json_field_type.prefix_inj)
qed (simp add: write_field_def)

interpretation json_itd: object_writer write_itd wf_itd
proof unfold_locales
  fix x y :: individual_type_description and r s assume "wf_itd x" "wf_itd y"
  then show "write_itd x @ r = write_itd y @ s \<longleftrightarrow> x = y \<and> r = s"
    by (cases x; cases y) (auto simp: write_itd_def wf_itd_def json_string.prefix_inj
        json_field.elements_inj)
qed (simp add: write_itd_def)

subsection \<open>What the hash depends on\<close>

text \<open>A description up to what hashing ignores: default values, and the order of the referenced
  types.\<close>

definition strip_field :: "field \<Rightarrow> field" where
  "strip_field f = f\<lparr>fld_default_value := []\<rparr>"

definition strip_itd :: "individual_type_description \<Rightarrow> individual_type_description" where
  "strip_itd itd = itd\<lparr>itd_fields := map strip_field (itd_fields itd)\<rparr>"

definition canonical :: "type_description \<Rightarrow> individual_type_description \<times> individual_type_description list" where
  "canonical td = (strip_itd (td_type_description td), map strip_itd (sort_key itd_type_name (td_referenced td)))"

definition ascii_itd :: "individual_type_description \<Rightarrow> bool" where
  "ascii_itd itd \<longleftrightarrow> wf_itd (strip_itd itd)"

definition ascii_td :: "type_description \<Rightarrow> bool" where
  "ascii_td td \<longleftrightarrow> ascii_itd (td_type_description td) \<and> list_all ascii_itd (td_referenced td)"

lemma write_elements_map: "write_elements w i (map f xs) = write_elements (\<lambda>x. w (f x)) i xs"
  by (induction xs arbitrary: i) auto

lemma write_field_strip [simp]: "write_field (strip_field f) = write_field f"
  by (simp add: write_field_def strip_field_def)

lemma write_itd_strip [simp]: "write_itd (strip_itd itd) = write_itd itd"
  by (simp add: write_itd_def strip_itd_def write_elements_map)

definition write_canonical :: "individual_type_description \<times> individual_type_description list \<Rightarrow> string" where
  "write_canonical c =
     ''{'' @ json_key ''type_description'' @ write_itd (fst c)
     @ '', '' @ json_key ''referenced_type_descriptions'' @ ''['' @ write_elements write_itd 0 (snd c) @ '']}''"

lemma hashable_json_canonical: "hashable_json td = write_canonical (canonical td)"
  by (simp add: hashable_json_def write_canonical_def canonical_def write_elements_map Let_def)

lemma write_canonical_inj:
  assumes "wf_itd (fst c)" "list_all wf_itd (snd c)" "wf_itd (fst d)" "list_all wf_itd (snd d)"
  shows "write_canonical c = write_canonical d \<longleftrightarrow> c = d"
proof -
  have "write_elements write_itd 0 (snd c) = write_elements write_itd 0 (snd d) \<longleftrightarrow> snd c = snd d"
    using json_itd.elements_inj [OF assms(2,4), of 0 "[]" "[]"] by simp
  then show ?thesis
    using assms by (auto simp: write_canonical_def json_itd.prefix_inj prod_eq_iff)
qed

lemma canonical_wf: "ascii_td td \<Longrightarrow> wf_itd (fst (canonical td)) \<and> list_all wf_itd (snd (canonical td))"
  by (auto simp: ascii_td_def canonical_def ascii_itd_def list_all_iff)

lemma sort_key_unique:
  assumes "set xs = set ys" and "distinct (map f xs)" and "distinct (map f ys)"
  shows "sort_key f xs = sort_key f ys"
proof (rule map_sorted_distinct_set_unique [of f])
  have "distinct (map f (sort_key f zs))" if "distinct (map f zs)" for zs
    using that by (simp add: distinct_map)
  then show "distinct (map f (sort_key f xs))" "distinct (map f (sort_key f ys))"
    using assms by blast+
qed (use assms in \<open>simp_all add: distinct_map\<close>)

lemma hex_byte_inj: "hex_fixed 2 (unat (a :: 8 word)) = hex_fixed 2 (unat b) \<longleftrightarrow> a = b"
proof -
  have "unat c < 16 ^ 2" for c :: "8 word" using unsigned_less [of c] by simp
  then show ?thesis using hex_fixed_inj [of "unat a" 2 "unat b"] by (metis unsigned_word_eqI)
qed

lemma concat_hex_inj:
  "length as = length bs \<Longrightarrow> concat (map (\<lambda>b. hex_fixed 2 (unat (b :: 8 word))) as) =
     concat (map (\<lambda>b. hex_fixed 2 (unat b)) bs) \<longleftrightarrow> as = bs"
  by (induction as bs rule: list_induct2) (auto simp: hex_byte_inj)

lemma length_concat_hex: "length (concat (map (\<lambda>b. hex_fixed 2 (unat b)) bs)) = 2 * length bs"
  by (induction bs) auto

lemma hex_char_alphanumeric: "d < 16 \<Longrightarrow> is_ascii_alphanumeric (hex_char d)"
  by (cases "d < 10") (simp_all add: is_ascii_alphanumeric_def is_ascii_digit_def is_ascii_alphabetic_def of_char_hex_char)

lemma hex_fixed_chars: "c \<in> set (hex_fixed k n) \<Longrightarrow> is_ascii_alphanumeric c"
  by (induction k arbitrary: n) (auto simp: hex_char_alphanumeric)

lemma rihs01_chars: "c \<in> set (rihs01 sha256 td) \<Longrightarrow> is_ascii_alphanumeric c \<or> c = CHR ''_''"
  by (auto simp: rihs01_def is_ascii_alphanumeric_def is_ascii_alphabetic_def is_ascii_digit_def
      dest: hex_fixed_chars)

lemma scalar_hash_rihs01: "map_of (STD_MSGS_SCALAR_HASHES sha256) ty = Some h \<Longrightarrow> \<exists>td. h = rihs01 sha256 td"
  by (auto simp: STD_MSGS_SCALAR_HASHES_def dest!: map_of_SomeD)

lemma sender_hash_cases:
  obtains "sender_hash sha256 ty = PLACEHOLDER_HASH"
  | "sender_hash sha256 ty = ''RIHS01_df668c740482bbd48fb39d76a70dfd4bd59db1288021743503259e948f6b1a18''"
  | "sender_hash sha256 ty = ''RIHS01_e118de6bf5eeb66a2491b5bda11202e7b68f198d6f67922cf30364858239c81a''"
  | td where "sender_hash sha256 ty = rihs01 sha256 td"
proof (cases "known_type_hash sha256 ty")
  case None
  then show ?thesis using that(1) by (simp add: sender_hash_def)
next
  case (Some h)
  then have "sender_hash sha256 ty = h" by (simp add: sender_hash_def)
  then show ?thesis
    using Some that(2-4) scalar_hash_rihs01 [of sha256 ty h]
    by (auto simp: known_type_hash_def split: if_splits)
qed

lemma sender_hash_chars: "CHR ''*'' \<notin> set (sender_hash sha256 ty) \<and> CHR ''/'' \<notin> set (sender_hash sha256 ty)"
proof (cases rule: sender_hash_cases [of sha256 ty])
  case 1
  then show ?thesis by (simp add: PLACEHOLDER_HASH_def)
next
  case (4 td)
  then show ?thesis
    using rihs01_chars [of _ sha256 td]
    by (fastforce simp: is_ascii_alphanumeric_def is_ascii_alphabetic_def is_ascii_digit_def)
qed simp_all

subsection \<open>Properties\<close>

text \<open>C32. The canonical JSON determines the description up to default values and the order of the
  referenced types: for descriptions whose names are ASCII, equal JSON means an equal top type and
  equal referenced types, defaults aside.\<close>

theorem hashable_json_exact:
  assumes "ascii_td a" and "ascii_td b"
  shows "hashable_json a = hashable_json b \<longleftrightarrow> canonical a = canonical b"
  using write_canonical_inj canonical_wf [OF assms(1)] canonical_wf [OF assms(2)]
  by (simp add: hashable_json_canonical)

theorem hashable_json_exact_witness:
  "hashable_json (scalar_description ''std_msgs/msg/Int32'' INT32)
   \<noteq> hashable_json (scalar_description ''std_msgs/msg/Int32'' INT64)"
proof -
  let ?d = "scalar_description ''std_msgs/msg/Int32''"
  have "ascii_td (?d t)" for t
    by (simp add: ascii_td_def ascii_itd_def wf_itd_def strip_itd_def strip_field_def scalar_description_def
        field_new_def field_type_scalar_def wf_field_def wf_field_type_def ascii_string_def)
  moreover have "canonical (?d INT32) \<noteq> canonical (?d INT64)"
    by (simp add: canonical_def scalar_description_def strip_itd_def strip_field_def field_new_def
        field_type_scalar_def INT32_def INT64_def)
  ultimately show ?thesis using hashable_json_exact [of "?d INT32" "?d INT64"] by blast
qed

text \<open>Hashing does not see the order in which the referenced types are given, nor default
  values: with distinct names, the same set of referenced types gives the same hash.\<close>

lemma rihs01_order_irrelevant:
  assumes "strip_itd (td_type_description a) = strip_itd (td_type_description b)"
    and "set (td_referenced a) = set (td_referenced b)"
    and "distinct (map itd_type_name (td_referenced a))" and "distinct (map itd_type_name (td_referenced b))"
  shows "rihs01 sha256 a = rihs01 sha256 b"
  using sort_key_unique [OF assms(2-4)] assms(1)
  by (simp add: rihs01_def hashable_json_canonical canonical_def)

theorem rihs01_order_irrelevant_witness:
  "let x = \<lparr>itd_type_name = ''p/msg/A'', itd_fields = []\<rparr>;
       y = \<lparr>itd_type_name = ''p/msg/B'', itd_fields = []\<rparr>;
       t = \<lparr>itd_type_name = ''p/msg/T'', itd_fields = [field_new ''d'' (field_type_scalar 6)]\<rparr>;
       u = \<lparr>itd_type_name = ''p/msg/T'', itd_fields = [(field_new ''d'' (field_type_scalar 6))\<lparr>fld_default_value := ''7''\<rparr>]\<rparr>
   in rihs01 (\<lambda>_. [7]) \<lparr>td_type_description = t, td_referenced = [y, x]\<rparr>
    = rihs01 (\<lambda>_. [7]) \<lparr>td_type_description = u, td_referenced = [x, y]\<rparr>"
  unfolding Let_def
  by (rule rihs01_order_irrelevant) (auto simp: strip_itd_def strip_field_def field_new_def)

text \<open>A type hash has the form REP-2016 prescribes, the version tag and 64 hexadecimal digits,
  and two descriptions whose digests do not collide have the same hash exactly when they are equal
  up to defaults and order.\<close>

lemma rihs01_identifies_type:
  assumes "\<And>s. length (sha256 s) = 32" and "ascii_td a" and "ascii_td b"
    and "sha256 (hashable_json a) = sha256 (hashable_json b) \<Longrightarrow> hashable_json a = hashable_json b"
  shows "length (rihs01 sha256 a) = 71 \<and> take 7 (rihs01 sha256 a) = ''RIHS01_''
    \<and> (rihs01 sha256 a = rihs01 sha256 b \<longleftrightarrow> canonical a = canonical b)"
proof -
  have "rihs01 sha256 a = rihs01 sha256 b \<longleftrightarrow> hashable_json a = hashable_json b"
    using concat_hex_inj assms(1,4) by (auto simp: rihs01_def)
  also have "\<dots> \<longleftrightarrow> canonical a = canonical b"
    using write_canonical_inj canonical_wf [OF assms(2)] canonical_wf [OF assms(3)]
    by (simp add: hashable_json_canonical)
  finally show ?thesis using assms(1) by (simp add: rihs01_def length_concat_hex)
qed

text \<open>A digest for concrete evaluation, which singles out one text.\<close>

definition marking_digest :: "string \<Rightarrow> string \<Rightarrow> 8 word list" where
  "marking_digest s t = replicate 32 (if s = t then 1 else 0)"

theorem rihs01_identifies_type_witness:
  "let a = scalar_description ''std_msgs/msg/Int32'' INT32; b = scalar_description ''std_msgs/msg/Int64'' INT64;
       digest = marking_digest (hashable_json a)
   in length (rihs01 digest a) = 71 \<and> rihs01 digest a \<noteq> rihs01 digest b"
proof -
  let ?a = "scalar_description ''std_msgs/msg/Int32'' INT32" and ?b = "scalar_description ''std_msgs/msg/Int64'' INT64"
  have wf: "ascii_td ?a" "ascii_td ?b"
    by (simp_all add: ascii_td_def ascii_itd_def wf_itd_def strip_itd_def strip_field_def scalar_description_def
        field_new_def field_type_scalar_def wf_field_def wf_field_type_def ascii_string_def)
  have "canonical ?a \<noteq> canonical ?b"
    by (simp add: canonical_def scalar_description_def strip_itd_def strip_field_def field_new_def
        field_type_scalar_def)
  moreover have "hashable_json ?a = hashable_json ?b"
    if "marking_digest (hashable_json ?a) (hashable_json ?a) = marking_digest (hashable_json ?a) (hashable_json ?b)"
    using that by (simp add: marking_digest_def split: if_splits)
  moreover have "length (marking_digest s t) = 32" for s t by (simp add: marking_digest_def)
  ultimately show ?thesis
    using rihs01_identifies_type [of "marking_digest (hashable_json ?a)" ?a ?b, OF _ wf] by (simp add: Let_def)
qed

text \<open>What a sender puts in the hash slot of its key is concrete, never the wildcard a
  subscription listens with, whatever the type; and it has no slash, so it stays one chunk of the
  key.\<close>

lemma sender_hash_concrete:
  "sender_hash sha256 ty \<noteq> WILDCARD \<and> CHR ''*'' \<notin> set (sender_hash sha256 ty)
   \<and> CHR ''/'' \<notin> set (sender_hash sha256 ty)"
  using sender_hash_chars [of sha256 ty] by (auto simp: WILDCARD_def)

end
