(* ===== verification/Zenoh_Wire.thy ===== *)
theory Zenoh_Wire
  imports Rust_Duration
begin

text \<open>
  What the Zenoh backend puts on the wire: entity GIDs (\<open>zenoh_backend/gid.rs\<close>), CDR payloads with
  their encapsulation header (\<open>cdr.rs\<close>) and attachments (\<open>attachment.rs\<close>). The bodies of CDR
  payloads come from the crate cdr-encoding and the fields of attachments from zenoh-ext; both are
  parameters, with the round trip they document as the laws \<open>cdr_lawful\<close> and \<open>zserde_lawful\<close>.
\<close>

type_synonym byte = "8 word"

subsection \<open>Little-endian bytes\<close>

fun le_bytes :: "nat \<Rightarrow> nat \<Rightarrow> byte list" where
  "le_bytes 0 x = []"
| "le_bytes (Suc n) x = word_of_nat x # le_bytes n (x div 256)"

fun from_le_bytes :: "byte list \<Rightarrow> nat" where
  "from_le_bytes [] = 0"
| "from_le_bytes (b # bs) = unat b + 256 * from_le_bytes bs"

lemma length_le_bytes [simp]: "length (le_bytes n x) = n"
  by (induction n arbitrary: x) simp_all

lemma from_le_bytes_le_bytes [simp]: "from_le_bytes (le_bytes n x) = x mod 256 ^ n"
  by (induction n arbitrary: x) (simp_all add: unat_of_nat mod_mult2_eq)

lemma from_le_bytes_bound: "from_le_bytes bs < 256 ^ length bs"
proof (induction bs)
  case (Cons b bs)
  have "unat b < 256" using unsigned_less [of b, where ?'a = nat] by simp
  then have "unat b + 256 * from_le_bytes bs < 256 * (from_le_bytes bs + 1)" by simp
  also have "\<dots> \<le> 256 * 256 ^ length bs" using Cons by (intro mult_le_mono2) simp
  finally show ?case by simp
qed simp

lemma le_bytes_from_le_bytes: "le_bytes (length bs) (from_le_bytes bs) = bs"
proof (induction bs)
  case (Cons b bs)
  have b: "unat b < 256" using unsigned_less [of b, where ?'a = nat] by simp
  then have "(unat b + 256 * from_le_bytes bs) div 256 = from_le_bytes bs" by simp
  moreover have "word_of_nat (unat b + 256 * from_le_bytes bs) = b"
  proof (rule word_unat_eq_iff [THEN iffD2])
    show "unat (word_of_nat (unat b + 256 * from_le_bytes bs) :: byte) = unat b"
      using b by (simp only: unat_of_nat len_bit0 len_num1) simp
  qed
  ultimately show ?case using Cons by simp
qed simp

lemma from_le_bytes_inj: "length a = length b \<Longrightarrow> from_le_bytes a = from_le_bytes b \<Longrightarrow> a = b"
  by (metis le_bytes_from_le_bytes)

subsection \<open>Entity GIDs\<close>

definition GID_LEN :: nat where "GID_LEN = 16"

definition gid_from_liveliness_key :: "(string \<Rightarrow> 128 word) \<Rightarrow> string \<Rightarrow> byte list" where
  "gid_from_liveliness_key xxh3_128 key = le_bytes GID_LEN (unat (xxh3_128 key))"

definition gid_hex :: "byte list \<Rightarrow> string" where
  "gid_hex gid = concat (map (\<lambda>b. hex_fixed 2 (unat b)) gid)"

lemma length_gid [simp]: "length (gid_from_liveliness_key h key) = 16"
  by (simp add: gid_from_liveliness_key_def GID_LEN_def)

lemma gid_from_liveliness_key_inj:
  "gid_from_liveliness_key h a = gid_from_liveliness_key h b \<longleftrightarrow> h a = h b"
proof
  assume "gid_from_liveliness_key h a = gid_from_liveliness_key h b"
  then have "unat (h a) mod 256 ^ 16 = unat (h b) mod 256 ^ 16"
    by (metis from_le_bytes_le_bytes gid_from_liveliness_key_def GID_LEN_def)
  then show "h a = h b" using unsigned_less [of "h a", where ?'a = nat] unsigned_less [of "h b", where ?'a = nat]
    by (simp add: word_unat_eq_iff)
qed (simp add: gid_from_liveliness_key_def)

subsection \<open>CDR payloads\<close>

record 'm cdr_encoding =
  to_vec_le :: "'m \<Rightarrow> byte list option"
  from_bytes_le :: "byte list \<Rightarrow> ('m \<times> nat) option"
  from_bytes_be :: "byte list \<Rightarrow> ('m \<times> nat) option"

datatype cdr_error = CdrEncoding | MissingHeader

definition CDR_LE_HEADER :: "byte list" where
  "CDR_LE_HEADER = [0x00, 0x01, 0x00, 0x00]"

definition to_cdr :: "'m cdr_encoding \<Rightarrow> 'm \<Rightarrow> cdr_error + byte list" where
  "to_cdr cdr msg =
     and_then (ok_or CdrEncoding (to_vec_le cdr msg)) (\<lambda>body. Ok (CDR_LE_HEADER @ body))"

definition from_cdr :: "'m cdr_encoding \<Rightarrow> byte list \<Rightarrow> cdr_error + 'm" where
  "from_cdr cdr bytes =
     (if length bytes < 4 then Err MissingHeader
      else let body = drop 4 bytes;
               little_endian = (and (bytes ! 1) 0x01 = 0x01)
           in and_then (ok_or CdrEncoding (if little_endian then from_bytes_le cdr body else from_bytes_be cdr body))
                (\<lambda>(msg, consumed). Ok msg))"

text \<open>The law of the crate: what was serialized in little-endian order is read back.\<close>

definition cdr_lawful :: "'m cdr_encoding \<Rightarrow> bool" where
  "cdr_lawful cdr \<longleftrightarrow> (\<forall>msg b. to_vec_le cdr msg = Some b \<longrightarrow> (\<exists>n. from_bytes_le cdr b = Some (msg, n)))"

lemma to_cdr_Ok: "to_cdr cdr msg = Ok b \<longleftrightarrow> (\<exists>body. to_vec_le cdr msg = Some body \<and> b = CDR_LE_HEADER @ body)"
  by (auto simp: to_cdr_def and_then_Ok)

lemma from_to_cdr:
  assumes "cdr_lawful cdr" and "to_cdr cdr msg = Ok b"
  shows "from_cdr cdr b = Ok msg"
proof -
  obtain body n where "to_vec_le cdr msg = Some body" "b = CDR_LE_HEADER @ body" "from_bytes_le cdr body = Some (msg, n)"
    using assms unfolding to_cdr_Ok cdr_lawful_def by blast
  then show ?thesis by (simp add: from_cdr_def CDR_LE_HEADER_def)
qed

subsection \<open>Attachments\<close>

record attachment_data =
  at_sequence_number :: int
  at_source_timestamp :: int
  at_source_gid :: "byte list"

text \<open>What the source uses of zenoh-ext: serializing an \<open>i64\<close> and an array of 16 bytes, and reading
  one from the front of the bytes left.\<close>

record zserde =
  ser_i64 :: "int \<Rightarrow> byte list"
  ser_gid :: "byte list \<Rightarrow> byte list"
  de_i64 :: "byte list \<Rightarrow> (int \<times> byte list) option"
  de_gid :: "byte list \<Rightarrow> (byte list \<times> byte list) option"

datatype attachment_error = AttachmentError

definition to_zbytes :: "zserde \<Rightarrow> attachment_data \<Rightarrow> byte list" where
  "to_zbytes z a =
     ser_i64 z (at_sequence_number a) @ ser_i64 z (at_source_timestamp a) @ ser_gid z (at_source_gid a)"

definition from_zbytes :: "zserde \<Rightarrow> byte list \<Rightarrow> attachment_error + attachment_data" where
  "from_zbytes z bytes =
     and_then (ok_or AttachmentError (de_i64 z bytes)) (\<lambda>(seq, b1).
     and_then (ok_or AttachmentError (de_i64 z b1)) (\<lambda>(ts, b2).
     and_then (ok_or AttachmentError (de_gid z b2)) (\<lambda>(gid, _).
       Ok \<lparr>at_sequence_number = seq, at_source_timestamp = ts, at_source_gid = gid\<rparr>)))"

definition zserde_lawful :: "zserde \<Rightarrow> bool" where
  "zserde_lawful z \<longleftrightarrow>
     (\<forall>x rest. i64_ok x \<longrightarrow> de_i64 z (ser_i64 z x @ rest) = Some (x, rest))
   \<and> (\<forall>g rest. length g = 16 \<longrightarrow> de_gid z (ser_gid z g @ rest) = Some (g, rest))
   \<and> (\<forall>b g rest. de_gid z b = Some (g, rest) \<longrightarrow> length g = 16)"

definition wf_attachment :: "attachment_data \<Rightarrow> bool" where
  "wf_attachment a \<longleftrightarrow> i64_ok (at_sequence_number a) \<and> i64_ok (at_source_timestamp a) \<and> length (at_source_gid a) = 16"

lemma from_to_zbytes:
  assumes "zserde_lawful z" and "wf_attachment a"
  shows "from_zbytes z (to_zbytes z a) = Ok a"
proof -
  have i: "de_i64 z (ser_i64 z x @ rest) = Some (x, rest)" if "i64_ok x" for x rest
    using assms(1) that by (simp add: zserde_lawful_def)
  have "de_gid z (ser_gid z (at_source_gid a)) = Some (at_source_gid a, [])"
    using assms by (metis append_Nil2 wf_attachment_def zserde_lawful_def)
  then show ?thesis using assms(2) by (simp add: from_zbytes_def to_zbytes_def i wf_attachment_def)
qed

lemma from_zbytes_gid_length: "zserde_lawful z \<Longrightarrow> from_zbytes z b = Ok a \<Longrightarrow> length (at_source_gid a) = 16"
proof -
  assume z: "zserde_lawful z" and "from_zbytes z b = Ok a"
  then obtain b' r where "de_gid z b' = Some (at_source_gid a, r)"
    by (auto simp: from_zbytes_def and_then_Ok)
  with z show ?thesis unfolding zserde_lawful_def by blast
qed

text \<open>The layout of the module comment: integers in eight little-endian bytes, arrays behind
  their length.\<close>

definition zenoh_ext :: zserde where
  "zenoh_ext =
     \<lparr>ser_i64 = (\<lambda>x. le_bytes 8 (nat (x mod 2 ^ 64))),
      ser_gid = (\<lambda>g. word_of_nat (length g) # g),
      de_i64 = (\<lambda>b. if length b < 8 then None
                    else Some (wrap_signed 64 (int (from_le_bytes (take 8 b))), drop 8 b)),
      de_gid = (\<lambda>b. if length b < 17 \<or> hd b \<noteq> 0x10 then None else Some (take 16 (tl b), drop 16 (tl b)))\<rparr>"

lemma zenoh_ext_i64:
  assumes "i64_ok x"
  shows "de_i64 zenoh_ext (ser_i64 zenoh_ext x @ rest) = Some (x, rest)"
proof -
  have "int (nat (x mod 2 ^ 64) mod 256 ^ 8) = x mod 2 ^ 64"
    by (simp add: zmod_int)
  then have "wrap_signed 64 (int (from_le_bytes (le_bytes 8 (nat (x mod 2 ^ 64))))) = wrap_signed 64 (x mod 2 ^ 64)"
    by (simp only: from_le_bytes_le_bytes)
  also have "\<dots> = wrap_signed 64 x" by (simp add: wrap_signed_def mod_simps)
  also have "\<dots> = x" using assms by simp
  finally show ?thesis by (simp add: zenoh_ext_def del: from_le_bytes_le_bytes)
qed

lemma zenoh_ext_lawful: "zserde_lawful zenoh_ext"
  unfolding zserde_lawful_def using zenoh_ext_i64 by (auto simp: zenoh_ext_def split: if_splits)

interpretation attachment: codec "to_zbytes zenoh_ext" "from_zbytes zenoh_ext" wf_attachment
  by unfold_locales (rule from_to_zbytes [OF zenoh_ext_lawful])

lemma attachment_length: "wf_attachment a \<Longrightarrow> length (to_zbytes zenoh_ext a) = 33"
  by (simp add: to_zbytes_def zenoh_ext_def wf_attachment_def)

subsection \<open>The clock\<close>

text \<open>\<open>now_nanos\<close>: the time since the epoch, \<open>None\<close> for a clock before it.\<close>

definition now_nanos :: "duration option \<Rightarrow> int" where
  "now_nanos since_epoch =
     (case since_epoch of Some d \<Rightarrow> wrap_signed 64 (int (duration_as_nanos d)) | None \<Rightarrow> 0)"

lemma now_nanos_ok [simp]: "i64_ok (now_nanos d)"
  by (cases d) (simp_all add: now_nanos_def in_signed_wrap, simp add: range_simps)

end
