(* ===== verification/Zenoh_Pubsub.thy ===== *)
theory Zenoh_Pubsub
  imports Zenoh_Wire
begin

text \<open>
  Publishers and subscriptions of the Zenoh backend (\<open>zenoh_backend/pubsub.rs\<close>). A publisher is its
  key, GID, token and sequence counter; \<open>zp_sent\<close> lists the samples the session took, which the
  parameter \<open>put_ok\<close> decides. A subscription receives samples from a channel: a non-blocking receive
  is a \<open>try_recv\<close> value, an await runs on the list of samples left, \<open>None\<close> in it being the closing
  of the channel.
\<close>

subsection \<open>Messages and errors\<close>

record message_info =
  mi_source_timestamp_nanos :: int
  mi_sequence_number :: int
  mi_source_gid :: "byte list"

definition message_info_default :: message_info where
  "message_info_default =
     \<lparr>mi_source_timestamp_nanos = 0, mi_sequence_number = 0, mi_source_gid = replicate 16 0\<rparr>"

datatype publish_error = PublishCdr cdr_error | PublishZenoh | PublishPanic

datatype take_error = TakeCdr cdr_error | TakeAttachment | TakeClosed

record zenoh_sample =
  sm_key :: string
  sm_payload :: "byte list"
  sm_attachment :: "byte list option"

datatype 'a try_recv = Received 'a | RecvEmpty | RecvClosed

subsection \<open>Publishers\<close>

record zenoh_publisher =
  zp_key :: string
  zp_gid :: "byte list"
  zp_token :: "string option"
  zp_seq :: int
  zp_sent :: "zenoh_sample list"

definition publisher_new :: "string \<Rightarrow> byte list \<Rightarrow> string option \<Rightarrow> zenoh_publisher" where
  "publisher_new key gid token = \<lparr>zp_key = key, zp_gid = gid, zp_token = token, zp_seq = 0, zp_sent = []\<rparr>"

lemma publisher_new_fields [simp]:
  "zp_key (publisher_new key gid token) = key" "zp_gid (publisher_new key gid token) = gid"
  "zp_token (publisher_new key gid token) = token" "zp_seq (publisher_new key gid token) = 0"
  "zp_sent (publisher_new key gid token) = []"
  by (simp_all add: publisher_new_def)

text \<open>The attachment of the next sample: \<open>fetch_add\<close> wraps, the addition after it is checked or
  wraps with the build, and \<open>None\<close> is its panic.\<close>

definition next_attachment ::
    "overflow_mode \<Rightarrow> zserde \<Rightarrow> duration option \<Rightarrow> zenoh_publisher \<Rightarrow> byte list option \<times> zenoh_publisher" where
  "next_attachment mode z now p =
     (map_option (\<lambda>seq. to_zbytes z \<lparr>at_sequence_number = seq, at_source_timestamp = now_nanos now, at_source_gid = zp_gid p\<rparr>)
        (signed_result mode 64 (zp_seq p + 1)),
      p\<lparr>zp_seq := wrap_signed 64 (zp_seq p + 1)\<rparr>)"

definition publisher_encode ::
    "overflow_mode \<Rightarrow> zserde \<Rightarrow> 'm cdr_encoding \<Rightarrow> duration option \<Rightarrow> 'm \<Rightarrow> zenoh_publisher \<Rightarrow>
      (publish_error + byte list \<times> byte list) \<times> zenoh_publisher" where
  "publisher_encode mode z cdr now msg p =
     (case to_cdr cdr msg of
        Inl e \<Rightarrow> (Err (PublishCdr e), p)
      | Inr payload \<Rightarrow>
          (case next_attachment mode z now p of
             (None, p') \<Rightarrow> (Err PublishPanic, p')
           | (Some attachment, p') \<Rightarrow> (Ok (payload, attachment), p')))"

definition put :: "(zenoh_sample \<Rightarrow> bool) \<Rightarrow> byte list \<Rightarrow> byte list \<Rightarrow> zenoh_publisher \<Rightarrow>
    (publish_error + unit) \<times> zenoh_publisher" where
  "put put_ok payload attachment p =
     (let s = \<lparr>sm_key = zp_key p, sm_payload = payload, sm_attachment = Some attachment\<rparr>
      in if put_ok s then (Ok (), p\<lparr>zp_sent := zp_sent p @ [s]\<rparr>) else (Err PublishZenoh, p))"

definition publish ::
    "overflow_mode \<Rightarrow> zserde \<Rightarrow> 'm cdr_encoding \<Rightarrow> (zenoh_sample \<Rightarrow> bool) \<Rightarrow> duration option \<Rightarrow> 'm \<Rightarrow> zenoh_publisher \<Rightarrow>
      (publish_error + unit) \<times> zenoh_publisher" where
  "publish mode z cdr put_ok now msg p =
     (case publisher_encode mode z cdr now msg p of
        (Inl e, p') \<Rightarrow> (Err e, p')
      | (Inr (payload, attachment), p') \<Rightarrow> put put_ok payload attachment p')"

definition async_publish ::
    "overflow_mode \<Rightarrow> zserde \<Rightarrow> 'm cdr_encoding \<Rightarrow> (zenoh_sample \<Rightarrow> bool) \<Rightarrow> duration option \<Rightarrow> 'm \<Rightarrow> zenoh_publisher \<Rightarrow>
      (publish_error + unit) \<times> zenoh_publisher" where
  "async_publish mode z cdr put_ok now msg p =
     (case publisher_encode mode z cdr now msg p of
        (Inl e, p') \<Rightarrow> (Err e, p')
      | (Inr (payload, attachment), p') \<Rightarrow> put put_ok payload attachment p')"

definition publish_raw ::
    "overflow_mode \<Rightarrow> zserde \<Rightarrow> (zenoh_sample \<Rightarrow> bool) \<Rightarrow> duration option \<Rightarrow> byte list \<Rightarrow> zenoh_publisher \<Rightarrow>
      (publish_error + unit) \<times> zenoh_publisher" where
  "publish_raw mode z put_ok now cdr_bytes p =
     (case next_attachment mode z now p of
        (None, p') \<Rightarrow> (Err PublishPanic, p')
      | (Some attachment, p') \<Rightarrow> put put_ok cdr_bytes attachment p')"

record raw_publisher =
  rp_inner :: zenoh_publisher

definition raw_publisher_publish ::
    "overflow_mode \<Rightarrow> zserde \<Rightarrow> (zenoh_sample \<Rightarrow> bool) \<Rightarrow> duration option \<Rightarrow> byte list \<Rightarrow> raw_publisher \<Rightarrow>
      (publish_error + unit) \<times> raw_publisher" where
  "raw_publisher_publish mode z put_ok now cdr_message rp =
     (case next_attachment mode z now (rp_inner rp) of
        (None, p') \<Rightarrow> (Err PublishPanic, rp\<lparr>rp_inner := p'\<rparr>)
      | (Some attachment, p') \<Rightarrow>
          map_prod id (\<lambda>p''. rp\<lparr>rp_inner := p''\<rparr>) (put put_ok cdr_message attachment p'))"

subsection \<open>Subscriptions\<close>

record zenoh_subscription =
  zs_key :: string
  zs_token :: "string option"

definition message_info_from :: "zserde \<Rightarrow> zenoh_sample \<Rightarrow> take_error + message_info" where
  "message_info_from z sample =
     (case sm_attachment sample of
        Some zbytes \<Rightarrow>
          (case from_zbytes z zbytes of
             Inl _ \<Rightarrow> Err TakeAttachment
           | Inr a \<Rightarrow> Ok \<lparr>mi_source_timestamp_nanos = at_source_timestamp a,
                          mi_sequence_number = at_sequence_number a, mi_source_gid = at_source_gid a\<rparr>)
      | None \<Rightarrow> Ok message_info_default)"

definition subscription_decode :: "zserde \<Rightarrow> 'm cdr_encoding \<Rightarrow> zenoh_sample \<Rightarrow> take_error + ('m \<times> message_info)" where
  "subscription_decode z cdr sample =
     (case from_cdr cdr (sm_payload sample) of
        Inl e \<Rightarrow> Err (TakeCdr e)
      | Inr msg \<Rightarrow> and_then (message_info_from z sample) (\<lambda>info. Ok (msg, info)))"

fun async_take :: "zserde \<Rightarrow> 'm cdr_encoding \<Rightarrow> zenoh_sample option list \<Rightarrow>
    (take_error + ('m \<times> message_info)) poll \<times> zenoh_sample option list" where
  "async_take z cdr [] = (Pending, [])"
| "async_take z cdr (None # rest) = (Ready (Err TakeClosed), None # rest)"
| "async_take z cdr (Some sample # rest) = (Ready (subscription_decode z cdr sample), rest)"

fun try_take :: "zserde \<Rightarrow> 'm cdr_encoding \<Rightarrow> zenoh_sample try_recv \<Rightarrow> take_error + ('m \<times> message_info) option" where
  "try_take z cdr (Received sample) = and_then (subscription_decode z cdr sample) (\<lambda>r. Ok (Some r))"
| "try_take z cdr RecvEmpty = Ok None"
| "try_take z cdr RecvClosed = Err TakeClosed"

fun take_raw_keyed :: "zserde \<Rightarrow> zenoh_sample option list \<Rightarrow>
    (take_error + (string \<times> byte list \<times> message_info)) poll \<times> zenoh_sample option list" where
  "take_raw_keyed z [] = (Pending, [])"
| "take_raw_keyed z (None # rest) = (Ready (Err TakeClosed), None # rest)"
| "take_raw_keyed z (Some sample # rest) =
     (Ready (and_then (message_info_from z sample) (\<lambda>info. Ok (sm_key sample, sm_payload sample, info))), rest)"

definition take_raw :: "zserde \<Rightarrow> zenoh_sample option list \<Rightarrow>
    (take_error + (byte list \<times> message_info)) poll \<times> zenoh_sample option list" where
  "take_raw z samples =
     map_prod (poll_map (\<lambda>r. and_then r (\<lambda>(key, bytes, info). Ok (bytes, info)))) id (take_raw_keyed z samples)"

subsection \<open>What a subscription sees of a publisher\<close>

text \<open>A history of calls of \<open>publish\<close>: the messages that were taken, each with the sequence number it
  was given, and the publisher after them.\<close>

fun publish_run ::
    "overflow_mode \<Rightarrow> zserde \<Rightarrow> 'm cdr_encoding \<Rightarrow> (zenoh_sample \<Rightarrow> bool) \<Rightarrow> (duration option \<times> 'm) list \<Rightarrow>
      zenoh_publisher \<Rightarrow> ('m \<times> message_info) list \<times> zenoh_publisher" where
  "publish_run mode z cdr put_ok [] p = ([], p)"
| "publish_run mode z cdr put_ok ((now, msg) # calls) p =
     (let (r, p1) = publish mode z cdr put_ok now msg p;
          (taken, p2) = publish_run mode z cdr put_ok calls p1;
          info = \<lparr>mi_source_timestamp_nanos = now_nanos now, mi_sequence_number = zp_seq p + 1, mi_source_gid = zp_gid p\<rparr>
      in (if r = Ok () then (msg, info) # taken else taken, p2))"

lemma publish_cases:
  assumes "0 \<le> zp_seq p" and "zp_seq p < 2 ^ 63 - 1"
  obtains (cdr) e where "publish mode z cdr put_ok now msg p = (Err e, p)"
  | (put) e where "publish mode z cdr put_ok now msg p = (Err e, p\<lparr>zp_seq := zp_seq p + 1\<rparr>)"
  | (sent) b where "to_cdr cdr msg = Ok b"
      "publish mode z cdr put_ok now msg p = (Ok (), p\<lparr>zp_seq := zp_seq p + 1, zp_sent := zp_sent p @
         [\<lparr>sm_key = zp_key p, sm_payload = b, sm_attachment = Some (to_zbytes z \<lparr>at_sequence_number = zp_seq p + 1,
            at_source_timestamp = now_nanos now, at_source_gid = zp_gid p\<rparr>)\<rparr>]\<rparr>)"
proof -
  have i: "i64_ok (zp_seq p + 1)" using assms by (simp add: range_simps)
  show ?thesis
  proof (cases "to_cdr cdr msg")
    case (Inl e)
    then show ?thesis using cdr by (simp add: publish_def publisher_encode_def)
  next
    case (Inr b)
    let ?s = "\<lparr>sm_key = zp_key p, sm_payload = b, sm_attachment = Some (to_zbytes z \<lparr>at_sequence_number = zp_seq p + 1,
            at_source_timestamp = now_nanos now, at_source_gid = zp_gid p\<rparr>)\<rparr>"
    have "publish mode z cdr put_ok now msg p = put put_ok b (the (sm_attachment ?s)) (p\<lparr>zp_seq := zp_seq p + 1\<rparr>)"
      using Inr i by (simp add: publish_def publisher_encode_def next_attachment_def)
    then show ?thesis using put sent [OF Inr] by (cases "put_ok ?s") (simp_all add: put_def Let_def)
  qed
qed

lemma sample_decoded:
  assumes "cdr_lawful cdr" and "zserde_lawful z" and "to_cdr cdr msg = Ok b" and "wf_attachment a"
  shows "subscription_decode z cdr \<lparr>sm_key = key, sm_payload = b, sm_attachment = Some (to_zbytes z a)\<rparr> =
    Ok (msg, \<lparr>mi_source_timestamp_nanos = at_source_timestamp a, mi_sequence_number = at_sequence_number a,
      mi_source_gid = at_source_gid a\<rparr>)"
  using assms by (simp add: subscription_decode_def message_info_from_def from_to_cdr from_to_zbytes)

lemma publish_run_decoded:
  assumes "cdr_lawful cdr" and "zserde_lawful z"
  shows "0 \<le> zp_seq p \<Longrightarrow> zp_seq p + int (length calls) < 2 ^ 63 \<Longrightarrow> length (zp_gid p) = 16 \<Longrightarrow>
    publish_run mode z cdr put_ok calls p = (taken, p') \<Longrightarrow>
    \<exists>new. zp_sent p' = zp_sent p @ new \<and> map (subscription_decode z cdr) new = map Ok taken"
proof (induction calls arbitrary: p taken)
  case (Cons c calls)
  obtain now msg where c: "c = (now, msg)" by (cases c)
  obtain r p1 where r: "publish mode z cdr put_ok now msg p = (r, p1)" by fastforce
  obtain tk where tk: "publish_run mode z cdr put_ok calls p1 = (tk, p')" and taken: "taken = (if r = Ok () then (msg, \<lparr>mi_source_timestamp_nanos = now_nanos now,
      mi_sequence_number = zp_seq p + 1, mi_source_gid = zp_gid p\<rparr>) # tk else tk)"
    using Cons.prems(4) by (auto simp: c r Let_def split: prod.splits)
  have bound: "zp_seq p < 2 ^ 63 - 1" using Cons.prems(2) by simp
  note IH = Cons.IH [OF _ _ _ tk]
  show ?case
    using Cons.prems(1) bound
  proof (cases rule: publish_cases [of p mode z cdr put_ok now msg])
    case (cdr e)
    then show ?thesis using IH Cons.prems r taken by auto
  next
    case (put e)
    then show ?thesis using IH Cons.prems r taken by auto
  next
    case (sent b)
    have "wf_attachment \<lparr>at_sequence_number = zp_seq p + 1, at_source_timestamp = now_nanos now, at_source_gid = zp_gid p\<rparr>"
      using Cons.prems(1,3) bound by (simp add: wf_attachment_def) (simp add: range_simps)
    note d = sample_decoded [OF assms sent(1) this, of "zp_key p"]
    have "zp_sent p1 = zp_sent p @ [\<lparr>sm_key = zp_key p, sm_payload = b, sm_attachment = Some (to_zbytes z
        \<lparr>at_sequence_number = zp_seq p + 1, at_source_timestamp = now_nanos now, at_source_gid = zp_gid p\<rparr>)\<rparr>]"
      "zp_seq p1 = zp_seq p + 1" "zp_gid p1 = zp_gid p" "r = Ok ()" using sent(2) r by auto
    then show ?thesis using IH Cons.prems taken d by auto
  qed
qed simp

lemma publish_run_increasing:
  "0 \<le> zp_seq p \<Longrightarrow> zp_seq p + int (length calls) < 2 ^ 63 \<Longrightarrow>
   publish_run mode z cdr put_ok calls p = (taken, p') \<Longrightarrow>
   sorted_wrt (<) (map (\<lambda>(_, info). mi_sequence_number info) taken)
   \<and> (\<forall>(_, info)\<in>set taken. zp_seq p < mi_sequence_number info \<and> mi_source_gid info = zp_gid p)"
proof (induction calls arbitrary: p taken)
  case (Cons c calls)
  obtain now msg where c: "c = (now, msg)" by (cases c)
  obtain r p1 where r: "publish mode z cdr put_ok now msg p = (r, p1)" by fastforce
  obtain tk where tk: "publish_run mode z cdr put_ok calls p1 = (tk, p')" and taken: "taken = (if r = Ok () then (msg, \<lparr>mi_source_timestamp_nanos = now_nanos now,
      mi_sequence_number = zp_seq p + 1, mi_source_gid = zp_gid p\<rparr>) # tk else tk)"
    using Cons.prems(3) by (auto simp: c r Let_def split: prod.splits)
  have bound: "zp_seq p < 2 ^ 63 - 1" using Cons.prems(2) by simp
  note IH = Cons.IH [OF _ _ tk]
  show ?case
    using Cons.prems(1) bound
  proof (cases rule: publish_cases [of p mode z cdr put_ok now msg])
    case (cdr e)
    then show ?thesis using IH Cons.prems r taken by auto
  next
    case (put e)
    then show ?thesis using IH Cons.prems r taken by fastforce
  next
    case (sent b)
    then have "zp_seq p1 = zp_seq p + 1" "zp_gid p1 = zp_gid p" "r = Ok ()" using r by auto
    then show ?thesis using IH Cons.prems taken by fastforce
  qed
qed simp

lemma publish_raw_equiv:
  "to_cdr cdr msg = Ok b \<Longrightarrow> publish mode z cdr put_ok now msg p = publish_raw mode z put_ok now b p"
  by (simp add: publish_def publisher_encode_def publish_raw_def split: prod.splits option.splits)

subsection \<open>Properties\<close>

text \<open>C10. A subscription reads what was published: whatever messages fail to serialize and whatever
  samples the session refuses, the samples it took decode, in order, to exactly the messages whose
  \<open>publish\<close> succeeded, with the publisher's GID and time and with strictly increasing sequence
  numbers.\<close>

theorem messages_delivered_in_order:
  assumes "cdr_lawful cdr" and "zserde_lawful z" and "length gid = 16" and "length calls < 2 ^ 63"
    and "publish_run mode z cdr put_ok calls (publisher_new key gid token) = (taken, p)"
  shows "map (subscription_decode z cdr) (zp_sent p) = map Ok taken
    \<and> sorted_wrt (<) (map (\<lambda>(_, info). mi_sequence_number info) taken)
    \<and> (\<forall>(_, info)\<in>set taken. mi_source_gid info = gid)"
proof -
  have b: "0 \<le> zp_seq (publisher_new key gid token)" "zp_seq (publisher_new key gid token) + int (length calls) < 2 ^ 63"
    "length (zp_gid (publisher_new key gid token)) = 16" "zp_sent (publisher_new key gid token) = []"
    "zp_gid (publisher_new key gid token) = gid"
    using assms(3,4) by (simp_all add: publisher_new_def)
  show ?thesis
    using publish_run_decoded [OF assms(1,2) b(1-3) assms(5)] publish_run_increasing [OF b(1,2) assms(5)] b(4,5)
    by auto
qed

text \<open>A message type that is its own encoding, of which the empty message cannot be serialized.\<close>

definition bytes_codec :: "byte list cdr_encoding" where
  "bytes_codec = \<lparr>to_vec_le = (\<lambda>m. if m = [] then None else Some m), from_bytes_le = (\<lambda>b. Some (b, length b)),
     from_bytes_be = (\<lambda>b. Some (b, length b))\<rparr>"

lemma bytes_codec_lawful: "cdr_lawful bytes_codec"
  by (auto simp: cdr_lawful_def bytes_codec_def split: if_splits)

theorem messages_delivered_in_order_witness:
  "\<exists>taken p. publish_run Checked zenoh_ext bytes_codec (\<lambda>_. True)
       [(None, [7]), (None, []), (None, [8, 9])] (publisher_new ''k'' (replicate 16 1) None) = (taken, p)
     \<and> map fst taken = [[7], [8, 9]] \<and> map (subscription_decode zenoh_ext bytes_codec) (zp_sent p) = map Ok taken"
proof -
  let ?calls = "[(None, [7]), (None, []), (None, [8, 9])]" and ?p = "publisher_new ''k'' (replicate 16 1) None"
  obtain taken p where r: "publish_run Checked zenoh_ext bytes_codec (\<lambda>_. True) ?calls ?p = (taken, p)" by fastforce
  then have "map fst taken = [[7], [8, 9]]"
    by (auto simp: publish_def publisher_encode_def to_cdr_def bytes_codec_def next_attachment_def put_def
        publisher_new_def signed_result_def in_signed_def wrap_signed_def)
  with r show ?thesis
    using messages_delivered_in_order [OF bytes_codec_lawful zenoh_ext_lawful _ _ r] by auto
qed

end
