(* ===== verification/Zenoh_Service.thy ===== *)
theory Zenoh_Service
  imports Zenoh_Pubsub Rust_Maps
begin

text \<open>
  Service clients and servers of the Zenoh backend (\<open>zenoh_backend/service.rs\<close>), typed and raw. A
  query is Zenoh's object for an incoming \<open>get\<close>: \<open>zq_ident\<close> tells two queries apart and is where a
  reply goes. A server keeps the queries it has accepted and not yet answered in a hash map;
  \<open>zv_replies\<close> lists the replies the session took, which \<open>reply_ok\<close> decides. A client's \<open>get\<close> is a
  parameter that returns the replies received until its channel closes, or fails.
\<close>

subsection \<open>Requests and errors\<close>

record zenoh_request_id =
  rq_writer_gid :: "byte list"
  rq_sequence_number :: int

datatype service_error = SvcCdr cdr_error | SvcZenoh | Malformed | NoReply | UnknownRequest | SvcPanic

definition gid_key :: "byte list \<Rightarrow> 128 word" where
  "gid_key gid = word_of_nat (from_le_bytes gid)"

definition request_key :: "zenoh_request_id \<Rightarrow> 128 word \<times> int" where
  "request_key i = (gid_key (rq_writer_gid i), rq_sequence_number i)"

lemma gid_key_inj:
  assumes "length a = 16" and "length b = 16" and "gid_key a = gid_key b"
  shows "a = b"
proof -
  have small: "from_le_bytes c < 2 ^ 128" if "length c = 16" for c
    using from_le_bytes_bound [of c] that by simp
  have "unat (word_of_nat (from_le_bytes a) :: 128 word) = unat (word_of_nat (from_le_bytes b) :: 128 word)"
    using assms(3) by (simp add: gid_key_def)
  then have "from_le_bytes a = from_le_bytes b"
    using small [OF assms(1)] small [OF assms(2)] by (simp add: unat_of_nat)
  then show ?thesis using from_le_bytes_inj assms by simp
qed

lemma request_key_inj:
  "length (rq_writer_gid i) = 16 \<Longrightarrow> length (rq_writer_gid j) = 16 \<Longrightarrow> request_key i = request_key j \<longleftrightarrow> i = j"
  using gid_key_inj by (auto simp: request_key_def)

subsection \<open>The client\<close>

record zenoh_client =
  zc_selector :: string
  zc_gid :: "byte list"
  zc_token :: "string option"
  zc_timeout :: "duration option"
  zc_seq :: int

definition client_new_with_timeout :: "string \<Rightarrow> byte list \<Rightarrow> string option \<Rightarrow> duration option \<Rightarrow> zenoh_client" where
  "client_new_with_timeout selector gid token timeout =
     \<lparr>zc_selector = selector, zc_gid = gid, zc_token = token, zc_timeout = timeout, zc_seq = 0\<rparr>"

definition client_new :: "string \<Rightarrow> byte list \<Rightarrow> string option \<Rightarrow> zenoh_client" where
  "client_new selector gid token = client_new_with_timeout selector gid token None"

lemma client_new_fields [simp]:
  "zc_selector (client_new_with_timeout sel gid token timeout) = sel"
  "zc_gid (client_new_with_timeout sel gid token timeout) = gid"
  "zc_token (client_new_with_timeout sel gid token timeout) = token"
  "zc_timeout (client_new_with_timeout sel gid token timeout) = timeout"
  "zc_seq (client_new_with_timeout sel gid token timeout) = 0"
  by (simp_all add: client_new_with_timeout_def)

definition request_bytes ::
    "overflow_mode \<Rightarrow> zserde \<Rightarrow> 'q cdr_encoding \<Rightarrow> duration option \<Rightarrow> 'q \<Rightarrow> zenoh_client \<Rightarrow>
      (service_error + byte list \<times> byte list) \<times> zenoh_client" where
  "request_bytes mode z cdr now req c =
     (case to_cdr cdr req of
        Inl e \<Rightarrow> (Err (SvcCdr e), c)
      | Inr payload \<Rightarrow>
          (let c' = c\<lparr>zc_seq := wrap_signed 64 (zc_seq c + 1)\<rparr>
           in case signed_result mode 64 (zc_seq c + 1) of
                None \<Rightarrow> (Err SvcPanic, c')
              | Some seq \<Rightarrow>
                  (Ok (payload, to_zbytes z \<lparr>at_sequence_number = seq, at_source_timestamp = now_nanos now,
                     at_source_gid = zc_gid c\<rparr>), c')))"

datatype zenoh_reply = ReplyOk zenoh_sample | ReplyErr

fun decode_reply :: "'r cdr_encoding \<Rightarrow> zenoh_reply \<Rightarrow> (service_error + 'r) option" where
  "decode_reply cdr (ReplyOk sample) =
     Some (case from_cdr cdr (sm_payload sample) of Inl e \<Rightarrow> Err (SvcCdr e) | Inr r \<Rightarrow> Ok r)"
| "decode_reply cdr ReplyErr = None"

fun first_reply :: "'r cdr_encoding \<Rightarrow> zenoh_reply list \<Rightarrow> service_error + 'r" where
  "first_reply cdr [] = Err NoReply"
| "first_reply cdr (reply # replies) =
     (case decode_reply cdr reply of Some res \<Rightarrow> res | None \<Rightarrow> first_reply cdr replies)"

record zenoh_get =
  zg_selector :: string
  zg_payload :: "byte list"
  zg_attachment :: "byte list"
  zg_timeout :: "duration option"

definition client_call ::
    "overflow_mode \<Rightarrow> zserde \<Rightarrow> 'q cdr_encoding \<Rightarrow> 'r cdr_encoding \<Rightarrow> (zenoh_get \<Rightarrow> zenoh_reply list option) \<Rightarrow>
      duration option \<Rightarrow> 'q \<Rightarrow> zenoh_client \<Rightarrow> (service_error + 'r) \<times> zenoh_client" where
  "client_call mode z qcdr rcdr get now req c =
     (case request_bytes mode z qcdr now req c of
        (Inl e, c') \<Rightarrow> (Err e, c')
      | (Inr (payload, attachment), c') \<Rightarrow>
          (case get \<lparr>zg_selector = zc_selector c', zg_payload = payload, zg_attachment = attachment,
                     zg_timeout = zc_timeout c'\<rparr> of
             None \<Rightarrow> (Err SvcZenoh, c')
           | Some replies \<Rightarrow> (first_reply rcdr replies, c')))"

definition async_call ::
    "overflow_mode \<Rightarrow> zserde \<Rightarrow> 'q cdr_encoding \<Rightarrow> 'r cdr_encoding \<Rightarrow> (zenoh_get \<Rightarrow> zenoh_reply list option) \<Rightarrow>
      duration option \<Rightarrow> 'q \<Rightarrow> zenoh_client \<Rightarrow> (service_error + 'r) \<times> zenoh_client" where
  "async_call mode z qcdr rcdr get now req c =
     (case request_bytes mode z qcdr now req c of
        (Inl e, c') \<Rightarrow> (Err e, c')
      | (Inr (payload, attachment), c') \<Rightarrow>
          (case get \<lparr>zg_selector = zc_selector c', zg_payload = payload, zg_attachment = attachment,
                     zg_timeout = zc_timeout c'\<rparr> of
             None \<Rightarrow> (Err SvcZenoh, c')
           | Some replies \<Rightarrow> (first_reply rcdr replies, c')))"

subsection \<open>The servers\<close>

record zenoh_query =
  zq_ident :: nat
  zq_key :: string
  zq_payload :: "byte list option"
  zq_attachment :: "byte list option"

record zenoh_server =
  zv_key :: string
  zv_token :: "string option"
  zv_pending :: "((128 word \<times> int) \<times> zenoh_query) list"
  zv_replies :: "(zenoh_query \<times> zenoh_sample) list"

definition server_new :: "string \<Rightarrow> string option \<Rightarrow> zenoh_server" where
  "server_new key token = \<lparr>zv_key = key, zv_token = token, zv_pending = [], zv_replies = []\<rparr>"

lemma server_new_fields [simp]:
  "zv_key (server_new key token) = key" "zv_token (server_new key token) = token"
  "zv_pending (server_new key token) = []" "zv_replies (server_new key token) = []"
  by (simp_all add: server_new_def)

definition store_pending :: "zenoh_request_id \<Rightarrow> zenoh_query \<Rightarrow> zenoh_server \<Rightarrow> zenoh_server" where
  "store_pending i query s = s\<lparr>zv_pending := hm_insert (request_key i) query (zv_pending s)\<rparr>"

definition server_accept :: "zserde \<Rightarrow> 'q cdr_encoding \<Rightarrow> zenoh_query \<Rightarrow> zenoh_server \<Rightarrow>
    (service_error + (zenoh_request_id \<times> 'q)) \<times> zenoh_server" where
  "server_accept z cdr query s =
     (case zq_payload query of
        None \<Rightarrow> (Err Malformed, s)
      | Some payload \<Rightarrow>
          (case from_cdr cdr payload of
             Inl e \<Rightarrow> (Err (SvcCdr e), s)
           | Inr req \<Rightarrow>
               (case zq_attachment query of
                  None \<Rightarrow> (Err Malformed, s)
                | Some attachment \<Rightarrow>
                    (case from_zbytes z attachment of
                       Inl _ \<Rightarrow> (Err Malformed, s)
                     | Inr a \<Rightarrow>
                         (let i = \<lparr>rq_writer_gid = at_source_gid a, rq_sequence_number = at_sequence_number a\<rparr>
                          in (Ok (i, req), store_pending i query s))))))"

definition raw_accept :: "zserde \<Rightarrow> zenoh_query \<Rightarrow> zenoh_server \<Rightarrow>
    (service_error + (zenoh_request_id \<times> byte list)) \<times> zenoh_server" where
  "raw_accept z query s =
     (case zq_payload query of
        None \<Rightarrow> (Err Malformed, s)
      | Some bytes \<Rightarrow>
          (case zq_attachment query of
             None \<Rightarrow> (Err Malformed, s)
           | Some attachment \<Rightarrow>
               (case from_zbytes z attachment of
                  Inl _ \<Rightarrow> (Err Malformed, s)
                | Inr a \<Rightarrow>
                    (let i = \<lparr>rq_writer_gid = at_source_gid a, rq_sequence_number = at_sequence_number a\<rparr>
                     in (Ok (i, bytes), store_pending i query s)))))"

text \<open>Receiving with either \<open>accept\<close>. A closed channel is no request for the non-blocking call and an
  error for the awaiting one.\<close>

fun try_receive_request ::
    "(zenoh_query \<Rightarrow> zenoh_server \<Rightarrow> (service_error + (zenoh_request_id \<times> 'q)) \<times> zenoh_server) \<Rightarrow>
      zenoh_query try_recv \<Rightarrow> zenoh_server \<Rightarrow> (service_error + (zenoh_request_id \<times> 'q) option) \<times> zenoh_server" where
  "try_receive_request accept (Received query) s =
     (case accept query s of (r, s') \<Rightarrow> (and_then r (\<lambda>x. Ok (Some x)), s'))"
| "try_receive_request accept RecvEmpty s = (Ok None, s)"
| "try_receive_request accept RecvClosed s = (Ok None, s)"

fun async_receive_request ::
    "(zenoh_query \<Rightarrow> zenoh_server \<Rightarrow> (service_error + (zenoh_request_id \<times> 'q)) \<times> zenoh_server) \<Rightarrow>
      zenoh_query option list \<Rightarrow> zenoh_server \<Rightarrow>
      (service_error + (zenoh_request_id \<times> 'q)) poll \<times> zenoh_server \<times> zenoh_query option list" where
  "async_receive_request accept [] s = (Pending, s, [])"
| "async_receive_request accept (None # rest) s = (Ready (Err NoReply), s, None # rest)"
| "async_receive_request accept (Some query # rest) s = (case accept query s of (r, s') \<Rightarrow> (Ready r, s', rest))"

text \<open>The reply to a query: the payload under the query's key, with an attachment that echoes the
  request id.\<close>

definition reply_query :: "zserde \<Rightarrow> (zenoh_sample \<Rightarrow> bool) \<Rightarrow> duration option \<Rightarrow> zenoh_request_id \<Rightarrow> zenoh_query \<Rightarrow>
    byte list \<Rightarrow> zenoh_server \<Rightarrow> (service_error + unit) \<times> zenoh_server" where
  "reply_query z reply_ok now i query payload s =
     (let sample = \<lparr>sm_key = zq_key query, sm_payload = payload, sm_attachment = Some (to_zbytes z
            \<lparr>at_sequence_number = rq_sequence_number i, at_source_timestamp = now_nanos now, at_source_gid = rq_writer_gid i\<rparr>)\<rparr>
      in if reply_ok sample then (Ok (), s\<lparr>zv_replies := zv_replies s @ [(query, sample)]\<rparr>) else (Err SvcZenoh, s))"

definition server_send_response :: "zserde \<Rightarrow> 'r cdr_encoding \<Rightarrow> (zenoh_sample \<Rightarrow> bool) \<Rightarrow> duration option \<Rightarrow>
    zenoh_request_id \<Rightarrow> 'r \<Rightarrow> zenoh_server \<Rightarrow> (service_error + unit) \<times> zenoh_server" where
  "server_send_response z cdr reply_ok now i resp s =
     (case map_of (zv_pending s) (request_key i) of
        None \<Rightarrow> (Err UnknownRequest, s)
      | Some query \<Rightarrow>
          (let s' = s\<lparr>zv_pending := hm_remove (request_key i) (zv_pending s)\<rparr>
           in case to_cdr cdr resp of
                Inl e \<Rightarrow> (Err (SvcCdr e), s')
              | Inr payload \<Rightarrow> reply_query z reply_ok now i query payload s'))"

definition raw_send_response :: "zserde \<Rightarrow> (zenoh_sample \<Rightarrow> bool) \<Rightarrow> duration option \<Rightarrow>
    zenoh_request_id \<Rightarrow> byte list \<Rightarrow> zenoh_server \<Rightarrow> (service_error + unit) \<times> zenoh_server" where
  "raw_send_response z reply_ok now i response s =
     (case map_of (zv_pending s) (request_key i) of
        None \<Rightarrow> (Err UnknownRequest, s)
      | Some query \<Rightarrow>
          (let s' = s\<lparr>zv_pending := hm_remove (request_key i) (zv_pending s)\<rparr>
           in reply_query z reply_ok now i query response s'))"

subsection \<open>Histories of a server\<close>

text \<open>The request id a query carries, and the one a reply echoes.\<close>

definition attached_id :: "zserde \<Rightarrow> byte list option \<Rightarrow> zenoh_request_id option" where
  "attached_id z att =
     (case att of
        None \<Rightarrow> None
      | Some b \<Rightarrow>
          (case from_zbytes z b of
             Inl _ \<Rightarrow> None
           | Inr a \<Rightarrow> Some \<lparr>rq_writer_gid = at_source_gid a, rq_sequence_number = at_sequence_number a\<rparr>))"

text \<open>A request id as the type of the code has it.\<close>

definition wf_request_id :: "zenoh_request_id \<Rightarrow> bool" where
  "wf_request_id i \<longleftrightarrow> length (rq_writer_gid i) = 16 \<and> i64_ok (rq_sequence_number i)"

datatype 'p service_op = Receive zenoh_query | Respond zenoh_request_id 'p

fun service_run :: "(zenoh_query \<Rightarrow> zenoh_server \<Rightarrow> (service_error + (zenoh_request_id \<times> 'q)) \<times> zenoh_server) \<Rightarrow>
    (zenoh_request_id \<Rightarrow> 'p \<Rightarrow> zenoh_server \<Rightarrow> (service_error + unit) \<times> zenoh_server) \<Rightarrow>
    'p service_op list \<Rightarrow> zenoh_server \<Rightarrow> zenoh_server" where
  "service_run accept respond [] s = s"
| "service_run accept respond (Receive q # ops) s = service_run accept respond ops (snd (accept q s))"
| "service_run accept respond (Respond i p # ops) s = service_run accept respond ops (snd (respond i p s))"

fun received :: "'p service_op list \<Rightarrow> nat list" where
  "received [] = []"
| "received (Receive q # ops) = zq_ident q # received ops"
| "received (Respond i p # ops) = received ops"

fun wf_op :: "'p service_op \<Rightarrow> bool" where
  "wf_op (Receive q) \<longleftrightarrow> True"
| "wf_op (Respond i p) \<longleftrightarrow> wf_request_id i"

definition pending_ids :: "zenoh_server \<Rightarrow> nat list" where
  "pending_ids s = map (\<lambda>(_, q). zq_ident q) (zv_pending s)"

definition answered_ids :: "zenoh_server \<Rightarrow> nat list" where
  "answered_ids s = map (\<lambda>(q, _). zq_ident q) (zv_replies s)"

text \<open>Every pending query is stored under the id it carries, every reply echoes the id of the query
  it answers, and no query is both pending and answered, or answered twice.\<close>

definition pending_ok :: "zserde \<Rightarrow> (128 word \<times> int) \<times> zenoh_query \<Rightarrow> bool" where
  "pending_ok z e \<longleftrightarrow> (\<exists>i. attached_id z (zq_attachment (snd e)) = Some i \<and> request_key i = fst e)"

definition reply_echoes :: "zserde \<Rightarrow> zenoh_query \<times> zenoh_sample \<Rightarrow> bool" where
  "reply_echoes z e \<longleftrightarrow> (\<exists>i j. attached_id z (zq_attachment (fst e)) = Some i
     \<and> attached_id z (sm_attachment (snd e)) = Some j \<and> request_key i = request_key j)"

definition service_inv :: "zserde \<Rightarrow> zenoh_server \<Rightarrow> bool" where
  "service_inv z s \<longleftrightarrow> hm_inv (zv_pending s) \<and> distinct (answered_ids s @ pending_ids s)
     \<and> list_all (pending_ok z) (zv_pending s) \<and> list_all (reply_echoes z) (zv_replies s)"

lemma set_hm_insert: "set (hm_insert k v m) \<subseteq> Set.insert (k, v) (set m)"
  by (induction m) auto

lemma distinct_hm_insert:
  assumes "distinct (map f m)" and "f (k, v) \<notin> f ` set m"
  shows "distinct (map f (hm_insert k v m))"
  using assms
proof (induction m)
  case (Cons e m)
  then show ?case using set_hm_insert [of k v m] by (cases e) fastforce
qed simp

lemma hm_remove_subset: "set (hm_remove k m) \<subseteq> set m"
  by (auto simp: AList.delete_eq)

lemma distinct_hm_remove:
  assumes "distinct (map f m)" and "(k, v) \<in> set m"
  shows "distinct (map f (hm_remove k m)) \<and> f (k, v) \<notin> f ` set (hm_remove k m)"
proof -
  have "f (k, v) \<noteq> f e" if "e \<in> set m" "fst e \<noteq> k" for e
    using that assms distinct_map inj_onD [of f "set m"] by (metis fst_conv)
  then show ?thesis using assms(1) distinct_map_filter by (force simp: AList.delete_eq)
qed

text \<open>What a server promises for its two operations, whatever the types of requests and
  responses.\<close>

locale pending_server =
  fixes z :: zserde
    and accept :: "zenoh_query \<Rightarrow> zenoh_server \<Rightarrow> (service_error + (zenoh_request_id \<times> 'q)) \<times> zenoh_server"
    and respond :: "zenoh_request_id \<Rightarrow> 'p \<Rightarrow> zenoh_server \<Rightarrow> (service_error + unit) \<times> zenoh_server"
  assumes accept_cases: "accept q s = (r, s') \<Longrightarrow> (\<exists>e. r = Err e) \<and> s' = s
      \<or> (\<exists>i x. r = Ok (i, x) \<and> attached_id z (zq_attachment q) = Some i \<and> s' = store_pending i q s)"
    and respond_cases: "wf_request_id i \<Longrightarrow> respond i p s = (r', s') \<Longrightarrow>
      map_of (zv_pending s) (request_key i) = None \<and> r' = Err UnknownRequest \<and> s' = s
      \<or> (\<exists>q. map_of (zv_pending s) (request_key i) = Some q \<and>
          ((\<exists>e. r' = Err e) \<and> s' = s\<lparr>zv_pending := hm_remove (request_key i) (zv_pending s)\<rparr>
           \<or> (\<exists>smp j. r' = Ok () \<and> attached_id z (sm_attachment smp) = Some j \<and> request_key j = request_key i
               \<and> s' = s\<lparr>zv_pending := hm_remove (request_key i) (zv_pending s), zv_replies := zv_replies s @ [(q, smp)]\<rparr>)))"
begin

lemma accept_inv:
  assumes inv: "service_inv z s" and new: "zq_ident q \<notin> set (answered_ids s @ pending_ids s)" and a: "accept q s = (r, s')"
  shows "service_inv z s' \<and> set (answered_ids s' @ pending_ids s') \<subseteq> Set.insert (zq_ident q) (set (answered_ids s @ pending_ids s))"
  using accept_cases [OF a]
proof (elim disjE conjE exE)
  fix i x assume i: "attached_id z (zq_attachment q) = Some i" and s': "s' = store_pending i q s"
  have p: "zv_pending s' = hm_insert (request_key i) q (zv_pending s)" and same: "zv_replies s' = zv_replies s"
    "answered_ids s' = answered_ids s"
    by (simp_all add: s' store_pending_def answered_ids_def)
  have sub: "set (zv_pending s') \<subseteq> Set.insert (request_key i, q) (set (zv_pending s))"
    unfolding p by (rule set_hm_insert)
  then have ids: "set (pending_ids s') \<subseteq> Set.insert (zq_ident q) (set (pending_ids s))"
    by (force simp: pending_ids_def)
  have "distinct (pending_ids s')"
    unfolding pending_ids_def p
  proof (rule distinct_hm_insert)
    show "distinct (map (\<lambda>(_, q). zq_ident q) (zv_pending s))" using inv by (simp add: service_inv_def pending_ids_def)
    show "(case (request_key i, q) of (_, q) \<Rightarrow> zq_ident q) \<notin> (\<lambda>(_, q). zq_ident q) ` set (zv_pending s)"
      using new by (simp add: pending_ids_def)
  qed
  moreover have "list_all (pending_ok z) (zv_pending s')"
    using sub inv i by (auto simp: service_inv_def list_all_iff pending_ok_def)
  moreover have "hm_inv (zv_pending s')"
    using inv by (simp add: p service_inv_def hash_map.inv_insert)
  ultimately show ?thesis
    using inv new ids unfolding service_inv_def by (auto simp: same)
qed (use inv in auto)

lemma respond_inv:
  assumes inv: "service_inv z s" and i: "wf_request_id i" and a: "respond i p s = (r, s')"
  shows "service_inv z s' \<and> set (answered_ids s' @ pending_ids s') \<subseteq> set (answered_ids s @ pending_ids s)"
  using respond_cases [OF i a]
proof (elim disjE conjE exE)
  fix q assume q: "map_of (zv_pending s) (request_key i) = Some q"
  let ?m = "hm_remove (request_key i) (zv_pending s)" and ?f = "\<lambda>(_ :: 128 word \<times> int, q). zq_ident q"
  have mem: "(request_key i, q) \<in> set (zv_pending s)" using q by (rule map_of_SomeD)
  have d: "distinct (map ?f ?m)" "zq_ident q \<notin> ?f ` set ?m"
    using distinct_hm_remove [OF _ mem, of ?f] inv by (simp_all add: service_inv_def pending_ids_def)
  have sub: "set ?m \<subseteq> set (zv_pending s)" by (rule hm_remove_subset)
  then have img: "?f ` set ?m \<subseteq> set (pending_ids s)" by (auto simp: pending_ids_def)
  have qid: "zq_ident q \<in> set (pending_ids s)" using mem by (force simp: pending_ids_def)
  have ok: "list_all (pending_ok z) ?m" "hm_inv ?m"
    using sub inv by (auto simp: service_inv_def list_all_iff hash_map.inv_remove)
  have k: "pending_ok z (request_key i, q)" using mem inv by (auto simp: service_inv_def list_all_iff)
  { assume s': "s' = s\<lparr>zv_pending := ?m\<rparr>"
    have ids: "answered_ids s' = answered_ids s" "pending_ids s' = map ?f ?m"
      by (simp_all add: s' answered_ids_def pending_ids_def)
    show ?thesis using inv d(1) ok img unfolding service_inv_def ids by (auto simp: s') }
  { fix smp j assume j: "attached_id z (sm_attachment smp) = Some j" "request_key j = request_key i"
      and s': "s' = s\<lparr>zv_pending := ?m, zv_replies := zv_replies s @ [(q, smp)]\<rparr>"
    have "reply_echoes z (q, smp)" using k j by (auto simp: reply_echoes_def pending_ok_def)
    moreover have "zq_ident q \<notin> set (answered_ids s)" using inv qid by (auto simp: service_inv_def)
    moreover have ids: "answered_ids s' = answered_ids s @ [zq_ident q]" "pending_ids s' = map ?f ?m"
      by (simp_all add: s' answered_ids_def pending_ids_def)
    ultimately show ?thesis
      using inv d ok img qid unfolding service_inv_def ids by (auto simp: s') }
qed (use inv in auto)

lemma run_inv:
  "service_inv z s \<Longrightarrow> distinct (received ops) \<Longrightarrow> set (received ops) \<inter> set (answered_ids s @ pending_ids s) = {} \<Longrightarrow>
   (\<forall>op\<in>set ops. wf_op op) \<Longrightarrow> service_inv z (service_run accept respond ops s)"
proof (induction ops arbitrary: s)
  case (Cons op ops)
  show ?case
  proof (cases op)
    case (Receive q)
    obtain r s' where a: "accept q s = (r, s')" by fastforce
    have "zq_ident q \<notin> set (answered_ids s @ pending_ids s)" using Cons.prems(3) Receive by auto
    note acc = accept_inv [OF Cons.prems(1) this a]
    then have "service_inv z (service_run accept respond ops s')"
      using Cons.prems(2-4) Receive by (intro Cons.IH) auto
    then show ?thesis by (simp add: Receive a)
  next
    case (Respond i p)
    obtain r s' where a: "respond i p s = (r, s')" by fastforce
    have "wf_request_id i" using Cons.prems(4) Respond by simp
    note rsp = respond_inv [OF Cons.prems(1) this a]
    then have "service_inv z (service_run accept respond ops s')"
      using Cons.prems(2-4) Respond by (intro Cons.IH) auto
    then show ?thesis by (simp add: Respond a)
  qed
qed simp

lemma second_response_unknown:
  assumes "wf_request_id i" and "respond i p s = (r, s')"
  shows "respond i p' s' = (Err UnknownRequest, s')"
proof -
  have "map_of (zv_pending s') (request_key i) = None"
    using respond_cases [OF assms] by (elim disjE conjE exE) (simp_all add: AList.delete_conv')
  then show ?thesis using respond_cases [OF assms(1), of p' s'] by (cases "respond i p' s'") fastforce
qed

end

lemma attached_id_to_zbytes:
  "zserde_lawful z \<Longrightarrow> wf_attachment a \<Longrightarrow>
   attached_id z (Some (to_zbytes z a)) = Some \<lparr>rq_writer_gid = at_source_gid a, rq_sequence_number = at_sequence_number a\<rparr>"
  by (simp add: attached_id_def from_to_zbytes)

lemma accept_attached:
  "server_accept z cdr q s = (r, s') \<Longrightarrow> (\<exists>e. r = Err e) \<and> s' = s
     \<or> (\<exists>i x. r = Ok (i, x) \<and> attached_id z (zq_attachment q) = Some i \<and> s' = store_pending i q s)"
  "raw_accept z q s = (r2, s') \<Longrightarrow> (\<exists>e. r2 = Err e) \<and> s' = s
     \<or> (\<exists>i x. r2 = Ok (i, x) \<and> attached_id z (zq_attachment q) = Some i \<and> s' = store_pending i q s)"
  by (auto simp: server_accept_def raw_accept_def attached_id_def Let_def split: option.splits sum.splits)

lemma reply_query_cases:
  assumes "zserde_lawful z" and "wf_request_id i" and "reply_query z reply_ok now i q payload s = (r, s')"
  obtains (refused) e where "r = Err e" "s' = s"
  | (replied) smp where "r = Ok ()" "attached_id z (sm_attachment smp) = Some i"
      "s' = s\<lparr>zv_replies := zv_replies s @ [(q, smp)]\<rparr>"
proof -
  let ?a = "\<lparr>at_sequence_number = rq_sequence_number i, at_source_timestamp = now_nanos now, at_source_gid = rq_writer_gid i\<rparr>"
  let ?smp = "\<lparr>sm_key = zq_key q, sm_payload = payload, sm_attachment = Some (to_zbytes z ?a)\<rparr>"
  have "wf_attachment ?a" using assms(2) by (simp add: wf_request_id_def wf_attachment_def)
  then have "attached_id z (sm_attachment ?smp) = Some i" by (simp add: attached_id_to_zbytes assms(1))
  then show ?thesis
    using assms(3) refused [of SvcZenoh] replied [of ?smp]
    by (cases "reply_ok ?smp") (auto simp: reply_query_def Let_def)
qed

abbreviation typed_respond :: "zserde \<Rightarrow> 'r cdr_encoding \<Rightarrow> (zenoh_sample \<Rightarrow> bool) \<Rightarrow>
    zenoh_request_id \<Rightarrow> duration option \<times> 'r \<Rightarrow> zenoh_server \<Rightarrow> (service_error + unit) \<times> zenoh_server" where
  "typed_respond z cdr reply_ok i p \<equiv> server_send_response z cdr reply_ok (fst p) i (snd p)"

abbreviation raw_respond :: "zserde \<Rightarrow> (zenoh_sample \<Rightarrow> bool) \<Rightarrow>
    zenoh_request_id \<Rightarrow> duration option \<times> byte list \<Rightarrow> zenoh_server \<Rightarrow> (service_error + unit) \<times> zenoh_server" where
  "raw_respond z reply_ok i p \<equiv> raw_send_response z reply_ok (fst p) i (snd p)"

lemma respond_attached:
  assumes "zserde_lawful z" and "wf_request_id i"
    and "reply_query z reply_ok now i q payload (s\<lparr>zv_pending := hm_remove (request_key i) (zv_pending s)\<rparr>) = (r, s')"
  shows "(\<exists>e. r = Err e) \<and> s' = s\<lparr>zv_pending := hm_remove (request_key i) (zv_pending s)\<rparr>
    \<or> (\<exists>smp j. r = Ok () \<and> attached_id z (sm_attachment smp) = Some j \<and> request_key j = request_key i
        \<and> s' = s\<lparr>zv_pending := hm_remove (request_key i) (zv_pending s), zv_replies := zv_replies s @ [(q, smp)]\<rparr>)"
  using assms by (rule reply_query_cases) auto

lemma raw_pending_server:
  assumes "zserde_lawful z"
  shows "pending_server z (raw_accept z) (raw_respond z reply_ok)"
proof
  fix i p s r' s' assume i: "wf_request_id i" and r: "raw_respond z reply_ok i p s = (r', s')"
  show "map_of (zv_pending s) (request_key i) = None \<and> r' = Err UnknownRequest \<and> s' = s
      \<or> (\<exists>q. map_of (zv_pending s) (request_key i) = Some q \<and>
          ((\<exists>e. r' = Err e) \<and> s' = s\<lparr>zv_pending := hm_remove (request_key i) (zv_pending s)\<rparr>
           \<or> (\<exists>smp j. r' = Ok () \<and> attached_id z (sm_attachment smp) = Some j \<and> request_key j = request_key i
               \<and> s' = s\<lparr>zv_pending := hm_remove (request_key i) (zv_pending s), zv_replies := zv_replies s @ [(q, smp)]\<rparr>)))"
  proof (cases "map_of (zv_pending s) (request_key i)")
    case (Some q)
    then show ?thesis using r respond_attached [OF assms i] by (simp add: raw_send_response_def Let_def)
  qed (use r in \<open>simp add: raw_send_response_def\<close>)
qed (rule accept_attached)

lemma typed_pending_server:
  assumes "zserde_lawful z"
  shows "pending_server z (server_accept z qcdr) (typed_respond z rcdr reply_ok)"
proof
  fix i p s r' s' assume i: "wf_request_id i" and r: "typed_respond z rcdr reply_ok i p s = (r', s')"
  show "map_of (zv_pending s) (request_key i) = None \<and> r' = Err UnknownRequest \<and> s' = s
      \<or> (\<exists>q. map_of (zv_pending s) (request_key i) = Some q \<and>
          ((\<exists>e. r' = Err e) \<and> s' = s\<lparr>zv_pending := hm_remove (request_key i) (zv_pending s)\<rparr>
           \<or> (\<exists>smp j. r' = Ok () \<and> attached_id z (sm_attachment smp) = Some j \<and> request_key j = request_key i
               \<and> s' = s\<lparr>zv_pending := hm_remove (request_key i) (zv_pending s), zv_replies := zv_replies s @ [(q, smp)]\<rparr>)))"
  proof (cases "map_of (zv_pending s) (request_key i)")
    case (Some q)
    show ?thesis
    proof (cases "to_cdr rcdr (snd p)")
      case (Inl e)
      then show ?thesis using Some r by (auto simp: server_send_response_def Let_def)
    next
      case (Inr b)
      then show ?thesis using Some r respond_attached [OF assms i] by (simp add: server_send_response_def Let_def)
    qed
  qed (use r in \<open>simp add: server_send_response_def\<close>)
qed (rule accept_attached)

interpretation raw_server: pending_server zenoh_ext "raw_accept zenoh_ext" "raw_respond zenoh_ext reply_ok" for reply_ok
  by (rule raw_pending_server [OF zenoh_ext_lawful])

interpretation typed_server: pending_server zenoh_ext "server_accept zenoh_ext qcdr" "typed_respond zenoh_ext rcdr reply_ok"
  for qcdr rcdr reply_ok
  by (rule typed_pending_server [OF zenoh_ext_lawful])

lemma service_inv_new [simp]: "service_inv z (server_new key token)"
  "answered_ids (server_new key token) = []" "pending_ids (server_new key token) = []"
  by (simp_all add: service_inv_def server_new_def answered_ids_def pending_ids_def hm_inv_def)

subsection \<open>Properties\<close>

lemma reply_echoes_same_id:
  assumes "zserde_lawful z" and "reply_echoes z (q, r)"
  shows "attached_id z (sm_attachment r) = attached_id z (zq_attachment q)"
proof -
  have len: "length (rq_writer_gid i) = 16" if "attached_id z att = Some i" for att i
    using that from_zbytes_gid_length [OF assms(1)] by (auto simp: attached_id_def split: option.splits sum.splits)
  then show ?thesis using assms(2) request_key_inj by (fastforce simp: reply_echoes_def)
qed

definition answered_right :: "zserde \<Rightarrow> zenoh_server \<Rightarrow> bool" where
  "answered_right z s \<longleftrightarrow> distinct (answered_ids s @ pending_ids s)
     \<and> (\<forall>(q, r)\<in>set (zv_replies s). attached_id z (sm_attachment r) = attached_id z (zq_attachment q))"

lemma service_inv_answered: "zserde_lawful z \<Longrightarrow> service_inv z s \<Longrightarrow> answered_right z s"
  using reply_echoes_same_id by (auto simp: service_inv_def answered_right_def list_all_iff)

text \<open>C4. However requests arrive and responses are sent, no query is answered twice or answered while
  still pending, and every reply carries the client GID and sequence number of the query it answers;
  for the typed server and for the raw one.\<close>

theorem requests_answered_once:
  assumes "zserde_lawful z" and "distinct (received ops)" and "\<forall>op\<in>set ops. wf_op op"
    and "distinct (received raw_ops)" and "\<forall>op\<in>set raw_ops. wf_op op"
  shows "answered_right z (service_run (server_accept z qcdr) (typed_respond z rcdr reply_ok) ops (server_new key token))
    \<and> answered_right z (service_run (raw_accept z) (raw_respond z reply_ok) raw_ops (server_new key token))"
proof
  show "answered_right z (service_run (server_accept z qcdr) (typed_respond z rcdr reply_ok) ops (server_new key token))"
    by (intro service_inv_answered assms pending_server.run_inv [OF typed_pending_server]) simp_all
  show "answered_right z (service_run (raw_accept z) (raw_respond z reply_ok) raw_ops (server_new key token))"
    by (intro service_inv_answered assms pending_server.run_inv [OF raw_pending_server]) simp_all
qed

theorem requests_answered_once_witness:
  "let q = \<lparr>zq_ident = 1, zq_key = ''k'', zq_payload = Some [0, 1, 0, 0, 7], zq_attachment =
         Some (to_zbytes zenoh_ext \<lparr>at_sequence_number = 1, at_source_timestamp = 0, at_source_gid = replicate 16 2\<rparr>)\<rparr>;
       i = \<lparr>rq_writer_gid = replicate 16 2, rq_sequence_number = 1\<rparr>;
       s = service_run (raw_accept zenoh_ext) (raw_respond zenoh_ext (\<lambda>_. True))
         [Receive q, Respond i (None, [0, 1, 0, 0, 8]), Respond i (None, [])] (server_new ''k'' None)
   in answered_right zenoh_ext s"
proof -
  let ?q = "\<lparr>zq_ident = 1, zq_key = ''k'', zq_payload = Some [0, 1, 0, 0, 7], zq_attachment =
         Some (to_zbytes zenoh_ext \<lparr>at_sequence_number = 1, at_source_timestamp = 0, at_source_gid = replicate 16 2\<rparr>)\<rparr>"
    and ?i = "\<lparr>rq_writer_gid = replicate 16 2, rq_sequence_number = 1\<rparr>"
  let ?ops = "[Receive ?q, Respond ?i (None, [0, 1, 0, 0, 8]), Respond ?i (None, [])]"
  have "\<forall>op\<in>set ?ops. wf_op op" by (simp add: wf_request_id_def in_signed_def)
  then show ?thesis
    using requests_answered_once [OF zenoh_ext_lawful, where ops = "[]" and raw_ops = ?ops and key = "''k''"
        and qcdr = bytes_codec and rcdr = bytes_codec and reply_ok = "\<lambda>_. True" and token = None]
    by (simp add: Let_def)
qed

text \<open>A \<open>get\<close> that reaches one server whose application answers a request with \<open>f\<close>.\<close>

definition served :: "zserde \<Rightarrow> 'q cdr_encoding \<Rightarrow> 'r cdr_encoding \<Rightarrow> ('q \<Rightarrow> 'r) \<Rightarrow> duration option \<Rightarrow> nat \<Rightarrow> zenoh_server \<Rightarrow>
    zenoh_get \<Rightarrow> zenoh_reply list option" where
  "served z qcdr rcdr f now ident s g =
     (case server_accept z qcdr \<lparr>zq_ident = ident, zq_key = zg_selector g, zq_payload = Some (zg_payload g),
          zq_attachment = Some (zg_attachment g)\<rparr> s of
        (Inl _, _) \<Rightarrow> Some [ReplyErr]
      | (Inr (i, req), s1) \<Rightarrow>
          (case server_send_response z rcdr (\<lambda>_. True) now i (f req) s1 of
             (Inl _, _) \<Rightarrow> Some [ReplyErr]
           | (Inr _, s2) \<Rightarrow> Some (map (ReplyOk \<circ> snd) (filter (\<lambda>(q, _). zq_ident q = ident) (zv_replies s2)))))"

lemma served_call:
  assumes "cdr_lawful qcdr" and "cdr_lawful rcdr" and "zserde_lawful z" and "length (zc_gid c) = 16"
    and "0 \<le> zc_seq c" and "zc_seq c < 2 ^ 63 - 1"
    and "to_cdr qcdr req = Ok qb" and "to_cdr rcdr (f req) = Ok rb"
    and "ident \<notin> set (answered_ids s)"
  shows "client_call mode z qcdr rcdr (served z qcdr rcdr f now' ident s) now req c =
    (Ok (f req), c\<lparr>zc_seq := zc_seq c + 1\<rparr>)"
proof -
  let ?i = "\<lparr>rq_writer_gid = zc_gid c, rq_sequence_number = zc_seq c + 1\<rparr>"
  let ?a = "\<lparr>at_sequence_number = zc_seq c + 1, at_source_timestamp = now_nanos now, at_source_gid = zc_gid c\<rparr>"
  have i64: "i64_ok (zc_seq c + 1)" using assms(5,6) by (simp add: range_simps)
  then have wf: "wf_attachment ?a" using assms(4) by (simp add: wf_attachment_def)
  have none: "filter (\<lambda>(q, _). zq_ident q = ident) (zv_replies s) = []"
    using assms(9) by (force simp: answered_ids_def filter_empty_conv)
  have "served z qcdr rcdr f now' ident s \<lparr>zg_selector = zc_selector c, zg_payload = qb,
      zg_attachment = to_zbytes z ?a, zg_timeout = zc_timeout c\<rparr> =
    Some [ReplyOk \<lparr>sm_key = zc_selector c, sm_payload = rb, sm_attachment = Some (to_zbytes z
      \<lparr>at_sequence_number = zc_seq c + 1, at_source_timestamp = now_nanos now', at_source_gid = zc_gid c\<rparr>)\<rparr>]"
    using none by (simp add: served_def server_accept_def from_to_cdr [OF assms(1,7)] from_to_zbytes [OF assms(3) wf]
        store_pending_def server_send_response_def map_laws assms(8) reply_query_def Let_def)
  then show ?thesis
    using i64 assms(7) by (simp add: client_call_def request_bytes_def from_to_cdr [OF assms(2,8)])
qed

text \<open>C6. Calling a service returns what the server's application answers: the request the client
  encodes is the request the server hands out, the response is routed back to the query, and the
  client decodes it; each call takes one sequence number.\<close>

theorem service_call_returns:
  assumes "cdr_lawful qcdr" and "cdr_lawful rcdr" and "zserde_lawful z" and "length (zc_gid c) = 16"
    and "0 \<le> zc_seq c" and "zc_seq c < 2 ^ 63 - 1"
    and "to_cdr qcdr req = Ok qb" and "to_cdr rcdr (f req) = Ok rb"
    and "ident \<notin> set (answered_ids s)"
  shows "client_call mode z qcdr rcdr (served z qcdr rcdr f now' ident s) now req c =
      (Ok (f req), c\<lparr>zc_seq := zc_seq c + 1\<rparr>)
    \<and> async_call mode z qcdr rcdr (served z qcdr rcdr f now' ident s) now req c =
      (Ok (f req), c\<lparr>zc_seq := zc_seq c + 1\<rparr>)"
  using served_call [where f = f, OF assms] by (simp add: async_call_def client_call_def)

theorem service_call_returns_witness:
  "client_call Checked zenoh_ext bytes_codec bytes_codec
     (served zenoh_ext bytes_codec bytes_codec rev None 3 (server_new ''k'' None)) None [1, 2]
     (client_new ''k'' (replicate 16 5) None) = (Ok [2, 1], (client_new ''k'' (replicate 16 5) None)\<lparr>zc_seq := 1\<rparr>)"
  using service_call_returns [OF bytes_codec_lawful bytes_codec_lawful zenoh_ext_lawful,
      of "client_new ''k'' (replicate 16 5) None" "[1, 2]" _ rev _ 3 "server_new ''k'' None" Checked None None]
  by (simp add: client_new_def client_new_with_timeout_def to_cdr_def bytes_codec_def)

end
