(* ===== verification/Ros_Times.thy ===== *)
theory Ros_Times
  imports Rust_Duration
begin

text \<open>
  Time: \<open>ros_time.rs\<close> (nanosecond timestamps and durations), \<open>steady_time.rs\<close> (monotonic time)
  and \<open>builtin_interfaces.rs\<close> (the wire forms). Arithmetic takes the overflow mode of the build,
  \<open>None\<close> is a panic. A DDS timestamp is a value of another crate: its type is a type variable and
  the constants and the tick count the source uses are parameters. An \<open>Instant\<close> is a count of
  nanoseconds whose seconds fit 64 bits.
\<close>

subsection \<open>ROS time (\<open>ros_time.rs\<close>)\<close>

record ros_time = rt_nanos_since_epoch :: int
record ros_duration = rd_diff :: int

definition ros_time_from_nanos :: "int \<Rightarrow> ros_time" where
  "ros_time_from_nanos n = \<lparr>rt_nanos_since_epoch = n\<rparr>"

definition ROS_TIME_ZERO :: ros_time where
  "ROS_TIME_ZERO = ros_time_from_nanos 0"

definition ros_time_sub :: "overflow_mode \<Rightarrow> ros_time \<Rightarrow> ros_time \<Rightarrow> ros_duration option" where
  "ros_time_sub mode t u =
     map_option (\<lambda>d. \<lparr>rd_diff = d\<rparr>) (signed_result mode 64 (rt_nanos_since_epoch t - rt_nanos_since_epoch u))"

definition ros_time_sub_duration :: "overflow_mode \<Rightarrow> ros_time \<Rightarrow> ros_duration \<Rightarrow> ros_time option" where
  "ros_time_sub_duration mode t d =
     map_option ros_time_from_nanos (signed_result mode 64 (rt_nanos_since_epoch t - rd_diff d))"

definition ros_time_add :: "overflow_mode \<Rightarrow> ros_time \<Rightarrow> ros_duration \<Rightarrow> ros_time option" where
  "ros_time_add mode t d =
     map_option ros_time_from_nanos (signed_result mode 64 (rt_nanos_since_epoch t + rd_diff d))"

definition ros_duration_add :: "overflow_mode \<Rightarrow> ros_duration \<Rightarrow> ros_duration \<Rightarrow> ros_duration option" where
  "ros_duration_add mode a b = map_option (\<lambda>d. \<lparr>rd_diff = d\<rparr>) (signed_result mode 64 (rd_diff a + rd_diff b))"

definition ros_duration_sub :: "overflow_mode \<Rightarrow> ros_duration \<Rightarrow> ros_duration \<Rightarrow> ros_duration option" where
  "ros_duration_sub mode a b = map_option (\<lambda>d. \<lparr>rd_diff = d\<rparr>) (signed_result mode 64 (rd_diff a - rd_diff b))"

datatype out_of_range_error = OutOfRangeError

definition ros_duration_from_std :: "duration \<Rightarrow> out_of_range_error + ros_duration" where
  "ros_duration_from_std d =
     (let nanos = int (duration_as_nanos d)
      in if nanos \<le> i64_max then Ok \<lparr>rd_diff = nanos\<rparr> else Err OutOfRangeError)"

definition ros_duration_to_std :: "ros_duration \<Rightarrow> out_of_range_error + duration" where
  "ros_duration_to_std r =
     (if rd_diff r < 0 then Err OutOfRangeError else Ok (duration_from_nanos (nat (rd_diff r))))"

text \<open>Conversions through \<open>chrono\<close>: the nanosecond count of its date is a parameter, \<open>None\<close>
  out of range.\<close>

definition ros_time_try_from_chrono :: "('dt \<Rightarrow> int option) \<Rightarrow> 'dt \<Rightarrow> out_of_range_error + ros_time" where
  "ros_time_try_from_chrono timestamp_nanos_opt chrono_time =
     (case timestamp_nanos_opt chrono_time of
        None \<Rightarrow> Err OutOfRangeError | Some n \<Rightarrow> Ok (ros_time_from_nanos n))"

definition ros_time_now :: "('dt \<Rightarrow> int option) \<Rightarrow> 'dt \<Rightarrow> ros_time" where
  "ros_time_now timestamp_nanos_opt utc_now =
     (case ros_time_try_from_chrono timestamp_nanos_opt utc_now of Ok t \<Rightarrow> t | Err _ \<Rightarrow> ROS_TIME_ZERO)"

definition ros_duration_from_chrono :: "('cd \<Rightarrow> int option) \<Rightarrow> 'cd \<Rightarrow> out_of_range_error + ros_duration" where
  "ros_duration_from_chrono num_nanoseconds c_duration =
     (case num_nanoseconds c_duration of
        Some n \<Rightarrow> Ok \<lparr>rd_diff = n\<rparr> | None \<Rightarrow> Err OutOfRangeError)"

datatype timestamp_conversion_error = TimestampInvalid | TimestampInfinite | TimestampPanic

text \<open>Products, sums and differences of \<open>u64\<close>; \<open>None\<close> is the overflow panic.\<close>

definition u64_result :: "overflow_mode \<Rightarrow> int \<Rightarrow> int option" where
  "u64_result mode x =
     (if u64_ok x then Some x else case mode of Checked \<Rightarrow> None | Wrapping \<Rightarrow> Some (x mod 2 ^ 64))"

definition ros_time_from_timestamp ::
    "overflow_mode \<Rightarrow> 'ts \<Rightarrow> 'ts \<Rightarrow> ('ts \<Rightarrow> int) \<Rightarrow> 'ts \<Rightarrow> timestamp_conversion_error + ros_time" where
  "ros_time_from_timestamp mode INVALID INFINITE to_ticks ts =
     (if ts = INVALID then Err TimestampInvalid
      else if ts = INFINITE then Err TimestampInfinite
      else
        (let ticks = to_ticks ts; seconds = ticks div 2 ^ 32; whole = (seconds * 2 ^ 32) mod 2 ^ 64 in
         and_then (ok_or TimestampPanic (u64_result mode (ticks - whole))) (\<lambda>frac_ticks.
         and_then (ok_or TimestampPanic (u64_result mode (frac_ticks * 1000000000))) (\<lambda>p.
         let frac_nanos = p div 2 ^ 32 in
         and_then (ok_or TimestampPanic (u64_result mode (seconds * 1000000000))) (\<lambda>s.
         and_then (ok_or TimestampPanic (u64_result mode (s + frac_nanos))) (\<lambda>n.
           Ok (ros_time_from_nanos (wrap_signed 64 n))))))))"

subsection \<open>Steady time (\<open>steady_time.rs\<close>)\<close>

record steady_time = st_instant :: int

definition instant_ok :: "int \<Rightarrow> bool" where
  "instant_ok t \<longleftrightarrow> i64_ok (t div 1000000000)"

definition instant_add :: "int \<Rightarrow> duration \<Rightarrow> int option" where
  "instant_add t d = (let u = t + int (duration_as_nanos d) in if instant_ok u then Some u else None)"

definition instant_sub :: "int \<Rightarrow> duration \<Rightarrow> int option" where
  "instant_sub t d = (let u = t - int (duration_as_nanos d) in if instant_ok u then Some u else None)"

definition checked_duration_since :: "int \<Rightarrow> int \<Rightarrow> duration option" where
  "checked_duration_since t u = (if t < u then None else Some (duration_from_nanos (nat (t - u))))"

definition saturating_duration_since :: "int \<Rightarrow> int \<Rightarrow> duration" where
  "saturating_duration_since t u =
     (case checked_duration_since t u of Some d \<Rightarrow> d | None \<Rightarrow> duration_zero)"

datatype time_diff = TimeDiff (td_duration: duration) (td_is_negative: bool)

definition steady_sub :: "steady_time \<Rightarrow> steady_time \<Rightarrow> time_diff" where
  "steady_sub t u =
     (case checked_duration_since (st_instant t) (st_instant u) of
        Some d \<Rightarrow> TimeDiff d False
      | None \<Rightarrow> TimeDiff (saturating_duration_since (st_instant u) (st_instant t)) True)"

definition steady_sub_diff :: "steady_time \<Rightarrow> time_diff \<Rightarrow> steady_time option" where
  "steady_sub_diff t d =
     map_option (\<lambda>i. \<lparr>st_instant = i\<rparr>)
       (if td_is_negative d then instant_sub (st_instant t) (td_duration d)
        else instant_add (st_instant t) (td_duration d))"

definition steady_add_diff :: "steady_time \<Rightarrow> time_diff \<Rightarrow> steady_time option" where
  "steady_add_diff t d =
     map_option (\<lambda>i. \<lparr>st_instant = i\<rparr>)
       (if td_is_negative d then instant_add (st_instant t) (td_duration d)
        else instant_sub (st_instant t) (td_duration d))"

definition time_diff_from_nanos :: "overflow_mode \<Rightarrow> int \<Rightarrow> time_diff option" where
  "time_diff_from_nanos mode nanos =
     (if nanos \<ge> 0 then Some (TimeDiff (duration_from_nanos (nat (wrap_unsigned 64 nanos))) False)
      else map_option (\<lambda>m. TimeDiff (duration_from_nanos (nat (wrap_unsigned 64 m))) True)
        (signed_result mode 64 (- nanos)))"

definition time_diff_from_millis :: "overflow_mode \<Rightarrow> int \<Rightarrow> time_diff option" where
  "time_diff_from_millis mode millis =
     Option.bind (signed_result mode 64 (millis * 1000000)) (time_diff_from_nanos mode)"

definition time_diff_from_secs :: "overflow_mode \<Rightarrow> int \<Rightarrow> time_diff option" where
  "time_diff_from_secs mode secs =
     Option.bind (signed_result mode 64 (secs * 1000000000)) (time_diff_from_nanos mode)"

definition time_diff_as_nanos :: "time_diff \<Rightarrow> int" where
  "time_diff_as_nanos d =
     (let n = int (duration_as_nanos (td_duration d));
          n = (if n > i64_max then i64_max else n)
      in if td_is_negative d then - n else n)"

definition time_diff_as_millis :: "time_diff \<Rightarrow> int" where
  "time_diff_as_millis d = trunc_div (time_diff_as_nanos d) 1000000"

definition time_diff_as_seconds :: "time_diff \<Rightarrow> int" where
  "time_diff_as_seconds d = trunc_div (time_diff_as_nanos d) 1000000000"

datatype negative_time_diff_error = NegativetimeDiffError

definition time_diff_as_duration :: "time_diff \<Rightarrow> negative_time_diff_error + duration" where
  "time_diff_as_duration d = (if td_is_negative d then Err NegativetimeDiffError else Ok (td_duration d))"

definition time_diff_as_saturating_duration :: "time_diff \<Rightarrow> duration" where
  "time_diff_as_saturating_duration d = (if td_is_negative d then duration_zero else td_duration d)"

datatype ordering = Less | Equal | Greater

fun ordering_reverse :: "ordering \<Rightarrow> ordering" where
  "ordering_reverse Less = Greater"
| "ordering_reverse Equal = Equal"
| "ordering_reverse Greater = Less"

definition compare_with :: "'a::linorder \<Rightarrow> 'a \<Rightarrow> ordering" where
  "compare_with x y = (if x < y then Less else if x = y then Equal else Greater)"

definition duration_cmp :: "duration \<Rightarrow> duration \<Rightarrow> ordering" where
  "duration_cmp a b =
     (case compare_with (dur_secs a) (dur_secs b) of
        Equal \<Rightarrow> compare_with (dur_nanos a) (dur_nanos b) | ord \<Rightarrow> ord)"

definition time_diff_cmp :: "time_diff \<Rightarrow> time_diff \<Rightarrow> ordering" where
  "time_diff_cmp a b =
     (case (td_is_negative a, td_is_negative b) of
        (False, False) \<Rightarrow> duration_cmp (td_duration a) (td_duration b)
      | (True, True) \<Rightarrow> ordering_reverse (duration_cmp (td_duration a) (td_duration b))
      | (False, True) \<Rightarrow> Greater
      | (True, False) \<Rightarrow> Less)"

definition time_diff_add :: "overflow_mode \<Rightarrow> time_diff \<Rightarrow> time_diff \<Rightarrow> time_diff option" where
  "time_diff_add mode a b =
     Option.bind (signed_result mode 64 (time_diff_as_nanos a + time_diff_as_nanos b)) (time_diff_from_nanos mode)"

definition time_diff_sub :: "overflow_mode \<Rightarrow> time_diff \<Rightarrow> time_diff \<Rightarrow> time_diff option" where
  "time_diff_sub mode a b =
     Option.bind (signed_result mode 64 (time_diff_as_nanos a - time_diff_as_nanos b)) (time_diff_from_nanos mode)"

text \<open>\<open>now_with_utc\<close> with the readings of the clocks given: the monotonic clock before and after
  the wall clock is read.\<close>

definition now_with_utc :: "overflow_mode \<Rightarrow> steady_time \<Rightarrow> 'utc \<Rightarrow> steady_time \<Rightarrow> (steady_time \<times> 'utc) option" where
  "now_with_utc mode m0 utc m1 =
     (let diff = steady_sub m1 m0
      in Option.bind (time_diff_from_nanos mode (trunc_div (time_diff_as_nanos diff) 2)) (\<lambda>half.
         map_option (\<lambda>t. (t, utc)) (steady_add_diff m0 half)))"

subsection \<open>Wire forms (\<open>builtin_interfaces.rs\<close>)\<close>

record bi_time = bt_nanos_since_epoch :: int
record repr_time = rp_sec :: int rp_nanosec :: int

definition bi_time_now :: "('dt \<Rightarrow> int option) \<Rightarrow> 'dt \<Rightarrow> bi_time" where
  "bi_time_now timestamp_nanos_opt utc_now =
     (case timestamp_nanos_opt utc_now of
        Some n \<Rightarrow> \<lparr>bt_nanos_since_epoch = n\<rparr> | None \<Rightarrow> \<lparr>bt_nanos_since_epoch = 0\<rparr>)"

definition bi_time_from_repr :: "repr_time \<Rightarrow> bi_time" where
  "bi_time_from_repr rt = \<lparr>bt_nanos_since_epoch = rp_sec rt * 1000000000 + rp_nanosec rt\<rparr>"

definition repr_time_from :: "overflow_mode \<Rightarrow> bi_time \<Rightarrow> repr_time option" where
  "repr_time_from mode tm =
     (let t = bt_nanos_since_epoch tm; quot = trunc_div t 1000000000; rem = trunc_rem t 1000000000
      in if rem \<ge> 0 then
           Some \<lparr>rp_sec = (if quot > i32_max then i32_max else if quot < i32_min then i32_min
                             else wrap_signed 32 quot),
                 rp_nanosec = wrap_unsigned 32 rem\<rparr>
         else
           (let quot_sat = (if quot \<ge> i32_min then wrap_signed 32 quot else i32_min)
            in map_option (\<lambda>sec. \<lparr>rp_sec = sec, rp_nanosec = wrap_unsigned 32 (1000000000 + rem)\<rparr>)
                 (signed_result mode 32 (quot_sat - 1))))"

definition bi_time_from_ros_time :: "ros_time \<Rightarrow> bi_time" where
  "bi_time_from_ros_time rt = \<lparr>bt_nanos_since_epoch = rt_nanos_since_epoch rt\<rparr>"

definition ros_time_from_bi_time :: "bi_time \<Rightarrow> ros_time" where
  "ros_time_from_bi_time t = ros_time_from_nanos (bt_nanos_since_epoch t)"

record bi_duration = bd_sec :: int bd_nanosec :: int

definition bi_duration_zero :: bi_duration where
  "bi_duration_zero = \<lparr>bd_sec = 0, bd_nanosec = 0\<rparr>"

definition bi_duration_from_secs :: "int \<Rightarrow> bi_duration" where
  "bi_duration_from_secs sec = \<lparr>bd_sec = sec, bd_nanosec = 0\<rparr>"

definition bi_duration_from_nanos :: "int \<Rightarrow> bi_duration" where
  "bi_duration_from_nanos nanos =
     (let quot = trunc_div nanos 1000000000; rem = trunc_rem nanos 1000000000
      in if rem \<ge> 0 then
           (if quot > i32_max then \<lparr>bd_sec = i32_max, bd_nanosec = u32_max\<rparr>
            else if quot \<le> i32_min then \<lparr>bd_sec = i32_min, bd_nanosec = 0\<rparr>
            else \<lparr>bd_sec = wrap_signed 32 quot, bd_nanosec = wrap_unsigned 32 rem\<rparr>)
         else
           (if quot \<le> i32_min then \<lparr>bd_sec = i32_min, bd_nanosec = 0\<rparr>
            else \<lparr>bd_sec = wrap_signed 32 (quot + 1), bd_nanosec = wrap_unsigned 32 (1000000000 + rem)\<rparr>))"

definition bi_duration_from_millis :: "overflow_mode \<Rightarrow> int \<Rightarrow> bi_duration option" where
  "bi_duration_from_millis mode millis =
     map_option bi_duration_from_nanos (signed_result mode 64 (millis * 1000000))"

definition bi_duration_to_nanos :: "bi_duration \<Rightarrow> int" where
  "bi_duration_to_nanos d = 1000000000 * bd_sec d + bd_nanosec d"

subsection \<open>Arithmetic that wraps or panics\<close>

lemma wrap_signed_add: "wrap_signed w (a + wrap_signed w b) = wrap_signed w (a + b)"
proof -
  have "a + ((b + 2 ^ (w - 1)) mod 2 ^ w - 2 ^ (w - 1)) + 2 ^ (w - 1) = a + (b + 2 ^ (w - 1)) mod 2 ^ w"
    by simp
  then show ?thesis by (simp add: wrap_signed_def mod_add_right_eq add.assoc)
qed

lemma wrap_signed_diff: "wrap_signed w (a - wrap_signed w b) = wrap_signed w (a - b)"
proof -
  let ?h = "2 ^ (w - 1) :: int" and ?m = "2 ^ w :: int"
  have "(a - ((b + ?h) mod ?m - ?h) + ?h) mod ?m = ((a + 2 * ?h) - (b + ?h) mod ?m) mod ?m"
    by (simp add: algebra_simps)
  also have "\<dots> = (a - b + ?h) mod ?m"
    unfolding mod_diff_right_eq by (simp add: algebra_simps)
  finally show ?thesis by (simp add: wrap_signed_def)
qed

lemma signed_result_Wrapping: "0 < w \<Longrightarrow> signed_result Wrapping w x = Some (wrap_signed w x)"
  by (simp add: signed_result_def)

lemma signed_result_undo:
  assumes "0 < w" and "in_signed w u" and "signed_result mode w (u - t) = Some d"
  shows "signed_result mode w (t + d) = Some u"
proof (cases mode)
  case Checked
  with assms show ?thesis by (auto simp: signed_result_Checked split: if_splits)
next
  case Wrapping
  with assms show ?thesis by (auto simp: signed_result_Wrapping wrap_signed_add)
qed

lemma u64_result_in_range [simp]: "u64_ok x \<Longrightarrow> u64_result mode x = Some x"
  by (simp add: u64_result_def)

subsection \<open>Differences of steady time\<close>

definition time_diff_value :: "time_diff \<Rightarrow> int" where
  "time_diff_value d =
     (if td_is_negative d then - int (duration_as_nanos (td_duration d)) else int (duration_as_nanos (td_duration d)))"

definition time_diff_ok :: "time_diff \<Rightarrow> bool" where
  "time_diff_ok d \<longleftrightarrow> duration_ok (td_duration d)
     \<and> (td_is_negative d \<longrightarrow> td_duration d \<noteq> duration_zero)"

lemma steady_sub_value: "time_diff_value (steady_sub t u) = st_instant t - st_instant u"
  by (simp add: steady_sub_def checked_duration_since_def saturating_duration_since_def time_diff_value_def)

lemma steady_sub_negative: "td_is_negative (steady_sub t u) \<longleftrightarrow> st_instant t < st_instant u"
  by (simp add: steady_sub_def checked_duration_since_def)

lemma steady_sub_diff_value:
  "steady_sub_diff t d = (if instant_ok (st_instant t + time_diff_value d)
     then Some \<lparr>st_instant = st_instant t + time_diff_value d\<rparr> else None)"
  by (simp add: steady_sub_diff_def instant_add_def instant_sub_def time_diff_value_def Let_def)

lemma steady_add_diff_value:
  "steady_add_diff t d = (if instant_ok (st_instant t - time_diff_value d)
     then Some \<lparr>st_instant = st_instant t - time_diff_value d\<rparr> else None)"
  by (simp add: steady_add_diff_def instant_add_def instant_sub_def time_diff_value_def Let_def)

lemma time_diff_from_nanos_value:
  assumes "i64_ok n" and "n \<noteq> - 9223372036854775808"
  shows "\<exists>d. time_diff_from_nanos mode n = Some d \<and> time_diff_value d = n \<and> (td_is_negative d \<longleftrightarrow> n < 0)"
proof (cases "n \<ge> 0")
  case True
  then have "u64_ok n" using assms by (simp add: range_simps)
  then show ?thesis using True by (simp add: time_diff_from_nanos_def time_diff_value_def)
next
  case False
  then have "u64_ok (- n)" "i64_ok (- n)" using assms by (simp_all add: range_simps)
  then show ?thesis using False by (simp add: time_diff_from_nanos_def time_diff_value_def)
qed

lemma time_diff_as_nanos_value: "\<bar>time_diff_value d\<bar> \<le> i64_max \<Longrightarrow> time_diff_as_nanos d = time_diff_value d"
  by (auto simp: time_diff_as_nanos_def time_diff_value_def Let_def split: if_splits)

lemma duration_cmp_nanos:
  assumes "duration_ok a" and "duration_ok b"
  shows "duration_cmp a b = compare_with (duration_as_nanos a) (duration_as_nanos b)"
proof -
  consider "dur_secs a < dur_secs b" | "dur_secs a = dur_secs b" | "dur_secs b < dur_secs a" by linarith
  then show ?thesis
  proof cases
    case 1
    with assms have "duration_as_nanos a < duration_as_nanos b"
      by (simp add: duration_ok_def duration_as_nanos_def)
    with 1 show ?thesis by (simp add: duration_cmp_def compare_with_def)
  next
    case 2
    then show ?thesis by (auto simp: duration_cmp_def compare_with_def duration_as_nanos_def)
  next
    case 3
    with assms have "duration_as_nanos b < duration_as_nanos a"
      by (simp add: duration_ok_def duration_as_nanos_def)
    with 3 show ?thesis by (simp add: duration_cmp_def compare_with_def)
  qed
qed

text \<open>The source's \<open>Ord\<close> makes the differences a linear order.\<close>

definition time_diff_key :: "time_diff \<Rightarrow> bool \<times> int \<times> int" where
  "time_diff_key d =
     (\<not> td_is_negative d, (if td_is_negative d then -1 else 1) * int (dur_secs (td_duration d)),
      (if td_is_negative d then -1 else 1) * int (dur_nanos (td_duration d)))"

definition key_le :: "bool \<times> int \<times> int \<Rightarrow> bool \<times> int \<times> int \<Rightarrow> bool" where
  "key_le x y \<longleftrightarrow> fst x < fst y \<or> fst x = fst y \<and>
     (fst (snd x) < fst (snd y) \<or> fst (snd x) = fst (snd y) \<and> snd (snd x) \<le> snd (snd y))"

lemma time_diff_cmp_key: "time_diff_cmp a b \<noteq> Greater \<longleftrightarrow> key_le (time_diff_key a) (time_diff_key b)"
  by (cases "td_is_negative a"; cases "td_is_negative b")
    (auto simp: time_diff_cmp_def duration_cmp_def compare_with_def key_le_def time_diff_key_def)

lemma time_diff_key_inj: "time_diff_key a = time_diff_key b \<Longrightarrow> a = b"
  by (cases a; cases b) (auto simp: time_diff_key_def split: if_splits)

instantiation time_diff :: linorder
begin

definition less_eq_time_diff :: "time_diff \<Rightarrow> time_diff \<Rightarrow> bool" where
  "less_eq_time_diff a b \<longleftrightarrow> time_diff_cmp a b \<noteq> Greater"

definition less_time_diff :: "time_diff \<Rightarrow> time_diff \<Rightarrow> bool" where
  "less_time_diff a b \<longleftrightarrow> a \<le> b \<and> \<not> b \<le> (a :: time_diff)"

instance
proof
  fix a b c :: time_diff
  show "(a < b) = (a \<le> b \<and> \<not> b \<le> a)" by (rule less_time_diff_def)
  show "a \<le> a" by (simp add: less_eq_time_diff_def time_diff_cmp_key key_le_def)
  show "a \<le> b \<Longrightarrow> b \<le> c \<Longrightarrow> a \<le> c"
    unfolding less_eq_time_diff_def time_diff_cmp_key key_le_def by auto
  show "a \<le> b \<or> b \<le> a"
    unfolding less_eq_time_diff_def time_diff_cmp_key key_le_def by auto
  show "a \<le> b \<Longrightarrow> b \<le> a \<Longrightarrow> a = b"
    unfolding less_eq_time_diff_def time_diff_cmp_key
    by (rule time_diff_key_inj) (auto simp: key_le_def prod_eq_iff)
qed

end

subsection \<open>Properties\<close>

text \<open>Time arithmetic is consistent in both builds: whenever \<open>u - t\<close> yields a duration,
  adding it to \<open>t\<close> yields \<open>u\<close>, and taking it away from \<open>u\<close> again yields \<open>t\<close>, for all 64-bit
  times, including those whose difference wraps around.\<close>

lemma ros_time_difference_undone:
  assumes "i64_ok (rt_nanos_since_epoch t)" and "i64_ok (rt_nanos_since_epoch u)"
    and "ros_time_sub mode u t = Some d"
  shows "ros_time_add mode t d = Some u \<and> ros_time_sub_duration mode u d = Some t"
proof -
  let ?t = "rt_nanos_since_epoch t" and ?u = "rt_nanos_since_epoch u"
  have d: "signed_result mode 64 (?u - ?t) = Some (rd_diff d)"
    using assms(3) by (auto simp: ros_time_sub_def)
  have "signed_result mode 64 (?t + rd_diff d) = Some ?u"
    by (rule signed_result_undo [OF _ assms(2) d]) simp
  moreover have "signed_result mode 64 (?u - rd_diff d) = Some ?t"
  proof (cases mode)
    case Checked
    with d have "?u - rd_diff d = ?t" by (auto simp: signed_result_Checked split: if_splits)
    with assms(1) show ?thesis by simp
  next
    case Wrapping
    with d have "rd_diff d = wrap_signed 64 (?u - ?t)" by (simp add: signed_result_Wrapping)
    with Wrapping assms(1) show ?thesis by (simp add: signed_result_Wrapping wrap_signed_diff)
  qed
  ultimately show ?thesis by (simp add: ros_time_add_def ros_time_sub_duration_def ros_time_from_nanos_def)
qed

theorem ros_time_difference_undone_witness:
  "ros_time_add Wrapping (ros_time_from_nanos (- 9223372036854775808))
     \<lparr>rd_diff = -1\<rparr> = Some (ros_time_from_nanos 9223372036854775807)"
proof -
  let ?t = "ros_time_from_nanos (- 9223372036854775808)" and ?u = "ros_time_from_nanos 9223372036854775807"
  have "ros_time_sub Wrapping ?u ?t = Some \<lparr>rd_diff = -1\<rparr>"
    by (simp add: ros_time_sub_def ros_time_from_nanos_def signed_result_Wrapping wrap_signed_def)
  then show ?thesis
    using ros_time_difference_undone [of ?t ?u Wrapping] by (simp add: ros_time_from_nanos_def range_simps)
qed

text \<open>C40. Converting a DDS timestamp never overflows, in either build: every tick count of 64
  bits gives the number of whole nanoseconds it stands for, a non-negative 64-bit integer.\<close>

theorem ros_time_from_timestamp_exact:
  assumes "u64_ok (to_ticks ts)" and "ts \<noteq> INVALID" and "ts \<noteq> INFINITE"
  shows "\<exists>n. ros_time_from_timestamp mode INVALID INFINITE to_ticks ts = Ok \<lparr>rt_nanos_since_epoch = n\<rparr>
    \<and> n = to_ticks ts * 1000000000 div 2 ^ 32 \<and> 0 \<le> n \<and> i64_ok n"
proof -
  define k where "k = to_ticks ts"
  define s where "s = k div 2 ^ 32"
  define f where "f = k mod 2 ^ 32"
  have k: "0 \<le> k" "k \<le> 18446744073709551615" using assms(1) by (simp_all add: k_def range_simps)
  have s: "0 \<le> s" "s \<le> 4294967295" using k by (simp_all add: s_def)
  have f: "0 \<le> f" "f < 4294967296" by (simp_all add: f_def)
  have kf: "k = s * 4294967296 + f" by (simp add: s_def f_def)
  have w: "(s * 2 ^ 32) mod 2 ^ 64 = s * 4294967296" using s by simp
  let ?p = "f * 1000000000 div 4294967296"
  have p: "0 \<le> ?p" "?p < 1000000000" using f by simp_all
  have n: "k * 1000000000 div 2 ^ 32 = s * 1000000000 + ?p"
  proof -
    have "k * 1000000000 = f * 1000000000 + (s * 1000000000) * 4294967296" using kf by simp
    then show ?thesis by simp
  qed
  have ok: "u64_ok f" "u64_ok (f * 1000000000)" "u64_ok (s * 1000000000)" "u64_ok (s * 1000000000 + ?p)"
    "i64_ok (s * 1000000000 + ?p)"
    using s f p by (simp_all add: range_simps)
  have "k - (s * 2 ^ 32) mod 2 ^ 64 = f" using w kf by simp
  with ok have e: "u64_result mode (k - (s * 2 ^ 32) mod 2 ^ 64) = Some f"
    "u64_result mode (f * 1000000000) = Some (f * 1000000000)"
    "u64_result mode (s * 1000000000) = Some (s * 1000000000)"
    "u64_result mode (s * 1000000000 + f * 1000000000 div 2 ^ 32) = Some (s * 1000000000 + ?p)"
    "wrap_signed 64 (s * 1000000000 + ?p) = s * 1000000000 + ?p"
    by simp_all
  have "ros_time_from_timestamp mode INVALID INFINITE to_ticks ts = Ok \<lparr>rt_nanos_since_epoch = s * 1000000000 + ?p\<rparr>"
    using assms(2,3) unfolding ros_time_from_timestamp_def Let_def
    by (simp only: k_def [symmetric] s_def [symmetric] e if_False and_then.simps ok_or.simps ros_time_from_nanos_def)
  then show ?thesis using n ok p s by (simp add: k_def)
qed

theorem ros_time_from_timestamp_exact_witness:
  "ros_time_from_timestamp Checked 0 (2 ^ 64 - 1) id (18446744073709551614 :: int) =
     Ok \<lparr>rt_nanos_since_epoch = 4294967295999999999\<rparr>"
  using ros_time_from_timestamp_exact [of id "18446744073709551614 :: int" 0 "2 ^ 64 - 1" Checked]
  by (simp add: range_simps)

text \<open>The operators on steady time are exchanged: adding the difference of two instants to
  the first moves away from the second by that difference, and it is subtracting it that arrives
  there.\<close>

lemma steady_operators_exchanged:
  assumes "instant_ok (st_instant t)" and "instant_ok (st_instant u)"
  shows "steady_sub_diff t (steady_sub u t) = Some u
    \<and> (steady_add_diff t (steady_sub u t) = Some v \<longrightarrow> st_instant v - st_instant t = st_instant t - st_instant u)"
  using assms by (auto simp: steady_sub_diff_value steady_add_diff_value steady_sub_value)

theorem steady_operators_exchanged_witness:
  "steady_sub_diff \<lparr>st_instant = 100\<rparr> (steady_sub \<lparr>st_instant = 130\<rparr> \<lparr>st_instant = 100\<rparr>) = Some \<lparr>st_instant = 130\<rparr>
   \<and> steady_add_diff \<lparr>st_instant = 100\<rparr> (steady_sub \<lparr>st_instant = 130\<rparr> \<lparr>st_instant = 100\<rparr>) = Some \<lparr>st_instant = 70\<rparr>"
proof
  have "instant_ok 100" "instant_ok 130" "instant_ok 70" by (simp_all add: instant_ok_def range_simps)
  then show "steady_sub_diff \<lparr>st_instant = 100\<rparr> (steady_sub \<lparr>st_instant = 130\<rparr> \<lparr>st_instant = 100\<rparr>) = Some \<lparr>st_instant = 130\<rparr>"
    and "steady_add_diff \<lparr>st_instant = 100\<rparr> (steady_sub \<lparr>st_instant = 130\<rparr> \<lparr>st_instant = 100\<rparr>) = Some \<lparr>st_instant = 70\<rparr>"
    using steady_operators_exchanged [of "\<lparr>st_instant = 100\<rparr>" "\<lparr>st_instant = 130\<rparr>"]
    by (simp_all add: steady_add_diff_value steady_sub_value)
qed

text \<open>The order of time differences is the order of the signed nanosecond counts they stand
  for, for all differences the module builds.\<close>

lemma time_diff_order_exact:
  assumes "time_diff_ok a" and "time_diff_ok b"
  shows "a \<le> b \<longleftrightarrow> time_diff_value a \<le> time_diff_value b"
proof -
  have pos: "td_is_negative d \<Longrightarrow> time_diff_ok d \<Longrightarrow> 0 < duration_as_nanos (td_duration d)" for d
    by (auto simp: time_diff_ok_def duration_as_nanos_def duration_zero_def intro!: Nat.gr0I)
  show ?thesis
    using assms pos [of a] pos [of b] unfolding less_eq_time_diff_def time_diff_cmp_def time_diff_ok_def
    by (auto simp: duration_cmp_nanos time_diff_value_def compare_with_def)
qed

theorem time_diff_order_exact_witness:
  "TimeDiff (duration_from_nanos 5) True \<le> TimeDiff (duration_from_nanos 2) True
   \<and> \<not> TimeDiff (duration_from_nanos 2) True \<le> TimeDiff (duration_from_nanos 5) True"
proof -
  have "time_diff_ok (TimeDiff (duration_from_nanos 5) True)" "time_diff_ok (TimeDiff (duration_from_nanos 2) True)"
    by (simp_all add: time_diff_ok_def duration_ok_def duration_from_nanos_def duration_zero_def)
  then show ?thesis
    using time_diff_order_exact by (simp add: time_diff_value_def)
qed

text \<open>Sums of time differences within 64 bits are exact.\<close>

lemma time_diff_add_exact:
  assumes "\<bar>time_diff_value a\<bar> \<le> i64_max" and "\<bar>time_diff_value b\<bar> \<le> i64_max"
    and "\<bar>time_diff_value a + time_diff_value b\<bar> \<le> i64_max"
  shows "\<exists>d. time_diff_add mode a b = Some d \<and> time_diff_value d = time_diff_value a + time_diff_value b"
proof -
  have ok: "i64_ok (time_diff_value a + time_diff_value b)"
    using assms(3) by (auto simp: range_simps)
  obtain d where "time_diff_from_nanos mode (time_diff_value a + time_diff_value b) = Some d"
    "time_diff_value d = time_diff_value a + time_diff_value b"
    using time_diff_from_nanos_value [OF ok, of mode] assms(3) by fastforce
  with ok show ?thesis by (simp add: time_diff_add_def time_diff_as_nanos_value assms)
qed

theorem time_diff_add_exact_witness:
  "\<exists>d. time_diff_add Checked (TimeDiff (duration_from_nanos 5) True) (TimeDiff (duration_from_nanos 2) False) = Some d
     \<and> time_diff_value d = -3"
  using time_diff_add_exact [of "TimeDiff (duration_from_nanos 5) True" "TimeDiff (duration_from_nanos 2) False" Checked]
  by (simp add: time_diff_value_def)

text \<open>The wire form of a time is the pair of whole seconds (rounded down) and nanoseconds
  below one second whenever the seconds fit 32 bits, before and after the epoch, and converting
  back gives the time.\<close>

lemma repr_time_round_trip:
  assumes "i32_ok (bt_nanos_since_epoch t div 1000000000)"
  shows "repr_time_from mode t = Some \<lparr>rp_sec = bt_nanos_since_epoch t div 1000000000,
      rp_nanosec = bt_nanos_since_epoch t mod 1000000000\<rparr>
    \<and> map_option bi_time_from_repr (repr_time_from mode t) = Some t"
proof -
  define n where "n = bt_nanos_since_epoch t"
  let ?B = "1000000000 :: int"
  have ok: "i32_ok (n div ?B)" using assms by (simp add: n_def)
  have u: "u32_ok (n mod ?B)" by (simp add: range_simps)
  have "repr_time_from mode t = Some \<lparr>rp_sec = n div ?B, rp_nanosec = n mod ?B\<rparr>"
  proof (cases "trunc_rem n ?B \<ge> 0")
    case True
    with ok u trunc_rem_pos_floor [of ?B n] show ?thesis
      by (simp add: repr_time_from_def Let_def range_simps flip: n_def)
  next
    case False
    then have q: "n < 0" "trunc_div n ?B = n div ?B + 1" "trunc_rem n ?B = n mod ?B - ?B"
      using trunc_rem_neg_floor [of ?B n] by simp_all
    then have "n div ?B + 1 \<le> 0" by (simp add: div_neg_pos_less0)
    then have r: "i32_ok (n div ?B + 1)" using ok by (simp add: range_simps)
    with False q ok u show ?thesis
      by (simp add: repr_time_from_def Let_def flip: n_def) (simp add: range_simps)
  qed
  then show ?thesis by (simp add: bi_time_from_repr_def flip: n_def)
qed

lemma repr_time_round_trip_witness:
  "repr_time_from Checked \<lparr>bt_nanos_since_epoch = -1\<rparr> = Some \<lparr>rp_sec = -1, rp_nanosec = 999999999\<rparr>
   \<and> bi_time_from_repr \<lparr>rp_sec = -1, rp_nanosec = 999999999\<rparr> = \<lparr>bt_nanos_since_epoch = -1\<rparr>"
  using repr_time_round_trip [of "\<lparr>bt_nanos_since_epoch = -1\<rparr>" Checked] by (auto simp: range_simps)

text \<open>Below the range of the wire form the conversion does not saturate: at a fraction of a
  second before or below \<open>i32::MIN\<close> whole seconds the final decrement overflows, a panic with
  overflow checks and the largest number of seconds, far in the future, without.\<close>

lemma repr_time_underflow:
  assumes "bt_nanos_since_epoch t < i32_min * 1000000000" and "bt_nanos_since_epoch t mod 1000000000 \<noteq> 0"
  shows "repr_time_from Checked t = None
    \<and> map_option rp_sec (repr_time_from Wrapping t) = Some i32_max"
proof -
  let ?n = "bt_nanos_since_epoch t" and ?B = "1000000000 :: int"
  have neg: "trunc_rem ?n ?B < 0"
  proof (rule ccontr)
    assume "\<not> trunc_rem ?n ?B < 0"
    then have "trunc_rem ?n ?B = ?n mod ?B" "trunc_div ?n ?B = ?n div ?B"
      using trunc_rem_pos_floor [of ?B ?n] by simp_all
    moreover have "trunc_rem ?n ?B \<le> 0" using assms(1) by (simp add: trunc_rem_neg)
    ultimately show False using assms(2) pos_mod_sign [of ?B ?n] by simp
  qed
  then have q: "trunc_div ?n ?B = ?n div ?B + 1" using trunc_rem_neg_floor [of ?B ?n] by simp
  have "?n div ?B < i32_min" using assms(1) by simp
  with q have "trunc_div ?n ?B \<le> i32_min" by linarith
  with neg show ?thesis
    by (auto simp: repr_time_from_def Let_def signed_result_def range_simps wrap_signed_def)
qed

theorem repr_time_underflow_witness:
  "repr_time_from Checked \<lparr>bt_nanos_since_epoch = - 2147483648000000001\<rparr> = None"
  using repr_time_underflow [of "\<lparr>bt_nanos_since_epoch = - 2147483648000000001\<rparr>"] by simp

text \<open>A duration on the wire keeps every non-negative value and every negative whole number
  of seconds in range, but any other negative duration comes out two seconds late: the code adds
  one to the truncated quotient where the rounding needs one subtracted.\<close>

lemma bi_duration_from_nanos_value:
  assumes "i32_min * 1000000000 < n" and "n < (i32_max + 1) * 1000000000"
  shows "bi_duration_to_nanos (bi_duration_from_nanos n) =
    (if 0 \<le> n \<or> n mod 1000000000 = 0 then n else n + 2000000000)"
proof -
  let ?B = "1000000000 :: int"
  have dm: "?B * (n div ?B) + n mod ?B = n" by simp
  have u: "u32_ok (n mod ?B)" by (simp add: range_simps)
  have lo: "i32_min \<le> n div ?B" "n div ?B \<le> i32_max" using assms by simp_all
  show ?thesis
  proof (cases "trunc_rem n ?B \<ge> 0")
    case True
    then have q: "trunc_div n ?B = n div ?B" "trunc_rem n ?B = n mod ?B"
      using trunc_rem_pos_floor [of ?B n] by simp_all
    have "0 \<le> n \<or> n mod ?B = 0"
      using True trunc_rem_neg [of n ?B] q by (cases "0 \<le> n") (auto simp: zmod_zminus1_eq_if split: if_splits)
    moreover have "i32_min < n div ?B \<or> n mod ?B \<noteq> 0"
      using assms(1) dm lo by auto
    ultimately show ?thesis
      using True q lo u dm by (auto simp: bi_duration_from_nanos_def bi_duration_to_nanos_def Let_def range_simps)
  next
    case False
    then have q: "n < 0" "trunc_div n ?B = n div ?B + 1" "trunc_rem n ?B = n mod ?B - ?B" "n mod ?B \<noteq> 0"
      using trunc_rem_neg_floor [of ?B n] by auto
    then have "n div ?B + 1 \<le> 0" by (simp add: div_neg_pos_less0)
    then have "i32_ok (n div ?B + 1 + 1)" using lo by (simp add: range_simps)
    with False q lo u dm show ?thesis
      by (simp add: bi_duration_from_nanos_def bi_duration_to_nanos_def Let_def)
  qed
qed

theorem bi_duration_from_nanos_value_witness:
  "bi_duration_to_nanos (bi_duration_from_nanos (-1)) = 1999999999
   \<and> bi_duration_to_nanos (bi_duration_from_nanos 1500000000) = 1500000000"
  using bi_duration_from_nanos_value [of "-1"] bi_duration_from_nanos_value [of 1500000000] by simp

end
