(* ===== verification/Action_Msgs.thy ===== *)
theory Action_Msgs
  imports Ros_Times
begin

text \<open>
  The messages both backends' actions share (\<open>action_msgs.rs\<close>, \<open>action.rs\<close>,
  \<open>unique_identifier_msgs.rs\<close>). A goal id is the 128 bits of its UUID, ordered as the bytes are. The
  wire encoding is derived by serde.
\<close>

type_synonym goal_id = "128 word"

definition GOAL_ID_ZERO :: goal_id where "GOAL_ID_ZERO = 0"
definition BI_TIME_ZERO :: bi_time where "BI_TIME_ZERO = \<lparr>bt_nanos_since_epoch = 0\<rparr>"

record goal_info =
  gi_goal_id :: goal_id
  gi_stamp :: bi_time

datatype goal_status_enum = Unknown | Accepted | Executing | Canceling | Succeeded | Canceled | Aborted

fun goal_status_repr :: "goal_status_enum \<Rightarrow> int" where
  "goal_status_repr Unknown = 0"
| "goal_status_repr Accepted = 1"
| "goal_status_repr Executing = 2"
| "goal_status_repr Canceling = 3"
| "goal_status_repr Succeeded = 4"
| "goal_status_repr Canceled = 5"
| "goal_status_repr Aborted = 6"

record goal_status =
  gs_goal_info :: goal_info
  gs_status :: goal_status_enum

datatype cancel_response_enum = CancelNone | Rejected | UnknownGoal | GoalTerminated

fun cancel_response_repr :: "cancel_response_enum \<Rightarrow> int" where
  "cancel_response_repr CancelNone = 0"
| "cancel_response_repr Rejected = 1"
| "cancel_response_repr UnknownGoal = 2"
| "cancel_response_repr GoalTerminated = 3"

record cancel_goal_response =
  cg_return_code :: cancel_response_enum
  cg_goals_canceling :: "goal_info list"

record send_goal_response =
  sr_accepted :: bool
  sr_stamp :: bi_time

record 'g send_goal_request =
  sg_goal_id :: goal_id
  sg_goal :: 'g

lemma goal_status_repr_inj: "goal_status_repr a = goal_status_repr b \<longleftrightarrow> a = b"
  by (cases a; cases b) simp_all

end
