(* ===== verification/Zenoh_Action.thy ===== *)
theory Zenoh_Action
  imports Zenoh_Service Action_Msgs
begin

text \<open>
  Actions of the Zenoh backend (\<open>zenoh_backend/action.rs\<close>): an action client, an action server and a
  raw action server, each a bundle of service and topic endpoints. The CDR codecs of the eight
  message types are a record of parameters, \<open>action_codecs\<close>.
\<close>

subsection \<open>Messages\<close>

definition goal_status_EXECUTING :: int where "goal_status_EXECUTING = 2"
definition goal_status_SUCCEEDED :: int where "goal_status_SUCCEEDED = 4"
definition goal_status_ABORTED :: int where "goal_status_ABORTED = 5"
definition goal_status_CANCELED :: int where "goal_status_CANCELED = 6"

record 'r get_result_response =
  gr_status :: int
  gr_result :: 'r

record 'f feedback_message =
  fb_goal_id :: goal_id
  fb_feedback :: 'f

record ('g, 'r, 'f) action_codecs =
  send_goal_cdr :: "'g send_goal_request cdr_encoding"
  goal_response_cdr :: "send_goal_response cdr_encoding"
  result_request_cdr :: "goal_id cdr_encoding"
  result_response_cdr :: "'r get_result_response cdr_encoding"
  feedback_cdr :: "'f feedback_message cdr_encoding"
  cancel_request_cdr :: "goal_info cdr_encoding"
  cancel_response_cdr :: "cancel_goal_response cdr_encoding"
  status_cdr :: "goal_status list cdr_encoding"

subsection \<open>The action client\<close>

record zenoh_action_client =
  ac_send_goal :: zenoh_client
  ac_get_result :: zenoh_client
  ac_feedback :: zenoh_subscription
  ac_cancel_goal :: zenoh_client
  ac_status :: zenoh_subscription

text \<open>The random goal id and the clock are arguments.\<close>

definition client_send_goal :: "overflow_mode \<Rightarrow> zserde \<Rightarrow> ('g, 'r, 'f) action_codecs \<Rightarrow>
    (zenoh_get \<Rightarrow> zenoh_reply list option) \<Rightarrow> duration option \<Rightarrow> goal_id \<Rightarrow> 'g \<Rightarrow> zenoh_action_client \<Rightarrow>
    (service_error + (goal_id \<times> bool)) \<times> zenoh_action_client" where
  "client_send_goal mode z cs get now goal_id goal ac =
     (let (r, c) = client_call mode z (send_goal_cdr cs) (goal_response_cdr cs) get now
            \<lparr>sg_goal_id = goal_id, sg_goal = goal\<rparr> (ac_send_goal ac)
      in (and_then r (\<lambda>resp. Ok (goal_id, sr_accepted resp)), ac\<lparr>ac_send_goal := c\<rparr>))"

definition client_get_result :: "overflow_mode \<Rightarrow> zserde \<Rightarrow> ('g, 'r, 'f) action_codecs \<Rightarrow>
    (zenoh_get \<Rightarrow> zenoh_reply list option) \<Rightarrow> duration option \<Rightarrow> goal_id \<Rightarrow> zenoh_action_client \<Rightarrow>
    (service_error + (int \<times> 'r)) \<times> zenoh_action_client" where
  "client_get_result mode z cs get now goal_id ac =
     (let (r, c) = client_call mode z (result_request_cdr cs) (result_response_cdr cs) get now goal_id (ac_get_result ac)
      in (and_then r (\<lambda>resp. Ok (gr_status resp, gr_result resp)), ac\<lparr>ac_get_result := c\<rparr>))"

definition take_feedback :: "zserde \<Rightarrow> ('g, 'r, 'f) action_codecs \<Rightarrow> zenoh_sample try_recv \<Rightarrow> (goal_id \<times> 'f) option" where
  "take_feedback z cs recv =
     (case try_take z (feedback_cdr cs) recv of
        Inr (Some (msg, _)) \<Rightarrow> Some (fb_goal_id msg, fb_feedback msg)
      | _ \<Rightarrow> None)"

definition client_cancel :: "overflow_mode \<Rightarrow> zserde \<Rightarrow> ('g, 'r, 'f) action_codecs \<Rightarrow>
    (zenoh_get \<Rightarrow> zenoh_reply list option) \<Rightarrow> duration option \<Rightarrow> goal_id \<Rightarrow> zenoh_action_client \<Rightarrow>
    (service_error + cancel_goal_response) \<times> zenoh_action_client" where
  "client_cancel mode z cs get now goal_id ac =
     (let (r, c) = client_call mode z (cancel_request_cdr cs) (cancel_response_cdr cs) get now
            \<lparr>gi_goal_id = goal_id, gi_stamp = BI_TIME_ZERO\<rparr> (ac_cancel_goal ac)
      in (r, ac\<lparr>ac_cancel_goal := c\<rparr>))"

definition client_cancel_all_goals :: "overflow_mode \<Rightarrow> zserde \<Rightarrow> ('g, 'r, 'f) action_codecs \<Rightarrow>
    (zenoh_get \<Rightarrow> zenoh_reply list option) \<Rightarrow> duration option \<Rightarrow> zenoh_action_client \<Rightarrow>
    (service_error + cancel_goal_response) \<times> zenoh_action_client" where
  "client_cancel_all_goals mode z cs get now ac =
     (let (r, c) = client_call mode z (cancel_request_cdr cs) (cancel_response_cdr cs) get now
            \<lparr>gi_goal_id = GOAL_ID_ZERO, gi_stamp = BI_TIME_ZERO\<rparr> (ac_cancel_goal ac)
      in (r, ac\<lparr>ac_cancel_goal := c\<rparr>))"

definition take_status :: "zserde \<Rightarrow> ('g, 'r, 'f) action_codecs \<Rightarrow> zenoh_sample try_recv \<Rightarrow> goal_status list option" where
  "take_status z cs recv =
     (case try_take z (status_cdr cs) recv of Inr (Some (msg, _)) \<Rightarrow> Some msg | _ \<Rightarrow> None)"

subsection \<open>The action server\<close>

record zenoh_action_server =
  as_send_goal :: zenoh_server
  as_get_result :: zenoh_server
  as_feedback :: zenoh_publisher
  as_cancel_goal :: zenoh_server
  as_status :: zenoh_publisher

definition try_receive_goal :: "zserde \<Rightarrow> ('g, 'r, 'f) action_codecs \<Rightarrow> zenoh_query try_recv \<Rightarrow> zenoh_action_server \<Rightarrow>
    (zenoh_request_id \<times> goal_id \<times> 'g) option \<times> zenoh_action_server" where
  "try_receive_goal z cs recv a =
     (let (r, s) = try_receive_request (server_accept z (send_goal_cdr cs)) recv (as_send_goal a)
      in (case r of Inr (Some (i, req)) \<Rightarrow> Some (i, sg_goal_id req, sg_goal req) | _ \<Rightarrow> None, a\<lparr>as_send_goal := s\<rparr>))"

definition respond_goal :: "zserde \<Rightarrow> ('g, 'r, 'f) action_codecs \<Rightarrow> (zenoh_sample \<Rightarrow> bool) \<Rightarrow> duration option \<Rightarrow>
    zenoh_request_id \<Rightarrow> bool \<Rightarrow> zenoh_action_server \<Rightarrow> (service_error + unit) \<times> zenoh_action_server" where
  "respond_goal z cs reply_ok now i accepted a =
     (let (r, s) = server_send_response z (goal_response_cdr cs) reply_ok now i
            \<lparr>sr_accepted = accepted, sr_stamp = BI_TIME_ZERO\<rparr> (as_send_goal a)
      in (r, a\<lparr>as_send_goal := s\<rparr>))"

definition zenoh_publish_feedback :: "overflow_mode \<Rightarrow> zserde \<Rightarrow> ('g, 'r, 'f) action_codecs \<Rightarrow> (zenoh_sample \<Rightarrow> bool) \<Rightarrow>
    duration option \<Rightarrow> goal_id \<Rightarrow> 'f \<Rightarrow> zenoh_action_server \<Rightarrow> (publish_error + unit) \<times> zenoh_action_server" where
  "zenoh_publish_feedback mode z cs put_ok now goal_id feedback a =
     (let (r, p) = publish mode z (feedback_cdr cs) put_ok now \<lparr>fb_goal_id = goal_id, fb_feedback = feedback\<rparr> (as_feedback a)
      in (r, a\<lparr>as_feedback := p\<rparr>))"

definition try_receive_result_request :: "zserde \<Rightarrow> ('g, 'r, 'f) action_codecs \<Rightarrow> zenoh_query try_recv \<Rightarrow>
    zenoh_action_server \<Rightarrow> (zenoh_request_id \<times> goal_id) option \<times> zenoh_action_server" where
  "try_receive_result_request z cs recv a =
     (let (r, s) = try_receive_request (server_accept z (result_request_cdr cs)) recv (as_get_result a)
      in (case r of Inr (Some (i, goal_id)) \<Rightarrow> Some (i, goal_id) | _ \<Rightarrow> None, a\<lparr>as_get_result := s\<rparr>))"

definition respond_result :: "zserde \<Rightarrow> ('g, 'r, 'f) action_codecs \<Rightarrow> (zenoh_sample \<Rightarrow> bool) \<Rightarrow> duration option \<Rightarrow>
    zenoh_request_id \<Rightarrow> int \<Rightarrow> 'r \<Rightarrow> zenoh_action_server \<Rightarrow> (service_error + unit) \<times> zenoh_action_server" where
  "respond_result z cs reply_ok now i status result a =
     (let (r, s) = server_send_response z (result_response_cdr cs) reply_ok now i
            \<lparr>gr_status = status, gr_result = result\<rparr> (as_get_result a)
      in (r, a\<lparr>as_get_result := s\<rparr>))"

definition try_receive_cancel :: "zserde \<Rightarrow> ('g, 'r, 'f) action_codecs \<Rightarrow> zenoh_query try_recv \<Rightarrow>
    zenoh_action_server \<Rightarrow> (zenoh_request_id \<times> goal_id) option \<times> zenoh_action_server" where
  "try_receive_cancel z cs recv a =
     (let (r, s) = try_receive_request (server_accept z (cancel_request_cdr cs)) recv (as_cancel_goal a)
      in (case r of Inr (Some (i, info)) \<Rightarrow> Some (i, gi_goal_id info) | _ \<Rightarrow> None, a\<lparr>as_cancel_goal := s\<rparr>))"

definition respond_cancel :: "zserde \<Rightarrow> ('g, 'r, 'f) action_codecs \<Rightarrow> (zenoh_sample \<Rightarrow> bool) \<Rightarrow> duration option \<Rightarrow>
    zenoh_request_id \<Rightarrow> cancel_response_enum \<Rightarrow> goal_info list \<Rightarrow> zenoh_action_server \<Rightarrow>
    (service_error + unit) \<times> zenoh_action_server" where
  "respond_cancel z cs reply_ok now i code goals_canceling a =
     (let (r, s) = server_send_response z (cancel_response_cdr cs) reply_ok now i
            \<lparr>cg_return_code = code, cg_goals_canceling = goals_canceling\<rparr> (as_cancel_goal a)
      in (r, a\<lparr>as_cancel_goal := s\<rparr>))"

definition publish_status :: "overflow_mode \<Rightarrow> zserde \<Rightarrow> ('g, 'r, 'f) action_codecs \<Rightarrow> (zenoh_sample \<Rightarrow> bool) \<Rightarrow>
    duration option \<Rightarrow> goal_status list \<Rightarrow> zenoh_action_server \<Rightarrow> (publish_error + unit) \<times> zenoh_action_server" where
  "publish_status mode z cs put_ok now status_list a =
     (let (r, p) = publish mode z (status_cdr cs) put_ok now status_list (as_status a)
      in (r, a\<lparr>as_status := p\<rparr>))"

subsection \<open>The raw action server\<close>

record zenoh_raw_action_server =
  ra_send_goal :: zenoh_server
  ra_get_result :: zenoh_server
  ra_feedback :: raw_publisher
  ra_cancel_goal :: zenoh_server
  ra_status :: zenoh_publisher

definition receive_goal_request :: "zserde \<Rightarrow> zenoh_query option list \<Rightarrow> zenoh_raw_action_server \<Rightarrow>
    (service_error + (zenoh_request_id \<times> byte list)) poll \<times> zenoh_raw_action_server \<times> zenoh_query option list" where
  "receive_goal_request z queries a =
     (let (r, s, rest) = async_receive_request (raw_accept z) queries (ra_send_goal a)
      in (r, a\<lparr>ra_send_goal := s\<rparr>, rest))"

definition try_receive_goal_request :: "zserde \<Rightarrow> zenoh_query try_recv \<Rightarrow> zenoh_raw_action_server \<Rightarrow>
    (zenoh_request_id \<times> byte list) option \<times> zenoh_raw_action_server" where
  "try_receive_goal_request z recv a =
     (let (r, s) = try_receive_request (raw_accept z) recv (ra_send_goal a)
      in (case r of Inr x \<Rightarrow> x | Inl _ \<Rightarrow> None, a\<lparr>ra_send_goal := s\<rparr>))"

definition raw_respond_goal :: "zserde \<Rightarrow> send_goal_response cdr_encoding \<Rightarrow> (zenoh_sample \<Rightarrow> bool) \<Rightarrow> duration option \<Rightarrow>
    zenoh_request_id \<Rightarrow> bool \<Rightarrow> bi_time \<Rightarrow> zenoh_raw_action_server \<Rightarrow> (service_error + unit) \<times> zenoh_raw_action_server" where
  "raw_respond_goal z cdr reply_ok now i accepted stamp a =
     (case to_cdr cdr \<lparr>sr_accepted = accepted, sr_stamp = stamp\<rparr> of
        Inl e \<Rightarrow> (Err (SvcCdr e), a)
      | Inr response \<Rightarrow>
          (let (r, s) = raw_send_response z reply_ok now i response (ra_send_goal a)
           in (r, a\<lparr>ra_send_goal := s\<rparr>)))"

definition raw_receive_cancel_request :: "zserde \<Rightarrow> goal_info cdr_encoding \<Rightarrow> zenoh_query option list \<Rightarrow>
    zenoh_raw_action_server \<Rightarrow>
    (service_error + (zenoh_request_id \<times> goal_info)) poll \<times> zenoh_raw_action_server \<times> zenoh_query option list" where
  "raw_receive_cancel_request z cdr queries a =
     (let (r, s, rest) = async_receive_request (server_accept z cdr) queries (ra_cancel_goal a)
      in (r, a\<lparr>ra_cancel_goal := s\<rparr>, rest))"

definition raw_try_receive_cancel_request :: "zserde \<Rightarrow> goal_info cdr_encoding \<Rightarrow> zenoh_query try_recv \<Rightarrow>
    zenoh_raw_action_server \<Rightarrow> (zenoh_request_id \<times> goal_info) option \<times> zenoh_raw_action_server" where
  "raw_try_receive_cancel_request z cdr recv a =
     (let (r, s) = try_receive_request (server_accept z cdr) recv (ra_cancel_goal a)
      in (case r of Inr x \<Rightarrow> x | Inl _ \<Rightarrow> None, a\<lparr>ra_cancel_goal := s\<rparr>))"

definition raw_respond_cancel :: "zserde \<Rightarrow> cancel_goal_response cdr_encoding \<Rightarrow> (zenoh_sample \<Rightarrow> bool) \<Rightarrow> duration option \<Rightarrow>
    zenoh_request_id \<Rightarrow> cancel_goal_response \<Rightarrow> zenoh_raw_action_server \<Rightarrow> (service_error + unit) \<times> zenoh_raw_action_server" where
  "raw_respond_cancel z cdr reply_ok now i response a =
     (let (r, s) = server_send_response z cdr reply_ok now i response (ra_cancel_goal a)
      in (r, a\<lparr>ra_cancel_goal := s\<rparr>))"

definition raw_receive_result_request :: "zserde \<Rightarrow> goal_id cdr_encoding \<Rightarrow> zenoh_query option list \<Rightarrow>
    zenoh_raw_action_server \<Rightarrow>
    (service_error + (zenoh_request_id \<times> goal_id)) poll \<times> zenoh_raw_action_server \<times> zenoh_query option list" where
  "raw_receive_result_request z cdr queries a =
     (let (r, s, rest) = async_receive_request (raw_accept z) queries (ra_get_result a)
      in (poll_map (\<lambda>r. and_then r (\<lambda>(i, bytes).
            case from_cdr cdr bytes of Inl e \<Rightarrow> Err (SvcCdr e) | Inr goal_id \<Rightarrow> Ok (i, goal_id))) r,
          a\<lparr>ra_get_result := s\<rparr>, rest))"

definition raw_try_receive_result_request :: "zserde \<Rightarrow> goal_id cdr_encoding \<Rightarrow> zenoh_query try_recv \<Rightarrow>
    zenoh_raw_action_server \<Rightarrow> (zenoh_request_id \<times> goal_id) option \<times> zenoh_raw_action_server" where
  "raw_try_receive_result_request z cdr recv a =
     (let (r, s) = try_receive_request (raw_accept z) recv (ra_get_result a)
      in (case r of
            Inr (Some (i, bytes)) \<Rightarrow>
              (case from_cdr cdr bytes of Inr goal_id \<Rightarrow> Some (i, goal_id) | Inl _ \<Rightarrow> None)
          | _ \<Rightarrow> None, a\<lparr>ra_get_result := s\<rparr>))"

definition respond_result_raw :: "zserde \<Rightarrow> (zenoh_sample \<Rightarrow> bool) \<Rightarrow> duration option \<Rightarrow>
    zenoh_request_id \<Rightarrow> byte list \<Rightarrow> zenoh_raw_action_server \<Rightarrow> (service_error + unit) \<times> zenoh_raw_action_server" where
  "respond_result_raw z reply_ok now i cdr_response a =
     (let (r, s) = raw_send_response z reply_ok now i cdr_response (ra_get_result a)
      in (r, a\<lparr>ra_get_result := s\<rparr>))"

definition publish_feedback_raw :: "overflow_mode \<Rightarrow> zserde \<Rightarrow> (zenoh_sample \<Rightarrow> bool) \<Rightarrow> duration option \<Rightarrow>
    byte list \<Rightarrow> zenoh_raw_action_server \<Rightarrow> (publish_error + unit) \<times> zenoh_raw_action_server" where
  "publish_feedback_raw mode z put_ok now cdr_message a =
     (let (r, p) = raw_publisher_publish mode z put_ok now cdr_message (ra_feedback a)
      in (r, a\<lparr>ra_feedback := p\<rparr>))"

definition raw_publish_statuses :: "overflow_mode \<Rightarrow> zserde \<Rightarrow> goal_status list cdr_encoding \<Rightarrow> (zenoh_sample \<Rightarrow> bool) \<Rightarrow>
    duration option \<Rightarrow> goal_status list \<Rightarrow> zenoh_raw_action_server \<Rightarrow> (publish_error + unit) \<times> zenoh_raw_action_server" where
  "raw_publish_statuses mode z cdr put_ok now statuses a =
     (let (r, p) = publish mode z cdr put_ok now statuses (ra_status a)
      in (r, a\<lparr>ra_status := p\<rparr>))"

subsection \<open>Raw and typed servers\<close>

text \<open>The typed server a raw one stands for.\<close>

definition typed_view :: "zenoh_raw_action_server \<Rightarrow> zenoh_action_server" where
  "typed_view a = \<lparr>as_send_goal = ra_send_goal a, as_get_result = ra_get_result a, as_feedback = rp_inner (ra_feedback a),
     as_cancel_goal = ra_cancel_goal a, as_status = ra_status a\<rparr>"

lemma send_response_raw_equiv:
  "to_cdr cdr resp = Ok b \<Longrightarrow> server_send_response z cdr reply_ok now i resp s = raw_send_response z reply_ok now i b s"
  by (simp add: server_send_response_def raw_send_response_def Let_def split: option.split)

lemma raw_publisher_inner:
  "map_prod id rp_inner (raw_publisher_publish mode z put_ok now b rp) = publish_raw mode z put_ok now b (rp_inner rp)"
  by (cases "next_attachment mode z now (rp_inner rp)")
    (auto simp: raw_publisher_publish_def publish_raw_def map_prod_def split: option.splits prod.splits)

lemma accept_raw_equiv:
  "server_accept z cdr q s =
     (case raw_accept z q s of
        (Inl e, s') \<Rightarrow> (case Option.bind (zq_payload q) (\<lambda>p. case from_cdr cdr p of Inl e \<Rightarrow> Some e | Inr _ \<Rightarrow> None) of
             Some e' \<Rightarrow> (Err (SvcCdr e'), s) | None \<Rightarrow> (Err e, s))
      | (Inr (i, b), s') \<Rightarrow> (case from_cdr cdr b of Inl e \<Rightarrow> (Err (SvcCdr e), s) | Inr x \<Rightarrow> (Ok (i, x), s')))"
  by (auto simp: server_accept_def raw_accept_def Let_def split: option.splits sum.splits)

subsection \<open>Properties\<close>


text \<open>Codecs of an action whose goals, results and feedback are bytes.\<close>

definition byte_of_bool :: "bool \<Rightarrow> byte" where "byte_of_bool b = (if b then 1 else 0)"

definition id_bytes :: "goal_id \<Rightarrow> byte list" where "id_bytes i = le_bytes 16 (unat i)"

definition bytes_id :: "byte list \<Rightarrow> goal_id" where "bytes_id b = word_of_nat (from_le_bytes b)"

lemma bytes_id_bytes [simp]: "bytes_id (id_bytes i) = i" "length (id_bytes i) = 16"
  using unsigned_less [of i, where ?'a = nat] by (simp_all add: bytes_id_def id_bytes_def)

definition plain_codec :: "('m \<Rightarrow> byte list option) \<Rightarrow> (byte list \<Rightarrow> 'm option) \<Rightarrow> 'm cdr_encoding" where
  "plain_codec enc dec = \<lparr>to_vec_le = enc, from_bytes_le = (\<lambda>b. map_option (\<lambda>m. (m, length b)) (dec b)),
     from_bytes_be = (\<lambda>b. map_option (\<lambda>m. (m, length b)) (dec b))\<rparr>"

lemma plain_codec_lawful: "(\<And>m b. enc m = Some b \<Longrightarrow> dec b = Some m) \<Longrightarrow> cdr_lawful (plain_codec enc dec)"
  by (auto simp: cdr_lawful_def plain_codec_def)

definition byte_action :: "(byte list, byte, byte) action_codecs" where
  "byte_action =
     \<lparr>send_goal_cdr = plain_codec (\<lambda>r. Some (id_bytes (sg_goal_id r) @ sg_goal r))
        (\<lambda>b. if length b < 16 then None else Some \<lparr>sg_goal_id = bytes_id (take 16 b), sg_goal = drop 16 b\<rparr>),
      goal_response_cdr = plain_codec (\<lambda>r. if sr_stamp r = BI_TIME_ZERO then Some [byte_of_bool (sr_accepted r)] else None)
        (\<lambda>b. if length b = 1 then Some \<lparr>sr_accepted = (hd b = 1), sr_stamp = BI_TIME_ZERO\<rparr> else None),
      result_request_cdr = plain_codec (\<lambda>i. Some (id_bytes i)) (\<lambda>b. if length b = 16 then Some (bytes_id b) else None),
      result_response_cdr = plain_codec (\<lambda>r. if 0 \<le> gr_status r \<and> gr_status r < 128 then Some [word_of_int (gr_status r), gr_result r] else None)
        (\<lambda>b. if length b = 2 then Some \<lparr>gr_status = uint (hd b), gr_result = b ! 1\<rparr> else None),
      feedback_cdr = plain_codec (\<lambda>m. Some (id_bytes (fb_goal_id m) @ [fb_feedback m])) (\<lambda>_. None),
      cancel_request_cdr = plain_codec (\<lambda>_. None) (\<lambda>_. None),
      cancel_response_cdr = plain_codec (\<lambda>_. None) (\<lambda>_. None),
      status_cdr = plain_codec (\<lambda>_. None) (\<lambda>_. None)\<rparr>"

lemma byte_action_lawful:
  "cdr_lawful (send_goal_cdr byte_action)" "cdr_lawful (goal_response_cdr byte_action)"
  "cdr_lawful (result_request_cdr byte_action)" "cdr_lawful (result_response_cdr byte_action)"
proof -
  show "cdr_lawful (send_goal_cdr byte_action)"
    unfolding byte_action_def action_codecs.simps by (rule plain_codec_lawful) auto
  show "cdr_lawful (goal_response_cdr byte_action)"
    unfolding byte_action_def action_codecs.simps by (rule plain_codec_lawful) (auto simp: byte_of_bool_def split: if_splits)
  show "cdr_lawful (result_request_cdr byte_action)"
    unfolding byte_action_def action_codecs.simps by (rule plain_codec_lawful) auto
  show "cdr_lawful (result_response_cdr byte_action)"
    unfolding byte_action_def action_codecs.simps
    by (rule plain_codec_lawful) (auto simp: uint_word_of_int split: if_splits)
qed

text \<open>An action server on fresh endpoints.\<close>

definition raw_action_demo :: zenoh_raw_action_server where
  "raw_action_demo = \<lparr>ra_send_goal = server_new ''g'' None, ra_get_result = server_new ''r'' None,
     ra_feedback = \<lparr>rp_inner = publisher_new ''f'' (replicate 16 1) None\<rparr>, ra_cancel_goal = server_new ''c'' None,
     ra_status = publisher_new ''s'' (replicate 16 2) None\<rparr>"

definition demo_query :: "byte list \<Rightarrow> zenoh_query" where
  "demo_query payload = \<lparr>zq_ident = 1, zq_key = ''g'', zq_payload = Some payload, zq_attachment = Some (to_zbytes zenoh_ext
     \<lparr>at_sequence_number = 1, at_source_timestamp = 0, at_source_gid = replicate 16 9\<rparr>)\<rparr>"

lemma demo_query_id: "attached_id zenoh_ext (zq_attachment (demo_query p)) = Some \<lparr>rq_writer_gid = replicate 16 9, rq_sequence_number = 1\<rparr>"
  using attached_id_to_zbytes [OF zenoh_ext_lawful, of "\<lparr>at_sequence_number = 1, at_source_timestamp = 0, at_source_gid = replicate 16 9\<rparr>"]
  by (simp add: demo_query_def wf_attachment_def in_signed_def)


text \<open>A result request whose payload cannot be decoded is dropped by the typed server, which ends
  the query; the raw server hands out nothing either but keeps the query pending under an id its
  application never learns, so it is never answered.\<close>

lemma undecodable_result_request_kept:
  assumes "zq_payload q = Some b" and "from_cdr (result_request_cdr cs) b = Err e"
    and "attached_id z (zq_attachment q) = Some i"
  shows "try_receive_result_request z cs (Received q) (typed_view a) = (None, typed_view a)
    \<and> (\<exists>a'. raw_try_receive_result_request z (result_request_cdr cs) (Received q) a = (None, a')
         \<and> map_of (zv_pending (ra_get_result a')) (request_key i) = Some q)"
proof
  show "try_receive_result_request z cs (Received q) (typed_view a) = (None, typed_view a)"
    using assms by (simp add: try_receive_result_request_def server_accept_def)
  have "raw_accept z q (ra_get_result a) = (Ok (i, b), store_pending i q (ra_get_result a))"
    using assms(1,3) by (auto simp: raw_accept_def attached_id_def split: option.splits sum.splits)
  then show "\<exists>a'. raw_try_receive_result_request z (result_request_cdr cs) (Received q) a = (None, a')
         \<and> map_of (zv_pending (ra_get_result a')) (request_key i) = Some q"
    using assms(2) by (simp add: raw_try_receive_result_request_def store_pending_def map_laws)
qed

theorem undecodable_result_request_kept_witness:
  "\<exists>a'. raw_try_receive_result_request zenoh_ext (result_request_cdr byte_action) (Received (demo_query [])) raw_action_demo = (None, a')
     \<and> map_of (zv_pending (ra_get_result a')) (request_key \<lparr>rq_writer_gid = replicate 16 9, rq_sequence_number = 1\<rparr>) = Some (demo_query [])"
  using undecodable_result_request_kept [OF _ _ demo_query_id, of "[]" "[]" byte_action MissingHeader]
  by (simp add: demo_query_def from_cdr_def)

text \<open>The status constants of the Zenoh action module disagree with \<open>action_msgs/GoalStatus\<close>: the
  result of a goal that the server ends with \<open>goal_status::ABORTED\<close> reaches the client with the code
  of a canceled goal, and the other way round.\<close>

lemma aborted_result_read_as_canceled:
  assumes "cdr_lawful (result_request_cdr cs)" and "cdr_lawful (result_response_cdr cs)" and "zserde_lawful z"
    and "length (zc_gid (ac_get_result ac)) = 16" and "0 \<le> zc_seq (ac_get_result ac)" and "zc_seq (ac_get_result ac) < 2 ^ 63 - 1"
    and "to_cdr (result_request_cdr cs) gid = Ok qb"
    and "to_cdr (result_response_cdr cs) \<lparr>gr_status = goal_status_ABORTED, gr_result = res\<rparr> = Ok rb"
    and "ident \<notin> set (answered_ids s)"
  shows "fst (client_get_result mode z cs (served z (result_request_cdr cs) (result_response_cdr cs)
      (\<lambda>_. \<lparr>gr_status = goal_status_ABORTED, gr_result = res\<rparr>) now' ident s) now gid ac) = Ok (goal_status_repr Canceled, res)
    \<and> goal_status_CANCELED = goal_status_repr Aborted"
  using served_call [where f = "\<lambda>_. \<lparr>gr_status = goal_status_ABORTED, gr_result = res\<rparr>", OF assms]
  by (simp add: client_get_result_def goal_status_ABORTED_def goal_status_CANCELED_def)

lemma aborted_result_read_as_canceled_witness:
  "fst (client_get_result Checked zenoh_ext byte_action (served zenoh_ext (result_request_cdr byte_action) (result_response_cdr byte_action)
      (\<lambda>_. \<lparr>gr_status = goal_status_ABORTED, gr_result = 7\<rparr>) None 1 (server_new ''r'' None)) None 3
      \<lparr>ac_send_goal = client_new ''g'' (replicate 16 1) None, ac_get_result = client_new ''r'' (replicate 16 2) None,
       ac_feedback = \<lparr>zs_key = ''f'', zs_token = None\<rparr>, ac_cancel_goal = client_new ''c'' (replicate 16 3) None,
       ac_status = \<lparr>zs_key = ''s'', zs_token = None\<rparr>\<rparr>) = Ok (5, 7)"
  using aborted_result_read_as_canceled [OF byte_action_lawful(3,4) zenoh_ext_lawful, where gid = 3 and res = 7 and ident = 1
      and mode = Checked and now = None and now' = None and s = "server_new ''r'' None" and ac = "\<lparr>ac_send_goal = client_new ''g'' (replicate 16 1) None, ac_get_result = client_new ''r'' (replicate 16 2) None,
       ac_feedback = \<lparr>zs_key = ''f'', zs_token = None\<rparr>, ac_cancel_goal = client_new ''c'' (replicate 16 3) None,
       ac_status = \<lparr>zs_key = ''s'', zs_token = None\<rparr>\<rparr>"]
  by (simp add: client_new_def to_cdr_def byte_action_def plain_codec_def goal_status_ABORTED_def)

end
