(* ===== verification/Zenoh_Node.thy ===== *)
theory Zenoh_Node
  imports Graph_Cache Type_Description Zenoh_Action
begin

text \<open>
  The node of the Zenoh backend (\<open>zenoh_backend/node.rs\<close>): how it
  resolves names, builds keys and declares its entities. The session is code of another crate: it
  keeps the list of declarations it took, and the parameter \<open>zok\<close> tells which it takes. SHA-256
  and XXH3 are parameters, too. An operation runs on the state of the node and returns an error or
  an entity; \<open>znode_bind\<close> is the question mark operator.
\<close>

subsection \<open>Names\<close>

definition resolve_fqn :: "name \<Rightarrow> node_name \<Rightarrow> string" where
  "resolve_fqn nm node =
     (if absolute nm then show_name nm
      else if node_namespace node = ''/'' then ''/'' @ show_name nm
      else node_namespace node @ ''/'' @ show_name nm)"

definition action_sub_name :: "string \<Rightarrow> string \<Rightarrow> name_error + name" where
  "action_sub_name action_fqn sub = name_new (action_fqn @ ''/_action'') sub"

definition param_service_name :: "string \<Rightarrow> string \<Rightarrow> name_error + name" where
  "param_service_name node_fqn base = name_new node_fqn base"

subsection \<open>The session and the node\<close>

datatype zenoh_declaration =
  DeclPublisher string | DeclSubscriber string | DeclQueryable string | DeclToken string

datatype zenoh_error = SessionError | NameErr name_error

record zenoh_node =
  zn_domain_id :: nat
  zn_node_name :: node_name
  zn_node_id :: nat
  zn_zid :: string
  zn_next_entity_id :: nat
  zn_declared :: "zenoh_declaration list"

record topic =
  tp_fully_qualified_name :: string
  tp_dds_type_name :: string
  tp_qos :: qos_profile

text \<open>The crates the node calls: what the session takes, and the two digests.\<close>

record environment =
  zok :: "zenoh_declaration \<Rightarrow> bool"
  sha256 :: "string \<Rightarrow> 8 word list"
  xxh3_128 :: "string \<Rightarrow> 128 word"

type_synonym 'a node_op = "zenoh_node \<Rightarrow> (zenoh_error + 'a) \<times> zenoh_node"

definition znode_return :: "'a \<Rightarrow> 'a node_op" where
  "znode_return x n = (Ok x, n)"

definition znode_bind :: "'a node_op \<Rightarrow> ('a \<Rightarrow> 'b node_op) \<Rightarrow> 'b node_op" where
  "znode_bind m f n = (case m n of (Inl e, n') \<Rightarrow> (Inl e, n') | (Inr x, n') \<Rightarrow> f x n')"

definition znode_name :: "name_error + 'a \<Rightarrow> 'a node_op" where
  "znode_name r n = (case r of Inl e \<Rightarrow> (Err (NameErr e), n) | Inr x \<Rightarrow> (Ok x, n))"

definition declare_entity :: "environment \<Rightarrow> zenoh_declaration \<Rightarrow> unit node_op" where
  "declare_entity env d n =
     (if zok env d then (Ok (), n\<lparr>zn_declared := zn_declared n @ [d]\<rparr>) else (Err SessionError, n))"

definition declare_liveliness :: "environment \<Rightarrow> string \<Rightarrow> string option node_op" where
  "declare_liveliness env key n =
     (if zok env (DeclToken key) then (Ok (Some key), n\<lparr>zn_declared := zn_declared n @ [DeclToken key]\<rparr>)
      else (Ok None, n))"

text \<open>\<open>fetch_add\<close> on the counter of 64 bits.\<close>

definition fetch_entity_id :: "nat node_op" where
  "fetch_entity_id n = (Ok (zn_next_entity_id n), n\<lparr>zn_next_entity_id := (zn_next_entity_id n + 1) mod 2 ^ 64\<rparr>)"

definition node_ids :: "nat \<Rightarrow> zenoh_node \<Rightarrow> entity_ids" where
  "node_ids eid n =
     \<lparr>session_id = zn_zid n, node_id = zn_node_id n, entity_id = eid, enclave = [],
      ids_namespace = node_namespace (zn_node_name n), ids_node_name = node_base_name (zn_node_name n)\<rparr>"

definition zenoh_node_new :: "environment \<Rightarrow> nat \<Rightarrow> string \<Rightarrow> node_name \<Rightarrow> nat \<Rightarrow> zenoh_node" where
  "zenoh_node_new env domain zid nm nid =
     (let n0 = \<lparr>zn_domain_id = domain, zn_node_name = nm, zn_node_id = nid, zn_zid = zid,
                zn_next_entity_id = 0, zn_declared = []\<rparr>;
          node_key = node_liveliness_keyexpr domain (node_ids nid n0)
      in snd (declare_liveliness env node_key n0))"

definition create_topic :: "zenoh_node \<Rightarrow> name \<Rightarrow> message_type_name \<Rightarrow> qos_profile \<Rightarrow> topic" where
  "create_topic n nm ty qos =
     \<lparr>tp_fully_qualified_name = resolve_fqn nm (zn_node_name n), tp_dds_type_name = dds_msg_type ty, tp_qos = qos\<rparr>"

definition liveliness_key :: "zenoh_node \<Rightarrow> nat \<Rightarrow> entity_kind \<Rightarrow> string \<Rightarrow> string \<Rightarrow> string \<Rightarrow> qos_profile \<Rightarrow> string" where
  "liveliness_key n eid kind fqn dds_type hash qos =
     entity_liveliness_keyexpr (zn_domain_id n) (node_ids eid n) kind fqn dds_type hash (encode_qos qos)"

definition entity_liveliness_key :: "zenoh_node \<Rightarrow> nat \<Rightarrow> entity_kind \<Rightarrow> topic \<Rightarrow> string \<Rightarrow> qos_profile \<Rightarrow> string" where
  "entity_liveliness_key n eid kind tp hash qos =
     liveliness_key n eid kind (tp_fully_qualified_name tp) (tp_dds_type_name tp) hash qos"

subsection \<open>Publishers and subscriptions\<close>

definition create_publisher_with_type_hash ::
    "environment \<Rightarrow> topic \<Rightarrow> qos_profile option \<Rightarrow> string \<Rightarrow> zenoh_publisher node_op" where
  "create_publisher_with_type_hash env tp q hash n =
     (let qos = (case q of Some q \<Rightarrow> q | None \<Rightarrow> tp_qos tp);
          key = topic_keyexpr (zn_domain_id n) (tp_fully_qualified_name tp) (tp_dds_type_name tp) hash
      in znode_bind (declare_entity env (DeclPublisher key)) (\<lambda>_.
         znode_bind fetch_entity_id (\<lambda>eid n.
         let lkey = entity_liveliness_key n eid Publisher tp hash qos;
             gid = gid_from_liveliness_key (xxh3_128 env) lkey
         in znode_bind (declare_liveliness env lkey) (\<lambda>token.
            znode_return (publisher_new key gid token)) n)) n)"

definition create_publisher :: "environment \<Rightarrow> topic \<Rightarrow> qos_profile option \<Rightarrow> zenoh_publisher node_op" where
  "create_publisher env tp q =
     create_publisher_with_type_hash env tp q (sender_hash (sha256 env) (tp_dds_type_name tp))"

definition create_raw_publisher :: "environment \<Rightarrow> topic \<Rightarrow> qos_profile option \<Rightarrow> raw_publisher node_op" where
  "create_raw_publisher env tp q = znode_bind (create_publisher env tp q) (\<lambda>p. znode_return \<lparr>rp_inner = p\<rparr>)"

definition create_raw_publisher_with_type_hash ::
    "environment \<Rightarrow> topic \<Rightarrow> qos_profile option \<Rightarrow> string \<Rightarrow> raw_publisher node_op" where
  "create_raw_publisher_with_type_hash env tp q hash =
     znode_bind (create_publisher_with_type_hash env tp q hash) (\<lambda>p. znode_return \<lparr>rp_inner = p\<rparr>)"

definition create_subscription :: "environment \<Rightarrow> topic \<Rightarrow> qos_profile option \<Rightarrow> zenoh_subscription node_op" where
  "create_subscription env tp q n =
     (let qos = (case q of Some q \<Rightarrow> q | None \<Rightarrow> tp_qos tp);
          key = topic_keyexpr (zn_domain_id n) (tp_fully_qualified_name tp) (tp_dds_type_name tp) WILDCARD
      in znode_bind (declare_entity env (DeclSubscriber key)) (\<lambda>_.
         znode_bind fetch_entity_id (\<lambda>eid n.
         let sub_hash = sender_hash (sha256 env) (tp_dds_type_name tp);
             lkey = entity_liveliness_key n eid Subscription tp sub_hash qos
         in znode_bind (declare_liveliness env lkey) (\<lambda>token.
            znode_return \<lparr>zs_key = key, zs_token = token\<rparr>) n)) n)"

definition create_raw_subscription :: "environment \<Rightarrow> topic \<Rightarrow> qos_profile option \<Rightarrow> zenoh_subscription node_op" where
  "create_raw_subscription env tp q = create_subscription env tp q"

subsection \<open>Services\<close>

definition create_client_inner ::
    "environment \<Rightarrow> name \<Rightarrow> service_type_name \<Rightarrow> duration option \<Rightarrow> zenoh_client node_op" where
  "create_client_inner env service service_type timeout n =
     (let fqn = resolve_fqn service (zn_node_name n);
          dds_type = dds_service_type service_type;
          hash = sender_hash (sha256 env) dds_type;
          selector = topic_keyexpr (zn_domain_id n) fqn dds_type hash
      in znode_bind fetch_entity_id (\<lambda>eid n.
         let lkey = liveliness_key n eid ServiceClient fqn dds_type hash qos_default;
             gid = gid_from_liveliness_key (xxh3_128 env) lkey
         in znode_bind (declare_liveliness env lkey) (\<lambda>token.
            znode_return (client_new_with_timeout selector gid token timeout)) n) n)"

definition create_client :: "environment \<Rightarrow> name \<Rightarrow> service_type_name \<Rightarrow> zenoh_client node_op" where
  "create_client env service service_type = create_client_inner env service service_type None"

definition create_raw_server_with_type_hash ::
    "environment \<Rightarrow> name \<Rightarrow> service_type_name \<Rightarrow> string \<Rightarrow> zenoh_server node_op" where
  "create_raw_server_with_type_hash env service service_type hash n =
     (let fqn = resolve_fqn service (zn_node_name n);
          dds_type = dds_service_type service_type;
          key = topic_keyexpr (zn_domain_id n) fqn dds_type hash
      in znode_bind (declare_entity env (DeclQueryable key)) (\<lambda>_.
         znode_bind fetch_entity_id (\<lambda>eid n.
         let lkey = liveliness_key n eid ServiceServer fqn dds_type hash qos_default
         in znode_bind (declare_liveliness env lkey) (\<lambda>token.
            znode_return (server_new key token)) n)) n)"

definition create_raw_server :: "environment \<Rightarrow> name \<Rightarrow> service_type_name \<Rightarrow> zenoh_server node_op" where
  "create_raw_server env service service_type =
     create_raw_server_with_type_hash env service service_type
       (sender_hash (sha256 env) (dds_service_type service_type))"

definition create_server :: "environment \<Rightarrow> name \<Rightarrow> service_type_name \<Rightarrow> zenoh_server node_op" where
  "create_server env service service_type n =
     (let fqn = resolve_fqn service (zn_node_name n);
          dds_type = dds_service_type service_type;
          hash = sender_hash (sha256 env) dds_type;
          key = topic_keyexpr (zn_domain_id n) fqn dds_type hash
      in znode_bind (declare_entity env (DeclQueryable key)) (\<lambda>_.
         znode_bind fetch_entity_id (\<lambda>eid n.
         let lkey = liveliness_key n eid ServiceServer fqn dds_type hash qos_default
         in znode_bind (declare_liveliness env lkey) (\<lambda>token.
            znode_return (server_new key token)) n)) n)"

subsection \<open>Actions, parameters and logging\<close>

definition GET_RESULT_TIMEOUT :: duration where
  "GET_RESULT_TIMEOUT = \<lparr>dur_secs = 60, dur_nanos = 0\<rparr>"

definition cancel_goal_type :: service_type_name where
  "cancel_goal_type = service_type_name_new ''action_msgs'' ''CancelGoal''"

definition goal_status_array_type :: message_type_name where
  "goal_status_array_type = message_type_name_new ''action_msgs'' ''GoalStatusArray''"

text \<open>The arguments of the constructors: a sub-entity's name, and the topic of that name.\<close>

definition sub_entity :: "string \<Rightarrow> string \<Rightarrow> name node_op" where
  "sub_entity fqn sub = znode_name (action_sub_name fqn sub)"

definition sub_topic :: "string \<Rightarrow> string \<Rightarrow> message_type_name \<Rightarrow> topic node_op" where
  "sub_topic fqn sub ty = znode_bind (sub_entity fqn sub) (\<lambda>nm n. znode_return (create_topic n nm ty qos_default) n)"

definition create_action_client :: "environment \<Rightarrow> name \<Rightarrow> action_type_name \<Rightarrow> zenoh_action_client node_op" where
  "create_action_client env action action_type n =
     (let fqn = resolve_fqn action (zn_node_name n) in
      znode_bind (znode_bind (sub_entity fqn ''send_goal'') (\<lambda>nm.
        create_client env nm (dds_action_service action_type ''_SendGoal''))) (\<lambda>send_goal.
      znode_bind (znode_bind (sub_entity fqn ''get_result'') (\<lambda>nm.
        create_client_inner env nm (dds_action_service action_type ''_GetResult'') (Some GET_RESULT_TIMEOUT))) (\<lambda>get_result.
      znode_bind (sub_topic fqn ''feedback'' (dds_action_topic action_type ''_FeedbackMessage'')) (\<lambda>feedback_topic.
      znode_bind (create_subscription env feedback_topic None) (\<lambda>feedback.
      znode_bind (znode_bind (sub_entity fqn ''cancel_goal'') (\<lambda>nm.
        create_client env nm cancel_goal_type)) (\<lambda>cancel_goal.
      znode_bind (sub_topic fqn ''status'' goal_status_array_type) (\<lambda>status_topic.
      znode_bind (create_subscription env status_topic None) (\<lambda>status.
        znode_return \<lparr>ac_send_goal = send_goal, ac_get_result = get_result, ac_feedback = feedback,
          ac_cancel_goal = cancel_goal, ac_status = status\<rparr>))))))) n)"

definition create_action_server :: "environment \<Rightarrow> name \<Rightarrow> action_type_name \<Rightarrow> zenoh_action_server node_op" where
  "create_action_server env action action_type n =
     (let fqn = resolve_fqn action (zn_node_name n) in
      znode_bind (znode_bind (sub_entity fqn ''send_goal'') (\<lambda>nm.
        create_server env nm (dds_action_service action_type ''_SendGoal''))) (\<lambda>send_goal.
      znode_bind (znode_bind (sub_entity fqn ''get_result'') (\<lambda>nm.
        create_server env nm (dds_action_service action_type ''_GetResult''))) (\<lambda>get_result.
      znode_bind (sub_topic fqn ''feedback'' (dds_action_topic action_type ''_FeedbackMessage'')) (\<lambda>feedback_topic.
      znode_bind (create_publisher env feedback_topic None) (\<lambda>feedback.
      znode_bind (znode_bind (sub_entity fqn ''cancel_goal'') (\<lambda>nm.
        create_server env nm cancel_goal_type)) (\<lambda>cancel_goal.
      znode_bind (sub_topic fqn ''status'' goal_status_array_type) (\<lambda>status_topic.
      znode_bind (create_publisher env status_topic None) (\<lambda>status.
        znode_return \<lparr>as_send_goal = send_goal, as_get_result = get_result, as_feedback = feedback,
          as_cancel_goal = cancel_goal, as_status = status\<rparr>))))))) n)"

definition create_raw_action_server_with_type_hashes ::
    "environment \<Rightarrow> name \<Rightarrow> action_type_name \<Rightarrow> action_type_hashes \<Rightarrow> zenoh_raw_action_server node_op" where
  "create_raw_action_server_with_type_hashes env action action_type hashes n =
     (let fqn = resolve_fqn action (zn_node_name n) in
      znode_bind (znode_bind (sub_entity fqn ''send_goal'') (\<lambda>nm.
        create_raw_server_with_type_hash env nm (dds_action_service action_type ''_SendGoal'') (send_goal_hash hashes))) (\<lambda>send_goal.
      znode_bind (znode_bind (sub_entity fqn ''get_result'') (\<lambda>nm.
        create_raw_server_with_type_hash env nm (dds_action_service action_type ''_GetResult'') (get_result_hash hashes))) (\<lambda>get_result.
      znode_bind (sub_topic fqn ''feedback'' (dds_action_topic action_type ''_FeedbackMessage'')) (\<lambda>feedback_topic.
      znode_bind (create_raw_publisher_with_type_hash env feedback_topic None (feedback_message_hash hashes)) (\<lambda>feedback.
      znode_bind (znode_bind (sub_entity fqn ''cancel_goal'') (\<lambda>nm.
        create_server env nm cancel_goal_type)) (\<lambda>cancel_goal.
      znode_bind (sub_topic fqn ''status'' goal_status_array_type) (\<lambda>status_topic.
      znode_bind (create_publisher env status_topic None) (\<lambda>status.
        znode_return \<lparr>ra_send_goal = send_goal, ra_get_result = get_result, ra_feedback = feedback,
          ra_cancel_goal = cancel_goal, ra_status = status\<rparr>))))))) n)"

definition create_raw_action_server :: "environment \<Rightarrow> name \<Rightarrow> action_type_name \<Rightarrow> zenoh_raw_action_server node_op" where
  "create_raw_action_server env action action_type =
     create_raw_action_server_with_type_hashes env action action_type
       \<lparr>send_goal_hash = sender_hash (sha256 env) (dds_service_type (dds_action_service action_type ''_SendGoal'')),
        get_result_hash = sender_hash (sha256 env) (dds_service_type (dds_action_service action_type ''_GetResult'')),
        feedback_message_hash = sender_hash (sha256 env) (dds_msg_type (dds_action_topic action_type ''_FeedbackMessage''))\<rparr>"

record zenoh_parameter_server =
  ps_node_fqn :: string
  ps_services :: "zenoh_server list"
  ps_events :: zenoh_publisher

text \<open>The service of a list of base names and types, created in this order up to the first
  failure.\<close>

fun create_param_servers :: "environment \<Rightarrow> string \<Rightarrow> (string \<times> string) list \<Rightarrow> zenoh_server list node_op" where
  "create_param_servers env node_fqn [] = znode_return []"
| "create_param_servers env node_fqn ((base, ty) # svcs) =
     znode_bind (znode_name (param_service_name node_fqn base)) (\<lambda>nm.
     znode_bind (create_server env nm (service_type_name_new ''rcl_interfaces'' ty)) (\<lambda>s.
     znode_bind (create_param_servers env node_fqn svcs) (\<lambda>ss. znode_return (s # ss))))"

definition parameter_services :: "(string \<times> string) list" where
  "parameter_services =
     [(''get_parameters'', ''GetParameters''), (''get_parameter_types'', ''GetParameterTypes''),
      (''set_parameters'', ''SetParameters''), (''set_parameters_atomically'', ''SetParametersAtomically''),
      (''list_parameters'', ''ListParameters''), (''describe_parameters'', ''DescribeParameters'')]"

definition create_parameter_server :: "environment \<Rightarrow> zenoh_parameter_server node_op" where
  "create_parameter_server env n =
     (let node_fqn = fully_qualified_name (zn_node_name n) in
      znode_bind (create_param_servers env node_fqn parameter_services) (\<lambda>svcs.
      znode_bind (znode_name (name_new ''/'' ''parameter_events'')) (\<lambda>nm n.
      znode_bind (create_publisher env
        (create_topic n nm (message_type_name_new ''rcl_interfaces'' ''ParameterEvent'') qos_default) None) (\<lambda>events.
        znode_return \<lparr>ps_node_fqn = node_fqn, ps_services = svcs, ps_events = events\<rparr>) n)) n)"

fun create_param_clients :: "environment \<Rightarrow> string \<Rightarrow> (string \<times> string) list \<Rightarrow> zenoh_client list node_op" where
  "create_param_clients env remote_fqn [] = znode_return []"
| "create_param_clients env remote_fqn ((base, ty) # svcs) =
     znode_bind (znode_name (param_service_name remote_fqn base)) (\<lambda>nm.
     znode_bind (create_client env nm (service_type_name_new ''rcl_interfaces'' ty)) (\<lambda>c.
     znode_bind (create_param_clients env remote_fqn svcs) (\<lambda>cs. znode_return (c # cs))))"

definition create_parameter_client :: "environment \<Rightarrow> node_name \<Rightarrow> zenoh_client list node_op" where
  "create_parameter_client env remote_node =
     create_param_clients env (fully_qualified_name remote_node)
       [(''get_parameters'', ''GetParameters''), (''get_parameter_types'', ''GetParameterTypes''),
        (''set_parameters'', ''SetParameters''), (''list_parameters'', ''ListParameters''),
        (''describe_parameters'', ''DescribeParameters'')]"

definition rosout_topic :: "topic node_op" where
  "rosout_topic =
     znode_bind (znode_name (name_new ''/'' ''rosout'')) (\<lambda>nm n.
       znode_return (create_topic n nm (message_type_name_new ''rcl_interfaces'' ''Log'') qos_default) n)"

definition create_logger :: "environment \<Rightarrow> (string \<times> zenoh_publisher) node_op" where
  "create_logger env =
     znode_bind rosout_topic (\<lambda>tp. znode_bind (create_publisher env tp None) (\<lambda>p n.
       znode_return (node_base_name (zn_node_name n), p) n))"

definition read_rosout :: "environment \<Rightarrow> zenoh_subscription node_op" where
  "read_rosout env = znode_bind rosout_topic (\<lambda>tp. create_subscription env tp None)"

subsection \<open>Running operations\<close>

lemma znode_bind_Ok:
  "znode_bind m f n = (Ok y, n'') \<longleftrightarrow> (\<exists>x n'. m n = (Ok x, n') \<and> f x n' = (Ok y, n''))"
  by (auto simp: znode_bind_def split: prod.splits sum.splits)

lemma znode_return_Ok [simp]: "znode_return x n = (Ok y, n') \<longleftrightarrow> x = y \<and> n = n'"
  by (auto simp: znode_return_def)

lemma znode_name_Ok [simp]: "znode_name r n = (Ok y, n') \<longleftrightarrow> r = Ok y \<and> n = n'"
  by (auto simp: znode_name_def split: sum.splits)

lemma declare_entity_Ok:
  "declare_entity env d n = (Ok u, n') \<longleftrightarrow> zok env d \<and> n' = n\<lparr>zn_declared := zn_declared n @ [d]\<rparr>"
  by (auto simp: declare_entity_def)

lemma declare_liveliness_Ok:
  "declare_liveliness env key n = (Ok tok, n') \<longleftrightarrow>
     (if zok env (DeclToken key) then tok = Some key \<and> n' = n\<lparr>zn_declared := zn_declared n @ [DeclToken key]\<rparr>
      else tok = None \<and> n' = n)"
  by (auto simp: declare_liveliness_def)

lemmas node_op_Ok = znode_bind_Ok declare_entity_Ok declare_liveliness_Ok fetch_entity_id_def Let_def

text \<open>What an operation leaves alone: the identity of the node.\<close>

definition identity :: "zenoh_node \<Rightarrow> nat \<times> node_name \<times> nat \<times> string" where
  "identity n = (zn_domain_id n, zn_node_name n, zn_node_id n, zn_zid n)"

definition keeps_identity :: "'a node_op \<Rightarrow> bool" where
  "keeps_identity m \<longleftrightarrow> (\<forall>n. identity (snd (m n)) = identity n)"

lemma keeps_identityD: "keeps_identity m \<Longrightarrow> m n = (r, n') \<Longrightarrow> zn_domain_id n' = zn_domain_id n \<and> zn_node_name n' = zn_node_name n"
  by (simp add: keeps_identity_def identity_def) (metis prod.inject snd_conv)

named_theorems op_identity

lemma keeps_bind [op_identity]:
  "keeps_identity m \<Longrightarrow> (\<And>x. keeps_identity (f x)) \<Longrightarrow> keeps_identity (znode_bind m f)"
  unfolding keeps_identity_def znode_bind_def by (auto split: prod.split sum.split) (metis snd_conv)+

lemma keeps_basic [op_identity]:
  "keeps_identity (znode_return x)" "keeps_identity (znode_name r)" "keeps_identity (declare_entity env d)"
  "keeps_identity (declare_liveliness env key)" "keeps_identity fetch_entity_id"
  by (simp_all add: keeps_identity_def identity_def znode_return_def znode_name_def declare_entity_def
      declare_liveliness_def fetch_entity_id_def split: sum.split)

lemmas node_op_defs = znode_bind_def znode_return_def declare_entity_def declare_liveliness_def fetch_entity_id_def Let_def

lemma keeps_create [op_identity]:
  "keeps_identity (create_publisher_with_type_hash env tp q h)" "keeps_identity (create_subscription env tp q)"
  "keeps_identity (create_client_inner env s ty t)" "keeps_identity (create_server env s ty)"
  "keeps_identity (create_raw_server_with_type_hash env s ty h)"
  by (simp_all add: keeps_identity_def identity_def node_op_defs create_publisher_with_type_hash_def
      create_subscription_def create_client_inner_def create_server_def create_raw_server_with_type_hash_def)

lemma keeps_derived [op_identity]:
  "keeps_identity (create_publisher env tp q)" "keeps_identity (create_client env s ty)"
  "keeps_identity (sub_entity fqn sub)"
  unfolding create_publisher_def create_client_def sub_entity_def by (intro op_identity)+

lemma keeps_sub_topic [op_identity]: "keeps_identity (sub_topic fqn sub mty)"
  by (simp add: keeps_identity_def sub_topic_def sub_entity_def znode_bind_def znode_name_def znode_return_def split: sum.split)

lemma liveliness_key_update [simp]:
  "liveliness_key (n\<lparr>zn_declared := ds\<rparr>) = liveliness_key n"
  "liveliness_key (n\<lparr>zn_next_entity_id := i\<rparr>) = liveliness_key n"
  by (simp_all add: liveliness_key_def node_ids_def fun_eq_iff)

lemma create_publisher_Ok:
  assumes "create_publisher_with_type_hash env tp q h n = (Ok p, n')"
  shows "zp_key p = topic_keyexpr (zn_domain_id n) (tp_fully_qualified_name tp) (tp_dds_type_name tp) h"
    and "zp_token p = Some k \<Longrightarrow> k = liveliness_key n (zn_next_entity_id n) Publisher (tp_fully_qualified_name tp)
      (tp_dds_type_name tp) h (case q of Some q \<Rightarrow> q | None \<Rightarrow> tp_qos tp)"
    and "zok env (DeclPublisher (zp_key p))"
  using assms by (auto simp: create_publisher_with_type_hash_def entity_liveliness_key_def node_op_Ok split: if_splits)

lemma create_subscription_Ok:
  assumes "create_subscription env tp q n = (Ok s, n')"
  shows "zs_key s = topic_keyexpr (zn_domain_id n) (tp_fully_qualified_name tp) (tp_dds_type_name tp) WILDCARD"
  using assms by (auto simp: create_subscription_def node_op_Ok split: if_splits)

lemma create_client_Ok:
  assumes "create_client_inner env s ty t n = (Ok c, n')"
  shows "zc_selector c = topic_keyexpr (zn_domain_id n) (resolve_fqn s (zn_node_name n)) (dds_service_type ty)
    (sender_hash (sha256 env) (dds_service_type ty))"
  using assms by (auto simp: create_client_inner_def node_op_Ok split: if_splits)

lemma create_server_raw:
  "create_server env s ty = create_raw_server_with_type_hash env s ty (sender_hash (sha256 env) (dds_service_type ty))"
  by (simp add: fun_eq_iff create_server_def create_raw_server_with_type_hash_def Let_def)

lemma create_server_Ok:
  assumes "create_raw_server_with_type_hash env s ty h n = (Ok v, n')"
  shows "zv_key v = topic_keyexpr (zn_domain_id n) (resolve_fqn s (zn_node_name n)) (dds_service_type ty) h"
  using assms by (auto simp: create_raw_server_with_type_hash_def node_op_Ok split: if_splits)

text \<open>The sub-entities of an action have absolute names, so every node resolves them alike.\<close>

lemma name_new_absolute: "name_new (CHR ''/'' # ns) b = Ok nm \<Longrightarrow> absolute nm"
proof -
  have "snd (namespace_parts (CHR ''/'' # ns))" by (simp add: namespace_parts_def strip_prefix_char_def)
  then show "name_new (CHR ''/'' # ns) b = Ok nm \<Longrightarrow> absolute nm" by (simp add: name_new_Ok)
qed

lemma action_sub_name_absolute:
  assumes "hd fqn = CHR ''/''" and "fqn \<noteq> []" and "action_sub_name fqn sub = Ok nm"
  shows "absolute nm"
proof -
  have "fqn @ ''/_action'' = CHR ''/'' # (tl fqn @ ''/_action'')" using assms(1,2) by (cases fqn) simp_all
  then show ?thesis using assms(3) name_new_absolute unfolding action_sub_name_def by metis
qed

lemma resolve_fqn_absolute: "absolute nm \<Longrightarrow> resolve_fqn nm node = show_name nm"
  by (simp add: resolve_fqn_def)

lemma wf_node_namespace_slash: "wf_node_name node \<Longrightarrow> node_namespace node \<noteq> [] \<and> hd (node_namespace node) = CHR ''/''"
  unfolding wf_node_name_def wf_node_namespace_def by blast

lemma resolve_fqn_slash: "wf_node_name node \<Longrightarrow> resolve_fqn nm node \<noteq> [] \<and> hd (resolve_fqn nm node) = CHR ''/''"
  using wf_node_namespace_slash [of node] by (simp add: resolve_fqn_def show_name_def)

text \<open>Where an action's endpoints live: the key of a sub-entity in a domain.\<close>

definition sub_key :: "nat \<Rightarrow> string \<Rightarrow> string \<Rightarrow> string \<Rightarrow> string \<Rightarrow> string \<Rightarrow> bool" where
  "sub_key d fqn sub ty h key \<longleftrightarrow> (\<exists>nm. action_sub_name fqn sub = Ok nm \<and> key = topic_keyexpr d (show_name nm) ty h)"

lemma sub_key_unique: "sub_key d fqn sub ty h k \<Longrightarrow> sub_key d fqn sub ty h k' \<Longrightarrow> k = k'"
  by (auto simp: sub_key_def)

lemma named_client_key:
  assumes "znode_bind (sub_entity fqn sub) (\<lambda>nm. create_client_inner env nm ty t) n = (Ok c, n')"
    and "fqn \<noteq> []" and "hd fqn = CHR ''/''"
  shows "sub_key (zn_domain_id n) fqn sub (dds_service_type ty) (sender_hash (sha256 env) (dds_service_type ty)) (zc_selector c)"
    and "identity n' = identity n"
proof -
  obtain nm where nm: "action_sub_name fqn sub = Ok nm" "create_client_inner env nm ty t n = (Ok c, n')"
    using assms(1) by (auto simp: znode_bind_Ok sub_entity_def)
  then have "resolve_fqn nm (zn_node_name n) = show_name nm"
    using action_sub_name_absolute assms(2,3) by (simp add: resolve_fqn_absolute)
  with create_client_Ok [OF nm(2)] nm(1)
  show "sub_key (zn_domain_id n) fqn sub (dds_service_type ty) (sender_hash (sha256 env) (dds_service_type ty)) (zc_selector c)"
    by (auto simp: sub_key_def)
  show "identity n' = identity n"
    using keeps_create(3) nm(2) by (metis keeps_identity_def snd_conv)
qed

lemma named_server_key:
  assumes "znode_bind (sub_entity fqn sub) (\<lambda>nm. create_raw_server_with_type_hash env nm ty h) n = (Ok v, n')"
    and "fqn \<noteq> []" and "hd fqn = CHR ''/''"
  shows "sub_key (zn_domain_id n) fqn sub (dds_service_type ty) h (zv_key v)" and "identity n' = identity n"
proof -
  obtain nm where nm: "action_sub_name fqn sub = Ok nm" "create_raw_server_with_type_hash env nm ty h n = (Ok v, n')"
    using assms(1) by (auto simp: znode_bind_Ok sub_entity_def)
  then have "resolve_fqn nm (zn_node_name n) = show_name nm"
    using action_sub_name_absolute assms(2,3) by (simp add: resolve_fqn_absolute)
  with create_server_Ok [OF nm(2)] nm(1)
  show "sub_key (zn_domain_id n) fqn sub (dds_service_type ty) h (zv_key v)" by (auto simp: sub_key_def)
  show "identity n' = identity n"
    using keeps_create(5) nm(2) by (metis keeps_identity_def snd_conv)
qed

lemma named_topic:
  assumes "sub_topic fqn sub mty n = (Ok tp, n')" and "fqn \<noteq> []" and "hd fqn = CHR ''/''"
  shows "n' = n" and "\<exists>nm. action_sub_name fqn sub = Ok nm \<and> tp_fully_qualified_name tp = show_name nm"
    and "tp_dds_type_name tp = dds_msg_type mty"
  using assms action_sub_name_absolute
  by (auto simp: sub_topic_def sub_entity_def znode_bind_Ok create_topic_def resolve_fqn_absolute)

lemma named_publisher_key:
  assumes "znode_bind (sub_topic fqn sub mty) (\<lambda>tp. create_publisher_with_type_hash env tp None (h tp)) n = (Ok p, n')"
    and "fqn \<noteq> []" and "hd fqn = CHR ''/''" and "\<And>tp. tp_dds_type_name tp = dds_msg_type mty \<Longrightarrow> h tp = k"
  shows "sub_key (zn_domain_id n) fqn sub (dds_msg_type mty) k (zp_key p)" and "identity n' = identity n"
proof -
  obtain tp where tp: "sub_topic fqn sub mty n = (Ok tp, n)" "create_publisher_with_type_hash env tp None (h tp) n = (Ok p, n')"
    using assms(1) named_topic(1) [OF _ assms(2,3)] unfolding znode_bind_Ok by metis
  show "sub_key (zn_domain_id n) fqn sub (dds_msg_type mty) k (zp_key p)"
    using create_publisher_Ok(1) [OF tp(2)] named_topic(2,3) [OF tp(1) assms(2,3)] assms(4)
    by (auto simp: sub_key_def)
  show "identity n' = identity n"
    using keeps_create(1) tp(2) by (metis keeps_identity_def snd_conv)
qed

lemma named_subscription_key:
  assumes "znode_bind (sub_topic fqn sub mty) (\<lambda>tp. create_subscription env tp None) n = (Ok s, n')"
    and "fqn \<noteq> []" and "hd fqn = CHR ''/''"
  shows "sub_key (zn_domain_id n) fqn sub (dds_msg_type mty) WILDCARD (zs_key s)" and "identity n' = identity n"
proof -
  obtain tp where tp: "sub_topic fqn sub mty n = (Ok tp, n)" "create_subscription env tp None n = (Ok s, n')"
    using assms(1) named_topic(1) [OF _ assms(2,3)] unfolding znode_bind_Ok by metis
  show "sub_key (zn_domain_id n) fqn sub (dds_msg_type mty) WILDCARD (zs_key s)"
    using create_subscription_Ok [OF tp(2)] named_topic(2,3) [OF tp(1) assms(2,3)] by (auto simp: sub_key_def)
  show "identity n' = identity n"
    using keeps_create(2) tp(2) by (metis keeps_identity_def snd_conv)
qed

definition action_service_key :: "environment \<Rightarrow> zenoh_node \<Rightarrow> string \<Rightarrow> string \<Rightarrow> service_type_name \<Rightarrow> string \<Rightarrow> bool" where
  "action_service_key env n fqn sub ty key \<longleftrightarrow>
     sub_key (zn_domain_id n) fqn sub (dds_service_type ty) (sender_hash (sha256 env) (dds_service_type ty)) key"

lemma identity_domain: "identity n' = identity n \<Longrightarrow> zn_domain_id n' = zn_domain_id n"
  by (simp add: identity_def)

lemma action_client_endpoints:
  assumes ok: "create_action_client env act ty n = (Ok c, n')" and wf: "wf_node_name (zn_node_name n)"
  defines "fqn \<equiv> resolve_fqn act (zn_node_name n)"
  shows "action_service_key env n fqn ''send_goal'' (dds_action_service ty ''_SendGoal'') (zc_selector (ac_send_goal c))
    \<and> action_service_key env n fqn ''get_result'' (dds_action_service ty ''_GetResult'') (zc_selector (ac_get_result c))
    \<and> sub_key (zn_domain_id n) fqn ''feedback'' (dds_msg_type (dds_action_topic ty ''_FeedbackMessage'')) WILDCARD (zs_key (ac_feedback c))
    \<and> action_service_key env n fqn ''cancel_goal'' cancel_goal_type (zc_selector (ac_cancel_goal c))
    \<and> sub_key (zn_domain_id n) fqn ''status'' (dds_msg_type goal_status_array_type) WILDCARD (zs_key (ac_status c))"
proof -
  have sl: "fqn \<noteq> []" "hd fqn = CHR ''/''" using resolve_fqn_slash [OF wf] by (simp_all add: fqn_def)
  note client = named_client_key [OF _ sl] and sub = named_subscription_key [OF _ sl]
  from ok obtain n1 n2 n3 n4 where
    s1: "znode_bind (sub_entity fqn ''send_goal'') (\<lambda>nm. create_client_inner env nm (dds_action_service ty ''_SendGoal'') None) n = (Ok (ac_send_goal c), n1)"
    and s2: "znode_bind (sub_entity fqn ''get_result'') (\<lambda>nm. create_client_inner env nm (dds_action_service ty ''_GetResult'') (Some GET_RESULT_TIMEOUT)) n1 = (Ok (ac_get_result c), n2)"
    and s3: "znode_bind (sub_topic fqn ''feedback'' (dds_action_topic ty ''_FeedbackMessage'')) (\<lambda>tp. create_subscription env tp None) n2 = (Ok (ac_feedback c), n3)"
    and s4: "znode_bind (sub_entity fqn ''cancel_goal'') (\<lambda>nm. create_client_inner env nm cancel_goal_type None) n3 = (Ok (ac_cancel_goal c), n4)"
    and s5: "znode_bind (sub_topic fqn ''status'' goal_status_array_type) (\<lambda>tp. create_subscription env tp None) n4 = (Ok (ac_status c), n')"
    unfolding create_action_client_def create_client_def fqn_def [symmetric] Let_def znode_bind_Ok by auto
  have d: "zn_domain_id n1 = zn_domain_id n" "zn_domain_id n2 = zn_domain_id n" "zn_domain_id n3 = zn_domain_id n"
    "zn_domain_id n4 = zn_domain_id n"
    using client(2) [OF s1] client(2) [OF s2] sub(2) [OF s3] client(2) [OF s4] by (simp_all add: identity_def)
  show ?thesis
    using client(1) [OF s1] client(1) [OF s2] sub(1) [OF s3] client(1) [OF s4] sub(1) [OF s5]
    by (simp add: action_service_key_def d)
qed

lemma action_server_endpoints:
  assumes ok: "create_action_server env act ty n = (Ok s, n')" and wf: "wf_node_name (zn_node_name n)"
  defines "fqn \<equiv> resolve_fqn act (zn_node_name n)"
  shows "action_service_key env n fqn ''send_goal'' (dds_action_service ty ''_SendGoal'') (zv_key (as_send_goal s))
    \<and> action_service_key env n fqn ''get_result'' (dds_action_service ty ''_GetResult'') (zv_key (as_get_result s))
    \<and> (\<exists>h. CHR ''/'' \<notin> set h \<and> sub_key (zn_domain_id n) fqn ''feedback'' (dds_msg_type (dds_action_topic ty ''_FeedbackMessage'')) h (zp_key (as_feedback s)))
    \<and> action_service_key env n fqn ''cancel_goal'' cancel_goal_type (zv_key (as_cancel_goal s))
    \<and> (\<exists>h. CHR ''/'' \<notin> set h \<and> sub_key (zn_domain_id n) fqn ''status'' (dds_msg_type goal_status_array_type) h (zp_key (as_status s)))"
proof -
  have sl: "fqn \<noteq> []" "hd fqn = CHR ''/''" using resolve_fqn_slash [OF wf] by (simp_all add: fqn_def)
  note server = named_server_key [OF _ sl]
    and pub = named_publisher_key [OF _ sl, where h = "\<lambda>tp. sender_hash (sha256 env) (tp_dds_type_name tp)"]
  from ok obtain n1 n2 n3 n4 where
    s1: "znode_bind (sub_entity fqn ''send_goal'') (\<lambda>nm. create_raw_server_with_type_hash env nm (dds_action_service ty ''_SendGoal'')
        (sender_hash (sha256 env) (dds_service_type (dds_action_service ty ''_SendGoal'')))) n = (Ok (as_send_goal s), n1)"
    and s2: "znode_bind (sub_entity fqn ''get_result'') (\<lambda>nm. create_raw_server_with_type_hash env nm (dds_action_service ty ''_GetResult'')
        (sender_hash (sha256 env) (dds_service_type (dds_action_service ty ''_GetResult'')))) n1 = (Ok (as_get_result s), n2)"
    and s3: "znode_bind (sub_topic fqn ''feedback'' (dds_action_topic ty ''_FeedbackMessage''))
        (\<lambda>tp. create_publisher_with_type_hash env tp None (sender_hash (sha256 env) (tp_dds_type_name tp))) n2 = (Ok (as_feedback s), n3)"
    and s4: "znode_bind (sub_entity fqn ''cancel_goal'') (\<lambda>nm. create_raw_server_with_type_hash env nm cancel_goal_type
        (sender_hash (sha256 env) (dds_service_type cancel_goal_type))) n3 = (Ok (as_cancel_goal s), n4)"
    and s5: "znode_bind (sub_topic fqn ''status'' goal_status_array_type)
        (\<lambda>tp. create_publisher_with_type_hash env tp None (sender_hash (sha256 env) (tp_dds_type_name tp))) n4 = (Ok (as_status s), n')"
    unfolding create_action_server_def create_server_raw create_publisher_def fqn_def [symmetric] Let_def znode_bind_Ok by auto
  have d: "zn_domain_id n1 = zn_domain_id n" "zn_domain_id n2 = zn_domain_id n" "zn_domain_id n3 = zn_domain_id n"
    "zn_domain_id n4 = zn_domain_id n"
    using server(2) [OF s1] server(2) [OF s2] pub(2) [OF s3] server(2) [OF s4] by (simp_all add: identity_def)
  show ?thesis
    using server(1) [OF s1] server(1) [OF s2] pub(1) [OF s3] server(1) [OF s4] pub(1) [OF s5] sender_hash_chars [of "sha256 env"]
    by (auto simp: action_service_key_def d)
qed

subsection \<open>Discovery\<close>

text \<open>A node with a valid name whose identifiers fit their types; a session id has no slash.\<close>

definition wf_znode :: "zenoh_node \<Rightarrow> bool" where
  "wf_znode n \<longleftrightarrow> wf_node_name (zn_node_name n) \<and> zn_domain_id n < 2 ^ 16 \<and> zn_node_id n < 2 ^ 64
     \<and> zn_next_entity_id n < 2 ^ 64 \<and> CHR ''/'' \<notin> set (zn_zid n)"

lemma encode_qos_no_slash: "CHR ''/'' \<notin> set (encode_qos q)"
proof -
  have d: "CHR ''/'' \<notin> set (fst (duration_fields x))" "CHR ''/'' \<notin> set (snd (duration_fields x))" for x
    by (cases x; simp)+
  have c: "CHR ''/'' \<notin> set (reliability_code r)" "CHR ''/'' \<notin> set (durability_code u)" "CHR ''/'' \<notin> set (liveliness_code l)" for r u l
    by (cases r; cases u; cases l; simp)+
  show ?thesis
    unfolding encode_qos_def by (auto simp: Let_def case_prod_unfold d c split: history.split)
qed

lemma wf_name_no_percent:
  assumes "wf_name nm"
  shows "CHR ''%'' \<notin> set (show_name nm)"
proof -
  have "CHR ''%'' \<notin> set t" if "wf_token t" for t
    using that percent_not_name_char unfolding wf_token_def list_all_iff by blast
  then show ?thesis using assms by (auto simp: wf_name_def show_name_def list_all_iff)
qed

lemma wf_node_name_no_percent:
  "wf_node_name node \<Longrightarrow> CHR ''%'' \<notin> set (node_namespace node) \<and> CHR ''%'' \<notin> set (node_base_name node) \<and> node_base_name node \<noteq> []"
  using percent_not_name_char percent_not_namespace_char
  unfolding wf_node_name_def wf_node_base_def wf_node_namespace_def list_all_iff by blast

lemma resolve_fqn_no_percent: "wf_name nm \<Longrightarrow> wf_node_name node \<Longrightarrow> CHR ''%'' \<notin> set (resolve_fqn nm node)"
  using wf_name_no_percent wf_node_name_no_percent by (auto simp: resolve_fqn_def)

lemma liveliness_key_parsed:
  assumes "wf_znode n" and "eid < 2 ^ 64" and "kind \<noteq> Node" and "CHR ''/'' \<notin> set ty" and "CHR ''/'' \<notin> set h"
    and "CHR ''%'' \<notin> set fqn" and "fqn \<noteq> []"
  shows "parse_liveliness_key (liveliness_key n eid kind fqn ty h q) = Some
    \<lparr>pe_domain_id = zn_domain_id n, pe_zid = zn_zid n, pe_node_id = zn_node_id n, pe_entity_id = eid,
     pe_kind = kind, pe_namespace = node_namespace (zn_node_name n), pe_node_name = node_base_name (zn_node_name n),
     pe_topic_name = Some fqn, pe_type_name = Some ty, pe_type_hash = Some h, pe_qos = Some (encode_qos q)\<rparr>"
proof -
  have w: "wf_node_name (zn_node_name n)" using assms(1) by (simp add: wf_znode_def)
  show ?thesis
    unfolding liveliness_key_def
    using entity_key_parsed [of "zn_domain_id n" "node_ids eid n" kind ty h "encode_qos q" fqn] assms
      wf_node_name_no_percent [OF w] wf_node_namespace_slash [OF w] encode_qos_no_slash
    by (simp add: wf_znode_def node_ids_def del: power_numeral)
qed

lemma join_fqn_fully_qualified: "wf_node_name node \<Longrightarrow> join_fqn (node_namespace node) (node_base_name node) = fully_qualified_name node"
proof -
  assume "wf_node_name node"
  then have n: "node_namespace node \<noteq> []" "last (node_namespace node) = CHR ''/'' \<Longrightarrow> node_namespace node = ''/''"
    unfolding wf_node_name_def wf_node_namespace_def by blast+
  show ?thesis
  proof (cases "node_namespace node = ''/''")
    case True
    then show ?thesis by (simp add: join_fqn_def fully_qualified_name_def ends_with_char_def)
  next
    case False
    with n have "last (node_namespace node) \<noteq> CHR ''/''" by blast
    with n(1) False show ?thesis by (simp add: join_fqn_def fully_qualified_name_def ends_with_char_def)
  qed
qed

lemma count_put_token:
  assumes "graph_inv c" and "parse_liveliness_key k = Some e" and "pe_kind e = kind" and "pe_topic_name e = Some topic"
  shows "count_kind_on_topic kind topic (apply_put k c) =
    count_kind_on_topic kind topic c + (if k \<in> live_keys c then 0 else 1)"
proof -
  let ?K = "\<lambda>c. {k \<in> live_keys c. \<exists>e. parse_liveliness_key k = Some e \<and> pe_kind e = kind \<and> pe_topic_name e = Some topic}"
  have "live_keys (apply_put k c) = insert k (live_keys c)"
    using live_keys_step [OF assms(1), of "PutSample k"] assms(2) by (simp add: is_token_def)
  then have "?K (apply_put k c) = insert k (?K c)" using assms by auto
  moreover have "finite (?K c)" by (rule finite_subset [of _ "live_keys c"]) (auto simp: live_keys_def finite_dom_map_of)
  moreover have "k \<in> ?K c \<longleftrightarrow> k \<in> live_keys c" using assms by auto
  ultimately show ?thesis
    using count_kind_on_topic_card [OF assms(1)] count_kind_on_topic_card [OF graph_inv_put [OF assms(1)]]
    by (simp add: card_insert_if)
qed

subsection \<open>Tokens are unique\<close>

datatype entity_request =
  ReqPublisher topic "qos_profile option" string
| ReqSubscription topic "qos_profile option"
| ReqClient name service_type_name "duration option"
| ReqServer name service_type_name string

fun run_request :: "environment \<Rightarrow> entity_request \<Rightarrow> zenoh_node \<Rightarrow> zenoh_node" where
  "run_request env (ReqPublisher tp q h) n = snd (create_publisher_with_type_hash env tp q h n)"
| "run_request env (ReqSubscription tp q) n = snd (create_subscription env tp q n)"
| "run_request env (ReqClient s ty t) n = snd (create_client_inner env s ty t n)"
| "run_request env (ReqServer s ty h) n = snd (create_raw_server_with_type_hash env s ty h n)"

fun token_of :: "zenoh_declaration \<Rightarrow> string list" where
  "token_of (DeclToken k) = [k]"
| "token_of _ = []"

definition tokens :: "zenoh_node \<Rightarrow> string list" where
  "tokens n = concat (map token_of (zn_declared n))"

definition node_key :: "zenoh_node \<Rightarrow> string" where
  "node_key n = node_liveliness_keyexpr (zn_domain_id n) (node_ids (zn_node_id n) n)"

definition token_inv :: "zenoh_node \<Rightarrow> bool" where
  "token_inv n \<longleftrightarrow> distinct (tokens n)
     \<and> (\<forall>k\<in>set (tokens n). k = node_key n
        \<or> (\<exists>eid kind fqn ty h q. eid < zn_next_entity_id n \<and> kind \<noteq> Node \<and> k = liveliness_key n eid kind fqn ty h q))"

lemma token_prefix_inj: "show_nat m @ CHR ''/'' # r = show_nat n @ CHR ''/'' # s \<longleftrightarrow> m = n \<and> r = s"
  using show_nat_prefix_inj [of "CHR ''/''" "CHR ''/''"] by (simp add: is_ascii_digit_def)

lemma liveliness_key_inj:
  "liveliness_key n e kind fqn ty h q = liveliness_key n e' kind' fqn' ty' h' q' \<Longrightarrow> e = e'"
  by (simp add: liveliness_key_def entity_liveliness_keyexpr_def node_ids_def token_prefix_inj)

lemma node_key_not_entity: "kind \<noteq> Node \<Longrightarrow> node_key n \<noteq> liveliness_key n e kind fqn ty h q"
  by (cases kind) (simp_all add: node_key_def node_liveliness_keyexpr_def liveliness_key_def
      entity_liveliness_keyexpr_def node_ids_def token_prefix_inj)

text \<open>The state after a creation that got past its declaration.\<close>

definition announced :: "environment \<Rightarrow> zenoh_declaration list \<Rightarrow> string \<Rightarrow> zenoh_node \<Rightarrow> zenoh_node" where
  "announced env ds k n = n\<lparr>zn_next_entity_id := (zn_next_entity_id n + 1) mod 2 ^ 64,
     zn_declared := zn_declared n @ ds @ (if zok env (DeclToken k) then [DeclToken k] else [])\<rparr>"

lemma run_request_announced:
  "run_request env (ReqPublisher tp q h) n =
     (let d = DeclPublisher (topic_keyexpr (zn_domain_id n) (tp_fully_qualified_name tp) (tp_dds_type_name tp) h) in
      if zok env d then announced env [d] (entity_liveliness_key n (zn_next_entity_id n) Publisher tp h
        (case q of Some q \<Rightarrow> q | None \<Rightarrow> tp_qos tp)) n else n)"
  "run_request env (ReqSubscription tp q) n =
     (let d = DeclSubscriber (topic_keyexpr (zn_domain_id n) (tp_fully_qualified_name tp) (tp_dds_type_name tp) WILDCARD) in
      if zok env d then announced env [d] (entity_liveliness_key n (zn_next_entity_id n) Subscription tp
        (sender_hash (sha256 env) (tp_dds_type_name tp)) (case q of Some q \<Rightarrow> q | None \<Rightarrow> tp_qos tp)) n else n)"
  "run_request env (ReqClient s ty t) n =
     announced env [] (liveliness_key n (zn_next_entity_id n) ServiceClient (resolve_fqn s (zn_node_name n))
       (dds_service_type ty) (sender_hash (sha256 env) (dds_service_type ty)) qos_default) n"
  "run_request env (ReqServer s ty h) n =
     (let d = DeclQueryable (topic_keyexpr (zn_domain_id n) (resolve_fqn s (zn_node_name n)) (dds_service_type ty) h) in
      if zok env d then announced env [d] (liveliness_key n (zn_next_entity_id n) ServiceServer
        (resolve_fqn s (zn_node_name n)) (dds_service_type ty) h qos_default) n else n)"
  by (simp_all add: node_op_defs create_publisher_with_type_hash_def create_subscription_def create_client_inner_def
      create_raw_server_with_type_hash_def announced_def entity_liveliness_key_def)

lemma run_request_effect:
  "run_request env r n = n \<or>
   (\<exists>kind fqn ty h q ds. kind \<noteq> Node \<and> concat (map token_of ds) = []
      \<and> run_request env r n = announced env ds (liveliness_key n (zn_next_entity_id n) kind fqn ty h q) n)"
proof -
  have k: "Publisher \<noteq> Node" "Subscription \<noteq> Node" "ServiceClient \<noteq> Node" "ServiceServer \<noteq> Node" by simp_all
  have t: "concat (map token_of [DeclPublisher x]) = []" "concat (map token_of [DeclSubscriber x]) = []"
    "concat (map token_of [DeclQueryable x]) = []" "concat (map token_of []) = []" for x by simp_all
  note ann = run_request_announced [unfolded Let_def entity_liveliness_key_def]
  show ?thesis
  proof (cases r)
    case (ReqPublisher tp q h)
    show ?thesis unfolding ReqPublisher ann by (split if_split) (use k t in blast)
  next
    case (ReqSubscription tp q)
    show ?thesis unfolding ReqSubscription ann by (split if_split) (use k t in blast)
  next
    case (ReqClient s ty t)
    show ?thesis unfolding ReqClient ann using k t by blast
  next
    case (ReqServer s ty h)
    show ?thesis unfolding ReqServer ann by (split if_split) (use k t in blast)
  qed
qed

lemma announced_fields:
  assumes "concat (map token_of ds) = []"
  shows "tokens (announced env ds k n) = tokens n @ (if zok env (DeclToken k) then [k] else [])"
    and "identity (announced env ds k n) = identity n"
    and "zn_next_entity_id (announced env ds k n) = (zn_next_entity_id n + 1) mod 2 ^ 64"
  using assms by (simp_all add: announced_def tokens_def identity_def)

lemma liveliness_key_identity: "identity n' = identity n \<Longrightarrow> liveliness_key n' = liveliness_key n \<and> node_key n' = node_key n"
  by (simp add: identity_def liveliness_key_def node_key_def node_ids_def fun_eq_iff)

lemma token_inv_announced:
  assumes "token_inv n" and "zn_next_entity_id n + 1 < 2 ^ 64" and "kind \<noteq> Node" and "concat (map token_of ds) = []"
    and k_def: "k = liveliness_key n (zn_next_entity_id n) kind fqn ty h q"
  shows "token_inv (announced env ds k n)"
proof -
  let ?n = "announced env ds k n"
  note same = liveliness_key_identity [OF announced_fields(2) [OF assms(4)]]
  have next_id: "zn_next_entity_id ?n = zn_next_entity_id n + 1"
    using announced_fields(3) [OF assms(4)] assms(2) by simp
  have k: "k \<notin> set (tokens n)"
    using assms(1,3) liveliness_key_inj node_key_not_entity unfolding token_inv_def k_def by (metis less_irrefl)
  then have "distinct (tokens ?n)"
    using assms(1) by (simp add: announced_fields(1) [OF assms(4)] token_inv_def)
  moreover have "x = node_key n \<or> (\<exists>eid kind fqn ty h q. eid < zn_next_entity_id n + 1 \<and> kind \<noteq> Node \<and> x = liveliness_key n eid kind fqn ty h q)"
    if "x \<in> set (tokens ?n)" for x
  proof (cases "x = k")
    case True
    then show ?thesis using assms(3) unfolding k_def by (metis less_add_one)
  next
    case False
    then have "x \<in> set (tokens n)" using that by (auto simp: announced_fields(1) [OF assms(4)] split: if_splits)
    then show ?thesis using assms(1) unfolding token_inv_def by (metis add.commute trans_less_add2)
  qed
  ultimately show ?thesis by (simp add: token_inv_def same next_id)
qed

lemma token_inv_request:
  assumes "token_inv n" and "zn_next_entity_id n + 1 < 2 ^ 64"
  shows "token_inv (run_request env r n) \<and> zn_next_entity_id (run_request env r n) \<le> zn_next_entity_id n + 1"
  using run_request_effect [of env r n]
proof (elim disjE exE conjE)
  fix kind fqn ty h q ds
  assume k: "kind \<noteq> Node" and ds: "concat (map token_of ds) = []"
    and r: "run_request env r n = announced env ds (liveliness_key n (zn_next_entity_id n) kind fqn ty h q) n"
  show ?thesis
    unfolding r using token_inv_announced [OF assms k ds refl] announced_fields(3) [OF ds] assms(2) by simp
qed (use assms in simp)

lemma token_inv_run:
  "token_inv n \<Longrightarrow> zn_next_entity_id n + length rs < 2 ^ 64 \<Longrightarrow> token_inv (fold (run_request env) rs n)"
proof (induction rs arbitrary: n)
  case (Cons r rs)
  then have "token_inv (run_request env r n)" "zn_next_entity_id (run_request env r n) + length rs < 2 ^ 64"
    using token_inv_request [of n env r] by auto
  then show ?case using Cons.IH by simp
qed simp

lemma token_inv_new: "token_inv (zenoh_node_new env d zid nm i)"
  by (simp add: token_inv_def zenoh_node_new_def declare_liveliness_def tokens_def node_key_def node_ids_def Let_def)

subsection \<open>Properties\<close>

text \<open>C11. A publisher is discovered as it was created: when a node with a valid name creates one on a
  valid topic name and its liveliness token is declared, a peer that receives the token counts one
  more publisher on the resolved topic, and its cache holds the publisher's type, hash and node
  name and a QoS text that decodes to the profile it was created with.\<close>

theorem publisher_discovered:
  assumes "wf_znode n" and "wf_name nm" and "wf_qos q" and "CHR ''/'' \<notin> set hash"
    and "create_publisher_with_type_hash env (create_topic n nm ty q) None hash n = (Ok p, n')"
    and "zp_token p = Some k" and "graph_inv c" and "k \<notin> live_keys c"
  shows "publisher_count (resolve_fqn nm (zn_node_name n)) (apply_put k c) =
      publisher_count (resolve_fqn nm (zn_node_name n)) c + 1
    \<and> (\<exists>e s. map_of (entities (apply_put k c)) k = Some e
        \<and> join_fqn (pe_namespace e) (pe_node_name e) = fully_qualified_name (zn_node_name n)
        \<and> pe_type_name e = Some (dds_msg_type ty) \<and> pe_type_hash e = Some hash
        \<and> pe_qos e = Some s \<and> decode_qos s = Ok q)"
proof -
  let ?fqn = "resolve_fqn nm (zn_node_name n)"
  have w: "wf_node_name (zn_node_name n)" "zn_next_entity_id n < 2 ^ 64" using assms(1) by (simp_all add: wf_znode_def)
  have k: "k = liveliness_key n (zn_next_entity_id n) Publisher ?fqn (dds_msg_type ty) hash q"
    using create_publisher_Ok(2) [OF assms(5,6)] by (simp add: create_topic_def)
  obtain e where e: "parse_liveliness_key k = Some e" "pe_kind e = Publisher" "pe_topic_name e = Some ?fqn"
    "pe_namespace e = node_namespace (zn_node_name n)" "pe_node_name e = node_base_name (zn_node_name n)"
    "pe_type_name e = Some (dds_msg_type ty)" "pe_type_hash e = Some hash" "pe_qos e = Some (encode_qos q)"
    unfolding k using liveliness_key_parsed [OF assms(1) w(2), of Publisher "dds_msg_type ty" hash ?fqn q] assms(4)
      dds_type_no_slash(1) resolve_fqn_no_percent [OF assms(2) w(1)] resolve_fqn_slash [OF w(1)] by simp
  have "map_of (entities (apply_put k c)) k = Some e"
    using e(1) by (simp add: apply_put_def Let_def map_laws)
  then show ?thesis
    using e count_put_token [OF assms(7) e(1-3)] assms(8) join_fqn_fully_qualified [OF w(1)] qos.dec_enc [OF assms(3)]
    by (simp add: publisher_count_def)
qed

text \<open>A session that takes every declaration.\<close>

definition open_env :: environment where
  "open_env = \<lparr>zok = (\<lambda>_. True), sha256 = (\<lambda>_. replicate 32 0), xxh3_128 = (\<lambda>s. word_of_nat (length s))\<rparr>"

definition talker_node :: zenoh_node where
  "talker_node = zenoh_node_new open_env 0 ''aac3'' \<lparr>node_namespace = ''/robot1'', node_base_name = ''talker''\<rparr> 3"

lemma talker_node_fields:
  "zn_domain_id talker_node = 0" "zn_node_name talker_node = \<lparr>node_namespace = ''/robot1'', node_base_name = ''talker''\<rparr>"
  "wf_node_name (zn_node_name talker_node)" "wf_znode talker_node"
proof -
  have w: "wf_node_name \<lparr>node_namespace = ''/robot1'', node_base_name = ''talker''\<rparr>" by code_simp
  show "zn_domain_id talker_node = 0" "zn_node_name talker_node = \<lparr>node_namespace = ''/robot1'', node_base_name = ''talker''\<rparr>"
    "wf_node_name (zn_node_name talker_node)" "wf_znode talker_node"
    using w by (simp_all add: talker_node_def zenoh_node_new_def declare_liveliness_def open_env_def Let_def wf_znode_def)
qed

theorem publisher_discovered_witness:
  "\<exists>p n' k. create_publisher_with_type_hash open_env (create_topic talker_node
       \<lparr>base_name = ''chatter'', preceeding_tokens = [], absolute = False\<rparr> (message_type_name_new ''std_msgs'' ''String'') sensor_qos) None ''RIHS01_0'' talker_node = (Ok p, n')
     \<and> zp_token p = Some k \<and> publisher_count ''/robot1/chatter'' (apply_put k graph_cache_default) = 1"
proof -
  let ?nm = "\<lparr>base_name = ''chatter'', preceeding_tokens = [], absolute = False\<rparr>"
  have nm: "wf_name ?nm" by code_simp
  have fqn: "resolve_fqn ?nm (zn_node_name talker_node) = ''/robot1/chatter''"
    by (simp add: resolve_fqn_def talker_node_fields show_name_def)
  obtain p n' k where p: "create_publisher_with_type_hash open_env (create_topic talker_node ?nm (message_type_name_new ''std_msgs'' ''String'') sensor_qos) None ''RIHS01_0'' talker_node = (Ok p, n')"
    "zp_token p = Some k"
    by (simp add: create_publisher_with_type_hash_def node_op_defs open_env_def)
  have "publisher_count ''/robot1/chatter'' graph_cache_default = 0"
    by (simp add: publisher_count_def count_kind_on_topic_def graph_cache_default_def)
  then show ?thesis
    using publisher_discovered [OF talker_node_fields(4) nm wf_sensor_qos _ p graph_inv_default] p unfolding fqn by auto
qed

text \<open>C23. The endpoints of an action meet: when a client and a server of the same action type are
  created in the same domain under names that resolve alike, the client's three service selectors
  are the server's queryable keys, and its feedback and status subscriptions are the server's
  publication keys with the wildcard in place of the one-chunk type hash.\<close>

theorem action_endpoints_match:
  assumes "create_action_client env act ty a = (Ok c, a')" and "create_action_server env' act' ty b = (Ok s, b')"
    and "wf_node_name (zn_node_name a)" and "wf_node_name (zn_node_name b)"
    and "zn_domain_id a = zn_domain_id b" and "sha256 env = sha256 env'"
    and "resolve_fqn act (zn_node_name a) = resolve_fqn act' (zn_node_name b)"
  shows "zc_selector (ac_send_goal c) = zv_key (as_send_goal s)
    \<and> zc_selector (ac_get_result c) = zv_key (as_get_result s)
    \<and> zc_selector (ac_cancel_goal c) = zv_key (as_cancel_goal s)
    \<and> (\<exists>pre h. CHR ''/'' \<notin> set h \<and> zs_key (ac_feedback c) = pre @ ''/*'' \<and> zp_key (as_feedback s) = pre @ ''/'' @ h)
    \<and> (\<exists>pre h. CHR ''/'' \<notin> set h \<and> zs_key (ac_status c) = pre @ ''/*'' \<and> zp_key (as_status s) = pre @ ''/'' @ h)"
proof -
  have split: "\<exists>pre. k = pre @ ''/*'' \<and> k' = pre @ ''/'' @ h"
    if "sub_key d f sub mty WILDCARD k" "sub_key d f sub mty h k'" for d f sub mty h k k'
    using that by (force simp: sub_key_def topic_keyexpr_def WILDCARD_def)
  note client = action_client_endpoints [OF assms(1,3)] and server = action_server_endpoints [OF assms(2,4)]
  show ?thesis
    using client server split assms(5-7) sub_key_unique unfolding action_service_key_def by metis
qed

lemma fib_sub_names:
  "action_sub_name ''/fib'' ''send_goal'' = Ok \<lparr>base_name = ''send_goal'', preceeding_tokens = [''fib'', ''_action''], absolute = True\<rparr>"
  "action_sub_name ''/fib'' ''get_result'' = Ok \<lparr>base_name = ''get_result'', preceeding_tokens = [''fib'', ''_action''], absolute = True\<rparr>"
  "action_sub_name ''/fib'' ''feedback'' = Ok \<lparr>base_name = ''feedback'', preceeding_tokens = [''fib'', ''_action''], absolute = True\<rparr>"
  "action_sub_name ''/fib'' ''cancel_goal'' = Ok \<lparr>base_name = ''cancel_goal'', preceeding_tokens = [''fib'', ''_action''], absolute = True\<rparr>"
  "action_sub_name ''/fib'' ''status'' = Ok \<lparr>base_name = ''status'', preceeding_tokens = [''fib'', ''_action''], absolute = True\<rparr>"
  by code_simp+

text \<open>Operations that succeed in every state.\<close>

definition succeeds :: "'a node_op \<Rightarrow> bool" where
  "succeeds m \<longleftrightarrow> (\<forall>n. \<exists>x n'. m n = (Ok x, n'))"

named_theorems op_succeeds

lemma succeeds_bind [op_succeeds]: "succeeds m \<Longrightarrow> (\<And>x. succeeds (f x)) \<Longrightarrow> succeeds (znode_bind m f)"
  unfolding succeeds_def znode_bind_Ok by metis

lemma succeeds_return [op_succeeds]: "succeeds (znode_return x)"
  by (simp add: succeeds_def)

lemma succeeds_create [op_succeeds]:
  "succeeds (create_client open_env s ty)" "succeeds (create_client_inner open_env s ty t)"
  "succeeds (create_subscription open_env tp q)" "succeeds (create_server open_env s ty)" "succeeds (create_publisher open_env tp q)"
  by (simp_all add: succeeds_def create_client_def create_client_inner_def create_subscription_def create_server_def
      create_publisher_def create_publisher_with_type_hash_def node_op_defs open_env_def)

lemma succeeds_sub [op_succeeds]:
  "action_sub_name fqn sub = Ok nm \<Longrightarrow> succeeds (sub_entity fqn sub)"
  "action_sub_name fqn sub = Ok nm \<Longrightarrow> succeeds (sub_topic fqn sub mty)"
  by (simp_all add: succeeds_def sub_entity_def sub_topic_def znode_bind_def znode_name_def znode_return_def)

theorem action_endpoints_match_witness:
  "\<exists>c a' s b'. create_action_client open_env \<lparr>base_name = ''fib'', preceeding_tokens = [], absolute = True\<rparr>
       (action_type_name_new ''example_interfaces'' ''Fibonacci'') talker_node = (Ok c, a')
     \<and> create_action_server open_env \<lparr>base_name = ''fib'', preceeding_tokens = [], absolute = True\<rparr>
       (action_type_name_new ''example_interfaces'' ''Fibonacci'') talker_node = (Ok s, b')
     \<and> zc_selector (ac_send_goal c) = zv_key (as_send_goal s)"
proof -
  let ?nm = "\<lparr>base_name = ''fib'', preceeding_tokens = [], absolute = True\<rparr>"
    and ?ty = "action_type_name_new ''example_interfaces'' ''Fibonacci''"
  have f: "resolve_fqn ?nm node = ''/fib''" for node by (simp add: resolve_fqn_def show_name_def)
  note run = succeeds_create succeeds_sub [OF fib_sub_names(1)] succeeds_sub [OF fib_sub_names(2)]
    succeeds_sub [OF fib_sub_names(3)] succeeds_sub [OF fib_sub_names(4)] succeeds_sub [OF fib_sub_names(5)]
  obtain c a' where c: "create_action_client open_env ?nm ?ty talker_node = (Ok c, a')"
  proof -
    have "succeeds (create_action_client open_env ?nm ?ty)"
      unfolding create_action_client_def f Let_def by (intro succeeds_bind succeeds_return run)
    then show ?thesis using that unfolding succeeds_def by blast
  qed
  obtain s b' where s: "create_action_server open_env ?nm ?ty talker_node = (Ok s, b')"
  proof -
    have "succeeds (create_action_server open_env ?nm ?ty)"
      unfolding create_action_server_def f Let_def by (intro succeeds_bind succeeds_return run)
    then show ?thesis using that unfolding succeeds_def by blast
  qed
  show ?thesis
    using c s action_endpoints_match [OF c s talker_node_fields(3) talker_node_fields(3)] by auto
qed

text \<open>A node's parameter services exist only if its fully qualified name is a name for services:
  \<open>NodeName\<close> accepts a double underscore, \<open>Name\<close> does not, so the parameter server of a node
  called \<open>a__b\<close> cannot be created, whatever the session.\<close>

lemma parameter_server_refused:
  "node_name_new ''/'' ''a__b'' = Ok \<lparr>node_namespace = ''/'', node_base_name = ''a__b''\<rparr>
   \<and> (let n = zenoh_node_new env d zid \<lparr>node_namespace = ''/'', node_base_name = ''a__b''\<rparr> i
      in create_parameter_server env n = (Err (NameErr (BadChar ''?'')), n))"
proof -
  have "param_service_name ''/a__b'' ''get_parameters'' = Err (BadChar ''?'')" by code_simp
  moreover have "zn_node_name (zenoh_node_new env d zid nm i) = nm" for nm
    by (simp add: zenoh_node_new_def declare_liveliness_def Let_def)
  ultimately have "create_parameter_server env n = (Err (NameErr (BadChar ''?'')), n)"
    if "n = zenoh_node_new env d zid \<lparr>node_namespace = ''/'', node_base_name = ''a__b''\<rparr> i" for n
    using that by (simp add: create_parameter_server_def parameter_services_def fully_qualified_name_def
        ends_with_char_def znode_bind_def znode_name_def Let_def)
  moreover have "node_name_new ''/'' ''a__b'' = Ok \<lparr>node_namespace = ''/'', node_base_name = ''a__b''\<rparr>"
    by code_simp
  ultimately show ?thesis by simp
qed

text \<open>The liveliness tokens of a node are pairwise distinct, so every entity it creates is seen as
  one of its own by every peer: after any fewer than \<open>2\<^sup>64\<close> creations, whatever the session refuses,
  no two declared tokens are the same.\<close>

lemma tokens_unique:
  assumes "length rs < 2 ^ 64"
  shows "distinct (tokens (fold (run_request env) rs (zenoh_node_new env d zid nm i)))"
proof -
  have "zn_next_entity_id (zenoh_node_new env d zid nm i) = 0"
    by (simp add: zenoh_node_new_def declare_liveliness_def Let_def)
  then have "token_inv (fold (run_request env) rs (zenoh_node_new env d zid nm i))"
    using assms by (intro token_inv_run token_inv_new) simp
  then show ?thesis by (simp add: token_inv_def)
qed

lemma tokens_unique_witness:
  "let r = ReqServer \<lparr>base_name = ''add'', preceeding_tokens = [], absolute = True\<rparr> cancel_goal_type ''h''
   in distinct (tokens (fold (run_request open_env) [r, r] talker_node))"
  unfolding Let_def talker_node_def by (rule tokens_unique) simp

end
