(* ===== verification/Zenoh_Context.thy ===== *)
theory Zenoh_Context
  imports Zenoh_Node
begin

text \<open>
  The context of the Zenoh backend (\<open>zenoh_backend/context.rs\<close>): node ids, the feeding of the
  graph cache, waiting for an entity to appear, and the configuration taken from the environment.
  Zenoh's configuration object is code of another crate: its type is a type variable and the
  functions that load it and insert into it are parameters.
\<close>

subsection \<open>Configuration from the environment\<close>

text \<open>What the context uses of Zenoh: the default configuration, loading one from a file,
  assigning a JSON5 value to a configuration path, opening a session (its id), and declaring the
  liveliness subscriber; each may fail. The environment variables are arguments.\<close>

record 'c zenoh_lib =
  config_default :: 'c
  config_from_file :: "string \<Rightarrow> 'c option"
  insert_json5 :: "'c \<Rightarrow> string \<Rightarrow> string \<Rightarrow> 'c option"
  open_session :: "'c \<Rightarrow> string option"
  declare_liveliness_subscriber :: "'c \<Rightarrow> string \<Rightarrow> bool"

datatype config_error =
    LoadFailed string | NotKeyValue string | InsertFailed string
  | OpenFailed | SubscribeFailed | ConfigPanic string

definition is_whitespace :: "rust_char \<Rightarrow> bool" where
  "is_whitespace c \<longleftrightarrow>
     (let n = code_point c
      in 9 \<le> n \<and> n \<le> 13 \<or> n = 32 \<or> n = 133 \<or> n = 160 \<or> n = 5760 \<or> 8192 \<le> n \<and> n \<le> 8202
         \<or> n = 8232 \<or> n = 8233 \<or> n = 8239 \<or> n = 8287 \<or> n = 12288)"

definition str_trim :: "string \<Rightarrow> string" where
  "str_trim s = concat (rev (dropWhile is_whitespace (rev (dropWhile is_whitespace (utf8_chars s)))))"

fun apply_entries :: "'c zenoh_lib \<Rightarrow> string list \<Rightarrow> 'c \<Rightarrow> config_error + 'c" where
  "apply_entries z [] config = Ok config"
| "apply_entries z (entry # entries) config =
     (case split_once (CHR ''='') entry of
        None \<Rightarrow> Err (NotKeyValue entry)
      | Some (key, value) \<Rightarrow>
          (case insert_json5 z config (str_trim key) (str_trim value) of
             None \<Rightarrow> Err (InsertFailed (str_trim key))
           | Some config' \<Rightarrow> apply_entries z entries config'))"

definition override_entries :: "string \<Rightarrow> string list" where
  "override_entries overrides = filter (\<lambda>s. s \<noteq> []) (map str_trim (split_on (CHR '';'') overrides))"

definition apply_config_overrides :: "'c zenoh_lib \<Rightarrow> string \<Rightarrow> 'c \<Rightarrow> config_error + 'c" where
  "apply_config_overrides z overrides config = apply_entries z (override_entries overrides) config"

text \<open>An assignment of the built-in configuration; a failure is the panic of \<open>expect\<close>.\<close>

definition expect_insert :: "'c zenoh_lib \<Rightarrow> string \<Rightarrow> string \<Rightarrow> 'c \<Rightarrow> config_error + 'c" where
  "expect_insert z key value config =
     (case insert_json5 z config key value of Some c \<Rightarrow> Ok c | None \<Rightarrow> Err (ConfigPanic key))"

definition default_config :: "'c zenoh_lib \<Rightarrow> config_error + 'c" where
  "default_config z =
     and_then (expect_insert z ''mode'' (dquote # ''peer'' @ [dquote]) (config_default z)) (\<lambda>c1.
     and_then (expect_insert z ''listen/endpoints'' (''['' @ dquote # ''tcp/127.0.0.1:0'' @ [dquote] @ '']'') c1) (\<lambda>c2.
       expect_insert z ''scouting/multicast/enabled'' ''false'' c2))"

definition config_from_env :: "'c zenoh_lib \<Rightarrow> string option \<Rightarrow> string option \<Rightarrow> config_error + 'c" where
  "config_from_env z uri_var override_var =
     and_then
       (case uri_var of
          Some uri \<Rightarrow>
            if str_trim uri \<noteq> []
            then (case config_from_file z (str_trim uri) of Some c \<Rightarrow> Ok c | None \<Rightarrow> Err (LoadFailed uri))
            else default_config z
        | None \<Rightarrow> default_config z)
       (\<lambda>config. case override_var of
          Some overrides \<Rightarrow> apply_config_overrides z overrides config | None \<Rightarrow> Ok config)"

subsection \<open>The context\<close>

record 'c context_options =
  co_domain_id :: nat
  co_config :: "'c option"

definition context_options_new :: "'c context_options" where
  "context_options_new = \<lparr>co_domain_id = 0, co_config = None\<rparr>"

definition with_domain_id :: "'c context_options \<Rightarrow> nat \<Rightarrow> 'c context_options" where
  "with_domain_id opt d = opt\<lparr>co_domain_id := d\<rparr>"

definition with_zenoh_config :: "'c context_options \<Rightarrow> 'c \<Rightarrow> 'c context_options" where
  "with_zenoh_config opt config = opt\<lparr>co_config := Some config\<rparr>"

record zenoh_context =
  cx_zid :: string
  cx_domain_id :: nat
  cx_next_node_id :: nat
  cx_graph_cache :: graph_cache

definition with_options ::
    "'c zenoh_lib \<Rightarrow> string option \<Rightarrow> string option \<Rightarrow> 'c context_options \<Rightarrow> config_error + zenoh_context" where
  "with_options z uri_var override_var opt =
     and_then (case co_config opt of Some config \<Rightarrow> Ok config | None \<Rightarrow> config_from_env z uri_var override_var)
       (\<lambda>config. case open_session z config of
          None \<Rightarrow> Err OpenFailed
        | Some zid \<Rightarrow>
            if declare_liveliness_subscriber z config (graph_cache_keyexpr (co_domain_id opt))
            then Ok \<lparr>cx_zid = zid, cx_domain_id = co_domain_id opt, cx_next_node_id = 0,
                     cx_graph_cache = graph_cache_default\<rparr>
            else Err SubscribeFailed)"

definition context_new :: "'c zenoh_lib \<Rightarrow> string option \<Rightarrow> string option \<Rightarrow> config_error + zenoh_context" where
  "context_new z uri_var override_var = with_options z uri_var override_var context_options_new"

text \<open>The callback of the liveliness subscriber.\<close>

datatype sample_kind = SamplePut | SampleDelete

definition on_liveliness_sample :: "sample_kind \<Rightarrow> string \<Rightarrow> zenoh_context \<Rightarrow> zenoh_context" where
  "on_liveliness_sample kind key cx =
     (case kind of
        SamplePut \<Rightarrow> cx\<lparr>cx_graph_cache := apply_put key (cx_graph_cache cx)\<rparr>
      | SampleDelete \<Rightarrow> cx\<lparr>cx_graph_cache := apply_delete key (cx_graph_cache cx)\<rparr>)"

definition publisher_count_ctx :: "zenoh_context \<Rightarrow> string \<Rightarrow> nat" where
  "publisher_count_ctx cx topic = publisher_count topic (cx_graph_cache cx)"

definition subscription_count_ctx :: "zenoh_context \<Rightarrow> string \<Rightarrow> nat" where
  "subscription_count_ctx cx topic = subscription_count topic (cx_graph_cache cx)"

definition node_names_ctx :: "zenoh_context \<Rightarrow> string list" where
  "node_names_ctx cx = node_names (cx_graph_cache cx)"

definition graph_event_stream :: "zenoh_context \<Rightarrow> nat \<times> zenoh_context" where
  "graph_event_stream cx = (let (stream, c) = subscribe (cx_graph_cache cx) in (stream, cx\<lparr>cx_graph_cache := c\<rparr>))"

definition new_node :: "environment \<Rightarrow> node_name \<Rightarrow> zenoh_context \<Rightarrow> zenoh_node \<times> zenoh_context" where
  "new_node env nm cx =
     (zenoh_node_new env (cx_domain_id cx) (cx_zid cx) nm (cx_next_node_id cx),
      cx\<lparr>cx_next_node_id := (cx_next_node_id cx + 1) mod 2 ^ 64\<rparr>)"

subsection \<open>Waiting for an entity\<close>

fun event_matches :: "entity_kind \<Rightarrow> string \<Rightarrow> graph_event \<Rightarrow> bool" where
  "event_matches kind nm (EntityDeclared e) \<longleftrightarrow> ge_kind e = kind \<and> ge_name e = Some nm"
| "event_matches kind nm (EntityUndeclared e) \<longleftrightarrow> False"

text \<open>The loop over the events received so far; whether it returned.\<close>

fun wait_loop :: "entity_kind \<Rightarrow> string \<Rightarrow> graph_event list \<Rightarrow> bool" where
  "wait_loop kind nm [] \<longleftrightarrow> False"
| "wait_loop kind nm (ev # evs) \<longleftrightarrow> (if event_matches kind nm ev then True else wait_loop kind nm evs)"

text \<open>\<open>wait_for\<close>, with what happens to the cache between its subscription and its check
  (\<open>before\<close>) and after the check (\<open>after\<close>): whether it has returned by then.\<close>

definition wait_for :: "entity_kind \<Rightarrow> string \<Rightarrow> graph_op list \<Rightarrow> graph_op list \<Rightarrow> graph_cache \<Rightarrow> bool" where
  "wait_for kind nm before after c =
     (let (stream, c1) = subscribe c;
          c2 = graph_run before c1
      in if count_kind_on_topic kind nm c2 > 0 then True
         else case channel_log stream (graph_run after c2) of
                Some evs \<Rightarrow> wait_loop kind nm evs | None \<Rightarrow> False)"

definition wait_for_publisher :: "string \<Rightarrow> graph_op list \<Rightarrow> graph_op list \<Rightarrow> graph_cache \<Rightarrow> bool" where
  "wait_for_publisher topic = wait_for Publisher topic"

definition wait_for_subscription :: "string \<Rightarrow> graph_op list \<Rightarrow> graph_op list \<Rightarrow> graph_cache \<Rightarrow> bool" where
  "wait_for_subscription topic = wait_for Subscription topic"

subsection \<open>Lemmas on histories\<close>

lemma wait_loop_iff: "wait_loop kind nm evs \<longleftrightarrow> (\<exists>ev\<in>set evs. event_matches kind nm ev)"
  by (induction evs) auto

lemma graph_run_append: "graph_run (xs @ ys) c = graph_run ys (graph_run xs c)"
  by (simp add: graph_run_def)

lemma live_run_put:
  "k \<in> live_run ops live \<Longrightarrow> k \<notin> live \<Longrightarrow> is_token k \<and> PutSample k \<in> set ops"
proof (induction ops arbitrary: live)
  case (Cons op ops)
  then show ?case
    by (cases op) (fastforce simp: live_run_def split: if_splits)+
qed (simp add: live_run_def)

lemma put_event: "PutSample k \<in> set ops \<Longrightarrow> is_token k \<Longrightarrow> EntityDeclared (token_entity k) \<in> set (events_run live ops)"
  by (induction ops arbitrary: live) auto

lemma events_run_append: "events_run live (xs @ ys) = events_run live xs @ events_run (live_run xs live) ys"
  by (induction xs arbitrary: live) (auto simp: live_run_def)

lemma count_pos:
  assumes "graph_inv c"
  shows "count_kind_on_topic kind nm c > 0 \<longleftrightarrow> (\<exists>k\<in>live_keys c. event_matches kind nm (EntityDeclared (token_entity k)))"
proof -
  let ?K = "{k \<in> live_keys c. \<exists>e. parse_liveliness_key k = Some e \<and> pe_kind e = kind \<and> pe_topic_name e = Some nm}"
  have "finite ?K" by (rule finite_subset [of _ "live_keys c"]) (auto simp: live_keys_def finite_dom_map_of)
  then have "count_kind_on_topic kind nm c > 0 \<longleftrightarrow> ?K \<noteq> {}"
    by (simp add: count_kind_on_topic_card [OF assms] card_gt_0_iff)
  moreover have "event_matches kind nm (EntityDeclared (token_entity k)) \<longleftrightarrow>
      (\<exists>e. parse_liveliness_key k = Some e \<and> pe_kind e = kind \<and> pe_topic_name e = Some nm)"
    if "k \<in> live_keys c" for k
  proof -
    obtain e where "map_of (entities c) k = Some e" using \<open>k \<in> live_keys c\<close> unfolding live_keys_def by blast
    then have "parse_liveliness_key k = Some e" using assms by (simp add: graph_inv_def)
    then show ?thesis by (simp add: token_entity_def graph_entity_from_def)
  qed
  ultimately show ?thesis by blast
qed

lemma event_declared_put:
  "EntityDeclared e \<in> set (events_run live ops) \<Longrightarrow> \<exists>k. PutSample k \<in> set ops \<and> is_token k \<and> e = token_entity k"
proof (induction ops arbitrary: live)
  case (Cons op ops)
  then show ?case by (cases op) (fastforce split: if_splits)+
qed simp

subsection \<open>Properties\<close>

text \<open>C12. Waiting loses no wake-up: because the waiter subscribes before it looks at the cache, it has
  returned whenever a matching entity is in the graph at the end, however the samples interleave
  with the subscription and the check; and it returns only if a matching entity was there at the
  check or was declared since the subscription.\<close>

theorem wait_for_no_lost_wakeup:
  assumes "graph_inv c" and "DropReceiver (fst (subscribe c)) \<notin> set (before @ after)"
  defines "final \<equiv> graph_run (before @ after) (snd (subscribe c))"
  shows "(count_kind_on_topic kind nm final > 0 \<longrightarrow> wait_for kind nm before after c)
    \<and> (wait_for kind nm before after c \<longrightarrow>
        count_kind_on_topic kind nm (graph_run before (snd (subscribe c))) > 0
        \<or> (\<exists>k. PutSample k \<in> set (before @ after) \<and> is_token k \<and> event_matches kind nm (EntityDeclared (token_entity k))))"
proof -
  let ?i = "fst (subscribe c)" and ?c1 = "snd (subscribe c)"
  let ?c2 = "graph_run before ?c1" and ?live = "live_keys ?c1"
  have inv1: "graph_inv ?c1" using graph_inv_subscribe [OF assms(1)] .
  have inv2: "graph_inv ?c2" and inv3: "graph_inv final" using inv1 by (simp_all add: graph_inv_run final_def)
  have log: "channel_log ?i (graph_run after ?c2) = Some (events_run ?live (before @ after))"
    using channel_log_run [OF inv1 channel_log_new [OF assms(1)] assms(2)] by (simp add: graph_run_append)
  have w: "wait_for kind nm before after c \<longleftrightarrow> count_kind_on_topic kind nm ?c2 > 0
      \<or> (\<exists>ev\<in>set (events_run ?live (before @ after)). event_matches kind nm ev)"
    using log by (simp add: wait_for_def Let_def case_prod_unfold wait_loop_iff)
  have "wait_for kind nm before after c" if found: "count_kind_on_topic kind nm final > 0"
  proof -
    obtain k where k: "k \<in> live_keys final" "event_matches kind nm (EntityDeclared (token_entity k))"
      using found unfolding count_pos [OF inv3] by (rule bexE)
    have live: "live_keys final = live_run after (live_keys ?c2)"
      by (simp add: final_def graph_run_append live_keys_run [OF inv2])
    show ?thesis
    proof (cases "k \<in> live_keys ?c2")
      case True
      then have "count_kind_on_topic kind nm ?c2 > 0" unfolding count_pos [OF inv2] using k(2) by (rule bexI [rotated])
      then show ?thesis unfolding w ..
    next
      case False
      then have "is_token k \<and> PutSample k \<in> set after" using k(1) live live_run_put by blast
      then have "EntityDeclared (token_entity k) \<in> set (events_run ?live (before @ after))"
        by (intro put_event) simp_all
      then show ?thesis unfolding w using k(2) by blast
    qed
  qed
  moreover have "\<exists>k. PutSample k \<in> set (before @ after) \<and> is_token k \<and> event_matches kind nm (EntityDeclared (token_entity k))"
    if ev: "ev \<in> set (events_run ?live (before @ after))" "event_matches kind nm ev" for ev
  proof -
    obtain e where e: "ev = EntityDeclared e" using ev(2) by (cases ev) auto
    then obtain k where "PutSample k \<in> set (before @ after)" "is_token k" "e = token_entity k"
      using ev(1) event_declared_put by blast
    then show ?thesis using e ev(2) by blast
  qed
  ultimately show ?thesis using w by blast
qed

lemma chatter_token:
  "parse_liveliness_key ''@ros2_lv/0/a/0/1/MP/%/%/t/%c/T_/h/::,1:,:,:,,'' = Some
    \<lparr>pe_domain_id = 0, pe_zid = ''a'', pe_node_id = 0, pe_entity_id = 1, pe_kind = Publisher,
     pe_namespace = ''/'', pe_node_name = ''t'',
     pe_topic_name = Some ''/c'', pe_type_name = Some ''T_'', pe_type_hash = Some ''h'', pe_qos = Some ''::,1:,:,:,,''\<rparr>"
  by (simp add: parse_liveliness_key_def ADMIN_SPACE_def parse_unsigned_def is_ascii_digit_def
      digits_value_def digit_value_def parse_kind_def demangle_def replace_char_Cons Let_def)

theorem wait_for_no_lost_wakeup_witness:
  "wait_for Publisher ''/c'' [] [PutSample ''@ros2_lv/0/a/0/1/MP/%/%/t/%c/T_/h/::,1:,:,:,,''] graph_cache_default"
proof -
  let ?k = "''@ros2_lv/0/a/0/1/MP/%/%/t/%c/T_/h/::,1:,:,:,,''"
  let ?c1 = "snd (subscribe graph_cache_default)"
  have inv: "graph_inv ?c1" by (rule graph_inv_subscribe) simp
  have "count_kind_on_topic Publisher ''/c'' (graph_run ([] @ [PutSample ?k]) ?c1) > 0"
    using count_put_token [OF inv chatter_token, of Publisher "''/c''"]
    by (simp add: graph_run_def live_keys_def subscribe_def graph_cache_default_def)
  then show ?thesis
    using wait_for_no_lost_wakeup [of graph_cache_default "[]" "[PutSample ?k]" Publisher "''/c''"] by simp
qed

end
