(* ===== verification/Zenoh_Action_Calls.thy ===== *)
theory Zenoh_Action_Calls
  imports Zenoh_Action
begin

text \<open>
  An action over Zenoh from end to end: the client's calls against the server's endpoints, with what
  the application of the server decides in between. A query of the client reaches the server, which
  takes it, decides and responds; the replies to this query are what the client's call gets.
\<close>

subsection \<open>A server's application\<close>

record ('g, 'r) action_app =
  ap_accept :: "goal_id \<Rightarrow> 'g \<Rightarrow> bool"
  ap_result :: "goal_id \<Rightarrow> int \<times> 'r"
  ap_cancel :: "goal_id \<Rightarrow> cancel_response_enum \<times> goal_info list"

definition as_query :: "nat \<Rightarrow> zenoh_get \<Rightarrow> zenoh_query" where
  "as_query ident g = \<lparr>zq_ident = ident, zq_key = zg_selector g, zq_payload = Some (zg_payload g), zq_attachment = Some (zg_attachment g)\<rparr>"

definition replies_for :: "nat \<Rightarrow> zenoh_server \<Rightarrow> zenoh_reply list" where
  "replies_for ident s = map (ReplyOk \<circ> snd) (filter (\<lambda>(q, _). zq_ident q = ident) (zv_replies s))"

text \<open>One round of the server's loop on each of its three services.\<close>

definition serve_goal :: "zserde \<Rightarrow> ('g, 'r, 'f) action_codecs \<Rightarrow> ('g, 'r) action_app \<Rightarrow> duration option \<Rightarrow> nat \<Rightarrow>
    zenoh_action_server \<Rightarrow> zenoh_get \<Rightarrow> zenoh_reply list option" where
  "serve_goal z cs app now ident a g =
     (case try_receive_goal z cs (Received (as_query ident g)) a of
        (None, _) \<Rightarrow> Some [ReplyErr]
      | (Some (i, gid, goal), a1) \<Rightarrow>
          (case respond_goal z cs (\<lambda>_. True) now i (ap_accept app gid goal) a1 of
             (Inl _, _) \<Rightarrow> Some [ReplyErr]
           | (Inr _, a2) \<Rightarrow> Some (replies_for ident (as_send_goal a2))))"

definition serve_result :: "zserde \<Rightarrow> ('g, 'r, 'f) action_codecs \<Rightarrow> ('g, 'r) action_app \<Rightarrow> duration option \<Rightarrow> nat \<Rightarrow>
    zenoh_action_server \<Rightarrow> zenoh_get \<Rightarrow> zenoh_reply list option" where
  "serve_result z cs app now ident a g =
     (case try_receive_result_request z cs (Received (as_query ident g)) a of
        (None, _) \<Rightarrow> Some [ReplyErr]
      | (Some (i, gid), a1) \<Rightarrow>
          (case respond_result z cs (\<lambda>_. True) now i (fst (ap_result app gid)) (snd (ap_result app gid)) a1 of
             (Inl _, _) \<Rightarrow> Some [ReplyErr]
           | (Inr _, a2) \<Rightarrow> Some (replies_for ident (as_get_result a2))))"

definition serve_cancel :: "zserde \<Rightarrow> ('g, 'r, 'f) action_codecs \<Rightarrow> ('g, 'r) action_app \<Rightarrow> duration option \<Rightarrow> nat \<Rightarrow>
    zenoh_action_server \<Rightarrow> zenoh_get \<Rightarrow> zenoh_reply list option" where
  "serve_cancel z cs app now ident a g =
     (case try_receive_cancel z cs (Received (as_query ident g)) a of
        (None, _) \<Rightarrow> Some [ReplyErr]
      | (Some (i, gid), a1) \<Rightarrow>
          (case respond_cancel z cs (\<lambda>_. True) now i (fst (ap_cancel app gid)) (snd (ap_cancel app gid)) a1 of
             (Inl _, _) \<Rightarrow> Some [ReplyErr]
           | (Inr _, a2) \<Rightarrow> Some (replies_for ident (as_cancel_goal a2))))"

subsection \<open>Each service of an action is a service\<close>

lemma serve_goal_served:
  "serve_goal z cs app now ident a = served z (send_goal_cdr cs) (goal_response_cdr cs)
     (\<lambda>req. \<lparr>sr_accepted = ap_accept app (sg_goal_id req) (sg_goal req), sr_stamp = BI_TIME_ZERO\<rparr>) now ident (as_send_goal a)"
  by (rule ext) (auto simp: serve_goal_def served_def try_receive_goal_def respond_goal_def as_query_def replies_for_def
      split: sum.splits prod.splits option.splits)

lemma serve_result_served:
  "serve_result z cs app now ident a = served z (result_request_cdr cs) (result_response_cdr cs)
     (\<lambda>gid. \<lparr>gr_status = fst (ap_result app gid), gr_result = snd (ap_result app gid)\<rparr>) now ident (as_get_result a)"
  by (rule ext) (auto simp: serve_result_def served_def try_receive_result_request_def respond_result_def as_query_def replies_for_def
      split: sum.splits prod.splits option.splits)

lemma serve_cancel_served:
  "serve_cancel z cs app now ident a = served z (cancel_request_cdr cs) (cancel_response_cdr cs)
     (\<lambda>info. \<lparr>cg_return_code = fst (ap_cancel app (gi_goal_id info)), cg_goals_canceling = snd (ap_cancel app (gi_goal_id info))\<rparr>)
     now ident (as_cancel_goal a)"
  by (rule ext) (auto simp: serve_cancel_def served_def try_receive_cancel_def respond_cancel_def as_query_def replies_for_def
      split: sum.splits prod.splits option.splits)

text \<open>What a client of an action relies on.\<close>

definition client_ready :: "zenoh_client \<Rightarrow> bool" where
  "client_ready c \<longleftrightarrow> length (zc_gid c) = 16 \<and> 0 \<le> zc_seq c \<and> zc_seq c < 2 ^ 63 - 1"

definition publisher_ready :: "zenoh_publisher \<Rightarrow> bool" where
  "publisher_ready p \<longleftrightarrow> length (zp_gid p) = 16 \<and> 0 \<le> zp_seq p \<and> zp_seq p < 2 ^ 63 - 1"

lemma published_decoded:
  assumes "cdr_lawful cdr" and "zserde_lawful z" and "publisher_ready p" and "publish mode z cdr put_ok now msg p = (Ok (), p')"
  shows "\<exists>info. try_take z cdr (Received (last (zp_sent p'))) = Ok (Some (msg, info))"
proof -
  have seq: "0 \<le> zp_seq p" "zp_seq p < 2 ^ 63 - 1" using assms(3) by (simp_all add: publisher_ready_def)
  show ?thesis
    using seq
  proof (cases rule: publish_cases [of p mode z cdr put_ok now msg])
    case (sent b)
    have "wf_attachment \<lparr>at_sequence_number = zp_seq p + 1, at_source_timestamp = now_nanos now, at_source_gid = zp_gid p\<rparr>"
      using assms(3) by (simp add: publisher_ready_def wf_attachment_def) (simp add: range_simps)
    then show ?thesis using sample_decoded [OF assms(1,2) sent(1), of _ "zp_key p"] sent(2) assms(4) by auto
  qed (use assms(4) in auto)
qed

subsection \<open>Properties\<close>

text \<open>C8. An action works from end to end: the server's application is asked about exactly the goal the
  client sent and the client learns its decision under the goal id it chose; a result request and a cancel
  request about a goal return what the application answers for that goal; and what the server
  publishes as feedback and as status is what the client takes.\<close>

theorem action_round_trips:
  assumes "zserde_lawful z"
    and "cdr_lawful (send_goal_cdr cs)" and "cdr_lawful (goal_response_cdr cs)" and "cdr_lawful (result_request_cdr cs)"
    and "cdr_lawful (result_response_cdr cs)" and "cdr_lawful (cancel_request_cdr cs)" and "cdr_lawful (cancel_response_cdr cs)"
    and "cdr_lawful (feedback_cdr cs)" and "cdr_lawful (status_cdr cs)"
    and "client_ready (ac_send_goal ac)" and "client_ready (ac_get_result ac)" and "client_ready (ac_cancel_goal ac)"
    and "publisher_ready (as_feedback a)" and "publisher_ready (as_status a)"
    and "\<forall>s\<in>{as_send_goal a, as_get_result a, as_cancel_goal a}. ident \<notin> set (answered_ids s)"
    and "to_cdr (send_goal_cdr cs) \<lparr>sg_goal_id = gid, sg_goal = goal\<rparr> = Ok b1"
    and "to_cdr (goal_response_cdr cs) \<lparr>sr_accepted = ap_accept app gid goal, sr_stamp = BI_TIME_ZERO\<rparr> = Ok b2"
    and "to_cdr (result_request_cdr cs) gid = Ok b3"
    and "to_cdr (result_response_cdr cs) \<lparr>gr_status = fst (ap_result app gid), gr_result = snd (ap_result app gid)\<rparr> = Ok b4"
    and "to_cdr (cancel_request_cdr cs) \<lparr>gi_goal_id = gid, gi_stamp = BI_TIME_ZERO\<rparr> = Ok b5"
    and "to_cdr (cancel_response_cdr cs) \<lparr>cg_return_code = fst (ap_cancel app gid), cg_goals_canceling = snd (ap_cancel app gid)\<rparr> = Ok b6"
  shows "fst (client_send_goal mode z cs (serve_goal z cs app now' ident a) now gid goal ac) = Ok (gid, ap_accept app gid goal)
    \<and> fst (client_get_result mode z cs (serve_result z cs app now' ident a) now gid ac) = Ok (ap_result app gid)
    \<and> fst (client_cancel mode z cs (serve_cancel z cs app now' ident a) now gid ac) =
        Ok \<lparr>cg_return_code = fst (ap_cancel app gid), cg_goals_canceling = snd (ap_cancel app gid)\<rparr>
    \<and> (\<forall>fb a'. zenoh_publish_feedback mode z cs put_ok now gid fb a = (Ok (), a') \<longrightarrow>
        take_feedback z cs (Received (last (zp_sent (as_feedback a')))) = Some (gid, fb))
    \<and> (\<forall>statuses a'. publish_status mode z cs put_ok now statuses a = (Ok (), a') \<longrightarrow>
        take_status z cs (Received (last (zp_sent (as_status a')))) = Some statuses)"
proof (intro conjI allI impI)
  have ready: "length (zc_gid c) = 16 \<and> 0 \<le> zc_seq c \<and> zc_seq c < 2 ^ 63 - 1"
    if "c \<in> {ac_send_goal ac, ac_get_result ac, ac_cancel_goal ac}" for c
    using that assms(10-12) by (auto simp: client_ready_def)
  let ?goal = "\<lambda>req. \<lparr>sr_accepted = ap_accept app (sg_goal_id req) (sg_goal req), sr_stamp = BI_TIME_ZERO\<rparr>"
  let ?result = "\<lambda>gid. \<lparr>gr_status = fst (ap_result app gid), gr_result = snd (ap_result app gid)\<rparr>"
  let ?cancel = "\<lambda>info. \<lparr>cg_return_code = fst (ap_cancel app (gi_goal_id info)), cg_goals_canceling = snd (ap_cancel app (gi_goal_id info))\<rparr>"
  show "fst (client_send_goal mode z cs (serve_goal z cs app now' ident a) now gid goal ac) = Ok (gid, ap_accept app gid goal)"
    using served_call [OF assms(2,3,1), where f = ?goal and c = "ac_send_goal ac" and s = "as_send_goal a" and ident = ident, OF _ _ _ assms(16)]
      ready assms(15,17) by (simp add: client_send_goal_def serve_goal_served)
  show "fst (client_get_result mode z cs (serve_result z cs app now' ident a) now gid ac) = Ok (ap_result app gid)"
    using served_call [OF assms(4,5,1), where f = ?result and c = "ac_get_result ac" and s = "as_get_result a" and ident = ident, OF _ _ _ assms(18)]
      ready assms(15,19) by (simp add: client_get_result_def serve_result_served)
  show "fst (client_cancel mode z cs (serve_cancel z cs app now' ident a) now gid ac) = Ok \<lparr>cg_return_code = fst (ap_cancel app gid), cg_goals_canceling = snd (ap_cancel app gid)\<rparr>"
    using served_call [OF assms(6,7,1), where f = ?cancel and c = "ac_cancel_goal ac" and s = "as_cancel_goal a" and ident = ident, OF _ _ _ assms(20)]
      ready assms(15,21) by (simp add: client_cancel_def serve_cancel_served)
  show "take_feedback z cs (Received (last (zp_sent (as_feedback a')))) = Some (gid, fb)"
    if "zenoh_publish_feedback mode z cs put_ok now gid fb a = (Ok (), a')" for fb a'
    using published_decoded [OF assms(8,1,13), of mode put_ok now "\<lparr>fb_goal_id = gid, fb_feedback = fb\<rparr>" "as_feedback a'"] that
    by (auto simp: zenoh_publish_feedback_def take_feedback_def Let_def split: prod.splits)
  show "take_status z cs (Received (last (zp_sent (as_status a')))) = Some statuses"
    if "publish_status mode z cs put_ok now statuses a = (Ok (), a')" for statuses a'
    using published_decoded [OF assms(9,1,14), of mode put_ok now statuses "as_status a'"] that
    by (auto simp: publish_status_def take_status_def Let_def split: prod.splits)
qed

text \<open>Codecs of an action whose goals, results and feedback are bytes, for all eight messages.\<close>

definition byte_action_full :: "(byte list, byte, byte) action_codecs" where
  "byte_action_full = byte_action
     \<lparr>feedback_cdr := plain_codec (\<lambda>m. Some (id_bytes (fb_goal_id m) @ [fb_feedback m]))
        (\<lambda>b. if length b = 17 then Some \<lparr>fb_goal_id = bytes_id (take 16 b), fb_feedback = b ! 16\<rparr> else None),
      cancel_request_cdr := plain_codec (\<lambda>i. if gi_stamp i = BI_TIME_ZERO then Some (id_bytes (gi_goal_id i)) else None)
        (\<lambda>b. if length b = 16 then Some \<lparr>gi_goal_id = bytes_id b, gi_stamp = BI_TIME_ZERO\<rparr> else None),
      cancel_response_cdr := plain_codec (\<lambda>r. if r = \<lparr>cg_return_code = CancelNone, cg_goals_canceling = []\<rparr> then Some [0] else None)
        (\<lambda>b. if b = [0] then Some \<lparr>cg_return_code = CancelNone, cg_goals_canceling = []\<rparr> else None),
      status_cdr := plain_codec (\<lambda>l. if l = [] then Some [] else None) (\<lambda>b. Some [])\<rparr>"

lemma byte_action_full_lawful:
  "cdr_lawful (send_goal_cdr byte_action_full)" "cdr_lawful (goal_response_cdr byte_action_full)"
  "cdr_lawful (result_request_cdr byte_action_full)" "cdr_lawful (result_response_cdr byte_action_full)"
  "cdr_lawful (cancel_request_cdr byte_action_full)" "cdr_lawful (cancel_response_cdr byte_action_full)"
  "cdr_lawful (feedback_cdr byte_action_full)" "cdr_lawful (status_cdr byte_action_full)"
proof -
  show "cdr_lawful (cancel_request_cdr byte_action_full)"
    unfolding byte_action_full_def byte_action_def action_codecs.simps by (rule plain_codec_lawful) (auto split: if_splits)
  show "cdr_lawful (cancel_response_cdr byte_action_full)"
    unfolding byte_action_full_def byte_action_def action_codecs.simps by (rule plain_codec_lawful) (auto split: if_splits)
  show "cdr_lawful (feedback_cdr byte_action_full)"
    unfolding byte_action_full_def byte_action_def action_codecs.simps by (rule plain_codec_lawful) (auto simp: nth_append)
  show "cdr_lawful (status_cdr byte_action_full)"
    unfolding byte_action_full_def byte_action_def action_codecs.simps by (rule plain_codec_lawful) (auto split: if_splits)
qed (simp_all add: byte_action_full_def byte_action_lawful)

definition demo_action_client :: zenoh_action_client where
  "demo_action_client = \<lparr>ac_send_goal = client_new ''g'' (replicate 16 1) None, ac_get_result = client_new ''r'' (replicate 16 2) None,
     ac_feedback = \<lparr>zs_key = ''f'', zs_token = None\<rparr>, ac_cancel_goal = client_new ''c'' (replicate 16 3) None,
     ac_status = \<lparr>zs_key = ''s'', zs_token = None\<rparr>\<rparr>"

theorem action_round_trips_witness:
  "let app = \<lparr>ap_accept = (\<lambda>_ goal. goal = [8]), ap_result = (\<lambda>_. (4, 7)), ap_cancel = (\<lambda>_. (CancelNone, []))\<rparr>
   in fst (client_send_goal Checked zenoh_ext byte_action_full (serve_goal zenoh_ext byte_action_full app None 1 (typed_view raw_action_demo))
        None 3 [8] demo_action_client) = Ok (3, True)
    \<and> fst (client_get_result Checked zenoh_ext byte_action_full (serve_result zenoh_ext byte_action_full app None 1 (typed_view raw_action_demo))
        None 3 demo_action_client) = Ok (4, 7)"
  unfolding Let_def
  using action_round_trips [OF zenoh_ext_lawful byte_action_full_lawful(1-4) byte_action_full_lawful(5-8), where ac = demo_action_client
      and a = "typed_view raw_action_demo" and ident = 1 and gid = 3 and goal = "[8]" and mode = Checked and now = None and now' = None
      and app = "\<lparr>ap_accept = (\<lambda>_ goal. goal = [8]), ap_result = (\<lambda>_. (4, 7)), ap_cancel = (\<lambda>_. (CancelNone, []))\<rparr>"]
  by (simp add: client_ready_def publisher_ready_def demo_action_client_def typed_view_def raw_action_demo_def client_new_def
      client_new_with_timeout_def publisher_new_def server_new_def answered_ids_def to_cdr_def byte_action_full_def byte_action_def plain_codec_def)

end
