(* ===== verification/Parameters.thy ===== *)
theory Parameters
  imports Rust_Maps
begin

text \<open>
  Parameters (\<open>parameters.rs\<close>) and the messages of the parameter services (\<open>rcl_interfaces.rs\<close>): the
  Rust-like values, the raw forms sent over the wire and the conversions between them. An \<open>f64\<close> is
  its 64 bits: the code only moves it.
\<close>

type_synonym f64 = "64 word"

subsection \<open>Values and types\<close>

datatype parameter_value =
    NotSet
  | Boolean bool
  | Integer int
  | Double f64
  | StringVal string
  | ByteArray "8 word list"
  | BooleanArray "bool list"
  | IntegerArray "int list"
  | DoubleArray "f64 list"
  | StringArray "string list"

record parameter =
  par_name :: string
  par_value :: parameter_value

datatype parameter_type = TNotSet | TBool | TInteger | TDouble | TString | TByteArray | TBoolArray
  | TIntegerArray | TDoubleArray | TStringArray

fun parameter_type_repr :: "parameter_type \<Rightarrow> 8 word" where
  "parameter_type_repr TNotSet = 0"
| "parameter_type_repr TBool = 1"
| "parameter_type_repr TInteger = 2"
| "parameter_type_repr TDouble = 3"
| "parameter_type_repr TString = 4"
| "parameter_type_repr TByteArray = 5"
| "parameter_type_repr TBoolArray = 6"
| "parameter_type_repr TIntegerArray = 7"
| "parameter_type_repr TDoubleArray = 8"
| "parameter_type_repr TStringArray = 9"

fun to_parameter_type :: "parameter_value \<Rightarrow> parameter_type" where
  "to_parameter_type NotSet = TNotSet"
| "to_parameter_type (Boolean b) = TBool"
| "to_parameter_type (Integer i) = TInteger"
| "to_parameter_type (Double d) = TDouble"
| "to_parameter_type (StringVal s) = TString"
| "to_parameter_type (ByteArray a) = TByteArray"
| "to_parameter_type (BooleanArray a) = TBoolArray"
| "to_parameter_type (IntegerArray a) = TIntegerArray"
| "to_parameter_type (DoubleArray a) = TDoubleArray"
| "to_parameter_type (StringArray a) = TStringArray"

definition to_parameter_type_raw :: "parameter_value \<Rightarrow> 8 word" where
  "to_parameter_type_raw p = parameter_type_repr (to_parameter_type p)"

subsection \<open>Raw parameters\<close>

record raw_parameter_value =
  ptype :: "8 word"
  boolean_value :: bool
  int_value :: int
  double_value :: f64
  string_value :: string
  byte_array :: "8 word list"
  bool_array :: "bool list"
  int_array :: "int list"
  double_array :: "f64 list"
  string_array :: "string list"

record raw_parameter =
  rp_name :: string
  rp_value :: raw_parameter_value

definition value_from_raw :: "raw_parameter_value \<Rightarrow> parameter_value" where
  "value_from_raw rpv =
     (if ptype rpv = 0 then NotSet
      else if ptype rpv = 1 then Boolean (boolean_value rpv)
      else if ptype rpv = 2 then Integer (int_value rpv)
      else if ptype rpv = 3 then Double (double_value rpv)
      else if ptype rpv = 4 then StringVal (string_value rpv)
      else if ptype rpv = 5 then ByteArray (byte_array rpv)
      else if ptype rpv = 6 then BooleanArray (bool_array rpv)
      else if ptype rpv = 7 then IntegerArray (int_array rpv)
      else if ptype rpv = 8 then DoubleArray (double_array rpv)
      else if ptype rpv = 9 then StringArray (string_array rpv)
      else NotSet)"

definition parameter_from_raw :: "raw_parameter \<Rightarrow> parameter" where
  "parameter_from_raw rp = \<lparr>par_name = rp_name rp, par_value = value_from_raw (rp_value rp)\<rparr>"

definition raw_not_set :: raw_parameter_value where
  "raw_not_set = \<lparr>ptype = 0, boolean_value = False, int_value = 0, double_value = 0, string_value = [], byte_array = [],
     bool_array = [], int_array = [], double_array = [], string_array = []\<rparr>"

fun raw_from_value :: "parameter_value \<Rightarrow> raw_parameter_value" where
  "raw_from_value NotSet = raw_not_set"
| "raw_from_value (Boolean b) = raw_not_set\<lparr>ptype := 1, boolean_value := b\<rparr>"
| "raw_from_value (Integer i) = raw_not_set\<lparr>ptype := 2, int_value := i\<rparr>"
| "raw_from_value (Double d) = raw_not_set\<lparr>ptype := 3, double_value := d\<rparr>"
| "raw_from_value (StringVal s) = raw_not_set\<lparr>ptype := 4, string_value := s\<rparr>"
| "raw_from_value (ByteArray a) = raw_not_set\<lparr>ptype := 5, byte_array := a\<rparr>"
| "raw_from_value (BooleanArray a) = raw_not_set\<lparr>ptype := 6, bool_array := a\<rparr>"
| "raw_from_value (IntegerArray a) = raw_not_set\<lparr>ptype := 7, int_array := a\<rparr>"
| "raw_from_value (DoubleArray a) = raw_not_set\<lparr>ptype := 8, double_array := a\<rparr>"
| "raw_from_value (StringArray a) = raw_not_set\<lparr>ptype := 9, string_array := a\<rparr>"

definition raw_from_parameter :: "parameter \<Rightarrow> raw_parameter" where
  "raw_from_parameter p = \<lparr>rp_name = par_name p, rp_value = raw_from_value (par_value p)\<rparr>"

subsection \<open>Results of setting\<close>

type_synonym set_parameters_result = "string + unit"

record raw_set_parameters_result =
  successful :: bool
  reason :: string

fun raw_from_set_result :: "set_parameters_result \<Rightarrow> raw_set_parameters_result" where
  "raw_from_set_result (Inr _) = \<lparr>successful = True, reason = []\<rparr>"
| "raw_from_set_result (Inl r) = \<lparr>successful = False, reason = r\<rparr>"

subsection \<open>Descriptors\<close>

datatype numeric_range =
    NotSpecified
  | IntegerRange (ir_from: int) (ir_to: int) (ir_step: int)
  | FloatingPointRange (fr_from: f64) (fr_to: f64) (fr_step: f64)

record parameter_descriptor =
  pd_name :: string
  pd_param_type :: parameter_type
  pd_description :: string
  pd_additional_constraints :: string
  pd_read_only :: bool
  pd_dynamic_typing :: bool
  pd_range :: numeric_range

definition descriptor_unknown :: "string \<Rightarrow> parameter_descriptor" where
  "descriptor_unknown name =
     \<lparr>pd_name = name, pd_param_type = TNotSet, pd_description = ''unknown parameter'', pd_additional_constraints = [],
      pd_read_only = True, pd_dynamic_typing = False, pd_range = NotSpecified\<rparr>"

definition descriptor_from_value :: "string \<Rightarrow> parameter_value \<Rightarrow> parameter_descriptor" where
  "descriptor_from_value name v =
     \<lparr>pd_name = name, pd_param_type = to_parameter_type v, pd_description = ''(description missing, not implemented)'',
      pd_additional_constraints = [], pd_read_only = False, pd_dynamic_typing = False, pd_range = NotSpecified\<rparr>"

record raw_integer_range =
  ri_from_value :: int
  ri_to_value :: int
  ri_step :: int

record raw_floating_point_range =
  rf_from_value :: f64
  rf_to_value :: f64
  rf_step :: f64

record raw_parameter_descriptor =
  rd_name :: string
  rd_type :: "8 word"
  rd_description :: string
  rd_additional_constraints :: string
  rd_read_only :: bool
  rd_dynamic_typing :: bool
  rd_floating_point_range :: "raw_floating_point_range list"
  rd_integer_range :: "raw_integer_range list"

definition raw_from_descriptor :: "parameter_descriptor \<Rightarrow> raw_parameter_descriptor" where
  "raw_from_descriptor p =
     (let (integer_range, floating_point_range) =
        (case pd_range p of
           NotSpecified \<Rightarrow> ([], [])
         | IntegerRange from_value to_value step \<Rightarrow>
             ([\<lparr>ri_from_value = from_value, ri_to_value = to_value, ri_step = step\<rparr>], [])
         | FloatingPointRange from_value to_value step \<Rightarrow>
             ([], [\<lparr>rf_from_value = from_value, rf_to_value = to_value, rf_step = step\<rparr>]))
      in \<lparr>rd_name = pd_name p, rd_type = parameter_type_repr (pd_param_type p), rd_description = pd_description p,
          rd_additional_constraints = pd_additional_constraints p, rd_read_only = pd_read_only p,
          rd_dynamic_typing = pd_dynamic_typing p, rd_floating_point_range = floating_point_range,
          rd_integer_range = integer_range\<rparr>)"

subsection \<open>Service messages\<close>

text \<open>The requests that hold one list (\<open>GetParametersRequest\<close> and the like) are that list.\<close>

record list_parameters_request =
  lp_prefixes :: "string list"
  lp_depth :: "64 word"

record list_parameters_result =
  lr_names :: "string list"
  lr_prefixes :: "string list"

subsection \<open>Answers from a parameter store\<close>

type_synonym parameter_store = "(string \<times> parameter_value) list"

definition get_values :: "parameter_store \<Rightarrow> string list \<Rightarrow> raw_parameter_value list" where
  "get_values db names = map (\<lambda>name. raw_from_value (case map_of db name of Some v \<Rightarrow> v | None \<Rightarrow> NotSet)) names"

definition get_types :: "parameter_store \<Rightarrow> string list \<Rightarrow> 8 word list" where
  "get_types db names = map (\<lambda>name. to_parameter_type_raw (case map_of db name of Some v \<Rightarrow> v | None \<Rightarrow> NotSet)) names"

definition list_names :: "parameter_store \<Rightarrow> list_parameters_request \<Rightarrow> list_parameters_result" where
  "list_names db req =
     \<lparr>lr_names = filter (\<lambda>name. lp_prefixes req = [] \<or> (\<exists>p\<in>set (lp_prefixes req). take (length p) name = p)) (map fst db),
      lr_prefixes = []\<rparr>"

definition describe_values :: "parameter_store \<Rightarrow> string list \<Rightarrow> raw_parameter_descriptor list" where
  "describe_values db names =
     map (\<lambda>name. raw_from_descriptor (case map_of db name of
        Some v \<Rightarrow> descriptor_from_value name v | None \<Rightarrow> descriptor_unknown name)) names"

definition refuse_atomically :: "raw_parameter list \<Rightarrow> raw_set_parameters_result list" where
  "refuse_atomically params =
     map (\<lambda>_. raw_from_set_result (Err ''Setting parameters atomically is not implemented.'')) params"

text \<open>\<open>SetParameters\<close>: each parameter is set in turn, with a result of its own; both backends run this
  on their \<open>set_parameter\<close>.\<close>

fun set_each :: "(string \<Rightarrow> parameter_value \<Rightarrow> 's \<Rightarrow> set_parameters_result \<times> 's) \<Rightarrow> raw_parameter list \<Rightarrow> 's \<Rightarrow>
    raw_set_parameters_result list \<times> 's" where
  "set_each set_param [] s = ([], s)"
| "set_each set_param (rp # rps) s =
     (let p = parameter_from_raw rp;
          (r, s1) = set_param (par_name p) (par_value p) s;
          (rs, s2) = set_each set_param rps s1
      in (raw_from_set_result r # rs, s2))"

definition accepted_updates :: "raw_parameter list \<Rightarrow> raw_set_parameters_result list \<Rightarrow> (string \<times> parameter_value) list" where
  "accepted_updates ps rs =
     map (\<lambda>(p, _). (rp_name p, value_from_raw (rp_value p))) (filter (\<lambda>(_, r). successful r) (zip ps rs))"

text \<open>What the parameter services rely on: \<open>set_param\<close> stores the value when it answers \<open>Ok\<close> and leaves
  the store alone when it refuses.\<close>

locale parameter_backend =
  fixes store :: "'s \<Rightarrow> parameter_store" and set_param :: "string \<Rightarrow> parameter_value \<Rightarrow> 's \<Rightarrow> set_parameters_result \<times> 's"
  assumes set_ok: "set_param n v s = (Ok u, s') \<Longrightarrow> store s' = bt_insert n v (store s)"
    and set_err: "set_param n v s = (Err r, s') \<Longrightarrow> store s' = store s"
begin

lemma set_each_store:
  assumes "set_each set_param ps s = (rs, s')"
  shows "length rs = length ps \<and> map_of (store s') = map_of (store s) ++ map_of (rev (accepted_updates ps rs))"
  using assms
proof (induction ps arbitrary: s rs s')
  case (Cons rp ps)
  let ?p = "parameter_from_raw rp"
  obtain r s1 where r: "set_param (par_name ?p) (par_value ?p) s = (r, s1)" by fastforce
  obtain rs' s2 where rs': "set_each set_param ps s1 = (rs', s2)" by fastforce
  have eq: "rs = raw_from_set_result r # rs'" "s' = s2" using Cons.prems r rs' by (simp_all add: Let_def)
  have step: "map_of (store s1) = (if successful (raw_from_set_result r)
      then (map_of (store s))(rp_name rp \<mapsto> value_from_raw (rp_value rp)) else map_of (store s))"
    using r set_ok set_err by (cases r) (auto simp: parameter_from_raw_def map_laws)
  show ?case
    using Cons.IH [OF rs'] step eq by (auto simp: accepted_updates_def fun_eq_iff map_add_Some_iff map_add_def split: option.splits)
qed (simp add: accepted_updates_def)

lemma set_each_inv:
  assumes "set_each set_param ps s = (rs, s')" and "bt_inv (store s)"
  shows "bt_inv (store s') \<and> dom (map_of (store s)) \<subseteq> dom (map_of (store s'))"
  using assms
proof (induction ps arbitrary: s rs s')
  case (Cons rp ps)
  let ?p = "parameter_from_raw rp"
  obtain r s1 where r: "set_param (par_name ?p) (par_value ?p) s = (r, s1)" by fastforce
  obtain rs' s2 where rs': "set_each set_param ps s1 = (rs', s2)" by fastforce
  have "s' = s2" using Cons.prems r rs' by (simp add: Let_def)
  moreover have "bt_inv (store s1) \<and> dom (map_of (store s)) \<subseteq> dom (map_of (store s1))"
    using r Cons.prems(2) set_ok set_err by (cases r) (auto simp: bt_inv_insert map_laws)
  ultimately show ?case using Cons.IH [OF rs'] by blast
qed simp

lemma get_after_set_each:
  assumes "set_each set_param ps s = (rs, s')"
  shows "get_values (store s') names = map (\<lambda>n. raw_from_value (case map_of (rev (accepted_updates ps rs)) n of
      Some v \<Rightarrow> v | None \<Rightarrow> (case map_of (store s) n of Some v \<Rightarrow> v | None \<Rightarrow> NotSet))) names"
  using set_each_store [OF assms] by (auto simp: get_values_def map_add_def split: option.splits)

end

subsection \<open>Lemmas\<close>

lemma value_from_raw_from_value [simp]: "value_from_raw (raw_from_value v) = v"
  by (cases v) (simp_all add: value_from_raw_def raw_not_set_def)

lemma parameter_from_raw_from_parameter [simp]: "parameter_from_raw (raw_from_parameter p) = p"
  by (simp add: parameter_from_raw_def raw_from_parameter_def)

lemma ptype_raw_from_value: "ptype (raw_from_value v) = to_parameter_type_raw v"
  by (cases v) (simp_all add: to_parameter_type_raw_def raw_not_set_def)

text \<open>Any raw value reads as the value whose raw form has its tag, unless the tag is undefined.\<close>

lemma ptype_value_from_raw:
  "to_parameter_type_raw (value_from_raw r) = (if ptype r \<le> 9 then ptype r else 0)"
proof (cases "ptype r \<le> 9")
  case True
  have small: "n \<in> {0, 1, 2, 3, 4, 5, 6, 7, 8, 9}" if "n \<le> 9" for n :: nat
    using that by (simp only: insert_iff empty_iff) presburger
  have "unat (ptype r) \<in> {0, 1, 2, 3, 4, 5, 6, 7, 8, 9}"
    using True by (intro small) (simp add: word_le_nat_alt)
  moreover have "ptype r = word_of_nat (unat (ptype r))" by simp
  ultimately obtain n where n: "ptype r = word_of_nat n" "n \<in> {0, 1, 2, 3, 4, 5, 6, 7, 8, 9}"
    by blast
  then have "ptype r \<in> {0, 1, 2, 3, 4, 5, 6, 7, 8, 9}" unfolding n(1) by auto
  with True show ?thesis by (auto simp: value_from_raw_def to_parameter_type_raw_def)
next
  case False
  then have "ptype r \<notin> {0, 1, 2, 3, 4, 5, 6, 7, 8, 9}" by auto
  with False show ?thesis by (simp add: value_from_raw_def to_parameter_type_raw_def)
qed

text \<open>A parameter survives the wire: its raw form reads back as the same parameter, carries the
  type tag the type query reports, and a raw value with any tag reads as one of that type, or as not
  set when the tag is none of the ten.\<close>

lemma parameter_wire_round_trip:
  "parameter_from_raw (raw_from_parameter p) = p
   \<and> ptype (rp_value (raw_from_parameter p)) = to_parameter_type_raw (par_value p)
   \<and> to_parameter_type_raw (value_from_raw r) = (if ptype r \<le> 9 then ptype r else 0)"
  by (simp add: ptype_value_from_raw ptype_raw_from_value raw_from_parameter_def parameter_from_raw_def)

end
