(* ===== verification/Zenoh_Parameters.thy ===== *)
theory Zenoh_Parameters
  imports Zenoh_Service Parameters Ros_Times
begin

text \<open>
  The parameter server and client of the Zenoh backend (\<open>zenoh_backend/parameters.rs\<close>): a store, six
  services and the \<open>parameter_events\<close> publisher. The queue of a service is the queries received and not
  taken; the codecs of the messages, the clocks and the outcomes of the transport are arguments.
\<close>

subsection \<open>The server\<close>

record parameter_event =
  pv_stamp :: bi_time
  pv_node :: string
  pv_new_parameters :: "raw_parameter list"
  pv_changed_parameters :: "raw_parameter list"
  pv_deleted_parameters :: "raw_parameter list"

record param_env =
  pe_mode :: overflow_mode
  pe_serde :: zserde
  pe_names_cdr :: "string list cdr_encoding"
  pe_values_cdr :: "raw_parameter_value list cdr_encoding"
  pe_types_cdr :: "8 word list cdr_encoding"
  pe_set_cdr :: "raw_parameter list cdr_encoding"
  pe_set_results_cdr :: "raw_set_parameters_result list cdr_encoding"
  pe_list_cdr :: "list_parameters_request cdr_encoding"
  pe_list_result_cdr :: "list_parameters_result cdr_encoding"
  pe_descriptors_cdr :: "raw_parameter_descriptor list cdr_encoding"
  pe_event_cdr :: "parameter_event cdr_encoding"
  pe_now :: "duration option"
  pe_stamp :: bi_time
  pe_put_ok :: "zenoh_sample \<Rightarrow> bool"
  pe_reply_ok :: "zenoh_sample \<Rightarrow> bool"

record zenoh_parameter_server =
  ps_node_fqn :: string
  ps_store :: parameter_store
  ps_get_parameters :: zenoh_server
  ps_get_parameter_types :: zenoh_server
  ps_set_parameters :: zenoh_server
  ps_set_parameters_atomically :: zenoh_server
  ps_list_parameters :: zenoh_server
  ps_describe_parameters :: zenoh_server
  ps_events :: zenoh_publisher

definition initial_store :: "parameter list \<Rightarrow> parameter_store" where
  "initial_store ps =
     (let store = fold (\<lambda>p m. bt_insert (par_name p) (par_value p) m) ps []
      in case map_of store ''use_sim_time'' of
           None \<Rightarrow> bt_insert ''use_sim_time'' (Boolean False) store
         | Some _ \<Rightarrow> store)"

definition parameter_server_new :: "string \<Rightarrow> parameter list \<Rightarrow> zenoh_server \<Rightarrow> zenoh_server \<Rightarrow> zenoh_server \<Rightarrow> zenoh_server \<Rightarrow>
    zenoh_server \<Rightarrow> zenoh_server \<Rightarrow> zenoh_publisher \<Rightarrow> zenoh_parameter_server" where
  "parameter_server_new node_fqn initial get types set_p set_at list_p describe events =
     \<lparr>ps_node_fqn = node_fqn, ps_store = initial_store initial, ps_get_parameters = get, ps_get_parameter_types = types,
      ps_set_parameters = set_p, ps_set_parameters_atomically = set_at, ps_list_parameters = list_p,
      ps_describe_parameters = describe, ps_events = events\<rparr>"

definition zenoh_get_parameter :: "string \<Rightarrow> zenoh_parameter_server \<Rightarrow> parameter_value option" where
  "zenoh_get_parameter name s = map_of (ps_store s) name"

definition parameter_names :: "zenoh_parameter_server \<Rightarrow> string list" where
  "parameter_names s = map fst (ps_store s)"

definition publish_event :: "param_env \<Rightarrow> raw_parameter list \<Rightarrow> raw_parameter list \<Rightarrow> raw_parameter list \<Rightarrow>
    zenoh_parameter_server \<Rightarrow> zenoh_parameter_server" where
  "publish_event env new_parameters changed_parameters deleted_parameters s =
     (let event = \<lparr>pv_stamp = pe_stamp env, pv_node = ps_node_fqn s, pv_new_parameters = new_parameters,
                   pv_changed_parameters = changed_parameters, pv_deleted_parameters = deleted_parameters\<rparr>
      in s\<lparr>ps_events := snd (publish (pe_mode env) (pe_serde env) (pe_event_cdr env) (pe_put_ok env) (pe_now env) event (ps_events s))\<rparr>)"

definition set_and_notify :: "param_env \<Rightarrow> string \<Rightarrow> parameter_value \<Rightarrow> zenoh_parameter_server \<Rightarrow>
    set_parameters_result \<times> zenoh_parameter_server" where
  "set_and_notify env name v s =
     (let raw_param = \<lparr>rp_name = name, rp_value = raw_from_value v\<rparr>;
          already_set = map_of (ps_store s) name \<noteq> None;
          s1 = s\<lparr>ps_store := bt_insert name v (ps_store s)\<rparr>
      in (Ok (), if already_set then publish_event env [] [raw_param] [] s1 else publish_event env [raw_param] [] [] s1))"

definition zenoh_set_parameter :: "param_env \<Rightarrow> string \<Rightarrow> parameter_value \<Rightarrow> zenoh_parameter_server \<Rightarrow> zenoh_parameter_server" where
  "zenoh_set_parameter env name v s = snd (set_and_notify env name v s)"

subsection \<open>Answering requests\<close>

text \<open>The \<open>while let\<close> loop of a handler over the queries of its service: \<open>h\<close> computes the response and
  the server's new state; the loop ends at the first query that is not accepted.\<close>

fun request_loop :: "zserde \<Rightarrow> 'q cdr_encoding \<Rightarrow> 'r cdr_encoding \<Rightarrow> (zenoh_sample \<Rightarrow> bool) \<Rightarrow> duration option \<Rightarrow>
    ('q \<Rightarrow> 'w \<Rightarrow> 'r \<times> 'w) \<Rightarrow> zenoh_query list \<Rightarrow> 'w \<Rightarrow> zenoh_server \<Rightarrow> 'w \<times> zenoh_server \<times> zenoh_query list" where
  "request_loop z qcdr rcdr reply_ok now h [] w v = (w, v, [])"
| "request_loop z qcdr rcdr reply_ok now h (query # queue) w v =
     (case try_receive_request (server_accept z qcdr) (Received query) v of
        (Inr (Some (i, req)), v1) \<Rightarrow>
          (let (resp, w1) = h req w
           in request_loop z qcdr rcdr reply_ok now h queue w1 (snd (server_send_response z rcdr reply_ok now i resp v1)))
      | (_, v1) \<Rightarrow> (w, v1, queue))"

definition handle_get_parameters :: "param_env \<Rightarrow> zenoh_query list \<Rightarrow> zenoh_parameter_server \<Rightarrow> zenoh_parameter_server \<times> zenoh_query list" where
  "handle_get_parameters env queue s =
     (let (s1, v, rest) = request_loop (pe_serde env) (pe_names_cdr env) (pe_values_cdr env) (pe_reply_ok env) (pe_now env)
            (\<lambda>names s. (get_values (ps_store s) names, s)) queue s (ps_get_parameters s)
      in (s1\<lparr>ps_get_parameters := v\<rparr>, rest))"

definition handle_get_parameter_types :: "param_env \<Rightarrow> zenoh_query list \<Rightarrow> zenoh_parameter_server \<Rightarrow> zenoh_parameter_server \<times> zenoh_query list" where
  "handle_get_parameter_types env queue s =
     (let (s1, v, rest) = request_loop (pe_serde env) (pe_names_cdr env) (pe_types_cdr env) (pe_reply_ok env) (pe_now env)
            (\<lambda>names s. (get_types (ps_store s) names, s)) queue s (ps_get_parameter_types s)
      in (s1\<lparr>ps_get_parameter_types := v\<rparr>, rest))"

definition handle_set_parameters :: "param_env \<Rightarrow> zenoh_query list \<Rightarrow> zenoh_parameter_server \<Rightarrow> zenoh_parameter_server \<times> zenoh_query list" where
  "handle_set_parameters env queue s =
     (let (s1, v, rest) = request_loop (pe_serde env) (pe_set_cdr env) (pe_set_results_cdr env) (pe_reply_ok env) (pe_now env)
            (\<lambda>params s. set_each (set_and_notify env) params s) queue s (ps_set_parameters s)
      in (s1\<lparr>ps_set_parameters := v\<rparr>, rest))"

definition handle_set_parameters_atomically :: "param_env \<Rightarrow> zenoh_query list \<Rightarrow> zenoh_parameter_server \<Rightarrow> zenoh_parameter_server \<times> zenoh_query list" where
  "handle_set_parameters_atomically env queue s =
     (let (s1, v, rest) = request_loop (pe_serde env) (pe_set_cdr env) (pe_set_results_cdr env) (pe_reply_ok env) (pe_now env)
            (\<lambda>params s. (refuse_atomically params, s)) queue s (ps_set_parameters_atomically s)
      in (s1\<lparr>ps_set_parameters_atomically := v\<rparr>, rest))"

definition handle_list_parameters :: "param_env \<Rightarrow> zenoh_query list \<Rightarrow> zenoh_parameter_server \<Rightarrow> zenoh_parameter_server \<times> zenoh_query list" where
  "handle_list_parameters env queue s =
     (let (s1, v, rest) = request_loop (pe_serde env) (pe_list_cdr env) (pe_list_result_cdr env) (pe_reply_ok env) (pe_now env)
            (\<lambda>req s. (list_names (ps_store s) req, s)) queue s (ps_list_parameters s)
      in (s1\<lparr>ps_list_parameters := v\<rparr>, rest))"

definition handle_describe_parameters :: "param_env \<Rightarrow> zenoh_query list \<Rightarrow> zenoh_parameter_server \<Rightarrow> zenoh_parameter_server \<times> zenoh_query list" where
  "handle_describe_parameters env queue s =
     (let (s1, v, rest) = request_loop (pe_serde env) (pe_names_cdr env) (pe_descriptors_cdr env) (pe_reply_ok env) (pe_now env)
            (\<lambda>names s. (describe_values (ps_store s) names, s)) queue s (ps_describe_parameters s)
      in (s1\<lparr>ps_describe_parameters := v\<rparr>, rest))"

record param_queues =
  pq_get :: "zenoh_query list"
  pq_types :: "zenoh_query list"
  pq_set :: "zenoh_query list"
  pq_atomic :: "zenoh_query list"
  pq_list :: "zenoh_query list"
  pq_describe :: "zenoh_query list"

definition spin_once :: "param_env \<Rightarrow> param_queues \<Rightarrow> zenoh_parameter_server \<Rightarrow> zenoh_parameter_server \<times> param_queues" where
  "spin_once env qs s =
     (let (s1, q1) = handle_get_parameters env (pq_get qs) s;
          (s2, q2) = handle_get_parameter_types env (pq_types qs) s1;
          (s3, q3) = handle_set_parameters env (pq_set qs) s2;
          (s4, q4) = handle_set_parameters_atomically env (pq_atomic qs) s3;
          (s5, q5) = handle_list_parameters env (pq_list qs) s4;
          (s6, q6) = handle_describe_parameters env (pq_describe qs) s5
      in (s6, \<lparr>pq_get = q1, pq_types = q2, pq_set = q3, pq_atomic = q4, pq_list = q5, pq_describe = q6\<rparr>))"

text \<open>\<open>spin\<close> for a list of rounds: each round finds what arrived since the last one behind what was left.\<close>

definition queues_join :: "param_queues \<Rightarrow> param_queues \<Rightarrow> param_queues" where
  "queues_join a b = \<lparr>pq_get = pq_get a @ pq_get b, pq_types = pq_types a @ pq_types b, pq_set = pq_set a @ pq_set b,
     pq_atomic = pq_atomic a @ pq_atomic b, pq_list = pq_list a @ pq_list b, pq_describe = pq_describe a @ pq_describe b\<rparr>"

fun spin :: "(param_env \<times> param_queues) list \<Rightarrow> param_queues \<Rightarrow> zenoh_parameter_server \<Rightarrow> zenoh_parameter_server \<times> param_queues" where
  "spin [] left s = (s, left)"
| "spin ((env, arrived) # rounds) left s =
     (let (s', left') = spin_once env (queues_join left arrived) s in spin rounds left' s')"

subsection \<open>The client\<close>

record zenoh_parameter_client =
  pc_get_parameters :: zenoh_client
  pc_get_parameter_types :: zenoh_client
  pc_set_parameters :: zenoh_client
  pc_list_parameters :: zenoh_client
  pc_describe_parameters :: zenoh_client

definition client_get_parameters :: "param_env \<Rightarrow> (zenoh_get \<Rightarrow> zenoh_reply list option) \<Rightarrow> string list \<Rightarrow> zenoh_parameter_client \<Rightarrow>
    (service_error + parameter_value list) \<times> zenoh_parameter_client" where
  "client_get_parameters env get names c =
     (let (r, cl) = client_call (pe_mode env) (pe_serde env) (pe_names_cdr env) (pe_values_cdr env) get (pe_now env) names (pc_get_parameters c)
      in (and_then r (\<lambda>vs. Ok (map value_from_raw vs)), c\<lparr>pc_get_parameters := cl\<rparr>))"

definition client_get_parameter_types :: "param_env \<Rightarrow> (zenoh_get \<Rightarrow> zenoh_reply list option) \<Rightarrow> string list \<Rightarrow> zenoh_parameter_client \<Rightarrow>
    (service_error + 8 word list) \<times> zenoh_parameter_client" where
  "client_get_parameter_types env get names c =
     (let (r, cl) = client_call (pe_mode env) (pe_serde env) (pe_names_cdr env) (pe_types_cdr env) get (pe_now env) names (pc_get_parameter_types c)
      in (r, c\<lparr>pc_get_parameter_types := cl\<rparr>))"

definition client_set_parameters :: "param_env \<Rightarrow> (zenoh_get \<Rightarrow> zenoh_reply list option) \<Rightarrow> parameter list \<Rightarrow> zenoh_parameter_client \<Rightarrow>
    (service_error + set_parameters_result list) \<times> zenoh_parameter_client" where
  "client_set_parameters env get params c =
     (let (r, cl) = client_call (pe_mode env) (pe_serde env) (pe_set_cdr env) (pe_set_results_cdr env) get (pe_now env)
            (map raw_from_parameter params) (pc_set_parameters c)
      in (and_then r (\<lambda>rs. Ok (map (\<lambda>r. if successful r then Ok () else Err (reason r)) rs)), c\<lparr>pc_set_parameters := cl\<rparr>))"

definition client_list_parameters :: "param_env \<Rightarrow> (zenoh_get \<Rightarrow> zenoh_reply list option) \<Rightarrow> string list \<Rightarrow> zenoh_parameter_client \<Rightarrow>
    (service_error + string list) \<times> zenoh_parameter_client" where
  "client_list_parameters env get prefixes c =
     (let (r, cl) = client_call (pe_mode env) (pe_serde env) (pe_list_cdr env) (pe_list_result_cdr env) get (pe_now env)
            \<lparr>lp_prefixes = prefixes, lp_depth = 0\<rparr> (pc_list_parameters c)
      in (and_then r (\<lambda>res. Ok (lr_names res)), c\<lparr>pc_list_parameters := cl\<rparr>))"

definition client_describe_parameters :: "param_env \<Rightarrow> (zenoh_get \<Rightarrow> zenoh_reply list option) \<Rightarrow> string list \<Rightarrow> zenoh_parameter_client \<Rightarrow>
    (service_error + raw_parameter_descriptor list) \<times> zenoh_parameter_client" where
  "client_describe_parameters env get names c =
     (let (r, cl) = client_call (pe_mode env) (pe_serde env) (pe_names_cdr env) (pe_descriptors_cdr env) get (pe_now env) names (pc_describe_parameters c)
      in (r, c\<lparr>pc_describe_parameters := cl\<rparr>))"

subsection \<open>The store\<close>

lemma publish_event_store [simp]: "ps_store (publish_event env a b c s) = ps_store s"
  by (simp add: publish_event_def)

lemma set_and_notify_store: "set_and_notify env n v s = (r, s') \<Longrightarrow> r = Ok () \<and> ps_store s' = bt_insert n v (ps_store s)"
  by (auto simp: set_and_notify_def Let_def)

interpretation zenoh_params: parameter_backend ps_store "set_and_notify env"
  by unfold_locales (auto dest: set_and_notify_store)

lemma request_loop_keeps:
  assumes "\<And>req w. P w \<Longrightarrow> P (snd (h req w))" and "P w"
  shows "P (fst (request_loop z qcdr rcdr reply_ok now h queue w v))"
  using assms(2)
proof (induction queue arbitrary: w v)
  case (Cons q queue)
  then show ?case using assms(1)
    by (auto simp: Let_def case_prod_unfold split: prod.splits sum.splits option.splits simp del: try_receive_request.simps)
qed simp

text \<open>A request that can be read: payload and attachment are there and decode. A handler takes the readable requests
  before the first other one, which it discards; those behind stay in the queue.\<close>

definition readable_request :: "zserde \<Rightarrow> 'q cdr_encoding \<Rightarrow> zenoh_query \<Rightarrow> 'q option" where
  "readable_request z cdr q =
     (case (zq_payload q, zq_attachment q) of
        (Some payload, Some attachment) \<Rightarrow>
          (case (from_cdr cdr payload, from_zbytes z attachment) of (Inr req, Inr _) \<Rightarrow> Some req | _ \<Rightarrow> None)
      | _ \<Rightarrow> None)"

fun take_readable :: "zserde \<Rightarrow> 'q cdr_encoding \<Rightarrow> zenoh_query list \<Rightarrow> 'q list \<times> zenoh_query list" where
  "take_readable z cdr [] = ([], [])"
| "take_readable z cdr (q # qs) =
     (case readable_request z cdr q of
        None \<Rightarrow> ([], qs)
      | Some req \<Rightarrow> (case take_readable z cdr qs of (reqs, rest) \<Rightarrow> (req # reqs, rest)))"

lemma accept_readable:
  "(case fst (server_accept z cdr q v) of Inr (i, req) \<Rightarrow> Some req | Inl e \<Rightarrow> None) = readable_request z cdr q"
  by (auto simp: server_accept_def readable_request_def Let_def split: option.splits sum.splits)

lemma request_loop_taken:
  "fst (request_loop z qcdr rcdr reply_ok now h queue w v) = foldl (\<lambda>w req. snd (h req w)) w (fst (take_readable z qcdr queue))
   \<and> snd (snd (request_loop z qcdr rcdr reply_ok now h queue w v)) = snd (take_readable z qcdr queue)"
proof (induction queue arbitrary: w v)
  case (Cons q queue)
  obtain r v1 where a: "server_accept z qcdr q v = (r, v1)" by fastforce
  have acc: "(case r of Inr (i, req) \<Rightarrow> Some req | Inl e \<Rightarrow> None) = readable_request z qcdr q"
    using accept_readable [of z qcdr q v] a by simp
  show ?case
  proof (cases r)
    case (Inl e)
    then show ?thesis using a acc by simp
  next
    case (Inr x)
    obtain i req where "x = (i, req)" by (cases x)
    then have "readable_request z qcdr q = Some req" using acc Inr by simp
    then show ?thesis using a Inr \<open>x = (i, req)\<close> Cons.IH by (simp add: case_prod_unfold Let_def)
  qed
qed simp

lemma foldl_same: "foldl (\<lambda>w r. w) w rs = w"
  by (induction rs) simp_all

lemmas loop_state = request_loop_taken [THEN conjunct1] and loop_rest = request_loop_taken [THEN conjunct2]

lemma handle_store:
  "ps_store (fst (handle_get_parameters env q s)) = ps_store s" "ps_store (fst (handle_get_parameter_types env q s)) = ps_store s"
  "ps_store (fst (handle_set_parameters_atomically env q s)) = ps_store s"
  "ps_store (fst (handle_list_parameters env q s)) = ps_store s" "ps_store (fst (handle_describe_parameters env q s)) = ps_store s"
  by (simp_all add: handle_get_parameters_def handle_get_parameter_types_def handle_set_parameters_atomically_def
      handle_list_parameters_def handle_describe_parameters_def foldl_same case_prod_unfold Let_def loop_state)

text \<open>What the requests of a round set, in order.\<close>

definition set_entries :: "raw_parameter list \<Rightarrow> (string \<times> parameter_value) list" where
  "set_entries params = map (\<lambda>rp. (rp_name rp, value_from_raw (rp_value rp))) params"

definition requested_sets :: "param_env \<Rightarrow> zenoh_query list \<Rightarrow> (string \<times> parameter_value) list" where
  "requested_sets env queue = concat (map set_entries (fst (take_readable (pe_serde env) (pe_set_cdr env) queue)))"

definition store_after :: "parameter_store \<Rightarrow> (string \<times> parameter_value) list \<Rightarrow> parameter_store" where
  "store_after m sets = foldl (\<lambda>m (n, v). bt_insert n v m) m sets"

lemma set_each_sets: "ps_store (snd (set_each (set_and_notify env) params s)) = store_after (ps_store s) (set_entries params)"
proof (induction params arbitrary: s)
  case (Cons rp params)
  let ?p = "parameter_from_raw rp"
  obtain r s1 where r: "set_and_notify env (par_name ?p) (par_value ?p) s = (r, s1)" by fastforce
  then have "ps_store s1 = bt_insert (rp_name rp) (value_from_raw (rp_value rp)) (ps_store s)"
    using set_and_notify_store by (fastforce simp: parameter_from_raw_def)
  then show ?case
    using Cons.IH [of s1] r by (simp add: store_after_def set_entries_def case_prod_unfold Let_def)
qed (simp add: store_after_def set_entries_def)

lemma handle_set_store:
  "ps_store (fst (handle_set_parameters env queue s)) = store_after (ps_store s) (requested_sets env queue)"
  "snd (handle_set_parameters env queue s) = snd (take_readable (pe_serde env) (pe_set_cdr env) queue)"
proof -
  have "ps_store (foldl (\<lambda>w req. snd (set_each (set_and_notify env) req w)) s reqs) = store_after (ps_store s) (concat (map set_entries reqs))" for reqs
    by (induction reqs arbitrary: s) (simp_all add: set_each_sets store_after_def)
  then show "ps_store (fst (handle_set_parameters env queue s)) = store_after (ps_store s) (requested_sets env queue)"
    "snd (handle_set_parameters env queue s) = snd (take_readable (pe_serde env) (pe_set_cdr env) queue)"
    by (simp_all add: handle_set_parameters_def requested_sets_def case_prod_unfold Let_def loop_state loop_rest)
qed

lemma spin_once_store:
  "ps_store (fst (spin_once env qs s)) = store_after (ps_store s) (requested_sets env (pq_set qs))"
  "pq_set (snd (spin_once env qs s)) = snd (take_readable (pe_serde env) (pe_set_cdr env) (pq_set qs))"
  by (simp_all add: spin_once_def Let_def case_prod_unfold handle_store handle_set_store)

text \<open>A history of the server: the application sets a parameter, or a round of \<open>spin\<close> answers what has arrived.\<close>

datatype param_step = SetLocally param_env string parameter_value | SpinRound param_env param_queues

fun param_run :: "param_step list \<Rightarrow> zenoh_parameter_server \<times> param_queues \<Rightarrow> zenoh_parameter_server \<times> param_queues" where
  "param_run [] s = s"
| "param_run (SetLocally env n v # steps) s = param_run steps (zenoh_set_parameter env n v (fst s), snd s)"
| "param_run (SpinRound env arrived # steps) s = param_run steps (spin_once env (queues_join (snd s) arrived) (fst s))"

lemma param_run_spin: "param_run (map (\<lambda>(env, arrived). SpinRound env arrived) rounds) (s, left) = spin rounds left s"
  by (induction rounds left s rule: spin.induct) (auto split: prod.splits)

text \<open>Everything that a history sets, in order; \<open>left\<close> is the queue of the set requests that were left behind.\<close>

fun sets_of :: "param_step list \<Rightarrow> zenoh_query list \<Rightarrow> (string \<times> parameter_value) list" where
  "sets_of [] left = []"
| "sets_of (SetLocally env n v # steps) left = (n, v) # sets_of steps left"
| "sets_of (SpinRound env arrived # steps) left =
     requested_sets env (left @ pq_set arrived)
       @ sets_of steps (snd (take_readable (pe_serde env) (pe_set_cdr env) (left @ pq_set arrived)))"

lemma store_after_append: "store_after m (as @ bs) = store_after (store_after m as) bs"
  by (simp add: store_after_def)

lemma param_run_store: "ps_store (fst (param_run steps s)) = store_after (ps_store (fst s)) (sets_of steps (pq_set (snd s)))"
proof (induction steps s rule: param_run.induct)
  case (2 env n v steps s)
  have "ps_store (zenoh_set_parameter env n v (fst s)) = bt_insert n v (ps_store (fst s))"
    by (simp add: zenoh_set_parameter_def set_and_notify_def Let_def)
  then show ?case using 2 by (simp add: store_after_def)
next
  case (3 env arrived steps s)
  then show ?case by (simp add: spin_once_store store_after_append queues_join_def)
qed (simp add: store_after_def)

lemma store_after_map:
  assumes "bt_inv m"
  shows "bt_inv (store_after m sets) \<and> map_of (store_after m sets) = map_of m ++ map_of (rev sets)"
  using assms unfolding store_after_def
  by (induction sets arbitrary: m) (auto simp: bt_inv_insert bt_get_insert map_add_def fun_eq_iff split: option.splits)

definition no_queues :: param_queues where
  "no_queues = \<lparr>pq_get = [], pq_types = [], pq_set = [], pq_atomic = [], pq_list = [], pq_describe = []\<rparr>"

definition initial_sets :: "parameter list \<Rightarrow> (string \<times> parameter_value) list" where
  "initial_sets ps = (''use_sim_time'', Boolean False) # map (\<lambda>p. (par_name p, par_value p)) ps"

lemma initial_store_map:
  "bt_inv (initial_store ps) \<and> map_of (initial_store ps) = map_of (rev (initial_sets ps))"
proof -
  let ?given = "map (\<lambda>p. (par_name p, par_value p)) ps"
  define m where "m = fold (\<lambda>p m. bt_insert (par_name p) (par_value p) m) ps []"
  have fold: "fold (\<lambda>p m. bt_insert (par_name p) (par_value p) m) ps k = store_after k ?given" for k
    by (induction ps arbitrary: k) (simp_all add: store_after_def)
  have "bt_inv ([] :: parameter_store)" by (simp add: bt_inv_def)
  from store_after_map [OF this, of ?given] have m: "bt_inv m" "map_of m = map_of (rev ?given)"
    by (simp_all add: m_def fold)
  have start: "map_of (rev (initial_sets ps)) = [''use_sim_time'' \<mapsto> Boolean False] ++ map_of m"
    by (simp add: initial_sets_def m(2))
  have "initial_store ps = (case map_of m ''use_sim_time'' of
      None \<Rightarrow> bt_insert ''use_sim_time'' (Boolean False) m | Some _ \<Rightarrow> m)"
    by (simp add: initial_store_def m_def [symmetric])
  then show ?thesis
    unfolding start using m(1)
    by (cases "map_of m ''use_sim_time''") (auto simp: bt_inv_insert bt_get_insert map_add_def fun_eq_iff split: option.split)
qed

text \<open>C27. After any history of settings by the application and of rounds that answer remote requests, a parameter has
  the value that was set last: by the application, by a readable remote request in the order of
  the queue, or at the start, where \<open>use_sim_time\<close> is false unless given. A parameter that was never set has none, and the
  names are listed in order, each once.\<close>

theorem parameter_store_history:
  "zenoh_get_parameter name (fst (param_run steps
       (parameter_server_new fqn initial get types set_p set_at list_p describe events, no_queues)))
     = map_of (rev (initial_sets initial @ sets_of steps [])) name
   \<and> parameter_names (fst (param_run steps
       (parameter_server_new fqn initial get types set_p set_at list_p describe events, no_queues)))
     = sorted_list_of_set (fst ` set (initial_sets initial @ sets_of steps []))"
proof -
  let ?sets = "initial_sets initial @ sets_of steps []"
  let ?db = "ps_store (fst (param_run steps (parameter_server_new fqn initial get types set_p set_at list_p describe events, no_queues)))"
  have db: "?db = store_after (initial_store initial) (sets_of steps [])"
    by (simp add: param_run_store no_queues_def parameter_server_new_def)
  have inv: "bt_inv ?db" and m: "map_of ?db = map_of (rev ?sets)"
    using store_after_map [of "initial_store initial" "sets_of steps []"] initial_store_map [of initial] db
    by simp_all
  have "set (map fst ?db) = fst ` set ?sets"
    using arg_cong [OF m, of dom] by (simp only: dom_map_of_conv_image_fst set_rev set_map)
  moreover have "sorted_wrt (<) (map fst ?db)" using inv by (simp add: bt_inv_def)
  ultimately have "map fst ?db = sorted_list_of_set (fst ` set ?sets)"
    by (metis sorted_list_of_set.idem_if_sorted_distinct strict_sorted_iff)
  then show ?thesis by (simp add: zenoh_get_parameter_def parameter_names_def m)
qed

subsection \<open>Remote access\<close>

definition query_of :: "nat \<Rightarrow> zenoh_get \<Rightarrow> zenoh_query" where
  "query_of ident g = \<lparr>zq_ident = ident, zq_key = zg_selector g, zq_payload = Some (zg_payload g),
     zq_attachment = Some (zg_attachment g)\<rparr>"

definition replies_to :: "nat \<Rightarrow> zenoh_server \<Rightarrow> zenoh_reply list option" where
  "replies_to ident v = Some (map (ReplyOk \<circ> snd) (filter (\<lambda>(q, _). zq_ident q = ident) (zv_replies v)))"

lemma accept_keeps_replies: "zv_replies (snd (server_accept z cdr q v)) = zv_replies v"
  by (auto simp: server_accept_def store_pending_def Let_def split: option.splits sum.splits)

lemma send_response_error_replies:
  assumes "server_send_response z cdr reply_ok now i resp v = (Inl e, v')"
  shows "zv_replies v' = zv_replies v"
  using assms by (auto simp: server_send_response_def reply_query_def Let_def split: option.splits sum.splits if_splits)

lemma request_loop_single:
  assumes "ident \<notin> set (answered_ids v)"
  shows "first_reply rcdr (the (replies_to ident (fst (snd (request_loop z qcdr rcdr (\<lambda>_. True) now h [query_of ident g] w v)))))
    = first_reply rcdr (the (served z qcdr rcdr (\<lambda>req. fst (h req w)) now ident v g))"
proof -
  have none: "filter (\<lambda>(q, _). zq_ident q = ident) (zv_replies v) = []"
    using assms by (force simp: answered_ids_def filter_empty_conv)
  obtain r v1 where a: "server_accept z qcdr (query_of ident g) v = (r, v1)" by fastforce
  have v1: "filter (\<lambda>(q, _). zq_ident q = ident) (zv_replies v1) = []"
    using accept_keeps_replies [of z qcdr "query_of ident g" v] a none by simp
  show ?thesis
  proof (cases r)
    case (Inl e)
    then show ?thesis using a v1 by (simp add: replies_to_def served_def query_of_def)
  next
    case (Inr x)
    obtain i req where x: "x = (i, req)" by fastforce
    obtain r' v2 where r: "server_send_response z rcdr (\<lambda>_. True) now i (fst (h req w)) v1 = (r', v2)" by fastforce
    show ?thesis
    proof (cases r')
      case (Inl e)
      then have "filter (\<lambda>(q, _). zq_ident q = ident) (zv_replies v2) = []"
        using send_response_error_replies r v1 by fastforce
      then show ?thesis
        using a Inr x r Inl by (simp add: replies_to_def served_def query_of_def case_prod_unfold Let_def)
    next
      case (Inr y)
      then show ?thesis
        using a \<open>r = Inr x\<close> x r by (simp add: replies_to_def served_def query_of_def case_prod_unfold Let_def)
    qed
  qed
qed

lemma client_call_cong:
  assumes "\<And>g. \<exists>rs rs'. get g = Some rs \<and> get' g = Some rs' \<and> first_reply rcdr rs = first_reply rcdr rs'"
  shows "client_call mode z qcdr rcdr get now req c = client_call mode z qcdr rcdr get' now req c"
proof (cases "request_bytes mode z qcdr now req c")
  case (Pair r c')
  show ?thesis
  proof (cases r)
    case (Inr x)
    then obtain payload attachment where "x = (payload, attachment)" by fastforce
    then show ?thesis
      using Pair Inr assms [of "\<lparr>zg_selector = zc_selector c', zg_payload = payload, zg_attachment = attachment,
        zg_timeout = zc_timeout c'\<rparr>"] by (auto simp: client_call_def)
  qed (simp add: client_call_def Pair)
qed

text \<open>A call that reaches a handler's loop returns the handler's answer.\<close>

lemma answered_call:
  assumes "cdr_lawful qcdr" and "cdr_lawful rcdr" and "zserde_lawful z" and "length (zc_gid c) = 16"
    and "0 \<le> zc_seq c" and "zc_seq c < 2 ^ 63 - 1"
    and "to_cdr qcdr req = Ok qb" and "to_cdr rcdr (fst (h req w)) = Ok rb" and "ident \<notin> set (answered_ids v)"
  shows "client_call mode z qcdr rcdr (\<lambda>g. replies_to ident (fst (snd
      (request_loop z qcdr rcdr (\<lambda>_. True) now' h [query_of ident g] w v)))) now req c
    = (Ok (fst (h req w)), c\<lparr>zc_seq := zc_seq c + 1\<rparr>)"
proof -
  let ?f = "\<lambda>req. fst (h req w)"
  have some: "\<exists>rs. served z qcdr rcdr ?f now' ident v g = Some rs" for g
    by (simp add: served_def split: prod.splits sum.splits)
  have "client_call mode z qcdr rcdr (\<lambda>g. replies_to ident (fst (snd
      (request_loop z qcdr rcdr (\<lambda>_. True) now' h [query_of ident g] w v)))) now req c
    = client_call mode z qcdr rcdr (served z qcdr rcdr ?f now' ident v) now req c"
    using request_loop_single [OF assms(9), of rcdr z qcdr now' h _ w] some
    by (intro client_call_cong) (metis option.sel replies_to_def)
  also have "\<dots> = (Ok (?f req), c\<lparr>zc_seq := zc_seq c + 1\<rparr>)"
    using served_call [where f = ?f, OF assms] .
  finally show ?thesis .
qed

lemma set_each_all_accepted:
  "fst (set_each (set_and_notify env) ps s) = map (\<lambda>_. \<lparr>successful = True, reason = []\<rparr>) ps"
proof (induction ps arbitrary: s)
  case (Cons p ps)
  obtain r s' where r: "set_and_notify env (par_name (parameter_from_raw p)) (par_value (parameter_from_raw p)) s = (r, s')" by fastforce
  then have "r = Ok ()" using set_and_notify_store by blast
  then show ?case using Cons [of s'] r by (simp add: Let_def case_prod_unfold)
qed simp

lemma accepted_updates_all:
  "accepted_updates (map raw_from_parameter ps) (map (\<lambda>_. \<lparr>successful = True, reason = []\<rparr>) (map raw_from_parameter ps))
    = map (\<lambda>p. (par_name p, par_value p)) ps"
  by (induction ps) (simp_all add: accepted_updates_def raw_from_parameter_def)

lemma get_after_remote_set:
  assumes "s' = snd (set_each (set_and_notify env) (map raw_from_parameter params) s)"
  shows "map value_from_raw (get_values (ps_store s') names) =
    map (\<lambda>n. case map_of (rev (map (\<lambda>p. (par_name p, par_value p)) params)) n of
        Some v \<Rightarrow> v | None \<Rightarrow> (case zenoh_get_parameter n s of Some v \<Rightarrow> v | None \<Rightarrow> NotSet)) names"
proof -
  obtain rs where rs: "set_each (set_and_notify env) (map raw_from_parameter params) s = (rs, s')"
    using assms by (metis prod.collapse)
  then have "rs = map (\<lambda>_. \<lparr>successful = True, reason = []\<rparr>) (map raw_from_parameter params)"
    using set_each_all_accepted [of env "map raw_from_parameter params" s] by simp
  then have "accepted_updates (map raw_from_parameter params) rs = map (\<lambda>p. (par_name p, par_value p)) params"
    by (simp only: accepted_updates_all)
  then show ?thesis
    using zenoh_params.get_after_set_each [OF rs, of names] unfolding zenoh_get_parameter_def by simp
qed

lemma request_loop_accepted:
  assumes "server_accept z qcdr q v = (Ok (i, req), v1)"
  shows "fst (request_loop z qcdr rcdr reply_ok now h [q] w v) = snd (h req w)"
  using assms by (simp add: case_prod_unfold Let_def)

lemma set_handled:
  assumes "cdr_lawful (pe_set_cdr env)" and "zq_payload q = Some b" and "to_cdr (pe_set_cdr env) params = Ok b"
    and "zq_attachment q = Some att" and "from_zbytes (pe_serde env) att = Ok a"
  shows "ps_store (fst (handle_set_parameters env [q] s)) = ps_store (snd (set_each (set_and_notify env) params s))"
proof -
  obtain i v1 where "server_accept (pe_serde env) (pe_set_cdr env) q (ps_set_parameters s) = (Ok (i, params), v1)"
    using assms by (simp add: server_accept_def from_to_cdr [OF assms(1,3)] Let_def)
  from request_loop_accepted [OF this, of "pe_set_results_cdr env" "pe_reply_ok env" "pe_now env"
      "\<lambda>params s. set_each (set_and_notify env) params s" s]
  show ?thesis by (simp add: handle_set_parameters_def case_prod_unfold Let_def del: request_loop.simps)
qed

text \<open>C14. Parameters set remotely are what a remote client reads afterwards: the call that sets them
  reports success for each, and a later get returns for every name the value last set for it, the
  value the store had before if it was not among those set, and \<open>NotSet\<close> for an unknown name.\<close>

theorem remote_set_then_get:
  assumes "cdr_lawful (pe_names_cdr env)" and "cdr_lawful (pe_values_cdr env)" and "cdr_lawful (pe_set_cdr env)"
    and "cdr_lawful (pe_set_results_cdr env)" and "zserde_lawful (pe_serde env)" and "pe_reply_ok env = (\<lambda>_. True)"
    and "length (zc_gid (pc_set_parameters c)) = 16" and "0 \<le> zc_seq (pc_set_parameters c)" and "zc_seq (pc_set_parameters c) < 2 ^ 63 - 1"
    and "length (zc_gid (pc_get_parameters c)) = 16" and "0 \<le> zc_seq (pc_get_parameters c)" and "zc_seq (pc_get_parameters c) < 2 ^ 63 - 1"
    and "to_cdr (pe_set_cdr env) (map raw_from_parameter params) = Ok b"
    and "to_cdr (pe_set_results_cdr env) (map (\<lambda>_. \<lparr>successful = True, reason = []\<rparr>) params) = Ok rb"
    and "zq_payload q = Some b" and "zq_attachment q = Some att" and "from_zbytes (pe_serde env) att = Ok a"
    and "s1 = fst (handle_set_parameters env [q] s)"
    and "to_cdr (pe_names_cdr env) names = Ok nb" and "to_cdr (pe_values_cdr env) (get_values (ps_store s1) names) = Ok vb"
    and "ident \<notin> set (answered_ids (ps_set_parameters s))" and "ident' \<notin> set (answered_ids (ps_get_parameters s1))"
  shows "fst (client_set_parameters env (\<lambda>g. replies_to ident (ps_set_parameters
        (fst (handle_set_parameters env [query_of ident g] s)))) params c) = Ok (map (\<lambda>_. Ok ()) params)
    \<and> fst (client_get_parameters env (\<lambda>g. replies_to ident' (ps_get_parameters
        (fst (handle_get_parameters env [query_of ident' g] s1)))) names c)
      = Ok (map (\<lambda>n. case map_of (rev (map (\<lambda>p. (par_name p, par_value p)) params)) n of
          Some v \<Rightarrow> v | None \<Rightarrow> (case zenoh_get_parameter n s of Some v \<Rightarrow> v | None \<Rightarrow> NotSet)) names)"
proof
  let ?h = "\<lambda>params s. set_each (set_and_notify env) params s"
  have rs: "fst (?h (map raw_from_parameter params) s) = map (\<lambda>_. \<lparr>successful = True, reason = []\<rparr>) params"
    by (simp add: set_each_all_accepted comp_def)
  have "to_cdr (pe_set_results_cdr env) (fst (?h (map raw_from_parameter params) s)) = Ok rb"
    using assms(14) by (simp only: rs)
  note call = answered_call [where h = ?h, OF assms(3,4,5,7-9,13) this assms(21), of "pe_mode env" "pe_now env" "pe_now env"]
  show "fst (client_set_parameters env (\<lambda>g. replies_to ident (ps_set_parameters
      (fst (handle_set_parameters env [query_of ident g] s)))) params c) = Ok (map (\<lambda>_. Ok ()) params)"
    using call assms(6)
    by (simp add: client_set_parameters_def handle_set_parameters_def case_prod_unfold Let_def rs comp_def del: request_loop.simps)
  let ?g = "\<lambda>names s. (get_values (ps_store s) names, s)"
  have "to_cdr (pe_values_cdr env) (fst (?g names s1)) = Ok vb" using assms(20) by simp
  note call = answered_call [where h = ?g, OF assms(1,2,5,10-12,19) this assms(22), of "pe_mode env" "pe_now env" "pe_now env"]
  have "ps_store s1 = ps_store (snd (?h (map raw_from_parameter params) s))"
    unfolding assms(18) by (rule set_handled [OF assms(3,15,13,16,17)])
  then have vals: "map value_from_raw (get_values (ps_store s1) names) =
    map (\<lambda>n. case map_of (rev (map (\<lambda>p. (par_name p, par_value p)) params)) n of
        Some v \<Rightarrow> v | None \<Rightarrow> (case zenoh_get_parameter n s of Some v \<Rightarrow> v | None \<Rightarrow> NotSet)) names"
    using get_after_remote_set [OF refl, of env params s names] by simp
  show "fst (client_get_parameters env (\<lambda>g. replies_to ident' (ps_get_parameters
        (fst (handle_get_parameters env [query_of ident' g] s1)))) names c)
      = Ok (map (\<lambda>n. case map_of (rev (map (\<lambda>p. (par_name p, par_value p)) params)) n of
          Some v \<Rightarrow> v | None \<Rightarrow> (case zenoh_get_parameter n s of Some v \<Rightarrow> v | None \<Rightarrow> NotSet)) names)"
    using call assms(6) unfolding vals [symmetric]
    by (simp add: client_get_parameters_def handle_get_parameters_def case_prod_unfold Let_def del: request_loop.simps)
qed

text \<open>A codec of one value.\<close>

definition single_cdr :: "'a \<Rightarrow> 'a cdr_encoding" where
  "single_cdr x = \<lparr>to_vec_le = (\<lambda>y. if y = x then Some [1] else None), from_bytes_le = (\<lambda>_. Some (x, 1)),
     from_bytes_be = (\<lambda>_. None)\<rparr>"

lemma single_cdr_lawful: "cdr_lawful (single_cdr x)"
  by (simp add: cdr_lawful_def single_cdr_def)

lemma to_cdr_single: "to_cdr (single_cdr x) x = Ok (CDR_LE_HEADER @ [1])"
  by (simp add: to_cdr_def single_cdr_def)

definition sample_env :: param_env where
  "sample_env =
     \<lparr>pe_mode = Checked, pe_serde = zenoh_ext, pe_names_cdr = single_cdr [''x'', ''use_sim_time'', ''y''],
      pe_values_cdr = single_cdr (map raw_from_value [Integer 2, Boolean False, NotSet]), pe_types_cdr = single_cdr [],
      pe_set_cdr = single_cdr (map raw_from_parameter
        [\<lparr>par_name = ''x'', par_value = Integer 1\<rparr>, \<lparr>par_name = ''x'', par_value = Integer 2\<rparr>]),
      pe_set_results_cdr = single_cdr [\<lparr>successful = True, reason = []\<rparr>, \<lparr>successful = True, reason = []\<rparr>],
      pe_list_cdr = single_cdr \<lparr>lp_prefixes = [], lp_depth = 0\<rparr>, pe_list_result_cdr = single_cdr \<lparr>lr_names = [], lr_prefixes = []\<rparr>,
      pe_descriptors_cdr = single_cdr [], pe_event_cdr = single_cdr \<lparr>pv_stamp = \<lparr>bt_nanos_since_epoch = 0\<rparr>, pv_node = ''/n'',
        pv_new_parameters = [], pv_changed_parameters = [], pv_deleted_parameters = []\<rparr>,
      pe_now = None, pe_stamp = \<lparr>bt_nanos_since_epoch = 0\<rparr>, pe_put_ok = (\<lambda>_. True), pe_reply_ok = (\<lambda>_. True)\<rparr>"

definition sample_server :: zenoh_parameter_server where
  "sample_server = parameter_server_new ''/n'' [] (server_new ''g'' None) (server_new ''t'' None) (server_new ''s'' None)
     (server_new ''a'' None) (server_new ''l'' None) (server_new ''d'' None) (publisher_new ''e'' (replicate 16 1) None)"

lemma answered_after_set:
  "ps_get_parameters (fst (handle_set_parameters env queue s)) = ps_get_parameters s"
proof -
  have step: "ps_get_parameters (snd (set_each (set_and_notify env) params w)) = ps_get_parameters w" for params w
    by (induction params arbitrary: w)
      (simp_all add: Let_def case_prod_unfold set_and_notify_def publish_event_def)
  have "ps_get_parameters (fst (request_loop (pe_serde env) (pe_set_cdr env) (pe_set_results_cdr env) (pe_reply_ok env) (pe_now env)
      (\<lambda>params s. set_each (set_and_notify env) params s) queue s (ps_set_parameters s))) = ps_get_parameters s"
    by (rule request_loop_keeps [where P = "\<lambda>w. ps_get_parameters w = ps_get_parameters s"]) (simp_all add: step)
  then show ?thesis by (simp add: handle_set_parameters_def case_prod_unfold Let_def)
qed

theorem remote_set_then_get_witness:
  "\<exists>q. fst (client_get_parameters sample_env (\<lambda>g. replies_to 5 (ps_get_parameters
      (fst (handle_get_parameters sample_env [query_of 5 g] (fst (handle_set_parameters sample_env [q] sample_server))))))
      [''x'', ''use_sim_time'', ''y'']
      (let c = client_new ''k'' (replicate 16 5) None in \<lparr>pc_get_parameters = c, pc_get_parameter_types = c,
        pc_set_parameters = c, pc_list_parameters = c, pc_describe_parameters = c\<rparr>))
    = Ok [Integer 2, Boolean False, NotSet]"
proof -
  let ?a = "\<lparr>at_sequence_number = 1, at_source_timestamp = 0, at_source_gid = replicate 16 5\<rparr>"
  let ?q = "\<lparr>zq_ident = 4, zq_key = ''s'', zq_payload = Some (CDR_LE_HEADER @ [1]), zq_attachment = Some (to_zbytes zenoh_ext ?a)\<rparr>"
  let ?c = "client_new ''k'' (replicate 16 5) None"
  let ?pc = "\<lparr>pc_get_parameters = ?c, pc_get_parameter_types = ?c, pc_set_parameters = ?c, pc_list_parameters = ?c, pc_describe_parameters = ?c\<rparr>"
  let ?ps = "[\<lparr>par_name = ''x'', par_value = Integer 1\<rparr>, \<lparr>par_name = ''x'', par_value = Integer 2\<rparr>]"
  let ?s1 = "fst (handle_set_parameters sample_env [?q] sample_server)"
  have wf: "wf_attachment ?a" by (simp add: wf_attachment_def in_signed_def)
  have att: "from_zbytes (pe_serde sample_env) (to_zbytes zenoh_ext ?a) = Ok ?a"
    using from_to_zbytes [OF zenoh_ext_lawful wf] by (simp add: sample_env_def)
  have sim: "zenoh_get_parameter ''use_sim_time'' sample_server = Some (Boolean False)" "zenoh_get_parameter ''y'' sample_server = None"
    by (simp_all add: zenoh_get_parameter_def sample_server_def parameter_server_new_def initial_store_def)
  have set: "to_cdr (pe_set_cdr sample_env) (map raw_from_parameter ?ps) = Ok (CDR_LE_HEADER @ [1])"
    using to_cdr_single [of "map raw_from_parameter ?ps"] by (simp add: sample_env_def)
  have "map value_from_raw (get_values (ps_store ?s1) [''x'', ''use_sim_time'', ''y'']) = [Integer 2, Boolean False, NotSet]"
    using set_handled [of sample_env ?q, OF _ _ set _ att] get_after_remote_set [OF refl, of sample_env ?ps sample_server] sim
    by (simp add: sample_env_def single_cdr_lawful)
  then have "get_values (ps_store ?s1) [''x'', ''use_sim_time'', ''y''] = map raw_from_value [Integer 2, Boolean False, NotSet]"
    by (auto simp: get_values_def split: option.splits)
  then have got: "to_cdr (pe_values_cdr sample_env) (get_values (ps_store ?s1) [''x'', ''use_sim_time'', ''y'']) = Ok (CDR_LE_HEADER @ [1])"
    using to_cdr_single [of "map raw_from_value [Integer 2, Boolean False, NotSet]"] by (simp add: sample_env_def)
  have "fst (client_get_parameters sample_env (\<lambda>g. replies_to 5 (ps_get_parameters
      (fst (handle_get_parameters sample_env [query_of 5 g] ?s1)))) [''x'', ''use_sim_time'', ''y''] ?pc)
    = Ok [Integer 2, Boolean False, NotSet]"
    using remote_set_then_get [OF _ _ _ _ _ _ _ _ _ _ _ _ set _ _ _ _ refl _ got, where c = ?pc and a = ?a and ident = 3 and ident' = 5] sim att answered_after_set [of sample_env "[?q]"]
    by (simp add: sample_env_def single_cdr_lawful zenoh_ext_lawful to_cdr_single client_new_def sample_server_def parameter_server_new_def answered_ids_def)
  then show ?thesis by (intro exI [of _ ?q]) (simp add: Let_def)
qed

text \<open>A request the server cannot accept ends the round of its service: it is taken and dropped, no
  request queued behind it is answered, and they stay in the queue although they could be.\<close>

lemma undecodable_request_stalls_queue:
  assumes "server_accept (pe_serde env) (pe_names_cdr env) q (ps_get_parameters s) = (Err e, v)"
  shows "handle_get_parameters env (q # queue) s = (s\<lparr>ps_get_parameters := v\<rparr>, queue)
    \<and> zv_replies v = zv_replies (ps_get_parameters s)"
  using assms accept_keeps_replies [of "pe_serde env" "pe_names_cdr env" q "ps_get_parameters s"]
  by (simp add: handle_get_parameters_def)

theorem undecodable_request_stalls_queue_witness:
  "snd (handle_get_parameters sample_env
     [\<lparr>zq_ident = 1, zq_key = ''g'', zq_payload = None, zq_attachment = None\<rparr>,
      \<lparr>zq_ident = 2, zq_key = ''g'', zq_payload = Some [0, 1, 0, 0, 1], zq_attachment = Some (replicate 33 0)\<rparr>] sample_server)
   = [\<lparr>zq_ident = 2, zq_key = ''g'', zq_payload = Some [0, 1, 0, 0, 1], zq_attachment = Some (replicate 33 0)\<rparr>]"
  by (subst undecodable_request_stalls_queue [where e = Malformed, THEN conjunct1])
    (simp_all add: server_accept_def)

end
