(* ===== verification/Dds_Service.thy ===== *)
theory Dds_Service
  imports Zenoh_Wire Rust_Maps
begin

text \<open>
  Services of the DDS backend: request ids (\<open>service/request_id.rs\<close>), the metadata of received
  samples (\<open>message_info.rs\<close>), the wrappers that put a service message into a DDS sample under the
  three service mappings (\<open>service/wrappers.rs\<close>), and the client and servers on top of them
  (\<open>service/client.rs\<close>, \<open>service/server.rs\<close>). CDR serialization, sequence numbers, \<open>Bytes::split_off\<close>
  and the data writers and readers are code of rustdds and bytes: the record \<open>dds_lib\<close> and the
  arguments \<open>write\<close> and received samples stand for them.
\<close>

subsection \<open>What is used of rustdds\<close>

type_synonym guid = "byte list"

record sample_identity =
  si_writer_guid :: guid
  si_sequence_number :: int

datatype rep_id = CDR_BE | CDR_LE | OtherRep "byte list"

text \<open>Serialization of one type: the bytes appended to a buffer, and the value at the front of a
  buffer with the number of bytes it takes.\<close>

record 'a dds_cdr =
  dds_ser :: "rep_id \<Rightarrow> 'a \<Rightarrow> byte list option"
  dds_de :: "rep_id \<Rightarrow> byte list \<Rightarrow> ('a \<times> nat) option"

definition dds_cdr_lawful :: "'a dds_cdr \<Rightarrow> bool" where
  "dds_cdr_lawful c \<longleftrightarrow> (\<forall>e x b rest. dds_ser c e x = Some b \<longrightarrow> dds_de c e (b @ rest) = Some (x, length b))"

datatype read_error = ReadDeserialization | ReadInternal | ReadOther

datatype write_error = WriteSerialization | WriteOther

subsection \<open>Request ids and message metadata\<close>

record rmw_request_id =
  rr_writer_guid :: guid
  rr_sequence_number :: int

definition sample_identity_from :: "rmw_request_id \<Rightarrow> sample_identity" where
  "sample_identity_from i = \<lparr>si_writer_guid = rr_writer_guid i, si_sequence_number = rr_sequence_number i\<rparr>"

definition rmw_request_id_from :: "sample_identity \<Rightarrow> rmw_request_id" where
  "rmw_request_id_from i = \<lparr>rr_writer_guid = si_writer_guid i, rr_sequence_number = si_sequence_number i\<rparr>"

lemma request_id_conversions [simp]:
  "rmw_request_id_from (sample_identity_from i) = i" "sample_identity_from (rmw_request_id_from s) = s"
  by (simp_all add: rmw_request_id_from_def sample_identity_from_def)

record dds_message_info =
  dm_received_timestamp :: int
  dm_source_timestamp :: "int option"
  dm_sequence_number :: int
  dm_publisher :: guid
  dm_related_sample_identity :: "sample_identity option"

definition mi_sample_identity :: "dds_message_info \<Rightarrow> sample_identity" where
  "mi_sample_identity mi = \<lparr>si_writer_guid = dm_publisher mi, si_sequence_number = dm_sequence_number mi\<rparr>"

text \<open>A received sample: rustdds's \<open>DeserializedCacheChange\<close>.\<close>

record 'v cache_change =
  cc_source_timestamp :: "int option"
  cc_sequence_number :: int
  cc_writer_guid :: guid
  cc_related_sample_identity :: "sample_identity option"
  cc_value :: 'v

definition message_info_of :: "'v cache_change \<Rightarrow> dds_message_info" where
  "message_info_of dcc =
     \<lparr>dm_received_timestamp = 0, dm_source_timestamp = cc_source_timestamp dcc,
      dm_sequence_number = cc_sequence_number dcc, dm_publisher = cc_writer_guid dcc,
      dm_related_sample_identity = cc_related_sample_identity dcc\<rparr>"

subsection \<open>Service mappings and headers\<close>

datatype service_mapping = Basic | Enhanced | Cyclone

record basic_request_header =
  bq_request_id :: sample_identity
  bq_instance_name :: string

definition basic_request_header_new :: "sample_identity \<Rightarrow> basic_request_header" where
  "basic_request_header_new request_id = \<lparr>bq_request_id = request_id, bq_instance_name = []\<rparr>"

record basic_reply_header =
  br_related_request_id :: sample_identity
  br_remote_exception_code :: int

definition basic_reply_header_new :: "sample_identity \<Rightarrow> basic_reply_header" where
  "basic_reply_header_new related = \<lparr>br_related_request_id = related, br_remote_exception_code = 0\<rparr>"

record cyclone_header =
  cy_guid_second_half :: "byte list"
  cy_sequence_number_high :: int
  cy_sequence_number_low :: int

text \<open>The library functions: the codecs of the headers, \<open>SequenceNumber\<close>, and \<open>split_off\<close>, whose
  result is the buffer afterwards and the bytes returned.\<close>

record dds_lib =
  basic_request_cdr :: "basic_request_header dds_cdr"
  basic_reply_cdr :: "basic_reply_header dds_cdr"
  cyclone_cdr :: "cyclone_header dds_cdr"
  sn_unknown :: int
  sn_default :: int
  sn_high :: "int \<Rightarrow> int"
  sn_low :: "int \<Rightarrow> int"
  sn_from_high_low :: "int \<Rightarrow> int \<Rightarrow> int"
  split_off :: "byte list \<Rightarrow> nat \<Rightarrow> byte list \<times> byte list"

definition dds_lib_lawful :: "dds_lib \<Rightarrow> bool" where
  "dds_lib_lawful l \<longleftrightarrow> dds_cdr_lawful (basic_request_cdr l) \<and> dds_cdr_lawful (basic_reply_cdr l)
     \<and> dds_cdr_lawful (cyclone_cdr l)
     \<and> (\<forall>s. i64_ok s \<longrightarrow> sn_from_high_low l (sn_high l s) (sn_low l s) = s)
     \<and> (\<forall>b n. n \<le> length b \<longrightarrow> split_off l b n = (take n b, drop n b))"

definition cyclone_header_new :: "dds_lib \<Rightarrow> rmw_request_id \<Rightarrow> cyclone_header" where
  "cyclone_header_new l r_id =
     \<lparr>cy_guid_second_half = take 8 (drop 8 (rr_writer_guid r_id)),
      cy_sequence_number_high = sn_high l (rr_sequence_number r_id),
      cy_sequence_number_low = sn_low l (rr_sequence_number r_id)\<rparr>"

subsection \<open>Wrappers\<close>

record wrapper =
  serialized_message :: "byte list"
  encoding :: rep_id

definition from_bytes_and_ri :: "byte list \<Rightarrow> rep_id \<Rightarrow> wrapper" where
  "from_bytes_and_ri input_bytes enc = \<lparr>serialized_message = input_bytes, encoding = enc\<rparr>"

definition cyclone_unwrap :: "dds_lib \<Rightarrow> 'r dds_cdr \<Rightarrow> byte list \<Rightarrow> guid \<Rightarrow> rep_id \<Rightarrow> read_error + (rmw_request_id \<times> 'r)" where
  "cyclone_unwrap l cdr message writer_guid enc =
     and_then (ok_or ReadDeserialization (dds_de (cyclone_cdr l) enc message)) (\<lambda>(header, header_size).
       if length message < header_size then Err ReadDeserialization
       else let (bytes, _) = split_off l message header_size
            in and_then (ok_or ReadDeserialization (dds_de cdr enc bytes)) (\<lambda>(response, _).
                 Ok (\<lparr>rr_writer_guid = writer_guid, rr_sequence_number =
                       sn_from_high_low l (cy_sequence_number_high header) (cy_sequence_number_low header)\<rparr>, response)))"

text \<open>The id of a request under the enhanced mapping, with the two fallbacks.\<close>

definition enhanced_request_id :: "dds_lib \<Rightarrow> dds_message_info \<Rightarrow> rmw_request_id" where
  "enhanced_request_id l mi =
     (let i = rmw_request_id_from (case dm_related_sample_identity mi of Some r \<Rightarrow> r | None \<Rightarrow> mi_sample_identity mi)
      in if rr_sequence_number i = sn_unknown l
         then i\<lparr>rr_sequence_number := si_sequence_number (mi_sample_identity mi)\<rparr> else i)"

definition request_unwrap :: "dds_lib \<Rightarrow> 'q dds_cdr \<Rightarrow> service_mapping \<Rightarrow> dds_message_info \<Rightarrow> wrapper \<Rightarrow>
    read_error + (rmw_request_id \<times> 'q)" where
  "request_unwrap l cdr mapping mi w =
     (case mapping of
        Basic \<Rightarrow>
          and_then (ok_or ReadDeserialization (dds_de (basic_request_cdr l) (encoding w) (serialized_message w)))
            (\<lambda>(header, header_size).
              if length (serialized_message w) < header_size then Err ReadDeserialization
              else let (bytes, _) = split_off l (serialized_message w) header_size
                   in and_then (ok_or ReadDeserialization (dds_de cdr (encoding w) bytes)) (\<lambda>(request, _).
                        Ok (rmw_request_id_from (bq_request_id header), request)))
      | Enhanced \<Rightarrow>
          and_then (ok_or ReadDeserialization (dds_de cdr (encoding w) (serialized_message w))) (\<lambda>(request, _).
            Ok (enhanced_request_id l mi, request))
      | Cyclone \<Rightarrow> cyclone_unwrap l cdr (serialized_message w) (dm_publisher mi) (encoding w))"

definition request_header :: "dds_lib \<Rightarrow> service_mapping \<Rightarrow> rmw_request_id \<Rightarrow> rep_id \<Rightarrow> byte list option" where
  "request_header l mapping r_id enc =
     (case mapping of
        Basic \<Rightarrow> dds_ser (basic_request_cdr l) enc (basic_request_header_new (sample_identity_from r_id))
      | Enhanced \<Rightarrow> Some []
      | Cyclone \<Rightarrow> dds_ser (cyclone_cdr l) enc (cyclone_header_new l r_id))"

definition request_new :: "dds_lib \<Rightarrow> 'q dds_cdr \<Rightarrow> service_mapping \<Rightarrow> rmw_request_id \<Rightarrow> rep_id \<Rightarrow> 'q \<Rightarrow> write_error + wrapper" where
  "request_new l cdr mapping r_id enc request =
     and_then (ok_or WriteSerialization (request_header l mapping r_id enc))
       (\<lambda>header. and_then (ok_or WriteSerialization (dds_ser cdr enc request))
         (\<lambda>body. Ok \<lparr>serialized_message = header @ body, encoding = enc\<rparr>))"

definition response_unwrap :: "dds_lib \<Rightarrow> 'r dds_cdr \<Rightarrow> service_mapping \<Rightarrow> dds_message_info \<Rightarrow> guid \<Rightarrow> wrapper \<Rightarrow>
    read_error + (rmw_request_id \<times> 'r)" where
  "response_unwrap l cdr mapping mi client_guid w =
     (case mapping of
        Basic \<Rightarrow>
          and_then (ok_or ReadDeserialization (dds_de (basic_reply_cdr l) (encoding w) (serialized_message w)))
            (\<lambda>(header, header_size).
              if length (serialized_message w) < header_size then Err ReadDeserialization
              else let (bytes, _) = split_off l (serialized_message w) header_size
                   in and_then (ok_or ReadDeserialization (dds_de cdr (encoding w) bytes)) (\<lambda>(response, _).
                        Ok (rmw_request_id_from (br_related_request_id header), response)))
      | Enhanced \<Rightarrow>
          and_then (ok_or ReadDeserialization (dds_de cdr (encoding w) (serialized_message w))) (\<lambda>(response, _).
            case dm_related_sample_identity mi of
              Some rsi \<Rightarrow> Ok (rmw_request_id_from rsi, response)
            | None \<Rightarrow> Err ReadDeserialization)
      | Cyclone \<Rightarrow>
          (let client_guid' = take 8 client_guid @ take 8 (drop 8 (dm_publisher mi))
           in cyclone_unwrap l cdr (serialized_message w) client_guid' (encoding w)))"

definition response_header :: "dds_lib \<Rightarrow> service_mapping \<Rightarrow> rmw_request_id \<Rightarrow> rep_id \<Rightarrow> byte list option" where
  "response_header l mapping r_id enc =
     (case mapping of
        Basic \<Rightarrow> dds_ser (basic_reply_cdr l) enc (basic_reply_header_new (sample_identity_from r_id))
      | Enhanced \<Rightarrow> Some []
      | Cyclone \<Rightarrow> dds_ser (cyclone_cdr l) enc (cyclone_header_new l r_id))"

definition response_new :: "dds_lib \<Rightarrow> 'r dds_cdr \<Rightarrow> service_mapping \<Rightarrow> rmw_request_id \<Rightarrow> rep_id \<Rightarrow> 'r \<Rightarrow> write_error + wrapper" where
  "response_new l cdr mapping r_id enc response =
     and_then (ok_or WriteSerialization (response_header l mapping r_id enc))
       (\<lambda>header. and_then (ok_or WriteSerialization (dds_ser cdr enc response))
         (\<lambda>body. Ok \<lparr>serialized_message = header @ body, encoding = enc\<rparr>))"

subsection \<open>Raw wrappers\<close>

definition encapsulation_header :: "rep_id \<Rightarrow> byte list" where
  "encapsulation_header enc = (if enc = CDR_BE then [0x00, 0x00, 0x00, 0x00] else [0x00, 0x01, 0x00, 0x00])"

definition encapsulated :: "rep_id \<Rightarrow> byte list \<Rightarrow> byte list" where
  "encapsulated enc body = encapsulation_header enc @ body"

definition unwrap_raw :: "dds_lib \<Rightarrow> dds_message_info \<Rightarrow> wrapper \<Rightarrow> rmw_request_id \<times> byte list" where
  "unwrap_raw l mi w = (enhanced_request_id l mi, encapsulated (encoding w) (serialized_message w))"

text \<open>A raw response carries no encoding: the writer's is \<open>CDR_LE\<close>.\<close>

definition new_raw :: "byte list \<Rightarrow> byte list" where
  "new_raw response = (if 4 \<le> length response then drop 4 response else response)"

subsection \<open>The client\<close>

text \<open>A written sample: payload, encoding and the related sample identity of its write options. The
  source timestamp is always set to the current time.\<close>

record dds_sample =
  ds_wrapper :: wrapper
  ds_related :: "sample_identity option"

record dds_client =
  dc_service_mapping :: service_mapping
  dc_sequence_number_gen :: int
  dc_client_guid :: guid
  dc_written :: "dds_sample list"

definition dds_client_new :: "dds_lib \<Rightarrow> service_mapping \<Rightarrow> guid \<Rightarrow> dds_client" where
  "dds_client_new l mapping sender_guid =
     \<lparr>dc_service_mapping = mapping, dc_sequence_number_gen = sn_default l, dc_client_guid = sender_guid, dc_written = []\<rparr>"

definition increment_sequence_number :: "dds_client \<Rightarrow> dds_client" where
  "increment_sequence_number c = c\<lparr>dc_sequence_number_gen := wrap_signed 64 (dc_sequence_number_gen c + 1)\<rparr>"

definition sequence_number :: "dds_client \<Rightarrow> int" where
  "sequence_number c = dc_sequence_number_gen c"

definition send_request :: "dds_lib \<Rightarrow> 'q dds_cdr \<Rightarrow> (dds_sample \<Rightarrow> sample_identity option) \<Rightarrow> 'q \<Rightarrow> dds_client \<Rightarrow>
    (write_error + rmw_request_id) \<times> dds_client" where
  "send_request l cdr write request c =
     (let c1 = increment_sequence_number c;
          gen_rmw_req_id = \<lparr>rr_writer_guid = dc_client_guid c1, rr_sequence_number = sequence_number c1\<rparr>
      in case request_new l cdr (dc_service_mapping c1) gen_rmw_req_id CDR_LE request of
           Inl e \<Rightarrow> (Err e, c1)
         | Inr req_wrapper \<Rightarrow>
             (let sample = \<lparr>ds_wrapper = req_wrapper, ds_related =
                    (if dc_service_mapping c1 = Enhanced then None else Some (sample_identity_from gen_rmw_req_id))\<rparr>
              in case write sample of
                   None \<Rightarrow> (Err WriteOther, c1)
                 | Some sent \<Rightarrow>
                     (Ok (case dc_service_mapping c1 of
                            Enhanced \<Rightarrow> rmw_request_id_from sent | Basic \<Rightarrow> gen_rmw_req_id | Cyclone \<Rightarrow> gen_rmw_req_id),
                      c1\<lparr>dc_written := dc_written c1 @ [sample]\<rparr>)))"

text \<open>\<open>async_send_request\<close>: the id is generated once, in the first block; the rest awaits the write.\<close>

definition async_send_request :: "dds_lib \<Rightarrow> 'q dds_cdr \<Rightarrow> (dds_sample \<Rightarrow> sample_identity option) \<Rightarrow> 'q \<Rightarrow> dds_client \<Rightarrow>
    (write_error + rmw_request_id) \<times> dds_client" where
  "async_send_request l cdr write request c =
     (let c1 = increment_sequence_number c;
          gen_rmw_req_id = \<lparr>rr_writer_guid = dc_client_guid c1, rr_sequence_number = sequence_number c1\<rparr>
      in case request_new l cdr (dc_service_mapping c1) gen_rmw_req_id CDR_LE request of
           Inl e \<Rightarrow> (Err e, c1)
         | Inr req_wrapper \<Rightarrow>
             (let sample = \<lparr>ds_wrapper = req_wrapper, ds_related =
                    (if dc_service_mapping c1 = Enhanced then None else Some (sample_identity_from gen_rmw_req_id))\<rparr>
              in case write sample of
                   None \<Rightarrow> (Err WriteOther, c1)
                 | Some sent \<Rightarrow>
                     (Ok (case dc_service_mapping c1 of
                            Enhanced \<Rightarrow> rmw_request_id_from sent | Basic \<Rightarrow> gen_rmw_req_id | Cyclone \<Rightarrow> gen_rmw_req_id),
                      c1\<lparr>dc_written := dc_written c1 @ [sample]\<rparr>)))"

text \<open>Receiving: the argument is what \<open>try_take_one\<close> returned.\<close>

definition receive_response :: "dds_lib \<Rightarrow> 'r dds_cdr \<Rightarrow> dds_client \<Rightarrow> read_error + wrapper cache_change option \<Rightarrow>
    read_error + (rmw_request_id \<times> 'r) option" where
  "receive_response l cdr c taken =
     and_then taken (\<lambda>dcc_rw.
       case dcc_rw of
         None \<Rightarrow> Ok None
       | Some dcc \<Rightarrow>
           and_then (response_unwrap l cdr (dc_service_mapping c) (message_info_of dcc) (dc_client_guid c) (cc_value dcc))
             (\<lambda>(ri, res). Ok (Some (ri, res))))"

text \<open>The loop of \<open>async_receive_response\<close> over the items of the stream, \<open>None\<close> being its end.\<close>

fun async_receive_response :: "dds_lib \<Rightarrow> 'r dds_cdr \<Rightarrow> dds_client \<Rightarrow> rmw_request_id \<Rightarrow>
    (read_error + wrapper cache_change) option list \<Rightarrow>
    (read_error + 'r) poll \<times> (read_error + wrapper cache_change) option list" where
  "async_receive_response l cdr c request_id [] = (Pending, [])"
| "async_receive_response l cdr c request_id (None # items) = (Ready (Err ReadInternal), None # items)"
| "async_receive_response l cdr c request_id (Some (Inl e) # items) = (Ready (Err e), items)"
| "async_receive_response l cdr c request_id (Some (Inr dcc) # items) =
     (case response_unwrap l cdr (dc_service_mapping c) (message_info_of dcc) (dc_client_guid c) (cc_value dcc) of
        Inl e \<Rightarrow> (Ready (Err e), items)
      | Inr (req_id, response) \<Rightarrow>
          if req_id = request_id then (Ready (Ok response), items)
          else async_receive_response l cdr c request_id items)"

datatype call_service_error = CallWriteError write_error | CallReadError read_error

definition async_call_service :: "dds_lib \<Rightarrow> 'q dds_cdr \<Rightarrow> 'r dds_cdr \<Rightarrow> (dds_sample \<Rightarrow> sample_identity option) \<Rightarrow> 'q \<Rightarrow>
    (read_error + wrapper cache_change) option list \<Rightarrow> dds_client \<Rightarrow>
    (call_service_error + 'r) poll \<times> dds_client \<times> (read_error + wrapper cache_change) option list" where
  "async_call_service l qcdr rcdr write request items c =
     (case async_send_request l qcdr write request c of
        (Inl e, c') \<Rightarrow> (Ready (Err (CallWriteError e)), c', items)
      | (Inr req_id, c') \<Rightarrow>
          (let (p, rest) = async_receive_response l rcdr c' req_id items
           in (poll_map (\<lambda>r. case r of Inl e \<Rightarrow> Err (CallReadError e) | Inr x \<Rightarrow> Ok x) p, c', rest)))"

subsection \<open>The servers\<close>

record dds_server =
  dv_service_mapping :: service_mapping
  dv_written :: "dds_sample list"

definition receive_request :: "dds_lib \<Rightarrow> 'q dds_cdr \<Rightarrow> dds_server \<Rightarrow> read_error + wrapper cache_change option \<Rightarrow>
    read_error + (rmw_request_id \<times> 'q) option" where
  "receive_request l cdr s taken =
     and_then taken (\<lambda>dcc_rw.
       case dcc_rw of
         None \<Rightarrow> Ok None
       | Some dcc \<Rightarrow>
           and_then (request_unwrap l cdr (dv_service_mapping s) (message_info_of dcc) (cc_value dcc))
             (\<lambda>(ri, req). Ok (Some (ri, req))))"

definition send_response :: "dds_lib \<Rightarrow> 'r dds_cdr \<Rightarrow> (dds_sample \<Rightarrow> sample_identity option) \<Rightarrow> rmw_request_id \<Rightarrow> 'r \<Rightarrow>
    dds_server \<Rightarrow> (write_error + unit) \<times> dds_server" where
  "send_response l cdr write rmw_req_id response s =
     (case response_new l cdr (dv_service_mapping s) rmw_req_id CDR_LE response of
        Inl e \<Rightarrow> (Err e, s)
      | Inr resp_wrapper \<Rightarrow>
          (let sample = \<lparr>ds_wrapper = resp_wrapper, ds_related = Some (sample_identity_from rmw_req_id)\<rparr>
           in case write sample of
                None \<Rightarrow> (Err WriteOther, s)
              | Some _ \<Rightarrow> (Ok (), s\<lparr>dv_written := dv_written s @ [sample]\<rparr>)))"

text \<open>The futures that write are modelled by what they return: \<open>async_write_with_options\<close> takes or
  refuses the sample as \<open>write_with_options\<close> does, only without blocking the thread.\<close>

definition dds_async_send_response :: "dds_lib \<Rightarrow> 'r dds_cdr \<Rightarrow> (dds_sample \<Rightarrow> sample_identity option) \<Rightarrow> rmw_request_id \<Rightarrow> 'r \<Rightarrow>
    dds_server \<Rightarrow> (write_error + unit) \<times> dds_server" where
  "dds_async_send_response l cdr async_write rmw_req_id response s =
     (case response_new l cdr (dv_service_mapping s) rmw_req_id CDR_LE response of
        Inl e \<Rightarrow> (Err e, s)
      | Inr resp_wrapper \<Rightarrow>
          let sample = \<lparr>ds_wrapper = resp_wrapper, ds_related = Some (sample_identity_from rmw_req_id)\<rparr>
          in case async_write sample of
               None \<Rightarrow> (Err WriteOther, s)
             | Some _ \<Rightarrow> (Ok (), s\<lparr>dv_written := dv_written s @ [sample]\<rparr>))"

definition dds_async_receive_request :: "dds_lib \<Rightarrow> 'q dds_cdr \<Rightarrow> dds_server \<Rightarrow>
    (read_error + wrapper cache_change) option list \<Rightarrow>
    (read_error + (rmw_request_id \<times> 'q)) poll \<times> (read_error + wrapper cache_change) option list" where
  "dds_async_receive_request l cdr s items =
     (case items of
        [] \<Rightarrow> (Pending, [])
      | None # rest \<Rightarrow> (Ready (Err ReadInternal), items)
      | Some (Inl e) # rest \<Rightarrow> (Ready (Err e), rest)
      | Some (Inr dcc) # rest \<Rightarrow>
          (Ready (request_unwrap l cdr (dv_service_mapping s) (message_info_of dcc) (cc_value dcc)), rest))"

definition receive_request_stream :: "dds_lib \<Rightarrow> 'q dds_cdr \<Rightarrow> dds_server \<Rightarrow> (read_error + wrapper cache_change) list \<Rightarrow>
    (read_error + (rmw_request_id \<times> 'q)) list" where
  "receive_request_stream l cdr s items =
     map (\<lambda>dcc_r. and_then dcc_r (\<lambda>dcc.
       request_unwrap l cdr (dv_service_mapping s) (message_info_of dcc) (cc_value dcc))) items"

definition raw_receive_request :: "dds_lib \<Rightarrow> read_error + wrapper cache_change option \<Rightarrow>
    read_error + (rmw_request_id \<times> byte list) option" where
  "raw_receive_request l taken =
     and_then taken (\<lambda>dcc_rw. Ok (map_option (\<lambda>dcc. unwrap_raw l (message_info_of dcc) (cc_value dcc)) dcc_rw))"

definition raw_async_receive_request :: "dds_lib \<Rightarrow> (read_error + wrapper cache_change) option list \<Rightarrow>
    (read_error + (rmw_request_id \<times> byte list)) poll \<times> (read_error + wrapper cache_change) option list" where
  "raw_async_receive_request l items =
     (case items of
        [] \<Rightarrow> (Pending, [])
      | None # rest \<Rightarrow> (Ready (Err ReadInternal), items)
      | Some (Inl e) # rest \<Rightarrow> (Ready (Err e), rest)
      | Some (Inr dcc) # rest \<Rightarrow> (Ready (Ok (unwrap_raw l (message_info_of dcc) (cc_value dcc))), rest))"

definition raw_receive_request_stream :: "dds_lib \<Rightarrow> (read_error + wrapper cache_change) list \<Rightarrow>
    (read_error + (rmw_request_id \<times> byte list)) list" where
  "raw_receive_request_stream l items =
     map (\<lambda>dcc_r. and_then dcc_r (\<lambda>dcc. Ok (unwrap_raw l (message_info_of dcc) (cc_value dcc)))) items"

text \<open>The adapter serializes every wrapper as \<open>CDR_LE\<close>.\<close>

definition raw_dds_send_response :: "(dds_sample \<Rightarrow> sample_identity option) \<Rightarrow> rmw_request_id \<Rightarrow> byte list \<Rightarrow>
    dds_server \<Rightarrow> (write_error + unit) \<times> dds_server" where
  "raw_dds_send_response write rmw_req_id response s =
     (let sample = \<lparr>ds_wrapper = \<lparr>serialized_message = new_raw response, encoding = CDR_LE\<rparr>,
                    ds_related = Some (sample_identity_from rmw_req_id)\<rparr>
      in case write sample of
           None \<Rightarrow> (Err WriteOther, s)
         | Some _ \<Rightarrow> (Ok (), s\<lparr>dv_written := dv_written s @ [sample]\<rparr>))"

definition raw_dds_async_send_response :: "(dds_sample \<Rightarrow> sample_identity option) \<Rightarrow> rmw_request_id \<Rightarrow> byte list \<Rightarrow>
    dds_server \<Rightarrow> (write_error + unit) \<times> dds_server" where
  "raw_dds_async_send_response async_write rmw_req_id response s =
     (let sample = \<lparr>ds_wrapper = \<lparr>serialized_message = new_raw response, encoding = CDR_LE\<rparr>,
                    ds_related = Some (sample_identity_from rmw_req_id)\<rparr>
      in case async_write sample of
           None \<Rightarrow> (Err WriteOther, s)
         | Some _ \<Rightarrow> (Ok (), s\<lparr>dv_written := dv_written s @ [sample]\<rparr>))"

subsection \<open>Lemmas\<close>

lemma dds_de_ser: "dds_cdr_lawful c \<Longrightarrow> dds_ser c e x = Some b \<Longrightarrow> dds_de c e (b @ rest) = Some (x, length b)"
  by (simp add: dds_cdr_lawful_def)

lemma dds_de_ser_all: "dds_cdr_lawful c \<Longrightarrow> dds_ser c e x = Some b \<Longrightarrow> dds_de c e b = Some (x, length b)"
  using dds_de_ser [of c e x b "[]"] by simp

lemma response_stream_first:
  assumes "async_receive_response l cdr c i items = (Ready (Ok x), rest)"
  shows "\<exists>others dcc. items = map (Some \<circ> Inr) others @ Some (Inr dcc) # rest
    \<and> response_unwrap l cdr (dc_service_mapping c) (message_info_of dcc) (dc_client_guid c) (cc_value dcc) = Ok (i, x)
    \<and> (\<forall>d\<in>set others. \<exists>j y. j \<noteq> i
        \<and> response_unwrap l cdr (dc_service_mapping c) (message_info_of d) (dc_client_guid c) (cc_value d) = Ok (j, y))"
  using assms
proof (induction items)
  case (Cons it items)
  consider "it = None" | e where "it = Some (Inl e)" | dcc where "it = Some (Inr dcc)"
    by (metis option.exhaust sum.exhaust)
  then obtain dcc where it: "it = Some (Inr dcc)" using Cons.prems by cases auto
  let ?u = "\<lambda>d. response_unwrap l cdr (dc_service_mapping c) (message_info_of d) (dc_client_guid c) (cc_value d)"
  obtain j y where u: "?u dcc = Ok (j, y)" using Cons.prems it by (cases "?u dcc") auto
  show ?case
  proof (cases "j = i")
    case True
    then show ?thesis using Cons.prems it u by (intro exI [of _ "[]"] exI [of _ dcc]) simp
  next
    case False
    then have "async_receive_response l cdr c i items = (Ready (Ok x), rest)" using Cons.prems it u by simp
    then obtain others d where "items = map (Some \<circ> Inr) others @ Some (Inr d) # rest" "?u d = Ok (i, x)"
      "\<forall>d\<in>set others. \<exists>j y. j \<noteq> i \<and> ?u d = Ok (j, y)"
      using Cons.IH by blast
    then show ?thesis using it u False by (intro exI [of _ "dcc # others"] exI [of _ d]) auto
  qed
qed simp

text \<open>The adapters between wrappers and samples: the writer of a service puts the bytes of a wrapper into a
  little-endian sample, whatever encoding the wrapper names, and the reader makes a wrapper of the bytes
  and the encoding of the sample.\<close>

definition output_encoding :: rep_id where "output_encoding = CDR_LE"

definition adapter_to_bytes :: "wrapper \<Rightarrow> byte list" where
  "adapter_to_bytes w = serialized_message w"

definition decode_bytes :: "byte list \<Rightarrow> rep_id \<Rightarrow> wrapper" where
  "decode_bytes input_bytes enc = from_bytes_and_ri input_bytes enc"

text \<open>What a reader gets of a written sample: its bytes and related identity under the identity the writer
  gave it.\<close>

definition delivered :: "int option \<Rightarrow> dds_sample \<Rightarrow> sample_identity \<Rightarrow> wrapper cache_change" where
  "delivered stamp smp sid =
     \<lparr>cc_source_timestamp = stamp, cc_sequence_number = si_sequence_number sid, cc_writer_guid = si_writer_guid sid,
      cc_related_sample_identity = ds_related smp,
      cc_value = decode_bytes (adapter_to_bytes (ds_wrapper smp)) output_encoding\<rparr>"

lemma delivered_fields [simp]:
  "cc_value (delivered stamp smp sid) = \<lparr>serialized_message = serialized_message (ds_wrapper smp), encoding = CDR_LE\<rparr>"
  "mi_sample_identity (message_info_of (delivered stamp smp sid)) = sid"
  "dm_related_sample_identity (message_info_of (delivered stamp smp sid)) = ds_related smp"
  "dm_publisher (message_info_of (delivered stamp smp sid)) = si_writer_guid sid"
  by (simp_all add: delivered_def message_info_of_def mi_sample_identity_def from_bytes_and_ri_def decode_bytes_def adapter_to_bytes_def
      output_encoding_def)

lemma response_stream_skip:
  assumes "\<forall>d\<in>set others. \<exists>j y. j \<noteq> i
      \<and> response_unwrap l cdr (dc_service_mapping c) (message_info_of d) (dc_client_guid c) (cc_value d) = Ok (j, y)"
  shows "async_receive_response l cdr c i (map (Some \<circ> Inr) others @ items) = async_receive_response l cdr c i items"
  using assms by (induction others) auto

lemma wrapper_new_Ok:
  "request_new l cdr mapping i enc q = Ok w \<longleftrightarrow> (\<exists>h b. request_header l mapping i enc = Some h
     \<and> dds_ser cdr enc q = Some b \<and> w = \<lparr>serialized_message = h @ b, encoding = enc\<rparr>)"
  "response_new l cdr mapping i enc q = Ok w \<longleftrightarrow> (\<exists>h b. response_header l mapping i enc = Some h
     \<and> dds_ser cdr enc q = Some b \<and> w = \<lparr>serialized_message = h @ b, encoding = enc\<rparr>)"
  by (auto simp: request_new_def response_new_def and_then_Ok)

text \<open>Under the mappings with a header, unwrapping decodes the bytes of the header.\<close>

lemma cyclone_unwrap_header:
  assumes "dds_lib_lawful l" and "dds_ser (cyclone_cdr l) enc (cyclone_header_new l i) = Some h" and "i64_ok (rr_sequence_number i)"
  shows "cyclone_unwrap l cdr (h @ b) g enc =
    and_then (ok_or ReadDeserialization (dds_de cdr enc h)) (\<lambda>(x, _). Ok (\<lparr>rr_writer_guid = g, rr_sequence_number = rr_sequence_number i\<rparr>, x))"
  using assms dds_de_ser [OF _ assms(2)] by (simp add: cyclone_unwrap_def dds_lib_lawful_def cyclone_header_new_def)

lemma request_unwrap_header:
  assumes "dds_lib_lawful l" and "i64_ok (rr_sequence_number i)" and "mapping \<noteq> Enhanced" and "request_header l mapping i enc = Some h"
  shows "request_unwrap l cdr mapping mi \<lparr>serialized_message = h @ b, encoding = enc\<rparr> =
    and_then (ok_or ReadDeserialization (dds_de cdr enc h)) (\<lambda>(x, _).
      Ok (if mapping = Basic then i else i\<lparr>rr_writer_guid := dm_publisher mi\<rparr>, x))"
proof (cases mapping)
  case Basic
  then have "dds_ser (basic_request_cdr l) enc (basic_request_header_new (sample_identity_from i)) = Some h"
    using assms(4) by (simp add: request_header_def)
  note d = dds_de_ser [OF _ this]
  show ?thesis using assms(1) d Basic by (simp add: request_unwrap_def dds_lib_lawful_def basic_request_header_new_def)
next
  case Cyclone
  then show ?thesis
    using assms cyclone_unwrap_header [of l enc i h] by (cases i) (simp add: request_unwrap_def request_header_def)
qed (use assms in simp)

lemma response_unwrap_header:
  assumes "dds_lib_lawful l" and "i64_ok (rr_sequence_number i)" and "mapping \<noteq> Enhanced" and "response_header l mapping i enc = Some h"
  shows "response_unwrap l cdr mapping mi g \<lparr>serialized_message = h @ b, encoding = enc\<rparr> =
    and_then (ok_or ReadDeserialization (dds_de cdr enc h)) (\<lambda>(x, _).
      Ok (if mapping = Basic then i else i\<lparr>rr_writer_guid := take 8 g @ take 8 (drop 8 (dm_publisher mi))\<rparr>, x))"
proof (cases mapping)
  case Basic
  then have "dds_ser (basic_reply_cdr l) enc (basic_reply_header_new (sample_identity_from i)) = Some h"
    using assms(4) by (simp add: response_header_def)
  note d = dds_de_ser [OF _ this]
  show ?thesis using assms(1) d Basic by (simp add: response_unwrap_def dds_lib_lawful_def basic_reply_header_new_def)
next
  case Cyclone
  then show ?thesis
    using assms cyclone_unwrap_header [of l enc i h] by (cases i) (simp add: response_unwrap_def response_header_def)
qed (use assms in simp)

subsection \<open>Properties\<close>

text \<open>Under the basic and the Cyclone mapping a service message is lost: the receiver decodes the
  bytes of the header instead of those behind it, so what it reads, value or error, is the same
  whatever request or response was sent.\<close>

lemma header_mappings_lose_message:
  assumes "dds_lib_lawful l" and "i64_ok (rr_sequence_number i)" and "mapping \<noteq> Enhanced"
    and "request_new l qcdr mapping i enc req = Ok w" and "request_new l qcdr mapping i enc req' = Ok w'"
    and "response_new l rcdr mapping i enc resp = Ok v" and "response_new l rcdr mapping i enc resp' = Ok v'"
  shows "request_unwrap l qcdr mapping mi w = request_unwrap l qcdr mapping mi w'
    \<and> response_unwrap l rcdr mapping mi g v = response_unwrap l rcdr mapping mi g v'"
  using assms(4-7) unfolding wrapper_new_Ok
  by (auto simp: request_unwrap_header [OF assms(1-3)] response_unwrap_header [OF assms(1-3)])

text \<open>A library with headers of fixed width.\<close>

definition fixed_cdr :: "nat \<Rightarrow> ('a \<Rightarrow> byte list) \<Rightarrow> (byte list \<Rightarrow> 'a) \<Rightarrow> 'a dds_cdr" where
  "fixed_cdr n enc dec =
     \<lparr>dds_ser = (\<lambda>_ x. if length (enc x) = n \<and> dec (enc x) = x then Some (enc x) else None),
      dds_de = (\<lambda>_ b. if length b < n then None else Some (dec (take n b), n))\<rparr>"

lemma fixed_cdr_lawful: "dds_cdr_lawful (fixed_cdr n enc dec)"
  by (auto simp: dds_cdr_lawful_def fixed_cdr_def split: if_splits)

definition fixed_lib :: dds_lib where
  "fixed_lib =
     \<lparr>basic_request_cdr = fixed_cdr 24 (\<lambda>h. si_writer_guid (bq_request_id h) @ le_bytes 8 (nat (si_sequence_number (bq_request_id h))))
        (\<lambda>b. \<lparr>bq_request_id = \<lparr>si_writer_guid = take 16 b, si_sequence_number = int (from_le_bytes (drop 16 b))\<rparr>, bq_instance_name = []\<rparr>),
      basic_reply_cdr = fixed_cdr 24 (\<lambda>h. si_writer_guid (br_related_request_id h) @ le_bytes 8 (nat (si_sequence_number (br_related_request_id h))))
        (\<lambda>b. \<lparr>br_related_request_id = \<lparr>si_writer_guid = take 16 b, si_sequence_number = int (from_le_bytes (drop 16 b))\<rparr>, br_remote_exception_code = 0\<rparr>),
      cyclone_cdr = fixed_cdr 16 (\<lambda>h. cy_guid_second_half h @ le_bytes 4 (nat (cy_sequence_number_high h)) @ le_bytes 4 (nat (cy_sequence_number_low h)))
        (\<lambda>b. \<lparr>cy_guid_second_half = take 8 b, cy_sequence_number_high = int (from_le_bytes (take 4 (drop 8 b))),
               cy_sequence_number_low = int (from_le_bytes (drop 12 b))\<rparr>),
      sn_unknown = - (2 ^ 32), sn_default = 1, sn_high = (\<lambda>s. s div 2 ^ 32), sn_low = (\<lambda>s. s mod 2 ^ 32),
      sn_from_high_low = (\<lambda>h l. h * 2 ^ 32 + l), split_off = (\<lambda>b n. (take n b, drop n b))\<rparr>"

lemma fixed_lib_lawful: "dds_lib_lawful fixed_lib"
  by (simp add: dds_lib_lawful_def fixed_lib_def fixed_cdr_lawful)

definition byte_cdr :: "byte dds_cdr" where "byte_cdr = fixed_cdr 1 (\<lambda>x. [x]) hd"

lemma byte_cdr_lawful: "dds_cdr_lawful byte_cdr"
  by (simp add: byte_cdr_def fixed_cdr_lawful)

lemma header_mappings_lose_message_witness:
  "\<exists>w w'. request_new fixed_lib byte_cdr Basic \<lparr>rr_writer_guid = replicate 16 9, rr_sequence_number = 5\<rparr> CDR_LE 1 = Ok w
     \<and> request_new fixed_lib byte_cdr Basic \<lparr>rr_writer_guid = replicate 16 9, rr_sequence_number = 5\<rparr> CDR_LE 2 = Ok w' \<and> w \<noteq> w'
     \<and> (let mi = message_info_of (delivered None \<lparr>ds_wrapper = w, ds_related = None\<rparr>
             \<lparr>si_writer_guid = replicate 16 9, si_sequence_number = 5\<rparr>)
         in request_unwrap fixed_lib byte_cdr Basic mi w = request_unwrap fixed_lib byte_cdr Basic mi w')"
proof -
  let ?i = "\<lparr>rr_writer_guid = replicate 16 9, rr_sequence_number = 5\<rparr>"
  have n: "\<exists>w. request_new fixed_lib byte_cdr Basic ?i CDR_LE x = Ok w \<and> last (serialized_message w) = x"
    "\<exists>w. response_new fixed_lib byte_cdr Basic ?i CDR_LE x = Ok w" for x
    by (simp_all add: wrapper_new_Ok request_header_def response_header_def fixed_lib_def fixed_cdr_def byte_cdr_def
        basic_request_header_new_def basic_reply_header_new_def sample_identity_from_def)
  obtain w w' v where w: "request_new fixed_lib byte_cdr Basic ?i CDR_LE 1 = Ok w" "last (serialized_message w) = 1"
    "request_new fixed_lib byte_cdr Basic ?i CDR_LE 2 = Ok w'" "last (serialized_message w') = 2"
    "response_new fixed_lib byte_cdr Basic ?i CDR_LE 1 = Ok v" using n by blast
  then have "w \<noteq> w'" by auto
  with w show ?thesis
    using header_mappings_lose_message [OF fixed_lib_lawful _ _ w(1) w(3) w(5) w(5)] by (auto simp: in_signed_def Let_def)
qed

text \<open>Sending under the enhanced mapping.\<close>

lemma send_request_enhanced:
  assumes "dc_service_mapping c = Enhanced" and "send_request l cdr write req c = (Ok i, c')"
  shows "\<exists>b. dds_ser cdr CDR_LE req = Some b
    \<and> write \<lparr>ds_wrapper = \<lparr>serialized_message = b, encoding = CDR_LE\<rparr>, ds_related = None\<rparr> = Some (sample_identity_from i)
    \<and> dc_written c' = dc_written c @ [\<lparr>ds_wrapper = \<lparr>serialized_message = b, encoding = CDR_LE\<rparr>, ds_related = None\<rparr>]
    \<and> dc_service_mapping c' = Enhanced \<and> dc_client_guid c' = dc_client_guid c"
  using assms
  by (auto simp: send_request_def increment_sequence_number_def Let_def request_new_def request_header_def
      and_then_Ok split: sum.splits option.splits)

lemma async_send_response_same:
  "dds_async_send_response = send_response" "raw_dds_async_send_response = raw_dds_send_response"
  by (simp_all add: fun_eq_iff dds_async_send_response_def send_response_def
      raw_dds_async_send_response_def raw_dds_send_response_def)

lemma send_response_enhanced:
  assumes "dv_service_mapping s = Enhanced" and "send_response l cdr write i resp s = (Ok (), s')"
  shows "\<exists>b. dds_ser cdr CDR_LE resp = Some b \<and> dv_written s' = dv_written s
    @ [\<lparr>ds_wrapper = \<lparr>serialized_message = b, encoding = CDR_LE\<rparr>, ds_related = Some (sample_identity_from i)\<rparr>]"
  using assms
  by (auto simp: send_response_def Let_def response_new_def response_header_def and_then_Ok split: sum.splits option.splits)

lemma enhanced_request_read:
  assumes "dds_cdr_lawful qcdr" and "dc_service_mapping c = Enhanced" and "dv_service_mapping s = Enhanced"
    and "send_request l qcdr write req c = (Ok i, c')" and "rr_sequence_number i \<noteq> sn_unknown l"
  shows "receive_request l qcdr s (Ok (Some (delivered stamp (last (dc_written c')) (sample_identity_from i)))) = Ok (Some (i, req))"
proof -
  obtain b where b: "dds_ser qcdr CDR_LE req = Some b"
    "dc_written c' = dc_written c @ [\<lparr>ds_wrapper = \<lparr>serialized_message = b, encoding = CDR_LE\<rparr>, ds_related = None\<rparr>]"
    using send_request_enhanced [OF assms(2,4)] by blast
  then show ?thesis
    using assms(3,5) dds_de_ser_all [OF assms(1) b(1)]
    by (simp add: receive_request_def request_unwrap_def enhanced_request_id_def)
qed

lemma enhanced_exchange:
  assumes "dds_cdr_lawful qcdr" and "dds_cdr_lawful rcdr"
    and "dc_service_mapping c = Enhanced" and "dv_service_mapping s = Enhanced"
    and "send_request l qcdr write req c = (Ok i, c')" and "rr_sequence_number i \<noteq> sn_unknown l"
    and "send_response l rcdr write' i resp s = (Ok (), s')"
  shows "receive_request l qcdr s (Ok (Some (delivered stamp (last (dc_written c')) (sample_identity_from i)))) = Ok (Some (i, req))"
    and "response_unwrap l rcdr Enhanced (message_info_of (delivered stamp' (last (dv_written s')) sid)) g
      (cc_value (delivered stamp' (last (dv_written s')) sid)) = Ok (i, resp)"
    and "dc_service_mapping c' = Enhanced"
proof -
  obtain b' where b': "dds_ser rcdr CDR_LE resp = Some b'" "dv_written s' = dv_written s
      @ [\<lparr>ds_wrapper = \<lparr>serialized_message = b', encoding = CDR_LE\<rparr>, ds_related = Some (sample_identity_from i)\<rparr>]"
    using send_response_enhanced [OF assms(4,7)] by blast
  show "receive_request l qcdr s (Ok (Some (delivered stamp (last (dc_written c')) (sample_identity_from i)))) = Ok (Some (i, req))"
    by (rule enhanced_request_read [OF assms(1,3-6)])
  show "response_unwrap l rcdr Enhanced (message_info_of (delivered stamp' (last (dv_written s')) sid)) g
      (cc_value (delivered stamp' (last (dv_written s')) sid)) = Ok (i, resp)"
    using b'(2) dds_de_ser_all [OF assms(2) b'(1)] by (simp add: response_unwrap_def)
  show "dc_service_mapping c' = Enhanced" using send_request_enhanced [OF assms(3,5)] by blast
qed

text \<open>C16. A service call under the enhanced mapping comes back: the server reads from the delivered
  request exactly the request and the id the client was given for it, and the client that awaits
  this id gets the server's response from the first delivered sample that answers it, skipping the
  responses to others.\<close>

theorem enhanced_service_round_trip:
  assumes "dds_cdr_lawful qcdr" and "dds_cdr_lawful rcdr"
    and "dc_service_mapping c = Enhanced" and "dv_service_mapping s = Enhanced"
    and "send_request l qcdr write req c = (Ok i, c')" and "rr_sequence_number i \<noteq> sn_unknown l"
    and "send_response l rcdr write' i resp s = (Ok (), s')"
    and "\<forall>d\<in>set others. \<exists>j y. j \<noteq> i
      \<and> response_unwrap l rcdr Enhanced (message_info_of d) (dc_client_guid c') (cc_value d) = Ok (j, y)"
  shows "receive_request l qcdr s (Ok (Some (delivered stamp (last (dc_written c')) (sample_identity_from i)))) = Ok (Some (i, req))
    \<and> async_receive_response l rcdr c' i
        (map (Some \<circ> Inr) others @ Some (Inr (delivered stamp' (last (dv_written s')) sid)) # rest) = (Ready (Ok resp), rest)"
proof -
  note got = enhanced_exchange [OF assms(1-7)]
  show ?thesis using got(1) got(2) response_stream_skip [of others i l rcdr c'] assms(8) got(3) by simp
qed

theorem enhanced_service_round_trip_witness:
  "\<exists>i c' s'. send_request fixed_lib byte_cdr (\<lambda>_. Some \<lparr>si_writer_guid = replicate 16 4, si_sequence_number = 1\<rparr>) 7
        (dds_client_new fixed_lib Enhanced (replicate 16 4)) = (Ok i, c')
     \<and> send_response fixed_lib byte_cdr (\<lambda>_. Some \<lparr>si_writer_guid = replicate 16 5, si_sequence_number = 1\<rparr>) i 8
        \<lparr>dv_service_mapping = Enhanced, dv_written = []\<rparr> = (Ok (), s')
     \<and> async_receive_response fixed_lib byte_cdr c' i [Some (Inr (delivered None (last (dv_written s'))
          \<lparr>si_writer_guid = replicate 16 5, si_sequence_number = 1\<rparr>))] = (Ready (Ok 8), [])"
proof -
  let ?c = "dds_client_new fixed_lib Enhanced (replicate 16 4)" and ?s = "\<lparr>dv_service_mapping = Enhanced, dv_written = []\<rparr>"
  obtain i c' where i: "send_request fixed_lib byte_cdr (\<lambda>_. Some \<lparr>si_writer_guid = replicate 16 4, si_sequence_number = 1\<rparr>) 7 ?c = (Ok i, c')"
    "rr_sequence_number i = 1"
    by (simp add: send_request_def dds_client_new_def increment_sequence_number_def request_new_def request_header_def
        byte_cdr_def fixed_cdr_def rmw_request_id_from_def Let_def)
  obtain s' where s': "send_response fixed_lib byte_cdr (\<lambda>_. Some \<lparr>si_writer_guid = replicate 16 5, si_sequence_number = 1\<rparr>) i 8 ?s = (Ok (), s')"
    by (simp add: send_response_def response_new_def response_header_def byte_cdr_def fixed_cdr_def Let_def)
  have "rr_sequence_number i \<noteq> sn_unknown fixed_lib" by (simp add: i(2) fixed_lib_def)
  then show ?thesis
    using i(1) s' enhanced_service_round_trip [OF byte_cdr_lawful byte_cdr_lawful _ _ i(1) _ s', of "[]"]
    by (simp add: dds_client_new_def)
qed

lemma cyclone_unwrap_guid: "cyclone_unwrap l cdr b g enc = Ok (i, x) \<Longrightarrow> rr_writer_guid i = g"
  by (auto simp: cyclone_unwrap_def and_then_Ok Let_def split: prod.splits if_splits)

text \<open>Under the Cyclone mapping a client never gets the response to its request from a server whose
  writer GUID has another second half: the id the client computes for a response takes that half
  from the server's writer, not from the header, so it is not the id of the request.\<close>

lemma cyclone_response_not_recognised:
  assumes "dc_service_mapping c = Cyclone" and "length (dc_client_guid c) = 16" and "rr_writer_guid i = dc_client_guid c"
    and "\<forall>dcc\<in>set sent. length (cc_writer_guid dcc) = 16 \<and> drop 8 (cc_writer_guid dcc) \<noteq> drop 8 (dc_client_guid c)"
  shows "fst (async_receive_response l cdr c i (map (Some \<circ> Inr) sent)) \<noteq> Ready (Ok x)"
proof
  assume "fst (async_receive_response l cdr c i (map (Some \<circ> Inr) sent)) = Ready (Ok x)"
  then obtain rest where "async_receive_response l cdr c i (map (Some \<circ> Inr) sent) = (Ready (Ok x), rest)"
    by (metis prod.collapse)
  from response_stream_first [OF this] obtain others dcc where
    d: "map (Some \<circ> Inr) sent = map (Some \<circ> Inr) others @ Some (Inr dcc) # rest"
    "response_unwrap l cdr Cyclone (message_info_of dcc) (dc_client_guid c) (cc_value dcc) = Ok (i, x)"
    using assms(1) by auto
  have "Some (Inr dcc) \<in> set (map (Some \<circ> Inr) others @ Some (Inr dcc) # rest)" by simp
  then have "dcc \<in> set sent" unfolding d(1) [symmetric] by auto
  then have w: "length (cc_writer_guid dcc) = 16" "drop 8 (cc_writer_guid dcc) \<noteq> drop 8 (dc_client_guid c)"
    using assms(4) by auto
  have "rr_writer_guid i = take 8 (dc_client_guid c) @ take 8 (drop 8 (cc_writer_guid dcc))"
    using d(2) cyclone_unwrap_guid by (simp add: response_unwrap_def message_info_of_def Let_def)
  then have "drop 8 (dc_client_guid c) = drop 8 (take 8 (dc_client_guid c) @ take 8 (drop 8 (cc_writer_guid dcc)))"
    using assms(3) by metis
  then have "drop 8 (dc_client_guid c) = drop 8 (cc_writer_guid dcc)" using assms(2) w(1) by simp
  then show False using w(2) by simp
qed

theorem cyclone_response_not_recognised_witness:
  "fst (async_receive_response fixed_lib byte_cdr (dds_client_new fixed_lib Cyclone (replicate 16 4))
     \<lparr>rr_writer_guid = replicate 16 4, rr_sequence_number = 2\<rparr> (map (Some \<circ> Inr) [\<lparr>cc_source_timestamp = None,
       cc_sequence_number = 1, cc_writer_guid = replicate 16 5, cc_related_sample_identity = None,
       cc_value = from_bytes_and_ri (replicate 8 4 @ le_bytes 4 0 @ le_bytes 4 2 @ [8]) CDR_LE\<rparr>])) \<noteq> Ready (Ok 8)"
  by (rule cyclone_response_not_recognised) (simp_all add: dds_client_new_def)

end
