(* ===== verification/Dds_Pubsub.thy ===== *)
theory Dds_Pubsub
  imports Dds_Service
begin

text \<open>
  Publishers and subscriptions of the DDS backend (\<open>pubsub.rs\<close>), typed and raw. The data writers and
  readers are rustdds's: \<open>write\<close> tells whether a sample is taken, and a subscription runs on what its
  reader returned.
\<close>

subsection \<open>Raw messages\<close>

definition raw_message_new :: "byte list \<Rightarrow> wrapper" where
  "raw_message_new message =
     \<lparr>serialized_message = (if 4 \<le> length message then drop 4 message else message), encoding = CDR_LE\<rparr>"

definition raw_message_unwrap :: "wrapper \<Rightarrow> byte list" where
  "raw_message_unwrap w = encapsulation_header (encoding w) @ serialized_message w"

subsection \<open>Publishers\<close>

record 'm dds_publisher =
  dp_guid :: guid
  dp_written :: "'m list"

definition dds_publish :: "('m \<Rightarrow> bool) \<Rightarrow> 'm \<Rightarrow> 'm dds_publisher \<Rightarrow> (write_error + unit) \<times> 'm dds_publisher" where
  "dds_publish write message p =
     (if write message then (Ok (), p\<lparr>dp_written := dp_written p @ [message]\<rparr>) else (Err WriteOther, p))"

definition dds_async_publish :: "('m \<Rightarrow> bool) \<Rightarrow> 'm \<Rightarrow> 'm dds_publisher \<Rightarrow> (write_error + unit) \<times> 'm dds_publisher" where
  "dds_async_publish write message p =
     (if write message then (Ok (), p\<lparr>dp_written := dp_written p @ [message]\<rparr>) else (Err WriteOther, p))"

definition dds_raw_publish :: "(wrapper \<Rightarrow> bool) \<Rightarrow> byte list \<Rightarrow> wrapper dds_publisher \<Rightarrow>
    (write_error + unit) \<times> wrapper dds_publisher" where
  "dds_raw_publish write cdr_message p =
     (let message = raw_message_new cdr_message
      in if write message then (Ok (), p\<lparr>dp_written := dp_written p @ [message]\<rparr>) else (Err WriteOther, p))"

definition dds_raw_async_publish :: "(wrapper \<Rightarrow> bool) \<Rightarrow> byte list \<Rightarrow> wrapper dds_publisher \<Rightarrow>
    (write_error + unit) \<times> wrapper dds_publisher" where
  "dds_raw_async_publish write cdr_message p =
     (let message = raw_message_new cdr_message
      in if write message then (Ok (), p\<lparr>dp_written := dp_written p @ [message]\<rparr>) else (Err WriteOther, p))"

subsection \<open>Subscriptions\<close>

definition dcc_to_value_and_messageinfo :: "'m cache_change \<Rightarrow> 'm \<times> dds_message_info" where
  "dcc_to_value_and_messageinfo dcc = (cc_value dcc, message_info_of dcc)"

definition dds_take :: "read_error + 'm cache_change option \<Rightarrow> read_error + ('m \<times> dds_message_info) option" where
  "dds_take taken = and_then taken (\<lambda>ds. Ok (map_option dcc_to_value_and_messageinfo ds))"

definition dds_async_take :: "(read_error + 'm cache_change) option list \<Rightarrow>
    (read_error + ('m \<times> dds_message_info)) poll \<times> (read_error + 'm cache_change) option list" where
  "dds_async_take items =
     (case items of
        [] \<Rightarrow> (Pending, [])
      | None # rest \<Rightarrow> (Ready (Err ReadInternal), items)
      | Some (Inl e) # rest \<Rightarrow> (Ready (Err e), rest)
      | Some (Inr ds) # rest \<Rightarrow> (Ready (Ok (dcc_to_value_and_messageinfo ds)), rest))"

definition dds_async_stream :: "(read_error + 'm cache_change) list \<Rightarrow> (read_error + ('m \<times> dds_message_info)) list" where
  "dds_async_stream items = map (\<lambda>r. and_then r (\<lambda>ds. Ok (dcc_to_value_and_messageinfo ds))) items"

text \<open>With a seed the message type is given by the decoder the reader is called with.\<close>

definition take_seed :: "('s \<Rightarrow> read_error + 'm cache_change option) \<Rightarrow> 's \<Rightarrow> read_error + ('m \<times> dds_message_info) option" where
  "take_seed try_take_one_with seed =
     and_then (try_take_one_with seed) (\<lambda>ds. Ok (map_option dcc_to_value_and_messageinfo ds))"

definition async_stream_seed :: "('s \<Rightarrow> (read_error + 'm cache_change) list) \<Rightarrow> 's \<Rightarrow> (read_error + ('m \<times> dds_message_info)) list" where
  "async_stream_seed as_async_stream_with seed =
     map (\<lambda>r. and_then r (\<lambda>ds. Ok (dcc_to_value_and_messageinfo ds))) (as_async_stream_with seed)"

definition dds_raw_take :: "read_error + wrapper cache_change option \<Rightarrow> read_error + (byte list \<times> dds_message_info) option" where
  "dds_raw_take taken =
     and_then taken (\<lambda>dcc. Ok (map_option (\<lambda>dcc. (raw_message_unwrap (cc_value dcc), message_info_of dcc)) dcc))"

definition dds_raw_async_take :: "(read_error + wrapper cache_change) option list \<Rightarrow>
    (read_error + (byte list \<times> dds_message_info)) poll \<times> (read_error + wrapper cache_change) option list" where
  "dds_raw_async_take items =
     (case items of
        [] \<Rightarrow> (Pending, [])
      | None # rest \<Rightarrow> (Ready (Err ReadInternal), items)
      | Some (Inl e) # rest \<Rightarrow> (Ready (Err e), rest)
      | Some (Inr dcc) # rest \<Rightarrow> (Ready (Ok (raw_message_unwrap (cc_value dcc), message_info_of dcc)), rest))"

subsection \<open>Properties\<close>

text \<open>A raw subscription hands back exactly the bytes a raw publisher was given when and only when
  they start with the header of little-endian CDR: a message under another header comes back as if it
  were little-endian, and one shorter than a header comes back with a header in front.\<close>

lemma raw_topic_round_trip:
  assumes "write (raw_message_new message)"
  shows "dds_raw_take (Ok (Some (delivered stamp
      \<lparr>ds_wrapper = last (dp_written (snd (dds_raw_publish write message p))), ds_related = None\<rparr> sid)))
    = Ok (Some (message, message_info_of (delivered stamp
      \<lparr>ds_wrapper = raw_message_new message, ds_related = None\<rparr> sid)))
    \<longleftrightarrow> take 4 message = [0x00, 0x01, 0x00, 0x00]"
proof -
  have "raw_message_unwrap (raw_message_new message) = message \<longleftrightarrow> take 4 message = [0x00, 0x01, 0x00, 0x00]"
  proof (cases "4 \<le> length message")
    case True
    then have "raw_message_unwrap (raw_message_new message) = message \<longleftrightarrow>
        [0x00, 0x01, 0x00, 0x00] @ drop 4 message = take 4 message @ drop 4 message"
      by (simp add: raw_message_unwrap_def raw_message_new_def encapsulation_header_def)
    then show ?thesis by (simp only: append_same_eq eq_commute)
  next
    case False
    have "take 4 message \<noteq> [0x00, 0x01, 0x00, 0x00]"
    proof
      assume "take 4 message = [0x00, 0x01, 0x00, 0x00]"
      then have "length (take 4 message) = 4" by simp
      with False show False by simp
    qed
    moreover have "raw_message_unwrap (raw_message_new message) \<noteq> message"
    proof
      assume "raw_message_unwrap (raw_message_new message) = message"
      then have "length (raw_message_unwrap (raw_message_new message)) = length message" by simp
      with False show False
        by (simp add: raw_message_unwrap_def raw_message_new_def encapsulation_header_def)
    qed
    ultimately show ?thesis by simp
  qed
  moreover have "\<lparr>serialized_message = serialized_message (raw_message_new message), encoding = CDR_LE\<rparr> = raw_message_new message"
    by (simp add: raw_message_new_def)
  ultimately show ?thesis using assms by (simp add: dds_raw_take_def dds_raw_publish_def)
qed

theorem raw_topic_round_trip_witness:
  "dds_raw_take (Ok (Some (delivered None \<lparr>ds_wrapper = last (dp_written (snd (dds_raw_publish (\<lambda>_. True) [0, 1, 0, 0, 7]
       \<lparr>dp_guid = replicate 16 1, dp_written = []\<rparr>))), ds_related = None\<rparr> \<lparr>si_writer_guid = replicate 16 1, si_sequence_number = 1\<rparr>)))
     = Ok (Some ([0, 1, 0, 0, 7], message_info_of (delivered None \<lparr>ds_wrapper = raw_message_new [0, 1, 0, 0, 7], ds_related = None\<rparr>
         \<lparr>si_writer_guid = replicate 16 1, si_sequence_number = 1\<rparr>)))"
  by (rule raw_topic_round_trip [THEN iffD2]) simp_all

end
