(* ===== verification/Dds_Context.thy ===== *)
theory Dds_Context
  imports Ros_Names Dds_Pubsub
begin

text \<open>
  ROS discovery on the DDS side: \<open>Gid\<close> (\<open>gid.rs\<close>), the messages of the discovery topic
  (\<open>entities_info.rs\<close>) and the table of local nodes a context keeps and broadcasts (\<open>context.rs\<close>).
  The length of a \<open>Gid\<close> is 16 or 24 bytes, by the distribution the crate is compiled for; it is an
  argument.
\<close>

subsection \<open>Gid\<close>

type_synonym gid = "byte list"

definition gid_from_guid :: "nat \<Rightarrow> guid \<Rightarrow> gid" where
  "gid_from_guid gid_length guid = map (\<lambda>i. if i < length guid then guid ! i else 0) [0..<gid_length]"

definition guid_from_gid :: "gid \<Rightarrow> guid" where
  "guid_from_gid gid = map (\<lambda>i. gid ! i) [0..<16]"

lemma gid_from_guid_eq: "length guid = 16 \<Longrightarrow> 16 \<le> n \<Longrightarrow> gid_from_guid n guid = guid @ replicate (n - 16) 0"
  by (rule nth_equalityI) (auto simp: gid_from_guid_def nth_append)

lemma guid_gid_round_trip: "length guid = 16 \<Longrightarrow> 16 \<le> n \<Longrightarrow> guid_from_gid (gid_from_guid n guid) = guid"
  by (rule nth_equalityI) (auto simp: guid_from_gid_def gid_from_guid_def)

subsection \<open>Node and participant information\<close>

record node_entities_info =
  ne_name :: node_name
  ne_reader_gid_seq :: "gid list"
  ne_writer_gid_seq :: "gid list"

definition node_entities_info_new :: "node_name \<Rightarrow> node_entities_info" where
  "node_entities_info_new name = \<lparr>ne_name = name, ne_reader_gid_seq = [], ne_writer_gid_seq = []\<rparr>"

definition ne_fully_qualified_name :: "node_entities_info \<Rightarrow> string" where
  "ne_fully_qualified_name n = fully_qualified_name (ne_name n)"

definition ne_add_writer :: "gid \<Rightarrow> node_entities_info \<Rightarrow> node_entities_info" where
  "ne_add_writer g n = (if g \<in> set (ne_writer_gid_seq n) then n else n\<lparr>ne_writer_gid_seq := ne_writer_gid_seq n @ [g]\<rparr>)"

definition ne_add_reader :: "gid \<Rightarrow> node_entities_info \<Rightarrow> node_entities_info" where
  "ne_add_reader g n = (if g \<in> set (ne_reader_gid_seq n) then n else n\<lparr>ne_reader_gid_seq := ne_reader_gid_seq n @ [g]\<rparr>)"

record repr_node_entities_info =
  rn_node_namespace :: string
  rn_node_name :: string
  rn_reader_gid_seq :: "gid list"
  rn_writer_gid_seq :: "gid list"

definition node_info_from_repr :: "repr_node_entities_info \<Rightarrow> name_error + node_entities_info" where
  "node_info_from_repr r =
     and_then (node_name_new (rn_node_namespace r) (rn_node_name r)) (\<lambda>name.
       Ok \<lparr>ne_name = name, ne_reader_gid_seq = rn_reader_gid_seq r, ne_writer_gid_seq = rn_writer_gid_seq r\<rparr>)"

definition repr_from_node_info :: "node_entities_info \<Rightarrow> repr_node_entities_info" where
  "repr_from_node_info n =
     \<lparr>rn_node_namespace = node_namespace (ne_name n), rn_node_name = node_base_name (ne_name n),
      rn_reader_gid_seq = ne_reader_gid_seq n, rn_writer_gid_seq = ne_writer_gid_seq n\<rparr>"

record participant_entities_info =
  pi_gid :: gid
  pi_node_entities_info_seq :: "node_entities_info list"

subsection \<open>The context\<close>

record dds_context =
  cx_gid_length :: nat
  cx_participant_guid :: guid
  cx_local_nodes :: "(string \<times> node_entities_info) list"
  cx_node_writer :: "participant_entities_info dds_publisher"

definition participant_info :: "dds_context \<Rightarrow> participant_entities_info" where
  "participant_info c =
     \<lparr>pi_gid = gid_from_guid (cx_gid_length c) (cx_participant_guid c),
      pi_node_entities_info_seq = map snd (cx_local_nodes c)\<rparr>"

definition broadcast_node_infos :: "(participant_entities_info \<Rightarrow> bool) \<Rightarrow> dds_context \<Rightarrow> dds_context" where
  "broadcast_node_infos write c =
     c\<lparr>cx_node_writer := snd (dds_publish write (participant_info c) (cx_node_writer c))\<rparr>"

definition update_node :: "(participant_entities_info \<Rightarrow> bool) \<Rightarrow> node_entities_info \<Rightarrow> dds_context \<Rightarrow> dds_context" where
  "update_node write node_info c =
     (let node_info = ne_add_writer (gid_from_guid (cx_gid_length c) (dp_guid (cx_node_writer c))) node_info
      in broadcast_node_infos write
           (c\<lparr>cx_local_nodes := hm_insert (ne_fully_qualified_name node_info) node_info (cx_local_nodes c)\<rparr>))"

definition remove_node :: "(participant_entities_info \<Rightarrow> bool) \<Rightarrow> string \<Rightarrow> dds_context \<Rightarrow> dds_context" where
  "remove_node write node_fqn c =
     broadcast_node_infos write (c\<lparr>cx_local_nodes := hm_remove node_fqn (cx_local_nodes c)\<rparr>)"

definition drop_context :: "(participant_entities_info \<Rightarrow> bool) \<Rightarrow> dds_context \<Rightarrow> dds_context" where
  "drop_context write c = broadcast_node_infos write (c\<lparr>cx_local_nodes := []\<rparr>)"

subsection \<open>Lemmas\<close>

lemma node_info_name [simp]:
  "ne_name (ne_add_writer g n) = ne_name n" "ne_name (ne_add_reader g n) = ne_name n"
  by (simp_all add: ne_add_writer_def ne_add_reader_def)

lemma node_info_sets [simp]:
  "set (ne_writer_gid_seq (ne_add_writer g n)) = Set.insert g (set (ne_writer_gid_seq n))"
  "set (ne_reader_gid_seq (ne_add_reader g n)) = Set.insert g (set (ne_reader_gid_seq n))"
  "ne_reader_gid_seq (ne_add_writer g n) = ne_reader_gid_seq n" "ne_writer_gid_seq (ne_add_reader g n) = ne_writer_gid_seq n"
  by (auto simp: ne_add_writer_def ne_add_reader_def)

lemma node_info_distinct:
  "distinct (ne_writer_gid_seq n) \<Longrightarrow> distinct (ne_writer_gid_seq (ne_add_writer g n))"
  "distinct (ne_reader_gid_seq n) \<Longrightarrow> distinct (ne_reader_gid_seq (ne_add_reader g n))"
  by (simp_all add: ne_add_writer_def ne_add_reader_def)

lemma broadcast_fields [simp]:
  "cx_local_nodes (broadcast_node_infos write c) = cx_local_nodes c"
  "cx_gid_length (broadcast_node_infos write c) = cx_gid_length c"
  "cx_participant_guid (broadcast_node_infos write c) = cx_participant_guid c"
  "dp_guid (cx_node_writer (broadcast_node_infos write c)) = dp_guid (cx_node_writer c)"
  by (simp_all add: broadcast_node_infos_def dds_publish_def)

lemma context_fields [simp]:
  "cx_gid_length (update_node write n c) = cx_gid_length c" "cx_gid_length (remove_node write f c) = cx_gid_length c"
  "dp_guid (cx_node_writer (update_node write n c)) = dp_guid (cx_node_writer c)"
  "dp_guid (cx_node_writer (remove_node write f c)) = dp_guid (cx_node_writer c)"
  by (simp_all add: update_node_def remove_node_def Let_def)

lemma map_of_update_node [simp]:
  "map_of (cx_local_nodes (update_node write n c)) = (map_of (cx_local_nodes c))
     (ne_fully_qualified_name n \<mapsto> ne_add_writer (gid_from_guid (cx_gid_length c) (dp_guid (cx_node_writer c))) n)"
  by (simp add: update_node_def Let_def map_laws ne_fully_qualified_name_def)

lemma map_of_remove_node [simp]:
  "map_of (cx_local_nodes (remove_node write f c)) = (map_of (cx_local_nodes c))(f := None)"
  by (simp add: remove_node_def map_laws)

text \<open>The last broadcast is the table of the context, when the writer takes it.\<close>

definition broadcast_current :: "dds_context \<Rightarrow> bool" where
  "broadcast_current c \<longleftrightarrow> dp_written (cx_node_writer c) \<noteq> [] \<and> last (dp_written (cx_node_writer c)) = participant_info c"

lemma broadcast_current_updates:
  "broadcast_current (update_node (\<lambda>_. True) n c)" "broadcast_current (remove_node (\<lambda>_. True) f c)"
  "broadcast_current (drop_context (\<lambda>_. True) c)"
  by (simp_all add: broadcast_current_def update_node_def remove_node_def drop_context_def broadcast_node_infos_def
      participant_info_def dds_publish_def Let_def)

text \<open>The record of a node survives the wire exactly when its name is one \<open>NodeName\<close> accepts.\<close>

lemma discovery_record_round_trip:
  "node_info_from_repr (repr_from_node_info info) = Ok info \<longleftrightarrow> wf_node_name (ne_name info)"
proof (cases "ne_name info")
  case (fields ns b)
  then show ?thesis
    by (cases info) (auto simp: node_info_from_repr_def repr_from_node_info_def and_then_Ok node_name_new_Ok wf_node_name_def)
qed

end
