(* ===== verification/Dds_Action.thy ===== *)
theory Dds_Action
  imports Dds_Pubsub Action_Msgs
begin

text \<open>
  Actions over DDS: the action client (\<open>action/client.rs\<close>), the synchronous action server
  (\<open>action/server.rs\<close>) and the raw action server (\<open>action/raw_server.rs\<close>), over the service and
  topic endpoints of Dds_Service and Dds_Pubsub. A reader is the samples received and not taken
  yet; the client's receive functions loop over the one of their endpoint and return what is left of
  it. The random goal id of a new goal is an argument.
\<close>

subsection \<open>Messages\<close>

record 'r dds_result_response =
  dr_status :: goal_status_enum
  dr_result :: 'r

record 'f dds_feedback =
  df_goal_id :: goal_id
  df_feedback :: 'f

text \<open>The codecs of the three services; \<open>GetResultRequest\<close> is its goal id and \<open>CancelGoalRequest\<close> its
  goal info.\<close>

record ('g, 'r) dds_action_codecs =
  ac_goal_request :: "'g send_goal_request dds_cdr"
  ac_goal_response :: "send_goal_response dds_cdr"
  ac_cancel_request :: "goal_info dds_cdr"
  ac_cancel_response :: "cancel_goal_response dds_cdr"
  ac_result_request :: "goal_id dds_cdr"
  ac_result_response :: "'r dds_result_response dds_cdr"

subsection \<open>Readers\<close>

type_synonym 'm dds_reader = "(read_error + 'm cache_change) list"

text \<open>\<open>try_take_one\<close> of rustdds: the next sample or error, removed from the reader.\<close>

fun reader_take :: "'m dds_reader \<Rightarrow> (read_error + 'm cache_change option) \<times> 'm dds_reader" where
  "reader_take [] = (Ok None, [])"
| "reader_take (Inl e # q) = (Err e, q)"
| "reader_take (Inr dcc # q) = (Ok (Some dcc), q)"

lemma reader_take_some: "reader_take q = (Ok (Some dcc), q') \<Longrightarrow> length q' < length q"
  by (cases q rule: reader_take.cases) simp_all

lemma reader_take_response:
  "receive_response l cdr c (fst (reader_take q)) = Ok (Some x) \<Longrightarrow> length (snd (reader_take q)) < length q"
  by (cases q rule: reader_take.cases) (simp_all add: receive_response_def)

lemma reader_take_feedback:
  "dds_take (fst (reader_take q)) = Ok (Some x) \<Longrightarrow> length (snd (reader_take q)) < length q"
  by (cases q rule: reader_take.cases) (simp_all add: dds_take_def)

subsection \<open>The action client\<close>

record dds_action_client =
  my_goal_client :: dds_client
  my_cancel_client :: dds_client
  my_result_client :: dds_client

definition dds_send_goal :: "dds_lib \<Rightarrow> ('g, 'r) dds_action_codecs \<Rightarrow> (dds_sample \<Rightarrow> sample_identity option) \<Rightarrow> goal_id \<Rightarrow> 'g \<Rightarrow>
    dds_action_client \<Rightarrow> (write_error + (rmw_request_id \<times> goal_id)) \<times> dds_action_client" where
  "dds_send_goal l k write goal_id goal a =
     (let (r, gc) = send_request l (ac_goal_request k) write \<lparr>sg_goal_id = goal_id, sg_goal = goal\<rparr> (my_goal_client a)
      in (and_then r (\<lambda>req_id. Ok (req_id, goal_id)), a\<lparr>my_goal_client := gc\<rparr>))"

function receive_goal_response :: "dds_lib \<Rightarrow> send_goal_response dds_cdr \<Rightarrow> dds_client \<Rightarrow> rmw_request_id \<Rightarrow> wrapper dds_reader \<Rightarrow>
    (read_error + send_goal_response option) \<times> wrapper dds_reader" where
  "receive_goal_response l cdr c req_id q =
     (case receive_response l cdr c (fst (reader_take q)) of
        Inl e \<Rightarrow> (Err e, snd (reader_take q))
      | Inr None \<Rightarrow> (Ok None, snd (reader_take q))
      | Inr (Some (incoming_req_id, resp)) \<Rightarrow>
          if incoming_req_id = req_id then (Ok (Some resp), snd (reader_take q))
          else receive_goal_response l cdr c req_id (snd (reader_take q)))"
  by pat_completeness auto
termination
  by (relation "measure (\<lambda>(l, cdr, c, i, q). length q)") (auto dest: reader_take_response)

definition dds_async_send_goal :: "dds_lib \<Rightarrow> ('g, 'r) dds_action_codecs \<Rightarrow> (dds_sample \<Rightarrow> sample_identity option) \<Rightarrow> goal_id \<Rightarrow> 'g \<Rightarrow>
    (read_error + wrapper cache_change) option list \<Rightarrow> dds_action_client \<Rightarrow>
    (call_service_error + (goal_id \<times> send_goal_response)) poll \<times> dds_action_client \<times> (read_error + wrapper cache_change) option list" where
  "dds_async_send_goal l k write goal_id goal items a =
     (let (p, gc, rest) = async_call_service l (ac_goal_request k) (ac_goal_response k) write
            \<lparr>sg_goal_id = goal_id, sg_goal = goal\<rparr> items (my_goal_client a)
      in (poll_map (\<lambda>r. and_then r (\<lambda>send_goal_response. Ok (goal_id, send_goal_response))) p, a\<lparr>my_goal_client := gc\<rparr>, rest))"

definition cancel_goal_raw :: "dds_lib \<Rightarrow> ('g, 'r) dds_action_codecs \<Rightarrow> (dds_sample \<Rightarrow> sample_identity option) \<Rightarrow> goal_id \<Rightarrow> bi_time \<Rightarrow>
    dds_action_client \<Rightarrow> (write_error + rmw_request_id) \<times> dds_action_client" where
  "cancel_goal_raw l k write goal_id timestamp a =
     (let (r, cc) = send_request l (ac_cancel_request k) write \<lparr>gi_goal_id = goal_id, gi_stamp = timestamp\<rparr> (my_cancel_client a)
      in (r, a\<lparr>my_cancel_client := cc\<rparr>))"

definition cancel_goal :: "dds_lib \<Rightarrow> ('g, 'r) dds_action_codecs \<Rightarrow> (dds_sample \<Rightarrow> sample_identity option) \<Rightarrow> goal_id \<Rightarrow>
    dds_action_client \<Rightarrow> (write_error + rmw_request_id) \<times> dds_action_client" where
  "cancel_goal l k write goal_id = cancel_goal_raw l k write goal_id BI_TIME_ZERO"

definition cancel_all_goals_before :: "dds_lib \<Rightarrow> ('g, 'r) dds_action_codecs \<Rightarrow> (dds_sample \<Rightarrow> sample_identity option) \<Rightarrow> bi_time \<Rightarrow>
    dds_action_client \<Rightarrow> (write_error + rmw_request_id) \<times> dds_action_client" where
  "cancel_all_goals_before l k write timestamp = cancel_goal_raw l k write GOAL_ID_ZERO timestamp"

definition cancel_all_goals :: "dds_lib \<Rightarrow> ('g, 'r) dds_action_codecs \<Rightarrow> (dds_sample \<Rightarrow> sample_identity option) \<Rightarrow>
    dds_action_client \<Rightarrow> (write_error + rmw_request_id) \<times> dds_action_client" where
  "cancel_all_goals l k write = cancel_goal_raw l k write GOAL_ID_ZERO BI_TIME_ZERO"

function receive_cancel_response :: "dds_lib \<Rightarrow> cancel_goal_response dds_cdr \<Rightarrow> dds_client \<Rightarrow> rmw_request_id \<Rightarrow> wrapper dds_reader \<Rightarrow>
    (read_error + cancel_goal_response option) \<times> wrapper dds_reader" where
  "receive_cancel_response l cdr c cancel_request_id q =
     (case receive_response l cdr c (fst (reader_take q)) of
        Inl e \<Rightarrow> (Err e, snd (reader_take q))
      | Inr None \<Rightarrow> (Ok None, snd (reader_take q))
      | Inr (Some (incoming_req_id, resp)) \<Rightarrow>
          if incoming_req_id = cancel_request_id then (Ok (Some resp), snd (reader_take q))
          else receive_cancel_response l cdr c cancel_request_id (snd (reader_take q)))"
  by pat_completeness auto
termination
  by (relation "measure (\<lambda>(l, cdr, c, i, q). length q)") (auto dest: reader_take_response)

definition async_cancel_goal :: "dds_lib \<Rightarrow> ('g, 'r) dds_action_codecs \<Rightarrow> (dds_sample \<Rightarrow> sample_identity option) \<Rightarrow> goal_id \<Rightarrow> bi_time \<Rightarrow>
    (read_error + wrapper cache_change) option list \<Rightarrow> dds_action_client \<Rightarrow>
    (call_service_error + cancel_goal_response) poll \<times> dds_action_client \<times> (read_error + wrapper cache_change) option list" where
  "async_cancel_goal l k write goal_id timestamp items a =
     (let (p, cc, rest) = async_call_service l (ac_cancel_request k) (ac_cancel_response k) write
            \<lparr>gi_goal_id = goal_id, gi_stamp = timestamp\<rparr> items (my_cancel_client a)
      in (p, a\<lparr>my_cancel_client := cc\<rparr>, rest))"

definition request_result :: "dds_lib \<Rightarrow> ('g, 'r) dds_action_codecs \<Rightarrow> (dds_sample \<Rightarrow> sample_identity option) \<Rightarrow> goal_id \<Rightarrow>
    dds_action_client \<Rightarrow> (write_error + rmw_request_id) \<times> dds_action_client" where
  "request_result l k write goal_id a =
     (let (r, rc) = send_request l (ac_result_request k) write goal_id (my_result_client a)
      in (r, a\<lparr>my_result_client := rc\<rparr>))"

function receive_result :: "dds_lib \<Rightarrow> 'r dds_result_response dds_cdr \<Rightarrow> dds_client \<Rightarrow> rmw_request_id \<Rightarrow> wrapper dds_reader \<Rightarrow>
    (read_error + (goal_status_enum \<times> 'r) option) \<times> wrapper dds_reader" where
  "receive_result l cdr c result_request_id q =
     (case receive_response l cdr c (fst (reader_take q)) of
        Inl e \<Rightarrow> (Err e, snd (reader_take q))
      | Inr None \<Rightarrow> (Ok None, snd (reader_take q))
      | Inr (Some (incoming_req_id, resp)) \<Rightarrow>
          if incoming_req_id = result_request_id then (Ok (Some (dr_status resp, dr_result resp)), snd (reader_take q))
          else receive_result l cdr c result_request_id (snd (reader_take q)))"
  by pat_completeness auto
termination
  by (relation "measure (\<lambda>(l, cdr, c, i, q). length q)") (auto dest: reader_take_response)

definition async_request_result :: "dds_lib \<Rightarrow> ('g, 'r) dds_action_codecs \<Rightarrow> (dds_sample \<Rightarrow> sample_identity option) \<Rightarrow> goal_id \<Rightarrow>
    (read_error + wrapper cache_change) option list \<Rightarrow> dds_action_client \<Rightarrow>
    (call_service_error + (goal_status_enum \<times> 'r)) poll \<times> dds_action_client \<times> (read_error + wrapper cache_change) option list" where
  "async_request_result l k write goal_id items a =
     (let (p, rc, rest) = async_call_service l (ac_result_request k) (ac_result_response k) write goal_id items (my_result_client a)
      in (poll_map (\<lambda>r. and_then r (\<lambda>resp. Ok (dr_status resp, dr_result resp))) p, a\<lparr>my_result_client := rc\<rparr>, rest))"

function receive_feedback :: "goal_id \<Rightarrow> 'f dds_feedback dds_reader \<Rightarrow> (read_error + 'f option) \<times> 'f dds_feedback dds_reader" where
  "receive_feedback goal_id q =
     (case dds_take (fst (reader_take q)) of
        Inl e \<Rightarrow> (Err e, snd (reader_take q))
      | Inr None \<Rightarrow> (Ok None, snd (reader_take q))
      | Inr (Some (fb_msg, msg_info)) \<Rightarrow>
          if df_goal_id fb_msg = goal_id then (Ok (Some (df_feedback fb_msg)), snd (reader_take q))
          else receive_feedback goal_id (snd (reader_take q)))"
  by pat_completeness auto
termination
  by (relation "measure (\<lambda>(g, q). length q)") (auto dest: reader_take_feedback)

text \<open>Streams are the list of the items the subscription delivers.\<close>

definition feedback_stream :: "goal_id \<Rightarrow> 'f dds_feedback dds_reader \<Rightarrow> (read_error + 'f) list" where
  "feedback_stream expected_goal_id items =
     List.map_filter (\<lambda>result. case result of
        Inl e \<Rightarrow> Some (Err e)
      | Inr (fb, msg_info) \<Rightarrow>
          if df_goal_id fb = expected_goal_id then Some (Ok (df_feedback fb)) else None) (dds_async_stream items)"

definition dds_receive_status :: "goal_status list dds_reader \<Rightarrow>
    (read_error + goal_status list option) \<times> goal_status list dds_reader" where
  "dds_receive_status q =
     (let (taken, q') = reader_take q in (and_then (dds_take taken) (\<lambda>r. Ok (map_option fst r)), q'))"

definition async_receive_status :: "(read_error + goal_status list cache_change) option list \<Rightarrow>
    (read_error + goal_status list) poll \<times> (read_error + goal_status list cache_change) option list" where
  "async_receive_status items =
     (let (p, rest) = dds_async_take items in (poll_map (\<lambda>r. and_then r (\<lambda>(m, msg_info). Ok m)) p, rest))"

definition all_statuses_stream :: "goal_status list dds_reader \<Rightarrow> (read_error + goal_status list) list" where
  "all_statuses_stream items = map (\<lambda>result. and_then result (\<lambda>(gsa, mi). Ok gsa)) (dds_async_stream items)"

definition status_stream :: "goal_id \<Rightarrow> goal_status list dds_reader \<Rightarrow> (read_error + goal_status) list" where
  "status_stream goal_id items =
     List.map_filter (\<lambda>result. case result of
        Inl e \<Rightarrow> Some (Err e)
      | Inr gsa \<Rightarrow> map_option Ok (find (\<lambda>gs. gi_goal_id (gs_goal_info gs) = goal_id) gsa)) (all_statuses_stream items)"

subsection \<open>The synchronous action server\<close>

record 'f dds_action_server =
  my_goal_server :: dds_server
  my_cancel_server :: dds_server
  my_result_server :: dds_server
  my_feedback_publisher :: "'f dds_feedback dds_publisher"
  my_status_publisher :: "goal_status list dds_publisher"

definition dds_receive_goal :: "dds_lib \<Rightarrow> ('g, 'r) dds_action_codecs \<Rightarrow> 'f dds_action_server \<Rightarrow>
    read_error + wrapper cache_change option \<Rightarrow> read_error + (rmw_request_id \<times> 'g send_goal_request) option" where
  "dds_receive_goal l k s taken = receive_request l (ac_goal_request k) (my_goal_server s) taken"

definition dds_send_goal_response :: "dds_lib \<Rightarrow> ('g, 'r) dds_action_codecs \<Rightarrow> (dds_sample \<Rightarrow> sample_identity option) \<Rightarrow>
    rmw_request_id \<Rightarrow> send_goal_response \<Rightarrow> 'f dds_action_server \<Rightarrow> (write_error + unit) \<times> 'f dds_action_server" where
  "dds_send_goal_response l k write req_id resp s =
     (let (r, gs) = send_response l (ac_goal_response k) write req_id resp (my_goal_server s) in (r, s\<lparr>my_goal_server := gs\<rparr>))"

definition dds_receive_cancel :: "dds_lib \<Rightarrow> ('g, 'r) dds_action_codecs \<Rightarrow> 'f dds_action_server \<Rightarrow>
    read_error + wrapper cache_change option \<Rightarrow> read_error + (rmw_request_id \<times> goal_info) option" where
  "dds_receive_cancel l k s taken = receive_request l (ac_cancel_request k) (my_cancel_server s) taken"

definition send_cancel_response :: "dds_lib \<Rightarrow> ('g, 'r) dds_action_codecs \<Rightarrow> (dds_sample \<Rightarrow> sample_identity option) \<Rightarrow>
    rmw_request_id \<Rightarrow> cancel_goal_response \<Rightarrow> 'f dds_action_server \<Rightarrow> (write_error + unit) \<times> 'f dds_action_server" where
  "send_cancel_response l k write req_id resp s =
     (let (r, cs) = send_response l (ac_cancel_response k) write req_id resp (my_cancel_server s) in (r, s\<lparr>my_cancel_server := cs\<rparr>))"

definition dds_receive_result :: "dds_lib \<Rightarrow> ('g, 'r) dds_action_codecs \<Rightarrow> 'f dds_action_server \<Rightarrow>
    read_error + wrapper cache_change option \<Rightarrow> read_error + (rmw_request_id \<times> goal_id) option" where
  "dds_receive_result l k s taken = receive_request l (ac_result_request k) (my_result_server s) taken"

definition send_result :: "dds_lib \<Rightarrow> ('g, 'r) dds_action_codecs \<Rightarrow> (dds_sample \<Rightarrow> sample_identity option) \<Rightarrow>
    rmw_request_id \<Rightarrow> 'r dds_result_response \<Rightarrow> 'f dds_action_server \<Rightarrow> (write_error + unit) \<times> 'f dds_action_server" where
  "send_result l k write result_request_id resp s =
     (let (r, rs) = send_response l (ac_result_response k) write result_request_id resp (my_result_server s)
      in (r, s\<lparr>my_result_server := rs\<rparr>))"

definition send_feedback :: "('f dds_feedback \<Rightarrow> bool) \<Rightarrow> goal_id \<Rightarrow> 'f \<Rightarrow> 'f dds_action_server \<Rightarrow>
    (write_error + unit) \<times> 'f dds_action_server" where
  "send_feedback write goal_id feedback s =
     (let (r, p) = dds_publish write \<lparr>df_goal_id = goal_id, df_feedback = feedback\<rparr> (my_feedback_publisher s)
      in (r, s\<lparr>my_feedback_publisher := p\<rparr>))"

definition send_goal_statuses :: "(goal_status list \<Rightarrow> bool) \<Rightarrow> goal_status list \<Rightarrow> 'f dds_action_server \<Rightarrow>
    (write_error + unit) \<times> 'f dds_action_server" where
  "send_goal_statuses write goal_statuses s =
     (let (r, p) = dds_publish write goal_statuses (my_status_publisher s) in (r, s\<lparr>my_status_publisher := p\<rparr>))"

subsection \<open>The raw action server\<close>

record dds_raw_action_server =
  goal_server :: dds_server
  cancel_server :: dds_server
  result_server :: dds_server
  feedback_publisher :: "wrapper dds_publisher"
  status_publisher :: "goal_status list dds_publisher"

definition to_standalone_cdr :: "'m dds_cdr \<Rightarrow> 'm \<Rightarrow> write_error + byte list" where
  "to_standalone_cdr cdr message =
     and_then (ok_or WriteSerialization (dds_ser cdr CDR_LE message)) (\<lambda>body. Ok ([0x00, 0x01, 0x00, 0x00] @ body))"

definition message_rep_id :: "byte list \<Rightarrow> read_error + rep_id" where
  "message_rep_id message =
     (if take 2 message = [0x00, 0x00] then Ok CDR_BE
      else if take 2 message = [0x00, 0x01] then Ok CDR_LE
      else Err ReadDeserialization)"

definition strip_header :: "byte list \<Rightarrow> read_error + byte list" where
  "strip_header message = (if length message < 4 then Err ReadDeserialization else Ok (drop 4 message))"

definition raw_receive_goal_request :: "dds_lib \<Rightarrow> (read_error + wrapper cache_change) option list \<Rightarrow>
    (read_error + (rmw_request_id \<times> byte list)) poll \<times> (read_error + wrapper cache_change) option list" where
  "raw_receive_goal_request l items = raw_async_receive_request l items"

definition raw_respond_goal_dds :: "send_goal_response dds_cdr \<Rightarrow> (dds_sample \<Rightarrow> sample_identity option) \<Rightarrow>
    rmw_request_id \<Rightarrow> bool \<Rightarrow> bi_time \<Rightarrow> dds_raw_action_server \<Rightarrow> (write_error + unit) \<times> dds_raw_action_server" where
  "raw_respond_goal_dds cdr write req_id accepted stamp s =
     (case to_standalone_cdr cdr \<lparr>sr_accepted = accepted, sr_stamp = stamp\<rparr> of
        Inl e \<Rightarrow> (Err e, s)
      | Inr response \<Rightarrow>
          (let (r, gs) = raw_dds_send_response write req_id response (goal_server s) in (r, s\<lparr>goal_server := gs\<rparr>)))"

definition raw_receive_cancel_dds :: "dds_lib \<Rightarrow> goal_info dds_cdr \<Rightarrow> dds_raw_action_server \<Rightarrow>
    (read_error + wrapper cache_change) option list \<Rightarrow>
    (read_error + (rmw_request_id \<times> goal_info)) poll \<times> (read_error + wrapper cache_change) option list" where
  "raw_receive_cancel_dds l cdr s items = dds_async_receive_request l cdr (cancel_server s) items"

definition raw_respond_cancel_dds :: "dds_lib \<Rightarrow> cancel_goal_response dds_cdr \<Rightarrow> (dds_sample \<Rightarrow> sample_identity option) \<Rightarrow>
    rmw_request_id \<Rightarrow> cancel_goal_response \<Rightarrow> dds_raw_action_server \<Rightarrow> (write_error + unit) \<times> dds_raw_action_server" where
  "raw_respond_cancel_dds l cdr write req_id response s =
     (let (r, cs) = send_response l cdr write req_id response (cancel_server s) in (r, s\<lparr>cancel_server := cs\<rparr>))"

definition raw_receive_result_dds :: "dds_lib \<Rightarrow> goal_id dds_cdr \<Rightarrow> (read_error + wrapper cache_change) option list \<Rightarrow>
    (read_error + (rmw_request_id \<times> goal_id)) poll \<times> (read_error + wrapper cache_change) option list" where
  "raw_receive_result_dds l cdr items =
     (let (p, rest) = raw_async_receive_request l items
      in (poll_map (\<lambda>r. and_then r (\<lambda>(req_id, bytes).
            and_then (strip_header bytes) (\<lambda>body.
            and_then (message_rep_id bytes) (\<lambda>rep.
            and_then (ok_or ReadDeserialization (dds_de cdr rep body)) (\<lambda>(request, consumed).
              Ok (req_id, request)))))) p, rest))"

definition raw_respond_result_dds :: "(dds_sample \<Rightarrow> sample_identity option) \<Rightarrow> rmw_request_id \<Rightarrow> byte list \<Rightarrow>
    dds_raw_action_server \<Rightarrow> (write_error + unit) \<times> dds_raw_action_server" where
  "raw_respond_result_dds write req_id cdr_response s =
     (let (r, rs) = raw_dds_send_response write req_id cdr_response (result_server s) in (r, s\<lparr>result_server := rs\<rparr>))"

definition raw_publish_feedback_dds :: "(wrapper \<Rightarrow> bool) \<Rightarrow> byte list \<Rightarrow> dds_raw_action_server \<Rightarrow>
    (write_error + unit) \<times> dds_raw_action_server" where
  "raw_publish_feedback_dds write cdr_message s =
     (let (r, p) = dds_raw_publish write cdr_message (feedback_publisher s) in (r, s\<lparr>feedback_publisher := p\<rparr>))"

definition raw_publish_statuses_dds :: "(goal_status list \<Rightarrow> bool) \<Rightarrow> goal_status list \<Rightarrow> dds_raw_action_server \<Rightarrow>
    (write_error + unit) \<times> dds_raw_action_server" where
  "raw_publish_statuses_dds write statuses s =
     (let (r, p) = dds_publish write statuses (status_publisher s) in (r, s\<lparr>status_publisher := p\<rparr>))"

subsection \<open>The receive loops\<close>

text \<open>What a loop looks for among the decoded samples: the first that is an error or the response to
  the request; \<open>for_other\<close> are the ones it drops.\<close>

definition response_of :: "dds_lib \<Rightarrow> 'r dds_cdr \<Rightarrow> dds_client \<Rightarrow> read_error + wrapper cache_change \<Rightarrow> read_error + (rmw_request_id \<times> 'r)" where
  "response_of l cdr c it = and_then it (\<lambda>dcc.
     response_unwrap l cdr (dc_service_mapping c) (message_info_of dcc) (dc_client_guid c) (cc_value dcc))"

definition feedback_of :: "read_error + 'f dds_feedback cache_change \<Rightarrow> read_error + (goal_id \<times> 'f)" where
  "feedback_of it = and_then it (\<lambda>dcc. Ok (df_goal_id (cc_value dcc), df_feedback (cc_value dcc)))"

fun for_other :: "'k \<Rightarrow> read_error + ('k \<times> 'r) \<Rightarrow> bool" where
  "for_other k (Inl e) = False"
| "for_other k (Inr (j, r)) = (j \<noteq> k)"

definition first_for :: "'k \<Rightarrow> (read_error + ('k \<times> 'r)) list \<Rightarrow> read_error + 'r option" where
  "first_for k rs = (case dropWhile (for_other k) rs of
     [] \<Rightarrow> Ok None | Inl e # _ \<Rightarrow> Err e | Inr (_, r) # _ \<Rightarrow> Ok (Some r))"

definition left_over :: "('a \<Rightarrow> bool) \<Rightarrow> 'a list \<Rightarrow> 'a list" where
  "left_over P xs = tl (dropWhile P xs)"

lemma drain_Nil: "first_for k [] = Ok None" "left_over P [] = []"
  by (simp_all add: first_for_def left_over_def)

lemma drain_Cons:
  "first_for k (r # rs) = (case r of Inl e \<Rightarrow> Err e | Inr (j, x) \<Rightarrow> if j = k then Ok (Some x) else first_for k rs)"
  "left_over P (x # xs) = (if P x then left_over P xs else xs)"
  by (auto simp: first_for_def left_over_def split: sum.splits)

declare receive_goal_response.simps [simp del]
declare receive_cancel_response.simps [simp del]
declare receive_result.simps [simp del]
declare receive_feedback.simps [simp del]

lemma reader_take_rest: "snd (reader_take (it # q)) = q"
  by (cases it) simp_all

lemma response_of_take:
  "receive_response l cdr c (fst (reader_take (it # q))) = and_then (response_of l cdr c it) (\<lambda>x. Ok (Some x))"
  by (cases it) (simp_all add: receive_response_def response_of_def case_prod_beta')

lemma feedback_of_simps [simp]:
  "feedback_of (Inl e) = Inl e" "feedback_of (Inr dcc) = Inr (df_goal_id (cc_value dcc), df_feedback (cc_value dcc))"
  by (simp_all add: feedback_of_def)

lemma receive_response_empty: "receive_response l cdr c (fst (reader_take [])) = Ok None" "snd (reader_take []) = []"
  by (simp_all add: receive_response_def)

lemma feedback_of_take:
  "dds_take (fst (reader_take (it # q))) = and_then it (\<lambda>dcc. Ok (Some (cc_value dcc, message_info_of dcc)))"
  by (cases it) (simp_all add: dds_take_def dcc_to_value_and_messageinfo_def)

lemma dds_take_empty: "dds_take (fst (reader_take [])) = Ok None"
  by (simp add: dds_take_def)

lemma goal_response_drain:
  "receive_goal_response l cdr c i q =
     (first_for i (map (response_of l cdr c) q), left_over (\<lambda>it. for_other i (response_of l cdr c it)) q)"
proof (induction q)
  case Nil
  then show ?case by (subst receive_goal_response.simps) (simp add: receive_response_empty drain_Nil del: reader_take.simps)
next
  case (Cons it q)
  then show ?case
    by (subst receive_goal_response.simps) (auto simp: response_of_take reader_take_rest drain_Cons split: sum.splits)
qed

lemma cancel_response_drain:
  "receive_cancel_response l cdr c i q =
     (first_for i (map (response_of l cdr c) q), left_over (\<lambda>it. for_other i (response_of l cdr c it)) q)"
proof (induction q)
  case Nil
  then show ?case by (subst receive_cancel_response.simps) (simp add: receive_response_empty drain_Nil del: reader_take.simps)
next
  case (Cons it q)
  then show ?case
    by (subst receive_cancel_response.simps) (auto simp: response_of_take reader_take_rest drain_Cons split: sum.splits)
qed

lemma result_drain:
  "receive_result l cdr c i q =
     (and_then (first_for i (map (response_of l cdr c) q)) (\<lambda>r. Ok (map_option (\<lambda>r. (dr_status r, dr_result r)) r)),
      left_over (\<lambda>it. for_other i (response_of l cdr c it)) q)"
proof (induction q)
  case Nil
  then show ?case by (subst receive_result.simps) (simp add: receive_response_empty drain_Nil del: reader_take.simps)
next
  case (Cons it q)
  then show ?case
    by (subst receive_result.simps) (auto simp: response_of_take reader_take_rest drain_Cons split: sum.splits)
qed

lemma feedback_drain:
  "receive_feedback g q = (first_for g (map feedback_of q), left_over (\<lambda>it. for_other g (feedback_of it)) q)"
proof (induction q)
  case Nil
  then show ?case by (subst receive_feedback.simps) (simp add: dds_take_def drain_Nil)
next
  case (Cons it q)
  then show ?case
    by (subst receive_feedback.simps; cases it)
      (auto simp: feedback_of_take reader_take_rest drain_Cons simp del: reader_take.simps)
qed

subsection \<open>Properties\<close>

lemma left_over_drop: "left_over P xs = drop (Suc (length (takeWhile P xs))) xs"
  by (simp add: left_over_def dropWhile_eq_drop drop_Suc drop_tl)

text \<open>C20. Every receive loop of the action client returns: it takes the responses (or feedback
  messages) for other requests from the front of its reader and one sample more, if there is one,
  and its result is that of this sample: the response, the error in it, or \<open>None\<close> when the reader
  is exhausted.\<close>

theorem receive_loops_terminate:
  "receive_goal_response l gcdr c i q =
     (first_for i (map (response_of l gcdr c) q),
      drop (Suc (length (takeWhile (\<lambda>it. for_other i (response_of l gcdr c it)) q))) q)
   \<and> receive_cancel_response l ccdr c i q =
     (first_for i (map (response_of l ccdr c) q),
      drop (Suc (length (takeWhile (\<lambda>it. for_other i (response_of l ccdr c it)) q))) q)
   \<and> receive_result l rcdr c i q =
     (and_then (first_for i (map (response_of l rcdr c) q)) (\<lambda>r. Ok (map_option (\<lambda>r. (dr_status r, dr_result r)) r)),
      drop (Suc (length (takeWhile (\<lambda>it. for_other i (response_of l rcdr c it)) q))) q)
   \<and> receive_feedback g fq =
     (first_for g (map feedback_of fq), drop (Suc (length (takeWhile (\<lambda>it. for_other g (feedback_of it)) fq))) fq)"
  by (simp add: goal_response_drain cancel_response_drain result_drain feedback_drain left_over_drop)

lemma first_for_skip:
  assumes "\<forall>r\<in>set others. for_other k r"
  shows "first_for k (others @ rs) = first_for k rs"
  using assms by (simp add: first_for_def)

lemma left_over_skip:
  assumes "\<forall>x\<in>set others. P x"
  shows "left_over P (others @ xs) = left_over P xs"
  using assms by (simp add: left_over_def)

text \<open>With two goal requests of one client outstanding, polling for the one answered later drops
  the response to the other: when that request is polled for afterwards there is nothing left to
  receive, although its response had arrived.\<close>

lemma earlier_goal_response_dropped:
  assumes "i \<noteq> j" and "response_of l cdr c di = Ok (i, x)" and "response_of l cdr c dj = Ok (j, y)"
    and "\<forall>it\<in>set others. for_other j (response_of l cdr c it)"
  shows "receive_goal_response l cdr c j (di # others @ [dj]) = (Ok (Some y), [])
    \<and> receive_goal_response l cdr c i [] = (Ok None, [])
    \<and> receive_goal_response l cdr c i (di # others @ [dj]) = (Ok (Some x), others @ [dj])"
  using assms
  by (simp add: goal_response_drain drain_Nil drain_Cons first_for_skip left_over_skip)

definition accepted_cdr :: "send_goal_response dds_cdr" where
  "accepted_cdr = fixed_cdr 1 (\<lambda>r. [if sr_accepted r then 1 else 0]) (\<lambda>b. \<lparr>sr_accepted = hd b = 1, sr_stamp = BI_TIME_ZERO\<rparr>)"

definition goal_answer :: "int \<Rightarrow> byte \<Rightarrow> wrapper cache_change" where
  "goal_answer n b = delivered None
     \<lparr>ds_wrapper = \<lparr>serialized_message = [b], encoding = CDR_LE\<rparr>,
      ds_related = Some \<lparr>si_writer_guid = replicate 16 4, si_sequence_number = n\<rparr>\<rparr>
     \<lparr>si_writer_guid = replicate 16 5, si_sequence_number = n\<rparr>"

lemma goal_answer_decoded:
  "response_of fixed_lib accepted_cdr (dds_client_new fixed_lib Enhanced (replicate 16 4)) (Inr (goal_answer n b)) =
     Ok (\<lparr>rr_writer_guid = replicate 16 4, rr_sequence_number = n\<rparr>, \<lparr>sr_accepted = b = 1, sr_stamp = BI_TIME_ZERO\<rparr>)"
  by (simp add: response_of_def goal_answer_def dds_client_new_def response_unwrap_def accepted_cdr_def fixed_cdr_def
      rmw_request_id_from_def)

lemma earlier_goal_response_dropped_witness:
  "receive_goal_response fixed_lib accepted_cdr (dds_client_new fixed_lib Enhanced (replicate 16 4))
     \<lparr>rr_writer_guid = replicate 16 4, rr_sequence_number = 2\<rparr> [Inr (goal_answer 1 1), Inr (goal_answer 2 0)]
   = (Ok (Some \<lparr>sr_accepted = False, sr_stamp = BI_TIME_ZERO\<rparr>), [])"
  using earlier_goal_response_dropped [OF _ goal_answer_decoded [of 1 1] goal_answer_decoded [of 2 0], of "[]"] by simp

lemma raw_response_sample:
  "new_raw ([0x00, 0x01, 0x00, 0x00] @ b) = b"
  by (simp add: new_raw_def)

lemma standalone_decoded:
  assumes "enc = CDR_BE \<or> enc = CDR_LE"
  shows "strip_header (encapsulated enc b) = Ok b" "message_rep_id (encapsulated enc b) = Ok enc"
  using assms by (auto simp: strip_header_def message_rep_id_def encapsulated_def encapsulation_header_def)

text \<open>The raw action server and the typed one do the same on the wire for the messages of fixed
  type: answering a goal through \<open>respond_goal\<close> writes the very sample the typed server's
  \<open>send_response\<close> writes, with the same outcome, and a result request read as raw bytes decodes to
  what the typed server receives, for the two encodings of CDR.\<close>

lemma raw_action_server_agrees:
  assumes "dv_service_mapping (goal_server s) = Enhanced" and "dv_service_mapping rs = Enhanced"
    and "\<forall>d. Some (Inr d) \<in> set items \<longrightarrow> encoding (cc_value d) \<in> {CDR_BE, CDR_LE}"
  shows "raw_respond_goal_dds cdr write i accepted stamp s =
      (let (r, gs) = send_response l cdr write i \<lparr>sr_accepted = accepted, sr_stamp = stamp\<rparr> (goal_server s)
       in (r, s\<lparr>goal_server := gs\<rparr>))
    \<and> raw_receive_result_dds l qcdr items = dds_async_receive_request l qcdr rs items"
proof
  show "raw_respond_goal_dds cdr write i accepted stamp s =
      (let (r, gs) = send_response l cdr write i \<lparr>sr_accepted = accepted, sr_stamp = stamp\<rparr> (goal_server s)
       in (r, s\<lparr>goal_server := gs\<rparr>))"
    using assms(1) raw_response_sample
    by (cases "dds_ser cdr CDR_LE \<lparr>sr_accepted = accepted, sr_stamp = stamp\<rparr>")
      (simp_all add: raw_respond_goal_dds_def to_standalone_cdr_def send_response_def response_new_def response_header_def
        raw_dds_send_response_def Let_def split: option.splits)
  consider "items = []" | rest where "items = None # rest" | e rest where "items = Some (Inl e) # rest"
    | d rest where "items = Some (Inr d) # rest" by (metis list.exhaust option.exhaust sum.exhaust)
  then show "raw_receive_result_dds l qcdr items = dds_async_receive_request l qcdr rs items"
  proof cases
    case (4 d)
    then have "encoding (cc_value d) = CDR_BE \<or> encoding (cc_value d) = CDR_LE" using assms(3) by auto
    note decoded = standalone_decoded [OF this]
    show ?thesis using 4 assms(2) decoded
      by (cases "dds_de qcdr (encoding (cc_value d)) (serialized_message (cc_value d))")
        (auto simp: raw_receive_result_dds_def raw_async_receive_request_def unwrap_raw_def dds_async_receive_request_def
          request_unwrap_def)
  qed (simp_all add: raw_receive_result_dds_def raw_async_receive_request_def dds_async_receive_request_def)
qed

lemma raw_action_server_agrees_witness:
  "raw_receive_result_dds fixed_lib (fixed_cdr 1 (\<lambda>g. [ucast (g :: goal_id)]) (\<lambda>b. ucast (hd b)))
     [Some (Inr (goal_answer 1 7))]
   = (Ready (Ok (\<lparr>rr_writer_guid = replicate 16 4, rr_sequence_number = 1\<rparr>, 7)), [])"
proof -
  let ?r = "\<lparr>dv_service_mapping = Enhanced, dv_written = []\<rparr>"
  let ?s = "\<lparr>goal_server = ?r, cancel_server = ?r, result_server = ?r,
      feedback_publisher = \<lparr>dp_guid = [], dp_written = []\<rparr>, status_publisher = \<lparr>dp_guid = [], dp_written = []\<rparr>\<rparr>"
  show ?thesis
    by (subst raw_action_server_agrees [where s = ?s and rs = ?r, THEN conjunct2])
      (simp_all add: goal_answer_def dds_async_receive_request_def request_unwrap_def fixed_cdr_def enhanced_request_id_def
        rmw_request_id_from_def fixed_lib_def)
qed

text \<open>Publishing a sequence of feedback messages.\<close>

definition send_feedbacks :: "(goal_id \<times> 'f) list \<Rightarrow> 'f dds_action_server \<Rightarrow> 'f dds_action_server" where
  "send_feedbacks fbs s = fold (\<lambda>(g, fb) s. snd (send_feedback (\<lambda>_. True) g fb s)) fbs s"

lemma send_feedbacks_written:
  "dp_written (my_feedback_publisher (send_feedbacks fbs s)) =
     dp_written (my_feedback_publisher s) @ map (\<lambda>(g, fb). \<lparr>df_goal_id = g, df_feedback = fb\<rparr>) fbs"
  by (induction fbs arbitrary: s) (auto simp: send_feedbacks_def send_feedback_def dds_publish_def)

lemma feedback_stream_delivered:
  "feedback_stream g (map Inr dccs) =
     map (\<lambda>m. Ok (df_feedback m)) (filter (\<lambda>m. df_goal_id m = g) (map cc_value dccs))"
  by (induction dccs)
    (simp_all add: feedback_stream_def dds_async_stream_def dcc_to_value_and_messageinfo_def List.map_filter_simps)

text \<open>The feedback stream of a goal yields exactly the feedback the server sent for that goal, in
  the order it was sent and whatever feedback for other goals lies between, when the messages are
  delivered in order.\<close>

lemma feedback_reaches_its_goal:
  assumes "map cc_value dccs = dp_written (my_feedback_publisher (send_feedbacks fbs s))"
    and "dp_written (my_feedback_publisher s) = []"
  shows "feedback_stream g (map Inr dccs) = map (\<lambda>(_, fb). Ok fb) (filter (\<lambda>(g', _). g' = g) fbs)"
proof -
  have "feedback_stream g (map Inr dccs) = map (\<lambda>m. Ok (df_feedback m))
      (filter (\<lambda>m. df_goal_id m = g) (map (\<lambda>(g, fb). \<lparr>df_goal_id = g, df_feedback = fb\<rparr>) fbs))"
    using assms by (simp add: feedback_stream_delivered send_feedbacks_written)
  also have "\<dots> = map (\<lambda>(_, fb). Ok fb) (filter (\<lambda>(g', _). g' = g) fbs)"
    by (induction fbs) auto
  finally show ?thesis .
qed

lemma feedback_reaches_its_goal_witness:
  "feedback_stream 1 (map Inr (map (\<lambda>m. \<lparr>cc_source_timestamp = None, cc_sequence_number = 1, cc_writer_guid = [],
       cc_related_sample_identity = None, cc_value = m\<rparr>)
     [\<lparr>df_goal_id = 1, df_feedback = 10 :: nat\<rparr>, \<lparr>df_goal_id = 2, df_feedback = 20\<rparr>, \<lparr>df_goal_id = 1, df_feedback = 30\<rparr>]))
   = [Ok 10, Ok 30]"
proof -
  let ?r = "\<lparr>dv_service_mapping = Enhanced, dv_written = []\<rparr>"
  let ?s = "\<lparr>my_goal_server = ?r, my_cancel_server = ?r, my_result_server = ?r,
      my_feedback_publisher = \<lparr>dp_guid = [], dp_written = []\<rparr>, my_status_publisher = \<lparr>dp_guid = [], dp_written = []\<rparr>\<rparr>"
  show ?thesis
    by (subst feedback_reaches_its_goal [where fbs = "[(1, 10), (2, 20), (1, 30)]" and s = ?s])
      (simp_all add: send_feedbacks_written)
qed

end
