(* ===== verification/Dds_Node.thy ===== *)
theory Dds_Node
  imports Dds_Context Dds_Action Parameters
begin

text \<open>
  The node of the DDS backend (\<open>node.rs\<close>): its options, its parameters, the DDS entities it creates
  and what it tells ROS discovery about them. The state includes what the node shares with its
  spinner and its view of the context. rustdds is a parameter (\<open>dds_env\<close>): which topics it creates,
  the GUID of a new reader or writer, and which samples its writers take. A validator or set action
  of a parameter is a function of name and value; \<open>dnode_bind\<close> is the question mark operator.
\<close>

subsection \<open>State\<close>

record 'q dds_topic =
  dt_name :: string
  dt_type :: string
  dt_qos :: 'q

text \<open>What was created through the participant for a node; the readers that its spinner makes for itself are told
  apart from those of the node.\<close>

datatype 'q dds_call =
    CreateTopic "'q dds_topic"
  | CreateWriter "'q dds_topic" "'q option" guid
  | CreateReader "'q dds_topic" "'q option" guid
  | SpinReader "'q dds_topic" "'q option" guid

type_synonym parameter_func = "string \<Rightarrow> parameter_value \<Rightarrow> set_parameters_result"

record node_options =
  no_enable_rosout :: bool
  no_enable_rosout_reading :: bool
  no_start_parameter_services :: bool
  no_declared_parameters :: "parameter list"
  no_allow_undeclared_parameters :: bool
  no_parameter_validator :: "parameter_func option"
  no_parameter_set_action :: "parameter_func option"

definition node_options_new :: node_options where
  "node_options_new =
     \<lparr>no_enable_rosout = True, no_enable_rosout_reading = False, no_start_parameter_services = True,
      no_declared_parameters = [], no_allow_undeclared_parameters = False, no_parameter_validator = None,
      no_parameter_set_action = None\<rparr>"

definition options_enable_rosout :: "bool \<Rightarrow> node_options \<Rightarrow> node_options" where
  "options_enable_rosout enable opts = opts\<lparr>no_enable_rosout := enable\<rparr>"

definition options_read_rosout :: "bool \<Rightarrow> node_options \<Rightarrow> node_options" where
  "options_read_rosout enable opts = opts\<lparr>no_enable_rosout_reading := enable\<rparr>"

definition options_parameter_validator :: "parameter_func \<Rightarrow> node_options \<Rightarrow> node_options" where
  "options_parameter_validator validator opts = opts\<lparr>no_parameter_validator := Some validator\<rparr>"

definition options_parameter_set_action :: "parameter_func \<Rightarrow> node_options \<Rightarrow> node_options" where
  "options_parameter_set_action action opts = opts\<lparr>no_parameter_set_action := Some action\<rparr>"

definition declare_parameter :: "string \<Rightarrow> parameter_value \<Rightarrow> node_options \<Rightarrow> node_options" where
  "declare_parameter name v opts =
     opts\<lparr>no_declared_parameters := no_declared_parameters opts @ [\<lparr>par_name = name, par_value = v\<rparr>]\<rparr>"

record 't dds_parameter_event =
  dpe_timestamp :: 't
  dpe_node :: string
  dpe_new_parameters :: "raw_parameter list"
  dpe_changed_parameters :: "raw_parameter list"
  dpe_deleted_parameters :: "raw_parameter list"

datatype dp_status =
    RemoteReaderMatched guid guid
  | RemoteWriterMatched guid guid
  | ReaderLost guid
  | WriterLost guid
  | OtherStatus

datatype node_event = EventDDS dp_status | EventROS participant_entities_info

text \<open>The sending side of a status channel: the events in it, and whether the receiver still exists.\<close>

record status_channel =
  sc_queue :: "node_event list"
  sc_open :: bool

type_synonym match_table = "(guid \<times> guid list) list"

record ('q, 't) dds_node =
  dn_name :: node_name
  dn_allow_undeclared :: bool
  dn_start_parameter_services :: bool
  dn_context :: dds_context
  dn_calls :: "'q dds_call list"
  dn_readers :: "gid list"
  dn_writers :: "gid list"
  dn_suppress :: bool
  dn_readers_to_remote_writers :: match_table
  dn_writers_to_remote_readers :: match_table
  dn_external_nodes :: "(gid \<times> node_entities_info list) list"
  dn_stop_spin_sender :: "nat option"
  dn_status_event_senders :: "status_channel list"
  dn_rosout_writer :: "guid option"
  dn_rosout_reader :: "guid option"
  dn_parameter_events_writer :: "'t dds_parameter_event dds_publisher"
  dn_parameters :: parameter_store
  dn_parameter_validator :: "parameter_func option"
  dn_parameter_set_action :: "parameter_func option"
  dn_use_sim_time :: bool
  dn_sim_time :: ros_time

record ('q, 't) dds_env =
  de_topic_ok :: "'q dds_topic \<Rightarrow> bool"
  de_new_writer :: "'q dds_call list \<Rightarrow> 'q dds_topic \<Rightarrow> guid option"
  de_new_reader :: "'q dds_call list \<Rightarrow> 'q dds_topic \<Rightarrow> guid option"
  de_info_ok :: "participant_entities_info \<Rightarrow> bool"
  de_event_ok :: "'t dds_parameter_event \<Rightarrow> bool"
  de_to_timestamp :: "ros_time \<Rightarrow> 't"
  de_now :: ros_time
  de_timestamp_now :: 't
  de_service_qos :: 'q
  de_default_subscription_qos :: 'q
  de_parameter_events_topic :: "'q dds_topic"
  de_rosout_topic :: "'q dds_topic"
  de_lib :: dds_lib

datatype node_error = CreateErr | BadParameter string | NodePanic

type_synonym ('q, 't, 'a) dnode_op = "('q, 't) dds_node \<Rightarrow> (node_error + 'a) \<times> ('q, 't) dds_node"

definition dnode_return :: "'a \<Rightarrow> ('q, 't, 'a) dnode_op" where
  "dnode_return x n = (Ok x, n)"

definition dnode_bind :: "('q, 't, 'a) dnode_op \<Rightarrow> ('a \<Rightarrow> ('q, 't, 'b) dnode_op) \<Rightarrow> ('q, 't, 'b) dnode_op" where
  "dnode_bind m f n = (case m n of (Inl e, n') \<Rightarrow> (Inl e, n') | (Inr x, n') \<Rightarrow> f x n')"

definition dnode_unwrap :: "'e + 'a \<Rightarrow> ('q, 't, 'a) dnode_op" where
  "dnode_unwrap r n = (case r of Inl e \<Rightarrow> (Err NodePanic, n) | Inr x \<Rightarrow> (Ok x, n))"

subsection \<open>What is announced\<close>

definition dn_fully_qualified_name :: "('q, 't) dds_node \<Rightarrow> string" where
  "dn_fully_qualified_name n = fully_qualified_name (dn_name n)"

definition node_gid :: "('q, 't) dds_node \<Rightarrow> guid \<Rightarrow> gid" where
  "node_gid n g = gid_from_guid (cx_gid_length (dn_context n)) g"

definition generate_node_info :: "('q, 't) dds_node \<Rightarrow> node_entities_info" where
  "generate_node_info n =
     (let i0 = node_entities_info_new (dn_name n);
          i1 = ne_add_writer (node_gid n (dp_guid (dn_parameter_events_writer n))) i0;
          i2 = (case dn_rosout_writer n of Some row \<Rightarrow> ne_add_writer (node_gid n row) i1 | None \<Rightarrow> i1);
          i3 = fold ne_add_reader (dn_readers n) i2
      in fold ne_add_writer (dn_writers n) i3)"

definition announce :: "('q, 't) dds_env \<Rightarrow> ('q, 't) dds_node \<Rightarrow> ('q, 't) dds_node" where
  "announce env n = n\<lparr>dn_context := update_node (de_info_ok env) (generate_node_info n) (dn_context n)\<rparr>"

definition suppress_node_info_updates :: "('q, 't) dds_env \<Rightarrow> bool \<Rightarrow> ('q, 't) dds_node \<Rightarrow> ('q, 't) dds_node" where
  "suppress_node_info_updates env suppress n =
     (let n' = n\<lparr>dn_suppress := suppress\<rparr> in if \<not> suppress then announce env n' else n')"

definition dn_add_reader :: "('q, 't) dds_env \<Rightarrow> gid \<Rightarrow> ('q, 't) dds_node \<Rightarrow> ('q, 't) dds_node" where
  "dn_add_reader env reader n =
     (let n' = n\<lparr>dn_readers := insort_insert reader (dn_readers n)\<rparr> in if \<not> dn_suppress n' then announce env n' else n')"

definition dn_add_writer :: "('q, 't) dds_env \<Rightarrow> gid \<Rightarrow> ('q, 't) dds_node \<Rightarrow> ('q, 't) dds_node" where
  "dn_add_writer env writer n =
     (let n' = n\<lparr>dn_writers := insort_insert writer (dn_writers n)\<rparr> in if \<not> dn_suppress n' then announce env n' else n')"

subsection \<open>Parameters\<close>

definition time_now :: "('q, 't) dds_env \<Rightarrow> ('q, 't) dds_node \<Rightarrow> ros_time" where
  "time_now env n = (if dn_use_sim_time n then dn_sim_time n else de_now env)"

definition time_now_not_simulated :: "('q, 't) dds_env \<Rightarrow> ros_time" where
  "time_now_not_simulated env = de_now env"

definition validate_parameter_on_set :: "string \<Rightarrow> parameter_value \<Rightarrow> ('q, 't) dds_node \<Rightarrow> set_parameters_result" where
  "validate_parameter_on_set name v n =
     (if name = ''use_sim_time''
      then (case v of Boolean _ \<Rightarrow> Ok () | _ \<Rightarrow> Err (''Parameter'' @ [CHR 0x27] @ ''use_sim_time'' @ [CHR 0x27] @ '' must be Boolean.''))
      else (case dn_parameter_validator n of Some f \<Rightarrow> f name v | None \<Rightarrow> Ok ()))"

definition execute_parameter_set_actions :: "string \<Rightarrow> parameter_value \<Rightarrow> ('q, 't) dds_node \<Rightarrow>
    set_parameters_result \<times> ('q, 't) dds_node" where
  "execute_parameter_set_actions name v n =
     (if name = ''use_sim_time''
      then (case v of
              Boolean s \<Rightarrow> (Ok (), n\<lparr>dn_use_sim_time := s\<rparr>)
            | _ \<Rightarrow> (Err (''Parameter '' @ [CHR 0x27] @ ''use_sim_time'' @ [CHR 0x27] @ '' must be Boolean.''), n))
      else (case dn_parameter_set_action n of Some f \<Rightarrow> (f name v, n) | None \<Rightarrow> (Ok (), n)))"

definition dn_publish_event :: "('q, 't) dds_env \<Rightarrow> 't dds_parameter_event \<Rightarrow> ('q, 't) dds_node \<Rightarrow> ('q, 't) dds_node" where
  "dn_publish_event env ev n =
     n\<lparr>dn_parameter_events_writer := snd (dds_publish (de_event_ok env) ev (dn_parameter_events_writer n))\<rparr>"

text \<open>\<open>set_parameter\<close> of \<open>Node\<close> and of \<open>Spinner\<close>: the two differ only in the time of the notification.\<close>

definition set_parameter_at :: "('q, 't) dds_env \<Rightarrow> (('q, 't) dds_node \<Rightarrow> 't) \<Rightarrow> string \<Rightarrow> parameter_value \<Rightarrow> ('q, 't) dds_node \<Rightarrow>
    set_parameters_result \<times> ('q, 't) dds_node" where
  "set_parameter_at env timestamp name v n =
     (let already_set = map_of (dn_parameters n) name \<noteq> None
      in if dn_allow_undeclared n \<or> already_set
         then (case validate_parameter_on_set name v n of
                 Inl e \<Rightarrow> (Err e, n)
               | Inr _ \<Rightarrow>
                   (case execute_parameter_set_actions name v n of
                      (Inl e, n1) \<Rightarrow> (Err e, n1)
                    | (Inr _, n1) \<Rightarrow>
                        (let p = \<lparr>rp_name = name, rp_value = raw_from_value v\<rparr>;
                             (new_parameters, changed_parameters) = (if already_set then ([], [p]) else ([p], []));
                             n2 = n1\<lparr>dn_parameters := bt_insert name v (dn_parameters n1)\<rparr>
                         in (Ok (), dn_publish_event env
                              \<lparr>dpe_timestamp = timestamp n2, dpe_node = dn_fully_qualified_name n2,
                               dpe_new_parameters = new_parameters, dpe_changed_parameters = changed_parameters,
                               dpe_deleted_parameters = []\<rparr> n2))))
         else (Err (''Setting undeclared parameter '' @ [CHR 0x27] @ name @ [CHR 0x27] @ '' is not allowed.''), n))"

definition node_set_parameter :: "('q, 't) dds_env \<Rightarrow> string \<Rightarrow> parameter_value \<Rightarrow> ('q, 't) dds_node \<Rightarrow>
    set_parameters_result \<times> ('q, 't) dds_node" where
  "node_set_parameter env = set_parameter_at env (\<lambda>n. de_to_timestamp env (time_now env n))"

definition spinner_set_parameter :: "('q, 't) dds_env \<Rightarrow> string \<Rightarrow> parameter_value \<Rightarrow> ('q, 't) dds_node \<Rightarrow>
    set_parameters_result \<times> ('q, 't) dds_node" where
  "spinner_set_parameter env = set_parameter_at env (\<lambda>n. de_timestamp_now env)"

definition undeclare_parameter :: "('q, 't) dds_env \<Rightarrow> string \<Rightarrow> ('q, 't) dds_node \<Rightarrow> ('q, 't) dds_node" where
  "undeclare_parameter env name n =
     (case map_of (dn_parameters n) name of
        None \<Rightarrow> n
      | Some deleted_param \<Rightarrow>
          (let n1 = n\<lparr>dn_parameters := bt_remove name (dn_parameters n)\<rparr>
           in dn_publish_event env
                \<lparr>dpe_timestamp = de_to_timestamp env (time_now env n1), dpe_node = dn_fully_qualified_name n1,
                 dpe_new_parameters = [], dpe_changed_parameters = [],
                 dpe_deleted_parameters = [\<lparr>rp_name = name, rp_value = raw_from_value deleted_param\<rparr>]\<rparr> n1))"

definition has_parameter :: "string \<Rightarrow> ('q, 't) dds_node \<Rightarrow> bool" where
  "has_parameter name n \<longleftrightarrow> map_of (dn_parameters n) name \<noteq> None"

definition node_get_parameter :: "string \<Rightarrow> ('q, 't) dds_node \<Rightarrow> parameter_value option" where
  "node_get_parameter name n = map_of (dn_parameters n) name"

definition node_list_parameters :: "('q, 't) dds_node \<Rightarrow> string list" where
  "node_list_parameters n = map fst (dn_parameters n)"

subsection \<open>Creating entities\<close>

definition participant_create_topic :: "('q, 't) dds_env \<Rightarrow> string \<Rightarrow> string \<Rightarrow> 'q \<Rightarrow> ('q, 't, 'q dds_topic) dnode_op" where
  "participant_create_topic env name type_name qos n =
     (let t = \<lparr>dt_name = name, dt_type = type_name, dt_qos = qos\<rparr>
      in if de_topic_ok env t then (Ok t, n\<lparr>dn_calls := dn_calls n @ [CreateTopic t]\<rparr>) else (Err CreateErr, n))"

definition context_create_writer :: "('q, 't) dds_env \<Rightarrow> 'q dds_topic \<Rightarrow> 'q option \<Rightarrow> ('q, 't, guid) dnode_op" where
  "context_create_writer env topic qos n =
     (case de_new_writer env (dn_calls n) topic of
        None \<Rightarrow> (Err CreateErr, n)
      | Some g \<Rightarrow> (Ok g, n\<lparr>dn_calls := dn_calls n @ [CreateWriter topic qos g]\<rparr>))"

definition context_create_reader :: "('q, 't) dds_env \<Rightarrow> 'q dds_topic \<Rightarrow> 'q option \<Rightarrow> ('q, 't, guid) dnode_op" where
  "context_create_reader env topic qos n =
     (case de_new_reader env (dn_calls n) topic of
        None \<Rightarrow> (Err CreateErr, n)
      | Some g \<Rightarrow> (Ok g, n\<lparr>dn_calls := dn_calls n @ [CreateReader topic qos g]\<rparr>))"

definition dds_create_topic :: "('q, 't) dds_env \<Rightarrow> name \<Rightarrow> message_type_name \<Rightarrow> 'q \<Rightarrow> ('q, 't, 'q dds_topic) dnode_op" where
  "dds_create_topic env topic_name type_name qos n =
     dnode_bind (dnode_unwrap (ok_or () (to_dds_name topic_name ''rt'' (dn_name n) []))) (\<lambda>dds_name.
       participant_create_topic env dds_name (dds_msg_type type_name) qos) n"

definition dds_create_subscription :: "('q, 't) dds_env \<Rightarrow> 'q dds_topic \<Rightarrow> 'q option \<Rightarrow> ('q, 't, guid) dnode_op" where
  "dds_create_subscription env topic qos =
     dnode_bind (context_create_reader env topic qos) (\<lambda>g n. (Ok g, dn_add_reader env (node_gid n g) n))"

definition dds_create_publisher :: "('q, 't) dds_env \<Rightarrow> 'q dds_topic \<Rightarrow> 'q option \<Rightarrow> ('q, 't, guid) dnode_op" where
  "dds_create_publisher env topic qos =
     dnode_bind (context_create_writer env topic qos) (\<lambda>g n. (Ok g, dn_add_writer env (node_gid n g) n))"

definition create_simpledatareader :: "('q, 't) dds_env \<Rightarrow> 'q dds_topic \<Rightarrow> 'q option \<Rightarrow> ('q, 't, guid) dnode_op" where
  "create_simpledatareader env topic qos =
     dnode_bind (context_create_reader env topic qos) (\<lambda>g n. (Ok g, dn_add_reader env (node_gid n g) n))"

definition create_datawriter :: "('q, 't) dds_env \<Rightarrow> 'q dds_topic \<Rightarrow> 'q option \<Rightarrow> ('q, 't, guid) dnode_op" where
  "create_datawriter env topic qos =
     dnode_bind (context_create_writer env topic qos) (\<lambda>g n. (Ok g, dn_add_writer env (node_gid n g) n))"

text \<open>The request and reply topics of a service.\<close>

definition service_topics :: "('q, 't) dds_env \<Rightarrow> name \<Rightarrow> service_type_name \<Rightarrow> 'q \<Rightarrow> 'q \<Rightarrow> ('q, 't, 'q dds_topic \<times> 'q dds_topic) dnode_op" where
  "service_topics env service_name service_type request_qos response_qos n =
     dnode_bind (dnode_unwrap (ok_or () (to_dds_name service_name ''rq'' (dn_name n) ''Request''))) (\<lambda>rq_name.
     dnode_bind (participant_create_topic env rq_name (dds_request_type service_type) request_qos) (\<lambda>rq_topic n.
     dnode_bind (dnode_unwrap (ok_or () (to_dds_name service_name ''rr'' (dn_name n) ''Reply''))) (\<lambda>rs_name.
     dnode_bind (participant_create_topic env rs_name (dds_response_type service_type) response_qos) (\<lambda>rs_topic.
       dnode_return (rq_topic, rs_topic))) n)) n"

definition client_new_on :: "('q, 't) dds_env \<Rightarrow> service_mapping \<Rightarrow> 'q dds_topic \<Rightarrow> 'q dds_topic \<Rightarrow> 'q option \<Rightarrow> 'q option \<Rightarrow> ('q, 't, dds_client) dnode_op" where
  "client_new_on env mapping request_topic response_topic qos_request qos_response =
     dnode_bind (create_datawriter env request_topic qos_request) (\<lambda>sender.
     dnode_bind (create_simpledatareader env response_topic qos_response) (\<lambda>_.
       dnode_return (dds_client_new (de_lib env) mapping sender)))"

definition server_new_on :: "('q, 't) dds_env \<Rightarrow> service_mapping \<Rightarrow> 'q dds_topic \<Rightarrow> 'q dds_topic \<Rightarrow> 'q option \<Rightarrow> 'q option \<Rightarrow> ('q, 't, dds_server) dnode_op" where
  "server_new_on env mapping request_topic response_topic qos_request qos_response =
     dnode_bind (create_simpledatareader env request_topic qos_request) (\<lambda>_.
     dnode_bind (create_datawriter env response_topic qos_response) (\<lambda>_.
       dnode_return \<lparr>dv_service_mapping = mapping, dv_written = []\<rparr>))"

definition dds_create_client :: "('q, 't) dds_env \<Rightarrow> service_mapping \<Rightarrow> name \<Rightarrow> service_type_name \<Rightarrow> 'q \<Rightarrow> 'q \<Rightarrow> ('q, 't, dds_client) dnode_op" where
  "dds_create_client env mapping service_name service_type request_qos response_qos =
     dnode_bind (service_topics env service_name service_type request_qos response_qos) (\<lambda>(rq_topic, rs_topic).
       client_new_on env mapping rq_topic rs_topic (Some request_qos) (Some response_qos))"

definition dds_create_server :: "('q, 't) dds_env \<Rightarrow> service_mapping \<Rightarrow> name \<Rightarrow> service_type_name \<Rightarrow> 'q \<Rightarrow> 'q \<Rightarrow> ('q, 't, dds_server) dnode_op" where
  "dds_create_server env mapping service_name service_type request_qos response_qos =
     dnode_bind (service_topics env service_name service_type request_qos response_qos) (\<lambda>(rq_topic, rs_topic).
       server_new_on env mapping rq_topic rs_topic (Some request_qos) (Some response_qos))"

definition dds_create_raw_server :: "('q, 't) dds_env \<Rightarrow> name \<Rightarrow> service_type_name \<Rightarrow> 'q \<Rightarrow> 'q \<Rightarrow> ('q, 't, dds_server) dnode_op" where
  "dds_create_raw_server env service_name service_type request_qos response_qos =
     dnode_bind (service_topics env service_name service_type request_qos response_qos) (\<lambda>(rq_topic, rs_topic).
       server_new_on env Enhanced rq_topic rs_topic (Some request_qos) (Some response_qos))"

definition dds_create_raw_publisher :: "('q, 't) dds_env \<Rightarrow> 'q dds_topic \<Rightarrow> 'q option \<Rightarrow> ('q, 't, guid) dnode_op" where
  "dds_create_raw_publisher env topic qos = create_datawriter env topic qos"

definition dds_create_raw_subscription :: "('q, 't) dds_env \<Rightarrow> 'q dds_topic \<Rightarrow> 'q option \<Rightarrow> ('q, 't, guid) dnode_op" where
  "dds_create_raw_subscription env topic qos = create_simpledatareader env topic qos"

text \<open>The QoS policies of an action, for a client and for a server.\<close>

record 'q action_qos =
  aq_goal_service :: 'q
  aq_result_service :: 'q
  aq_cancel_service :: 'q
  aq_feedback :: 'q
  aq_status :: 'q

definition dds_create_action_client :: "('q, 't) dds_env \<Rightarrow> service_mapping \<Rightarrow> name \<Rightarrow> action_type_name \<Rightarrow> 'q action_qos \<Rightarrow> ('q, 't, dds_action_client \<times> guid \<times> guid) dnode_op" where
  "dds_create_action_client env mapping action_name action_type qos =
     (let services_base_name = name_push action_name ''_action''
      in dnode_bind (dds_create_client env mapping (name_push services_base_name ''send_goal'')
           (dds_action_service action_type ''_SendGoal'') (aq_goal_service qos) (aq_goal_service qos)) (\<lambda>goal.
         dnode_bind (dds_create_client env mapping (name_push services_base_name ''cancel_goal'')
           (service_type_name_new ''action_msgs'' ''CancelGoal'') (aq_cancel_service qos) (aq_cancel_service qos)) (\<lambda>cancel.
         dnode_bind (dds_create_client env mapping (name_push services_base_name ''get_result'')
           (dds_action_service action_type ''_GetResult'') (aq_result_service qos) (aq_result_service qos)) (\<lambda>result.
         dnode_bind (dds_create_topic env (name_push services_base_name ''feedback'')
           (dds_action_topic action_type ''_FeedbackMessage'') (aq_feedback qos)) (\<lambda>feedback_topic.
         dnode_bind (dds_create_subscription env feedback_topic (Some (aq_feedback qos))) (\<lambda>feedback.
         dnode_bind (dds_create_topic env (name_push services_base_name ''status'')
           (message_type_name_new ''action_msgs'' ''GoalStatusArray'') (aq_status qos)) (\<lambda>status_topic.
         dnode_bind (dds_create_subscription env status_topic (Some (aq_status qos))) (\<lambda>status.
           dnode_return (\<lparr>my_goal_client = goal, my_cancel_client = cancel, my_result_client = result\<rparr>, feedback, status)))))))))"

definition dds_create_action_server :: "('q, 't) dds_env \<Rightarrow> service_mapping \<Rightarrow> name \<Rightarrow> action_type_name \<Rightarrow> 'q action_qos \<Rightarrow> ('q, 't, 'f dds_action_server) dnode_op" where
  "dds_create_action_server env mapping action_name action_type qos =
     (let services_base_name = name_push action_name ''_action''
      in dnode_bind (dds_create_server env mapping (name_push services_base_name ''send_goal'')
           (dds_action_service action_type ''_SendGoal'') (aq_goal_service qos) (aq_goal_service qos)) (\<lambda>goal.
         dnode_bind (dds_create_server env mapping (name_push services_base_name ''cancel_goal'')
           (service_type_name_new ''action_msgs'' ''CancelGoal'') (aq_cancel_service qos) (aq_cancel_service qos)) (\<lambda>cancel.
         dnode_bind (dds_create_server env mapping (name_push services_base_name ''get_result'')
           (dds_action_service action_type ''_GetResult'') (aq_result_service qos) (aq_result_service qos)) (\<lambda>result.
         dnode_bind (dds_create_topic env (name_push services_base_name ''feedback'')
           (dds_action_topic action_type ''_FeedbackMessage'') (aq_feedback qos)) (\<lambda>feedback_topic.
         dnode_bind (dds_create_publisher env feedback_topic (Some (aq_feedback qos))) (\<lambda>feedback.
         dnode_bind (dds_create_topic env (name_push services_base_name ''status'')
           (message_type_name_new ''action_msgs'' ''GoalStatusArray'') (aq_status qos)) (\<lambda>status_topic.
         dnode_bind (dds_create_publisher env status_topic (Some (aq_status qos))) (\<lambda>status.
           dnode_return \<lparr>my_goal_server = goal, my_cancel_server = cancel, my_result_server = result,
             my_feedback_publisher = \<lparr>dp_guid = feedback, dp_written = []\<rparr>,
             my_status_publisher = \<lparr>dp_guid = status, dp_written = []\<rparr>\<rparr>))))))))"

definition dds_create_raw_action_server :: "('q, 't) dds_env \<Rightarrow> name \<Rightarrow> action_type_name \<Rightarrow> 'q action_qos \<Rightarrow> ('q, 't, dds_raw_action_server) dnode_op" where
  "dds_create_raw_action_server env action_name action_type qos =
     (let services_base_name = name_push action_name ''_action''
      in dnode_bind (dds_create_raw_server env (name_push services_base_name ''send_goal'')
           (dds_action_service action_type ''_SendGoal'') (aq_goal_service qos) (aq_goal_service qos)) (\<lambda>goal.
         dnode_bind (dds_create_server env Enhanced (name_push services_base_name ''cancel_goal'')
           (service_type_name_new ''action_msgs'' ''CancelGoal'') (aq_cancel_service qos) (aq_cancel_service qos)) (\<lambda>cancel.
         dnode_bind (dds_create_raw_server env (name_push services_base_name ''get_result'')
           (dds_action_service action_type ''_GetResult'') (aq_result_service qos) (aq_result_service qos)) (\<lambda>result.
         dnode_bind (dds_create_topic env (name_push services_base_name ''feedback'')
           (dds_action_topic action_type ''_FeedbackMessage'') (aq_feedback qos)) (\<lambda>feedback_topic.
         dnode_bind (dds_create_raw_publisher env feedback_topic (Some (aq_feedback qos))) (\<lambda>feedback.
         dnode_bind (dds_create_topic env (name_push services_base_name ''status'')
           (message_type_name_new ''action_msgs'' ''GoalStatusArray'') (aq_status qos)) (\<lambda>status_topic.
         dnode_bind (dds_create_publisher env status_topic (Some (aq_status qos))) (\<lambda>status.
           dnode_return \<lparr>goal_server = goal, cancel_server = cancel, result_server = result,
             feedback_publisher = \<lparr>dp_guid = feedback, dp_written = []\<rparr>,
             status_publisher = \<lparr>dp_guid = status, dp_written = []\<rparr>\<rparr>))))))))"

subsection \<open>Creating and dropping the node\<close>

text \<open>The variants with type hashes ignore them: DDS carries none. They exist so that one program can use
  either backend.\<close>

definition dds_create_raw_publisher_with_type_hash :: "('q, 't) dds_env \<Rightarrow> 'q dds_topic \<Rightarrow> 'q option \<Rightarrow> string \<Rightarrow> ('q, 't, guid) dnode_op" where
  "dds_create_raw_publisher_with_type_hash env topic qos hash = dds_create_raw_publisher env topic qos"

definition dds_create_raw_server_with_type_hash :: "('q, 't) dds_env \<Rightarrow> name \<Rightarrow> service_type_name \<Rightarrow> 'q \<Rightarrow> 'q \<Rightarrow> string \<Rightarrow> ('q, 't, dds_server) dnode_op" where
  "dds_create_raw_server_with_type_hash env service_name service_type request_qos response_qos hash =
     dds_create_raw_server env service_name service_type request_qos response_qos"

definition dds_create_raw_action_server_with_type_hashes :: "('q, 't) dds_env \<Rightarrow> name \<Rightarrow> action_type_name \<Rightarrow> 'q action_qos \<Rightarrow> action_type_hashes \<Rightarrow>
    ('q, 't, dds_raw_action_server) dnode_op" where
  "dds_create_raw_action_server_with_type_hashes env action_name action_type qos hashes =
     dds_create_raw_action_server env action_name action_type qos"

definition stop_spinner :: "('q, 't) dds_node \<Rightarrow> ('q, 't) dds_node" where
  "stop_spinner n =
     (case dn_stop_spin_sender n of
        None \<Rightarrow> n
      | Some pending \<Rightarrow> if pending < 1 then n\<lparr>dn_stop_spin_sender := Some (pending + 1)\<rparr> else n)"

definition drop_node :: "('q, 't) dds_env \<Rightarrow> ('q, 't) dds_node \<Rightarrow> ('q, 't) dds_node" where
  "drop_node env n =
     (let n' = stop_spinner n
      in n'\<lparr>dn_context := remove_node (de_info_ok env) (dn_fully_qualified_name n') (dn_context n')\<rparr>)"

definition declared_parameters :: "node_options \<Rightarrow> parameter_store" where
  "declared_parameters opts =
     fold (\<lambda>p m. bt_insert (par_name p) (par_value p) m)
       (no_declared_parameters opts @ [\<lparr>par_name = ''use_sim_time'', par_value = Boolean False\<rparr>]) []"

fun check_parameters :: "parameter_store \<Rightarrow> ('q, 't, unit) dnode_op" where
  "check_parameters [] n = (Ok (), n)"
| "check_parameters ((name, v) # ps) n =
     (case validate_parameter_on_set name v n of
        Inl e \<Rightarrow> (Err (BadParameter e), n)
      | Inr _ \<Rightarrow>
          (case execute_parameter_set_actions name v n of
             (Inl e, n1) \<Rightarrow> (Err (BadParameter e), n1)
           | (Inr _, n1) \<Rightarrow> check_parameters ps n1))"

definition initial_node :: "node_name \<Rightarrow> node_options \<Rightarrow> dds_context \<Rightarrow> 'q dds_call list \<Rightarrow> guid \<Rightarrow> ('q, 't) dds_node" where
  "initial_node name opts ctx calls events_writer =
     \<lparr>dn_name = name, dn_allow_undeclared = no_allow_undeclared_parameters opts,
      dn_start_parameter_services = no_start_parameter_services opts, dn_context = ctx, dn_calls = calls,
      dn_readers = [], dn_writers = [], dn_suppress = False, dn_readers_to_remote_writers = [],
      dn_writers_to_remote_readers = [], dn_external_nodes = [], dn_stop_spin_sender = None,
      dn_status_event_senders = [], dn_rosout_writer = None, dn_rosout_reader = None,
      dn_parameter_events_writer = \<lparr>dp_guid = events_writer, dp_written = []\<rparr>,
      dn_parameters = declared_parameters opts, dn_parameter_validator = no_parameter_validator opts,
      dn_parameter_set_action = no_parameter_set_action opts, dn_use_sim_time = False, dn_sim_time = ROS_TIME_ZERO\<rparr>"

definition set_up_node :: "('q, 't) dds_env \<Rightarrow> node_options \<Rightarrow> ('q, 't, unit) dnode_op" where
  "set_up_node env opts =
     dnode_bind (\<lambda>n. (Ok (), suppress_node_info_updates env True n)) (\<lambda>_.
     dnode_bind (if no_enable_rosout opts
       then dnode_bind (dds_create_publisher env (de_rosout_topic env) None) (\<lambda>g n. (Ok (), n\<lparr>dn_rosout_writer := Some g\<rparr>))
       else dnode_return ()) (\<lambda>_.
     dnode_bind (if no_enable_rosout_reading opts
       then dnode_bind (dds_create_subscription env (de_rosout_topic env) None) (\<lambda>g n. (Ok (), n\<lparr>dn_rosout_reader := Some g\<rparr>))
       else dnode_return ()) (\<lambda>_.
     dnode_bind (\<lambda>n. check_parameters (dn_parameters n) n) (\<lambda>_ n.
       (Ok (), suppress_node_info_updates env False n)))))"

text \<open>A node whose set-up fails is dropped.\<close>

definition node_new :: "('q, 't) dds_env \<Rightarrow> node_name \<Rightarrow> node_options \<Rightarrow> dds_context \<Rightarrow> 'q dds_call list \<Rightarrow>
    (node_error + ('q, 't) dds_node) \<times> dds_context" where
  "node_new env name opts ctx calls =
     (case de_new_writer env calls (de_parameter_events_topic env) of
        None \<Rightarrow> (Err CreateErr, ctx)
      | Some g \<Rightarrow>
          (case set_up_node env opts (initial_node name opts ctx (calls @ [CreateWriter (de_parameter_events_topic env) None g]) g) of
             (Inl e, n) \<Rightarrow> (Err e, dn_context (drop_node env n))
           | (Inr _, n) \<Rightarrow> (Ok n, dn_context n)))"

subsection \<open>Creating the spinner\<close>

record parameter_servers =
  pr_get_parameters :: dds_server
  pr_get_parameter_types :: dds_server
  pr_set_parameters :: dds_server
  pr_set_parameters_atomically :: dds_server
  pr_list_parameters :: dds_server
  pr_describe_parameters :: dds_server

record 'q spinner =
  sp_parameter_servers :: "parameter_servers option"
  sp_clock_topic :: "'q dds_topic"

definition parameter_server :: "('q, 't) dds_env \<Rightarrow> string \<Rightarrow> string \<Rightarrow> ('q, 't, dds_server) dnode_op" where
  "parameter_server env base type_base n =
     dnode_bind (dnode_unwrap (name_new (dn_fully_qualified_name n) base)) (\<lambda>nm.
       dds_create_server env Enhanced nm (service_type_name_new ''rcl_interfaces'' type_base) (de_service_qos env) (de_service_qos env)) n"

definition create_parameter_servers :: "('q, 't) dds_env \<Rightarrow> ('q, 't, parameter_servers) dnode_op" where
  "create_parameter_servers env =
     dnode_bind (parameter_server env ''get_parameters'' ''GetParameters'') (\<lambda>get.
     dnode_bind (parameter_server env ''get_parameter_types'' ''GetParameterTypes'') (\<lambda>types.
     dnode_bind (parameter_server env ''set_parameters'' ''SetParameters'') (\<lambda>set_p.
     dnode_bind (parameter_server env ''set_parameters_atomically'' ''SetParametersAtomically'') (\<lambda>set_at.
     dnode_bind (parameter_server env ''list_parameters'' ''ListParameters'') (\<lambda>list_p.
     dnode_bind (parameter_server env ''describe_parameters'' ''DescribeParameters'') (\<lambda>describe.
       dnode_return \<lparr>pr_get_parameters = get, pr_get_parameter_types = types, pr_set_parameters = set_p,
         pr_set_parameters_atomically = set_at, pr_list_parameters = list_p, pr_describe_parameters = describe\<rparr>))))))"

definition create_spinner :: "('q, 't) dds_env \<Rightarrow> ('q, 't, 'q spinner) dnode_op" where
  "create_spinner env n =
     (if dn_stop_spin_sender n \<noteq> None then (Err NodePanic, n)
      else
        dnode_bind (\<lambda>n. (Ok (), suppress_node_info_updates env True (n\<lparr>dn_stop_spin_sender := Some 0\<rparr>))) (\<lambda>_.
        dnode_bind (if dn_start_parameter_services n
          then dnode_bind (create_parameter_servers env) (\<lambda>s. dnode_return (Some s)) else dnode_return None) (\<lambda>servers.
        dnode_bind (dnode_unwrap (name_new ''/'' ''clock'')) (\<lambda>clock.
        dnode_bind (dds_create_topic env clock (message_type_name_new ''builtin_interfaces'' ''Time'')
          (de_default_subscription_qos env)) (\<lambda>clock_topic n.
          (Ok \<lparr>sp_parameter_servers = servers, sp_clock_topic = clock_topic\<rparr>, suppress_node_info_updates env False n))))) n)"

definition have_spinner :: "('q, 't) dds_node \<Rightarrow> bool" where
  "have_spinner n \<longleftrightarrow> dn_stop_spin_sender n \<noteq> None"

end
