(* ===== verification/Dds_Spinner.thy ===== *)
theory Dds_Spinner
  imports Dds_Node "HOL-Library.Multiset"
begin

text \<open>
  The background loop of a DDS node (\<open>Spinner::spin\<close> of \<open>node.rs\<close>): simulated time, the parameter
  services, ROS and DDS discovery, the status channels, and the futures that wait for a match.
  \<open>futures::select\<close> takes the events in the order of a list; each step runs on the state the spinner
  shares with its node. The codecs of the service responses and the writers' outcomes are arguments.
\<close>

subsection \<open>Status channels\<close>

definition STATUS_CAPACITY :: nat where "STATUS_CAPACITY = 8"

text \<open>\<open>try_send\<close>: \<open>Err True\<close> is a closed channel, \<open>Err False\<close> a full one.\<close>

definition try_send :: "node_event \<Rightarrow> status_channel \<Rightarrow> (bool + unit) \<times> status_channel" where
  "try_send ev c =
     (if \<not> sc_open c then (Err True, c)
      else if STATUS_CAPACITY \<le> length (sc_queue c) then (Err False, c)
      else (Ok (), c\<lparr>sc_queue := sc_queue c @ [ev]\<rparr>))"

definition swap_remove :: "'a list \<Rightarrow> nat \<Rightarrow> 'a list" where
  "swap_remove xs i = butlast (xs[i := last xs])"

definition send_to_all :: "node_event \<Rightarrow> status_channel list \<Rightarrow> status_channel list" where
  "send_to_all ev senders =
     (let sent = map (\<lambda>c. snd (try_send ev c)) senders;
          closed = filter (\<lambda>i. fst (try_send ev (senders ! i)) = Err True) [0..<length senders]
      in fold (\<lambda>i xs. swap_remove xs i) (rev closed) sent)"

definition send_status_event :: "node_event \<Rightarrow> ('q, 't) dds_node \<Rightarrow> ('q, 't) dds_node" where
  "send_status_event ev n = n\<lparr>dn_status_event_senders := send_to_all ev (dn_status_event_senders n)\<rparr>"

definition status_receiver :: "('q, 't, status_channel) dnode_op" where
  "status_receiver n =
     (if have_spinner n
      then let c = \<lparr>sc_queue = [], sc_open = True\<rparr>
           in (Ok c, n\<lparr>dn_status_event_senders := dn_status_event_senders n @ [c]\<rparr>)
      else (Err NodePanic, n))"

subsection \<open>Match tables\<close>

definition add_match :: "guid \<Rightarrow> guid \<Rightarrow> match_table \<Rightarrow> match_table" where
  "add_match local remote m =
     (case map_of m local of
        Some s \<Rightarrow> bt_insert local (insort_insert remote s) m
      | None \<Rightarrow> bt_insert local [remote] m)"

definition remove_remote :: "guid \<Rightarrow> match_table \<Rightarrow> match_table" where
  "remove_remote guid m = map (\<lambda>(k, s). (k, filter (\<lambda>r. r \<noteq> guid) s)) m"

definition get_publisher_count :: "guid \<Rightarrow> ('q, 't) dds_node \<Rightarrow> nat" where
  "get_publisher_count subscription_guid n =
     (case map_of (dn_readers_to_remote_writers n) subscription_guid of Some s \<Rightarrow> length s | None \<Rightarrow> 0)"

definition get_subscription_count :: "guid \<Rightarrow> ('q, 't) dds_node \<Rightarrow> nat" where
  "get_subscription_count publisher_guid n =
     (case map_of (dn_writers_to_remote_readers n) publisher_guid of Some s \<Rightarrow> length s | None \<Rightarrow> 0)"

fun handle_dp_status :: "dp_status \<Rightarrow> ('q, 't) dds_node \<Rightarrow> ('q, 't) dds_node" where
  "handle_dp_status (RemoteReaderMatched local_writer remote_reader) n =
     n\<lparr>dn_writers_to_remote_readers := add_match local_writer remote_reader (dn_writers_to_remote_readers n)\<rparr>"
| "handle_dp_status (RemoteWriterMatched local_reader remote_writer) n =
     n\<lparr>dn_readers_to_remote_writers := add_match local_reader remote_writer (dn_readers_to_remote_writers n)\<rparr>"
| "handle_dp_status (ReaderLost guid) n =
     n\<lparr>dn_writers_to_remote_readers := remove_remote guid (dn_writers_to_remote_readers n)\<rparr>"
| "handle_dp_status (WriterLost guid) n =
     n\<lparr>dn_readers_to_remote_writers := remove_remote guid (dn_readers_to_remote_writers n)\<rparr>"
| "handle_dp_status OtherStatus n = n"

subsection \<open>Waiting for a match\<close>

text \<open>\<open>MatchWait\<close>: it polls its channel until it is empty, then looks into the table.\<close>

record match_wait =
  mw_local :: guid
  mw_stream :: bool

definition matched :: "guid \<Rightarrow> match_table \<Rightarrow> bool" where
  "matched local m \<longleftrightarrow> (case map_of m local of Some remotes \<Rightarrow> remotes \<noteq> [] | None \<Rightarrow> False)"

text \<open>A poll with the events in the channel and whether its senders are gone: the outcome, the future
  afterwards and what is left in the channel.\<close>

definition match_wait_poll :: "match_table \<Rightarrow> node_event list \<Rightarrow> bool \<Rightarrow> match_wait \<Rightarrow> unit poll \<times> match_wait \<times> node_event list" where
  "match_wait_poll m queue senders_gone w =
     (let (w', queue') = (if mw_stream w then (w\<lparr>mw_stream := \<not> senders_gone\<rparr>, []) else (w, queue))
      in (if matched (mw_local w') m then Ready () else Pending, w', queue'))"

definition wait_for_writer :: "guid \<Rightarrow> ('q, 't, match_wait) dnode_op" where
  "wait_for_writer reader = dnode_bind status_receiver (\<lambda>_. dnode_return \<lparr>mw_local = reader, mw_stream = True\<rparr>)"

definition wait_for_reader :: "guid \<Rightarrow> ('q, 't, match_wait) dnode_op" where
  "wait_for_reader writer = dnode_bind status_receiver (\<lambda>_. dnode_return \<lparr>mw_local = writer, mw_stream = True\<rparr>)"

text \<open>The operations of publishers, subscriptions and clients that wait. A client waits for both its
  endpoints with \<open>join\<close>: a part that has completed is not polled again.\<close>

definition publisher_wait_for_subscription :: "'m dds_publisher \<Rightarrow> ('q, 't, match_wait) dnode_op" where
  "publisher_wait_for_subscription p = wait_for_reader (dp_guid p)"

definition subscription_wait_for_publisher :: "guid \<Rightarrow> ('q, 't, match_wait) dnode_op" where
  "subscription_wait_for_publisher reader_guid = wait_for_writer reader_guid"

datatype joined = NotDone match_wait | JoinDone

fun joined_poll :: "match_table \<Rightarrow> node_event list \<Rightarrow> bool \<Rightarrow> joined \<Rightarrow> joined \<times> node_event list" where
  "joined_poll m queue gone JoinDone = (JoinDone, queue)"
| "joined_poll m queue gone (NotDone w) =
     (case match_wait_poll m queue gone w of
        (Ready _, _, queue') \<Rightarrow> (JoinDone, queue')
      | (Pending, w', queue') \<Rightarrow> (NotDone w', queue'))"

definition wait_for_service :: "dds_client \<Rightarrow> guid \<Rightarrow> ('q, 't, joined \<times> joined) dnode_op" where
  "wait_for_service c response_receiver =
     dnode_bind (wait_for_reader (dc_client_guid c)) (\<lambda>r.
     dnode_bind (wait_for_writer response_receiver) (\<lambda>w. dnode_return (NotDone r, NotDone w)))"

text \<open>A poll of the joined futures, with the two match tables and the two channels as they are then.\<close>

definition service_poll :: "match_table \<times> match_table \<Rightarrow> node_event list \<times> node_event list \<Rightarrow> bool \<Rightarrow> joined \<times> joined \<Rightarrow>
    unit poll \<times> (joined \<times> joined) \<times> (node_event list \<times> node_event list)" where
  "service_poll tables queues gone j =
     (let (a, qa) = joined_poll (fst tables) (fst queues) gone (fst j);
          (b, qb) = joined_poll (snd tables) (snd queues) gone (snd j)
      in (if a = JoinDone \<and> b = JoinDone then Ready () else Pending, (a, b), (qa, qb)))"

subsection \<open>The loop\<close>

datatype spin_event =
    StopSpin
  | ClockMsg "read_error + bi_time"
  | GetParameters "read_error + (rmw_request_id \<times> string list)"
  | GetParameterTypes "read_error + (rmw_request_id \<times> string list)"
  | SetParameters "read_error + (rmw_request_id \<times> raw_parameter list)"
  | SetParametersAtomically "read_error + (rmw_request_id \<times> raw_parameter list)"
  | ListParameters "read_error + (rmw_request_id \<times> list_parameters_request)"
  | DescribeParameters "read_error + (rmw_request_id \<times> string list)"
  | RosDiscovery "read_error + participant_entities_info"
  | DdsStatus dp_status

record spin_codecs =
  sk_values :: "raw_parameter_value list dds_cdr"
  sk_types :: "8 word list dds_cdr"
  sk_set_results :: "raw_set_parameters_result list dds_cdr"
  sk_list_result :: "list_parameters_result dds_cdr"
  sk_descriptors :: "raw_parameter_descriptor list dds_cdr"
  sk_write :: "dds_sample \<Rightarrow> sample_identity option"

text \<open>Answering on one of the parameter services; without the services no such event occurs.\<close>

definition respond :: "('q, 't) dds_env \<Rightarrow> spin_codecs \<Rightarrow> 'r dds_cdr \<Rightarrow> (parameter_servers \<Rightarrow> dds_server) \<Rightarrow>
    (dds_server \<Rightarrow> parameter_servers \<Rightarrow> parameter_servers) \<Rightarrow> rmw_request_id \<Rightarrow> 'r \<Rightarrow> 'q spinner \<Rightarrow> 'q spinner" where
  "respond env k cdr get_server put_server req_id response sp =
     (case sp_parameter_servers sp of
        None \<Rightarrow> sp
      | Some servers \<Rightarrow>
          sp\<lparr>sp_parameter_servers := Some (put_server
            (snd (dds_async_send_response (de_lib env) cdr (sk_write k) req_id response (get_server servers))) servers)\<rparr>)"

definition handle_describe_request :: "('q, 't) dds_env \<Rightarrow> spin_codecs \<Rightarrow> rmw_request_id \<Rightarrow> string list \<Rightarrow> ('q, 't) dds_node \<Rightarrow> 'q spinner \<Rightarrow> 'q spinner" where
  "handle_describe_request env k req_id names n sp =
     respond env k (sk_descriptors k) pr_describe_parameters (\<lambda>v. pr_describe_parameters_update (\<lambda>_. v)) req_id
       (describe_values (dn_parameters n) names) sp"

definition handle_ros_discovery :: "participant_entities_info \<Rightarrow> ('q, 't) dds_node \<Rightarrow> ('q, 't) dds_node" where
  "handle_ros_discovery part_update n =
     send_status_event (EventROS part_update)
       (n\<lparr>dn_external_nodes := bt_insert (pi_gid part_update) (pi_node_entities_info_seq part_update) (dn_external_nodes n)\<rparr>)"

fun spinner_step :: "('q, 't) dds_env \<Rightarrow> spin_codecs \<Rightarrow> spin_event \<Rightarrow> 'q spinner \<times> ('q, 't) dds_node \<Rightarrow> 'q spinner \<times> ('q, 't) dds_node" where
  "spinner_step env k (ClockMsg (Inr time)) (sp, n) = (sp, n\<lparr>dn_sim_time := ros_time_from_bi_time time\<rparr>)"
| "spinner_step env k (GetParameters (Inr (req_id, names))) (sp, n) =
     (respond env k (sk_values k) pr_get_parameters (\<lambda>v. pr_get_parameters_update (\<lambda>_. v)) req_id (get_values (dn_parameters n) names) sp, n)"
| "spinner_step env k (GetParameterTypes (Inr (req_id, names))) (sp, n) =
     (respond env k (sk_types k) pr_get_parameter_types (\<lambda>v. pr_get_parameter_types_update (\<lambda>_. v)) req_id (get_types (dn_parameters n) names) sp, n)"
| "spinner_step env k (SetParameters (Inr (req_id, params))) (sp, n) =
     (let (results, n') = set_each (spinner_set_parameter env) params n
      in (respond env k (sk_set_results k) pr_set_parameters (\<lambda>v. pr_set_parameters_update (\<lambda>_. v)) req_id results sp, n'))"
| "spinner_step env k (SetParametersAtomically (Inr (req_id, params))) (sp, n) =
     (respond env k (sk_set_results k) pr_set_parameters_atomically (\<lambda>v. pr_set_parameters_atomically_update (\<lambda>_. v)) req_id
        (refuse_atomically params) sp, n)"
| "spinner_step env k (ListParameters (Inr (req_id, req))) (sp, n) =
     (respond env k (sk_list_result k) pr_list_parameters (\<lambda>v. pr_list_parameters_update (\<lambda>_. v)) req_id (list_names (dn_parameters n) req) sp, n)"
| "spinner_step env k (DescribeParameters (Inr (req_id, names))) (sp, n) =
     (handle_describe_request env k req_id names n sp, n)"
| "spinner_step env k (RosDiscovery (Inr part_update)) (sp, n) =
     (sp, handle_ros_discovery part_update n)"
| "spinner_step env k (DdsStatus ev) (sp, n) = (sp, send_status_event (EventDDS ev) (handle_dp_status ev n))"
| "spinner_step env k _ s = s"

text \<open>\<open>spin\<close> over the events as they are selected, with those left when it stops.\<close>

fun dds_spin :: "('q, 't) dds_env \<Rightarrow> spin_codecs \<Rightarrow> spin_event list \<Rightarrow> 'q spinner \<times> ('q, 't) dds_node \<Rightarrow>
    ('q spinner \<times> ('q, 't) dds_node) \<times> spin_event list" where
  "dds_spin env k [] s = (s, [])"
| "dds_spin env k (StopSpin # evs) s = (s, evs)"
| "dds_spin env k (ev # evs) s = dds_spin env k evs (spinner_step env k ev s)"

text \<open>Before the loop the spinner subscribes to ROS discovery and to the clock, through the context and
  so without announcing the readers; when either fails it returns the error and never spins.\<close>

definition spinner_reader :: "('q, 't) dds_env \<Rightarrow> 'q dds_topic \<Rightarrow> ('q, 't, guid) dnode_op" where
  "spinner_reader env topic n =
     (case de_new_reader env (dn_calls n) topic of
        None \<Rightarrow> (Err CreateErr, n)
      | Some g \<Rightarrow> (Ok g, n\<lparr>dn_calls := dn_calls n @ [SpinReader topic None g]\<rparr>))"

definition spin_start :: "('q, 't) dds_env \<Rightarrow> 'q dds_topic \<Rightarrow> 'q spinner \<Rightarrow> ('q, 't, guid \<times> guid) dnode_op" where
  "spin_start env ros_discovery_topic sp =
     dnode_bind (spinner_reader env ros_discovery_topic) (\<lambda>ros_discovery_reader.
     dnode_bind (spinner_reader env (sp_clock_topic sp)) (\<lambda>ros_clock_reader.
       dnode_return (ros_discovery_reader, ros_clock_reader)))"

definition spinner_spin :: "('q, 't) dds_env \<Rightarrow> spin_codecs \<Rightarrow> 'q dds_topic \<Rightarrow> spin_event list \<Rightarrow> 'q spinner \<Rightarrow> ('q, 't) dds_node \<Rightarrow>
    (node_error + unit) \<times> 'q spinner \<times> ('q, 't) dds_node" where
  "spinner_spin env k ros_discovery_topic evs sp n =
     (case spin_start env ros_discovery_topic sp n of
        (Inl e, n') \<Rightarrow> (Err e, sp, n')
      | (Inr _, n') \<Rightarrow> (Ok (), fst (dds_spin env k evs (sp, n'))))"

subsection \<open>Status events\<close>

lemma swap_remove_nth: "i < j \<Longrightarrow> j < length xs \<Longrightarrow> swap_remove xs j ! i = xs ! i"
  by (cases "j = length xs - 1") (auto simp: swap_remove_def nth_butlast nth_list_update)

lemma length_swap_remove: "i < length xs \<Longrightarrow> length (swap_remove xs i) = length xs - 1"
  by (simp add: swap_remove_def)

lemma mset_swap_remove:
  assumes "i < length xs"
  shows "add_mset (xs ! i) (mset (swap_remove xs i)) = mset xs"
proof -
  have ne: "xs \<noteq> []" using assms by auto
  have ys: "xs[i := last xs] \<noteq> []" using ne by simp
  have last: "last (xs[i := last xs]) = last xs"
    using assms by (simp add: last_conv_nth ne nth_list_update)
  have "mset (xs[i := last xs]) = mset (butlast (xs[i := last xs])) + {#last xs#}"
    using append_butlast_last_id [OF ys] last by (metis mset_append mset_single_iff_right union_commute mset.simps)
  then have "mset (swap_remove xs i) = mset xs - {#xs ! i#}" using assms by (simp add: swap_remove_def mset_update)
  then show ?thesis using insert_DiffM [of "xs ! i" "mset xs"] assms by simp
qed

lemma mset_swap_remove_all:
  assumes "sorted_wrt (>) idx" and "\<forall>i\<in>set idx. i < length xs"
  shows "mset (fold (\<lambda>i xs. swap_remove xs i) idx xs) + mset (map ((!) xs) idx) = mset xs"
  using assms
proof (induction idx arbitrary: xs)
  case (Cons i idx)
  let ?ys = "swap_remove xs i"
  have i: "i < length xs" and less: "\<forall>j\<in>set idx. j < i" using Cons.prems by auto
  then have "\<forall>j\<in>set idx. j < length ?ys" by (auto simp: length_swap_remove)
  with Cons have "mset (fold (\<lambda>i xs. swap_remove xs i) idx ?ys) + mset (map ((!) ?ys) idx) = mset ?ys" by simp
  moreover have "map ((!) ?ys) idx = map ((!) xs) idx" using less i by (simp add: swap_remove_nth)
  ultimately show ?case using mset_swap_remove [OF i] by simp
qed simp

lemma mset_send_to_all:
  "mset (send_to_all ev senders) = mset (map (\<lambda>c. snd (try_send ev c)) (filter sc_open senders))"
proof -
  let ?sent = "map (\<lambda>c. snd (try_send ev c)) senders"
  let ?closed = "filter (\<lambda>i. fst (try_send ev (senders ! i)) = Err True) [0..<length senders]"
  have shut: "fst (try_send ev c) = Err True \<longleftrightarrow> \<not> sc_open c" for c by (simp add: try_send_def)
  have closed: "map ((!) ?sent) ?closed = map (\<lambda>c. snd (try_send ev c)) (filter (\<lambda>c. \<not> sc_open c) senders)"
  proof -
    have "filter (\<lambda>c. \<not> sc_open c) (map ((!) senders) [0..<length senders]) = map ((!) senders) ?closed"
      by (simp add: filter_map comp_def shut)
    then have "filter (\<lambda>c. \<not> sc_open c) senders = map ((!) senders) ?closed" by (simp add: map_nth)
    then show ?thesis by simp
  qed
  have "sorted_wrt (>) (rev ?closed)" by (simp add: sorted_wrt_rev sorted_wrt_filter)
  from mset_swap_remove_all [OF this, of ?sent]
  have "mset (send_to_all ev senders) + mset (map ((!) ?sent) ?closed) = mset ?sent"
    by (simp add: send_to_all_def Let_def rev_map [symmetric])
  moreover have "mset ?sent = mset (map (\<lambda>c. snd (try_send ev c)) (filter sc_open senders))
      + mset (map (\<lambda>c. snd (try_send ev c)) (filter (\<lambda>c. \<not> sc_open c) senders))"
    by (induction senders) auto
  ultimately show ?thesis using closed by simp
qed

subsection \<open>Properties of discovery\<close>

text \<open>A status event reaches every channel whose receiver still exists, unless the channel already
  holds eight events; the channels whose receivers are gone, and only they, are removed, although
  each removal moves the last channel into the gap.\<close>

lemma status_event_delivered:
  "mset (dn_status_event_senders (send_status_event ev n)) =
     mset (map (\<lambda>c. if length (sc_queue c) < 8 then c\<lparr>sc_queue := sc_queue c @ [ev]\<rparr> else c)
       (filter sc_open (dn_status_event_senders n)))"
proof -
  have eq: "map (\<lambda>c. snd (try_send ev c)) (filter sc_open cs) =
      map (\<lambda>c. if length (sc_queue c) < 8 then c\<lparr>sc_queue := sc_queue c @ [ev]\<rparr> else c) (filter sc_open cs)" for cs
    by (induction cs) (auto simp: try_send_def STATUS_CAPACITY_def)
  have "dn_status_event_senders (send_status_event ev n) = send_to_all ev (dn_status_event_senders n)"
    by (simp add: send_status_event_def)
  then show ?thesis by (simp only: mset_send_to_all eq)
qed

lemma channel_survives:
  assumes "c \<in> set cs" and "sc_open c"
  shows "snd (try_send ev c) \<in> set (send_to_all ev cs)"
proof -
  have "snd (try_send ev c) \<in># mset (send_to_all ev cs)"
    unfolding mset_send_to_all using assms by auto
  then show ?thesis by simp
qed

lemma channel_after_send:
  "sc_open c \<Longrightarrow> sc_open (snd (try_send ev c)) \<and> sc_queue (snd (try_send ev c)) \<noteq> []"
  by (auto simp: try_send_def STATUS_CAPACITY_def)

lemma matched_handle:
  "matched l (dn_readers_to_remote_writers (handle_dp_status ev n)) \<Longrightarrow> \<not> matched l (dn_readers_to_remote_writers n) \<Longrightarrow>
     \<exists>r. ev = RemoteWriterMatched l r"
  "matched l (dn_writers_to_remote_readers (handle_dp_status ev n)) \<Longrightarrow> \<not> matched l (dn_writers_to_remote_readers n) \<Longrightarrow>
     \<exists>r. ev = RemoteReaderMatched l r"
proof -
  have add: "matched l (add_match k r m) \<Longrightarrow> \<not> matched l m \<Longrightarrow> l = k" for k r m
    by (auto simp: matched_def add_match_def map_laws split: option.splits if_splits)
  have lost: "matched l (remove_remote g m) \<Longrightarrow> matched l m" for g m
    by (induction m) (auto simp: matched_def remove_remote_def split: option.splits if_splits)
  show "matched l (dn_readers_to_remote_writers (handle_dp_status ev n)) \<Longrightarrow> \<not> matched l (dn_readers_to_remote_writers n) \<Longrightarrow>
     \<exists>r. ev = RemoteWriterMatched l r"
    by (cases ev) (auto dest: add lost)
  show "matched l (dn_writers_to_remote_readers (handle_dp_status ev n)) \<Longrightarrow> \<not> matched l (dn_writers_to_remote_readers n) \<Longrightarrow>
     \<exists>r. ev = RemoteReaderMatched l r"
    by (cases ev) (auto dest: add lost)
qed

text \<open>The state of a waiter between two polls: channels that are open, its own among them, are among the
  senders, and each of them holds an event once the endpoint is matched.\<close>

definition waiter_ok :: "guid \<Rightarrow> (('q, 't) dds_node \<Rightarrow> match_table) \<Rightarrow> ('q, 't) dds_node \<Rightarrow> bool" where
  "waiter_ok l table n \<longleftrightarrow> (\<exists>c\<in>set (dn_status_event_senders n). sc_open c)
     \<and> (matched l (table n) \<longrightarrow> (\<forall>c\<in>set (dn_status_event_senders n). sc_open c \<longrightarrow> sc_queue c \<noteq> []))"

lemma send_status_event_fields [simp]:
  "dn_readers_to_remote_writers (send_status_event ev n) = dn_readers_to_remote_writers n"
  "dn_writers_to_remote_readers (send_status_event ev n) = dn_writers_to_remote_readers n"
  "dn_parameters (send_status_event ev n) = dn_parameters n" "dn_use_sim_time (send_status_event ev n) = dn_use_sim_time n"
  "dn_allow_undeclared (send_status_event ev n) = dn_allow_undeclared n"
  "dn_parameter_validator (send_status_event ev n) = dn_parameter_validator n"
  "dn_status_event_senders (send_status_event ev n) = send_to_all ev (dn_status_event_senders n)"
  by (simp_all add: send_status_event_def)

lemma handle_dp_status_fields [simp]:
  "dn_status_event_senders (handle_dp_status ev n) = dn_status_event_senders n"
  "dn_parameters (handle_dp_status ev n) = dn_parameters n" "dn_use_sim_time (handle_dp_status ev n) = dn_use_sim_time n"
  "dn_allow_undeclared (handle_dp_status ev n) = dn_allow_undeclared n"
  "dn_parameter_validator (handle_dp_status ev n) = dn_parameter_validator n"
  by (cases ev; simp)+

lemma sent_channels:
  assumes "c \<in> set (send_to_all ev cs)"
  shows "sc_queue c \<noteq> []"
proof -
  have "c \<in># mset (send_to_all ev cs)" using assms by simp
  then show ?thesis unfolding mset_send_to_all using channel_after_send [of _ ev] by auto
qed

lemma waiter_after_send:
  assumes "c \<in> set (dn_status_event_senders n)" and "sc_open c"
  shows "waiter_ok l table (send_status_event ev n)"
  using channel_survives [OF assms, of ev] channel_after_send [OF assms(2), of ev] sent_channels [of _ ev]
  by (auto simp: waiter_ok_def)

lemma spinner_set_fields [simp]:
  "dn_status_event_senders (snd (spinner_set_parameter env p v n)) = dn_status_event_senders n"
  "dn_readers_to_remote_writers (snd (spinner_set_parameter env p v n)) = dn_readers_to_remote_writers n"
  "dn_writers_to_remote_readers (snd (spinner_set_parameter env p v n)) = dn_writers_to_remote_readers n"
  "dn_allow_undeclared (snd (spinner_set_parameter env p v n)) = dn_allow_undeclared n"
  "dn_parameter_validator (snd (spinner_set_parameter env p v n)) = dn_parameter_validator n"
  by (auto simp: spinner_set_parameter_def set_parameter_at_def execute_parameter_set_actions_def dn_publish_event_def Let_def
      split: sum.splits option.splits parameter_value.splits)

lemma set_each_keeps:
  assumes "\<And>p v n. f (snd (set_param p v n)) = f n"
  shows "f (snd (set_each set_param params n)) = f n"
  using assms by (induction params arbitrary: n) (simp_all add: Let_def case_prod_unfold)

lemmas set_each_spinner_fields =
  set_each_keeps [where f = dn_status_event_senders, OF spinner_set_fields(1)]
  set_each_keeps [where f = dn_readers_to_remote_writers, OF spinner_set_fields(2)]
  set_each_keeps [where f = dn_writers_to_remote_readers, OF spinner_set_fields(3)]
  set_each_keeps [where f = dn_allow_undeclared, OF spinner_set_fields(4)]
  set_each_keeps [where f = dn_parameter_validator, OF spinner_set_fields(5)]

text \<open>A step either tells the status channels or leaves them and the match tables alone.\<close>

lemma spinner_step_cases:
  obtains (told) ev m where "snd (spinner_step env k e (sp, n)) = send_status_event ev m"
      "dn_status_event_senders m = dn_status_event_senders n"
  | (quiet) "dn_status_event_senders (snd (spinner_step env k e (sp, n))) = dn_status_event_senders n"
      "dn_readers_to_remote_writers (snd (spinner_step env k e (sp, n))) = dn_readers_to_remote_writers n"
      "dn_writers_to_remote_readers (snd (spinner_step env k e (sp, n))) = dn_writers_to_remote_readers n"
proof (cases "\<exists>ev m. snd (spinner_step env k e (sp, n)) = send_status_event ev m \<and> dn_status_event_senders m = dn_status_event_senders n")
  case True
  then show thesis using told by blast
next
  case False
  show thesis
  proof (rule quiet)
    show "dn_status_event_senders (snd (spinner_step env k e (sp, n))) = dn_status_event_senders n"
      "dn_readers_to_remote_writers (snd (spinner_step env k e (sp, n))) = dn_readers_to_remote_writers n"
      "dn_writers_to_remote_readers (snd (spinner_step env k e (sp, n))) = dn_writers_to_remote_readers n"
      using False by (cases "(env, k, e, (sp, n))" rule: spinner_step.cases;
          force simp: case_prod_unfold Let_def set_each_spinner_fields handle_ros_discovery_def)+
  qed
qed

lemma waiter_step:
  assumes "waiter_ok l table n" and "table \<in> {dn_readers_to_remote_writers, dn_writers_to_remote_readers}"
  shows "waiter_ok l table (snd (spinner_step env k e (sp, n)))"
proof (cases env k e sp n rule: spinner_step_cases)
  case (told ev m)
  then show ?thesis using assms(1) waiter_after_send [of _ m] by (auto simp: waiter_ok_def)
next
  case quiet
  then show ?thesis using assms by (auto simp: waiter_ok_def)
qed

lemma waiter_spin:
  assumes "waiter_ok l table (snd s)" and "table \<in> {dn_readers_to_remote_writers, dn_writers_to_remote_readers}"
  shows "waiter_ok l table (snd (fst (dds_spin env k evs s)))"
  using assms(1)
proof (induction evs arbitrary: s)
  case (Cons e evs)
  have "waiter_ok l table (snd (spinner_step env k e s))"
    using waiter_step [OF _ assms(2), of l "snd s" env k e "fst s"] Cons.prems by simp
  then show ?case using Cons by (cases e) simp_all
qed simp

lemma waiter_starts:
  assumes "(wait, table) \<in> {(wait_for_writer, dn_readers_to_remote_writers), (wait_for_reader, dn_writers_to_remote_readers)}"
    and "wait g n = (Ok w, n1)" and "\<not> matched g (table n1)"
  shows "waiter_ok g table n1" and "w = \<lparr>mw_local = g, mw_stream = True\<rparr>"
  using assms by (auto simp: wait_for_writer_def wait_for_reader_def dnode_bind_def status_receiver_def dnode_return_def Let_def
      waiter_ok_def split: if_splits)

text \<open>C13. A waiter for a match is never left asleep: if its endpoint was not matched when it last looked
  and is matched after whatever the spinner handled since, then its channel, as every one whose
  receiver exists, holds an event, which wakes it, and the poll that follows completes; even when
  the announcement of that very match did not fit into the channel.\<close>

theorem match_wakes_waiter:
  assumes "(wait, table) \<in> {(wait_for_writer, dn_readers_to_remote_writers), (wait_for_reader, dn_writers_to_remote_readers)}"
    and "wait g n = (Ok w, n1)" and "\<not> matched g (table n1)"
    and "snd (fst (dds_spin env k evs (sp, n1))) = n2" and "matched g (table n2)"
  shows "(\<exists>c\<in>set (dn_status_event_senders n2). sc_open c)
    \<and> (\<forall>c\<in>set (dn_status_event_senders n2). sc_open c \<longrightarrow> sc_queue c \<noteq> []
        \<and> fst (match_wait_poll (table n2) (sc_queue c) senders_gone w) = Ready ())"
proof -
  have "waiter_ok g table n2"
    using waiter_spin [of g table "(sp, n1)" env k evs] waiter_starts(1) [OF assms(1-3)] assms(1,4) by auto
  moreover have "mw_local w = g" using waiter_starts(2) [OF assms(1-3)] by simp
  ultimately show ?thesis
    using assms(5) by (auto simp: waiter_ok_def match_wait_poll_def Let_def)
qed

text \<open>Waiting for a service is over once both endpoints have been found matched, each by one of the
  polls so far, not necessarily the same: what is lost again in between still counts.\<close>

fun service_polls :: "((match_table \<times> match_table) \<times> (node_event list \<times> node_event list) \<times> bool) list \<Rightarrow> joined \<times> joined \<Rightarrow> joined \<times> joined" where
  "service_polls [] j = j"
| "service_polls ((tables, queues, gone) # polls) j = service_polls polls (fst (snd (service_poll tables queues gone j)))"

definition sees_match :: "guid \<Rightarrow> match_table list \<Rightarrow> joined \<Rightarrow> bool" where
  "sees_match g tables j \<longleftrightarrow> j = JoinDone \<or> (\<exists>m\<in>set tables. matched g m)"

definition waits_on :: "guid \<Rightarrow> joined \<Rightarrow> bool" where
  "waits_on g j \<longleftrightarrow> (case j of JoinDone \<Rightarrow> True | NotDone w \<Rightarrow> mw_local w = g)"

lemma joined_poll_cases:
  assumes "waits_on g j"
  shows "waits_on g (fst (joined_poll m queue gone j))"
    and "fst (joined_poll m queue gone j) = JoinDone \<longleftrightarrow> j = JoinDone \<or> matched g m"
  using assms by (cases j; auto simp: waits_on_def match_wait_poll_def Let_def split: if_splits)+

lemma service_polls_done:
  assumes "waits_on g (fst j)" and "waits_on h (snd j)"
  shows "(fst (service_polls polls j) = JoinDone \<longleftrightarrow> sees_match g (map (fst \<circ> fst) polls) (fst j))
    \<and> (snd (service_polls polls j) = JoinDone \<longleftrightarrow> sees_match h (map (snd \<circ> fst) polls) (snd j))"
  using assms
proof (induction polls arbitrary: j)
  case (Cons p polls)
  obtain tables queues gone where p: "p = (tables, queues, gone)" by (cases p) auto
  let ?j = "fst (snd (service_poll tables queues gone j))"
  have j: "fst ?j = fst (joined_poll (fst tables) (fst queues) gone (fst j))"
    "snd ?j = fst (joined_poll (snd tables) (snd queues) gone (snd j))"
    by (simp_all add: service_poll_def Let_def case_prod_unfold)
  then have "waits_on g (fst ?j)" "waits_on h (snd ?j)"
    using Cons.prems joined_poll_cases(1) by simp_all
  with Cons.IH [of ?j] show ?case
    using Cons.prems joined_poll_cases(2) by (simp add: p j sees_match_def)
qed (simp add: sees_match_def)

lemma wait_for_service_over:
  assumes "wait_for_service c receiver n = (Ok j, n')"
  shows "service_polls polls j = (JoinDone, JoinDone) \<longleftrightarrow>
    (\<exists>p\<in>set polls. matched (dc_client_guid c) (fst (fst p))) \<and> (\<exists>p\<in>set polls. matched receiver (snd (fst p)))"
proof -
  have j: "j = (NotDone \<lparr>mw_local = dc_client_guid c, mw_stream = True\<rparr>, NotDone \<lparr>mw_local = receiver, mw_stream = True\<rparr>)"
    using assms by (auto simp: wait_for_service_def wait_for_reader_def wait_for_writer_def dnode_bind_def dnode_return_def
        split: prod.splits sum.splits)
  then show ?thesis
    using service_polls_done [of "dc_client_guid c" j receiver polls]
    by (auto simp: waits_on_def sees_match_def prod_eq_iff)
qed

text \<open>Starting the loop changes nothing the loop works on: what is proved of \<open>dds_spin\<close> holds of \<open>spin\<close>.\<close>

lemma spin_start_fields:
  "dn_status_event_senders (snd (spin_start env t sp n)) = dn_status_event_senders n"
  "dn_readers_to_remote_writers (snd (spin_start env t sp n)) = dn_readers_to_remote_writers n"
  "dn_writers_to_remote_readers (snd (spin_start env t sp n)) = dn_writers_to_remote_readers n"
  "dn_parameters (snd (spin_start env t sp n)) = dn_parameters n"
  by (simp_all add: spin_start_def dnode_bind_def dnode_return_def spinner_reader_def split: option.splits)

lemma waiter_spinner_spin:
  assumes "waiter_ok l table n" and "table \<in> {dn_readers_to_remote_writers, dn_writers_to_remote_readers}"
  shows "waiter_ok l table (snd (snd (spinner_spin env k t evs sp n)))"
proof -
  have "waiter_ok l table (snd (spin_start env t sp n))"
    using assms by (auto simp: waiter_ok_def spin_start_fields)
  then show ?thesis
    using waiter_spin [OF _ assms(2), of l "(sp, snd (spin_start env t sp n))" env k evs]
    by (auto simp: spinner_spin_def split: prod.splits sum.splits)
qed

text \<open>A node with a spinner, in an environment for the witnesses.\<close>

definition spun_node :: "(nat, nat) dds_node" where
  "spun_node = (initial_node \<lparr>node_namespace = ''/'', node_base_name = ''n''\<rparr> node_options_new
     \<lparr>cx_gid_length = 16, cx_participant_guid = replicate 16 7, cx_local_nodes = [],
      cx_node_writer = \<lparr>dp_guid = replicate 16 8, dp_written = []\<rparr>\<rparr> [] (replicate 16 9))\<lparr>dn_stop_spin_sender := Some 0\<rparr>"

definition spun_env :: "(nat, nat) dds_env" where
  "spun_env =
     \<lparr>de_topic_ok = (\<lambda>_. True), de_new_writer = (\<lambda>_ _. None), de_new_reader = (\<lambda>_ _. None), de_info_ok = (\<lambda>_. True),
      de_event_ok = (\<lambda>_. True), de_to_timestamp = (\<lambda>_. 0), de_now = ROS_TIME_ZERO, de_timestamp_now = 0, de_service_qos = 0,
      de_default_subscription_qos = 0, de_parameter_events_topic = \<lparr>dt_name = ''rt/parameter_events'', dt_type = ''T'', dt_qos = 0\<rparr>,
      de_rosout_topic = \<lparr>dt_name = ''rt/rosout'', dt_type = ''L'', dt_qos = 0\<rparr>, de_lib = fixed_lib\<rparr>"

definition spun_codecs :: spin_codecs where
  "spun_codecs = \<lparr>sk_values = fixed_cdr 0 (\<lambda>_. []) (\<lambda>_. []), sk_types = fixed_cdr 0 (\<lambda>_. []) (\<lambda>_. []),
     sk_set_results = fixed_cdr 0 (\<lambda>_. []) (\<lambda>_. []), sk_list_result = fixed_cdr 0 (\<lambda>_. []) (\<lambda>_. \<lparr>lr_names = [], lr_prefixes = []\<rparr>),
     sk_descriptors = fixed_cdr 0 (\<lambda>_. []) (\<lambda>_. []), sk_write = (\<lambda>_. None)\<rparr>"

theorem match_wakes_waiter_witness:
  "\<exists>w n1 n2. wait_for_writer [1] spun_node = (Ok w, n1)
     \<and> snd (fst (dds_spin spun_env spun_codecs (replicate 9 (DdsStatus OtherStatus) @ [DdsStatus (RemoteWriterMatched [1] [2])])
         (\<lparr>sp_parameter_servers = None, sp_clock_topic = de_rosout_topic spun_env\<rparr>, n1))) = n2
     \<and> (\<exists>c\<in>set (dn_status_event_senders n2). sc_open c \<and> sc_queue c \<noteq> []
         \<and> fst (match_wait_poll (dn_readers_to_remote_writers n2) (sc_queue c) False w) = Ready ())"
proof -
  let ?w = "\<lparr>mw_local = [1], mw_stream = True\<rparr>" and ?n1 = "spun_node\<lparr>dn_status_event_senders := [\<lparr>sc_queue = [], sc_open = True\<rparr>]\<rparr>"
  let ?sp = "\<lparr>sp_parameter_servers = None, sp_clock_topic = de_rosout_topic spun_env\<rparr>"
  let ?evs = "replicate 9 (DdsStatus OtherStatus) @ [DdsStatus (RemoteWriterMatched [1] [2])]"
  have w: "wait_for_writer [1] spun_node = (Ok ?w, ?n1)"
    by (simp add: wait_for_writer_def dnode_bind_def status_receiver_def dnode_return_def spun_node_def have_spinner_def initial_node_def Let_def)
  have u: "\<not> matched [1] (dn_readers_to_remote_writers ?n1)"
    by (simp add: matched_def spun_node_def initial_node_def)
  have m: "matched [1] (dn_readers_to_remote_writers (snd (fst (dds_spin spun_env spun_codecs ?evs (?sp, ?n1)))))"
    by (simp add: eval_nat_numeral matched_def add_match_def spun_node_def initial_node_def)
  show ?thesis
    using match_wakes_waiter [where wait = wait_for_writer, OF _ w u refl m, of False] w by blast
qed

subsection \<open>Match counts\<close>

text \<open>The abstract table: which remote endpoints are matched to a local one.\<close>

definition remotes :: "match_table \<Rightarrow> guid \<Rightarrow> guid set" where
  "remotes m l = (case map_of m l of Some s \<Rightarrow> set s | None \<Rightarrow> {})"

fun writers_spec :: "dp_status \<Rightarrow> (guid \<Rightarrow> guid set) \<Rightarrow> guid \<Rightarrow> guid set" where
  "writers_spec (RemoteWriterMatched l r) f = f(l := Set.insert r (f l))"
| "writers_spec (WriterLost r) f = (\<lambda>l. f l - {r})"
| "writers_spec _ f = f"

fun readers_spec :: "dp_status \<Rightarrow> (guid \<Rightarrow> guid set) \<Rightarrow> guid \<Rightarrow> guid set" where
  "readers_spec (RemoteReaderMatched l r) f = f(l := Set.insert r (f l))"
| "readers_spec (ReaderLost r) f = (\<lambda>l. f l - {r})"
| "readers_spec _ f = f"

definition table_ok :: "match_table \<Rightarrow> bool" where
  "table_ok m \<longleftrightarrow> bt_inv m \<and> (\<forall>(k, s)\<in>set m. sorted s \<and> distinct s)"

lemma set_bt_insert_subset: "set (bt_insert k v m) \<subseteq> Set.insert (k, v) (set m)"
  by (induction k v m rule: bt_insert.induct) auto

lemma table_ok_add: "table_ok m \<Longrightarrow> table_ok (add_match l r m)"
proof -
  assume ok: "table_ok m"
  have "\<forall>(k, s)\<in>set (add_match l r m). sorted s \<and> distinct s"
  proof (cases "map_of m l")
    case None
    then show ?thesis using ok set_bt_insert_subset [of l "[r]" m] by (auto simp: add_match_def table_ok_def)
  next
    case (Some s)
    then have "sorted s \<and> distinct s" using ok map_of_SomeD [OF Some] by (auto simp: table_ok_def)
    then have "sorted (insort_insert r s) \<and> distinct (insort_insert r s)"
      by (simp add: sorted_insort_insert distinct_insort_insert)
    then show ?thesis using ok Some set_bt_insert_subset [of l "insort_insert r s" m] by (auto simp: add_match_def table_ok_def)
  qed
  then show ?thesis using ok by (auto simp: table_ok_def add_match_def bt_inv_insert split: option.splits)
qed

lemma table_ok_remove:
  assumes "table_ok m"
  shows "table_ok (remove_remote g m)"
proof -
  have "map fst (remove_remote g m) = map fst m" by (simp add: remove_remote_def comp_def case_prod_unfold)
  then have "bt_inv (remove_remote g m)" using assms by (simp only: table_ok_def bt_inv_def)
  moreover have "\<forall>(k, s)\<in>set (remove_remote g m). sorted s \<and> distinct s"
    using assms by (auto simp: table_ok_def remove_remote_def sorted_wrt_filter)
  ultimately show ?thesis by (simp add: table_ok_def)
qed

lemma remotes_add: "remotes (add_match l r m) = (remotes m)(l := Set.insert r (remotes m l))"
  by (auto simp: remotes_def add_match_def map_laws fun_eq_iff set_insort_insert split: option.splits)

lemma remotes_remove: "remotes (remove_remote g m) l = remotes m l - {g}"
proof -
  have "map_of (remove_remote g m) l = map_option (filter (\<lambda>r. r \<noteq> g)) (map_of m l)"
    by (induction m) (auto simp: remove_remote_def)
  then show ?thesis by (cases "map_of m l") (auto simp: remotes_def)
qed

lemma handle_dp_status_refines:
  "remotes (dn_readers_to_remote_writers (handle_dp_status ev n)) = writers_spec ev (remotes (dn_readers_to_remote_writers n))"
  "remotes (dn_writers_to_remote_readers (handle_dp_status ev n)) = readers_spec ev (remotes (dn_writers_to_remote_readers n))"
  "table_ok (dn_readers_to_remote_writers n) \<Longrightarrow> table_ok (dn_readers_to_remote_writers (handle_dp_status ev n))"
  "table_ok (dn_writers_to_remote_readers n) \<Longrightarrow> table_ok (dn_writers_to_remote_readers (handle_dp_status ev n))"
  by (cases ev; simp add: remotes_add remotes_remove fun_eq_iff table_ok_add table_ok_remove)+

lemma count_remotes:
  assumes "table_ok m"
  shows "(case map_of m l of Some s \<Rightarrow> length s | None \<Rightarrow> 0) = card (remotes m l)"
proof (cases "map_of m l")
  case (Some s)
  then have "distinct s" using assms map_of_SomeD [OF Some] by (auto simp: table_ok_def)
  then show ?thesis using Some by (simp add: remotes_def distinct_card)
qed (simp add: remotes_def)

text \<open>C21. The publisher and subscription counts of a node are those of the remote endpoints that were
  matched and not lost since, along every sequence of DDS status events: the match tables refine
  the sets of matched endpoints.\<close>

theorem match_counts_exact:
  assumes "table_ok (dn_readers_to_remote_writers n)" and "table_ok (dn_writers_to_remote_readers n)"
  shows "get_publisher_count l (fold handle_dp_status evs n) = card (fold writers_spec evs (remotes (dn_readers_to_remote_writers n)) l)
    \<and> get_subscription_count l (fold handle_dp_status evs n) = card (fold readers_spec evs (remotes (dn_writers_to_remote_readers n)) l)"
proof -
  let ?n = "fold handle_dp_status evs n"
  have "remotes (dn_readers_to_remote_writers ?n) = fold writers_spec evs (remotes (dn_readers_to_remote_writers n))
    \<and> remotes (dn_writers_to_remote_readers ?n) = fold readers_spec evs (remotes (dn_writers_to_remote_readers n))
    \<and> table_ok (dn_readers_to_remote_writers ?n) \<and> table_ok (dn_writers_to_remote_readers ?n)"
    using assms(1,2) by (induction evs arbitrary: n) (simp_all add: handle_dp_status_refines)
  then show ?thesis
    by (simp add: get_publisher_count_def get_subscription_count_def count_remotes)
qed

theorem match_counts_exact_witness:
  "get_publisher_count [1] (fold handle_dp_status [RemoteWriterMatched [1] [2], RemoteWriterMatched [1] [3],
     RemoteWriterMatched [1] [2], WriterLost [3]] spun_node) = 1"
proof -
  have ok: "table_ok (dn_readers_to_remote_writers spun_node)" "table_ok (dn_writers_to_remote_readers spun_node)"
    by (simp_all add: table_ok_def spun_node_def initial_node_def bt_inv_def)
  have "fold writers_spec [RemoteWriterMatched [1] [2], RemoteWriterMatched [1] [3], RemoteWriterMatched [1] [2], WriterLost [3]]
      (remotes (dn_readers_to_remote_writers spun_node)) [1] = {[2]}"
    by (auto simp: remotes_def spun_node_def initial_node_def)
  then show ?thesis using match_counts_exact [OF ok] by (simp only: card_1_singleton_iff) auto
qed

end
