(* ===== verification/Dds_Announce.thy ===== *)
theory Dds_Announce
  imports Dds_Node
begin

text \<open>
  What the node of the DDS backend tells ROS discovery: every endpoint it creates is in the record its
  participant last published, along every sequence of operations of an application; and how a spinner
  that cannot be created breaks this.
\<close>

subsection \<open>Invariants of the operations\<close>

definition keeps :: "(('q, 't) dds_node \<Rightarrow> bool) \<Rightarrow> ('q, 't, 'a) dnode_op \<Rightarrow> bool" where
  "keeps P m \<longleftrightarrow> (\<forall>n. P n \<longrightarrow> P (snd (m n)))"

lemma keepsI: "(\<And>n. P n \<Longrightarrow> P (snd (m n))) \<Longrightarrow> keeps P m"
  by (simp add: keeps_def)

lemma keepsD: "keeps P m \<Longrightarrow> P n \<Longrightarrow> P (snd (m n))"
  by (simp add: keeps_def)

lemma keeps_dnode_bind: "keeps P m \<Longrightarrow> (\<And>x. keeps P (f x)) \<Longrightarrow> keeps P (dnode_bind m f)"
  by (auto simp: keeps_def dnode_bind_def split: prod.splits sum.splits)

lemma keeps_return: "keeps P (dnode_return x)"
  by (simp add: keeps_def dnode_return_def)

lemma keeps_unwrap: "keeps P (dnode_unwrap r)"
  by (simp add: keeps_def dnode_unwrap_def split: sum.splits)

lemma keeps_if: "(b \<Longrightarrow> keeps P m) \<Longrightarrow> (\<not> b \<Longrightarrow> keeps P m') \<Longrightarrow> keeps P (if b then m else m')"
  by simp

lemma keeps_prod: "(\<And>a b. keeps P (f a b)) \<Longrightarrow> keeps P (case x of (a, b) \<Rightarrow> f a b)"
  by (cases x) simp

lemmas keeps_intros = keeps_dnode_bind keeps_return keeps_unwrap keeps_if keeps_prod

text \<open>An invariant of the primitive steps is one of every constructor.\<close>

lemma keeps_constructors:
  assumes topic: "\<And>name ty q. keeps P (participant_create_topic env name ty q)"
    and writer: "\<And>t q. keeps P (create_datawriter env t q)" and reader: "\<And>t q. keeps P (create_simpledatareader env t q)"
  shows "keeps P (dds_create_topic env nm mt q)" "keeps P (dds_create_subscription env t qo)"
    "keeps P (dds_create_publisher env t qo)" "keeps P (service_topics env nm st q q')"
    "keeps P (dds_create_client env mapping nm st q q')" "keeps P (dds_create_server env mapping nm st q q')"
    "keeps P (dds_create_raw_server env nm st q q')" "keeps P (dds_create_raw_publisher env t qo)"
    "keeps P (dds_create_raw_subscription env t qo)" "keeps P (parameter_server env b tb)"
proof -
  show tp: "keeps P (dds_create_topic env nm mt q)" for nm mt q
  proof (rule keepsI)
    fix n assume "P n"
    then show "P (snd (dds_create_topic env nm mt q n))" unfolding dds_create_topic_def
      by (rule keepsD [rotated]) (intro keeps_intros topic)
  qed
  show st: "keeps P (service_topics env nm st q q')" for nm st q q'
  proof -
    have rest: "keeps P (\<lambda>n. dnode_bind (dnode_unwrap (ok_or () (to_dds_name nm ''rr'' (dn_name n) ''Reply''))) (\<lambda>rs_name.
       dnode_bind (participant_create_topic env rs_name (dds_response_type st) q') (\<lambda>rs_topic. dnode_return (rq, rs_topic))) n)" for rq
    proof (rule keepsI)
      fix n assume "P n"
      then show "P (snd (dnode_bind (dnode_unwrap (ok_or () (to_dds_name nm ''rr'' (dn_name n) ''Reply''))) (\<lambda>rs_name.
         dnode_bind (participant_create_topic env rs_name (dds_response_type st) q') (\<lambda>rs_topic. dnode_return (rq, rs_topic))) n))"
        by (rule keepsD [rotated]) (intro keeps_intros topic)
    qed
    show ?thesis
    proof (rule keepsI)
      fix n assume "P n"
      then show "P (snd (service_topics env nm st q q' n))" unfolding service_topics_def
        by (rule keepsD [rotated]) (intro keeps_intros topic rest)
    qed
  qed
  show "keeps P (dds_create_subscription env t qo)" "keeps P (dds_create_publisher env t qo)"
    using writer reader by (simp_all add: dds_create_subscription_def dds_create_publisher_def create_datawriter_def create_simpledatareader_def)
  show "keeps P (dds_create_client env mapping nm st q q')"
    unfolding dds_create_client_def client_new_on_def by (intro keeps_intros st writer reader)
  show srv: "keeps P (dds_create_server env mapping nm st q q')" for mapping nm st q q'
    unfolding dds_create_server_def server_new_on_def by (intro keeps_intros st writer reader)
  show "keeps P (dds_create_raw_server env nm st q q')"
    unfolding dds_create_raw_server_def server_new_on_def by (intro keeps_intros st writer reader)
  show "keeps P (dds_create_raw_publisher env t qo)" "keeps P (dds_create_raw_subscription env t qo)"
    using writer reader by (simp_all add: dds_create_raw_publisher_def dds_create_raw_subscription_def)
  show "keeps P (parameter_server env b tb)"
  proof (rule keepsI)
    fix n assume "P n"
    then show "P (snd (parameter_server env b tb n))" unfolding parameter_server_def
      by (rule keepsD [rotated]) (intro keeps_intros srv)
  qed
qed

lemma keeps_action_constructors:
  assumes "\<And>name ty q. keeps P (participant_create_topic env name ty q)"
    and "\<And>t q. keeps P (create_datawriter env t q)" and "\<And>t q. keeps P (create_simpledatareader env t q)"
  shows "keeps P (dds_create_action_client env mapping nm at aq)" "keeps P (dds_create_action_server env mapping nm at aq)"
    "keeps P (dds_create_raw_action_server env nm at aq)" "keeps P (create_parameter_servers env)"
  unfolding dds_create_action_client_def dds_create_action_server_def dds_create_raw_action_server_def create_parameter_servers_def Let_def
  by (intro keeps_intros keeps_constructors assms)+

text \<open>The record of the node in the context is the one its endpoints call for, unless updates are
  suppressed; every endpoint created through the participant is among them, except the readers of the spinner.\<close>

definition discovery_record :: "('q, 't) dds_node \<Rightarrow> node_entities_info" where
  "discovery_record n = ne_add_writer (node_gid n (dp_guid (cx_node_writer (dn_context n)))) (generate_node_info n)"

fun endpoint_listed :: "('q, 't) dds_node \<Rightarrow> 'q dds_call \<Rightarrow> bool" where
  "endpoint_listed n (CreateTopic t) \<longleftrightarrow> True"
| "endpoint_listed n (CreateWriter t q g) \<longleftrightarrow> node_gid n g \<in> Set.insert (node_gid n (dp_guid (dn_parameter_events_writer n))) (set (dn_writers n))"
| "endpoint_listed n (CreateReader t q g) \<longleftrightarrow> node_gid n g \<in> set (dn_readers n)"
| "endpoint_listed n (SpinReader t q g) \<longleftrightarrow> True"

definition recorded :: "('q, 't) dds_node \<Rightarrow> bool" where
  "recorded n \<longleftrightarrow> map_of (cx_local_nodes (dn_context n)) (dn_fully_qualified_name n) = Some (discovery_record n)"

definition announced :: "('q, 't) dds_node \<Rightarrow> bool" where
  "announced n \<longleftrightarrow> \<not> dn_suppress n \<and> recorded n \<and> broadcast_current (dn_context n) \<and> list_all (endpoint_listed n) (dn_calls n)"

lemma fold_add_reader [simp]:
  "ne_name (fold ne_add_reader rs i) = ne_name i" "ne_writer_gid_seq (fold ne_add_reader rs i) = ne_writer_gid_seq i"
  "set (ne_reader_gid_seq (fold ne_add_reader rs i)) = set (ne_reader_gid_seq i) \<union> set rs"
  by (induction rs arbitrary: i) auto

lemma fold_add_writer [simp]:
  "ne_name (fold ne_add_writer ws i) = ne_name i" "ne_reader_gid_seq (fold ne_add_writer ws i) = ne_reader_gid_seq i"
  "set (ne_writer_gid_seq (fold ne_add_writer ws i)) = set (ne_writer_gid_seq i) \<union> set ws"
  by (induction ws arbitrary: i) auto

lemma node_info_content [simp]:
  "ne_name (generate_node_info n) = dn_name n"
  "set (ne_reader_gid_seq (generate_node_info n)) = set (dn_readers n)"
  "set (ne_writer_gid_seq (generate_node_info n)) =
     Set.insert (node_gid n (dp_guid (dn_parameter_events_writer n)))
       (node_gid n ` set_option (dn_rosout_writer n) \<union> set (dn_writers n))"
  by (auto simp: generate_node_info_def node_entities_info_new_def Let_def split: option.splits)

lemma generate_node_info_cong:
  assumes "dn_name n' = dn_name n" and "dn_readers n' = dn_readers n" and "dn_writers n' = dn_writers n"
    and "dn_rosout_writer n' = dn_rosout_writer n" and "cx_gid_length (dn_context n') = cx_gid_length (dn_context n)"
    and "dp_guid (dn_parameter_events_writer n') = dp_guid (dn_parameter_events_writer n)"
  shows "generate_node_info n' = generate_node_info n"
proof -
  have "node_gid n' = node_gid n" using assms(5) by (simp add: node_gid_def fun_eq_iff)
  then show ?thesis using assms by (cases "dn_rosout_writer n") (simp_all add: generate_node_info_def)
qed

lemma announce_fields [simp]:
  "dn_suppress (announce env n) = dn_suppress n" "dn_name (announce env n) = dn_name n" "dn_calls (announce env n) = dn_calls n"
  "dn_readers (announce env n) = dn_readers n" "dn_writers (announce env n) = dn_writers n"
  "dn_rosout_writer (announce env n) = dn_rosout_writer n" "dn_parameter_events_writer (announce env n) = dn_parameter_events_writer n"
  "node_gid (announce env n) = node_gid n" "dn_fully_qualified_name (announce env n) = dn_fully_qualified_name n"
  "cx_gid_length (dn_context (announce env n)) = cx_gid_length (dn_context n)"
  by (simp_all add: announce_def node_gid_def dn_fully_qualified_name_def fun_eq_iff)

lemma generate_node_info_announce [simp]: "generate_node_info (announce env n) = generate_node_info n"
  by (rule generate_node_info_cong) simp_all

lemma announce_recorded: "recorded (announce env n)"
  by (simp add: recorded_def discovery_record_def) (simp add: announce_def ne_fully_qualified_name_def dn_fully_qualified_name_def node_gid_def)

lemma announce_broadcast: "de_info_ok env = (\<lambda>_. True) \<Longrightarrow> broadcast_current (dn_context (announce env n))"
  by (simp add: announce_def broadcast_current_updates)

lemma endpoint_listed_announce [simp]: "endpoint_listed (announce env n) = endpoint_listed n"
proof
  fix c show "endpoint_listed (announce env n) c = endpoint_listed n c" by (cases c) simp_all
qed

lemma endpoint_listed_grow:
  assumes "set (dn_readers n) \<subseteq> set (dn_readers n')" and "set (dn_writers n) \<subseteq> set (dn_writers n')"
    and "cx_gid_length (dn_context n') = cx_gid_length (dn_context n)"
    and "dp_guid (dn_parameter_events_writer n') = dp_guid (dn_parameter_events_writer n)"
  shows "endpoint_listed n c \<Longrightarrow> endpoint_listed n' c"
  using assms by (cases c) (auto simp: node_gid_def)

lemma keeps_announced_primitives:
  assumes "de_info_ok env = (\<lambda>_. True)"
  shows "keeps announced (participant_create_topic env name ty q)" "keeps announced (create_datawriter env t qo)"
    "keeps announced (create_simpledatareader env t qo)"
proof -
  have mono: "list_all (endpoint_listed n) cs \<Longrightarrow> list_all (endpoint_listed n') cs"
    if "\<And>c. endpoint_listed n c \<Longrightarrow> endpoint_listed n' c" for n n' cs using that by (auto simp: list_all_iff)
  show "keeps announced (participant_create_topic env name ty q)"
  proof (rule keepsI)
    fix n :: "('a, 'b) dds_node" assume a: "announced n"
    have l: "endpoint_listed (n\<lparr>dn_calls := cs\<rparr>) = endpoint_listed n" for cs
    proof
      fix c show "endpoint_listed (n\<lparr>dn_calls := cs\<rparr>) c = endpoint_listed n c"
        by (cases c) (simp_all add: node_gid_def)
    qed
    have g: "generate_node_info (n\<lparr>dn_calls := cs\<rparr>) = generate_node_info n" for cs
      by (rule generate_node_info_cong) simp_all
    show "announced (snd (participant_create_topic env name ty q n))"
      using a by (simp add: participant_create_topic_def Let_def announced_def recorded_def discovery_record_def g l
          dn_fully_qualified_name_def node_gid_def)
  qed
  show "keeps announced (create_datawriter env t qo)"
  proof (rule keepsI)
    fix n :: "('a, 'b) dds_node" assume a: "announced n"
    show "announced (snd (create_datawriter env t qo n))"
    proof (cases "de_new_writer env (dn_calls n) t")
      case None
      then show ?thesis using a by (simp add: create_datawriter_def dnode_bind_def context_create_writer_def)
    next
      case (Some g)
      let ?n = "n\<lparr>dn_calls := dn_calls n @ [CreateWriter t qo g], dn_writers := insort_insert (node_gid n g) (dn_writers n)\<rparr>"
      have "snd (create_datawriter env t qo n) = announce env ?n"
        using a Some by (simp add: create_datawriter_def dnode_bind_def context_create_writer_def dn_add_writer_def announced_def node_gid_def)
      moreover have "list_all (endpoint_listed ?n) (dn_calls ?n)"
        using a mono [of n ?n "dn_calls n", OF endpoint_listed_grow [of n ?n]] by (auto simp: announced_def set_insort_insert node_gid_def)
      ultimately show ?thesis
        using a by (simp add: announced_def announce_recorded announce_broadcast assms)
    qed
  qed
  show "keeps announced (create_simpledatareader env t qo)"
  proof (rule keepsI)
    fix n :: "('a, 'b) dds_node" assume a: "announced n"
    show "announced (snd (create_simpledatareader env t qo n))"
    proof (cases "de_new_reader env (dn_calls n) t")
      case None
      then show ?thesis using a by (simp add: create_simpledatareader_def dnode_bind_def context_create_reader_def)
    next
      case (Some g)
      let ?n = "n\<lparr>dn_calls := dn_calls n @ [CreateReader t qo g], dn_readers := insort_insert (node_gid n g) (dn_readers n)\<rparr>"
      have "snd (create_simpledatareader env t qo n) = announce env ?n"
        using a Some by (simp add: create_simpledatareader_def dnode_bind_def context_create_reader_def dn_add_reader_def announced_def node_gid_def)
      moreover have "list_all (endpoint_listed ?n) (dn_calls ?n)"
        using a mono [of n ?n "dn_calls n", OF endpoint_listed_grow [of n ?n]] by (auto simp: announced_def set_insort_insert node_gid_def)
      ultimately show ?thesis
        using a by (simp add: announced_def announce_recorded announce_broadcast assms)
    qed
  qed
qed

lemma announced_cong:
  assumes "dn_name n' = dn_name n" and "dn_readers n' = dn_readers n" and "dn_writers n' = dn_writers n"
    and "dn_rosout_writer n' = dn_rosout_writer n" and "dn_context n' = dn_context n"
    and "dp_guid (dn_parameter_events_writer n') = dp_guid (dn_parameter_events_writer n)"
    and "dn_suppress n' = dn_suppress n" and "dn_calls n' = dn_calls n"
  shows "announced n' = announced n"
proof -
  have g: "generate_node_info n' = generate_node_info n" using assms by (intro generate_node_info_cong) simp_all
  have "endpoint_listed n' c = endpoint_listed n c" for c using assms g by (cases c) (simp_all add: node_gid_def)
  then have "endpoint_listed n' = endpoint_listed n" by blast
  then show ?thesis
    using assms g by (simp add: announced_def recorded_def discovery_record_def dn_fully_qualified_name_def node_gid_def)
qed

lemma announced_set_parameter: "announced n \<Longrightarrow> announced (snd (set_parameter_at env ts name v n))"
proof -
  let ?n = "snd (set_parameter_at env ts name v n)"
  have "announced ?n = announced n"
    by (rule announced_cong)
      (auto simp: set_parameter_at_def execute_parameter_set_actions_def dn_publish_event_def dds_publish_def Let_def
        split: sum.splits option.splits parameter_value.splits)
  then show "announced n \<Longrightarrow> announced ?n" by simp
qed

lemma announced_undeclare: "announced n \<Longrightarrow> announced (undeclare_parameter env name n)"
proof -
  have "announced (undeclare_parameter env name n) = announced n"
    by (rule announced_cong)
      (auto simp: undeclare_parameter_def dn_publish_event_def dds_publish_def Let_def split: option.splits)
  then show "announced n \<Longrightarrow> announced (undeclare_parameter env name n)" by simp
qed

text \<open>Every endpoint is listed also while updates are suppressed.\<close>

definition listed :: "('q, 't) dds_node \<Rightarrow> bool" where
  "listed n \<longleftrightarrow> list_all (endpoint_listed n) (dn_calls n)"

lemma listed_mono:
  assumes "listed n" and "\<And>c. endpoint_listed n c \<Longrightarrow> endpoint_listed n' c" and "dn_calls n' = dn_calls n @ cs"
    and "list_all (endpoint_listed n') cs"
  shows "listed n'"
  using assms by (auto simp: listed_def list_all_iff)

lemma keeps_listed_primitives:
  "keeps listed (participant_create_topic env name ty q)" "keeps listed (create_datawriter env t qo)"
  "keeps listed (create_simpledatareader env t qo)"
proof -
  show "keeps listed (participant_create_topic env name ty q)"
  proof (rule keepsI)
    fix n :: "('a, 'b) dds_node" assume a: "listed n"
    show "listed (snd (participant_create_topic env name ty q n))"
      by (rule listed_mono [OF a endpoint_listed_grow [of n], where cs = "if de_topic_ok env \<lparr>dt_name = name, dt_type = ty, dt_qos = q\<rparr>
          then [CreateTopic \<lparr>dt_name = name, dt_type = ty, dt_qos = q\<rparr>] else []"])
        (simp_all add: participant_create_topic_def Let_def)
  qed
  show "keeps listed (create_datawriter env t qo)"
  proof (rule keepsI)
    fix n :: "('a, 'b) dds_node" assume a: "listed n"
    show "listed (snd (create_datawriter env t qo n))"
    proof (cases "de_new_writer env (dn_calls n) t")
      case None
      then show ?thesis using a by (simp add: create_datawriter_def dnode_bind_def context_create_writer_def)
    next
      case (Some g)
      show ?thesis
        by (rule listed_mono [OF a endpoint_listed_grow [of n], where cs = "[CreateWriter t qo g]"])
          (use Some in \<open>auto simp: create_datawriter_def dnode_bind_def context_create_writer_def dn_add_writer_def Let_def
            set_insort_insert node_gid_def\<close>)
    qed
  qed
  show "keeps listed (create_simpledatareader env t qo)"
  proof (rule keepsI)
    fix n :: "('a, 'b) dds_node" assume a: "listed n"
    show "listed (snd (create_simpledatareader env t qo n))"
    proof (cases "de_new_reader env (dn_calls n) t")
      case None
      then show ?thesis using a by (simp add: create_simpledatareader_def dnode_bind_def context_create_reader_def)
    next
      case (Some g)
      show ?thesis
        by (rule listed_mono [OF a endpoint_listed_grow [of n], where cs = "[CreateReader t qo g]"])
          (use Some in \<open>auto simp: create_simpledatareader_def dnode_bind_def context_create_reader_def dn_add_reader_def Let_def
            set_insort_insert node_gid_def\<close>)
    qed
  qed
qed

lemma listed_suppress:
  assumes "listed n"
  shows "listed (suppress_node_info_updates env b n)"
  by (rule listed_mono [OF assms endpoint_listed_grow [of n], where cs = "[]"])
    (simp_all add: suppress_node_info_updates_def Let_def)

lemma announced_unsuppressed:
  assumes "de_info_ok env = (\<lambda>_. True)" and "listed n"
  shows "announced (suppress_node_info_updates env False n)"
  using listed_suppress [OF assms(2), of env False]
  by (simp add: announced_def suppress_node_info_updates_def announce_recorded announce_broadcast assms(1) listed_def)

lemma listed_check_parameters: "listed n \<Longrightarrow> listed (snd (check_parameters ps n))"
proof (induction ps n rule: check_parameters.induct)
  case (2 name v ps n)
  let ?n = "snd (execute_parameter_set_actions name v n)"
  have "listed ?n"
    by (rule listed_mono [OF 2(2) endpoint_listed_grow [of n], where cs = "[]"])
      (auto simp: execute_parameter_set_actions_def split: option.splits parameter_value.splits)
  then show ?case using 2
    by (cases "execute_parameter_set_actions name v n") (auto split: sum.splits)
qed simp

lemma listed_update:
  assumes "listed n" and "dn_calls n' = dn_calls n" and "dn_readers n' = dn_readers n" and "dn_writers n' = dn_writers n"
    and "cx_gid_length (dn_context n') = cx_gid_length (dn_context n)"
    and "dp_guid (dn_parameter_events_writer n') = dp_guid (dn_parameter_events_writer n)"
  shows "listed n'"
  by (rule listed_mono [OF assms(1) endpoint_listed_grow [of n], where cs = "[]"]) (use assms in simp_all)

lemma set_up_announced:
  assumes "de_info_ok env = (\<lambda>_. True)" and "listed n" and "set_up_node env opts n = (Ok u, n')"
  shows "announced n'"
proof -
  let ?prep = "dnode_bind (\<lambda>n. (Ok (), suppress_node_info_updates env True n)) (\<lambda>_.
     dnode_bind (if no_enable_rosout opts
       then dnode_bind (dds_create_publisher env (de_rosout_topic env) None) (\<lambda>g n. (Ok (), n\<lparr>dn_rosout_writer := Some g\<rparr>))
       else dnode_return ()) (\<lambda>_.
     dnode_bind (if no_enable_rosout_reading opts
       then dnode_bind (dds_create_subscription env (de_rosout_topic env) None) (\<lambda>g n. (Ok (), n\<lparr>dn_rosout_reader := Some g\<rparr>))
       else dnode_return ()) (\<lambda>_. \<lambda>n. check_parameters (dn_parameters n) n)))"
  have "keeps listed ?prep"
    by (intro keeps_intros keeps_constructors keeps_listed_primitives)
      (auto intro!: keepsI listed_suppress listed_check_parameters elim: listed_update)
  then have "listed (snd (?prep n))" using assms(2) by (rule keepsD)
  moreover have "set_up_node env opts n = dnode_bind ?prep (\<lambda>_ n. (Ok (), suppress_node_info_updates env False n)) n"
    by (simp add: set_up_node_def dnode_bind_def split: prod.splits sum.splits)
  ultimately show ?thesis
    using assms(3) announced_unsuppressed [OF assms(1)] by (auto simp: dnode_bind_def split: prod.splits sum.splits)
qed

lemma node_new_announced:
  assumes "de_info_ok env = (\<lambda>_. True)" and "node_new env name opts ctx [] = (Ok n, ctx')"
  shows "announced n"
proof -
  obtain g where g: "de_new_writer env [] (de_parameter_events_topic env) = Some g"
    using assms(2) by (cases "de_new_writer env [] (de_parameter_events_topic env)") (auto simp: node_new_def)
  let ?n = "initial_node name opts ctx [CreateWriter (de_parameter_events_topic env) None g] g"
  have "\<exists>u. set_up_node env opts ?n = (Ok u, n)"
    using assms(2) g by (auto simp: node_new_def split: prod.splits sum.splits)
  moreover have "listed ?n" by (simp add: listed_def initial_node_def)
  ultimately show ?thesis using set_up_announced [OF assms(1)] by blast
qed

lemma create_spinner_announced:
  assumes "de_info_ok env = (\<lambda>_. True)" and "announced n" and "create_spinner env n = (Ok s, n')"
  shows "announced n'"
proof -
  have free: "dn_stop_spin_sender n = None" using assms(3) by (auto simp: create_spinner_def split: if_splits)
  let ?b = "dn_start_parameter_services n"
  let ?prep = "dnode_bind (\<lambda>n. (Ok (), suppress_node_info_updates env True (n\<lparr>dn_stop_spin_sender := Some 0\<rparr>))) (\<lambda>_.
        dnode_bind (if ?b then dnode_bind (create_parameter_servers env) (\<lambda>s. dnode_return (Some s)) else dnode_return None) (\<lambda>servers.
        dnode_bind (dnode_unwrap (name_new ''/'' ''clock'')) (\<lambda>clock.
        dnode_bind (dds_create_topic env clock (message_type_name_new ''builtin_interfaces'' ''Time'')
          (de_default_subscription_qos env)) (\<lambda>clock_topic. dnode_return (servers, clock_topic)))))"
  have "listed (m\<lparr>dn_stop_spin_sender := Some 0\<rparr>)" if "listed m" for m :: "('a, 'b) dds_node"
    by (rule listed_update [OF that]) simp_all
  then have "keeps listed ?prep"
    by (intro keeps_intros keeps_constructors keeps_action_constructors keeps_listed_primitives)
      (auto intro!: keepsI listed_suppress)
  moreover have "listed n" using assms(2) by (simp add: announced_def listed_def)
  ultimately have "listed (snd (?prep n))" by (rule keepsD)
  moreover have "create_spinner env n = dnode_bind ?prep (\<lambda>(servers, clock_topic) n.
      (Ok \<lparr>sp_parameter_servers = servers, sp_clock_topic = clock_topic\<rparr>, suppress_node_info_updates env False n)) n"
    using free by (simp add: create_spinner_def dnode_bind_def dnode_return_def split: prod.splits sum.splits)
  ultimately show ?thesis
    using assms(3) announced_unsuppressed [OF assms(1)] by (auto simp: dnode_bind_def split: prod.splits sum.splits)
qed

subsection \<open>Properties\<close>

text \<open>What an application can do to a node: create it, create entities with it, start the spinner, set
  and undeclare parameters. (The feedback type of an action server plays no part in its creation.)\<close>

inductive node_reach :: "('q, 't) dds_env \<Rightarrow> ('q, 't) dds_node \<Rightarrow> bool" for env where
  reach_new: "node_new env name opts ctx [] = (Ok n, ctx') \<Longrightarrow> node_reach env n"
| reach_topic: "node_reach env n \<Longrightarrow> node_reach env (snd (dds_create_topic env nm mt q n))"
| reach_subscription: "node_reach env n \<Longrightarrow> node_reach env (snd (dds_create_subscription env t qo n))"
| reach_publisher: "node_reach env n \<Longrightarrow> node_reach env (snd (dds_create_publisher env t qo n))"
| reach_client: "node_reach env n \<Longrightarrow> node_reach env (snd (dds_create_client env mapping nm st q q' n))"
| reach_server: "node_reach env n \<Longrightarrow> node_reach env (snd (dds_create_server env mapping nm st q q' n))"
| reach_raw_server: "node_reach env n \<Longrightarrow> node_reach env (snd (dds_create_raw_server env nm st q q' n))"
| reach_raw_publisher: "node_reach env n \<Longrightarrow> node_reach env (snd (dds_create_raw_publisher env t qo n))"
| reach_raw_subscription: "node_reach env n \<Longrightarrow> node_reach env (snd (dds_create_raw_subscription env t qo n))"
| reach_action_client: "node_reach env n \<Longrightarrow> node_reach env (snd (dds_create_action_client env mapping nm at aq n))"
| reach_action_server: "node_reach env n \<Longrightarrow> node_reach env (snd ((dds_create_action_server env mapping nm at aq :: ('q, 't, unit dds_action_server) dnode_op) n))"
| reach_raw_action_server: "node_reach env n \<Longrightarrow> node_reach env (snd (dds_create_raw_action_server env nm at aq n))"
| reach_spinner: "node_reach env n \<Longrightarrow> create_spinner env n = (Ok s, n') \<Longrightarrow> node_reach env n'"
| reach_set: "node_reach env n \<Longrightarrow> node_reach env (snd (node_set_parameter env p v n))"
| reach_spinner_set: "node_reach env n \<Longrightarrow> node_reach env (snd (spinner_set_parameter env p v n))"
| reach_undeclare: "node_reach env n \<Longrightarrow> node_reach env (undeclare_parameter env p n)"

lemma reach_announced:
  assumes "de_info_ok env = (\<lambda>_. True)" and "node_reach env n"
  shows "announced n"
  using assms(2)
proof induction
  case (reach_new name opts ctx n ctx')
  then show ?case using node_new_announced [OF assms(1)] by blast
next
  case (reach_spinner n s n')
  then show ?case using create_spinner_announced [OF assms(1)] by blast
qed (auto intro: keepsD keeps_constructors [OF keeps_announced_primitives [OF assms(1)]]
    keeps_action_constructors [OF keeps_announced_primitives [OF assms(1)]] announced_undeclare
    announced_set_parameter simp: node_set_parameter_def spinner_set_parameter_def)

text \<open>Whatever a node creates, the last message its participant published to the discovery topic
  lists the node under its name with every reader and writer it has.\<close>

lemma endpoints_announced:
  assumes "de_info_ok env = (\<lambda>_. True)" and "node_reach env n"
  defines "sent \<equiv> dp_written (cx_node_writer (dn_context n))"
  shows "sent \<noteq> [] \<and> (\<exists>info\<in>set (pi_node_entities_info_seq (last sent)). ne_name info = dn_name n
    \<and> (\<forall>t q g. CreateWriter t q g \<in> set (dn_calls n) \<longrightarrow> node_gid n g \<in> set (ne_writer_gid_seq info))
    \<and> (\<forall>t q g. CreateReader t q g \<in> set (dn_calls n) \<longrightarrow> node_gid n g \<in> set (ne_reader_gid_seq info)))"
proof -
  have a: "announced n" using reach_announced [OF assms(1,2)] .
  have "discovery_record n \<in> set (pi_node_entities_info_seq (last sent))"
    using a map_of_SomeD [of "cx_local_nodes (dn_context n)" "dn_fully_qualified_name n" "discovery_record n"]
    by (force simp: announced_def recorded_def broadcast_current_def participant_info_def sent_def)
  moreover have "\<forall>c\<in>set (dn_calls n). endpoint_listed n c" using a by (auto simp: announced_def list_all_iff)
  ultimately show ?thesis
    using a by (intro conjI bexI [of _ "discovery_record n"])
      (force simp: announced_def broadcast_current_def sent_def discovery_record_def)+
qed

text \<open>An environment in which every entity is created.\<close>

definition sample_dds_env :: "(nat, nat) dds_env" where
  "sample_dds_env =
     \<lparr>de_topic_ok = (\<lambda>_. True), de_new_writer = (\<lambda>cs _. Some (replicate 15 0 @ [word_of_nat (length cs)])),
      de_new_reader = (\<lambda>cs _. Some (replicate 15 1 @ [word_of_nat (length cs)])), de_info_ok = (\<lambda>_. True), de_event_ok = (\<lambda>_. True),
      de_to_timestamp = (\<lambda>_. 0), de_now = ROS_TIME_ZERO, de_timestamp_now = 0, de_service_qos = 0, de_default_subscription_qos = 0,
      de_parameter_events_topic = \<lparr>dt_name = ''rt/parameter_events'', dt_type = ''T'', dt_qos = 0\<rparr>,
      de_rosout_topic = \<lparr>dt_name = ''rt/rosout'', dt_type = ''L'', dt_qos = 0\<rparr>, de_lib = fixed_lib\<rparr>"

definition empty_context :: dds_context where
  "empty_context = \<lparr>cx_gid_length = 16, cx_participant_guid = replicate 16 7, cx_local_nodes = [],
     cx_node_writer = \<lparr>dp_guid = replicate 16 8, dp_written = []\<rparr>\<rparr>"

definition sample_node :: "(nat, nat) dds_node" where
  "sample_node = (case node_new sample_dds_env \<lparr>node_namespace = ''/'', node_base_name = ''n''\<rparr> node_options_new empty_context [] of
     (Inr n, _) \<Rightarrow> n | (Inl _, _) \<Rightarrow> initial_node \<lparr>node_namespace = [], node_base_name = []\<rparr> node_options_new empty_context [] [])"

lemma sample_node_new:
  "node_new sample_dds_env \<lparr>node_namespace = ''/'', node_base_name = ''n''\<rparr> node_options_new empty_context [] = (Ok sample_node, dn_context sample_node)"
proof -
  have "\<exists>n. node_new sample_dds_env \<lparr>node_namespace = ''/'', node_base_name = ''n''\<rparr> node_options_new empty_context [] = (Ok n, dn_context n)"
    by (simp add: node_new_def sample_dds_env_def set_up_node_def dnode_bind_def dnode_return_def node_options_new_def initial_node_def
        declared_parameters_def dds_create_publisher_def context_create_writer_def dn_add_writer_def suppress_node_info_updates_def
        validate_parameter_on_set_def execute_parameter_set_actions_def Let_def)
  then show ?thesis by (auto simp: sample_node_def)
qed

lemma endpoints_announced_witness:
  "\<exists>info\<in>set (pi_node_entities_info_seq (last (dp_written (cx_node_writer (dn_context sample_node))))).
     ne_name info = \<lparr>node_namespace = ''/'', node_base_name = ''n''\<rparr>"
proof -
  have "dn_name sample_node = \<lparr>node_namespace = ''/'', node_base_name = ''n''\<rparr>"
    by (simp add: sample_node_def node_new_def sample_dds_env_def set_up_node_def dnode_bind_def dnode_return_def node_options_new_def initial_node_def
        declared_parameters_def dds_create_publisher_def context_create_writer_def dn_add_writer_def suppress_node_info_updates_def
        validate_parameter_on_set_def execute_parameter_set_actions_def Let_def)
  moreover have "node_reach sample_dds_env sample_node" using sample_node_new by (rule reach_new)
  ultimately show ?thesis
    using endpoints_announced [of sample_dds_env sample_node] by (auto simp: sample_dds_env_def)
qed

text \<open>A spinner that cannot be created silences its node: the failed attempt leaves updates
  suppressed, so what the node creates later is never announced, and the attempt cannot be repeated,
  since a second one panics.\<close>

lemma failed_spinner_silences_node:
  assumes "dn_stop_spin_sender n = None" and "create_spinner env n = (Err e, n')"
    and "dds_create_publisher env topic qos n' = (Ok g, n'')"
  shows "dn_context n'' = dn_context n \<and> create_spinner env n'' = (Err NodePanic, n'')"
proof -
  let ?P = "\<lambda>m. dn_suppress m \<and> dn_context m = dn_context n \<and> dn_stop_spin_sender m = Some 0"
  have prim: "keeps ?P (participant_create_topic env nm ty q)" "keeps ?P (create_datawriter env t qo)"
    "keeps ?P (create_simpledatareader env t qo)" for nm ty q t qo
    by (auto simp: keeps_def participant_create_topic_def create_datawriter_def create_simpledatareader_def dnode_bind_def
        context_create_writer_def context_create_reader_def dn_add_writer_def dn_add_reader_def Let_def split: option.splits)
  let ?b = "dn_start_parameter_services n"
  let ?rest = "dnode_bind (if ?b then dnode_bind (create_parameter_servers env) (\<lambda>s. dnode_return (Some s)) else dnode_return None) (\<lambda>servers.
        dnode_bind (dnode_unwrap (name_new ''/'' ''clock'')) (\<lambda>clock.
        dnode_bind (dds_create_topic env clock (message_type_name_new ''builtin_interfaces'' ''Time'')
          (de_default_subscription_qos env)) (\<lambda>clock_topic. dnode_return (servers, clock_topic))))"
  let ?n0 = "suppress_node_info_updates env True (n\<lparr>dn_stop_spin_sender := Some 0\<rparr>)"
  have "keeps ?P ?rest"
    by (intro keeps_intros keeps_constructors keeps_action_constructors prim)
  moreover have "?P ?n0" by (simp add: suppress_node_info_updates_def)
  ultimately have P: "?P (snd (?rest ?n0))" by (rule keepsD)
  have "create_spinner env n = dnode_bind ?rest (\<lambda>(servers, clock_topic) n.
      (Ok \<lparr>sp_parameter_servers = servers, sp_clock_topic = clock_topic\<rparr>, suppress_node_info_updates env False n)) ?n0"
    using assms(1) by (simp add: create_spinner_def dnode_bind_def dnode_return_def split: prod.splits sum.splits)
  then have "n' = snd (?rest ?n0)"
    using assms(2) by (auto simp: dnode_bind_def [of ?rest] split: prod.splits sum.splits)
  then have "?P n''"
    using P assms(3) keepsD [OF keeps_constructors(3) [OF prim], of n' topic qos] by simp
  then show ?thesis by (simp add: create_spinner_def)
qed

text \<open>An environment that refuses service topics.\<close>

lemma failed_spinner_silences_node_witness:
  "\<exists>n' n'' g. create_spinner (sample_dds_env\<lparr>de_topic_ok := (\<lambda>_. False)\<rparr>) sample_node = (Err CreateErr, n')
     \<and> dds_create_publisher (sample_dds_env\<lparr>de_topic_ok := (\<lambda>_. False)\<rparr>) (de_rosout_topic sample_dds_env) None n' = (Ok g, n'')
     \<and> dn_context n'' = dn_context sample_node"
proof -
  let ?env = "sample_dds_env\<lparr>de_topic_ok := (\<lambda>_. False)\<rparr>"
  have n: "dn_stop_spin_sender sample_node = None" "dn_start_parameter_services sample_node"
    "dn_fully_qualified_name sample_node = ''/n''"
    by (simp_all add: sample_node_def node_new_def sample_dds_env_def set_up_node_def dnode_bind_def dnode_return_def node_options_new_def
        initial_node_def declared_parameters_def dds_create_publisher_def context_create_writer_def dn_add_writer_def
        suppress_node_info_updates_def validate_parameter_on_set_def execute_parameter_set_actions_def Let_def announce_def
        dn_fully_qualified_name_def fully_qualified_name_def ends_with_char_def)
  have nm: "\<exists>nm. name_new ''/n'' ''get_parameters'' = Ok nm"
    by (simp add: name_new_Ok namespace_parts_def strip_prefix_char_def wf_token_def name_char_def name_start_def
        is_ascii_alphanumeric_def is_ascii_alphabetic_def is_ascii_digit_def)
  have dds: "to_dds_name nm ''rq'' nn ''Request'' \<noteq> None" for nm nn
    by (simp add: to_dds_name_def ends_with_char_def)
  obtain nm where nm': "name_new ''/n'' ''get_parameters'' = Ok nm" using nm by blast
  obtain y where y: "to_dds_name nm ''rq'' (dn_name sample_node) ''Request'' = Some y" using dds by blast
  obtain n' where n': "create_spinner ?env sample_node = (Err CreateErr, n')"
    using nm' n y by (simp add: create_spinner_def dnode_bind_def dnode_unwrap_def create_parameter_servers_def parameter_server_def
        dds_create_server_def service_topics_def participant_create_topic_def Let_def suppress_node_info_updates_def
        dn_fully_qualified_name_def)
  obtain g n'' where p: "dds_create_publisher ?env (de_rosout_topic sample_dds_env) None n' = (Ok g, n'')"
    by (simp add: dds_create_publisher_def dnode_bind_def context_create_writer_def sample_dds_env_def)
  show ?thesis
    using failed_spinner_silences_node [OF n(1) n' p] n' p by blast
qed

text \<open>A spinner panics on a node whose accepted name is not a name: \<open>NodeName\<close> takes a base name with
  two underscores in a row, the names of the parameter services are built from it with \<open>Name::new\<close>,
  which refuses it, and the result is unwrapped.\<close>

lemma spinner_panics_on_accepted_name:
  assumes "node_name_new ''/'' b = Ok (dn_name n)" and "contains_str ''__'' b"
    and "dn_stop_spin_sender n = None" and "dn_start_parameter_services n"
  shows "fst (create_spinner env n) = Err NodePanic"
proof -
  have nn: "dn_name n = \<lparr>node_namespace = ''/'', node_base_name = b\<rparr>" "wf_node_base b"
    using assms(1) by (simp_all add: node_name_new_Ok)
  have fq: "dn_fully_qualified_name n = CHR ''/'' # b"
    using nn by (simp add: dn_fully_qualified_name_def fully_qualified_name_def ends_with_char_def)
  have "CHR ''/'' \<notin> set b" using nn(2) wf_node_base_no_slash by blast
  then have parts: "namespace_parts (CHR ''/'' # b) = ([b], True)"
    using nn(2) by (auto simp: namespace_parts_def strip_prefix_char_def wf_node_base_def split_on_no_sep)
  have "\<nexists>nm. name_new (CHR ''/'' # b) ''get_parameters'' = Ok nm"
    using assms(2) by (simp add: name_new_Ok parts wf_token_def)
  then obtain e where "name_new (CHR ''/'' # b) ''get_parameters'' = Err e"
    by (cases "name_new (CHR ''/'' # b) ''get_parameters''") auto
  then show ?thesis
    using assms(3,4) fq by (simp add: create_spinner_def dnode_bind_def dnode_unwrap_def create_parameter_servers_def
        parameter_server_def suppress_node_info_updates_def dn_fully_qualified_name_def Let_def)
qed

theorem spinner_panics_on_accepted_name_witness:
  "node_name_new ''/'' ''my__node'' = Ok \<lparr>node_namespace = ''/'', node_base_name = ''my__node''\<rparr>
   \<and> fst (create_spinner sample_dds_env (initial_node \<lparr>node_namespace = ''/'', node_base_name = ''my__node''\<rparr> node_options_new
       empty_context [] [])) = Err NodePanic"
proof -
  let ?n = "initial_node \<lparr>node_namespace = ''/'', node_base_name = ''my__node''\<rparr> node_options_new empty_context [] [] :: (nat, nat) dds_node"
  have ok: "node_name_new ''/'' ''my__node'' = Ok (dn_name ?n)"
    by (simp add: node_name_new_Ok initial_node_def wf_node_base_def wf_node_namespace_def name_char_def name_start_def namespace_char_def
        is_ascii_alphanumeric_def is_ascii_alphabetic_def is_ascii_digit_def)
  then show ?thesis
    using spinner_panics_on_accepted_name [OF ok, of sample_dds_env] by (simp add: initial_node_def node_options_new_def)
qed

end
