(* ===== verification/Dds_Params.thy ===== *)
theory Dds_Params
  imports Dds_Spinner Dds_Announce
begin

text \<open>
  The parameters of a DDS node: the contract of \<open>set_parameter\<close> of the node and of the spinner, what
  remote requests can do to the store, and the parameter \<open>use_sim_time\<close>.
\<close>

subsection \<open>Setting a parameter\<close>

lemma set_parameter_at_cases:
  obtains (undeclared) "\<not> dn_allow_undeclared n" "map_of (dn_parameters n) p = None"
      "set_parameter_at env ts p v n = (Err (''Setting undeclared parameter '' @ [CHR 0x27] @ p @ [CHR 0x27] @ '' is not allowed.''), n)"
  | (invalid) e where "validate_parameter_on_set p v n = Err e" "set_parameter_at env ts p v n = (Err e, n)"
  | (refused) e where "execute_parameter_set_actions p v n = (Err e, n)" "set_parameter_at env ts p v n = (Err e, n)"
  | (stored) s n' where "dn_allow_undeclared n \<or> map_of (dn_parameters n) p \<noteq> None" "validate_parameter_on_set p v n = Ok ()"
      "set_parameter_at env ts p v n = (Ok (), n')" "dn_parameters n' = bt_insert p v (dn_parameters n)"
      "dn_use_sim_time n' = s" "s = (if p = ''use_sim_time'' then v = Boolean True else dn_use_sim_time n)"
      "p = ''use_sim_time'' \<Longrightarrow> v = Boolean s" "dn_allow_undeclared n' = dn_allow_undeclared n"
      "dn_parameter_validator n' = dn_parameter_validator n"
proof -
  let ?m = "n\<lparr>dn_use_sim_time := (v = Boolean True)\<rparr>"
  have exec: "execute_parameter_set_actions p v n = (Ok (), if p = ''use_sim_time'' then ?m else n) \<and> (p = ''use_sim_time'' \<longrightarrow> (\<exists>b. v = Boolean b))
      \<or> (\<exists>e. execute_parameter_set_actions p v n = (Err e, n))"
    by (auto simp: execute_parameter_set_actions_def split: parameter_value.splits option.splits sum.splits)
      (metis old.sum.exhaust unit.exhaust)+
  show thesis
  proof (cases "dn_allow_undeclared n \<or> map_of (dn_parameters n) p \<noteq> None")
    case False
    then show thesis using undeclared by (simp add: set_parameter_at_def)
  next
    case declared: True
    show thesis
    proof (cases "validate_parameter_on_set p v n")
      case (Inl e)
      then show thesis using declared invalid by (auto simp: set_parameter_at_def Let_def)
    next
      case (Inr u)
      show thesis using exec
      proof
        assume ex: "execute_parameter_set_actions p v n = (Ok (), if p = ''use_sim_time'' then ?m else n) \<and> (p = ''use_sim_time'' \<longrightarrow> (\<exists>b. v = Boolean b))"
        let ?n = "snd (set_parameter_at env ts p v n)"
        have r: "set_parameter_at env ts p v n = (Ok (), ?n)" "dn_parameters ?n = bt_insert p v (dn_parameters n)"
          "dn_use_sim_time ?n = (if p = ''use_sim_time'' then v = Boolean True else dn_use_sim_time n)"
          "dn_allow_undeclared ?n = dn_allow_undeclared n" "dn_parameter_validator ?n = dn_parameter_validator n"
          using declared Inr ex by (simp_all add: set_parameter_at_def Let_def case_prod_unfold dn_publish_event_def)
        have "p = ''use_sim_time'' \<Longrightarrow> v = Boolean (dn_use_sim_time ?n)" using ex r(3) by auto
        then show thesis using declared Inr by (intro stored [OF _ _ r(1,2) refl r(3) _ r(4,5)]) simp_all
      next
        assume "\<exists>e. execute_parameter_set_actions p v n = (Err e, n)"
        then show thesis using declared Inr refused by (auto simp: set_parameter_at_def Let_def)
      qed
    qed
  qed
qed

interpretation node_params: parameter_backend dn_parameters "node_set_parameter env"
proof unfold_locales
  fix n v s u s' assume "node_set_parameter env n v s = (Ok u, s')"
  then show "dn_parameters s' = bt_insert n v (dn_parameters s)" unfolding node_set_parameter_def
    by (cases rule: set_parameter_at_cases [where n = s and p = n and env = env and v = v and ts = "\<lambda>n. de_to_timestamp env (time_now env n)"]) auto
next
  fix n v s r s' assume "node_set_parameter env n v s = (Err r, s')"
  then show "dn_parameters s' = dn_parameters s" unfolding node_set_parameter_def
    by (cases rule: set_parameter_at_cases [where n = s and p = n and env = env and v = v and ts = "\<lambda>n. de_to_timestamp env (time_now env n)"]) auto
qed

interpretation spinner_params: parameter_backend dn_parameters "spinner_set_parameter env"
proof unfold_locales
  fix n v s u s' assume "spinner_set_parameter env n v s = (Ok u, s')"
  then show "dn_parameters s' = bt_insert n v (dn_parameters s)" unfolding spinner_set_parameter_def
    by (cases rule: set_parameter_at_cases [where n = s and p = n and env = env and v = v and ts = "\<lambda>n. de_timestamp_now env"]) auto
next
  fix n v s r s' assume "spinner_set_parameter env n v s = (Err r, s')"
  then show "dn_parameters s' = dn_parameters s" unfolding spinner_set_parameter_def
    by (cases rule: set_parameter_at_cases [where n = s and p = n and env = env and v = v and ts = "\<lambda>n. de_timestamp_now env"]) auto
qed

subsection \<open>Remote requests\<close>

definition sim_ok :: "('q, 't) dds_node \<Rightarrow> bool" where
  "sim_ok n \<longleftrightarrow> (\<forall>v. map_of (dn_parameters n) ''use_sim_time'' = Some v \<longrightarrow> v = Boolean (dn_use_sim_time n))"

definition params_safe :: "('q, 't) dds_node \<Rightarrow> ('q, 't) dds_node \<Rightarrow> bool" where
  "params_safe n0 n \<longleftrightarrow> \<not> dn_allow_undeclared n \<and> dn_parameter_validator n = dn_parameter_validator n0
     \<and> dom (map_of (dn_parameters n)) = dom (map_of (dn_parameters n0))
     \<and> (\<forall>p v. map_of (dn_parameters n) p = Some v \<longrightarrow>
          map_of (dn_parameters n0) p = Some v \<or> validate_parameter_on_set p v n0 = Ok ())
     \<and> sim_ok n"

lemma validate_cong: "dn_parameter_validator n = dn_parameter_validator n' \<Longrightarrow> validate_parameter_on_set p v n = validate_parameter_on_set p v n'"
  by (simp add: validate_parameter_on_set_def)

lemma params_safe_set:
  assumes "params_safe n0 n"
  shows "params_safe n0 (snd (set_parameter_at env ts p v n))"
proof (cases rule: set_parameter_at_cases [of n p env ts v])
  case (stored s n')
  have dom: "map_of (dn_parameters n) p \<noteq> None" and val: "validate_parameter_on_set p v n0 = Ok ()"
    using stored(1,2) assms validate_cong [of n n0 p v] by (auto simp: params_safe_def)
  have ps: "map_of (dn_parameters n') = (map_of (dn_parameters n))(p \<mapsto> v)" using stored(4) by (simp add: map_laws)
  have "sim_ok n'" using assms stored(5-7) by (auto simp: sim_ok_def params_safe_def ps)
  then show ?thesis
    using assms dom val stored(3,8,9) by (auto simp: params_safe_def ps)
qed (use assms in simp_all)

lemma params_safe_set_each: "params_safe n0 n \<Longrightarrow> params_safe n0 (snd (set_each (spinner_set_parameter env) params n))"
proof (induction params arbitrary: n)
  case (Cons rp params)
  let ?p = "parameter_from_raw rp"
  have "params_safe n0 (snd (spinner_set_parameter env (par_name ?p) (par_value ?p) n))"
    using params_safe_set [OF Cons.prems] by (simp add: spinner_set_parameter_def)
  then show ?case using Cons.IH by (simp add: Let_def case_prod_unfold)
qed simp

lemma params_safe_cong:
  assumes "dn_parameters n' = dn_parameters n" and "dn_use_sim_time n' = dn_use_sim_time n"
    and "dn_allow_undeclared n' = dn_allow_undeclared n" and "dn_parameter_validator n' = dn_parameter_validator n"
  shows "params_safe n0 n' = params_safe n0 n"
  using assms by (simp add: params_safe_def sim_ok_def)

lemma params_safe_step:
  assumes "params_safe n0 n"
  shows "params_safe n0 (snd (spinner_step env k e (sp, n)))"
proof (cases "\<exists>i params. e = SetParameters (Inr (i, params))")
  case True
  then show ?thesis using params_safe_set_each [OF assms] by (auto simp: Let_def case_prod_unfold)
next
  case False
  have "params_safe n0 (snd (spinner_step env k e (sp, n))) = params_safe n0 n"
    by (rule params_safe_cong)
      (use False in \<open>cases "(env, k, e, (sp, n))" rule: spinner_step.cases; auto simp: Let_def handle_ros_discovery_def\<close>)+
  then show ?thesis using assms by simp
qed

lemma params_safe_spin: "params_safe n0 (snd s) \<Longrightarrow> params_safe n0 (snd (fst (dds_spin env k evs s)))"
proof (induction evs arbitrary: s)
  case (Cons e evs)
  have "params_safe n0 (snd (spinner_step env k e s))"
    using params_safe_step [of n0 "snd s" env k e "fst s"] Cons.prems by simp
  then show ?case using Cons by (cases e) simp_all
qed simp

text \<open>C17. Whatever arrives at the spinner, remote requests neither declare nor remove a parameter, every
  value they leave behind was accepted by the validator, and the flag that selects simulated time
  stays equal to the parameter \<open>use_sim_time\<close>.\<close>

theorem remote_requests_safe:
  assumes "\<not> dn_allow_undeclared n" and "sim_ok n" and "snd (fst (dds_spin env k evs (sp, n))) = n'"
  shows "dom (map_of (dn_parameters n')) = dom (map_of (dn_parameters n))
    \<and> (\<forall>p v. map_of (dn_parameters n') p = Some v \<longrightarrow> map_of (dn_parameters n) p = Some v \<or> validate_parameter_on_set p v n = Ok ())
    \<and> sim_ok n'"
  using params_safe_spin [of n "(sp, n)" env k evs] assms by (auto simp: params_safe_def)

theorem remote_requests_safe_witness:
  "node_get_parameter ''x'' (snd (fst (dds_spin spun_env spun_codecs
     [SetParameters (Inr (\<lparr>rr_writer_guid = [], rr_sequence_number = 1\<rparr>,
        [raw_from_parameter \<lparr>par_name = ''x'', par_value = Integer 3\<rparr>]))]
     (\<lparr>sp_parameter_servers = None, sp_clock_topic = de_rosout_topic spun_env\<rparr>, spun_node)))) = None"
proof -
  have "\<not> dn_allow_undeclared spun_node" "sim_ok spun_node" "map_of (dn_parameters spun_node) ''x'' = None"
    by (simp_all add: spun_node_def initial_node_def node_options_new_def sim_ok_def declared_parameters_def)
  from remote_requests_safe [OF this(1,2) refl] this(3) show ?thesis
    unfolding node_get_parameter_def by (metis domIff)
qed

subsection \<open>Simulated time\<close>

lemma declared_use_sim_time: "map_of (declared_parameters opts) ''use_sim_time'' = Some (Boolean False)"
  by (simp add: declared_parameters_def map_laws)

end
