(* ===== verification/Dds_Graph.thy ===== *)
theory Dds_Graph
  imports Dds_Params
begin

text \<open>
  Several nodes in one context of the DDS backend. All nodes of a context share its table of local
  nodes (\<open>context.rs\<close>) behind a lock: each operation of a node runs on the table the others left.
  Shown is that the participant's last discovery message describes exactly the nodes that exist,
  what the spinner of a node in another participant makes of it, and how two nodes of the same name
  break it.
\<close>

subsection \<open>Contexts with their nodes\<close>

record ('q, 't) dds_system =
  ds_context :: dds_context
  ds_nodes :: "('q, 't) dds_node list"

text \<open>A node as it sees the context: the copy of the context in its state is only a handle.\<close>

definition seen :: "dds_context \<Rightarrow> ('q, 't) dds_node \<Rightarrow> ('q, 't) dds_node" where
  "seen c n = n\<lparr>dn_context := c\<rparr>"

definition on_node :: "nat \<Rightarrow> (('q, 't) dds_node \<Rightarrow> ('q, 't) dds_node) \<Rightarrow> ('q, 't) dds_system \<Rightarrow> ('q, 't) dds_system" where
  "on_node i f s =
     (let n = f (seen (ds_context s) (ds_nodes s ! i))
      in \<lparr>ds_context = dn_context n, ds_nodes = (ds_nodes s)[i := n]\<rparr>)"

definition add_node :: "('q, 't) dds_env \<Rightarrow> node_name \<Rightarrow> node_options \<Rightarrow> ('q, 't) dds_system \<Rightarrow> ('q, 't) dds_system" where
  "add_node env name opts s =
     (case node_new env name opts (ds_context s) [] of
        (Inl _, c) \<Rightarrow> s\<lparr>ds_context := c\<rparr>
      | (Inr n, c) \<Rightarrow> \<lparr>ds_context = c, ds_nodes = ds_nodes s @ [n]\<rparr>)"

definition drop_at :: "('q, 't) dds_env \<Rightarrow> nat \<Rightarrow> ('q, 't) dds_system \<Rightarrow> ('q, 't) dds_system" where
  "drop_at env i s =
     \<lparr>ds_context = dn_context (drop_node env (seen (ds_context s) (ds_nodes s ! i))),
      ds_nodes = take i (ds_nodes s) @ drop (Suc i) (ds_nodes s)\<rparr>"

text \<open>What an application does with a node it has. Running the spinner takes the topic of ROS discovery, which the
  context made when it was opened.\<close>

datatype 'q node_action =
    DoTopic name message_type_name 'q
  | DoSubscription "'q dds_topic" "'q option"
  | DoPublisher "'q dds_topic" "'q option"
  | DoClient service_mapping name service_type_name 'q 'q
  | DoServer service_mapping name service_type_name 'q 'q
  | DoRawServer name service_type_name 'q 'q
  | DoRawPublisher "'q dds_topic" "'q option"
  | DoRawSubscription "'q dds_topic" "'q option"
  | DoActionClient service_mapping name action_type_name "'q action_qos"
  | DoActionServer service_mapping name action_type_name "'q action_qos"
  | DoRawActionServer name action_type_name "'q action_qos"
  | DoSpinner
  | DoSetParameter string parameter_value
  | DoUndeclareParameter string
  | DoStopSpinner
  | DoSpin "'q spinner" "'q dds_topic" spin_codecs "spin_event list"

fun run_action :: "('q, 't) dds_env \<Rightarrow> 'q node_action \<Rightarrow> ('q, 't) dds_node \<Rightarrow> ('q, 't) dds_node" where
  "run_action env (DoTopic nm mt q) n = snd (dds_create_topic env nm mt q n)"
| "run_action env (DoSubscription t qo) n = snd (dds_create_subscription env t qo n)"
| "run_action env (DoPublisher t qo) n = snd (dds_create_publisher env t qo n)"
| "run_action env (DoClient mapping nm st q q') n = snd (dds_create_client env mapping nm st q q' n)"
| "run_action env (DoServer mapping nm st q q') n = snd (dds_create_server env mapping nm st q q' n)"
| "run_action env (DoRawServer nm st q q') n = snd (dds_create_raw_server env nm st q q' n)"
| "run_action env (DoRawPublisher t qo) n = snd (dds_create_raw_publisher env t qo n)"
| "run_action env (DoRawSubscription t qo) n = snd (dds_create_raw_subscription env t qo n)"
| "run_action env (DoActionClient mapping nm at aq) n = snd (dds_create_action_client env mapping nm at aq n)"
| "run_action env (DoActionServer mapping nm at aq) n =
     snd ((dds_create_action_server env mapping nm at aq :: ('q, 't, unit dds_action_server) dnode_op) n)"
| "run_action env (DoRawActionServer nm at aq) n = snd (dds_create_raw_action_server env nm at aq n)"
| "run_action env DoSpinner n = snd (create_spinner env n)"
| "run_action env (DoSetParameter p v) n = snd (node_set_parameter env p v n)"
| "run_action env (DoUndeclareParameter p) n = undeclare_parameter env p n"
| "run_action env DoStopSpinner n = stop_spinner n"
| "run_action env (DoSpin sp t k evs) n = snd (snd (spinner_spin env k t evs sp n))"

definition action_ok :: "('q, 't) dds_env \<Rightarrow> 'q node_action \<Rightarrow> ('q, 't) dds_node \<Rightarrow> bool" where
  "action_ok env a n \<longleftrightarrow> (a = DoSpinner \<longrightarrow> (\<exists>sp. fst (create_spinner env n) = Ok sp))"

text \<open>The participant may behave differently at every step. In an \<open>orderly\<close> history the discovery writer takes
  what it is given, no two nodes of the context have the same full name, and no spinner fails to be created. The code asks for
  none of this: see \<open>same_name_node_withdrawn\<close>, \<open>failed_spinner_silences_node\<close> and \<open>refused_message_lost\<close> for
  what happens otherwise.\<close>

inductive system_reach :: "bool \<Rightarrow> ('q, 't) dds_system \<Rightarrow> bool" for orderly :: bool where
  reach_empty: "cx_local_nodes c = [] \<Longrightarrow> dp_written (cx_node_writer c) = [] \<Longrightarrow> system_reach orderly \<lparr>ds_context = c, ds_nodes = []\<rparr>"
| reach_add: "system_reach orderly s \<Longrightarrow> (orderly \<Longrightarrow> de_info_ok env = (\<lambda>_. True)) \<Longrightarrow> node_name_new ns b = Ok name \<Longrightarrow>
    (orderly \<Longrightarrow> fully_qualified_name name \<notin> dn_fully_qualified_name ` set (ds_nodes s)) \<Longrightarrow> system_reach orderly (add_node env name opts s)"
| reach_action: "system_reach orderly s \<Longrightarrow> (orderly \<Longrightarrow> de_info_ok env = (\<lambda>_. True)) \<Longrightarrow> i < length (ds_nodes s) \<Longrightarrow>
    (orderly \<Longrightarrow> action_ok env a (seen (ds_context s) (ds_nodes s ! i))) \<Longrightarrow> system_reach orderly (on_node i (run_action env a) s)"
| reach_drop: "system_reach orderly s \<Longrightarrow> (orderly \<Longrightarrow> de_info_ok env = (\<lambda>_. True)) \<Longrightarrow> i < length (ds_nodes s) \<Longrightarrow>
    system_reach orderly (drop_at env i s)"

subsection \<open>An operation of one node leaves the records of the others\<close>

text \<open>\<open>framed n0 n\<close>: \<open>n\<close> is a later state of \<open>n0\<close> that changed the shared table at its own name only.\<close>

definition framed :: "('q, 't) dds_node \<Rightarrow> ('q, 't) dds_node \<Rightarrow> bool" where
  "framed n0 n \<longleftrightarrow> dn_name n = dn_name n0
     \<and> cx_gid_length (dn_context n) = cx_gid_length (dn_context n0)
     \<and> cx_participant_guid (dn_context n) = cx_participant_guid (dn_context n0)
     \<and> dp_guid (cx_node_writer (dn_context n)) = dp_guid (cx_node_writer (dn_context n0))
     \<and> (hm_inv (cx_local_nodes (dn_context n0)) \<longrightarrow> hm_inv (cx_local_nodes (dn_context n)))
     \<and> (\<forall>k. k \<noteq> dn_fully_qualified_name n0 \<longrightarrow> map_of (cx_local_nodes (dn_context n)) k = map_of (cx_local_nodes (dn_context n0)) k)"

lemma framed_refl: "framed n n"
  by (simp add: framed_def)

lemma framed_same_context:
  "framed n0 n \<Longrightarrow> dn_name n' = dn_name n \<Longrightarrow> dn_context n' = dn_context n \<Longrightarrow> framed n0 n'"
  by (simp add: framed_def)

lemma framed_updates [simp]:
  "framed n0 (n\<lparr>dn_calls := cs\<rparr>) = framed n0 n" "framed n0 (n\<lparr>dn_writers := gs\<rparr>) = framed n0 n"
  "framed n0 (n\<lparr>dn_readers := gs\<rparr>) = framed n0 n" "framed n0 (n\<lparr>dn_stop_spin_sender := x\<rparr>) = framed n0 n"
  "framed n0 (n\<lparr>dn_suppress := b\<rparr>) = framed n0 n" "framed n0 (n\<lparr>dn_sim_time := t\<rparr>) = framed n0 n"
  "framed n0 (n\<lparr>dn_rosout_writer := w\<rparr>) = framed n0 n" "framed n0 (n\<lparr>dn_rosout_reader := w\<rparr>) = framed n0 n"
  "framed n0 (n\<lparr>dn_external_nodes := e\<rparr>) = framed n0 n" "framed n0 (n\<lparr>dn_status_event_senders := ss\<rparr>) = framed n0 n"
  by (simp_all add: framed_def)

lemma context_update_fields [simp]:
  "cx_participant_guid (update_node write i c) = cx_participant_guid c"
  "cx_participant_guid (remove_node write f c) = cx_participant_guid c"
  "hm_inv (cx_local_nodes c) \<Longrightarrow> hm_inv (cx_local_nodes (update_node write i c))"
  "hm_inv (cx_local_nodes c) \<Longrightarrow> hm_inv (cx_local_nodes (remove_node write f c))"
  by (simp_all add: update_node_def remove_node_def Let_def hash_map.inv_insert hash_map.inv_remove)

lemma framed_announce: "framed n0 n \<Longrightarrow> framed n0 (announce env n)"
  by (auto simp: framed_def announce_def ne_fully_qualified_name_def dn_fully_qualified_name_def)

lemma framed_suppress: "framed n0 n \<Longrightarrow> framed n0 (suppress_node_info_updates env b n)"
  by (auto simp: suppress_node_info_updates_def Let_def intro!: framed_announce)

lemma keeps_framed_primitives:
  "keeps (framed n0) (participant_create_topic env name ty q)" "keeps (framed n0) (create_datawriter env t qo)"
  "keeps (framed n0) (create_simpledatareader env t qo)"
  by (auto intro!: keepsI framed_announce
      simp: participant_create_topic_def create_datawriter_def create_simpledatareader_def context_create_writer_def
        context_create_reader_def dnode_bind_def dn_add_writer_def dn_add_reader_def Let_def split: option.splits)

lemma framed_set_parameter: "framed n0 n \<Longrightarrow> framed n0 (snd (set_parameter_at env ts p v n))"
  by (erule framed_same_context)
    (auto simp: set_parameter_at_def execute_parameter_set_actions_def dn_publish_event_def Let_def
      split: sum.splits option.splits parameter_value.splits)

lemma framed_undeclare: "framed n0 n \<Longrightarrow> framed n0 (undeclare_parameter env p n)"
  by (erule framed_same_context) (auto simp: undeclare_parameter_def dn_publish_event_def Let_def split: option.splits)

lemma framed_stop: "framed n0 n \<Longrightarrow> framed n0 (stop_spinner n)"
  by (erule framed_same_context) (auto simp: stop_spinner_def split: option.splits)

lemma framed_check_parameters: "framed n0 n \<Longrightarrow> framed n0 (snd (check_parameters ps n))"
proof (induction ps n rule: check_parameters.induct)
  case (2 name v ps n)
  have "framed n0 (snd (execute_parameter_set_actions name v n))"
    by (rule framed_same_context [OF 2(2)])
      (auto simp: execute_parameter_set_actions_def split: option.splits parameter_value.splits)
  then show ?case using 2
    by (cases "execute_parameter_set_actions name v n") (auto split: sum.splits)
qed simp

text \<open>What the spinner does to a node besides setting parameters touches neither its endpoints nor the
  context.\<close>

lemma spinner_set_each_induct:
  assumes "P n" and "\<And>p v n. P n \<Longrightarrow> P (snd (spinner_set_parameter env p v n))"
  shows "P (snd (set_each (spinner_set_parameter env) params n))"
  using assms(1) by (induction params arbitrary: n) (auto simp: assms(2) case_prod_unfold Let_def)

lemma spinner_step_induct:
  assumes "P n" and "\<And>p v n. P n \<Longrightarrow> P (snd (spinner_set_parameter env p v n))"
    and "\<And>t n. P n \<Longrightarrow> P (n\<lparr>dn_sim_time := t\<rparr>)" and "\<And>u n. P n \<Longrightarrow> P (handle_ros_discovery u n)"
    and "\<And>ev n. P n \<Longrightarrow> P (send_status_event (EventDDS ev) (handle_dp_status ev n))"
  shows "P (snd (spinner_step env k e (sp, n)))"
  using assms(1)
  by (cases "(env, k, e, (sp, n))" rule: spinner_step.cases)
    (auto simp: assms(3-5) case_prod_unfold Let_def intro: spinner_set_each_induct assms(2))

lemma dds_spin_induct:
  assumes "P n" and "\<And>p v n. P n \<Longrightarrow> P (snd (spinner_set_parameter env p v n))"
    and "\<And>t n. P n \<Longrightarrow> P (n\<lparr>dn_sim_time := t\<rparr>)" and "\<And>u n. P n \<Longrightarrow> P (handle_ros_discovery u n)"
    and "\<And>ev n. P n \<Longrightarrow> P (send_status_event (EventDDS ev) (handle_dp_status ev n))"
  shows "P (snd (fst (dds_spin env k evs (sp, n))))"
  using assms(1)
proof (induction evs arbitrary: sp n)
  case (Cons e evs)
  have "P (snd (spinner_step env k e (sp, n)))"
    using spinner_step_induct [where P = P, OF Cons.prems assms(2-5)] by blast
  then show ?case
    using Cons by (cases e; cases "spinner_step env k e (sp, n)") auto
qed simp

lemma handle_status_context [simp]:
  "dn_context (handle_dp_status ev n) = dn_context n" "dn_name (handle_dp_status ev n) = dn_name n"
  by (cases ev; simp)+

lemma framed_create_spinner: "framed n0 n \<Longrightarrow> framed n0 (snd (create_spinner env n))"
proof -
  let ?b = "dn_start_parameter_services n"
  let ?m = "dnode_bind (\<lambda>n. (Ok (), suppress_node_info_updates env True (n\<lparr>dn_stop_spin_sender := Some 0\<rparr>))) (\<lambda>_.
        dnode_bind (if ?b then dnode_bind (create_parameter_servers env) (\<lambda>s. dnode_return (Some s)) else dnode_return None) (\<lambda>servers.
        dnode_bind (dnode_unwrap (name_new ''/'' ''clock'')) (\<lambda>clock.
        dnode_bind (dds_create_topic env clock (message_type_name_new ''builtin_interfaces'' ''Time'')
          (de_default_subscription_qos env)) (\<lambda>clock_topic n.
          (Ok \<lparr>sp_parameter_servers = servers, sp_clock_topic = clock_topic\<rparr>, suppress_node_info_updates env False n)))))"
  have "keeps (framed n0) ?m"
    by (intro keeps_intros keeps_constructors keeps_action_constructors keeps_framed_primitives)
      (auto intro!: keepsI framed_suppress)
  then show "framed n0 n \<Longrightarrow> framed n0 (snd (create_spinner env n))"
    by (auto simp: create_spinner_def dest: keepsD)
qed

lemma spinner_spin_induct:
  assumes "P n" and "\<And>t g n. P n \<Longrightarrow> P (n\<lparr>dn_calls := dn_calls n @ [SpinReader t None g]\<rparr>)"
    and "\<And>p v n. P n \<Longrightarrow> P (snd (spinner_set_parameter env p v n))"
    and "\<And>t n. P n \<Longrightarrow> P (n\<lparr>dn_sim_time := t\<rparr>)" and "\<And>u n. P n \<Longrightarrow> P (handle_ros_discovery u n)"
    and "\<And>ev n. P n \<Longrightarrow> P (send_status_event (EventDDS ev) (handle_dp_status ev n))"
  shows "P (snd (snd (spinner_spin env k t evs sp n)))"
proof -
  have r: "keeps P (spinner_reader env t)" for t
    by (rule keepsI) (simp add: spinner_reader_def assms(2) split: option.split)
  have "keeps P (spin_start env t sp)"
    unfolding spin_start_def by (intro keeps_intros r)
  then have start: "P (snd (spin_start env t sp n))" by (rule keepsD) (rule assms(1))
  have "P (snd (fst (dds_spin env k evs (sp, snd (spin_start env t sp n)))))"
    by (rule dds_spin_induct [where P = P, OF start assms(3-6)])
  then show ?thesis using start by (auto simp: spinner_spin_def split: prod.splits sum.splits)
qed

text \<open>An invariant of the primitive steps and of the operations that create nothing is one of every
  action.\<close>

lemma run_action_invariant:
  assumes "\<And>name ty q. keeps P (participant_create_topic env name ty q)" and "\<And>t q. keeps P (create_datawriter env t q)"
    and "\<And>t q. keeps P (create_simpledatareader env t q)" and "P n"
    and "a = DoSpinner \<Longrightarrow> P (snd (create_spinner env n))" and "\<And>ts p v n. P n \<Longrightarrow> P (snd (set_parameter_at env ts p v n))"
    and "\<And>p. P (undeclare_parameter env p n)" and "P (stop_spinner n)"
    and "\<And>t n. P n \<Longrightarrow> P (n\<lparr>dn_sim_time := t\<rparr>)" and "\<And>u n. P n \<Longrightarrow> P (handle_ros_discovery u n)"
    and "\<And>ev n. P n \<Longrightarrow> P (send_status_event (EventDDS ev) (handle_dp_status ev n))"
    and "\<And>t g n. P n \<Longrightarrow> P (n\<lparr>dn_calls := dn_calls n @ [SpinReader t None g]\<rparr>)"
  shows "P (run_action env a n)"
proof (cases a)
  case (DoSpin sp t k evs)
  have "P (snd (snd (spinner_spin env k t evs sp n)))"
    by (rule spinner_spin_induct [where P = P, OF assms(4)]) (simp_all add: assms spinner_set_parameter_def)
  then show ?thesis using DoSpin by simp
qed (auto intro!: keepsD [where P = P and n = n, OF _ assms(4)] keeps_constructors [where P = P, OF assms(1-3)]
    keeps_action_constructors [where P = P, OF assms(1-3)] simp: assms(5-8) assms(6) [OF assms(4)] node_set_parameter_def)

lemma framed_action: "framed n (run_action env a n)"
proof (rule run_action_invariant)
  show "framed n (snd (create_spinner env n))" by (rule framed_create_spinner [OF framed_refl])
qed (auto intro: keeps_framed_primitives framed_refl framed_set_parameter framed_undeclare framed_stop framed_same_context
    simp: handle_ros_discovery_def send_status_event_def)

lemma framed_set_up: "framed n0 n \<Longrightarrow> framed n0 (snd (set_up_node env opts n))"
proof -
  have "keeps (framed n0) (set_up_node env opts)"
    unfolding set_up_node_def
    by (intro keeps_intros keeps_constructors keeps_framed_primitives)
      (auto intro!: keepsI framed_suppress framed_check_parameters)
  then show "framed n0 n \<Longrightarrow> framed n0 (snd (set_up_node env opts n))" by (rule keepsD)
qed

subsection \<open>The invariant of a context\<close>

definition system_ok :: "('q, 't) dds_system \<Rightarrow> bool" where
  "system_ok s \<longleftrightarrow> hm_inv (cx_local_nodes (ds_context s)) \<and> distinct (map dn_fully_qualified_name (ds_nodes s))
     \<and> dom (map_of (cx_local_nodes (ds_context s))) = dn_fully_qualified_name ` set (ds_nodes s)
     \<and> (\<forall>n\<in>set (ds_nodes s). announced (seen (ds_context s) n) \<and> wf_node_name (dn_name n))
     \<and> (broadcast_current (ds_context s) \<or> ds_nodes s = [] \<and> dp_written (cx_node_writer (ds_context s)) = [])"

lemma seen_fields [simp]:
  "dn_context (seen c n) = c" "dn_name (seen c n) = dn_name n" "dn_fully_qualified_name (seen c n) = dn_fully_qualified_name n"
  "seen c (seen c' n) = seen c n" "seen (dn_context n) n = n"
  "dn_calls (seen c n) = dn_calls n" "dn_suppress (seen c n) = dn_suppress n"
  by (simp_all add: seen_def dn_fully_qualified_name_def)

text \<open>The announcement of a node outlives the operations of another one.\<close>

lemma announced_elsewhere:
  assumes "framed m m'" and "dn_fully_qualified_name n \<noteq> dn_fully_qualified_name m" and "broadcast_current (dn_context m')"
    and "announced (seen (dn_context m) n)"
  shows "announced (seen (dn_context m') n)"
proof -
  have g: "generate_node_info (seen (dn_context m') n) = generate_node_info (seen (dn_context m) n)"
    using assms(1) by (intro generate_node_info_cong) (simp_all add: seen_def framed_def)
  have gid: "node_gid (seen (dn_context m') n) = node_gid (seen (dn_context m) n)"
    using assms(1) by (simp add: framed_def node_gid_def fun_eq_iff)
  have "endpoint_listed (seen (dn_context m') n) c = endpoint_listed (seen (dn_context m) n) c" for c
    using gid by (cases c) (simp_all add: seen_def)
  then have "endpoint_listed (seen (dn_context m') n) = endpoint_listed (seen (dn_context m) n)" by blast
  moreover have "discovery_record (seen (dn_context m') n) = discovery_record (seen (dn_context m) n)"
    using g gid assms(1) by (simp add: discovery_record_def framed_def)
  ultimately show ?thesis
    using assms by (simp add: announced_def recorded_def framed_def)
qed

lemma announced_spin_reader:
  assumes "announced n"
  shows "announced (n\<lparr>dn_calls := dn_calls n @ [SpinReader t q g]\<rparr>)"
proof -
  let ?n = "n\<lparr>dn_calls := dn_calls n @ [SpinReader t q g]\<rparr>"
  have "endpoint_listed ?n c = endpoint_listed n c" for c by (cases c) (simp_all add: node_gid_def)
  then have l: "endpoint_listed ?n = endpoint_listed n" by blast
  have "generate_node_info ?n = generate_node_info n" by (rule generate_node_info_cong) simp_all
  then show ?thesis
    using assms l by (simp add: announced_def recorded_def discovery_record_def dn_fully_qualified_name_def node_gid_def)
qed

lemma announced_action:
  assumes "de_info_ok env = (\<lambda>_. True)" and "announced n" and "action_ok env a n"
  shows "announced (run_action env a n)"
proof (rule run_action_invariant)
  show "announced (snd (create_spinner env n))" if "a = DoSpinner"
    using create_spinner_announced [OF assms(1,2)] assms(3) that
    by (cases "create_spinner env n") (auto simp: action_ok_def)
  show "announced (handle_ros_discovery u m)" if "announced m" for u m
    using that by (subst announced_cong [of _ m]) (simp_all add: handle_ros_discovery_def send_status_event_def)
  show "announced (send_status_event (EventDDS ev) (handle_dp_status ev m))" if "announced m" for ev m
    using that by (subst announced_cong [of _ m]) (cases ev; simp add: send_status_event_def)+
  show "announced (m\<lparr>dn_sim_time := t\<rparr>)" if "announced m" for t m
    using that by (subst announced_cong [of _ m]) simp_all
  show "announced (m\<lparr>dn_calls := dn_calls m @ [SpinReader t None g]\<rparr>)" if "announced m" for t g m
    by (rule announced_spin_reader [OF that])
  show "announced (stop_spinner n)"
    using assms(2) by (subst announced_cong [of _ n]) (simp_all add: stop_spinner_def split: option.splits)
qed (simp_all add: keeps_announced_primitives assms announced_set_parameter announced_undeclare)

lemma system_ok_action:
  assumes "system_ok s" and "de_info_ok env = (\<lambda>_. True)" and "i < length (ds_nodes s)"
    and "action_ok env a (seen (ds_context s) (ds_nodes s ! i))"
  shows "system_ok (on_node i (run_action env a) s)"
proof -
  let ?m = "seen (ds_context s) (ds_nodes s ! i)"
  define m' where "m' = run_action env a ?m"
  have fr: "framed ?m m'" unfolding m'_def by (rule framed_action)
  have mem: "ds_nodes s ! i \<in> set (ds_nodes s)" using assms(3) by simp
  have ann: "announced m'" using assms mem unfolding m'_def by (intro announced_action) (auto simp: system_ok_def)
  have fqn: "dn_fully_qualified_name m' = dn_fully_qualified_name (ds_nodes s ! i)"
    using fr by (simp add: framed_def dn_fully_qualified_name_def seen_def)
  then have names: "map dn_fully_qualified_name ((ds_nodes s)[i := m']) = map dn_fully_qualified_name (ds_nodes s)"
    using assms(3) by (simp add: map_update list_update_same_conv)
  have "announced (seen (dn_context m') n)" if upd: "n \<in> set ((ds_nodes s)[i := m'])" for n
  proof -
    obtain j where j: "j < length (ds_nodes s)" "n = (ds_nodes s)[i := m'] ! j"
      using upd by (metis in_set_conv_nth length_list_update)
    show ?thesis
    proof (cases "j = i")
      case False
      then have n: "n = ds_nodes s ! j" using j by simp
      have "dn_fully_qualified_name n \<noteq> dn_fully_qualified_name ?m"
        using False assms(1,3) j(1) n by (auto simp: system_ok_def distinct_conv_nth)
      moreover have "broadcast_current (dn_context m')" using ann by (simp add: announced_def)
      moreover have "announced (seen (dn_context ?m) n)" using assms(1) j(1) n by (simp add: system_ok_def)
      ultimately show ?thesis by (rule announced_elsewhere [OF fr])
    qed (use ann j in simp)
  qed
  moreover have "dom (map_of (cx_local_nodes (dn_context m'))) = dn_fully_qualified_name ` set ((ds_nodes s)[i := m'])"
  proof -
    let ?k = "dn_fully_qualified_name (ds_nodes s ! i)"
    have "map_of (cx_local_nodes (dn_context m')) ?k \<noteq> None" using ann fqn by (simp add: announced_def recorded_def)
    moreover have "map_of (cx_local_nodes (ds_context s)) ?k \<noteq> None" using assms(1) mem by (auto simp: system_ok_def)
    moreover have "\<forall>k. k \<noteq> ?k \<longrightarrow> map_of (cx_local_nodes (dn_context m')) k = map_of (cx_local_nodes (ds_context s)) k"
      using fr by (simp add: framed_def)
    ultimately have "dom (map_of (cx_local_nodes (dn_context m'))) = dom (map_of (cx_local_nodes (ds_context s)))"
      unfolding dom_def by metis
    then show ?thesis using assms(1) names by (simp add: system_ok_def flip: set_map)
  qed
  moreover have "wf_node_name (dn_name m')" using assms(1) mem fr by (auto simp: system_ok_def framed_def)
  moreover have "hm_inv (cx_local_nodes (dn_context m'))" using assms(1) fr by (simp add: system_ok_def framed_def)
  ultimately show ?thesis
    using assms(1) names ann
    by (auto simp: system_ok_def on_node_def m'_def [symmetric] announced_def dest!: set_update_subset_insert [THEN subsetD])
qed

lemma announced_after_drop:
  assumes "de_info_ok env = (\<lambda>_. True)" and "dn_fully_qualified_name n \<noteq> dn_fully_qualified_name m"
    and "announced (seen (dn_context m) n)"
  shows "announced (seen (dn_context (drop_node env m)) n)"
proof (rule announced_elsewhere [OF _ assms(2) _ assms(3)])
  show "framed m (drop_node env m)"
    by (simp add: framed_def drop_node_def stop_spinner_def Let_def dn_fully_qualified_name_def split: option.splits)
  show "broadcast_current (dn_context (drop_node env m))"
    by (simp add: drop_node_def assms(1) broadcast_current_updates Let_def)
qed

lemma drop_node_context:
  "de_info_ok env = (\<lambda>_. True) \<Longrightarrow> broadcast_current (dn_context (drop_node env m))"
  "map_of (cx_local_nodes (dn_context (drop_node env m))) = (map_of (cx_local_nodes (dn_context m)))(dn_fully_qualified_name m := None)"
  "hm_inv (cx_local_nodes (dn_context m)) \<Longrightarrow> hm_inv (cx_local_nodes (dn_context (drop_node env m)))"
  by (auto simp: drop_node_def stop_spinner_def Let_def broadcast_current_updates dn_fully_qualified_name_def split: option.splits)

lemma system_ok_drop:
  assumes "system_ok s" and "de_info_ok env = (\<lambda>_. True)" and "i < length (ds_nodes s)"
  shows "system_ok (drop_at env i s)"
proof -
  let ?m = "seen (ds_context s) (ds_nodes s ! i)"
  define rest where "rest = take i (ds_nodes s) @ drop (Suc i) (ds_nodes s)"
  have split: "ds_nodes s = take i (ds_nodes s) @ ds_nodes s ! i # drop (Suc i) (ds_nodes s)"
    using assms(3) by (rule id_take_nth_drop)
  have "distinct (map dn_fully_qualified_name (take i (ds_nodes s) @ ds_nodes s ! i # drop (Suc i) (ds_nodes s)))"
    using assms(1) split by (simp add: system_ok_def)
  then have d: "distinct (map dn_fully_qualified_name rest)" "dn_fully_qualified_name (ds_nodes s ! i) \<notin> dn_fully_qualified_name ` set rest"
    unfolding rest_def by (simp_all add: image_Un)
  have mem: "set (ds_nodes s) = Set.insert (ds_nodes s ! i) (set rest)"
    using arg_cong [OF split, of set] by (auto simp: rest_def)
  have "announced (seen (dn_context (drop_node env ?m)) n)" if "n \<in> set rest" for n
  proof (rule announced_after_drop [OF assms(2)])
    show "dn_fully_qualified_name n \<noteq> dn_fully_qualified_name ?m" using imageI [OF that] d(2) by (metis seen_fields(3))
    show "announced (seen (dn_context ?m) n)" using assms(1) mem that by (simp add: system_ok_def)
  qed
  moreover have "dom (map_of (cx_local_nodes (dn_context (drop_node env ?m)))) = dn_fully_qualified_name ` set rest"
    using assms(1) mem d(2) by (auto simp: drop_node_context system_ok_def)
  ultimately show ?thesis
    using assms(1) mem d(1) by (auto simp: system_ok_def drop_at_def rest_def [symmetric] drop_node_context assms(2))
qed

lemma initial_fields [simp]:
  "dn_context (initial_node name opts c calls g) = c" "dn_name (initial_node name opts c calls g) = name"
  "dn_fully_qualified_name (initial_node name opts c calls g) = fully_qualified_name name"
  by (simp_all add: initial_node_def dn_fully_qualified_name_def)

lemma system_ok_add:
  assumes "system_ok s" and "de_info_ok env = (\<lambda>_. True)" and "wf_node_name name"
    and "fully_qualified_name name \<notin> dn_fully_qualified_name ` set (ds_nodes s)"
  shows "system_ok (add_node env name opts s)"
proof (cases "de_new_writer env [] (de_parameter_events_topic env)")
  case None
  then show ?thesis using assms(1) by (simp add: add_node_def node_new_def)
next
  case (Some g)
  define n0 :: "('a, 'b) dds_node" where
    "n0 = initial_node name opts (ds_context s) [CreateWriter (de_parameter_events_topic env) None g] g"
  obtain r n where set_up: "set_up_node env opts n0 = (r, n)" by (cases "set_up_node env opts n0")
  have fr: "framed n0 n" using framed_set_up [OF framed_refl, of n0 env opts] set_up by simp
  have fqn: "dn_fully_qualified_name n = fully_qualified_name name" "dn_name n = name" "dn_context n0 = ds_context s"
    "dn_fully_qualified_name n0 = fully_qualified_name name"
    using fr by (simp_all add: framed_def dn_fully_qualified_name_def n0_def)
  have others: "map_of (cx_local_nodes (dn_context n)) k = map_of (cx_local_nodes (ds_context s)) k"
    if "k \<noteq> fully_qualified_name name" for k using fr that fqn by (simp add: framed_def)
  have new: "map_of (cx_local_nodes (ds_context s)) (fully_qualified_name name) = None"
    using assms(1,4) by (auto simp: system_ok_def)
  have inv: "hm_inv (cx_local_nodes (dn_context n))" using fr fqn assms(1) by (simp add: framed_def system_ok_def)
  have stays: "announced (seen (dn_context m) x)" if "framed n0 m" "broadcast_current (dn_context m)" "x \<in> set (ds_nodes s)" for m x
  proof (rule announced_elsewhere [OF that(1) _ that(2)])
    show "dn_fully_qualified_name x \<noteq> dn_fully_qualified_name n0" using assms(4) imageI [OF that(3)] fqn by metis
    show "announced (seen (dn_context n0) x)" using assms(1) that(3) fqn by (simp add: system_ok_def)
  qed
  show ?thesis
  proof (cases r)
    case (Inl e)
    let ?n = "drop_node env n"
    have res: "add_node env name opts s = s\<lparr>ds_context := dn_context ?n\<rparr>"
      using Some set_up Inl by (simp add: add_node_def node_new_def n0_def)
    have "map_of (cx_local_nodes (dn_context ?n)) = map_of (cx_local_nodes (ds_context s))"
      using others new fqn by (auto simp: drop_node_context fun_eq_iff)
    moreover have "framed n0 ?n"
      using fr by (simp add: framed_def drop_node_def stop_spinner_def Let_def dn_fully_qualified_name_def split: option.splits)
    ultimately show ?thesis
      using assms(1) inv stays [of ?n] by (simp add: res system_ok_def drop_node_context assms(2))
  next
    case (Inr u)
    have "node_new env name opts (ds_context s) [] = (Ok n, dn_context n)"
      using Some set_up Inr by (simp add: node_new_def n0_def)
    moreover from this have ann: "announced n" using node_new_announced [OF assms(2)] by blast
    ultimately have res: "add_node env name opts s = \<lparr>ds_context = dn_context n, ds_nodes = ds_nodes s @ [n]\<rparr>"
      by (simp add: add_node_def)
    have "map_of (cx_local_nodes (dn_context n)) = (map_of (cx_local_nodes (ds_context s)))(fully_qualified_name name \<mapsto> discovery_record n)"
      using others ann fqn by (auto simp: announced_def recorded_def fun_eq_iff)
    moreover have "broadcast_current (dn_context n)" using ann by (simp add: announced_def)
    ultimately show ?thesis
      using assms(1,3,4) inv ann stays [OF fr] fqn by (auto simp: res system_ok_def)
  qed
qed

lemma reach_system_ok: "system_reach True s \<Longrightarrow> system_ok s"
proof (induction rule: system_reach.induct)
  case (reach_add s env ns b name opts)
  then show ?case using system_ok_add [of s env name opts] node_name_new_Ok by (auto simp: wf_node_name_def)
next
  case (reach_empty c)
  then show ?case by (simp add: system_ok_def hash_map.inv_Nil)
qed (simp_all add: system_ok_action system_ok_drop)

subsection \<open>Properties\<close>

definition sent_infos :: "('q, 't) dds_system \<Rightarrow> participant_entities_info list" where
  "sent_infos s = dp_written (cx_node_writer (ds_context s))"

text \<open>A record that lists a node under its name with every endpoint it created, those of its spinner apart.\<close>

definition describes :: "dds_context \<Rightarrow> ('q, 't) dds_node \<Rightarrow> node_entities_info \<Rightarrow> bool" where
  "describes c n info \<longleftrightarrow> ne_name info = dn_name n
     \<and> (\<forall>t q g. CreateWriter t q g \<in> set (dn_calls n) \<longrightarrow> gid_from_guid (cx_gid_length c) g \<in> set (ne_writer_gid_seq info))
     \<and> (\<forall>t q g. CreateReader t q g \<in> set (dn_calls n) \<longrightarrow> gid_from_guid (cx_gid_length c) g \<in> set (ne_reader_gid_seq info))"

lemma announced_described:
  assumes "announced (seen c n)"
  shows "describes c n (discovery_record (seen c n))"
proof -
  have "\<forall>x\<in>set (dn_calls n). endpoint_listed (seen c n) x" using assms by (simp add: announced_def list_all_iff)
  then show ?thesis
    by (fastforce simp: describes_def discovery_record_def node_gid_def)
qed

lemma last_message_describes:
  assumes "system_ok s" and "ds_nodes s \<noteq> [] \<or> sent_infos s \<noteq> []"
  shows "sent_infos s \<noteq> [] \<and> last (sent_infos s) = participant_info (ds_context s)
    \<and> length (pi_node_entities_info_seq (last (sent_infos s))) = length (ds_nodes s)
    \<and> (\<forall>n\<in>set (ds_nodes s). \<exists>info\<in>set (pi_node_entities_info_seq (last (sent_infos s))). describes (ds_context s) n info)"
proof (intro conjI)
  have b: "broadcast_current (ds_context s)" using assms by (auto simp: system_ok_def sent_infos_def)
  then show "sent_infos s \<noteq> []" and last: "last (sent_infos s) = participant_info (ds_context s)"
    by (simp_all add: broadcast_current_def sent_infos_def)
  have "length (cx_local_nodes (ds_context s)) = card (dom (map_of (cx_local_nodes (ds_context s))))"
    using assms(1) distinct_card [of "map fst (cx_local_nodes (ds_context s))"]
    by (simp add: system_ok_def hm_inv_def dom_map_of_conv_image_fst)
  also have "\<dots> = length (ds_nodes s)"
    using assms(1) distinct_card [of "map dn_fully_qualified_name (ds_nodes s)"] by (simp add: system_ok_def)
  finally show "length (pi_node_entities_info_seq (last (sent_infos s))) = length (ds_nodes s)"
    by (simp add: last participant_info_def)
  show "\<forall>n\<in>set (ds_nodes s). \<exists>info\<in>set (pi_node_entities_info_seq (last (sent_infos s))). describes (ds_context s) n info"
  proof
    fix n assume "n \<in> set (ds_nodes s)"
    then have a: "announced (seen (ds_context s) n)" using assms(1) by (simp add: system_ok_def)
    then have "map_of (cx_local_nodes (ds_context s)) (dn_fully_qualified_name n) = Some (discovery_record (seen (ds_context s) n))"
      by (simp add: announced_def recorded_def)
    then have "discovery_record (seen (ds_context s) n) \<in> set (pi_node_entities_info_seq (last (sent_infos s)))"
      by (force simp: last participant_info_def dest: map_of_SomeD)
    then show "\<exists>info\<in>set (pi_node_entities_info_seq (last (sent_infos s))). describes (ds_context s) n info"
      using announced_described [OF a] by blast
  qed
qed

text \<open>C5. The nodes of a context are created, used and dropped in any order, as long as no two that exist at once have the same full
  name, no spinner fails to be created, and the writer of the discovery topic takes every message. Then the last
  message the participant published to the discovery topic has one record per node that exists, which names the node
  and lists every reader and writer it created, except the two readers its spinner makes for itself; and none
  for the nodes that are gone.\<close>

theorem context_announces_its_nodes:
  assumes "system_reach True s" and "ds_nodes s \<noteq> [] \<or> sent_infos s \<noteq> []"
  shows "sent_infos s \<noteq> []
    \<and> length (pi_node_entities_info_seq (last (sent_infos s))) = length (ds_nodes s)
    \<and> (\<forall>n\<in>set (ds_nodes s). \<exists>info\<in>set (pi_node_entities_info_seq (last (sent_infos s))). describes (ds_context s) n info)"
  using last_message_describes [OF reach_system_ok [OF assms(1)] assms(2)] by blast

lemma sample_node_created:
  "\<exists>n. node_new sample_dds_env name node_options_new c [] = (Ok n, dn_context n) \<and> dn_name n = name"
  by (simp add: node_new_def sample_dds_env_def set_up_node_def dnode_bind_def dnode_return_def node_options_new_def initial_node_def
      declared_parameters_def dds_create_publisher_def context_create_writer_def dn_add_writer_def suppress_node_info_updates_def
      validate_parameter_on_set_def execute_parameter_set_actions_def Let_def)

abbreviation root_name :: "string \<Rightarrow> node_name" where
  "root_name b \<equiv> \<lparr>node_namespace = ''/'', node_base_name = b\<rparr>"

definition two_nodes :: "(nat, nat) dds_system" where
  "two_nodes = add_node sample_dds_env (root_name ''listener'') node_options_new
     (add_node sample_dds_env (root_name ''talker'') node_options_new \<lparr>ds_context = empty_context, ds_nodes = []\<rparr>)"

lemma two_nodes_reached: "system_reach orderly two_nodes \<and> map dn_name (ds_nodes two_nodes) = [root_name ''talker'', root_name ''listener'']"
proof -
  let ?s0 = "\<lparr>ds_context = empty_context, ds_nodes = []\<rparr> :: (nat, nat) dds_system"
  let ?s1 = "add_node sample_dds_env (root_name ''talker'') node_options_new ?s0"
  have info: "de_info_ok sample_dds_env = (\<lambda>_. True)" by (simp add: sample_dds_env_def)
  have names: "node_name_new ''/'' ''talker'' = Ok (root_name ''talker'')" "node_name_new ''/'' ''listener'' = Ok (root_name ''listener'')"
    by (simp_all add: node_name_new_Ok wf_node_base_def wf_node_namespace_def name_char_def name_start_def namespace_char_def
        is_ascii_alphanumeric_def is_ascii_alphabetic_def is_ascii_digit_def)
  obtain n1 where n1: "node_new sample_dds_env (root_name ''talker'') node_options_new empty_context [] = (Ok n1, dn_context n1)"
    "dn_name n1 = root_name ''talker''" using sample_node_created by blast
  have s1: "?s1 = \<lparr>ds_context = dn_context n1, ds_nodes = [n1]\<rparr>" using n1 by (simp add: add_node_def)
  obtain n2 where n2: "node_new sample_dds_env (root_name ''listener'') node_options_new (dn_context n1) [] = (Ok n2, dn_context n2)"
    "dn_name n2 = root_name ''listener''" using sample_node_created by blast
  have "system_reach orderly ?s0" by (rule reach_empty) (simp_all add: empty_context_def)
  then have "system_reach orderly ?s1" by (rule reach_add [OF _ info names(1)]) simp
  then have "system_reach orderly two_nodes" unfolding two_nodes_def
    by (rule reach_add [OF _ info names(2)])
      (simp add: s1 n1 dn_fully_qualified_name_def fully_qualified_name_def ends_with_char_def)
  then show ?thesis using n1(2) n2 by (simp add: two_nodes_def s1) (simp add: add_node_def)
qed

theorem context_announces_its_nodes_witness:
  "length (pi_node_entities_info_seq (last (sent_infos two_nodes))) = 2"
proof -
  have "map dn_name (ds_nodes two_nodes) = [root_name ''talker'', root_name ''listener'']" using two_nodes_reached by simp
  then have "length (ds_nodes two_nodes) = 2" by (metis length_map length_Cons list.size(3) numeral_2_eq_2)
  moreover from this have "ds_nodes two_nodes \<noteq> []" by auto
  ultimately show ?thesis using context_announces_its_nodes [of two_nodes] two_nodes_reached by simp
qed

subsection \<open>Another participant\<close>

text \<open>A discovery message on the wire has the records in their wire form; reading it fails at the first
  record whose name \<open>NodeName\<close> refuses.\<close>

definition write_participant_info :: "participant_entities_info \<Rightarrow> gid \<times> repr_node_entities_info list" where
  "write_participant_info p = (pi_gid p, map repr_from_node_info (pi_node_entities_info_seq p))"

fun read_records :: "repr_node_entities_info list \<Rightarrow> name_error + node_entities_info list" where
  "read_records [] = Ok []"
| "read_records (r # rs) =
     and_then (node_info_from_repr r) (\<lambda>info. and_then (read_records rs) (\<lambda>infos. Ok (info # infos)))"

definition read_participant_info :: "gid \<times> repr_node_entities_info list \<Rightarrow> name_error + participant_entities_info" where
  "read_participant_info m =
     and_then (read_records (snd m)) (\<lambda>infos. Ok \<lparr>pi_gid = fst m, pi_node_entities_info_seq = infos\<rparr>)"

lemma read_records_written:
  "\<forall>info\<in>set infos. wf_node_name (ne_name info) \<Longrightarrow> read_records (map repr_from_node_info infos) = Ok infos"
proof (induction infos)
  case (Cons info infos)
  then have "node_info_from_repr (repr_from_node_info info) = Ok info" by (simp add: discovery_record_round_trip)
  then show ?case using Cons by simp
qed simp

lemma local_names_wf:
  assumes "system_ok s" and "info \<in> set (map snd (cx_local_nodes (ds_context s)))"
  shows "wf_node_name (ne_name info)"
proof -
  obtain k where "(k, info) \<in> set (cx_local_nodes (ds_context s))" using assms(2) by auto
  then have k: "map_of (cx_local_nodes (ds_context s)) k = Some info"
    using assms(1) hash_map.entry_iff [of "cx_local_nodes (ds_context s)" k info] by (simp add: system_ok_def)
  then obtain n where n: "n \<in> set (ds_nodes s)" "k = dn_fully_qualified_name n" using assms(1) by (auto simp: system_ok_def)
  then have "announced (seen (ds_context s) n)" "wf_node_name (dn_name n)" using assms(1) by (auto simp: system_ok_def)
  then show ?thesis using k n(2) by (auto simp: announced_def recorded_def discovery_record_def)
qed

lemma external_nodes_updated:
  "map_of (dn_external_nodes (snd (spinner_step env k (RosDiscovery (Ok u)) (sp, r)))) (pi_gid u) = Some (pi_node_entities_info_seq u)"
  by (simp add: handle_ros_discovery_def send_status_event_def map_laws)

text \<open>C7. Discovery from end to end: the nodes of a context, no two that exist at once with the same full name, none with a spinner
  that failed to be created, are created, used and dropped in any order, and the discovery writer takes every message. A node of
  another participant whose spinner takes the last discovery message of the context reads it without
  error, and its table of external nodes then holds for this participant exactly one record per node of the context,
  with the node's name and the readers and writers it created, those of its spinner apart.\<close>

theorem remote_node_learns_context:
  assumes "system_reach True s" and "ds_nodes s \<noteq> [] \<or> sent_infos s \<noteq> []"
  shows "\<exists>u infos. read_participant_info (write_participant_info (last (sent_infos s))) = Ok u
    \<and> map_of (dn_external_nodes (snd (spinner_step env k (RosDiscovery (Ok u)) (sp, r))))
        (gid_from_guid (cx_gid_length (ds_context s)) (cx_participant_guid (ds_context s))) = Some infos
    \<and> length infos = length (ds_nodes s)
    \<and> (\<forall>n\<in>set (ds_nodes s). \<exists>info\<in>set infos. describes (ds_context s) n info)"
proof -
  have ok: "system_ok s" by (rule reach_system_ok [OF assms(1)])
  note last = last_message_describes [OF ok assms(2)]
  let ?u = "last (sent_infos s)"
  have "\<forall>info\<in>set (pi_node_entities_info_seq ?u). wf_node_name (ne_name info)"
    using local_names_wf [OF ok] last by (simp add: participant_info_def)
  then have "read_participant_info (write_participant_info ?u) = Ok ?u"
    by (simp add: read_participant_info_def write_participant_info_def read_records_written)
  moreover have "pi_gid ?u = gid_from_guid (cx_gid_length (ds_context s)) (cx_participant_guid (ds_context s))"
    using last by (simp add: participant_info_def)
  ultimately show ?thesis
    using external_nodes_updated [of env k ?u sp r] last by metis
qed

theorem remote_node_learns_context_witness:
  "\<exists>u infos. read_participant_info (write_participant_info (last (sent_infos two_nodes))) = Ok u
    \<and> map_of (dn_external_nodes (snd (spinner_step sample_dds_env spun_codecs (RosDiscovery (Ok u))
        (\<lparr>sp_parameter_servers = None, sp_clock_topic = de_rosout_topic sample_dds_env\<rparr>, sample_node))))
        (gid_from_guid (cx_gid_length (ds_context two_nodes)) (cx_participant_guid (ds_context two_nodes))) = Some infos
    \<and> (\<forall>n\<in>set (ds_nodes two_nodes). \<exists>info\<in>set infos. describes (ds_context two_nodes) n info)"
proof -
  have "ds_nodes two_nodes \<noteq> []" using two_nodes_reached by auto
  then show ?thesis
    using remote_node_learns_context [of two_nodes sample_dds_env spun_codecs
        "\<lparr>sp_parameter_servers = None, sp_clock_topic = de_rosout_topic sample_dds_env\<rparr>" sample_node] two_nodes_reached
    by blast
qed

text \<open>Two nodes of the same name share one record: when one of them is dropped, the record is removed and
  the withdrawal broadcast, while the other node still exists with all its endpoints.\<close>

lemma same_name_node_withdrawn:
  assumes "de_info_ok env = (\<lambda>_. True)" and "dn_fully_qualified_name m = dn_fully_qualified_name n"
    and "c' = dn_context (drop_node env (seen c m))"
  shows "broadcast_current c' \<and> map_of (cx_local_nodes c') (dn_fully_qualified_name n) = None \<and> \<not> announced (seen c' n)"
  using assms(2) by (simp add: assms(3) drop_node_context assms(1) announced_def recorded_def)

text \<open>A message the discovery writer refuses is lost: nothing is written, and nothing repeats it until the table changes again.\<close>

lemma refused_message_lost:
  assumes "de_info_ok env = (\<lambda>_. False)"
  shows "dp_written (cx_node_writer (dn_context (announce env n))) = dp_written (cx_node_writer (dn_context n))"
  using assms by (simp add: announce_def update_node_def broadcast_node_infos_def dds_publish_def Let_def)

text \<open>A running spinner reads ROS discovery and the clock with two readers that are made through the context, not through the
  node: the participant has them, and neither the node nor its last discovery message knows of them.\<close>

lemma spinner_readers_unannounced:
  assumes "spin_start env t sp n = (Ok (g, g'), n')"
  shows "dn_calls n' = dn_calls n @ [SpinReader t None g, SpinReader (sp_clock_topic sp) None g']
    \<and> dn_readers n' = dn_readers n \<and> dn_context n' = dn_context n"
  using assms by (auto simp: spin_start_def spinner_reader_def dnode_bind_def dnode_return_def split: option.splits)

end
