(* ===== verification/Dds_Qos.thy ===== *)
theory Dds_Qos
  imports Qos_Profile
begin

text \<open>
  QoS on the DDS side: the conversions between a \<open>QosProfile\<close> and the policies of rustdds
  (\<open>dds_conv\<close> of \<open>qos.rs\<close>), the default policies of a context (\<open>context.rs\<close>) and the policies and names
  of its built-in topics (\<open>builtin_topics.rs\<close>). The policies of rustdds are data the builder sets and
  the accessors read; its \<open>Duration\<close>, which counts in fractions of a second of its own, is a parameter.
\<close>

subsection \<open>Policies\<close>

record 'd dds_durations =
  dd_infinite :: 'd
  dd_zero :: 'd
  dd_from_nanos :: "int \<Rightarrow> 'd"
  dd_to_nanoseconds :: "'d \<Rightarrow> int"
  dd_from_millis :: "int \<Rightarrow> 'd"
  dd_from_secs :: "int \<Rightarrow> 'd"

datatype policy_durability = PolicyVolatile | PolicyTransientLocal | PolicyTransient | PolicyPersistent
datatype 'd policy_reliability = PolicyBestEffort | PolicyReliable (max_blocking_time: 'd)
datatype policy_history = PolicyKeepLast int | PolicyKeepAll
datatype 'd policy_liveliness = PolicyAutomatic 'd | PolicyManualByParticipant 'd | PolicyManualByTopic 'd
datatype policy_ownership = PolicyShared | PolicyExclusive int

text \<open>The builder starts with no policy set.\<close>

record 'd qos_policies =
  qp_durability :: "policy_durability option"
  qp_reliability :: "'d policy_reliability option"
  qp_history :: "policy_history option"
  qp_liveliness :: "'d policy_liveliness option"
  qp_deadline :: "'d option"
  qp_lifespan :: "'d option"
  qp_ownership :: "policy_ownership option"

definition policy_builder_new :: "'d qos_policies" where
  "policy_builder_new = \<lparr>qp_durability = None, qp_reliability = None, qp_history = None, qp_liveliness = None,
     qp_deadline = None, qp_lifespan = None, qp_ownership = None\<rparr>"

subsection \<open>Conversions\<close>

definition DEFAULT_MAX_BLOCKING :: "'d dds_durations \<Rightarrow> 'd" where
  "DEFAULT_MAX_BLOCKING D = dd_from_millis D 100"

definition to_dds_duration :: "'d dds_durations \<Rightarrow> duration option \<Rightarrow> 'd" where
  "to_dds_duration D d =
     (case d of None \<Rightarrow> dd_infinite D | Some d \<Rightarrow> dd_from_nanos D (wrap_signed 64 (int (duration_as_nanos d))))"

definition from_dds_duration :: "'d dds_durations \<Rightarrow> 'd \<Rightarrow> duration option" where
  "from_dds_duration D d =
     (if d = dd_infinite D then None else Some (duration_from_nanos (nat (max (dd_to_nanoseconds D d) 0))))"

definition policies_from_profile :: "'d dds_durations \<Rightarrow> qos_profile \<Rightarrow> 'd qos_policies" where
  "policies_from_profile D p =
     policy_builder_new
       \<lparr>qp_durability := Some (case durability p of Volatile \<Rightarrow> PolicyVolatile | TransientLocal \<Rightarrow> PolicyTransientLocal),
        qp_reliability := Some (case reliability p of
          BestEffort \<Rightarrow> PolicyBestEffort | Reliable \<Rightarrow> PolicyReliable (DEFAULT_MAX_BLOCKING D)),
        qp_history := Some (case history p of
          KeepLast depth \<Rightarrow> PolicyKeepLast (wrap_signed 32 (int depth)) | KeepAll \<Rightarrow> PolicyKeepAll),
        qp_liveliness := Some (case liveliness p of
          Automatic \<Rightarrow> PolicyAutomatic (to_dds_duration D (liveliness_lease p))
        | ManualByTopic \<Rightarrow> PolicyManualByTopic (to_dds_duration D (liveliness_lease p))),
        qp_deadline := Some (to_dds_duration D (deadline p)),
        qp_lifespan := Some (to_dds_duration D (lifespan p))\<rparr>"

definition profile_from_policies :: "'d dds_durations \<Rightarrow> 'd qos_policies \<Rightarrow> qos_profile" where
  "profile_from_policies D q =
     (let (liv, lease) = (case qp_liveliness q of
            Some (PolicyManualByTopic d) \<Rightarrow> (ManualByTopic, from_dds_duration D d)
          | Some (PolicyAutomatic d) \<Rightarrow> (Automatic, from_dds_duration D d)
          | Some (PolicyManualByParticipant d) \<Rightarrow> (Automatic, from_dds_duration D d)
          | None \<Rightarrow> (Automatic, None))
      in \<lparr>reliability = (case qp_reliability q of Some (PolicyReliable _) \<Rightarrow> Reliable | _ \<Rightarrow> BestEffort),
          durability = (case qp_durability q of None \<Rightarrow> Volatile | Some PolicyVolatile \<Rightarrow> Volatile | Some _ \<Rightarrow> TransientLocal),
          history = (case qp_history q of
            Some PolicyKeepAll \<Rightarrow> KeepAll
          | Some (PolicyKeepLast depth) \<Rightarrow> KeepLast (nat (max depth 0))
          | None \<Rightarrow> KeepLast 1),
          deadline = Option.bind (qp_deadline q) (from_dds_duration D),
          lifespan = Option.bind (qp_lifespan q) (from_dds_duration D),
          liveliness = liv, liveliness_lease = lease\<rparr>)"

subsection \<open>Default policies and built-in topics\<close>

definition DEFAULT_SUBSCRIPTION_QOS :: "'d dds_durations \<Rightarrow> 'd qos_policies" where
  "DEFAULT_SUBSCRIPTION_QOS D =
     policy_builder_new\<lparr>qp_durability := Some PolicyVolatile, qp_deadline := Some (dd_infinite D), qp_ownership := Some PolicyShared,
       qp_reliability := Some PolicyBestEffort, qp_history := Some (PolicyKeepLast 1), qp_lifespan := Some (dd_infinite D)\<rparr>"

definition DEFAULT_PUBLISHER_QOS :: "'d dds_durations \<Rightarrow> 'd qos_policies" where
  "DEFAULT_PUBLISHER_QOS D =
     policy_builder_new\<lparr>qp_durability := Some PolicyVolatile, qp_deadline := Some (dd_infinite D), qp_ownership := Some PolicyShared,
       qp_reliability := Some (PolicyReliable (dd_from_millis D 100)), qp_history := Some (PolicyKeepLast 1),
       qp_lifespan := Some (dd_infinite D)\<rparr>"

definition ros_discovery_QOS_PUB :: "'d dds_durations \<Rightarrow> 'd qos_policies" where
  "ros_discovery_QOS_PUB D =
     policy_builder_new\<lparr>qp_durability := Some PolicyTransientLocal, qp_deadline := Some (dd_infinite D), qp_ownership := Some PolicyShared,
       qp_reliability := Some (PolicyReliable (dd_zero D)), qp_history := Some (PolicyKeepLast 1), qp_lifespan := Some (dd_infinite D)\<rparr>"

definition parameter_events_QOS :: "'d dds_durations \<Rightarrow> 'd qos_policies" where
  "parameter_events_QOS D =
     policy_builder_new\<lparr>qp_durability := Some PolicyTransientLocal, qp_reliability := Some (PolicyReliable (dd_zero D)),
       qp_history := Some (PolicyKeepLast 1)\<rparr>"

definition rosout_QOS :: "'d dds_durations \<Rightarrow> 'd qos_policies" where
  "rosout_QOS D =
     policy_builder_new\<lparr>qp_durability := Some PolicyTransientLocal, qp_deadline := Some (dd_infinite D), qp_ownership := Some PolicyShared,
       qp_reliability := Some (PolicyReliable (dd_zero D)), qp_history := Some (PolicyKeepLast 1),
       qp_lifespan := Some (dd_from_secs D 10)\<rparr>"

definition ros_discovery_TOPIC_NAME :: string where "ros_discovery_TOPIC_NAME = ''ros_discovery_info''"
definition ros_discovery_TYPE_NAME :: string where
  "ros_discovery_TYPE_NAME = ''rmw_dds_common::msg::dds_::ParticipantEntitiesInfo_''"
definition parameter_events_TOPIC_NAME :: string where "parameter_events_TOPIC_NAME = ''rt/parameter_events''"
definition parameter_events_TYPE_NAME :: string where "parameter_events_TYPE_NAME = ''rcl_interfaces::msg::dds_::ParameterEvent_''"
definition rosout_TOPIC_NAME :: string where "rosout_TOPIC_NAME = ''rt/rosout''"
definition rosout_TYPE_NAME :: string where "rosout_TYPE_NAME = ''rcl_interfaces::msg::dds_::Log_''"

subsection \<open>Lemmas\<close>

text \<open>A depth comes back exactly when it fits into 31 bits: \<open>as i32\<close> wraps, and a negative depth is read
  as zero.\<close>

lemma depth_round_trip: "nat (max (wrap_signed 32 (int depth)) 0) = depth \<longleftrightarrow> depth < 2 ^ 31"
proof
  assume eq: "nat (max (wrap_signed 32 (int depth)) 0) = depth"
  have "in_signed 32 (wrap_signed 32 (int depth))" by (rule in_signed_wrap) simp
  then show "depth < 2 ^ 31" using eq by (auto simp: in_signed_def)
next
  assume "depth < 2 ^ 31"
  then have "wrap_signed 32 (int depth) = int depth" by (intro wrap_signed_id) (simp_all add: in_signed_def)
  then show "nat (max (wrap_signed 32 (int depth)) 0) = depth" by simp
qed

text \<open>The durations rustdds gives back: below its largest count of nanoseconds, not taken for infinity,
  and not rounded.\<close>

definition dds_exact :: "'d dds_durations \<Rightarrow> duration option \<Rightarrow> bool" where
  "dds_exact D d \<longleftrightarrow> (case d of None \<Rightarrow> True | Some d \<Rightarrow>
     duration_as_nanos d < 2 ^ 63 \<and> dd_from_nanos D (int (duration_as_nanos d)) \<noteq> dd_infinite D
     \<and> max (dd_to_nanoseconds D (dd_from_nanos D (int (duration_as_nanos d)))) 0 = int (duration_as_nanos d))"

lemma dds_duration_round_trip:
  assumes "\<forall>x. in_signed 64 (dd_to_nanoseconds D x)" and "\<forall>d'\<in>set_option d. duration_ok d'"
  shows "from_dds_duration D (to_dds_duration D d) = d \<longleftrightarrow> dds_exact D d"
proof (cases d)
  case None
  then show ?thesis by (simp add: from_dds_duration_def to_dds_duration_def dds_exact_def)
next
  case (Some d')
  let ?n = "int (duration_as_nanos d')"
  let ?x = "dd_from_nanos D (wrap_signed 64 ?n)"
  have inj: "duration_from_nanos m = d' \<longleftrightarrow> m = duration_as_nanos d'" for m
    using assms(2) Some by (auto simp: duration_ok_def duration_from_as_nanos)
  have "from_dds_duration D (to_dds_duration D d) = d \<longleftrightarrow> ?x \<noteq> dd_infinite D \<and> nat (max (dd_to_nanoseconds D ?x) 0) = duration_as_nanos d'"
    using Some by (simp add: from_dds_duration_def to_dds_duration_def inj)
  also have "\<dots> \<longleftrightarrow> dds_exact D d"
  proof (cases "?n < 2 ^ 63")
    case True
    then have "wrap_signed 64 ?n = ?n" by (intro wrap_signed_id) (simp_all add: in_signed_def)
    then show ?thesis using True Some by (auto simp: dds_exact_def nat_eq_iff)
  next
    case False
    have "dd_to_nanoseconds D ?x < 2 ^ 63" using assms(1) by (simp add: in_signed_def)
    then have "nat (max (dd_to_nanoseconds D ?x) 0) \<noteq> duration_as_nanos d'" using False by (auto simp: max_def)
    then show ?thesis using False Some by (simp add: dds_exact_def)
  qed
  finally show ?thesis .
qed

subsection \<open>Properties\<close>

text \<open>C19. A QoS profile comes back from its DDS policies exactly when its depth fits into 31 bits and each of
  its durations is one rustdds represents exactly; everything else about it always survives.\<close>

theorem dds_qos_round_trip:
  assumes "\<forall>x. in_signed 64 (dd_to_nanoseconds D x)"
    and "\<forall>d\<in>set_option (deadline p) \<union> set_option (lifespan p) \<union> set_option (liveliness_lease p). duration_ok d"
  shows "profile_from_policies D (policies_from_profile D p) = p \<longleftrightarrow>
    (\<forall>depth. history p = KeepLast depth \<longrightarrow> depth < 2 ^ 31)
    \<and> dds_exact D (deadline p) \<and> dds_exact D (lifespan p) \<and> dds_exact D (liveliness_lease p)"
proof -
  let ?r = "profile_from_policies D (policies_from_profile D p)"
  have "reliability ?r = reliability p" "durability ?r = durability p" "liveliness ?r = liveliness p"
    by (cases "reliability p"; cases "durability p"; cases "liveliness p";
        simp add: profile_from_policies_def policies_from_profile_def)+
  moreover have "liveliness_lease ?r = from_dds_duration D (to_dds_duration D (liveliness_lease p))"
    by (cases "liveliness p") (simp_all add: profile_from_policies_def policies_from_profile_def)
  moreover have "deadline ?r = from_dds_duration D (to_dds_duration D (deadline p))"
    "lifespan ?r = from_dds_duration D (to_dds_duration D (lifespan p))"
    by (cases "liveliness p"; simp add: profile_from_policies_def policies_from_profile_def)+
  moreover have "history ?r = history p \<longleftrightarrow> (\<forall>depth. history p = KeepLast depth \<longrightarrow> depth < 2 ^ 31)"
    by (cases "history p"; cases "liveliness p")
      (simp_all add: profile_from_policies_def policies_from_profile_def depth_round_trip)
  ultimately show ?thesis
    using assms dds_duration_round_trip [OF assms(1)]
    by (cases p; cases ?r) simp
qed

text \<open>Durations counted in nanoseconds, saturating, with the largest for infinity.\<close>

definition nano_durations :: "int dds_durations" where
  "nano_durations = \<lparr>dd_infinite = 2 ^ 63 - 1, dd_zero = 0, dd_from_nanos = (\<lambda>n. n),
     dd_to_nanoseconds = (\<lambda>n. max (- (2 ^ 63)) (min n (2 ^ 63 - 1))),
     dd_from_millis = (\<lambda>n. n * 1000000), dd_from_secs = (\<lambda>n. n * 1000000000)\<rparr>"

theorem dds_qos_round_trip_witness:
  "let p = subscription_default\<lparr>reliability := Reliable, durability := TransientLocal, history := KeepLast 10,
       deadline := Some \<lparr>dur_secs = 0, dur_nanos = 500000000\<rparr>, liveliness_lease := Some \<lparr>dur_secs = 2, dur_nanos = 0\<rparr>\<rparr>
   in profile_from_policies nano_durations (policies_from_profile nano_durations p) = p"
  unfolding Let_def
  by (subst dds_qos_round_trip)
    (auto simp: nano_durations_def in_signed_def subscription_default_def duration_ok_def dds_exact_def duration_as_nanos_def)

text \<open>The two backends start from the same defaults: read as profiles, the default policies of a DDS
  context are the default profiles.\<close>

lemma default_policies_agree:
  "profile_from_policies D (DEFAULT_SUBSCRIPTION_QOS D) = subscription_default"
  "profile_from_policies D (DEFAULT_PUBLISHER_QOS D) = publisher_default"
  by (simp_all add: profile_from_policies_def DEFAULT_SUBSCRIPTION_QOS_def DEFAULT_PUBLISHER_QOS_def policy_builder_new_def
      from_dds_duration_def subscription_default_def publisher_default_def)

text \<open>A depth beyond 31 bits is changed silently: it is read back as zero or as its residue.\<close>

lemma large_depth_lost:
  "history (profile_from_policies D (policies_from_profile D (subscription_default\<lparr>history := KeepLast (2 ^ 31)\<rparr>))) = KeepLast 0"
  "history (profile_from_policies D (policies_from_profile D (subscription_default\<lparr>history := KeepLast (2 ^ 32 + 1)\<rparr>))) = KeepLast 1"
  by (simp_all add: profile_from_policies_def policies_from_profile_def subscription_default_def wrap_signed_def)

end
