(* ===== verification/Dds_Open.thy ===== *)
theory Dds_Open
  imports Dds_Graph Dds_Qos
begin

text \<open>
  Opening a context of the DDS backend (\<open>context.rs\<close>) and the distribution the crate is compiled for
  (\<open>distributions.rs\<close>, \<open>gid.rs\<close>). The domain participant of rustdds is a parameter: whether it can be
  built, which groups and topics it creates and the GUID of its discovery writer.
\<close>

subsection \<open>Distributions\<close>

datatype ros_distro = Galactic | Humble | Iron | Jazzy | Kilted | Lyrical

text \<open>The derived order is the order of release.\<close>

fun release :: "ros_distro \<Rightarrow> nat" where
  "release Galactic = 0" | "release Humble = 1" | "release Iron = 2" | "release Jazzy = 3" | "release Kilted = 4" | "release Lyrical = 5"

lemma release_inj: "release d = release e \<longleftrightarrow> d = e"
  by (cases d; cases e) simp_all

instantiation ros_distro :: linorder
begin

definition less_eq_ros_distro :: "ros_distro \<Rightarrow> ros_distro \<Rightarrow> bool" where
  "less_eq_ros_distro d e \<longleftrightarrow> release d \<le> release e"

definition less_ros_distro :: "ros_distro \<Rightarrow> ros_distro \<Rightarrow> bool" where
  "less_ros_distro d e \<longleftrightarrow> release d < release e"

instance
  by standard (auto simp: less_eq_ros_distro_def less_ros_distro_def release_inj)

end

fun as_str :: "ros_distro \<Rightarrow> string" where
  "as_str Galactic = ''galactic''"
| "as_str Humble = ''humble''"
| "as_str Iron = ''iron''"
| "as_str Jazzy = ''jazzy''"
| "as_str Kilted = ''kilted''"
| "as_str Lyrical = ''lyrical''"

definition compiled_distro :: "string set \<Rightarrow> ros_distro" where
  "compiled_distro features =
     (if ''lyrical'' \<in> features then Lyrical
      else if ''kilted'' \<in> features then Kilted
      else if ''jazzy'' \<in> features then Jazzy
      else if ''iron'' \<in> features then Iron
      else if ''humble'' \<in> features then Humble
      else Galactic)"

definition GID_LENGTH :: "string set \<Rightarrow> nat" where
  "GID_LENGTH features = (if ''iron'' \<in> features then 16 else 24)"

datatype log_line = LogWarn string | LogInfo string | LogError string

definition quoted :: "string \<Rightarrow> string" where
  "quoted s = [CHR 0x27] @ s @ [CHR 0x27]"

definition verify_ros_distro_env :: "string set \<Rightarrow> string option \<Rightarrow> log_line" where
  "verify_ros_distro_env features ros_distro =
     (let built = compiled_distro features
      in case ros_distro of
           None \<Rightarrow> LogWarn (''ROS_DISTRO is not set; ros2-client was built for '' @ quoted (as_str built) @ ''.'')
         | Some distro \<Rightarrow>
             if distro = as_str built
             then LogInfo (''ROS_DISTRO='' @ quoted distro @ '' matches the ros2-client build.'')
             else if distro = ''rolling''
             then LogWarn (''ROS_DISTRO='' @ quoted ''rolling'' @ ''; ros2-client was built for '' @ quoted (as_str built)
                    @ ''. Assuming compatible, but rolling may have diverged.'')
             else LogError (''ROS_DISTRO='' @ quoted distro @ '' but ros2-client was built for '' @ quoted (as_str built)
                    @ ''. These may be incompatible (e.g. different Gid format); rebuild with --features '' @ distro @ ''.''))"

text \<open>Each distribution feature enables all older ones.\<close>

definition feature_chain :: "ros_distro \<Rightarrow> string set" where
  "feature_chain d = as_str ` {e. e \<le> d}"

lemma in_feature_chain: "as_str e \<in> feature_chain d \<longleftrightarrow> e \<le> d"
proof -
  have "as_str x = as_str y \<longleftrightarrow> x = y" for x y by (cases x; cases y) simp_all
  then show ?thesis by (auto simp: feature_chain_def)
qed

lemma feature_chain_simps [simp]:
  "''lyrical'' \<in> feature_chain d \<longleftrightarrow> Lyrical \<le> d" "''kilted'' \<in> feature_chain d \<longleftrightarrow> Kilted \<le> d"
  "''jazzy'' \<in> feature_chain d \<longleftrightarrow> Jazzy \<le> d" "''iron'' \<in> feature_chain d \<longleftrightarrow> Iron \<le> d"
  "''humble'' \<in> feature_chain d \<longleftrightarrow> Humble \<le> d"
  using in_feature_chain [of Lyrical d] in_feature_chain [of Kilted d] in_feature_chain [of Jazzy d]
    in_feature_chain [of Iron d] in_feature_chain [of Humble d] by simp_all

text \<open>The newest feature of the chain is the distribution chosen, and the length of a \<open>Gid\<close> changes with
  Iron.\<close>

lemma compiled_for_chosen_distro:
  "compiled_distro (feature_chain d) = d" "GID_LENGTH (feature_chain d) = (if Iron \<le> d then 16 else 24)"
  by (cases d; simp add: compiled_distro_def GID_LENGTH_def less_eq_ros_distro_def)+

subsection \<open>Opening a context\<close>

record security_config =
  security_config_dir :: string
  private_key_password :: string

record dds_context_options =
  co_domain_id :: nat
  co_security_config :: "security_config option"

definition dds_context_options_new :: dds_context_options where
  "dds_context_options_new = \<lparr>co_domain_id = 0, co_security_config = None\<rparr>"

definition options_domain_id :: "nat \<Rightarrow> dds_context_options \<Rightarrow> dds_context_options" where
  "options_domain_id d opt = opt\<lparr>co_domain_id := d\<rparr>"

definition options_enable_security :: "string \<Rightarrow> string \<Rightarrow> dds_context_options \<Rightarrow> dds_context_options" where
  "options_enable_security dir password opt =
     opt\<lparr>co_security_config := Some \<lparr>security_config_dir = dir, private_key_password = password\<rparr>\<rparr>"

record 'd participant_env =
  pa_build :: "nat \<Rightarrow> security_config option \<Rightarrow> guid option"
  pa_publisher_ok :: "'d qos_policies \<Rightarrow> bool"
  pa_subscriber_ok :: "'d qos_policies \<Rightarrow> bool"
  pa_topic_ok :: "'d qos_policies dds_topic \<Rightarrow> bool"
  pa_new_writer :: "'d qos_policies dds_topic \<Rightarrow> guid option"
  pa_durations :: "'d dds_durations"

record 'd opened_context =
  oc_domain_id :: nat
  oc_context :: dds_context
  oc_ros_discovery_topic :: "'d qos_policies dds_topic"
  oc_parameter_events_topic :: "'d qos_policies dds_topic"
  oc_rosout_topic :: "'d qos_policies dds_topic"

definition builtin_topic :: "'d participant_env \<Rightarrow> string \<Rightarrow> string \<Rightarrow> 'd qos_policies \<Rightarrow> node_error + 'd qos_policies dds_topic" where
  "builtin_topic P name type_name qos =
     (let t = \<lparr>dt_name = name, dt_type = type_name, dt_qos = qos\<rparr> in if pa_topic_ok P t then Ok t else Err CreateErr)"

definition context_from_participant :: "string set \<Rightarrow> 'd participant_env \<Rightarrow> nat \<Rightarrow> guid \<Rightarrow> node_error + 'd opened_context" where
  "context_from_participant features P domain guid =
     (let D = pa_durations P
      in and_then (if pa_publisher_ok P (DEFAULT_PUBLISHER_QOS D) then Ok () else Err CreateErr) (\<lambda>_.
         and_then (if pa_subscriber_ok P (DEFAULT_SUBSCRIPTION_QOS D) then Ok () else Err CreateErr) (\<lambda>_.
         and_then (builtin_topic P ros_discovery_TOPIC_NAME ros_discovery_TYPE_NAME (ros_discovery_QOS_PUB D)) (\<lambda>discovery.
         and_then (builtin_topic P parameter_events_TOPIC_NAME parameter_events_TYPE_NAME (parameter_events_QOS D)) (\<lambda>events.
         and_then (builtin_topic P rosout_TOPIC_NAME rosout_TYPE_NAME (rosout_QOS D)) (\<lambda>rosout.
         and_then (ok_or CreateErr (pa_new_writer P discovery)) (\<lambda>writer.
           Ok \<lparr>oc_domain_id = domain,
               oc_context = \<lparr>cx_gid_length = GID_LENGTH features, cx_participant_guid = guid, cx_local_nodes = [],
                 cx_node_writer = \<lparr>dp_guid = writer, dp_written = []\<rparr>\<rparr>,
               oc_ros_discovery_topic = discovery, oc_parameter_events_topic = events, oc_rosout_topic = rosout\<rparr>)))))))"

definition dds_context_with_options :: "string set \<Rightarrow> 'd participant_env \<Rightarrow> dds_context_options \<Rightarrow> node_error + 'd opened_context" where
  "dds_context_with_options features P opt =
     and_then (ok_or CreateErr (pa_build P (co_domain_id opt) (co_security_config opt)))
       (context_from_participant features P (co_domain_id opt))"

definition dds_context_new :: "string set \<Rightarrow> 'd participant_env \<Rightarrow> node_error + 'd opened_context" where
  "dds_context_new features P =
     and_then (ok_or CreateErr (pa_build P 0 None)) (context_from_participant features P 0)"

text \<open>The QoS of the parameter services of a spinner.\<close>

definition spinner_service_qos :: "'d dds_durations \<Rightarrow> 'd qos_policies" where
  "spinner_service_qos D =
     policy_builder_new\<lparr>qp_reliability := Some (PolicyReliable (dd_from_millis D 100)), qp_history := Some (PolicyKeepLast 1)\<rparr>"

text \<open>The environment of the nodes of an opened context: its topics, and the QoS the crate fixes.\<close>

definition node_env :: "'d dds_durations \<Rightarrow> 'd opened_context \<Rightarrow> ('d qos_policies, 't) dds_env \<Rightarrow> ('d qos_policies, 't) dds_env" where
  "node_env D c env =
     env\<lparr>de_parameter_events_topic := oc_parameter_events_topic c, de_rosout_topic := oc_rosout_topic c,
       de_service_qos := spinner_service_qos D, de_default_subscription_qos := DEFAULT_SUBSCRIPTION_QOS D\<rparr>"

subsection \<open>Lemmas\<close>

lemma dds_context_new_default: "dds_context_new features P = dds_context_with_options features P dds_context_options_new"
  by (simp add: dds_context_new_def dds_context_with_options_def dds_context_options_new_def)

lemma opened_context:
  assumes "dds_context_with_options features P opt = Ok c"
  shows "oc_domain_id c = co_domain_id opt \<and> cx_local_nodes (oc_context c) = [] \<and> dp_written (cx_node_writer (oc_context c)) = []
    \<and> cx_gid_length (oc_context c) = GID_LENGTH features
    \<and> pa_build P (co_domain_id opt) (co_security_config opt) = Some (cx_participant_guid (oc_context c))
    \<and> dt_name (oc_ros_discovery_topic c) = ''ros_discovery_info'' \<and> dt_name (oc_rosout_topic c) = ''rt/rosout''
    \<and> dt_name (oc_parameter_events_topic c) = ''rt/parameter_events''"
  using assms
  by (auto simp: dds_context_with_options_def context_from_participant_def builtin_topic_def Let_def and_then_Ok ok_or_Ok
      ros_discovery_TOPIC_NAME_def rosout_TOPIC_NAME_def parameter_events_TOPIC_NAME_def split: if_splits)

text \<open>An opened context is where the histories of a context start.\<close>

lemma opened_context_reached: "dds_context_with_options features P opt = Ok c \<Longrightarrow> system_reach orderly \<lparr>ds_context = oc_context c, ds_nodes = []\<rparr>"
  using opened_context [of features P opt c] by (intro reach_empty) simp_all

text \<open>Latecomers: the topics of discovery, parameter events and logging keep the last sample for readers
  that join later.\<close>

lemma builtin_topics_latched:
  assumes "dds_context_with_options features P opt = Ok c" and "t \<in> {oc_ros_discovery_topic c, oc_parameter_events_topic c, oc_rosout_topic c}"
  shows "durability (profile_from_policies D (dt_qos t)) = TransientLocal \<and> reliability (profile_from_policies D (dt_qos t)) = Reliable
    \<and> history (profile_from_policies D (dt_qos t)) = KeepLast 1"
  using assms
  by (auto simp: dds_context_with_options_def context_from_participant_def builtin_topic_def Let_def and_then_Ok ok_or_Ok
      ros_discovery_QOS_PUB_def rosout_QOS_def parameter_events_QOS_def profile_from_policies_def policy_builder_new_def split: if_splits)

end
