(* ===== verification/Dds_Endpoints.thy ===== *)
theory Dds_Endpoints
  imports Dds_Announce
begin

text \<open>
  Which DDS topics the services and actions of a node use: the endpoints a client creates are those a
  server of the same name and type creates, with reading and writing exchanged.
\<close>

type_synonym topic_key = "string \<times> string"

definition topic_key :: "'q dds_topic \<Rightarrow> topic_key" where
  "topic_key t = (dt_name t, dt_type t)"

fun written_topics :: "'q dds_call list \<Rightarrow> topic_key list" where
  "written_topics [] = []"
| "written_topics (CreateWriter t _ _ # cs) = topic_key t # written_topics cs"
| "written_topics (_ # cs) = written_topics cs"

fun read_topics :: "'q dds_call list \<Rightarrow> topic_key list" where
  "read_topics [] = []"
| "read_topics (CreateReader t _ _ # cs) = topic_key t # read_topics cs"
| "read_topics (SpinReader t _ _ # cs) = topic_key t # read_topics cs"
| "read_topics (_ # cs) = read_topics cs"

lemma topics_append [simp]:
  "written_topics (cs @ ds) = written_topics cs @ written_topics ds"
  "read_topics (cs @ ds) = read_topics cs @ read_topics ds"
proof -
  show "written_topics (cs @ ds) = written_topics cs @ written_topics ds"
    by (induction cs rule: written_topics.induct) simp_all
  show "read_topics (cs @ ds) = read_topics cs @ read_topics ds"
    by (induction cs rule: read_topics.induct) simp_all
qed

text \<open>What a successful operation of a node of a name returns, and which topics it writes and reads.\<close>

definition makes :: "node_name \<Rightarrow> ('q, 't, 'a) dnode_op \<Rightarrow> ('a \<Rightarrow> bool) \<Rightarrow> topic_key list \<Rightarrow> topic_key list \<Rightarrow> bool" where
  "makes nm m Q W R \<longleftrightarrow> (\<forall>n x n'. dn_name n = nm \<longrightarrow> m n = (Ok x, n') \<longrightarrow> dn_name n' = nm \<and> Q x
     \<and> (\<exists>cs. dn_calls n' = dn_calls n @ cs \<and> written_topics cs = W \<and> read_topics cs = R))"

lemma makesI:
  assumes "\<And>n x n'. dn_name n = nm \<Longrightarrow> m n = (Ok x, n') \<Longrightarrow> dn_name n' = nm \<and> Q x
     \<and> (\<exists>cs. dn_calls n' = dn_calls n @ cs \<and> written_topics cs = W \<and> read_topics cs = R)"
  shows "makes nm m Q W R"
  using assms unfolding makes_def by blast

lemma makes_return: "Q x \<Longrightarrow> makes nm (dnode_return x) Q [] []"
  by (rule makesI) (simp add: dnode_return_def)

lemma makes_bind:
  assumes "makes nm m Q W R" and "\<And>x. Q x \<Longrightarrow> makes nm (f x) Q' W' R'"
  shows "makes nm (dnode_bind m f) Q' (W @ W') (R @ R')"
proof (rule makesI)
  fix n y n'' assume n: "dn_name n = nm" "dnode_bind m f n = (Ok y, n'')"
  then obtain x n' where m: "m n = (Ok x, n')" "f x n' = (Ok y, n'')"
    by (auto simp: dnode_bind_def split: prod.splits sum.splits)
  with assms(1) n(1) obtain cs where a: "dn_name n' = nm" "Q x" "dn_calls n' = dn_calls n @ cs" "written_topics cs = W" "read_topics cs = R"
    unfolding makes_def by blast
  with assms(2) [OF a(2)] m(2) obtain ds where b: "dn_name n'' = nm" "Q' y" "dn_calls n'' = dn_calls n' @ ds"
    "written_topics ds = W'" "read_topics ds = R'"
    unfolding makes_def by blast
  with a show "dn_name n'' = nm \<and> Q' y \<and> (\<exists>cs. dn_calls n'' = dn_calls n @ cs \<and> written_topics cs = W @ W' \<and> read_topics cs = R @ R')"
    by (intro conjI exI [of _ "cs @ ds"]) simp_all
qed

lemma makes_weaken: "makes nm m Q W R \<Longrightarrow> (\<And>x. Q x \<Longrightarrow> Q' x) \<Longrightarrow> makes nm m Q' W R"
  unfolding makes_def by blast

lemma add_endpoint_calls [simp]:
  "dn_name (dn_add_reader env g n) = dn_name n" "dn_calls (dn_add_reader env g n) = dn_calls n"
  "dn_name (dn_add_writer env g n) = dn_name n" "dn_calls (dn_add_writer env g n) = dn_calls n"
  by (simp_all add: dn_add_reader_def dn_add_writer_def announce_def Let_def)

lemma makes_named:
  assumes "\<And>n. dn_name n = nm \<Longrightarrow> m n = m' n" and "makes nm m' Q W R"
  shows "makes nm m Q W R"
  using assms unfolding makes_def by metis

subsection \<open>The operations of a node\<close>

definition message_key :: "node_name \<Rightarrow> name \<Rightarrow> message_type_name \<Rightarrow> topic_key" where
  "message_key nm topic ty = (the (to_dds_name topic ''rt'' nm []), dds_msg_type ty)"

definition request_key_of :: "node_name \<Rightarrow> name \<Rightarrow> service_type_name \<Rightarrow> topic_key" where
  "request_key_of nm service ty = (the (to_dds_name service ''rq'' nm ''Request''), dds_request_type ty)"

definition response_key_of :: "node_name \<Rightarrow> name \<Rightarrow> service_type_name \<Rightarrow> topic_key" where
  "response_key_of nm service ty = (the (to_dds_name service ''rr'' nm ''Reply''), dds_response_type ty)"

lemma makes_unwrap: "makes nm (dnode_unwrap (ok_or e p)) (\<lambda>x. p = Some x) [] []"
  by (rule makesI) (cases p; simp add: dnode_unwrap_def)

lemma makes_participant_topic: "makes nm (participant_create_topic env name ty q) (\<lambda>t. topic_key t = (name, ty)) [] []"
  by (rule makesI) (auto simp: participant_create_topic_def topic_key_def Let_def split: if_splits)

lemma makes_endpoint:
  "makes nm (context_create_writer env t q) (\<lambda>_. True) [topic_key t] []"
  "makes nm (context_create_reader env t q) (\<lambda>_. True) [] [topic_key t]"
  by (rule makesI; auto simp: context_create_writer_def context_create_reader_def split: option.splits)+

lemma makes_recorded:
  "makes nm (\<lambda>n. (Ok g, dn_add_reader env (node_gid n g) n)) (\<lambda>_. True) [] []"
  "makes nm (\<lambda>n. (Ok g, dn_add_writer env (node_gid n g) n)) (\<lambda>_. True) [] []"
  by (rule makesI; auto)+

lemma makes_reader:
  "makes nm (create_simpledatareader env t q) (\<lambda>_. True) [] [topic_key t]"
  "makes nm (dds_create_subscription env t q) (\<lambda>_. True) [] [topic_key t]"
  unfolding create_simpledatareader_def dds_create_subscription_def
  using makes_bind [OF makes_endpoint(2) makes_recorded(1)] by simp_all

lemma makes_writer:
  "makes nm (create_datawriter env t q) (\<lambda>_. True) [topic_key t] []"
  "makes nm (dds_create_publisher env t q) (\<lambda>_. True) [topic_key t] []"
  "makes nm (dds_create_raw_publisher env t q) (\<lambda>_. True) [topic_key t] []"
  unfolding create_datawriter_def dds_create_publisher_def dds_create_raw_publisher_def
  using makes_bind [OF makes_endpoint(1) makes_recorded(2)] by simp_all

lemma makes_topic: "makes nm (dds_create_topic env topic ty q) (\<lambda>t. topic_key t = message_key nm topic ty) [] []"
proof -
  have main: "makes nm (dnode_bind (dnode_unwrap (ok_or () (to_dds_name topic ''rt'' nm []))) (\<lambda>dds_name.
      participant_create_topic env dds_name (dds_msg_type ty) q)) (\<lambda>t. topic_key t = message_key nm topic ty) ([] @ []) ([] @ [])"
    by (rule makes_bind [OF makes_unwrap]) (auto simp: message_key_def intro: makes_weaken [OF makes_participant_topic])
  show ?thesis by (rule makes_named [OF _ main [unfolded append_Nil]]) (simp add: dds_create_topic_def)
qed

lemma makes_service_topics:
  "makes nm (service_topics env s ty q q')
     (\<lambda>(rq, rs). topic_key rq = request_key_of nm s ty \<and> topic_key rs = response_key_of nm s ty) [] []"
proof -
  let ?Q = "\<lambda>(rq, rs). topic_key rq = request_key_of nm s ty \<and> topic_key rs = response_key_of nm s ty"
  have inner: "makes nm (\<lambda>n. dnode_bind (dnode_unwrap (ok_or () (to_dds_name s ''rr'' (dn_name n) ''Reply''))) (\<lambda>rs_name.
      dnode_bind (participant_create_topic env rs_name (dds_response_type ty) q') (\<lambda>rs_topic. dnode_return (rq, rs_topic))) n) ?Q [] []"
    if "topic_key rq = request_key_of nm s ty" for rq
  proof -
    have main: "makes nm (dnode_bind (dnode_unwrap (ok_or () (to_dds_name s ''rr'' nm ''Reply''))) (\<lambda>rs_name.
        dnode_bind (participant_create_topic env rs_name (dds_response_type ty) q') (\<lambda>rs_topic. dnode_return (rq, rs_topic)))) ?Q
        ([] @ [] @ []) ([] @ [] @ [])"
      using that by (intro makes_bind [OF makes_unwrap] makes_bind [OF makes_participant_topic] makes_return)
        (auto simp: response_key_of_def)
    show ?thesis by (rule makes_named [OF _ main [unfolded append_Nil]]) simp
  qed
  have main: "makes nm (dnode_bind (dnode_unwrap (ok_or () (to_dds_name s ''rq'' nm ''Request''))) (\<lambda>rq_name.
      dnode_bind (participant_create_topic env rq_name (dds_request_type ty) q) (\<lambda>rq n.
        dnode_bind (dnode_unwrap (ok_or () (to_dds_name s ''rr'' (dn_name n) ''Reply''))) (\<lambda>rs_name.
        dnode_bind (participant_create_topic env rs_name (dds_response_type ty) q') (\<lambda>rs_topic. dnode_return (rq, rs_topic))) n))) ?Q
        ([] @ [] @ []) ([] @ [] @ [])"
    by (intro makes_bind [OF makes_unwrap] makes_bind [OF makes_participant_topic] inner) (auto simp: request_key_of_def)
  show ?thesis by (rule makes_named [OF _ main [unfolded append_Nil]]) (simp add: service_topics_def)
qed

lemma makes_client_on:
  "makes nm (client_new_on env mp rq rs q q') (\<lambda>_. True) [topic_key rq] [topic_key rs]"
proof -
  have "makes nm (client_new_on env mp rq rs q q') (\<lambda>_. True) ([topic_key rq] @ [] @ []) ([] @ [topic_key rs] @ [])"
    unfolding client_new_on_def by (intro makes_bind [OF makes_writer(1)] makes_bind [OF makes_reader(1)] makes_return) simp
  then show ?thesis by simp
qed

lemma makes_client:
  "makes nm (dds_create_client env mp s ty q q') (\<lambda>_. True) [request_key_of nm s ty] [response_key_of nm s ty]"
proof -
  have "makes nm (dds_create_client env mp s ty q q') (\<lambda>_. True) ([] @ [request_key_of nm s ty]) ([] @ [response_key_of nm s ty])"
    unfolding dds_create_client_def by (rule makes_bind [OF makes_service_topics], clarify) (metis makes_client_on)
  then show ?thesis by simp
qed

lemma makes_server_on:
  "makes nm (server_new_on env mp rq rs q q') (\<lambda>_. True) [topic_key rs] [topic_key rq]"
proof -
  have "makes nm (server_new_on env mp rq rs q q') (\<lambda>_. True) ([] @ [topic_key rs] @ []) ([topic_key rq] @ [] @ [])"
    unfolding server_new_on_def by (intro makes_bind [OF makes_reader(1)] makes_bind [OF makes_writer(1)] makes_return) simp
  then show ?thesis by simp
qed

lemma makes_server:
  "makes nm (dds_create_server env mp s ty q q') (\<lambda>_. True) [response_key_of nm s ty] [request_key_of nm s ty]"
  "makes nm (dds_create_raw_server env s ty q q') (\<lambda>_. True) [response_key_of nm s ty] [request_key_of nm s ty]"
proof -
  have "makes nm (dnode_bind (service_topics env s ty q q') (\<lambda>(rq, rs). server_new_on env mp' rq rs (Some q) (Some q'))) (\<lambda>_. True)
      ([] @ [response_key_of nm s ty]) ([] @ [request_key_of nm s ty])" for mp'
    by (rule makes_bind [OF makes_service_topics], clarify) (metis makes_server_on)
  then show "makes nm (dds_create_server env mp s ty q q') (\<lambda>_. True) [response_key_of nm s ty] [request_key_of nm s ty]"
    "makes nm (dds_create_raw_server env s ty q q') (\<lambda>_. True) [response_key_of nm s ty] [request_key_of nm s ty]"
    by (simp_all add: dds_create_server_def dds_create_raw_server_def)
qed

subsection \<open>Actions\<close>

definition action_services :: "name \<Rightarrow> action_type_name \<Rightarrow> (name \<times> service_type_name) list" where
  "action_services act ty =
     (let base = name_push act ''_action''
      in [(name_push base ''send_goal'', dds_action_service ty ''_SendGoal''),
          (name_push base ''cancel_goal'', service_type_name_new ''action_msgs'' ''CancelGoal''),
          (name_push base ''get_result'', dds_action_service ty ''_GetResult'')])"

definition action_topics :: "name \<Rightarrow> action_type_name \<Rightarrow> (name \<times> message_type_name) list" where
  "action_topics act ty =
     (let base = name_push act ''_action''
      in [(name_push base ''feedback'', dds_action_topic ty ''_FeedbackMessage''),
          (name_push base ''status'', message_type_name_new ''action_msgs'' ''GoalStatusArray'')])"

definition to_server :: "node_name \<Rightarrow> name \<Rightarrow> action_type_name \<Rightarrow> topic_key list" where
  "to_server nm act ty = map (\<lambda>(s, t). request_key_of nm s t) (action_services act ty)"

definition to_client :: "node_name \<Rightarrow> name \<Rightarrow> action_type_name \<Rightarrow> topic_key list" where
  "to_client nm act ty = map (\<lambda>(s, t). response_key_of nm s t) (action_services act ty)
     @ map (\<lambda>(s, t). message_key nm s t) (action_topics act ty)"

lemma makes_subscribed:
  assumes "topic_key t = k" and "\<And>x. makes nm (f x) Q W R"
  shows "makes nm (dnode_bind (dds_create_subscription env t q) f) Q W (k # R)"
  unfolding assms(1) [symmetric] using makes_bind [where f = f, OF makes_reader(2) assms(2)] by simp

lemma makes_published:
  assumes "topic_key t = k" and "\<And>x. makes nm (f x) Q W R"
  shows "makes nm (dnode_bind (dds_create_publisher env t q) f) Q (k # W) R"
    and "makes nm (dnode_bind (dds_create_raw_publisher env t q) f) Q (k # W) R"
  unfolding assms(1) [symmetric]
  using makes_bind [where f = f, OF makes_writer(2) assms(2)] makes_bind [where f = f, OF makes_writer(3) assms(2)] by simp_all

lemma makes_topic_then:
  assumes "\<And>t. topic_key t = message_key nm s ty \<Longrightarrow> makes nm (f t) Q W R"
  shows "makes nm (dnode_bind (dds_create_topic env s ty q) f) Q W R"
  using makes_bind [where f = f, OF makes_topic assms] by simp

lemma makes_client_then:
  assumes "\<And>x. makes nm (f x) Q W R"
  shows "makes nm (dnode_bind (dds_create_client env mp s ty q q') f) Q (request_key_of nm s ty # W) (response_key_of nm s ty # R)"
  using makes_bind [where f = f, OF makes_client assms] by simp

lemma makes_server_then:
  assumes "\<And>x. makes nm (f x) Q W R"
  shows "makes nm (dnode_bind (dds_create_server env mp s ty q q') f) Q (response_key_of nm s ty # W) (request_key_of nm s ty # R)"
    and "makes nm (dnode_bind (dds_create_raw_server env s ty q q') f) Q (response_key_of nm s ty # W) (request_key_of nm s ty # R)"
  using makes_bind [where f = f, OF makes_server(1) assms] makes_bind [where f = f, OF makes_server(2) assms] by simp_all

lemmas makes_steps = makes_client_then makes_server_then makes_topic_then makes_subscribed makes_published makes_return

lemma makes_action_client:
  "makes nm (dds_create_action_client env mp act ty q) (\<lambda>_. True) (to_server nm act ty) (to_client nm act ty)"
  unfolding dds_create_action_client_def to_server_def to_client_def action_services_def action_topics_def Let_def list.map append.simps prod.case
  by (rule makes_steps | assumption | simp)+

lemma makes_action_server:
  "makes nm (dds_create_action_server env mp act ty q) (\<lambda>_. True) (to_client nm act ty) (to_server nm act ty)"
  unfolding dds_create_action_server_def to_server_def to_client_def action_services_def action_topics_def Let_def list.map append.simps prod.case
  by (rule makes_steps | assumption | simp)+

lemma makes_raw_action_server:
  "makes nm (dds_create_raw_action_server env act ty q) (\<lambda>_. True) (to_client nm act ty) (to_server nm act ty)"
  unfolding dds_create_raw_action_server_def to_server_def to_client_def action_services_def action_topics_def Let_def list.map append.simps prod.case
  by (rule makes_steps | assumption | simp)+

lemma name_push_absolute [simp]: "absolute (name_push n s) = absolute n"
  by (simp add: name_push_def)

lemma to_dds_name_same:
  assumes "absolute n \<or> node_namespace a = node_namespace b"
  shows "to_dds_name n kind a suffix = to_dds_name n kind b suffix"
  using assms by (auto simp: to_dds_name_def)

lemma action_topics_same:
  assumes "absolute act \<or> node_namespace a = node_namespace b"
  shows "to_server a act ty = to_server b act ty" and "to_client a act ty = to_client b act ty"
proof -
  have "to_dds_name (name_push (name_push act ''_action'') s) kind a suffix
      = to_dds_name (name_push (name_push act ''_action'') s) kind b suffix" for s kind suffix
    using assms by (intro to_dds_name_same) simp
  then show "to_server a act ty = to_server b act ty" "to_client a act ty = to_client b act ty"
    by (simp_all add: to_server_def to_client_def action_services_def action_topics_def request_key_of_def response_key_of_def
        message_key_def Let_def)
qed

lemma makesD:
  assumes "makes (dn_name n) m Q W R" and "m n = (Ok x, n')"
  shows "\<exists>cs. dn_calls n' = dn_calls n @ cs \<and> written_topics cs = W \<and> read_topics cs = R"
  using assms unfolding makes_def by blast

text \<open>C24. The endpoints of a DDS action meet: when a client and a server of one action name and type, the
  server typed or raw, have been created by nodes under which the name means the same, the topics the
  client writes are those the server reads, and the topics the client reads, for responses, feedback
  and status, are those the server writes, by name and by type, one for one.\<close>

theorem dds_action_endpoints_match:
  assumes "dds_create_action_client env mapping act ty qos a = (Ok c, a')"
    and "dds_create_action_server env' mapping' act ty qos' b = (Ok s, b')
      \<or> dds_create_raw_action_server env' act ty qos' b = (Ok s', b')"
    and "absolute act \<or> node_namespace (dn_name a) = node_namespace (dn_name b)"
  shows "\<exists>cs ss. dn_calls a' = dn_calls a @ cs \<and> dn_calls b' = dn_calls b @ ss
    \<and> written_topics cs = read_topics ss \<and> length (written_topics cs) = 3
    \<and> read_topics cs = written_topics ss \<and> length (read_topics cs) = 5"
proof -
  obtain cs where cs: "dn_calls a' = dn_calls a @ cs" "written_topics cs = to_server (dn_name a) act ty"
    "read_topics cs = to_client (dn_name a) act ty"
    using makesD [OF makes_action_client assms(1)] by blast
  obtain ss where ss: "dn_calls b' = dn_calls b @ ss" "written_topics ss = to_client (dn_name b) act ty"
    "read_topics ss = to_server (dn_name b) act ty"
    using assms(2) makesD [OF makes_action_server] makesD [OF makes_raw_action_server] by metis
  have "length (to_server nm act ty) = 3 \<and> length (to_client nm act ty) = 5" for nm
    by (simp add: to_server_def to_client_def action_services_def action_topics_def Let_def)
  with cs ss action_topics_same [OF assms(3)] show ?thesis by auto
qed

subsection \<open>Programs that create entities\<close>

text \<open>\<open>unwrap\<close> of what an operation of the node returns.\<close>

definition dnode_expect :: "('q, 't, 'a) dnode_op \<Rightarrow> ('q, 't, 'a) dnode_op" where
  "dnode_expect m n = (case m n of (Inl _, n') \<Rightarrow> (Err NodePanic, n') | (Inr x, n') \<Rightarrow> (Ok x, n'))"

lemma expect_Ok: "dnode_expect m n = (Ok x, n') \<longleftrightarrow> m n = (Ok x, n')"
  by (auto simp: dnode_expect_def split: prod.splits sum.splits)

lemma makes_expect: "makes nm m Q W R \<Longrightarrow> makes nm (dnode_expect m) Q W R"
  by (simp only: makes_def expect_Ok)

lemma makes_then:
  assumes "makes nm m Q W R" and "\<And>x. Q x \<Longrightarrow> makes nm (f x) Q' W' R'"
  shows "makes nm (dnode_bind (dnode_expect m) f) Q' (W @ W') (R @ R')"
  by (rule makes_bind [OF makes_expect [OF assms(1)] assms(2)])

lemma unwrapped: "r = Ok x \<Longrightarrow> dnode_bind (dnode_unwrap r) f = f x"
  by (simp add: fun_eq_iff dnode_bind_def dnode_unwrap_def)

definition absolute_name :: "string list \<Rightarrow> string \<Rightarrow> name" where
  "absolute_name toks base = \<lparr>base_name = base, preceeding_tokens = toks, absolute = True\<rparr>"

text \<open>With a DDS that creates whatever it is asked for, actions can be created.\<close>

definition works :: "('q, 't, 'a) dnode_op \<Rightarrow> bool" where
  "works m \<longleftrightarrow> (\<forall>n. \<exists>x n'. m n = (Ok x, n'))"

lemma works_bind: "works m \<Longrightarrow> (\<And>x. works (f x)) \<Longrightarrow> works (dnode_bind m f)"
  unfolding works_def dnode_bind_def by (metis (no_types, lifting) case_prod_conv sum.case(2))

lemma works_return: "works (dnode_return x)"
  by (simp add: works_def dnode_return_def)

lemma works_primitives:
  "works (participant_create_topic sample_dds_env nm ty q)" "works (context_create_writer sample_dds_env t qo)"
  "works (context_create_reader sample_dds_env t qo)" "works (\<lambda>n. (Ok g, F n))"
  by (simp_all add: works_def participant_create_topic_def context_create_writer_def context_create_reader_def sample_dds_env_def Let_def)

lemma works_named:
  assumes "\<And>x. works (f x)" and "\<not> ends_with_char (CHR ''/'') kind"
  shows "works (\<lambda>n. dnode_bind (dnode_unwrap (ok_or e (to_dds_name s kind (dn_name n) suffix))) f n)"
  using assms by (simp add: works_def dnode_bind_def dnode_unwrap_def to_dds_name_def)

lemma works_entities:
  "works (dds_create_topic sample_dds_env s mty q)" "works (dds_create_client sample_dds_env mp s ty q q')"
  "works (dds_create_server sample_dds_env mp s ty q q')" "works (dds_create_publisher sample_dds_env t qo)"
  "works (dds_create_subscription sample_dds_env t qo)"
proof -
  have slash: "\<not> ends_with_char (CHR ''/'') ''rt''" "\<not> ends_with_char (CHR ''/'') ''rq''" "\<not> ends_with_char (CHR ''/'') ''rr''"
    by (simp_all add: ends_with_char_def)
  show t: "works (dds_create_topic sample_dds_env s mty q)"
    unfolding dds_create_topic_def by (intro works_named works_primitives slash)
  have topics: "works (service_topics sample_dds_env s ty q q')"
    unfolding service_topics_def by (intro works_named works_bind works_primitives works_return slash)
  show "works (dds_create_client sample_dds_env mp s ty q q')" "works (dds_create_server sample_dds_env mp s ty q q')"
    unfolding dds_create_client_def dds_create_server_def client_new_on_def server_new_on_def create_datawriter_def create_simpledatareader_def
    by (auto intro!: works_bind topics works_primitives works_return)
  show "works (dds_create_publisher sample_dds_env t qo)" "works (dds_create_subscription sample_dds_env t qo)"
    unfolding dds_create_publisher_def dds_create_subscription_def by (intro works_bind works_primitives)+
qed

theorem dds_action_endpoints_match_witness:
  "\<exists>c a' s b'. dds_create_action_client sample_dds_env Enhanced \<lparr>base_name = ''fib'', preceeding_tokens = [], absolute = True\<rparr>
       (action_type_name_new ''p'' ''Fibonacci'') \<lparr>aq_goal_service = 0, aq_result_service = 0, aq_cancel_service = 0, aq_feedback = 0, aq_status = 0\<rparr>
       sample_node = (Ok c, a')
     \<and> dds_create_action_server sample_dds_env Enhanced \<lparr>base_name = ''fib'', preceeding_tokens = [], absolute = True\<rparr>
       (action_type_name_new ''p'' ''Fibonacci'') \<lparr>aq_goal_service = 0, aq_result_service = 0, aq_cancel_service = 0, aq_feedback = 0, aq_status = 0\<rparr>
       sample_node = (Ok (s :: nat dds_action_server), b')
     \<and> (\<exists>cs ss. dn_calls a' = dn_calls sample_node @ cs \<and> dn_calls b' = dn_calls sample_node @ ss
          \<and> written_topics cs = read_topics ss \<and> read_topics cs = written_topics ss)"
proof -
  let ?act = "\<lparr>base_name = ''fib'', preceeding_tokens = [], absolute = True\<rparr>" and ?ty = "action_type_name_new ''p'' ''Fibonacci''"
    and ?q = "\<lparr>aq_goal_service = 0, aq_result_service = 0, aq_cancel_service = 0, aq_feedback = 0, aq_status = 0\<rparr>"
  have "works (dds_create_action_client sample_dds_env Enhanced ?act ?ty ?q)"
    unfolding dds_create_action_client_def Let_def by (intro works_bind works_return works_entities)
  then obtain c a' where c: "dds_create_action_client sample_dds_env Enhanced ?act ?ty ?q sample_node = (Ok c, a')"
    unfolding works_def by blast
  have "works (dds_create_action_server sample_dds_env Enhanced ?act ?ty ?q)"
    unfolding dds_create_action_server_def Let_def by (intro works_bind works_return works_entities)
  then obtain s :: "nat dds_action_server" and b'
    where s: "dds_create_action_server sample_dds_env Enhanced ?act ?ty ?q sample_node = (Ok s, b')"
    unfolding works_def by blast
  have "absolute ?act \<or> node_namespace (dn_name sample_node) = node_namespace (dn_name sample_node)" by simp
  from c s dds_action_endpoints_match [OF c disjI1 [OF s] this] show ?thesis by blast
qed

end
