(* ===== verification/Dds_Param_Calls.thy ===== *)
theory Dds_Param_Calls
  imports Dds_Params
begin

text \<open>
  Remote parameters over DDS from end to end: what a client of the parameter services writes, what the
  spinner of the node does with it, and what the client reads of the answers.
\<close>

lemma stream_reads:
  assumes "receive_request l cdr s (Ok (Some dcc)) = Ok (Some x)"
  shows "receive_request_stream l cdr s [Ok dcc] = [Ok x]"
  using assms by (auto simp: receive_request_def receive_request_stream_def and_then_Ok split: prod.splits)

lemma enhanced_response_taken:
  assumes "dv_service_mapping s = Enhanced" and "dds_ser cdr CDR_LE resp = Some b" and "\<And>smp. write smp \<noteq> None"
  obtains s' where "send_response l cdr write i resp s = (Ok (), s')"
proof -
  have "\<exists>s'. send_response l cdr write i resp s = (Ok (), s')"
    using assms by (auto simp: send_response_def response_new_def response_header_def Let_def split: option.splits)
  then show ?thesis using that by blast
qed

lemma response_read:
  assumes "response_unwrap l cdr Enhanced (message_info_of d) (dc_client_guid c) (cc_value d) = Ok (i, r)"
    and "dc_service_mapping c = Enhanced"
  shows "async_receive_response l cdr c i [Some (Inr d)] = (Ready (Ok r), [])"
  using response_stream_skip [of "[]" i l cdr c] assms by simp

text \<open>A request that reaches one of the spinner's services: the client and the service use the enhanced
  mapping, and the client was given an id.\<close>

definition requested :: "dds_lib \<Rightarrow> 'q dds_cdr \<Rightarrow> 'q \<Rightarrow> dds_client \<Rightarrow> dds_client \<Rightarrow> rmw_request_id \<Rightarrow> dds_server \<Rightarrow> bool" where
  "requested l cdr req c c' i s \<longleftrightarrow> dds_cdr_lawful cdr \<and> dc_service_mapping c = Enhanced \<and> dv_service_mapping s = Enhanced
     \<and> (\<exists>write. send_request l cdr write req c = (Ok i, c')) \<and> rr_sequence_number i \<noteq> sn_unknown l"

definition request_sample :: "dds_client \<Rightarrow> rmw_request_id \<Rightarrow> wrapper cache_change" where
  "request_sample c' i = delivered None (last (dc_written c')) (sample_identity_from i)"

lemma requested_answered:
  assumes "requested l qcdr req c c' i s" and "dds_cdr_lawful rcdr" and "dds_ser rcdr CDR_LE resp = Some b" and "\<And>smp. write smp \<noteq> None"
  obtains s' where "send_response l rcdr write i resp s = (Ok (), s')"
    and "receive_request_stream l qcdr s [Ok (request_sample c' i)] = [Ok (i, req)]"
    and "async_receive_response l rcdr c' i [Some (Inr (delivered st (last (dv_written s')) sid))] = (Ready (Ok resp), [])"
proof -
  obtain w where req: "dds_cdr_lawful qcdr" "dc_service_mapping c = Enhanced" "dv_service_mapping s = Enhanced"
    "send_request l qcdr w req c = (Ok i, c')" "rr_sequence_number i \<noteq> sn_unknown l"
    using assms(1) unfolding requested_def by blast
  obtain s' where s': "send_response l rcdr write i resp s = (Ok (), s')"
    by (rule enhanced_response_taken [OF req(3) assms(3,4)])
  note got = enhanced_exchange [OF req(1) assms(2) req(2-5) s']
  show thesis
    by (rule that [OF s' stream_reads response_read [OF got(2,3)]]) (simp add: request_sample_def got(1))
qed

subsection \<open>Setting and getting\<close>

lemma respond_done:
  assumes "sp_parameter_servers sp = Some servers" and "send_response (de_lib env) cdr (sk_write k) i resp (get_server servers) = (Ok (), s')"
  shows "respond env k cdr get_server put_server i resp sp = sp\<lparr>sp_parameter_servers := Some (put_server s' servers)\<rparr>"
  using assms by (simp add: respond_def async_send_response_same)

text \<open>What the spinner makes of a request to set and a request to get, one after the other.\<close>

lemma spin_set_get:
  assumes "sp_parameter_servers sp = Some servers" and "set_each (spinner_set_parameter env) params n = (rs, n1)"
    and "send_response (de_lib env) (sk_set_results k) (sk_write k) i rs (pr_set_parameters servers) = (Ok (), s1)"
    and "send_response (de_lib env) (sk_values k) (sk_write k) j (get_values (dn_parameters n1) names) (pr_get_parameters servers) = (Ok (), s2)"
  shows "dds_spin env k [SetParameters (Ok (i, params)), GetParameters (Ok (j, names))] (sp, n)
    = ((sp\<lparr>sp_parameter_servers := Some (servers\<lparr>pr_set_parameters := s1, pr_get_parameters := s2\<rparr>)\<rparr>, n1), [])"
proof -
  let ?sp = "sp\<lparr>sp_parameter_servers := Some (servers\<lparr>pr_set_parameters := s1\<rparr>)\<rparr>"
  have "spinner_step env k (SetParameters (Ok (i, params))) (sp, n) = (?sp, n1)"
    using assms(2) respond_done [where get_server = pr_set_parameters and put_server = "\<lambda>v. pr_set_parameters_update (\<lambda>_. v)", OF assms(1,3)] by simp
  moreover have "spinner_step env k (GetParameters (Ok (j, names))) (?sp, n1)
      = (sp\<lparr>sp_parameter_servers := Some (servers\<lparr>pr_set_parameters := s1, pr_get_parameters := s2\<rparr>)\<rparr>, n1)"
    using respond_done [where sp = ?sp and servers = "servers\<lparr>pr_set_parameters := s1\<rparr>" and get_server = pr_get_parameters
        and put_server = "\<lambda>v. pr_get_parameters_update (\<lambda>_. v)" and s' = s2 and i = j and cdr = "sk_values k"
        and resp = "get_values (dn_parameters n1) names"] assms(4)
    by simp
  ultimately show ?thesis by simp
qed

text \<open>C15. Parameters set through the DDS services are what is read through them: a client that sets gets
  the outcome for each parameter, and a client that gets afterwards reads for every name the value last
  set for it with success, the value the node had otherwise, and \<open>NotSet\<close> for an unknown name.\<close>

theorem dds_remote_set_then_get:
  assumes "requested (de_lib env) scdr params c c' i (pr_set_parameters servers)"
    and "requested (de_lib env) ncdr names d d' j (pr_get_parameters servers)"
    and "dds_cdr_lawful (sk_set_results k)" and "dds_cdr_lawful (sk_values k)" and "\<forall>smp. sk_write k smp \<noteq> None"
    and "sp_parameter_servers sp = Some servers" and "set_each (spinner_set_parameter env) params n = (rs, n1)"
    and "dds_ser (sk_set_results k) CDR_LE rs = Some b" and "dds_ser (sk_values k) CDR_LE (get_values (dn_parameters n1) names) = Some b'"
    and "receive_request_stream (de_lib env) scdr (pr_set_parameters servers) [Ok (request_sample c' i)] = [r]"
    and "receive_request_stream (de_lib env) ncdr (pr_get_parameters servers) [Ok (request_sample d' j)] = [g]"
    and "dds_spin env k [SetParameters r, GetParameters g] (sp, n) = ((sp', n'), left)"
  shows "\<exists>servers'. sp_parameter_servers sp' = Some servers' \<and> left = []
    \<and> async_receive_response (de_lib env) (sk_set_results k) c' i
        [Some (Inr (delivered st (last (dv_written (pr_set_parameters servers'))) sid))] = (Ready (Ok rs), [])
    \<and> async_receive_response (de_lib env) (sk_values k) d' j
        [Some (Inr (delivered st' (last (dv_written (pr_get_parameters servers'))) sid'))]
      = (Ready (Ok (map (\<lambda>nm. raw_from_value (case map_of (rev (accepted_updates params rs)) nm of
            Some v \<Rightarrow> v | None \<Rightarrow> (case map_of (dn_parameters n) nm of Some v \<Rightarrow> v | None \<Rightarrow> NotSet))) names)), [])"
proof -
  have taken: "sk_write k smp \<noteq> None" for smp using assms(5) by blast
  obtain s1 where s1: "send_response (de_lib env) (sk_set_results k) (sk_write k) i rs (pr_set_parameters servers) = (Ok (), s1)"
    "receive_request_stream (de_lib env) scdr (pr_set_parameters servers) [Ok (request_sample c' i)] = [Ok (i, params)]"
    "async_receive_response (de_lib env) (sk_set_results k) c' i [Some (Inr (delivered st (last (dv_written s1)) sid))] = (Ready (Ok rs), [])"
    by (rule requested_answered [OF assms(1,3,8) taken, where st = st and sid = sid])
  obtain s2 where s2: "send_response (de_lib env) (sk_values k) (sk_write k) j (get_values (dn_parameters n1) names) (pr_get_parameters servers) = (Ok (), s2)"
    "receive_request_stream (de_lib env) ncdr (pr_get_parameters servers) [Ok (request_sample d' j)] = [Ok (j, names)]"
    "async_receive_response (de_lib env) (sk_values k) d' j [Some (Inr (delivered st' (last (dv_written s2)) sid'))]
      = (Ready (Ok (get_values (dn_parameters n1) names)), [])"
    by (rule requested_answered [OF assms(2,4,9) taken, where st = st' and sid = sid'])
  have events: "r = Ok (i, params)" "g = Ok (j, names)" using assms(10,11) s1(2) s2(2) by simp_all
  have spin: "sp' = sp\<lparr>sp_parameter_servers := Some (servers\<lparr>pr_set_parameters := s1, pr_get_parameters := s2\<rparr>)\<rparr>" "left = []"
    using assms(12) spin_set_get [OF assms(6,7) s1(1) s2(1)] unfolding events by simp_all
  show ?thesis
    using s1(3) s2(3) unfolding spinner_params.get_after_set_each [OF assms(7)] by (simp add: spin)
qed

text \<open>One parameter, whose messages are single bytes.\<close>

definition sim_parameter :: raw_parameter where
  "sim_parameter = raw_from_parameter \<lparr>par_name = ''use_sim_time'', par_value = Boolean True\<rparr>"

definition constant_cdr :: "'a \<Rightarrow> 'a dds_cdr" where
  "constant_cdr x = fixed_cdr 1 (\<lambda>_. [1]) (\<lambda>_. x)"

definition sim_codecs :: spin_codecs where
  "sim_codecs = spun_codecs\<lparr>sk_values := constant_cdr [raw_from_value (Boolean True)],
     sk_set_results := constant_cdr [\<lparr>successful = True, reason = []\<rparr>],
     sk_write := (\<lambda>_. Some \<lparr>si_writer_guid = replicate 16 5, si_sequence_number = 1\<rparr>)\<rparr>"

definition sim_servers :: parameter_servers where
  "sim_servers = (let v = \<lparr>dv_service_mapping = Enhanced, dv_written = []\<rparr> in
     \<lparr>pr_get_parameters = v, pr_get_parameter_types = v, pr_set_parameters = v, pr_set_parameters_atomically = v,
      pr_list_parameters = v, pr_describe_parameters = v\<rparr>)"

lemma constant_cdr [simp]: "dds_cdr_lawful (constant_cdr x)" "dds_ser (constant_cdr x) e x = Some [1]"
  by (simp_all add: constant_cdr_def fixed_cdr_lawful) (simp add: fixed_cdr_def)

lemma constant_requested:
  assumes "dv_service_mapping s = Enhanced"
  obtains c' where "requested fixed_lib (constant_cdr x) x (dds_client_new fixed_lib Enhanced (replicate 16 4)) c'
    \<lparr>rr_writer_guid = replicate 16 4, rr_sequence_number = 1\<rparr> s"
proof -
  let ?w = "\<lambda>_. Some \<lparr>si_writer_guid = replicate 16 4, si_sequence_number = 1\<rparr>"
  obtain c' where "send_request fixed_lib (constant_cdr x) ?w x (dds_client_new fixed_lib Enhanced (replicate 16 4))
      = (Ok \<lparr>rr_writer_guid = replicate 16 4, rr_sequence_number = 1\<rparr>, c')"
    by (simp add: send_request_def dds_client_new_def increment_sequence_number_def request_new_def request_header_def
        rmw_request_id_from_def Let_def)
  then show thesis
    using assms by (intro that [of c']) (auto simp: requested_def dds_client_new_def fixed_lib_def)
qed

lemma sim_time_set:
  obtains n1 where "set_each (spinner_set_parameter spun_env) [sim_parameter] spun_node = ([\<lparr>successful = True, reason = []\<rparr>], n1)"
    and "get_values (dn_parameters n1) [''use_sim_time''] = [raw_from_value (Boolean True)]"
proof -
  have "map_of (dn_parameters spun_node) ''use_sim_time'' = Some (Boolean False)"
    by (simp add: spun_node_def initial_node_def declared_use_sim_time)
  then have "\<exists>n1. set_each (spinner_set_parameter spun_env) [sim_parameter] spun_node = ([\<lparr>successful = True, reason = []\<rparr>], n1)
      \<and> get_values (dn_parameters n1) [''use_sim_time''] = [raw_from_value (Boolean True)]"
    by (simp add: sim_parameter_def spinner_set_parameter_def set_parameter_at_def validate_parameter_on_set_def
        execute_parameter_set_actions_def dn_publish_event_def get_values_def map_laws Let_def)
  then show thesis using that by blast
qed

theorem dds_remote_set_then_get_witness:
  "\<exists>r g sp' n' servers' d' j. dds_spin spun_env sim_codecs [SetParameters r, GetParameters g]
       (\<lparr>sp_parameter_servers = Some sim_servers, sp_clock_topic = de_rosout_topic spun_env\<rparr>, spun_node) = ((sp', n'), [])
     \<and> sp_parameter_servers sp' = Some servers' \<and> async_receive_response fixed_lib (sk_values sim_codecs) d' j
     [Some (Inr (delivered None (last (dv_written (pr_get_parameters servers'))) \<lparr>si_writer_guid = replicate 16 5, si_sequence_number = 1\<rparr>))]
     = (Ready (Ok [raw_from_value (Boolean True)]), [])"
proof -
  let ?sp = "\<lparr>sp_parameter_servers = Some sim_servers, sp_clock_topic = de_rosout_topic spun_env\<rparr>"
    and ?i = "\<lparr>rr_writer_guid = replicate 16 4, rr_sequence_number = 1\<rparr>"
  have lib: "de_lib spun_env = fixed_lib" by (simp add: spun_env_def)
  have codecs: "sk_set_results sim_codecs = constant_cdr [\<lparr>successful = True, reason = []\<rparr>]"
    "sk_values sim_codecs = constant_cdr [raw_from_value (Boolean True)]" "\<forall>smp. sk_write sim_codecs smp \<noteq> None"
    by (simp_all add: sim_codecs_def)
  have enhanced: "dv_service_mapping (pr_set_parameters sim_servers) = Enhanced" "dv_service_mapping (pr_get_parameters sim_servers) = Enhanced"
    by (simp_all add: sim_servers_def Let_def)
  obtain c' where c: "requested fixed_lib (constant_cdr [sim_parameter]) [sim_parameter] (dds_client_new fixed_lib Enhanced (replicate 16 4)) c' ?i (pr_set_parameters sim_servers)"
    by (rule constant_requested [OF enhanced(1)])
  obtain d' where d: "requested fixed_lib (constant_cdr [''use_sim_time'']) [''use_sim_time''] (dds_client_new fixed_lib Enhanced (replicate 16 4)) d' ?i (pr_get_parameters sim_servers)"
    by (rule constant_requested [OF enhanced(2)])
  obtain n1 where n1: "set_each (spinner_set_parameter spun_env) [sim_parameter] spun_node = ([\<lparr>successful = True, reason = []\<rparr>], n1)"
    "get_values (dn_parameters n1) [''use_sim_time''] = [raw_from_value (Boolean True)]"
    by (rule sim_time_set)
  obtain r where r: "receive_request_stream fixed_lib (constant_cdr [sim_parameter]) (pr_set_parameters sim_servers) [Ok (request_sample c' ?i)] = [r]"
    by (simp add: receive_request_stream_def)
  obtain g where g: "receive_request_stream fixed_lib (constant_cdr [''use_sim_time'']) (pr_get_parameters sim_servers) [Ok (request_sample d' ?i)] = [g]"
    by (simp add: receive_request_stream_def)
  obtain sp' n' rest where spin: "dds_spin spun_env sim_codecs [SetParameters r, GetParameters g] (?sp, spun_node) = ((sp', n'), rest)"
    by (metis surj_pair)
  have upd: "map_of (rev (accepted_updates [sim_parameter] [\<lparr>successful = True, reason = []\<rparr>])) ''use_sim_time'' = Some (Boolean True)"
    by (simp add: accepted_updates_def sim_parameter_def raw_from_parameter_def del: raw_from_value.simps)
  have laws: "dds_cdr_lawful (sk_set_results sim_codecs)" "dds_cdr_lawful (sk_values sim_codecs)" by (simp_all add: codecs)
  have ser: "dds_ser (sk_set_results sim_codecs) CDR_LE [\<lparr>successful = True, reason = []\<rparr>] = Some [1]"
    "dds_ser (sk_values sim_codecs) CDR_LE (get_values (dn_parameters n1) [''use_sim_time'']) = Some [1]"
    unfolding n1(2) codecs by simp_all
  have sp: "sp_parameter_servers ?sp = Some sim_servers" by simp
  from dds_remote_set_then_get [where env = spun_env and sid' = "\<lparr>si_writer_guid = replicate 16 5, si_sequence_number = 1\<rparr>" and st' = None
      and sid = "\<lparr>si_writer_guid = replicate 16 5, si_sequence_number = 1\<rparr>" and st = None, unfolded lib, OF c d laws codecs(3) sp n1(1) ser r g spin]
  obtain servers' where fin: "sp_parameter_servers sp' = Some servers'" "rest = []"
    "async_receive_response fixed_lib (sk_values sim_codecs) d' ?i
       [Some (Inr (delivered None (last (dv_written (pr_get_parameters servers'))) \<lparr>si_writer_guid = replicate 16 5, si_sequence_number = 1\<rparr>))]
     = (Ready (Ok [raw_from_value (Boolean True)]), [])"
    unfolding list.map upd option.case by blast
  show ?thesis
    by (rule exI [of _ r], rule exI [of _ g], rule exI [of _ sp'], rule exI [of _ n'], rule exI [of _ servers'], rule exI [of _ d'], rule exI [of _ ?i])
      (intro conjI spin [unfolded fin(2)] fin(1) fin(3))
qed

end
