(* ===== verification/Action_Server.thy ===== *)
theory Action_Server
  imports Action_Msgs Dds_Service
begin

text \<open>
  The asynchronous action server of the DDS backend (\<open>action/server.rs\<close>). The two maps are
  \<open>BTreeMap\<close>s (the interpretation \<open>btree_map\<close>). What the server sends goes to rustdds, which may refuse it: the parameter \<open>wr\<close> tells which samples it takes, and \<open>sent\<close>
  lists those it took. An awaited request is the next item of a stream; \<open>Pending\<close> is an await
  whose stream has no item left.
\<close>

subsection \<open>Messages\<close>

type_synonym request_id = rmw_request_id

datatype ('r, 'f) action_output =
  SendGoalResponse request_id bool bi_time
| StatusArray "goal_status list"
| FeedbackMessage goal_id 'f
| GetResultResponse request_id goal_status_enum 'r
| CancelGoalResponse request_id cancel_response_enum "goal_info list"

datatype goal_end_status = EndSucceeded | EndAborted | EndCanceled

datatype goal_error = NoSuchGoal | WrongGoalState | DDSReadError | DDSWriteError

subsection \<open>The server\<close>

record 'g async_goal =
  ag_status :: goal_status_enum
  ag_accepted_time :: "bi_time option"
  ag_goal :: 'g

record ('g, 'r, 'f) action_server =
  goals :: "(goal_id \<times> 'g async_goal) list"
  finished_goals :: "goal_id list"
  result_requests :: "(goal_id \<times> request_id) list"
  sent :: "('r, 'f) action_output list"

record new_goal_handle =
  ngh_goal_id :: goal_id
  ngh_req_id :: request_id

datatype accepted_goal_handle = AcceptedGoalHandle goal_id
datatype executing_goal_handle = ExecutingGoalHandle goal_id

record cancel_handle =
  ch_req_id :: request_id
  ch_goals :: "goal_id list"

definition action_server_new :: "('g, 'r, 'f) action_server" where
  "action_server_new = \<lparr>goals = [], finished_goals = [], result_requests = [], sent = []\<rparr>"

text \<open>One write of a sample: whether it was taken, and the server after it.\<close>

definition send :: "(('r, 'f) action_output \<Rightarrow> bool) \<Rightarrow> ('r, 'f) action_output \<Rightarrow>
    ('g, 'r, 'f) action_server \<Rightarrow> bool \<times> ('g, 'r, 'f) action_server" where
  "send wr out st = (if wr out then (True, st\<lparr>sent := sent st @ [out]\<rparr>) else (False, st))"

definition status_list :: "(goal_id \<times> 'g async_goal) list \<Rightarrow> goal_status list" where
  "status_list gs =
     map (\<lambda>(gid, g). \<lparr>gs_goal_info = \<lparr>gi_goal_id = gid,
         gi_stamp = (case ag_accepted_time g of Some t \<Rightarrow> t | None \<Rightarrow> BI_TIME_ZERO)\<rparr>,
         gs_status = ag_status g\<rparr>) gs"

definition publish_statuses :: "(('r, 'f) action_output \<Rightarrow> bool) \<Rightarrow>
    ('g, 'r, 'f) action_server \<Rightarrow> ('g, 'r, 'f) action_server" where
  "publish_statuses wr st = snd (send wr (StatusArray (status_list (goals st))) st)"

definition mark_goal_finished :: "goal_id \<Rightarrow> ('g, 'r, 'f) action_server \<Rightarrow> ('g, 'r, 'f) action_server" where
  "mark_goal_finished gid st = st\<lparr>finished_goals := finished_goals st @ [gid]\<rparr>"

definition looks_done :: "'g async_goal \<Rightarrow> bool" where
  "looks_done g \<longleftrightarrow> ag_status g = Succeeded \<or> ag_status g = Aborted \<or> ag_status g = Canceled"

text \<open>Draining the finished goals; with debug assertions a goal that is not done is a panic,
  \<open>None\<close>. A goal that is not there is only logged.\<close>

fun flush_goals :: "bool \<Rightarrow> goal_id list \<Rightarrow> (goal_id \<times> 'g async_goal) list \<Rightarrow>
    (goal_id \<times> 'g async_goal) list option" where
  "flush_goals debug [] gs = Some gs"
| "flush_goals debug (g # fs) gs =
     (case map_of gs g of
        Some goal \<Rightarrow>
          if debug \<and> \<not> looks_done goal then None else flush_goals debug fs (bt_remove g gs)
      | None \<Rightarrow> flush_goals debug fs gs)"

definition flush_finished_goals :: "bool \<Rightarrow> ('g, 'r, 'f) action_server \<Rightarrow> ('g, 'r, 'f) action_server option" where
  "flush_finished_goals debug st =
     map_option (\<lambda>gs. st\<lparr>goals := gs, finished_goals := []\<rparr>) (flush_goals debug (finished_goals st) (goals st))"

definition get_new_goal :: "bool \<Rightarrow> new_goal_handle \<Rightarrow> ('g, 'r, 'f) action_server \<Rightarrow>
    ('g option \<times> ('g, 'r, 'f) action_server) option" where
  "get_new_goal debug h st =
     map_option (\<lambda>st'. (map_option ag_goal (map_of (goals st') (ngh_goal_id h)), st'))
       (flush_finished_goals debug st)"

text \<open>The loop of \<open>receive_new_goal\<close> over the goal requests, a request whose goal id is already
  known being discarded; the third component is what is left of the stream.\<close>

fun receive_new_goal :: "(goal_error + (request_id \<times> 'g send_goal_request)) list \<Rightarrow> ('g, 'r, 'f) action_server \<Rightarrow>
    (goal_error + new_goal_handle) poll \<times> ('g, 'r, 'f) action_server
      \<times> (goal_error + (request_id \<times> 'g send_goal_request)) list" where
  "receive_new_goal [] st = (Pending, st, [])"
| "receive_new_goal (Inl e # reqs) st = (Ready (Err e), st, reqs)"
| "receive_new_goal (Inr (req_id, req) # reqs) st =
     (case map_of (goals st) (sg_goal_id req) of
        None \<Rightarrow>
          (Ready (Ok \<lparr>ngh_goal_id = sg_goal_id req, ngh_req_id = req_id\<rparr>),
           st\<lparr>goals := bt_insert (sg_goal_id req)
                \<lparr>ag_status = Unknown, ag_accepted_time = None, ag_goal = sg_goal req\<rparr> (goals st)\<rparr>,
           reqs)
      | Some _ \<Rightarrow> receive_new_goal reqs st)"

definition set_status :: "goal_id \<Rightarrow> goal_status_enum \<Rightarrow> ('g, 'r, 'f) action_server \<Rightarrow> ('g, 'r, 'f) action_server" where
  "set_status gid s st = st\<lparr>goals := bt_modify gid (\<lambda>g. g\<lparr>ag_status := s\<rparr>) (goals st)\<rparr>"

definition accept_goal :: "(('r, 'f) action_output \<Rightarrow> bool) \<Rightarrow> bi_time \<Rightarrow> new_goal_handle \<Rightarrow>
    ('g, 'r, 'f) action_server \<Rightarrow> (goal_error + accepted_goal_handle) \<times> ('g, 'r, 'f) action_server" where
  "accept_goal wr now h st =
     (let gid = ngh_goal_id h in
      case map_of (goals st) gid of
        None \<Rightarrow> (Err NoSuchGoal, st)
      | Some g \<Rightarrow>
          if ag_status g = Unknown then
            (let st1 = st\<lparr>goals := bt_modify gid (\<lambda>g. g\<lparr>ag_status := Accepted, ag_accepted_time := Some now\<rparr>) (goals st)\<rparr>;
                 st2 = publish_statuses wr st1;
                 (ok, st3) = send wr (SendGoalResponse (ngh_req_id h) True now) st2
             in (if ok then Ok (AcceptedGoalHandle gid) else Err DDSWriteError, st3))
          else (Err WrongGoalState, st))"

definition reject_goal :: "(('r, 'f) action_output \<Rightarrow> bool) \<Rightarrow> bi_time \<Rightarrow> new_goal_handle \<Rightarrow>
    ('g, 'r, 'f) action_server \<Rightarrow> (goal_error + unit) \<times> ('g, 'r, 'f) action_server" where
  "reject_goal wr now h st =
     (let gid = ngh_goal_id h in
      case map_of (goals st) gid of
        None \<Rightarrow> (Err NoSuchGoal, st)
      | Some g \<Rightarrow>
          if ag_status g = Unknown then
            (let st1 = st\<lparr>goals := bt_remove gid (goals st)\<rparr>;
                 (ok, st2) = send wr (SendGoalResponse (ngh_req_id h) False now) st1
             in (if ok then Ok () else Err DDSWriteError, st2))
          else (Err WrongGoalState, st))"

fun start_executing_goal :: "(('r, 'f) action_output \<Rightarrow> bool) \<Rightarrow> accepted_goal_handle \<Rightarrow>
    ('g, 'r, 'f) action_server \<Rightarrow> (goal_error + executing_goal_handle) \<times> ('g, 'r, 'f) action_server" where
  "start_executing_goal wr (AcceptedGoalHandle gid) st =
     (case map_of (goals st) gid of
        None \<Rightarrow> (Err NoSuchGoal, st)
      | Some g \<Rightarrow>
          if ag_status g = Accepted
          then (Ok (ExecutingGoalHandle gid), publish_statuses wr (set_status gid Executing st))
          else (Err WrongGoalState, st))"

fun publish_feedback :: "(('r, 'f) action_output \<Rightarrow> bool) \<Rightarrow> executing_goal_handle \<Rightarrow> 'f \<Rightarrow>
    ('g, 'r, 'f) action_server \<Rightarrow> (goal_error + unit) \<times> ('g, 'r, 'f) action_server" where
  "publish_feedback wr (ExecutingGoalHandle gid) feedback st =
     (case map_of (goals st) gid of
        None \<Rightarrow> (Err NoSuchGoal, st)
      | Some g \<Rightarrow>
          if ag_status g = Executing then
            (let (ok, st1) = send wr (FeedbackMessage gid feedback) st
             in (if ok then Ok () else Err DDSWriteError, st1))
          else (Err WrongGoalState, st))"

text \<open>The inner loop of \<open>send_result_response\<close>: receive result requests until the one for this
  goal arrives, remembering the others.\<close>

fun await_result_request :: "goal_id \<Rightarrow> (goal_error + (request_id \<times> goal_id)) list \<Rightarrow> (goal_id \<times> request_id) list \<Rightarrow>
    (goal_error + request_id) poll \<times> (goal_id \<times> request_id) list \<times> (goal_error + (request_id \<times> goal_id)) list" where
  "await_result_request gid [] rr = (Pending, rr, [])"
| "await_result_request gid (Inl e # reqs) rr = (Ready (Err e), rr, reqs)"
| "await_result_request gid (Inr (req_id, g) # reqs) rr =
     (if g = gid then (Ready (Ok req_id), rr, reqs)
      else await_result_request gid reqs (bt_insert g req_id rr))"

definition find_result_request :: "goal_id \<Rightarrow> (goal_error + (request_id \<times> goal_id)) list \<Rightarrow> (goal_id \<times> request_id) list \<Rightarrow>
    (goal_error + request_id) poll \<times> (goal_id \<times> request_id) list \<times> (goal_error + (request_id \<times> goal_id)) list" where
  "find_result_request gid reqs rr =
     (case map_of rr gid of
        Some req_id \<Rightarrow> (Ready (Ok req_id), rr, reqs)
      | None \<Rightarrow> await_result_request gid reqs rr)"

fun end_status :: "goal_end_status \<Rightarrow> goal_status_enum" where
  "end_status EndSucceeded = Succeeded"
| "end_status EndAborted = Aborted"
| "end_status EndCanceled = Canceled"

definition finish_goal :: "(('r, 'f) action_output \<Rightarrow> bool) \<Rightarrow> goal_id \<Rightarrow> request_id \<Rightarrow> goal_status_enum \<Rightarrow> 'r \<Rightarrow>
    ('g, 'r, 'f) action_server \<Rightarrow> (goal_error + unit) \<times> ('g, 'r, 'f) action_server" where
  "finish_goal wr gid req_id s result st =
     (case map_of (goals st) gid of
        None \<Rightarrow> (Err NoSuchGoal, st)
      | Some g \<Rightarrow>
          if ag_status g = Accepted \<or> ag_status g = Executing \<or> ag_status g = Canceling then
            (let st1 = set_status gid s st;
                 (ok, st2) = send wr (GetResultResponse req_id s result) st1
             in if ok then (Ok (), mark_goal_finished gid (publish_statuses wr st2))
                else (Err DDSWriteError, st2))
          else (Err WrongGoalState, st))"

fun send_result_response :: "(('r, 'f) action_output \<Rightarrow> bool) \<Rightarrow> executing_goal_handle \<Rightarrow> goal_end_status \<Rightarrow> 'r \<Rightarrow>
    (goal_error + (request_id \<times> goal_id)) list \<Rightarrow> ('g, 'r, 'f) action_server \<Rightarrow>
    (goal_error + unit) poll \<times> ('g, 'r, 'f) action_server \<times> (goal_error + (request_id \<times> goal_id)) list" where
  "send_result_response wr (ExecutingGoalHandle gid) es result reqs st =
     (let (p, rr, rest) = find_result_request gid reqs (result_requests st);
          st1 = st\<lparr>result_requests := rr\<rparr>
      in case p of
           Pending \<Rightarrow> (Pending, st1, rest)
         | Ready (Inl e) \<Rightarrow> (Ready (Err e), st1, rest)
         | Ready (Inr req_id) \<Rightarrow>
             (let (r, st2) = finish_goal wr gid req_id (end_status es) result st1 in (Ready r, st2, rest)))"

text \<open>\<open>send_result_response\<close> polled again after it was pending: it is inside its receive loop and does not
  look at the remembered requests any more.\<close>

fun resume_result_response :: "(('r, 'f) action_output \<Rightarrow> bool) \<Rightarrow> executing_goal_handle \<Rightarrow> goal_end_status \<Rightarrow> 'r \<Rightarrow>
    (goal_error + (request_id \<times> goal_id)) list \<Rightarrow> ('g, 'r, 'f) action_server \<Rightarrow>
    (goal_error + unit) poll \<times> ('g, 'r, 'f) action_server \<times> (goal_error + (request_id \<times> goal_id)) list" where
  "resume_result_response wr (ExecutingGoalHandle gid) es result reqs st =
     (let (p, rr, rest) = await_result_request gid reqs (result_requests st);
          st1 = st\<lparr>result_requests := rr\<rparr>
      in case p of
           Pending \<Rightarrow> (Pending, st1, rest)
         | Ready (Inl e) \<Rightarrow> (Ready (Err e), st1, rest)
         | Ready (Inr req_id) \<Rightarrow>
             (let (r, st2) = finish_goal wr gid req_id (end_status es) result st1 in (Ready r, st2, rest)))"

definition abort_goal :: "(('r, 'f) action_output \<Rightarrow> bool) \<Rightarrow> goal_id \<Rightarrow>
    ('g, 'r, 'f) action_server \<Rightarrow> (goal_error + unit) \<times> ('g, 'r, 'f) action_server" where
  "abort_goal wr gid st =
     (case map_of (goals st) gid of
        None \<Rightarrow> (Err NoSuchGoal, st)
      | Some g \<Rightarrow>
          if ag_status g = Accepted \<or> ag_status g = Executing
          then (Ok (), mark_goal_finished gid (publish_statuses wr (set_status gid Aborted st)))
          else (Err WrongGoalState, st))"

fun abort_executing_goal :: "(('r, 'f) action_output \<Rightarrow> bool) \<Rightarrow> executing_goal_handle \<Rightarrow>
    ('g, 'r, 'f) action_server \<Rightarrow> (goal_error + unit) \<times> ('g, 'r, 'f) action_server" where
  "abort_executing_goal wr (ExecutingGoalHandle gid) st = abort_goal wr gid st"

fun abort_accepted_goal :: "(('r, 'f) action_output \<Rightarrow> bool) \<Rightarrow> accepted_goal_handle \<Rightarrow>
    ('g, 'r, 'f) action_server \<Rightarrow> (goal_error + unit) \<times> ('g, 'r, 'f) action_server" where
  "abort_accepted_goal wr (AcceptedGoalHandle gid) st = abort_goal wr gid st"

definition accepted_before :: "bi_time \<Rightarrow> 'g async_goal \<Rightarrow> bool" where
  "accepted_before stamp g =
     (case ag_accepted_time g of
        Some at \<Rightarrow> bt_nanos_since_epoch at < bt_nanos_since_epoch stamp | None \<Rightarrow> False)"

definition goal_filter :: "goal_info \<Rightarrow> goal_id \<times> 'g async_goal \<Rightarrow> bool" where
  "goal_filter gi p =
     (if gi_goal_id gi = GOAL_ID_ZERO \<and> gi_stamp gi = BI_TIME_ZERO then True
      else if gi_goal_id gi = GOAL_ID_ZERO then accepted_before (gi_stamp gi) (snd p)
      else if gi_stamp gi = BI_TIME_ZERO then gi_goal_id gi = fst p
      else gi_goal_id gi = fst p \<or> accepted_before (gi_stamp gi) (snd p))"

text \<open>\<open>receive_cancel_request\<close> for the request it awaited.\<close>

definition receive_cancel_request :: "request_id \<times> goal_info \<Rightarrow> ('g, 'r, 'f) action_server \<Rightarrow> cancel_handle" where
  "receive_cancel_request rq st =
     \<lparr>ch_req_id = fst rq,
      ch_goals = map fst (filter (goal_filter (snd rq))
        (filter (\<lambda>(_, g). ag_status g = Executing \<or> ag_status g = Accepted) (goals st)))\<rparr>"

definition canceling_goals :: "goal_id list \<Rightarrow> ('g, 'r, 'f) action_server \<Rightarrow> goal_info list" where
  "canceling_goals gids st =
     List.map_filter (\<lambda>gid. Option.bind (map_of (goals st) gid)
       (\<lambda>g. map_option (\<lambda>t. \<lparr>gi_goal_id = gid, gi_stamp = t\<rparr>) (ag_accepted_time g))) gids"

definition respond_to_cancel_requests :: "(('r, 'f) action_output \<Rightarrow> bool) \<Rightarrow> cancel_handle \<Rightarrow> goal_id list \<Rightarrow>
    ('g, 'r, 'f) action_server \<Rightarrow> (goal_error + unit) \<times> ('g, 'r, 'f) action_server" where
  "respond_to_cancel_requests wr ch goals_to_cancel st =
     (let canceling = canceling_goals goals_to_cancel st;
          st1 = fold (\<lambda>gi. set_status (gi_goal_id gi) Canceling) canceling st;
          st2 = publish_statuses wr st1;
          code = (if canceling = [] then Rejected else CancelNone);
          (ok, st3) = send wr (CancelGoalResponse (ch_req_id ch) code canceling) st2
      in (if ok then Ok () else Err DDSWriteError, st3))"

subsection \<open>The goal state machine\<close>

text \<open>The abstract server: the status of each known goal. A step may create a goal, reject a new
  one, move one along the ROS 2 goal state machine, or forget a finished one.\<close>

definition statuses :: "('g, 'r, 'f) action_server \<Rightarrow> goal_id \<Rightarrow> goal_status_enum option" where
  "statuses st gid = map_option ag_status (map_of (goals st) gid)"

definition terminal :: "goal_status_enum \<Rightarrow> bool" where
  "terminal s \<longleftrightarrow> s = Succeeded \<or> s = Aborted \<or> s = Canceled"

definition active :: "goal_status_enum \<Rightarrow> bool" where
  "active s \<longleftrightarrow> s = Accepted \<or> s = Executing \<or> s = Canceling"

text \<open>The ROS 2 goal state machine: an accepted goal executes or is canceled, an executing one ends or is canceled,
  and a goal is reported as canceled only after it was canceling.\<close>

definition goal_edge :: "goal_status_enum option \<Rightarrow> goal_status_enum option \<Rightarrow> bool" where
  "goal_edge a b \<longleftrightarrow> a = b \<or>
     (case (a, b) of
        (None, Some s) \<Rightarrow> s = Unknown
      | (Some s, None) \<Rightarrow> s = Unknown \<or> terminal s
      | (Some s, Some t) \<Rightarrow> s = Unknown \<and> t = Accepted
          \<or> s = Accepted \<and> (t = Executing \<or> t = Canceling)
          \<or> s = Executing \<and> (t = Canceling \<or> t = Succeeded \<or> t = Aborted)
          \<or> s = Canceling \<and> terminal t
      | (None, None) \<Rightarrow> True)"

text \<open>What the code permits beyond it: an accepted goal may end, an executing one be reported as canceled.\<close>

definition shortcut :: "goal_status_enum option \<Rightarrow> goal_status_enum option \<Rightarrow> bool" where
  "shortcut a b \<longleftrightarrow> (case (a, b) of
     (Some s, Some t) \<Rightarrow> s = Accepted \<and> terminal t \<or> s = Executing \<and> t = Canceled | _ \<Rightarrow> False)"

text \<open>How an application uses the server: in any way; so that it answers a cancel request only with goals that have not
  ended; or so that besides it ends a goal only after it has started executing it or is canceling it, and reports it as
  canceled only when it is canceling it.\<close>

datatype care = AnyUse | LiveCancels | Ros2Use

definition may_end :: "goal_status_enum option \<Rightarrow> goal_end_status \<Rightarrow> bool" where
  "may_end s es \<longleftrightarrow> s \<noteq> Some Accepted \<and> (es = EndCanceled \<longrightarrow> s \<noteq> Some Executing)"

text \<open>The steps of a server: its operations, each with any arguments and any input.\<close>

inductive action_step :: "(('r, 'f) action_output \<Rightarrow> bool) \<Rightarrow> bool \<Rightarrow> care \<Rightarrow>
    ('g, 'r, 'f) action_server \<Rightarrow> ('g, 'r, 'f) action_server \<Rightarrow> bool"
  for wr :: "('r, 'f) action_output \<Rightarrow> bool" and debug :: bool and care :: care where
  step_receive: "receive_new_goal reqs st = (p, st', rest) \<Longrightarrow> action_step wr debug care st st'"
| step_get: "get_new_goal debug h st = Some (g, st') \<Longrightarrow> action_step wr debug care st st'"
| step_accept: "accept_goal wr now h st = (r, st') \<Longrightarrow> action_step wr debug care st st'"
| step_reject: "reject_goal wr now h st = (r, st') \<Longrightarrow> action_step wr debug care st st'"
| step_start: "start_executing_goal wr ah st = (r, st') \<Longrightarrow> action_step wr debug care st st'"
| step_feedback: "publish_feedback wr eh f st = (r, st') \<Longrightarrow> action_step wr debug care st st'"
| step_result: "send_result_response wr (ExecutingGoalHandle gid) es res reqs st = (p, st', rest) \<Longrightarrow>
    (care = Ros2Use \<Longrightarrow> may_end (statuses st gid) es) \<Longrightarrow> action_step wr debug care st st'"
| step_resume: "resume_result_response wr (ExecutingGoalHandle gid) es res reqs st = (p, st', rest) \<Longrightarrow>
    (care = Ros2Use \<Longrightarrow> may_end (statuses st gid) es) \<Longrightarrow> action_step wr debug care st st'"
| step_abort: "abort_goal wr gid st = (r, st') \<Longrightarrow>
    (care = Ros2Use \<Longrightarrow> may_end (statuses st gid) EndAborted) \<Longrightarrow> action_step wr debug care st st'"
| step_cancel: "respond_to_cancel_requests wr ch gids st = (r, st') \<Longrightarrow>
    (care \<noteq> AnyUse \<Longrightarrow> \<forall>gid\<in>set gids. \<forall>s. statuses st gid = Some s \<longrightarrow> \<not> terminal s) \<Longrightarrow>
    action_step wr debug care st st'"

inductive action_reachable :: "(('r, 'f) action_output \<Rightarrow> bool) \<Rightarrow> bool \<Rightarrow> care \<Rightarrow>
    ('g, 'r, 'f) action_server \<Rightarrow> bool"
  for wr :: "('r, 'f) action_output \<Rightarrow> bool" and debug :: bool and care :: care where
  reach_new: "action_reachable wr debug care action_server_new"
| reach_step: "action_reachable wr debug care st \<Longrightarrow> action_step wr debug care st st' \<Longrightarrow>
    action_reachable wr debug care st'"

definition action_inv :: "('g, 'r, 'f) action_server \<Rightarrow> bool" where
  "action_inv st \<longleftrightarrow> bt_inv (goals st) \<and> bt_inv (result_requests st)
     \<and> (\<forall>gid g. map_of (goals st) gid = Some g \<longrightarrow> (ag_status g = Unknown \<longleftrightarrow> ag_accepted_time g = None))"

text \<open>A careful application never leaves a live goal among the finished ones.\<close>

definition finished_inv :: "('g, 'r, 'f) action_server \<Rightarrow> bool" where
  "finished_inv st \<longleftrightarrow> distinct (finished_goals st)
     \<and> (\<forall>gid\<in>set (finished_goals st). \<exists>s. statuses st gid = Some s \<and> terminal s)"

subsection \<open>What the helpers change\<close>

lemma send_fields [simp]:
  "goals (snd (send wr out st)) = goals st" "finished_goals (snd (send wr out st)) = finished_goals st"
  "result_requests (snd (send wr out st)) = result_requests st" "fst (send wr out st) = wr out"
  by (simp_all add: send_def)

lemma send_snd: "send wr out st = (ok, st') \<Longrightarrow> goals st' = goals st \<and> finished_goals st' = finished_goals st
    \<and> result_requests st' = result_requests st \<and> ok = wr out"
  by (auto simp: send_def split: if_splits)

lemma publish_statuses_fields [simp]:
  "goals (publish_statuses wr st) = goals st" "finished_goals (publish_statuses wr st) = finished_goals st"
  "result_requests (publish_statuses wr st) = result_requests st"
  by (simp_all add: publish_statuses_def)

lemma set_status_fields [simp]:
  "finished_goals (set_status gid s st) = finished_goals st" "result_requests (set_status gid s st) = result_requests st"
  "bt_inv (goals (set_status gid s st)) = bt_inv (goals st)"
  by (simp_all add: set_status_def)

lemma mark_finished_fields [simp]:
  "goals (mark_goal_finished gid st) = goals st" "finished_goals (mark_goal_finished gid st) = finished_goals st @ [gid]"
  "result_requests (mark_goal_finished gid st) = result_requests st"
  by (simp_all add: mark_goal_finished_def)

lemma map_of_set_status:
  "map_of (goals (set_status gid s st)) a =
     (if a = gid then map_option (\<lambda>g. g\<lparr>ag_status := s\<rparr>) (map_of (goals st) a) else map_of (goals st) a)"
  by (simp add: set_status_def bt_get_modify)

lemma statuses_set_status:
  "statuses (set_status gid s st) a =
     (if a = gid \<and> statuses st gid \<noteq> None then Some s else statuses st a)"
  by (auto simp: statuses_def map_of_set_status option.map_comp comp_def split: option.split)

lemma statuses_cong: "goals st = goals st' \<Longrightarrow> statuses st = statuses st'"
  by (simp add: statuses_def fun_eq_iff)

lemma action_inv_cong:
  "goals st' = goals st \<Longrightarrow> result_requests st' = result_requests st \<Longrightarrow> action_inv st' = action_inv st"
  by (simp add: action_inv_def)

lemma action_inv_new [simp]: "action_inv action_server_new"
  by (simp add: action_inv_def action_server_new_def bt_inv_def)

lemma action_inv_set_status:
  "action_inv st \<Longrightarrow> statuses st gid \<noteq> Some Unknown \<Longrightarrow> s \<noteq> Unknown \<Longrightarrow> action_inv (set_status gid s st)"
  by (auto simp: action_inv_def map_of_set_status statuses_def)

subsection \<open>The invariants are kept by every operation\<close>

lemma receive_new_goal_effect:
  "receive_new_goal reqs st = (p, st', rest) \<Longrightarrow>
     st' = st \<and> (\<forall>h. p \<noteq> Ready (Ok h))
     \<or> (\<exists>req_id req. map_of (goals st) (sg_goal_id req) = None \<and> Inr (req_id, req) \<in> set reqs
        \<and> p = Ready (Ok \<lparr>ngh_goal_id = sg_goal_id req, ngh_req_id = req_id\<rparr>)
        \<and> st' = st\<lparr>goals := bt_insert (sg_goal_id req)
            \<lparr>ag_status = Unknown, ag_accepted_time = None, ag_goal = sg_goal req\<rparr> (goals st)\<rparr>)"
proof (induction reqs)
  case (Cons r reqs)
  show ?case
  proof (cases r)
    case (Inr q)
    obtain req_id req where q: "q = (req_id, req)" by (cases q)
    show ?thesis
      using Cons Inr q by (cases "map_of (goals st) (sg_goal_id req)") auto
  qed (use Cons in auto)
qed simp

lemma flush_goals_get:
  assumes "flush_goals debug fs gs = Some gs'" and "bt_inv gs"
  shows "bt_inv gs' \<and> map_of gs' a = (if a \<in> set fs then None else map_of gs a)"
  using assms
proof (induction fs arbitrary: gs)
  case (Cons g fs)
  then show ?case
    by (auto simp: bt_inv_remove bt_get_remove split: option.splits if_splits)
qed simp

lemma flush_goals_done:
  "(\<And>f g. f \<in> set fs \<Longrightarrow> map_of gs f = Some g \<Longrightarrow> looks_done g) \<Longrightarrow> \<exists>gs'. flush_goals debug fs gs = Some gs'"
proof (induction fs arbitrary: gs)
  case (Cons f fs)
  have "\<exists>gs'. flush_goals debug fs (bt_remove f gs) = Some gs'"
    by (rule Cons.IH) (use Cons.prems in \<open>auto simp: bt_get_remove split: if_splits\<close>)
  moreover have "\<exists>gs'. flush_goals debug fs gs = Some gs'" by (rule Cons.IH) (use Cons.prems in auto)
  ultimately show ?case using Cons.prems by (auto split: option.split)
qed simp

lemma canceling_goals_mem:
  "gi \<in> set (canceling_goals gids st) \<longleftrightarrow> gi_goal_id gi \<in> set gids \<and>
     (\<exists>g. map_of (goals st) (gi_goal_id gi) = Some g \<and> ag_accepted_time g = Some (gi_stamp gi))"
  by (cases gi) (auto simp: canceling_goals_def map_filter_def image_iff split: Option.bind_splits)

lemma fold_canceling_fields [simp]:
  "finished_goals (fold (\<lambda>gi. set_status (gi_goal_id gi) Canceling) gis st) = finished_goals st"
  "result_requests (fold (\<lambda>gi. set_status (gi_goal_id gi) Canceling) gis st) = result_requests st"
  by (induction gis arbitrary: st) simp_all

lemma statuses_fold_canceling:
  "statuses (fold (\<lambda>gi. set_status (gi_goal_id gi) Canceling) gis st) a =
     (if a \<in> gi_goal_id ` set gis \<and> statuses st a \<noteq> None then Some Canceling else statuses st a)"
  by (induction gis arbitrary: st) (auto simp: statuses_set_status)

lemma action_inv_fold_canceling:
  "action_inv st \<Longrightarrow> (\<And>gi. gi \<in> set gis \<Longrightarrow> statuses st (gi_goal_id gi) \<noteq> Some Unknown) \<Longrightarrow>
   action_inv (fold (\<lambda>gi. set_status (gi_goal_id gi) Canceling) gis st)"
  by (induction gis arbitrary: st) (auto simp: action_inv_set_status statuses_set_status)

lemma canceling_not_unknown:
  "action_inv st \<Longrightarrow> gi \<in> set (canceling_goals gids st) \<Longrightarrow> statuses st (gi_goal_id gi) \<noteq> Some Unknown"
  by (auto simp: canceling_goals_mem action_inv_def statuses_def)

lemma respond_fields:
  assumes "respond_to_cancel_requests wr ch gids st = (r, st')"
  defines "st1 \<equiv> fold (\<lambda>gi. set_status (gi_goal_id gi) Canceling) (canceling_goals gids st) st"
  shows "goals st' = goals st1" "finished_goals st' = finished_goals st" "result_requests st' = result_requests st"
  using assms by (auto simp: respond_to_cancel_requests_def Let_def split: prod.splits dest!: send_snd)

lemma await_result_request_inv:
  "await_result_request gid reqs rr = (p, rr', rest) \<Longrightarrow> bt_inv rr \<Longrightarrow> bt_inv rr'"
  by (induction gid reqs rr rule: await_result_request.induct) (auto simp: bt_inv_insert split: if_splits)

lemma find_result_request_inv: "find_result_request gid reqs rr = (p, rr', rest) \<Longrightarrow> bt_inv rr \<Longrightarrow> bt_inv rr'"
  by (auto simp: find_result_request_def await_result_request_inv split: option.splits)

text \<open>The effect of the operations on one goal, and what they leave alone.\<close>

lemma accept_goal_effect:
  assumes "accept_goal wr now h st = (r, st')"
  shows "finished_goals st' = finished_goals st" "result_requests st' = result_requests st"
    "goals st' = (if statuses st (ngh_goal_id h) = Some Unknown
       then bt_modify (ngh_goal_id h) (\<lambda>g. g\<lparr>ag_status := Accepted, ag_accepted_time := Some now\<rparr>) (goals st) else goals st)"
  using assms by (auto simp: accept_goal_def Let_def statuses_def split: option.splits if_splits prod.splits dest!: send_snd)

lemma reject_goal_effect:
  assumes "reject_goal wr now h st = (r, st')"
  shows "finished_goals st' = finished_goals st" "result_requests st' = result_requests st"
    "goals st' = (if statuses st (ngh_goal_id h) = Some Unknown then bt_remove (ngh_goal_id h) (goals st) else goals st)"
  using assms by (auto simp: reject_goal_def Let_def statuses_def split: option.splits if_splits prod.splits dest!: send_snd)

lemma start_executing_effect:
  assumes "start_executing_goal wr ah st = (r, st')" and "ah = AcceptedGoalHandle gid"
  shows "finished_goals st' = finished_goals st" "result_requests st' = result_requests st"
    "goals st' = (if statuses st gid = Some Accepted then goals (set_status gid Executing st) else goals st)"
  using assms by (auto simp: statuses_def split: option.splits if_splits)

lemma publish_feedback_effect:
  assumes "publish_feedback wr eh f st = (r, st')"
  shows "goals st' = goals st" "finished_goals st' = finished_goals st" "result_requests st' = result_requests st"
  using assms by (cases eh; auto split: option.splits if_splits prod.splits dest!: send_snd)+

lemma finish_goal_effect:
  assumes "finish_goal wr gid req_id s res st = (r, st')"
  shows "result_requests st' = result_requests st"
    "goals st' = (if \<exists>t. statuses st gid = Some t \<and> active t then goals (set_status gid s st) else goals st)"
    "finished_goals st' = (if r = Ok () then finished_goals st @ [gid] else finished_goals st)"
    "r = Ok () \<Longrightarrow> \<exists>t. statuses st gid = Some t \<and> active t"
  using assms
  by (auto simp: finish_goal_def Let_def statuses_def active_def split: option.splits if_splits prod.splits dest!: send_snd)

lemma abort_goal_effect:
  assumes "abort_goal wr gid st = (r, st')"
  shows "result_requests st' = result_requests st"
    "goals st' = (if r = Ok () then goals (set_status gid Aborted st) else goals st)"
    "finished_goals st' = (if r = Ok () then finished_goals st @ [gid] else finished_goals st)"
    "r = Ok () \<longleftrightarrow> statuses st gid = Some Accepted \<or> statuses st gid = Some Executing"
  using assms by (auto simp: abort_goal_def statuses_def split: option.splits if_splits)

text \<open>Both ways of answering a result request change the remembered requests and then at most end the goal.\<close>

definition ends_goal :: "(('r, 'f) action_output \<Rightarrow> bool) \<Rightarrow> goal_id \<Rightarrow> goal_end_status \<Rightarrow> 'r \<Rightarrow>
    ('g, 'r, 'f) action_server \<Rightarrow> ('g, 'r, 'f) action_server \<Rightarrow> bool" where
  "ends_goal wr gid es res st st' \<longleftrightarrow> (\<exists>rr. (bt_inv (result_requests st) \<longrightarrow> bt_inv rr) \<and>
    (st' = st\<lparr>result_requests := rr\<rparr> \<or>
     (\<exists>req_id r. finish_goal wr gid req_id (end_status es) res (st\<lparr>result_requests := rr\<rparr>) = (r, st'))))"

lemma send_result_effect:
  assumes "send_result_response wr (ExecutingGoalHandle gid) es res reqs st = (p, st', rest)"
  shows "ends_goal wr gid es res st st'"
proof -
  obtain q rr rest' where f: "find_result_request gid reqs (result_requests st) = (q, rr, rest')"
    by (metis prod_cases3)
  then have "bt_inv (result_requests st) \<longrightarrow> bt_inv rr" using find_result_request_inv by blast
  then show ?thesis
    unfolding ends_goal_def using assms f
    by (intro exI [of _ rr]) (auto simp: Let_def split: prod.splits poll.splits sum.splits)
qed

lemma resume_result_effect:
  assumes "resume_result_response wr (ExecutingGoalHandle gid) es res reqs st = (p, st', rest)"
  shows "ends_goal wr gid es res st st'"
proof -
  obtain q rr rest' where f: "await_result_request gid reqs (result_requests st) = (q, rr, rest')"
    by (metis prod_cases3)
  then have "bt_inv (result_requests st) \<longrightarrow> bt_inv rr" using await_result_request_inv by blast
  then show ?thesis
    unfolding ends_goal_def using assms f
    by (intro exI [of _ rr]) (auto simp: Let_def split: prod.splits poll.splits sum.splits)
qed

lemma action_inv_insert:
  "action_inv st \<Longrightarrow> action_inv (st\<lparr>goals := bt_insert gid \<lparr>ag_status = Unknown, ag_accepted_time = None, ag_goal = g\<rparr> (goals st)\<rparr>)"
  by (auto simp: action_inv_def bt_inv_insert bt_get_insert)

lemma action_inv_accept:
  "action_inv st \<Longrightarrow> action_inv (st\<lparr>goals := bt_modify gid (\<lambda>g. g\<lparr>ag_status := Accepted, ag_accepted_time := Some now\<rparr>) (goals st)\<rparr>)"
  by (auto simp: action_inv_def bt_get_modify split: if_splits)

lemma action_inv_remove: "action_inv st \<Longrightarrow> action_inv (st\<lparr>goals := bt_remove gid (goals st)\<rparr>)"
  by (auto simp: action_inv_def bt_inv_remove bt_get_remove split: if_splits)

lemma action_inv_requests: "action_inv st \<Longrightarrow> bt_inv rr \<Longrightarrow> action_inv (st\<lparr>result_requests := rr\<rparr>)"
  by (simp add: action_inv_def)

lemma action_inv_flush:
  "flush_finished_goals debug st = Some st' \<Longrightarrow> action_inv st \<Longrightarrow> action_inv st'"
  by (auto simp: flush_finished_goals_def action_inv_def flush_goals_get split: if_splits)

lemma end_status_not_unknown [simp]: "end_status es \<noteq> Unknown" "terminal (end_status es)"
  by (cases es; simp add: terminal_def)+

lemma finish_goal_inv:
  assumes "finish_goal wr gid req_id (end_status es) res st = (r, st')" and "action_inv st"
  shows "action_inv st'"
proof (cases "\<exists>t. statuses st gid = Some t \<and> active t")
  case True
  then have "action_inv (set_status gid (end_status es) st)"
    using assms(2) by (auto intro!: action_inv_set_status simp: active_def)
  then show ?thesis using finish_goal_effect [OF assms(1)] True by (subst action_inv_cong) simp_all
next
  case False
  then show ?thesis using finish_goal_effect(1,2) [OF assms(1)] assms(2) by (auto simp: action_inv_def)
qed

lemma ends_goal_inv:
  assumes "ends_goal wr gid es res st st'" and inv: "action_inv st"
  shows "action_inv st'"
proof -
  obtain rr where rr: "bt_inv (result_requests st) \<longrightarrow> bt_inv rr"
    "st' = st\<lparr>result_requests := rr\<rparr> \<or>
     (\<exists>req_id r. finish_goal wr gid req_id (end_status es) res (st\<lparr>result_requests := rr\<rparr>) = (r, st'))"
    using assms(1) by (auto simp: ends_goal_def)
  then have "action_inv (st\<lparr>result_requests := rr\<rparr>)" using inv by (simp add: action_inv_def)
  then show ?thesis using rr(2) by (auto intro: finish_goal_inv)
qed

lemma action_inv_step:
  assumes "action_step wr debug care st st'" and inv: "action_inv st"
  shows "action_inv st'"
  using assms(1)
proof cases
  case (step_receive reqs p rest)
  then show ?thesis using receive_new_goal_effect [OF step_receive] action_inv_insert [OF inv] inv by auto
next
  case (step_get h g)
  then show ?thesis using action_inv_flush inv by (auto simp: get_new_goal_def)
next
  case (step_accept now h r)
  then show ?thesis
    using accept_goal_effect [OF step_accept] action_inv_accept [OF inv, of "ngh_goal_id h" now] inv
    by (auto simp: action_inv_def split: if_splits)
next
  case (step_reject now h r)
  then show ?thesis
    using reject_goal_effect [OF step_reject] action_inv_remove [OF inv, of "ngh_goal_id h"] inv
    by (auto simp: action_inv_def split: if_splits)
next
  case (step_start ah r)
  obtain gid where ah: "ah = AcceptedGoalHandle gid" by (cases ah)
  show ?thesis
    using start_executing_effect [OF step_start ah] action_inv_set_status [OF inv, of gid Executing] inv
    by (auto simp: action_inv_def split: if_splits)
next
  case (step_feedback eh f r)
  then show ?thesis using publish_feedback_effect [OF step_feedback] inv by (subst action_inv_cong) simp_all
next
  case (step_result gid es res reqs p rest)
  show ?thesis by (rule ends_goal_inv [OF send_result_effect [OF step_result(1)] inv])
next
  case (step_resume gid es res reqs p rest)
  show ?thesis by (rule ends_goal_inv [OF resume_result_effect [OF step_resume(1)] inv])
next
  case (step_abort gid r)
  show ?thesis
    using abort_goal_effect [OF step_abort(1)] action_inv_set_status [OF inv, of gid Aborted] inv
    by (auto simp: action_inv_def split: if_splits)
next
  case (step_cancel ch gids r)
  have "action_inv (fold (\<lambda>gi. set_status (gi_goal_id gi) Canceling) (canceling_goals gids st) st)"
    by (rule action_inv_fold_canceling [OF inv]) (rule canceling_not_unknown [OF inv])
  then show ?thesis using respond_fields [OF step_cancel(1)] by (subst action_inv_cong) simp_all
qed

lemma action_inv_reachable: "action_reachable wr debug care st \<Longrightarrow> action_inv st"
  by (induction rule: action_reachable.induct) (simp_all add: action_inv_step)

subsection \<open>Careful applications\<close>

lemma goal_edge_refl [simp]: "goal_edge a a"
  by (simp add: goal_edge_def)

text \<open>A step that leaves the goals alone, or moves one goal that is not among the finished ones.\<close>

lemma finished_inv_keep:
  assumes "finished_inv st" and "finished_goals st' = finished_goals st"
    and "\<And>gid. gid \<in> set (finished_goals st) \<Longrightarrow> statuses st' gid = statuses st gid"
  shows "finished_inv st'"
  using assms by (simp add: finished_inv_def)

lemma finished_inv_add:
  assumes "finished_inv st" and "statuses st gid = Some t" "\<not> terminal t" and "terminal s"
    and "finished_goals st' = finished_goals st @ [gid]"
    and "\<And>a. statuses st' a = (if a = gid then Some s else statuses st a)"
  shows "finished_inv st'"
  using assms by (auto simp: finished_inv_def)

lemma finished_terminal: "finished_inv st \<Longrightarrow> gid \<in> set (finished_goals st) \<Longrightarrow> \<exists>s. statuses st gid = Some s \<and> terminal s"
  by (simp add: finished_inv_def)

lemma active_not_terminal: "active s \<Longrightarrow> \<not> terminal s"
  by (auto simp: active_def terminal_def)

lemma flush_statuses:
  assumes "flush_finished_goals debug st = Some st'" and "action_inv st"
  shows "statuses st' a = (if a \<in> set (finished_goals st) then None else statuses st a)"
    and "finished_goals st' = []"
  using assms by (auto simp: flush_finished_goals_def statuses_def action_inv_def flush_goals_get)

definition code_edge :: "care \<Rightarrow> goal_status_enum option \<Rightarrow> goal_status_enum option \<Rightarrow> bool" where
  "code_edge care a b \<longleftrightarrow> goal_edge a b \<or> care \<noteq> Ros2Use \<and> shortcut a b"

lemma code_edgeI: "goal_edge a b \<Longrightarrow> code_edge care a b"
  by (simp add: code_edge_def)

lemma end_edge:
  assumes "active t" and "care = Ros2Use \<Longrightarrow> may_end (Some t) es"
  shows "code_edge care (Some t) (Some (end_status es))"
  using assms by (cases es; cases "care = Ros2Use")
    (auto simp: code_edge_def goal_edge_def shortcut_def active_def terminal_def may_end_def)

definition careful_step :: "care \<Rightarrow> ('g, 'r, 'f) action_server \<Rightarrow> ('g, 'r, 'f) action_server \<Rightarrow> bool" where
  "careful_step care st st' \<longleftrightarrow> finished_inv st' \<and> (\<forall>gid. code_edge care (statuses st gid) (statuses st' gid))"

lemma careful_stepI:
  assumes "finished_inv st" and "finished_goals st' = finished_goals st"
    and "\<And>a. statuses st' a \<noteq> statuses st a \<Longrightarrow> code_edge care (statuses st a) (statuses st' a) \<and> (\<forall>s. statuses st a = Some s \<longrightarrow> \<not> terminal s)"
  shows "careful_step care st st'"
  unfolding careful_step_def
proof (intro conjI allI)
  show "code_edge care (statuses st gid) (statuses st' gid)" for gid
    using assms(3) [of gid] by (cases "statuses st' gid = statuses st gid") (simp_all add: code_edgeI)
  show "finished_inv st'"
    by (rule finished_inv_keep [OF assms(1,2)]) (use finished_terminal [OF assms(1)] assms(3) in blast)
qed

lemma finish_careful:
  assumes "finish_goal wr gid req_id (end_status es) res st = (r, st')" and "finished_inv st"
    and may: "care = Ros2Use \<Longrightarrow> may_end (statuses st gid) es"
  shows "careful_step care st st'"
proof (cases "\<exists>t. statuses st gid = Some t \<and> active t")
  case True
  then obtain t where t: "statuses st gid = Some t" "active t" by blast
  have g: "statuses st' a = (if a = gid then Some (end_status es) else statuses st a)" for a
    using finish_goal_effect(2) [OF assms(1)] t
    by (simp add: statuses_cong [of st' "set_status gid (end_status es) st"] statuses_set_status)
  have e: "code_edge care (Some t) (Some (end_status es))" by (rule end_edge [OF t(2)]) (use may t in simp)
  show ?thesis
  proof (cases "r = Ok ()")
    case True
    then have "finished_inv st'"
      using finished_inv_add [OF assms(2) t(1) active_not_terminal [OF t(2)], of "end_status es" st']
        finish_goal_effect(3) [OF assms(1)] g by simp
    then show ?thesis using g t e by (simp add: careful_step_def code_edgeI)
  next
    case False
    show ?thesis
      by (rule careful_stepI [OF assms(2)])
        (use False finish_goal_effect(3) [OF assms(1)] g t e active_not_terminal in \<open>auto split: if_splits\<close>)
  qed
next
  case False
  then have "goals st' = goals st" using finish_goal_effect(2) [OF assms(1)] by auto
  moreover have "r \<noteq> Ok ()" using False finish_goal_effect(4) [OF assms(1)] by blast
  ultimately show ?thesis
    using finish_goal_effect(3) [OF assms(1)]
    by (intro careful_stepI [OF assms(2)]) (simp_all add: statuses_cong [of st' st])
qed

lemma flush_careful:
  assumes f: "flush_finished_goals debug st = Some st'" and inv: "action_inv st" and fin: "finished_inv st"
  shows "careful_step care st st'"
proof -
  have "goal_edge (statuses st gid) (statuses st' gid)" for gid
  proof (cases "gid \<in> set (finished_goals st)")
    case True
    then obtain s where "statuses st gid = Some s" "terminal s" using finished_terminal [OF fin] by blast
    with True flush_statuses(1) [OF f inv] show ?thesis by (simp add: goal_edge_def)
  qed (simp add: flush_statuses [OF f inv])
  then show ?thesis by (simp add: careful_step_def code_edgeI finished_inv_def flush_statuses(2) [OF f inv])
qed

lemma start_careful:
  assumes "start_executing_goal wr ah st = (r, st')" and fin: "finished_inv st"
  shows "careful_step care st st'"
proof -
  obtain gid where ah: "ah = AcceptedGoalHandle gid" by (cases ah)
  have "statuses st' a = (if statuses st gid = Some Accepted \<and> a = gid then Some Executing else statuses st a)" for a
    using start_executing_effect(3) [OF assms(1) ah] statuses_set_status [of gid Executing st a]
    by (auto simp: statuses_def split: if_splits)
  then show ?thesis
    using start_executing_effect(1) [OF assms(1) ah]
    by (intro careful_stepI [OF fin]) (auto simp: code_edge_def goal_edge_def terminal_def split: if_splits)
qed

lemma ends_goal_careful:
  assumes "ends_goal wr gid es res st st'" and fin: "finished_inv st"
    and may: "care = Ros2Use \<Longrightarrow> may_end (statuses st gid) es"
  shows "careful_step care st st'"
proof -
  obtain rr where rr: "st' = st\<lparr>result_requests := rr\<rparr> \<or>
     (\<exists>req_id r. finish_goal wr gid req_id (end_status es) res (st\<lparr>result_requests := rr\<rparr>) = (r, st'))"
    using assms(1) by (auto simp: ends_goal_def)
  have same: "statuses (st\<lparr>result_requests := rr\<rparr>) = statuses st" "finished_inv (st\<lparr>result_requests := rr\<rparr>)"
    using fin by (simp_all add: statuses_def fun_eq_iff finished_inv_def)
  show ?thesis
    using rr
  proof (elim disjE exE)
    assume "st' = st\<lparr>result_requests := rr\<rparr>"
    with same show ?thesis by (simp add: careful_step_def code_edgeI)
  next
    fix req_id r assume "finish_goal wr gid req_id (end_status es) res (st\<lparr>result_requests := rr\<rparr>) = (r, st')"
    from finish_careful [OF this same(2), of care] may show ?thesis by (simp add: careful_step_def same)
  qed
qed

lemma abort_careful:
  assumes ab: "abort_goal wr gid st = (r, st')" and fin: "finished_inv st"
    and may: "care = Ros2Use \<Longrightarrow> may_end (statuses st gid) EndAborted"
  shows "careful_step care st st'"
proof (cases "r = Ok ()")
  case True
  then obtain t where t: "statuses st gid = Some t" "active t"
    using abort_goal_effect(4) [OF ab] by (auto simp: active_def)
  have g: "statuses st' a = (if a = gid then Some Aborted else statuses st a)" for a
    using abort_goal_effect(2) [OF ab] True t
    by (simp add: statuses_cong [of st' "set_status gid Aborted st"] statuses_set_status)
  then have "finished_inv st'"
    using finished_inv_add [OF fin t(1) active_not_terminal [OF t(2)], of Aborted st']
      abort_goal_effect(3) [OF ab] True by (simp add: terminal_def)
  moreover have "code_edge care (Some t) (Some Aborted)" using end_edge [OF t(2), of care EndAborted] may t by simp
  ultimately show ?thesis using g t by (simp add: careful_step_def code_edgeI)
next
  case False
  then show ?thesis
    using abort_goal_effect [OF ab]
    by (intro careful_stepI [OF fin]) (simp_all add: statuses_cong [of st' st])
qed

lemma respond_statuses:
  assumes "respond_to_cancel_requests wr ch gids st = (r, st')"
  shows "statuses st' a = (if a \<in> gi_goal_id ` set (canceling_goals gids st) then Some Canceling else statuses st a)"
proof -
  have "statuses st gid \<noteq> None" if "gid \<in> gi_goal_id ` set (canceling_goals gids st)" for gid
    using that by (auto simp: canceling_goals_mem statuses_def)
  moreover have "statuses st' = statuses (fold (\<lambda>gi. set_status (gi_goal_id gi) Canceling) (canceling_goals gids st) st)"
    by (rule statuses_cong) (rule respond_fields(1) [OF assms])
  ultimately show ?thesis by (simp add: statuses_fold_canceling)
qed

lemma respond_careful:
  assumes re: "respond_to_cancel_requests wr ch gids st = (r, st')" and inv: "action_inv st" and fin: "finished_inv st"
    and live: "\<forall>gid\<in>set gids. \<forall>s. statuses st gid = Some s \<longrightarrow> \<not> terminal s"
  shows "careful_step care st st'"
proof (rule careful_stepI [OF fin respond_fields(2) [OF re]])
  fix a assume "statuses st' a \<noteq> statuses st a"
  with respond_statuses [OF re] obtain gi where gi: "gi \<in> set (canceling_goals gids st)" "a = gi_goal_id gi"
    and a: "statuses st' a = Some Canceling" by (auto split: if_splits)
  then obtain t where t: "statuses st a = Some t" "t \<noteq> Unknown" "a \<in> set gids"
    using canceling_not_unknown [OF inv gi(1)] by (auto simp: canceling_goals_mem statuses_def)
  then have "active t" using live by (cases t) (auto simp: terminal_def active_def)
  with a t show "code_edge care (statuses st a) (statuses st' a) \<and> (\<forall>s. statuses st a = Some s \<longrightarrow> \<not> terminal s)"
    using active_not_terminal by (auto simp: code_edge_def goal_edge_def active_def)
qed

lemma careful_action_step:
  assumes "action_step wr debug care st st'" and inv: "action_inv st" and fin: "finished_inv st" and care: "care \<noteq> AnyUse"
  shows "careful_step care st st'"
  using assms(1)
proof cases
  case (step_receive reqs p rest)
  then show ?thesis
    using receive_new_goal_effect [OF step_receive] fin
    by (intro careful_stepI [OF fin]) (auto simp: statuses_def bt_get_insert code_edge_def goal_edge_def split: if_splits)
next
  case (step_get h g)
  then show ?thesis using flush_careful [OF _ inv fin] by (auto simp: get_new_goal_def)
next
  case (step_accept now h r)
  then show ?thesis
    using accept_goal_effect [OF step_accept] by (intro careful_stepI [OF fin])
      (auto simp: statuses_def bt_get_modify code_edge_def goal_edge_def terminal_def split: if_splits)
next
  case (step_reject now h r)
  then show ?thesis
    using reject_goal_effect [OF step_reject] by (intro careful_stepI [OF fin])
      (auto simp: statuses_def bt_get_remove code_edge_def goal_edge_def terminal_def split: if_splits)
next
  case (step_feedback eh f r)
  then show ?thesis
    using publish_feedback_effect [OF step_feedback]
    by (intro careful_stepI [OF fin]) (simp_all add: statuses_cong [of st' st])
next
  case (step_result gid es res reqs p rest)
  show ?thesis by (rule ends_goal_careful [OF send_result_effect [OF step_result(1)] fin step_result(2)])
next
  case (step_resume gid es res reqs p rest)
  show ?thesis by (rule ends_goal_careful [OF resume_result_effect [OF step_resume(1)] fin step_resume(2)])
qed (simp_all add: start_careful abort_careful respond_careful inv fin care)

lemma finished_inv_reachable:
  assumes "action_reachable wr debug care st" and "care \<noteq> AnyUse"
  shows "finished_inv st"
  using assms(1)
proof (induction rule: action_reachable.induct)
  case reach_new
  show ?case by (simp add: finished_inv_def action_server_new_def)
next
  case (reach_step st st')
  then show ?case
    using careful_action_step [OF reach_step(2) action_inv_reachable [OF reach_step(1)] _ assms(2)] by (simp add: careful_step_def)
qed

subsection \<open>Requests and cancellation\<close>

lemma receive_new_goal_prefix:
  "receive_new_goal reqs st = (Ready (Ok h), st', rest) \<Longrightarrow>
   \<exists>pre req. reqs = pre @ Inr (ngh_req_id h, req) # rest \<and> sg_goal_id req = ngh_goal_id h
     \<and> map_of (goals st) (ngh_goal_id h) = None
     \<and> st' = st\<lparr>goals := bt_insert (ngh_goal_id h)
         \<lparr>ag_status = Unknown, ag_accepted_time = None, ag_goal = sg_goal req\<rparr> (goals st)\<rparr>
     \<and> (\<forall>r\<in>set pre. \<exists>i q. r = Inr (i, q) \<and> map_of (goals st) (sg_goal_id q) \<noteq> None)"
proof (induction reqs)
  case (Cons r reqs)
  show ?case
  proof (cases r)
    case (Inr q)
    obtain i rq where q: "q = (i, rq)" by (cases q)
    show ?thesis
    proof (cases "map_of (goals st) (sg_goal_id rq)")
      case None
      then show ?thesis using Cons.prems Inr q by (intro exI [of _ "[]"] exI [of _ rq]) auto
    next
      case (Some g)
      then obtain pre req where "reqs = pre @ Inr (ngh_req_id h, req) # rest \<and> sg_goal_id req = ngh_goal_id h
          \<and> map_of (goals st) (ngh_goal_id h) = None
          \<and> st' = st\<lparr>goals := bt_insert (ngh_goal_id h)
              \<lparr>ag_status = Unknown, ag_accepted_time = None, ag_goal = sg_goal req\<rparr> (goals st)\<rparr>
          \<and> (\<forall>r\<in>set pre. \<exists>i q. r = Inr (i, q) \<and> map_of (goals st) (sg_goal_id q) \<noteq> None)"
        using Cons Inr q by auto
      then show ?thesis using Some Inr q by (intro exI [of _ "r # pre"] exI [of _ req]) auto
    qed
  qed (use Cons in auto)
qed simp

text \<open>What a remembered request does to the map of requests by goal.\<close>

definition remember :: "(goal_id \<rightharpoonup> request_id) \<Rightarrow> request_id \<times> goal_id \<Rightarrow> (goal_id \<rightharpoonup> request_id)" where
  "remember m p = m(snd p \<mapsto> fst p)"

lemma remember_pair: "remember m (i, g) = m(g \<mapsto> i)"
  by (simp add: remember_def)

lemma await_result_request_prefix:
  "await_result_request gid reqs rr = (Ready (Ok rid), rr', rest) \<Longrightarrow> bt_inv rr \<Longrightarrow>
   \<exists>pre. reqs = map Inr pre @ Inr (rid, gid) # rest \<and> (\<forall>(i, g)\<in>set pre. g \<noteq> gid)
     \<and> map_of rr' = foldl remember (map_of rr) pre"
proof (induction gid reqs rr rule: await_result_request.induct)
  case (3 gid i g reqs rr)
  show ?case
  proof (cases "g = gid")
    case True
    then show ?thesis using 3 by (intro exI [of _ "[]"]) auto
  next
    case False
    then obtain pre where "reqs = map Inr pre @ Inr (rid, gid) # rest \<and> (\<forall>(i, g)\<in>set pre. g \<noteq> gid)
        \<and> map_of rr' = foldl remember (map_of (bt_insert g i rr)) pre"
      using 3 by (auto simp: bt_inv_insert)
    then show ?thesis using False by (intro exI [of _ "(i, g) # pre"]) (auto simp: bt_get_insert remember_pair)
  qed
qed auto

text \<open>Of two tasks that wait for a result request, the one that runs first takes the request of the other:
  it remembers it, and the other, which has looked before, does not find it.\<close>

lemma waiting_result_request_lost:
  assumes "a \<noteq> b"
  shows "\<exists>st'. resume_result_response wr (ExecutingGoalHandle a) es x [Inr (rid, b)] st = (Pending, st', [])
    \<and> result_requests st' = bt_insert b rid (result_requests st)
    \<and> resume_result_response wr (ExecutingGoalHandle b) es' y [] st' = (Pending, st', [])"
  using assms by simp

lemma send_result_remembered:
  assumes "map_of (result_requests st) gid = Some rid"
  shows "send_result_response wr (ExecutingGoalHandle gid) es x reqs st =
    (let (r, st') = finish_goal wr gid rid (end_status es) x st in (Ready r, st', reqs))"
  using assms by (simp add: find_result_request_def)

lemma send_result_fresh:
  assumes "map_of (result_requests st) gid = None"
  shows "send_result_response wr (ExecutingGoalHandle gid) es x reqs st = resume_result_response wr (ExecutingGoalHandle gid) es x reqs st"
  using assms by (simp add: find_result_request_def)

lemma await_result_request_ready:
  "Inr (rid, gid) \<in> set reqs \<Longrightarrow> fst (await_result_request gid reqs rr) \<noteq> Pending"
  by (induction gid reqs rr rule: await_result_request.induct) auto

text \<open>The cancellation policy, with the comparison of acceptance times the server uses.\<close>

definition cancel_selects :: "goal_info \<Rightarrow> goal_id \<Rightarrow> 'g async_goal \<Rightarrow> bool" where
  "cancel_selects gi gid g \<longleftrightarrow>
     (if gi_stamp gi = BI_TIME_ZERO then gi_goal_id gi = GOAL_ID_ZERO \<or> gi_goal_id gi = gid
      else (gi_goal_id gi \<noteq> GOAL_ID_ZERO \<and> gi_goal_id gi = gid)
        \<or> (\<exists>at. ag_accepted_time g = Some at \<and> bt_nanos_since_epoch at < bt_nanos_since_epoch (gi_stamp gi)))"

lemma goal_filter_selects: "goal_filter gi (gid, g) \<longleftrightarrow> cancel_selects gi gid g"
  by (auto simp: goal_filter_def cancel_selects_def accepted_before_def split: option.splits)

lemma sorted_wrt_map_filter: "sorted_wrt (<) (map f xs) \<Longrightarrow> sorted_wrt (<) (map f (filter P xs))"
  by (simp add: sorted_wrt_map sorted_wrt_filter)

lemma receive_cancel_request_goals:
  assumes "action_inv st"
  shows "sorted_wrt (<) (ch_goals (receive_cancel_request rq st))"
    and "set (ch_goals (receive_cancel_request rq st)) =
      {gid. \<exists>g. map_of (goals st) gid = Some g \<and> (ag_status g = Executing \<or> ag_status g = Accepted)
        \<and> cancel_selects (snd rq) gid g}"
proof -
  have inv: "bt_inv (goals st)" using assms by (simp add: action_inv_def)
  show "sorted_wrt (<) (ch_goals (receive_cancel_request rq st))"
    using inv by (simp add: receive_cancel_request_def bt_inv_def sorted_wrt_map_filter)
  show "set (ch_goals (receive_cancel_request rq st)) =
      {gid. \<exists>g. map_of (goals st) gid = Some g \<and> (ag_status g = Executing \<or> ag_status g = Accepted)
        \<and> cancel_selects (snd rq) gid g}"
    using btree_map.entry_iff [OF inv]
    by (force simp: receive_cancel_request_def goal_filter_selects image_iff)
qed

subsection \<open>A concrete server\<close>

definition demo_id :: "int \<Rightarrow> request_id" where
  "demo_id n = \<lparr>rr_writer_guid = replicate 16 4, rr_sequence_number = n\<rparr>"

definition demo_goal :: "int \<Rightarrow> goal_id \<Rightarrow> goal_error + (request_id \<times> unit send_goal_request)" where
  "demo_goal n gid = Inr (demo_id n, \<lparr>sg_goal_id = gid, sg_goal = ()\<rparr>)"

definition all_written :: "(unit, unit) action_output \<Rightarrow> bool" where
  "all_written out = True"

definition demo_handle :: new_goal_handle where
  "demo_handle = \<lparr>ngh_goal_id = 5, ngh_req_id = demo_id 1\<rparr>"

definition demo_received :: "(unit, unit, unit) action_server" where
  "demo_received = fst (snd (receive_new_goal [demo_goal 1 5] action_server_new))"

definition demo_accepted :: "(unit, unit, unit) action_server" where
  "demo_accepted = snd (accept_goal all_written \<lparr>bt_nanos_since_epoch = 100\<rparr> demo_handle demo_received)"

definition demo_aborted :: "(unit, unit, unit) action_server" where
  "demo_aborted = snd (abort_goal all_written 5 demo_accepted)"

text \<open>The goal started, and ended in that state.\<close>

definition demo_executing :: "(unit, unit, unit) action_server" where
  "demo_executing = snd (start_executing_goal all_written (AcceptedGoalHandle 5) demo_accepted)"

definition demo_ended :: "(unit, unit, unit) action_server" where
  "demo_ended = snd (abort_goal all_written 5 demo_executing)"

definition demo_revived :: "(unit, unit, unit) action_server" where
  "demo_revived = snd (respond_to_cancel_requests all_written \<lparr>ch_req_id = demo_id 2, ch_goals = [5]\<rparr> [5] demo_aborted)"

lemma demo_received_goals:
  "goals demo_received = [(5, \<lparr>ag_status = Unknown, ag_accepted_time = None, ag_goal = ()\<rparr>)]
   \<and> finished_goals demo_received = [] \<and> result_requests demo_received = []"
  by (simp add: demo_received_def demo_goal_def action_server_new_def)

lemma demo_accepted_goals:
  "goals demo_accepted = [(5, \<lparr>ag_status = Accepted, ag_accepted_time = Some \<lparr>bt_nanos_since_epoch = 100\<rparr>, ag_goal = ()\<rparr>)]
   \<and> finished_goals demo_accepted = [] \<and> result_requests demo_accepted = []"
  using demo_received_goals
  by (simp add: demo_accepted_def accept_goal_def demo_handle_def Let_def bt_modify_def case_prod_unfold)

lemma demo_aborted_goals:
  "goals demo_aborted = [(5, \<lparr>ag_status = Aborted, ag_accepted_time = Some \<lparr>bt_nanos_since_epoch = 100\<rparr>, ag_goal = ()\<rparr>)]
   \<and> finished_goals demo_aborted = [5]"
  using demo_accepted_goals
  by (simp add: demo_aborted_def abort_goal_def set_status_def bt_modify_def)

lemma demo_executing_goals:
  "goals demo_executing = [(5, \<lparr>ag_status = Executing, ag_accepted_time = Some \<lparr>bt_nanos_since_epoch = 100\<rparr>, ag_goal = ()\<rparr>)]
   \<and> finished_goals demo_executing = [] \<and> result_requests demo_executing = []"
  using demo_accepted_goals by (simp add: demo_executing_def set_status_def bt_modify_def)

lemma demo_ended_goals:
  "goals demo_ended = [(5, \<lparr>ag_status = Aborted, ag_accepted_time = Some \<lparr>bt_nanos_since_epoch = 100\<rparr>, ag_goal = ()\<rparr>)]
   \<and> finished_goals demo_ended = [5]"
  using demo_executing_goals by (simp add: demo_ended_def abort_goal_def set_status_def bt_modify_def)

lemma demo_reachable:
  "action_reachable all_written debug care demo_received"
  "action_reachable all_written debug care demo_accepted"
  "action_reachable all_written debug care demo_ended"
  "action_reachable all_written debug AnyUse demo_aborted"
  "action_reachable all_written debug AnyUse demo_revived"
  "action_step all_written debug care demo_executing demo_ended"
  "action_reachable all_written debug care demo_executing"
proof -
  show r: "action_reachable all_written debug care demo_received" for care
  proof -
    obtain p st rest where r: "receive_new_goal [demo_goal 1 5] (action_server_new :: (unit, unit, unit) action_server) = (p, st, rest)"
      by (metis prod_cases3)
    then show ?thesis
      using reach_step [OF reach_new step_receive [OF r]] by (simp add: demo_received_def)
  qed
  show a: "action_reachable all_written debug care demo_accepted" for care
    unfolding demo_accepted_def by (rule reach_step [OF r]) (rule step_accept [OF surjective_pairing])
  show e: "action_reachable all_written debug care demo_executing"
    unfolding demo_executing_def by (rule reach_step [OF a]) (rule step_start [OF surjective_pairing])
  show s: "action_step all_written debug care demo_executing demo_ended"
    unfolding demo_ended_def by (rule step_abort [OF surjective_pairing]) (simp add: may_end_def statuses_def demo_executing_goals)
  show "action_reachable all_written debug care demo_ended" by (rule reach_step [OF e s])
  show b: "action_reachable all_written debug AnyUse demo_aborted"
    unfolding demo_aborted_def by (rule reach_step [OF a]) (rule step_abort [OF surjective_pairing], simp)
  show "action_reachable all_written debug AnyUse demo_revived"
    unfolding demo_revived_def by (rule reach_step [OF b]) (rule step_cancel [OF surjective_pairing], simp)
qed

subsection \<open>Properties\<close>

text \<open>C1. An application answers cancel requests only with goals that have not ended, ends a goal only when it has
  started executing it or is canceling it, and reports it as canceled only when it is canceling it. In every server it
  can reach, each further step then moves each goal along the ROS 2 goal state machine: a goal appears as unknown, is
  accepted or rejected, executes, may be canceled while accepted or executing, succeeds or aborts while executing or
  canceling, is canceled only after canceling, stays ended, and is forgotten only when rejected or ended.\<close>

theorem goal_state_machine:
  assumes "action_reachable wr debug Ros2Use st" and "action_step wr debug Ros2Use st st'"
  shows "goal_edge (statuses st gid) (statuses st' gid)"
  using careful_action_step [OF assms(2) action_inv_reachable [OF assms(1)] finished_inv_reachable [OF assms(1)]]
  by (simp add: careful_step_def code_edge_def)

theorem goal_state_machine_witness: "goal_edge (statuses demo_executing 5) (statuses demo_ended 5)"
  using goal_state_machine [OF demo_reachable(7) [of False] demo_reachable(6)] by blast

text \<open>An application that only answers cancel requests with care can make four more moves, which the server permits:
  an accepted goal ends, an executing one is reported as canceled. There are no others.\<close>

lemma code_state_machine:
  assumes "action_reachable wr debug care st" and "action_step wr debug care st st'" and "care \<noteq> AnyUse"
  shows "goal_edge (statuses st gid) (statuses st' gid) \<or> shortcut (statuses st gid) (statuses st' gid)"
  using careful_action_step [OF assms(2) action_inv_reachable [OF assms(1)] finished_inv_reachable [OF assms(1,3)] assms(3)]
  by (auto simp: careful_step_def code_edge_def)

lemma shortcut_taken:
  assumes "statuses st gid = Some Accepted \<or> statuses st gid = Some Executing" and "\<And>out. wr out"
    and "map_of (result_requests st) gid = Some rid"
  shows "\<exists>st'. send_result_response wr (ExecutingGoalHandle gid) es x [] st = (Ready (Ok ()), st', [])
    \<and> statuses st' gid = Some (end_status es)"
proof -
  obtain r st' where f: "finish_goal wr gid rid (end_status es) x st = (r, st')" by fastforce
  obtain g where g: "map_of (goals st) gid = Some g" "ag_status g = Accepted \<or> ag_status g = Executing"
    using assms(1) by (auto simp: statuses_def)
  then have "r = Ok ()"
    using f assms(2) by (auto simp: finish_goal_def Let_def case_prod_unfold)
  moreover have "statuses st' gid = Some (end_status es)"
    using finish_goal_effect(2) [OF f] g statuses_cong [of st' "set_status gid (end_status es) st"]
    by (auto simp: active_def statuses_def statuses_set_status map_of_set_status)
  ultimately show ?thesis
    using f assms(3) by (intro exI [of _ st']) (simp add: find_result_request_def)
qed

lemma accepted_goal_aborts:
  "statuses st gid = Some Accepted \<Longrightarrow> \<exists>st'. abort_accepted_goal wr (AcceptedGoalHandle gid) st = (Ok (), st')
     \<and> statuses st' gid = Some Aborted"
  using abort_goal_effect(2,4) [OF surjective_pairing, of wr gid st]
    statuses_cong [of "snd (abort_goal wr gid st)" "set_status gid Aborted st"]
  by (intro exI [of _ "snd (abort_goal wr gid st)"]) (auto simp: prod_eq_iff statuses_set_status)

text \<open>A goal that is canceled before it was started cannot be ended: there is no handle of its execution, and neither
  starting nor aborting it is possible.\<close>

lemma canceling_unstarted_stuck:
  assumes "statuses st gid = Some Canceling"
  shows "start_executing_goal wr (AcceptedGoalHandle gid) st = (Err WrongGoalState, st)
    \<and> abort_accepted_goal wr (AcceptedGoalHandle gid) st = (Err WrongGoalState, st)"
  using assms by (auto simp: statuses_def abort_goal_def)

lemma get_new_goal_flushes:
  assumes "action_reachable wr debug care st" and "care \<noteq> AnyUse"
  shows "\<exists>g st'. get_new_goal debug h st = Some (g, st') \<and> finished_goals st' = []
    \<and> (\<forall>gid. statuses st' gid = (if gid \<in> set (finished_goals st) then None else statuses st gid))"
proof -
  have inv: "action_inv st" and fin: "finished_inv st"
    using assms action_inv_reachable finished_inv_reachable by blast+
  have "looks_done g" if "f \<in> set (finished_goals st)" "map_of (goals st) f = Some g" for f g
    using finished_terminal [OF fin that(1)] that(2) by (auto simp: statuses_def terminal_def looks_done_def)
  then obtain st' where f: "flush_finished_goals debug st = Some st'"
    using flush_goals_done [of "finished_goals st" "goals st" debug] by (auto simp: flush_finished_goals_def)
  with flush_statuses [OF f inv] show ?thesis by (auto simp: get_new_goal_def)
qed

text \<open>C34. When the application answers cancel requests only with goals that have not ended, fetching a new goal always
  succeeds, in a debug build too: the assertion that finished goals look done never fails. Afterwards exactly
  the finished goals are forgotten, each other goal keeping its status.\<close>

theorem get_new_goal_total:
  assumes "action_reachable wr debug care st" and "care \<noteq> AnyUse"
  shows "\<exists>g st'. get_new_goal debug h st = Some (g, st') \<and> finished_goals st' = []
    \<and> (\<forall>gid. statuses st' gid = (if gid \<in> set (finished_goals st) then None else statuses st gid))"
  by (rule get_new_goal_flushes [OF assms])

theorem get_new_goal_total_witness:
  "\<exists>g st'. get_new_goal True demo_handle demo_ended = Some (g, st') \<and> statuses st' 5 = None"
  using get_new_goal_total [OF demo_reachable(3) [of True LiveCancels], of demo_handle] demo_ended_goals by auto

text \<open>C35. The server itself does not enforce that care: a goal that has ended but was not yet
  flushed can be answered as canceling, comes back to life, and makes the next \<open>get_new_goal\<close> of a
  debug build panic.\<close>

theorem ended_goal_revived:
  "action_reachable all_written True AnyUse demo_revived
   \<and> statuses demo_aborted 5 = Some Aborted \<and> statuses demo_revived 5 = Some Canceling
   \<and> get_new_goal True demo_handle demo_revived = None"
proof -
  have g: "goals demo_revived = [(5, \<lparr>ag_status = Canceling, ag_accepted_time = Some \<lparr>bt_nanos_since_epoch = 100\<rparr>, ag_goal = ()\<rparr>)]"
    and f: "finished_goals demo_revived = [5]"
    using demo_aborted_goals
    by (simp_all add: demo_revived_def respond_to_cancel_requests_def canceling_goals_def map_filter_def
        set_status_def bt_modify_def Let_def case_prod_unfold)
  then show ?thesis
    using demo_reachable(5) demo_aborted_goals
    by (simp add: statuses_def get_new_goal_def flush_finished_goals_def looks_done_def)
qed

text \<open>A goal is answered at most once: once \<open>accept_goal\<close> or \<open>reject_goal\<close> has acted on a new
  goal, whether or not its answer could be written, every further attempt fails and sends
  nothing.\<close>

lemma goal_answered_once:
  assumes "statuses st (ngh_goal_id h) = Some Unknown"
  shows "(let st1 = snd (accept_goal wr now h st) in
       accept_goal wr t h st1 = (Err WrongGoalState, st1) \<and> reject_goal wr t h st1 = (Err WrongGoalState, st1))
    \<and> (let st1 = snd (reject_goal wr now h st) in
       accept_goal wr t h st1 = (Err NoSuchGoal, st1) \<and> reject_goal wr t h st1 = (Err NoSuchGoal, st1))"
proof -
  let ?a = "snd (accept_goal wr now h st)" and ?r = "snd (reject_goal wr now h st)"
  have "map_of (goals ?a) (ngh_goal_id h) = map_option (\<lambda>g. g\<lparr>ag_status := Accepted, ag_accepted_time := Some now\<rparr>)
      (map_of (goals st) (ngh_goal_id h))"
    using accept_goal_effect(3) [OF surjective_pairing, of wr now h st] assms by (simp add: bt_get_modify)
  moreover have "map_of (goals ?r) (ngh_goal_id h) = None"
    using reject_goal_effect(3) [OF surjective_pairing, of wr now h st] assms by (simp add: bt_get_remove)
  ultimately show ?thesis
    using assms by (auto simp: accept_goal_def [of wr t h] reject_goal_def [of wr t h] Let_def statuses_def)
qed

theorem goal_answered_once_witness:
  "accept_goal all_written \<lparr>bt_nanos_since_epoch = 7\<rparr> demo_handle demo_accepted = (Err WrongGoalState, demo_accepted)"
  using goal_answered_once [of demo_received demo_handle all_written "\<lparr>bt_nanos_since_epoch = 100\<rparr>" "\<lparr>bt_nanos_since_epoch = 7\<rparr>"]
    demo_received_goals by (simp add: demo_accepted_def statuses_def demo_handle_def Let_def)

text \<open>Receiving a goal never disturbs a known one: the handle returned is for the first request
  whose goal id the server does not know, everything before it in the stream being duplicates; the
  goal is stored under that id and no other goal changes.\<close>

lemma receive_new_goal_first_unknown:
  assumes "receive_new_goal reqs st = (Ready (Ok h), st', rest)"
  shows "\<exists>pre req. reqs = pre @ Inr (ngh_req_id h, req) # rest \<and> sg_goal_id req = ngh_goal_id h
    \<and> (\<forall>r\<in>set pre. \<exists>i q. r = Inr (i, q) \<and> statuses st (sg_goal_id q) \<noteq> None)
    \<and> statuses st (ngh_goal_id h) = None
    \<and> map_of (goals st') = (map_of (goals st))(ngh_goal_id h \<mapsto>
        \<lparr>ag_status = Unknown, ag_accepted_time = None, ag_goal = sg_goal req\<rparr>)"
proof -
  obtain pre req where p: "reqs = pre @ Inr (ngh_req_id h, req) # rest" "sg_goal_id req = ngh_goal_id h"
    "map_of (goals st) (ngh_goal_id h) = None"
    "st' = st\<lparr>goals := bt_insert (ngh_goal_id h)
         \<lparr>ag_status = Unknown, ag_accepted_time = None, ag_goal = sg_goal req\<rparr> (goals st)\<rparr>"
    "\<forall>r\<in>set pre. \<exists>i q. r = Inr (i, q) \<and> map_of (goals st) (sg_goal_id q) \<noteq> None"
    using receive_new_goal_prefix [OF assms] by blast
  then show ?thesis
    by (intro exI [of _ pre] exI [of _ req]) (simp add: statuses_def bt_get_insert)
qed

lemma receive_new_goal_first_unknown_witness:
  "\<exists>st'. receive_new_goal [demo_goal 8 5, demo_goal 9 6] demo_accepted =
     (Ready (Ok \<lparr>ngh_goal_id = 6, ngh_req_id = demo_id 9\<rparr>), st', []) \<and> statuses st' 5 = Some Accepted"
proof -
  let ?h = "\<lparr>ngh_goal_id = 6, ngh_req_id = demo_id 9\<rparr>"
  obtain st' where r: "receive_new_goal [demo_goal 8 5, demo_goal 9 6] demo_accepted = (Ready (Ok ?h), st', [])"
    using demo_accepted_goals by (auto simp: demo_goal_def)
  from receive_new_goal_first_unknown [OF this] have "map_of (goals st') 5 = map_of (goals demo_accepted) 5"
    by (auto simp: fun_upd_def)
  with r demo_accepted_goals show ?thesis by (auto simp: statuses_def)
qed

text \<open>A result is sent to the request that asked for it: while the server waits for the result
  request of one goal, the requests for other goals that arrive first are remembered, the latest
  one per goal, and the wait ends at the first request for this goal.\<close>

lemma result_request_routed:
  assumes "bt_inv rr" and "map_of rr gid = None"
    and "find_result_request gid reqs rr = (Ready (Ok rid), rr', rest)"
  shows "\<exists>pre. reqs = map Inr pre @ Inr (rid, gid) # rest \<and> (\<forall>(i, g)\<in>set pre. g \<noteq> gid)
    \<and> map_of rr' = foldl remember (map_of rr) pre"
  using await_result_request_prefix [of gid reqs rr rid rr' rest] assms
  by (simp add: find_result_request_def)

lemma result_request_routed_witness:
  "\<exists>rr'. find_result_request 7 [Inr (demo_id 1, 5), Inr (demo_id 2, 5), Inr (demo_id 3, 7), Inr (demo_id 4, 5)] [] = (Ready (Ok (demo_id 3)), rr', [Inr (demo_id 4, 5)])
     \<and> map_of rr' 5 = Some (demo_id 2)"
proof -
  have f: "find_result_request 7 [Inr (demo_id 1, 5), Inr (demo_id 2, 5), Inr (demo_id 3, 7), Inr (demo_id 4, 5)] [] =
      (Ready (Ok (demo_id 3)), [(5, demo_id 2)], [Inr (demo_id 4, 5)])"
    by (simp add: find_result_request_def)
  moreover have "bt_inv ([] :: (goal_id \<times> request_id) list)" by (simp add: bt_inv_def)
  ultimately show ?thesis using result_request_routed [OF _ _ f] by auto
qed

text \<open>A cancel request is offered to the application as the goals that are accepted or
  executing and that the request selects by id or by acceptance time, in ascending order of id and
  each once.\<close>

lemma cancel_request_exact:
  assumes "action_reachable wr debug care st"
  shows "sorted_wrt (<) (ch_goals (receive_cancel_request rq st))
    \<and> set (ch_goals (receive_cancel_request rq st)) =
      {gid. \<exists>g. map_of (goals st) gid = Some g \<and> (ag_status g = Executing \<or> ag_status g = Accepted)
        \<and> cancel_selects (snd rq) gid g}"
  using receive_cancel_request_goals [OF action_inv_reachable [OF assms]] by blast

lemma cancel_request_exact_witness:
  "set (ch_goals (receive_cancel_request
      (demo_id 3, \<lparr>gi_goal_id = GOAL_ID_ZERO, gi_stamp = \<lparr>bt_nanos_since_epoch = 101\<rparr>\<rparr>) demo_accepted)) = {5}"
  using cancel_request_exact [OF demo_reachable(2) [of False AnyUse],
      of "(demo_id 3, \<lparr>gi_goal_id = GOAL_ID_ZERO, gi_stamp = \<lparr>bt_nanos_since_epoch = 101\<rparr>\<rparr>)"] demo_accepted_goals
  by (auto simp: cancel_selects_def BI_TIME_ZERO_def)

text \<open>A goal accepted exactly at the stamp of a cancel request is not selected by the stamp,
  although the documented policy cancels the goals accepted at or before it.\<close>

lemma cancel_at_stamp_missed:
  assumes "map_of (goals st) gid = Some g" and "ag_accepted_time g = Some t" and "t \<noteq> BI_TIME_ZERO"
    and "bt_inv (goals st)"
  shows "gid \<notin> set (ch_goals (receive_cancel_request (req_id, \<lparr>gi_goal_id = GOAL_ID_ZERO, gi_stamp = t\<rparr>) st))"
proof
  assume "gid \<in> set (ch_goals (receive_cancel_request (req_id, \<lparr>gi_goal_id = GOAL_ID_ZERO, gi_stamp = t\<rparr>) st))"
  then obtain g' where "(gid, g') \<in> set (goals st)" "cancel_selects \<lparr>gi_goal_id = GOAL_ID_ZERO, gi_stamp = t\<rparr> gid g'"
    by (auto simp: receive_cancel_request_def goal_filter_selects)
  moreover from this(1) have "g' = g" using btree_map.entry_iff [OF assms(4)] assms(1) by simp
  ultimately show False using assms(2,3) by (simp add: cancel_selects_def)
qed

theorem cancel_at_stamp_missed_witness:
  "5 \<notin> set (ch_goals (receive_cancel_request
     (demo_id 3, \<lparr>gi_goal_id = GOAL_ID_ZERO, gi_stamp = \<lparr>bt_nanos_since_epoch = 100\<rparr>\<rparr>) demo_accepted))"
proof -
  have "map_of (goals demo_accepted) 5 =
      Some \<lparr>ag_status = Accepted, ag_accepted_time = Some \<lparr>bt_nanos_since_epoch = 100\<rparr>, ag_goal = ()\<rparr>"
    "bt_inv (goals demo_accepted)"
    using demo_accepted_goals by (simp_all add: bt_inv_def)
  then show ?thesis
    using cancel_at_stamp_missed [of demo_accepted 5 _ "\<lparr>bt_nanos_since_epoch = 100\<rparr>" "demo_id 3"] by (simp add: BI_TIME_ZERO_def)
qed

text \<open>The last status message among those sent.\<close>

fun latest_status :: "goal_status list option \<Rightarrow> ('r, 'f) action_output \<Rightarrow> goal_status list option" where
  "latest_status acc (StatusArray l) = Some l"
| "latest_status acc _ = acc"

definition last_status :: "('g, 'r, 'f) action_server \<Rightarrow> goal_status list option" where
  "last_status st = foldl latest_status None (sent st)"

lemma last_status_publish:
  "wr (StatusArray (status_list (goals st))) \<Longrightarrow> last_status (publish_statuses wr st) = Some (status_list (goals st))"
  by (simp add: publish_statuses_def send_def last_status_def)

lemma last_status_other [simp]:
  "last_status (snd (send wr (SendGoalResponse i b t) st)) = last_status st"
  "last_status (snd (send wr (CancelGoalResponse i c l) st)) = last_status st"
  "last_status (mark_goal_finished gid st) = last_status st"
  by (simp_all add: send_def last_status_def mark_goal_finished_def)

text \<open>The status of a goal in the last status message.\<close>

definition published_status :: "('g, 'r, 'f) action_server \<Rightarrow> goal_id \<Rightarrow> goal_status_enum option" where
  "published_status st gid = Option.bind (last_status st)
     (\<lambda>l. map_of (map (\<lambda>x. (gi_goal_id (gs_goal_info x), gs_status x)) l) gid)"

lemma status_list_lookup:
  "map_of (map (\<lambda>x. (gi_goal_id (gs_goal_info x), gs_status x)) (status_list gs)) gid = map_option ag_status (map_of gs gid)"
  by (induction gs) (auto simp: status_list_def)

lemma published_now: "last_status st = Some (status_list (goals st)) \<Longrightarrow> published_status st gid = statuses st gid"
  by (simp add: published_status_def status_list_lookup statuses_def)

text \<open>A step either publishes the goals as they then are, or publishes nothing and gives no goal a status other
  than unknown.\<close>

definition tells :: "('g, 'r, 'f) action_server \<Rightarrow> ('g, 'r, 'f) action_server \<Rightarrow> bool" where
  "tells st st' \<longleftrightarrow> last_status st' = Some (status_list (goals st'))
     \<or> last_status st' = last_status st
       \<and> (\<forall>gid s. statuses st' gid = Some s \<longrightarrow> s \<noteq> Unknown \<longrightarrow> statuses st gid = Some s)"

lemma tells_same: "goals st' = goals st \<Longrightarrow> last_status st' = last_status st \<Longrightarrow> tells st st'"
  by (simp add: tells_def statuses_def)

lemma tells_published: "last_status st' = Some (status_list (goals st')) \<Longrightarrow> tells st st'"
  by (simp add: tells_def)

lemma last_status_send [simp]:
  "last_status (snd (send wr (FeedbackMessage gid f) st)) = last_status st"
  "last_status (snd (send wr (GetResultResponse i s r) st)) = last_status st"
  "last_status (set_status gid s st) = last_status st"
  "last_status (st\<lparr>goals := gs\<rparr>) = last_status st" "last_status (st\<lparr>result_requests := rr\<rparr>) = last_status st"
  by (simp_all add: send_def last_status_def set_status_def)

lemma finish_tells:
  assumes "finish_goal wr gid i s res st = (r, st')" and "\<And>l. wr (StatusArray l)" and "\<And>i s r. wr (GetResultResponse i s r)"
  shows "tells st st'"
proof (cases "\<exists>t. statuses st gid = Some t \<and> active t")
  case True
  then have "last_status st' = Some (status_list (goals st'))"
    using assms by (auto simp: finish_goal_def statuses_def active_def Let_def case_prod_unfold last_status_publish)
  then show ?thesis by (rule tells_published)
next
  case False
  then have "st' = st" using assms(1) by (auto simp: finish_goal_def statuses_def active_def split: option.splits if_splits)
  then show ?thesis by (simp add: tells_same)
qed

lemma ends_goal_tells:
  assumes "ends_goal wr gid es res st st'" and "\<And>l. wr (StatusArray l)" and "\<And>i s r. wr (GetResultResponse i s r)"
  shows "tells st st'"
proof -
  obtain rr where "st' = st\<lparr>result_requests := rr\<rparr> \<or>
     (\<exists>req_id r. finish_goal wr gid req_id (end_status es) res (st\<lparr>result_requests := rr\<rparr>) = (r, st'))"
    using assms(1) by (auto simp: ends_goal_def)
  then have "tells (st\<lparr>result_requests := rr\<rparr>) st'"
    using finish_tells [OF _ assms(2,3)] by (auto simp: tells_same)
  then show ?thesis by (simp add: tells_def statuses_def)
qed

lemma flush_tells: "flush_finished_goals debug st = Some st' \<Longrightarrow> action_inv st \<Longrightarrow> tells st st'"
  using flush_statuses(1) [of debug st st'] by (auto simp: tells_def flush_finished_goals_def last_status_def split: if_splits)

lemma step_tells:
  assumes "action_step wr debug care st st'" and inv: "action_inv st"
    and "\<And>l. wr (StatusArray l)" and "\<And>i s r. wr (GetResultResponse i s r)"
  shows "tells st st'"
  using assms(1)
proof cases
  case (step_receive reqs p rest)
  then show ?thesis
    using receive_new_goal_effect [OF step_receive]
  proof (elim disjE exE conjE)
    fix req_id req
    assume "st' = st\<lparr>goals := bt_insert (sg_goal_id req) \<lparr>ag_status = Unknown, ag_accepted_time = None, ag_goal = sg_goal req\<rparr> (goals st)\<rparr>"
    then show ?thesis by (simp add: tells_def statuses_def bt_get_insert)
  qed (simp add: tells_same)
next
  case (step_get h g)
  then show ?thesis using flush_tells inv by (auto simp: get_new_goal_def)
next
  case (step_accept now h r)
  then show ?thesis
    by (auto simp: accept_goal_def Let_def case_prod_unfold last_status_publish assms(3) tells_same
        intro: tells_published split: option.splits if_splits)
next
  case (step_reject now h r)
  then show ?thesis
  proof -
    have "last_status st' = last_status st"
      using step_reject by (auto simp: reject_goal_def Let_def case_prod_unfold split: option.splits if_splits)
    moreover have "statuses st' gid = Some s \<Longrightarrow> statuses st gid = Some s" for gid s
      using reject_goal_effect(3) [OF step_reject] inv
      by (auto simp: statuses_def bt_get_remove action_inv_def split: if_splits)
    ultimately show ?thesis by (simp add: tells_def)
  qed
next
  case (step_start ah r)
  obtain gid where "ah = AcceptedGoalHandle gid" by (cases ah)
  with step_start show ?thesis
    by (auto simp: last_status_publish assms(3) tells_same intro: tells_published split: option.splits if_splits)
next
  case (step_feedback eh f r)
  obtain gid where "eh = ExecutingGoalHandle gid" by (cases eh)
  with step_feedback show ?thesis
    by (auto simp: Let_def case_prod_unfold intro: tells_same split: option.splits if_splits)
next
  case (step_result gid es res reqs p rest)
  show ?thesis by (rule ends_goal_tells [OF send_result_effect [OF step_result(1)] assms(3,4)])
next
  case (step_resume gid es res reqs p rest)
  show ?thesis by (rule ends_goal_tells [OF resume_result_effect [OF step_resume(1)] assms(3,4)])
next
  case (step_abort gid r)
  then show ?thesis
    by (auto simp: abort_goal_def last_status_publish assms(3) tells_same intro: tells_published split: option.splits if_splits)
next
  case (step_cancel ch gids r)
  then show ?thesis
    by (auto simp: respond_to_cancel_requests_def Let_def case_prod_unfold last_status_publish assms(3)
        intro: tells_published split: if_splits)
qed

text \<open>C33. When the middleware takes status messages and results, the status of every accepted goal is published: in
  every reachable server, however it is used, the last status message gives each known goal its
  present status, unless that is unknown, before the goal is accepted or rejected; and a step that gives a goal a new
  status other than unknown sends a status message with exactly the goals of the server and their statuses. That a goal
  arrives is not published, nor that it is rejected or forgotten.\<close>

theorem status_published:
  assumes "action_reachable wr debug care st" and "\<And>l. wr (StatusArray l)" and "\<And>i s r. wr (GetResultResponse i s r)"
  shows "(\<forall>gid s. statuses st gid = Some s \<longrightarrow> s \<noteq> Unknown \<longrightarrow> published_status st gid = Some s)
    \<and> (\<forall>st' gid s. action_step wr debug care st st' \<longrightarrow> statuses st' gid = Some s \<longrightarrow> s \<noteq> Unknown
         \<longrightarrow> statuses st gid \<noteq> Some s \<longrightarrow> last_status st' = Some (status_list (goals st')))"
proof (intro conjI allI impI)
  show "published_status st gid = Some s" if "statuses st gid = Some s" "s \<noteq> Unknown" for gid s
    using assms(1) that
  proof (induction arbitrary: gid s rule: action_reachable.induct)
    case (reach_step st st')
    from step_tells [OF reach_step(2) action_inv_reachable [OF reach_step(1)] assms(2,3)] show ?case
      unfolding tells_def
    proof (elim disjE conjE)
      assume "last_status st' = last_status st" "\<forall>gid s. statuses st' gid = Some s \<longrightarrow> s \<noteq> Unknown \<longrightarrow> statuses st gid = Some s"
      then show ?case using reach_step.IH [of gid s] reach_step.prems by (simp add: published_status_def)
    qed (simp add: published_now reach_step.prems)
  qed (simp add: statuses_def action_server_new_def)
  show "last_status st' = Some (status_list (goals st'))"
    if "action_step wr debug care st st'" "statuses st' gid = Some s" "s \<noteq> Unknown" "statuses st gid \<noteq> Some s" for st' gid s
    using step_tells [OF that(1) action_inv_reachable [OF assms(1)] assms(2,3)] that(2-4) by (auto simp: tells_def)
qed

theorem status_published_witness:
  "published_status demo_ended 5 = Some Aborted
   \<and> last_status demo_ended = Some [\<lparr>gs_goal_info = \<lparr>gi_goal_id = 5, gi_stamp = \<lparr>bt_nanos_since_epoch = 100\<rparr>\<rparr>, gs_status = Aborted\<rparr>]"
proof -
  have wr: "all_written out" for out by (simp add: all_written_def)
  have "statuses demo_ended 5 = Some Aborted" "statuses demo_executing 5 = Some Executing"
    using demo_ended_goals demo_executing_goals by (simp_all add: statuses_def)
  moreover have "status_list (goals demo_ended) =
      [\<lparr>gs_goal_info = \<lparr>gi_goal_id = 5, gi_stamp = \<lparr>bt_nanos_since_epoch = 100\<rparr>\<rparr>, gs_status = Aborted\<rparr>]"
    using demo_ended_goals by (simp add: status_list_def)
  ultimately show ?thesis
    using status_published [OF demo_reachable(3) [of True AnyUse] wr wr]
      status_published [OF demo_reachable(7) [of True AnyUse] wr wr] demo_reachable(6) [of True AnyUse] by auto
qed

text \<open>The silent steps: rejecting a goal publishes nothing, a forgotten one stays in the last message.\<close>

lemma rejection_silent: "last_status (snd (reject_goal wr now h st)) = last_status st"
  by (auto simp: reject_goal_def Let_def case_prod_unfold split: option.splits if_splits)

lemma forgotten_still_published:
  "get_new_goal debug h st = Some (g, st') \<Longrightarrow> published_status st' gid = published_status st gid"
  by (auto simp: get_new_goal_def flush_finished_goals_def published_status_def last_status_def)

end
