(* ===== verification/Dds_Action_Calls.thy ===== *)
theory Dds_Action_Calls
  imports Dds_Action
begin

text \<open>
  The three services of a DDS action from end to end: what the action client sends, what the action
  server reads and answers, and what the client's receive loops return, under the enhanced mapping.
\<close>

lemma loop_reaches:
  assumes "\<forall>it\<in>set others. for_other i (response_of l cdr c it)" and "response_of l cdr c it = Ok (i, r)"
  shows "first_for i (map (response_of l cdr c) (others @ it # rest)) = Ok (Some r)"
    and "left_over (\<lambda>it. for_other i (response_of l cdr c it)) (others @ it # rest) = rest"
proof -
  have "\<forall>x\<in>set (map (response_of l cdr c) others). for_other i x" using assms(1) by simp
  from first_for_skip [OF this, of "map (response_of l cdr c) (it # rest)"]
  show "first_for i (map (response_of l cdr c) (others @ it # rest)) = Ok (Some r)"
    using assms(2) by (simp add: drain_Cons)
  show "left_over (\<lambda>it. for_other i (response_of l cdr c it)) (others @ it # rest) = rest"
    using left_over_skip [OF assms(1)] assms(2) by (simp add: drain_Cons)
qed

text \<open>An exchange on one service of an action: the client's request was taken, the server's answer to it was
  taken, and what the client's reader holds before the answer is for others.\<close>

definition answered :: "dds_lib \<Rightarrow> rmw_request_id \<Rightarrow> 'r dds_cdr \<Rightarrow> dds_client \<Rightarrow> wrapper dds_reader \<Rightarrow> bool" where
  "answered l i rcdr c others \<longleftrightarrow> rr_sequence_number i \<noteq> sn_unknown l \<and> (\<forall>it\<in>set others. for_other i (response_of l rcdr c it))"

definition enhanced_action :: "dds_action_client \<Rightarrow> 'f dds_action_server \<Rightarrow> bool" where
  "enhanced_action a s \<longleftrightarrow>
     (\<forall>c\<in>{my_goal_client a, my_cancel_client a, my_result_client a}. dc_service_mapping c = Enhanced)
     \<and> (\<forall>v\<in>{my_goal_server s, my_cancel_server s, my_result_server s}. dv_service_mapping v = Enhanced)"

definition action_codecs_lawful :: "('g, 'r) dds_action_codecs \<Rightarrow> bool" where
  "action_codecs_lawful k \<longleftrightarrow> dds_cdr_lawful (ac_goal_request k) \<and> dds_cdr_lawful (ac_goal_response k)
     \<and> dds_cdr_lawful (ac_cancel_request k) \<and> dds_cdr_lawful (ac_cancel_response k)
     \<and> dds_cdr_lawful (ac_result_request k) \<and> dds_cdr_lawful (ac_result_response k)"

text \<open>One exchange on a service: what the server reads, and where the client's loop ends.\<close>

lemma service_exchange:
  assumes "dds_cdr_lawful qcdr" and "dds_cdr_lawful rcdr" and "dc_service_mapping c = Enhanced" and "dv_service_mapping s = Enhanced"
    and "send_request l qcdr write req c = (Ok i, c')" and "send_response l rcdr write' i resp s = (Ok (), s')"
    and "answered l i rcdr c' others"
  shows "receive_request l qcdr s (Ok (Some (delivered st (last (dc_written c')) (sample_identity_from i)))) = Ok (Some (i, req))"
    and "first_for i (map (response_of l rcdr c') (others @ Inr (delivered st' (last (dv_written s')) sid) # rest)) = Ok (Some resp)"
    and "left_over (\<lambda>it. for_other i (response_of l rcdr c' it)) (others @ Inr (delivered st' (last (dv_written s')) sid) # rest) = rest"
proof -
  have others: "rr_sequence_number i \<noteq> sn_unknown l" "\<forall>it\<in>set others. for_other i (response_of l rcdr c' it)"
    using assms(7) by (simp_all add: answered_def)
  note got = enhanced_exchange [OF assms(1-5) others(1) assms(6)]
  have r: "response_of l rcdr c' (Inr (delivered st' (last (dv_written s')) sid)) = Ok (i, resp)"
    using got(2,3) by (simp add: response_of_def)
  show "receive_request l qcdr s (Ok (Some (delivered st (last (dc_written c')) (sample_identity_from i)))) = Ok (Some (i, req))"
    by (rule got(1))
  show "first_for i (map (response_of l rcdr c') (others @ Inr (delivered st' (last (dv_written s')) sid) # rest)) = Ok (Some resp)"
    "left_over (\<lambda>it. for_other i (response_of l rcdr c' it)) (others @ Inr (delivered st' (last (dv_written s')) sid) # rest) = rest"
    by (rule loop_reaches [OF others(2) r])+
qed

lemma actionD:
  assumes "enhanced_action a s" and "action_codecs_lawful k"
  shows "dc_service_mapping (my_goal_client a) = Enhanced" "dc_service_mapping (my_cancel_client a) = Enhanced" "dc_service_mapping (my_result_client a) = Enhanced"
    "dv_service_mapping (my_goal_server s) = Enhanced" "dv_service_mapping (my_cancel_server s) = Enhanced" "dv_service_mapping (my_result_server s) = Enhanced"
    "dds_cdr_lawful (ac_goal_request k)" "dds_cdr_lawful (ac_goal_response k)" "dds_cdr_lawful (ac_cancel_request k)"
    "dds_cdr_lawful (ac_cancel_response k)" "dds_cdr_lawful (ac_result_request k)" "dds_cdr_lawful (ac_result_response k)"
  using assms by (simp_all add: enhanced_action_def action_codecs_lawful_def)

lemma goal_exchange:
  assumes "enhanced_action a s" and "action_codecs_lawful k"
    and "dds_send_goal l k write gid goal a = (Ok (i, gid'), a')" and "dds_send_goal_response l k write' i resp s = (Ok (), s')"
    and "answered l i (ac_goal_response k) (my_goal_client a') others"
  shows "gid' = gid"
    and "dds_receive_goal l k s (Ok (Some (delivered st (last (dc_written (my_goal_client a'))) (sample_identity_from i))))
      = Ok (Some (i, \<lparr>sg_goal_id = gid, sg_goal = goal\<rparr>))"
    and "receive_goal_response l (ac_goal_response k) (my_goal_client a') i
      (others @ Inr (delivered st' (last (dv_written (my_goal_server s'))) sid) # rest) = (Ok (Some resp), rest)"
proof -
  note side = actionD [OF assms(1,2)]
  have sent: "send_request l (ac_goal_request k) write \<lparr>sg_goal_id = gid, sg_goal = goal\<rparr> (my_goal_client a) = (Ok i, my_goal_client a')"
    "send_response l (ac_goal_response k) write' i resp (my_goal_server s) = (Ok (), my_goal_server s')" and same: "gid' = gid"
    using assms(3,4) by (auto simp: dds_send_goal_def dds_send_goal_response_def Let_def and_then_Ok split: prod.splits)
  note got = service_exchange [OF side(7,8,1,4) sent assms(5)]
  show "gid' = gid" by (rule same)
  show "dds_receive_goal l k s (Ok (Some (delivered st (last (dc_written (my_goal_client a'))) (sample_identity_from i))))
      = Ok (Some (i, \<lparr>sg_goal_id = gid, sg_goal = goal\<rparr>))"
    unfolding dds_receive_goal_def by (rule got(1))
  show "receive_goal_response l (ac_goal_response k) (my_goal_client a') i
      (others @ Inr (delivered st' (last (dv_written (my_goal_server s'))) sid) # rest) = (Ok (Some resp), rest)"
    unfolding goal_response_drain got(2,3) by (rule refl)
qed

lemma result_exchange:
  assumes "enhanced_action a s" and "action_codecs_lawful k"
    and "request_result l k write gid a = (Ok i, a')" and "send_result l k write' i resp s = (Ok (), s')"
    and "answered l i (ac_result_response k) (my_result_client a') others"
  shows "dds_receive_result l k s (Ok (Some (delivered st (last (dc_written (my_result_client a'))) (sample_identity_from i)))) = Ok (Some (i, gid))"
    and "receive_result l (ac_result_response k) (my_result_client a') i
      (others @ Inr (delivered st' (last (dv_written (my_result_server s'))) sid) # rest) = (Ok (Some (dr_status resp, dr_result resp)), rest)"
proof -
  note side = actionD [OF assms(1,2)]
  have sent: "send_request l (ac_result_request k) write gid (my_result_client a) = (Ok i, my_result_client a')"
    "send_response l (ac_result_response k) write' i resp (my_result_server s) = (Ok (), my_result_server s')"
    using assms(3,4) by (auto simp: request_result_def send_result_def Let_def split: prod.splits)
  note got = service_exchange [OF side(11,12,3,6) sent assms(5)]
  show "dds_receive_result l k s (Ok (Some (delivered st (last (dc_written (my_result_client a'))) (sample_identity_from i)))) = Ok (Some (i, gid))"
    unfolding dds_receive_result_def by (rule got(1))
  show "receive_result l (ac_result_response k) (my_result_client a') i
      (others @ Inr (delivered st' (last (dv_written (my_result_server s'))) sid) # rest) = (Ok (Some (dr_status resp, dr_result resp)), rest)"
    unfolding result_drain got(2,3) by simp
qed

lemma cancel_exchange:
  assumes "enhanced_action a s" and "action_codecs_lawful k"
    and "cancel_goal_raw l k write gid t a = (Ok i, a')" and "send_cancel_response l k write' i resp s = (Ok (), s')"
    and "answered l i (ac_cancel_response k) (my_cancel_client a') others"
  shows "dds_receive_cancel l k s (Ok (Some (delivered st (last (dc_written (my_cancel_client a'))) (sample_identity_from i))))
      = Ok (Some (i, \<lparr>gi_goal_id = gid, gi_stamp = t\<rparr>))"
    and "receive_cancel_response l (ac_cancel_response k) (my_cancel_client a') i
      (others @ Inr (delivered st' (last (dv_written (my_cancel_server s'))) sid) # rest) = (Ok (Some resp), rest)"
proof -
  note side = actionD [OF assms(1,2)]
  have sent: "send_request l (ac_cancel_request k) write \<lparr>gi_goal_id = gid, gi_stamp = t\<rparr> (my_cancel_client a) = (Ok i, my_cancel_client a')"
    "send_response l (ac_cancel_response k) write' i resp (my_cancel_server s) = (Ok (), my_cancel_server s')"
    using assms(3,4) by (auto simp: cancel_goal_raw_def send_cancel_response_def Let_def split: prod.splits)
  note got = service_exchange [OF side(9,10,2,5) sent assms(5)]
  show "dds_receive_cancel l k s (Ok (Some (delivered st (last (dc_written (my_cancel_client a'))) (sample_identity_from i))))
      = Ok (Some (i, \<lparr>gi_goal_id = gid, gi_stamp = t\<rparr>))"
    unfolding dds_receive_cancel_def by (rule got(1))
  show "receive_cancel_response l (ac_cancel_response k) (my_cancel_client a') i
      (others @ Inr (delivered st' (last (dv_written (my_cancel_server s'))) sid) # rest) = (Ok (Some resp), rest)"
    unfolding cancel_response_drain got(2,3) by (rule refl)
qed

lemma send_request_mapping: "send_request l cdr write req c = (Ok i, c') \<Longrightarrow> dc_service_mapping c' = dc_service_mapping c"
  by (auto simp: send_request_def increment_sequence_number_def Let_def split: sum.splits option.splits if_splits prod.splits)

lemma send_response_mapping: "send_response l cdr write i resp s = (Ok (), s') \<Longrightarrow> dv_service_mapping s' = dv_service_mapping s"
  by (auto simp: send_response_def Let_def split: sum.splits option.splits)

lemma enhanced_kept:
  assumes "enhanced_action a s"
  shows "dds_send_goal l k write gid goal a = (Ok x, a') \<Longrightarrow> enhanced_action a' s"
    and "dds_send_goal_response l k write i gresp s = (Ok (), s') \<Longrightarrow> enhanced_action a s'"
    and "cancel_goal_raw l k write gid t a = (Ok i, a') \<Longrightarrow> enhanced_action a' s"
    and "send_cancel_response l k write i cresp s = (Ok (), s') \<Longrightarrow> enhanced_action a s'"
  using assms by (auto simp: enhanced_action_def dds_send_goal_def dds_send_goal_response_def cancel_goal_raw_def send_cancel_response_def Let_def
      and_then_Ok dest: send_request_mapping send_response_mapping split: prod.splits)

text \<open>C9. An action over DDS works from end to end under the enhanced mapping: of a goal that is sent, then
  canceled, then asked for its result, the server reads exactly what the client sent, under the id the
  client was given, and the client's receive functions return the server's response to that very
  request, dropping the responses to others that its reader holds before it. The other mappings are not covered.\<close>

theorem dds_action_round_trips:
  assumes "enhanced_action a s" and "action_codecs_lawful k"
    and "dds_send_goal l k w1 gid goal a = (Ok (i, gid'), a1)" and "dds_send_goal_response l k w2 i gresp s = (Ok (), s1)"
    and "cancel_goal l k w3 gid a1 = (Ok j, a2)" and "send_cancel_response l k w4 j cresp s1 = (Ok (), s2)"
    and "request_result l k w5 gid a2 = (Ok m, a3)" and "send_result l k w6 m rresp s2 = (Ok (), s3)"
    and "answered l i (ac_goal_response k) (my_goal_client a1) go" and "answered l j (ac_cancel_response k) (my_cancel_client a2) co"
    and "answered l m (ac_result_response k) (my_result_client a3) ro"
  shows "gid' = gid
    \<and> dds_receive_goal l k s (Ok (Some (delivered t1 (last (dc_written (my_goal_client a1))) (sample_identity_from i))))
        = Ok (Some (i, \<lparr>sg_goal_id = gid, sg_goal = goal\<rparr>))
    \<and> receive_goal_response l (ac_goal_response k) (my_goal_client a1) i
        (go @ Inr (delivered t2 (last (dv_written (my_goal_server s1))) d1) # rest) = (Ok (Some gresp), rest)
    \<and> dds_receive_cancel l k s1 (Ok (Some (delivered t3 (last (dc_written (my_cancel_client a2))) (sample_identity_from j))))
        = Ok (Some (j, \<lparr>gi_goal_id = gid, gi_stamp = BI_TIME_ZERO\<rparr>))
    \<and> receive_cancel_response l (ac_cancel_response k) (my_cancel_client a2) j
        (co @ Inr (delivered t4 (last (dv_written (my_cancel_server s2))) d2) # rest) = (Ok (Some cresp), rest)
    \<and> dds_receive_result l k s2 (Ok (Some (delivered t5 (last (dc_written (my_result_client a3))) (sample_identity_from m)))) = Ok (Some (m, gid))
    \<and> receive_result l (ac_result_response k) (my_result_client a3) m
        (ro @ Inr (delivered t6 (last (dv_written (my_result_server s3))) d3) # rest) = (Ok (Some (dr_status rresp, dr_result rresp)), rest)"
proof -
  have cancel: "cancel_goal_raw l k w3 gid BI_TIME_ZERO a1 = (Ok j, a2)" using assms(5) by (simp add: cancel_goal_def)
  have e1: "enhanced_action a1 s1"
    by (rule enhanced_kept(2) [OF enhanced_kept(1) [OF assms(1,3)] assms(4)])
  have e2: "enhanced_action a2 s2"
    by (rule enhanced_kept(4) [OF enhanced_kept(3) [OF e1 cancel] assms(6)])
  show ?thesis
    by (intro conjI goal_exchange [OF assms(1,2,3,4,9)] cancel_exchange [OF e1 assms(2) cancel assms(6,10)]
        result_exchange [OF e2 assms(2,7,8,11)])
qed

text \<open>An action whose goals and results are bytes.\<close>

definition tiny_codecs :: "(byte, byte) dds_action_codecs" where
  "tiny_codecs =
     \<lparr>ac_goal_request = fixed_cdr 2 (\<lambda>r. [ucast (sg_goal_id r), sg_goal r]) (\<lambda>b. \<lparr>sg_goal_id = ucast (hd b), sg_goal = b ! 1\<rparr>),
      ac_goal_response = accepted_cdr,
      ac_cancel_request = fixed_cdr 1 (\<lambda>r. [ucast (gi_goal_id r)]) (\<lambda>b. \<lparr>gi_goal_id = ucast (hd b), gi_stamp = BI_TIME_ZERO\<rparr>),
      ac_cancel_response = fixed_cdr 0 (\<lambda>_. []) (\<lambda>_. \<lparr>cg_return_code = CancelNone, cg_goals_canceling = []\<rparr>),
      ac_result_request = fixed_cdr 1 (\<lambda>g. [ucast g]) (\<lambda>b. ucast (hd b)),
      ac_result_response = fixed_cdr 1 (\<lambda>r. [dr_result r]) (\<lambda>b. \<lparr>dr_status = Succeeded, dr_result = hd b\<rparr>)\<rparr>"

definition tiny_client :: dds_action_client where
  "tiny_client = (let c = dds_client_new fixed_lib Enhanced (replicate 16 4) in \<lparr>my_goal_client = c, my_cancel_client = c, my_result_client = c\<rparr>)"

definition tiny_server :: "byte dds_action_server" where
  "tiny_server = (let v = \<lparr>dv_service_mapping = Enhanced, dv_written = []\<rparr>; p = \<lparr>dp_guid = [], dp_written = []\<rparr>
     in \<lparr>my_goal_server = v, my_cancel_server = v, my_result_server = v, my_feedback_publisher = p, my_status_publisher = \<lparr>dp_guid = [], dp_written = []\<rparr>\<rparr>)"

definition tiny_write :: "dds_sample \<Rightarrow> sample_identity option" where
  "tiny_write _ = Some \<lparr>si_writer_guid = replicate 16 4, si_sequence_number = 1\<rparr>"

lemma tiny_action: "enhanced_action tiny_client tiny_server" "action_codecs_lawful tiny_codecs"
  by (simp_all add: enhanced_action_def tiny_client_def tiny_server_def dds_client_new_def Let_def action_codecs_lawful_def
      tiny_codecs_def accepted_cdr_def fixed_cdr_lawful)

lemmas tiny_simps = tiny_client_def tiny_server_def tiny_codecs_def tiny_write_def accepted_cdr_def fixed_cdr_def dds_client_new_def
  increment_sequence_number_def request_new_def request_header_def response_new_def response_header_def rmw_request_id_from_def
  dds_send_goal_def dds_send_goal_response_def cancel_goal_def cancel_goal_raw_def send_cancel_response_def request_result_def send_result_def
  send_request_def send_response_def Let_def

theorem dds_action_round_trips_witness:
  "\<exists>i gid' a1 s1. dds_send_goal fixed_lib tiny_codecs tiny_write 5 7 tiny_client = (Ok (i, gid'), a1)
     \<and> dds_send_goal_response fixed_lib tiny_codecs tiny_write i \<lparr>sr_accepted = True, sr_stamp = BI_TIME_ZERO\<rparr> tiny_server = (Ok (), s1)
     \<and> dds_receive_goal fixed_lib tiny_codecs tiny_server (Ok (Some (delivered None (last (dc_written (my_goal_client a1))) (sample_identity_from i))))
        = Ok (Some (i, \<lparr>sg_goal_id = 5, sg_goal = 7\<rparr>))
     \<and> receive_goal_response fixed_lib accepted_cdr (my_goal_client a1) i
        [Inr (delivered None (last (dv_written (my_goal_server s1))) \<lparr>si_writer_guid = replicate 16 4, si_sequence_number = 1\<rparr>)]
        = (Ok (Some \<lparr>sr_accepted = True, sr_stamp = BI_TIME_ZERO\<rparr>), [])"
proof -
  let ?i = "\<lparr>rr_writer_guid = replicate 16 4, rr_sequence_number = 1\<rparr>" and ?ok = "\<lparr>sr_accepted = True, sr_stamp = BI_TIME_ZERO\<rparr>"
    and ?cancel = "\<lparr>cg_return_code = CancelNone, cg_goals_canceling = []\<rparr>" and ?result = "\<lparr>dr_status = Succeeded, dr_result = 9\<rparr>"
  obtain a1 where g: "dds_send_goal fixed_lib tiny_codecs tiny_write 5 7 tiny_client = (Ok (?i, 5), a1)"
    "dc_service_mapping (my_cancel_client a1) = Enhanced" "dc_service_mapping (my_result_client a1) = Enhanced"
    by (simp add: tiny_simps)
  obtain s1 where gr: "dds_send_goal_response fixed_lib tiny_codecs tiny_write ?i ?ok tiny_server = (Ok (), s1)"
    "dv_service_mapping (my_cancel_server s1) = Enhanced" "dv_service_mapping (my_result_server s1) = Enhanced"
    by (simp add: tiny_simps)
  obtain a2 where c: "cancel_goal fixed_lib tiny_codecs tiny_write 5 a1 = (Ok ?i, a2)" "dc_service_mapping (my_result_client a2) = Enhanced"
    using g(2,3) by (simp add: tiny_simps)
  obtain s2 where cr: "send_cancel_response fixed_lib tiny_codecs tiny_write ?i ?cancel s1 = (Ok (), s2)"
    "dv_service_mapping (my_result_server s2) = Enhanced"
    using gr(2,3) by (simp add: tiny_simps)
  obtain a3 where r: "request_result fixed_lib tiny_codecs tiny_write 5 a2 = (Ok ?i, a3)"
    using c(2) by (simp add: tiny_simps)
  obtain s3 where rr: "send_result fixed_lib tiny_codecs tiny_write ?i ?result s2 = (Ok (), s3)"
    using cr(2) by (simp add: tiny_simps)
  have ans: "answered fixed_lib ?i cdr cl []" for cdr :: "'x dds_cdr" and cl
    by (simp add: answered_def fixed_lib_def)
  have k: "ac_goal_response tiny_codecs = accepted_cdr" by (simp add: tiny_codecs_def)
  show ?thesis
    using dds_action_round_trips [OF tiny_action g(1) gr(1) c(1) cr(1) r rr ans ans ans, where rest = "[]"] g(1) gr(1)
    unfolding k append_Nil by blast
qed

end
