(* ===== verification/Dds_Async_Action.thy ===== *)
theory Dds_Async_Action
  imports Action_Server Dds_Action_Calls
begin

text \<open>
  The asynchronous action server on its transport: what \<open>Action_Server\<close> sends goes through the services and
  topics of the action server it wraps (\<open>Dds_Action\<close>), and so to the action client. The client learns
  what the application decided.
\<close>

subsection \<open>The transport\<close>

record 'f action_writers =
  aw_goal :: "dds_sample \<Rightarrow> sample_identity option"
  aw_cancel :: "dds_sample \<Rightarrow> sample_identity option"
  aw_result :: "dds_sample \<Rightarrow> sample_identity option"
  aw_feedback :: "'f dds_feedback \<Rightarrow> bool"
  aw_status :: "goal_status list \<Rightarrow> bool"

fun transmit :: "dds_lib \<Rightarrow> ('g, 'r) dds_action_codecs \<Rightarrow> 'f action_writers \<Rightarrow> ('r, 'f) action_output \<Rightarrow> 'f dds_action_server \<Rightarrow>
    (write_error + unit) \<times> 'f dds_action_server" where
  "transmit l k aw (SendGoalResponse i accepted stamp) s =
     dds_send_goal_response l k (aw_goal aw) i \<lparr>sr_accepted = accepted, sr_stamp = stamp\<rparr> s"
| "transmit l k aw (StatusArray goal_statuses) s = send_goal_statuses (aw_status aw) goal_statuses s"
| "transmit l k aw (FeedbackMessage gid f) s = send_feedback (aw_feedback aw) gid f s"
| "transmit l k aw (GetResultResponse i st r) s = send_result l k (aw_result aw) i \<lparr>dr_status = st, dr_result = r\<rparr> s"
| "transmit l k aw (CancelGoalResponse i code infos) s =
     send_cancel_response l k (aw_cancel aw) i \<lparr>cg_return_code = code, cg_goals_canceling = infos\<rparr> s"

definition transmitted :: "dds_lib \<Rightarrow> ('g, 'r) dds_action_codecs \<Rightarrow> 'f action_writers \<Rightarrow> ('r, 'f) action_output list \<Rightarrow>
    'f dds_action_server \<Rightarrow> 'f dds_action_server" where
  "transmitted l k aw outs s = fold (\<lambda>out s. snd (transmit l k aw out s)) outs s"

text \<open>Which samples the transport takes depends on the mappings of its services only.\<close>

definition takes :: "dds_lib \<Rightarrow> ('g, 'r) dds_action_codecs \<Rightarrow> 'f action_writers \<Rightarrow> 'f dds_action_server \<Rightarrow> ('r, 'f) action_output \<Rightarrow> bool" where
  "takes l k aw s out \<longleftrightarrow> fst (transmit l k aw out s) = Ok ()"

fun is_status :: "('r, 'f) action_output \<Rightarrow> bool" where
  "is_status (StatusArray _) = True"
| "is_status _ = False"

lemma transmitted_statuses:
  assumes "list_all is_status outs"
  shows "my_goal_server (transmitted l k aw outs s) = my_goal_server s" "my_cancel_server (transmitted l k aw outs s) = my_cancel_server s"
    "my_result_server (transmitted l k aw outs s) = my_result_server s"
proof -
  have one: "my_goal_server (snd (transmit l k aw out s)) = my_goal_server s \<and> my_cancel_server (snd (transmit l k aw out s)) = my_cancel_server s
      \<and> my_result_server (snd (transmit l k aw out s)) = my_result_server s" if "is_status out" for out s
    using that by (cases out) (simp_all add: send_goal_statuses_def case_prod_unfold Let_def)
  have "my_goal_server (transmitted l k aw outs s) = my_goal_server s \<and> my_cancel_server (transmitted l k aw outs s) = my_cancel_server s
      \<and> my_result_server (transmitted l k aw outs s) = my_result_server s"
    using assms unfolding transmitted_def by (induction outs arbitrary: s) (simp_all add: one)
  then show "my_goal_server (transmitted l k aw outs s) = my_goal_server s" "my_cancel_server (transmitted l k aw outs s) = my_cancel_server s"
    "my_result_server (transmitted l k aw outs s) = my_result_server s" by simp_all
qed

lemma enhanced_action_cong:
  assumes "my_goal_server s = my_goal_server s'" "my_cancel_server s = my_cancel_server s'" "my_result_server s = my_result_server s'"
  shows "enhanced_action a s = enhanced_action a s'"
  using assms by (simp add: enhanced_action_def)

lemma takes_goal_response:
  assumes "takes l k aw s (SendGoalResponse i b t)" and "my_goal_server s' = my_goal_server s"
  shows "dds_send_goal_response l k (aw_goal aw) i \<lparr>sr_accepted = b, sr_stamp = t\<rparr> s' = (Ok (), snd (transmit l k aw (SendGoalResponse i b t) s'))"
  using assms by (simp add: takes_def dds_send_goal_response_def Let_def case_prod_unfold prod_eq_iff)

lemma takes_result_response:
  assumes "takes l k aw s (GetResultResponse i st r)"
  shows "send_result l k (aw_result aw) i \<lparr>dr_status = st, dr_result = r\<rparr> s = (Ok (), snd (transmit l k aw (GetResultResponse i st r) s))"
  using assms by (simp add: takes_def prod_eq_iff)

subsection \<open>What the server sends\<close>

lemma publish_sends: "\<exists>outs. list_all is_status outs \<and> sent (publish_statuses wr st) = sent st @ outs"
  by (cases "wr (StatusArray (status_list (goals st)))") (auto simp: publish_statuses_def send_def intro: exI [of _ "[]"])

lemma accept_sends:
  assumes "accept_goal wr now h st = (Ok ah, st')"
  shows "\<exists>outs. list_all is_status outs \<and> sent st' = sent st @ outs @ [SendGoalResponse (ngh_req_id h) True now]
    \<and> wr (SendGoalResponse (ngh_req_id h) True now) \<and> statuses st' (ngh_goal_id h) = Some Accepted"
proof -
  obtain g where g: "map_of (goals st) (ngh_goal_id h) = Some g" "ag_status g = Unknown"
    using assms by (auto simp: accept_goal_def Let_def split: option.splits if_splits)
  let ?st1 = "st\<lparr>goals := bt_modify (ngh_goal_id h) (\<lambda>g. g\<lparr>ag_status := Accepted, ag_accepted_time := Some now\<rparr>) (goals st)\<rparr>"
  obtain outs where outs: "list_all is_status outs" "sent (publish_statuses wr ?st1) = sent ?st1 @ outs" using publish_sends by blast
  have st': "st' = snd (send wr (SendGoalResponse (ngh_req_id h) True now) (publish_statuses wr ?st1))"
    "wr (SendGoalResponse (ngh_req_id h) True now)"
    using assms g by (auto simp: accept_goal_def Let_def send_def split: if_splits)
  then show ?thesis
    using outs g by (auto simp: send_def statuses_def bt_get_modify intro!: exI [of _ outs])
qed

lemma reject_sends:
  assumes "reject_goal wr now h st = (Ok (), st')"
  shows "sent st' = sent st @ [SendGoalResponse (ngh_req_id h) False now] \<and> wr (SendGoalResponse (ngh_req_id h) False now)"
  using assms by (auto simp: reject_goal_def Let_def send_def split: option.splits if_splits)

lemma finish_sends:
  assumes "finish_goal wr gid i status r st = (Ok (), st')"
  shows "\<exists>outs. list_all is_status outs \<and> sent st' = sent st @ [GetResultResponse i status r] @ outs \<and> wr (GetResultResponse i status r)"
proof -
  have w: "wr (GetResultResponse i status r)"
    "st' = mark_goal_finished gid (publish_statuses wr (snd (send wr (GetResultResponse i status r) (set_status gid status st))))"
    using assms by (auto simp: finish_goal_def Let_def send_def split: option.splits if_splits)
  then obtain outs where "list_all is_status outs" "sent st' = sent (snd (send wr (GetResultResponse i status r) (set_status gid status st))) @ outs"
    using publish_sends [of wr "snd (send wr (GetResultResponse i status r) (set_status gid status st))"] by (auto simp: mark_goal_finished_def)
  with w(1) show ?thesis by (auto simp: send_def set_status_def)
qed

subsection \<open>What the client learns\<close>

lemma send_response_keeps_mapping: "dv_service_mapping (snd (send_response l cdr f i resp v)) = dv_service_mapping v"
  by (auto simp: send_response_def Let_def split: sum.splits option.splits)

lemma enhanced_transmitted:
  assumes "enhanced_action a s"
  shows "enhanced_action a (transmitted l k aw outs s)"
proof -
  have one: "enhanced_action a (snd (transmit l k aw out s))" if "enhanced_action a s" for out s
    using that by (cases out) (auto simp: enhanced_action_def dds_send_goal_response_def send_result_def send_cancel_response_def
        send_goal_statuses_def send_feedback_def send_response_keeps_mapping Let_def case_prod_unfold)
  show ?thesis using assms unfolding transmitted_def by (induction outs arbitrary: s) (simp_all add: one)
qed

lemma goal_answer_reaches:
  assumes "enhanced_action a s" and "action_codecs_lawful k" and "dds_send_goal l k write gid goal a = (Ok (i, gid'), a1)"
    and "answered l i (ac_goal_response k) (my_goal_client a1) others"
    and "list_all is_status outs" and "takes l k aw s (SendGoalResponse i b now)"
  shows "receive_goal_response l (ac_goal_response k) (my_goal_client a1) i
      (others @ Inr (delivered t (last (dv_written (my_goal_server (transmitted l k aw (outs @ [SendGoalResponse i b now]) s)))) d) # rest)
    = (Ok (Some \<lparr>sr_accepted = b, sr_stamp = now\<rparr>), rest)"
proof -
  let ?s = "transmitted l k aw outs s"
  have "transmitted l k aw (outs @ [SendGoalResponse i b now]) s = snd (transmit l k aw (SendGoalResponse i b now) ?s)"
    by (simp add: transmitted_def)
  then show ?thesis
    using goal_exchange(3) [OF enhanced_transmitted [OF assms(1)] assms(2,3)
        takes_goal_response [OF assms(6) transmitted_statuses(1) [OF assms(5)]] assms(4)] by (simp only:)
qed

lemma result_answer_reaches:
  assumes "enhanced_action a s" and "action_codecs_lawful k" and "request_result l k write gid a = (Ok j, a1)"
    and "answered l j (ac_result_response k) (my_result_client a1) others"
    and "list_all is_status outs" and "takes l k aw s (GetResultResponse j status r)"
  shows "receive_result l (ac_result_response k) (my_result_client a1) j
      (others @ Inr (delivered t (last (dv_written (my_result_server (transmitted l k aw ([GetResultResponse j status r] @ outs) s)))) d) # rest)
    = (Ok (Some (status, r)), rest)"
proof -
  have "my_result_server (transmitted l k aw ([GetResultResponse j status r] @ outs) s)
      = my_result_server (snd (transmit l k aw (GetResultResponse j status r) s))"
    using transmitted_statuses(3) [OF assms(5), of l k aw "snd (transmit l k aw (GetResultResponse j status r) s)"]
    by (simp add: transmitted_def)
  then show ?thesis
    using result_exchange(2) [OF assms(1,2,3) takes_result_response [OF assms(6)] assms(4)] by simp
qed

text \<open>C2. With the enhanced service mapping on both sides, the client of an action learns what the application of its
  asynchronous server decides: a goal that is sent is received under its own id, the client's wait for a response returns
  whether it was accepted, with the server's time, exactly as the application answered; and when no request for
  the goal's result was remembered before, the client that asks for the result gets the end status and
  the result the application gave. The responses before these in the client's readers answer other requests.
  Under the other mappings this fails: see \<open>header_mappings_lose_message\<close> and \<open>cyclone_response_not_recognised\<close>.\<close>

theorem client_learns_decision:
  assumes "enhanced_action a s" and "action_codecs_lawful k"
    and "dds_send_goal l k w1 gid goal a = (Ok (i, gid'), a1)"
    and "dds_receive_goal l k s (Ok (Some (delivered t1 (last (dc_written (my_goal_client a1))) (sample_identity_from i)))) = Ok (Some req)"
    and "receive_new_goal [Ok req] st = (Ready (Ok h), st1, left)"
    and "b \<and> accept_goal (takes l k aw s) now h st1 = (Ok ah, st2) \<or> \<not> b \<and> reject_goal (takes l k aw s) now h st1 = (Ok (), st2)"
    and "sent st2 = sent st1 @ outs" and "s1 = transmitted l k aw outs s"
    and "answered l i (ac_goal_response k) (my_goal_client a1) go"
    and "request_result l k w2 gid a1 = (Ok j, a2)"
    and "dds_receive_result l k s1 (Ok (Some (delivered t2 (last (dc_written (my_result_client a2))) (sample_identity_from j)))) = Ok (Some rq)"
    and "map_of (result_requests st3) gid = None"
    and "send_result_response (takes l k aw s1) (ExecutingGoalHandle gid) es res [Ok rq] st3 = (Ready (Ok ()), st4, left')"
    and "sent st4 = sent st3 @ outs'" and "s2 = transmitted l k aw outs' s1"
    and "answered l j (ac_result_response k) (my_result_client a2) ro"
  shows "h = \<lparr>ngh_goal_id = gid, ngh_req_id = i\<rparr>
    \<and> receive_goal_response l (ac_goal_response k) (my_goal_client a1) i
        (go @ Inr (delivered t3 (last (dv_written (my_goal_server s1))) d1) # rest) = (Ok (Some \<lparr>sr_accepted = b, sr_stamp = now\<rparr>), rest)
    \<and> receive_result l (ac_result_response k) (my_result_client a2) j
        (ro @ Inr (delivered t4 (last (dv_written (my_result_server s2))) d2) # rest) = (Ok (Some (end_status es, res)), rest)"
proof (intro conjI)
  have e1: "enhanced_action a1 s" by (rule enhanced_kept(1) [OF assms(1,3)])
  have req: "req = (i, \<lparr>sg_goal_id = gid, sg_goal = goal\<rparr>)"
  proof -
    have sent: "send_request l (ac_goal_request k) w1 \<lparr>sg_goal_id = gid, sg_goal = goal\<rparr> (my_goal_client a) = (Ok i, my_goal_client a1)"
      using assms(3) by (auto simp: dds_send_goal_def Let_def and_then_Ok split: prod.splits)
    show ?thesis
      using enhanced_request_read [OF actionD(7,1,4) [OF assms(1,2)] sent] assms(4,9) by (simp add: dds_receive_goal_def answered_def)
  qed
  show h: "h = \<lparr>ngh_goal_id = gid, ngh_req_id = i\<rparr>"
    using assms(5) by (auto simp: req split: option.splits)
  obtain stats where decided: "list_all is_status stats" "outs = stats @ [SendGoalResponse i b now]" "takes l k aw s (SendGoalResponse i b now)"
    using assms(6,7) accept_sends [of "takes l k aw s" now h st1 ah st2] reject_sends [of "takes l k aw s" now h st1 st2] that [of "[]"]
    by (auto simp: h)
  show "receive_goal_response l (ac_goal_response k) (my_goal_client a1) i
      (go @ Inr (delivered t3 (last (dv_written (my_goal_server s1))) d1) # rest) = (Ok (Some \<lparr>sr_accepted = b, sr_stamp = now\<rparr>), rest)"
    unfolding assms(8) decided(2) by (rule goal_answer_reaches [OF assms(1,2,3,9) decided(1,3)])
  have e2: "enhanced_action a1 s1" unfolding assms(8) by (rule enhanced_transmitted [OF e1])
  have rq: "rq = (j, gid)"
  proof -
    have sent: "send_request l (ac_result_request k) w2 gid (my_result_client a1) = (Ok j, my_result_client a2)"
      using assms(10) by (auto simp: request_result_def Let_def split: prod.splits)
    show ?thesis
      using enhanced_request_read [OF actionD(11,3,6) [OF e2 assms(2)] sent] assms(11,16) by (simp add: dds_receive_result_def answered_def)
  qed
  have "finish_goal (takes l k aw s1) gid j (end_status es) res st3 = (Ok (), st4)"
    using assms(12,13) by (auto simp: rq find_result_request_def Let_def split: prod.splits)
  then obtain stats' where ended: "list_all is_status stats'" "outs' = [GetResultResponse j (end_status es) res] @ stats'"
    "takes l k aw s1 (GetResultResponse j (end_status es) res)"
    using finish_sends assms(14) by (metis same_append_eq)
  show "receive_result l (ac_result_response k) (my_result_client a2) j
      (ro @ Inr (delivered t4 (last (dv_written (my_result_server s2))) d2) # rest) = (Ok (Some (end_status es, res)), rest)"
    unfolding assms(15) ended(2) by (rule result_answer_reaches [OF e2 assms(2,10,16) ended(1,3)])
qed

definition tiny_writers :: "byte action_writers" where
  "tiny_writers = \<lparr>aw_goal = tiny_write, aw_cancel = tiny_write, aw_result = tiny_write, aw_feedback = (\<lambda>_. True), aw_status = (\<lambda>_. True)\<rparr>"

lemma tiny_takes:
  assumes "enhanced_action a s"
  shows "takes fixed_lib tiny_codecs tiny_writers s (StatusArray ss)"
    and "takes fixed_lib tiny_codecs tiny_writers s (SendGoalResponse i True BI_TIME_ZERO)"
    and "takes fixed_lib tiny_codecs tiny_writers s (GetResultResponse i Succeeded r)"
  using actionD(4,6) [OF assms tiny_action(2)]
  by (simp_all add: takes_def send_goal_statuses_def dds_publish_def tiny_writers_def tiny_simps)

theorem client_learns_decision_witness:
  "\<exists>i a1 h st1 ah st2 outs. dds_send_goal fixed_lib tiny_codecs tiny_write 5 7 tiny_client = (Ok (i, 5), a1)
     \<and> receive_new_goal [Ok (i, \<lparr>sg_goal_id = 5, sg_goal = (7 :: byte)\<rparr>)] action_server_new = (Ready (Ok h), st1, [])
     \<and> accept_goal (takes fixed_lib tiny_codecs tiny_writers tiny_server) BI_TIME_ZERO h st1 = (Ok ah, st2) \<and> sent st2 = sent st1 @ outs
     \<and> receive_goal_response fixed_lib (ac_goal_response tiny_codecs) (my_goal_client a1) i
        [Inr (delivered None (last (dv_written (my_goal_server (transmitted fixed_lib tiny_codecs tiny_writers outs tiny_server))))
          \<lparr>si_writer_guid = replicate 16 4, si_sequence_number = 1\<rparr>)]
       = (Ok (Some \<lparr>sr_accepted = True, sr_stamp = BI_TIME_ZERO\<rparr>), [])"
proof -
  let ?i = "\<lparr>rr_writer_guid = replicate 16 4, rr_sequence_number = 1\<rparr>" and ?req = "\<lparr>sg_goal_id = 5, sg_goal = 7\<rparr>"
  let ?h = "\<lparr>ngh_goal_id = 5, ngh_req_id = ?i\<rparr>" and ?wr = "takes fixed_lib tiny_codecs tiny_writers tiny_server"
  obtain a1 where g: "dds_send_goal fixed_lib tiny_codecs tiny_write 5 7 tiny_client = (Ok (?i, 5), a1)"
    "dc_service_mapping (my_result_client a1) = Enhanced"
    by (simp add: tiny_simps)
  have goal_sent: "send_request fixed_lib (ac_goal_request tiny_codecs) tiny_write ?req (my_goal_client tiny_client) = (Ok ?i, my_goal_client a1)"
    using g(1) by (auto simp: dds_send_goal_def Let_def and_then_Ok split: prod.splits)
  have known: "rr_sequence_number ?i \<noteq> sn_unknown fixed_lib" by (simp add: fixed_lib_def)
  note read = enhanced_request_read [OF actionD(7,1,4) [OF tiny_action] goal_sent known, where stamp = None, folded dds_receive_goal_def]
  obtain st1 where n: "receive_new_goal [Ok (?i, ?req)] action_server_new = (Ready (Ok ?h), st1 :: (byte, byte, byte) action_server, [])"
    "goals st1 = [(5, \<lparr>ag_status = Unknown, ag_accepted_time = None, ag_goal = 7\<rparr>)]"
    by (simp add: action_server_new_def)
  obtain st2 where acc: "accept_goal ?wr BI_TIME_ZERO ?h st1 = (Ok (AcceptedGoalHandle 5), st2)"
    using n(2) tiny_takes [OF tiny_action(1)] by (simp add: accept_goal_def send_def Let_def)
  obtain outs where outs: "sent st2 = sent st1 @ outs" using accept_sends [OF acc] by blast
  let ?s1 = "transmitted fixed_lib tiny_codecs tiny_writers outs tiny_server"
  have e: "enhanced_action a1 ?s1" by (rule enhanced_transmitted [OF enhanced_kept(1) [OF tiny_action(1) g(1)]])
  obtain a2 where r: "request_result fixed_lib tiny_codecs tiny_write 5 a1 = (Ok ?i, a2)"
    using g(2) by (simp add: tiny_simps)
  have result_sent: "send_request fixed_lib (ac_result_request tiny_codecs) tiny_write 5 (my_result_client a1) = (Ok ?i, my_result_client a2)"
    using r by (auto simp: request_result_def Let_def split: prod.splits)
  note read' = enhanced_request_read [OF actionD(11,3,6) [OF e tiny_action(2)] result_sent known, where stamp = None, folded dds_receive_result_def]
  let ?st3 = "\<lparr>goals = [(5, \<lparr>ag_status = Executing, ag_accepted_time = Some BI_TIME_ZERO, ag_goal = 7\<rparr>)], finished_goals = [], result_requests = [], sent = []\<rparr>
    :: (byte, byte, byte) action_server"
  obtain st4 where f: "send_result_response (takes fixed_lib tiny_codecs tiny_writers ?s1) (ExecutingGoalHandle 5) EndSucceeded 9 [Ok (?i, 5)] ?st3
      = (Ready (Ok ()), st4, [])"
    using tiny_takes [OF e] by (simp add: find_result_request_def finish_goal_def send_def Let_def)
  have sent4: "sent st4 = sent ?st3 @ sent st4" by simp
  have ans: "answered fixed_lib ?i cdr cl []" for cdr :: "'x dds_cdr" and cl using known by (simp add: answered_def)
  have none: "map_of (result_requests ?st3) 5 = None" by simp
  show ?thesis
    using client_learns_decision [where b = True and rest = "[]", OF tiny_action g(1) read n(1) disjI1 [OF conjI [OF TrueI acc]] outs refl ans r read'
        none f sent4 refl ans] g(1) n(1) acc outs
    unfolding append_Nil by blast
qed

end
