(* ===== verification/Logging.thy ===== *)
theory Logging
  imports Zenoh_Pubsub Dds_Pubsub Ros_Times
begin

text \<open>
  Logging to the topic \<open>rosout\<close>: the levels (\<open>log.rs\<close>), the logger of the Zenoh backend
  (\<open>zenoh_backend/rosout.rs\<close>) and \<open>rosout_raw\<close> of the DDS backend (\<open>rosout.rs\<close>). The tracing output is
  left out.
\<close>

datatype log_level = Fatal | Error | Warn | Info | Debug

fun log_level_repr :: "log_level \<Rightarrow> 8 word" where
  "log_level_repr Fatal = 50"
| "log_level_repr Error = 40"
| "log_level_repr Warn = 30"
| "log_level_repr Info = 20"
| "log_level_repr Debug = 10"

text \<open>A log record; its time stamp is the backend's.\<close>

record 't log_record =
  lg_stamp :: 't
  lg_level :: "8 word"
  lg_name :: string
  lg_msg :: string
  lg_file :: string
  lg_function :: string
  lg_line :: "32 word"

subsection \<open>The Zenoh logger\<close>

record zenoh_logger =
  zl_node_name :: string
  zl_publisher :: zenoh_publisher

definition logger_new :: "string \<Rightarrow> zenoh_publisher \<Rightarrow> zenoh_logger" where
  "logger_new node_name publisher = \<lparr>zl_node_name = node_name, zl_publisher = publisher\<rparr>"

definition log_at :: "overflow_mode \<Rightarrow> zserde \<Rightarrow> bi_time log_record cdr_encoding \<Rightarrow> (zenoh_sample \<Rightarrow> bool) \<Rightarrow> duration option \<Rightarrow> bi_time \<Rightarrow>
    log_level \<Rightarrow> string \<Rightarrow> string \<Rightarrow> string \<Rightarrow> 32 word \<Rightarrow> zenoh_logger \<Rightarrow> zenoh_logger" where
  "log_at mode z cdr put_ok now stamp level msg file function line l =
     (let record = \<lparr>lg_stamp = stamp, lg_level = log_level_repr level, lg_name = zl_node_name l, lg_msg = msg, lg_file = file,
                    lg_function = function, lg_line = line\<rparr>
      in l\<lparr>zl_publisher := snd (publish mode z cdr put_ok now record (zl_publisher l))\<rparr>)"

text \<open>\<open>debug\<close>, \<open>info\<close>, \<open>warn\<close>, \<open>error\<close> and \<open>fatal\<close>: a record without a source location.\<close>

definition log_plain :: "overflow_mode \<Rightarrow> zserde \<Rightarrow> bi_time log_record cdr_encoding \<Rightarrow> (zenoh_sample \<Rightarrow> bool) \<Rightarrow> duration option \<Rightarrow> bi_time \<Rightarrow>
    log_level \<Rightarrow> string \<Rightarrow> zenoh_logger \<Rightarrow> zenoh_logger" where
  "log_plain mode z cdr put_ok now stamp level msg l = log_at mode z cdr put_ok now stamp level msg [] [] 0 l"

subsection \<open>The DDS logger\<close>

record 't logging_handle =
  lh_rosout_writer :: "'t log_record dds_publisher option"
  lh_base_name :: string

definition rosout_raw :: "('t log_record \<Rightarrow> bool) \<Rightarrow> 't \<Rightarrow> log_level \<Rightarrow> string \<Rightarrow> string \<Rightarrow> string \<Rightarrow> string \<Rightarrow> 32 word \<Rightarrow>
    't logging_handle \<Rightarrow> 't logging_handle" where
  "rosout_raw write timestamp level log_name log_msg source_file source_function source_line h =
     (case lh_rosout_writer h of
        None \<Rightarrow> h
      | Some rosout_writer \<Rightarrow>
          h\<lparr>lh_rosout_writer := Some (snd (dds_publish write
            \<lparr>lg_stamp = timestamp, lg_level = log_level_repr level, lg_name = log_name, lg_msg = log_msg, lg_file = source_file,
             lg_function = source_function, lg_line = source_line\<rparr> rosout_writer))\<rparr>)"

subsection \<open>Lemmas\<close>

lemma log_level_repr_inj: "log_level_repr a = log_level_repr b \<longleftrightarrow> a = b"
  by (cases a; cases b) simp_all

text \<open>Logging keeps the handle's name and its publisher's identity, whatever the transport does.\<close>

lemma rosout_raw_keeps:
  "lh_base_name (rosout_raw write ts level name msg file func line h) = lh_base_name h"
  "map_option dp_guid (lh_rosout_writer (rosout_raw write ts level name msg file func line h)) = map_option dp_guid (lh_rosout_writer h)"
  by (simp_all add: rosout_raw_def dds_publish_def split: option.splits)

end
