(* ===== verification/Wide_String.thy ===== *)
theory Wide_String
  imports Rust_Prelude "HOL-Library.Word"
begin

text \<open>
  Wide strings (\<open>wide_string.rs\<close>): UTF-16 code units with hand-written serialization. The format is an
  argument: how it writes and reads the length of a sequence, a \<open>u16\<close> and a \<open>char\<close>. A character is its
  code point.
\<close>

record wire_format =
  wf_len :: "nat \<Rightarrow> 8 word list option"
  wf_u16 :: "16 word \<Rightarrow> 8 word list option"
  wf_read_len :: "8 word list \<Rightarrow> (nat \<times> 8 word list) option"
  wf_read_char :: "8 word list \<Rightarrow> (nat \<times> 8 word list) option"

record wstring =
  ws_inner :: "16 word list"

definition wstring_new :: wstring where
  "wstring_new = \<lparr>ws_inner = []\<rparr>"

text \<open>\<open>char::encode_utf16\<close>, by which a character is pushed.\<close>

definition utf16_units :: "nat \<Rightarrow> 16 word list" where
  "utf16_units c =
     (if c < 0x10000 then [of_nat c]
      else [of_nat (0xD800 + (c - 0x10000) div 0x400), of_nat (0xDC00 + (c - 0x10000) mod 0x400)])"

definition wstring_push :: "nat \<Rightarrow> wstring \<Rightarrow> wstring" where
  "wstring_push c s = s\<lparr>ws_inner := ws_inner s @ utf16_units c\<rparr>"

fun write_units :: "wire_format \<Rightarrow> 16 word list \<Rightarrow> 8 word list option" where
  "write_units f [] = Some []"
| "write_units f (e # es) = Option.bind (wf_u16 f e) (\<lambda>b. map_option (\<lambda>bs. b @ bs) (write_units f es))"

definition wstring_serialize :: "wire_format \<Rightarrow> wstring \<Rightarrow> 8 word list option" where
  "wstring_serialize f s =
     Option.bind (wf_len f (length (ws_inner s))) (\<lambda>l. map_option (\<lambda>bs. l @ bs) (write_units f (ws_inner s)))"

text \<open>The visitor pushes the elements of the sequence, whose type is that of what can be pushed: \<open>char\<close>.\<close>

fun visit_seq :: "wire_format \<Rightarrow> nat \<Rightarrow> 8 word list \<Rightarrow> wstring \<Rightarrow> (wstring \<times> 8 word list) option" where
  "visit_seq f 0 bs inner = Some (inner, bs)"
| "visit_seq f (Suc n) bs inner = (case wf_read_char f bs of None \<Rightarrow> None | Some (wc, rest) \<Rightarrow> visit_seq f n rest (wstring_push wc inner))"

definition wstring_deserialize :: "wire_format \<Rightarrow> 8 word list \<Rightarrow> (wstring \<times> 8 word list) option" where
  "wstring_deserialize f bs = (case wf_read_len f bs of None \<Rightarrow> None | Some (n, rest) \<Rightarrow> visit_seq f n rest wstring_new)"

text \<open>What is assumed of the format: a length is read back, a \<open>u16\<close> takes two bytes and a \<open>char\<close> four.\<close>

definition binary_format :: "wire_format \<Rightarrow> bool" where
  "binary_format f \<longleftrightarrow>
     (\<forall>n l rest. wf_len f n = Some l \<longrightarrow> wf_read_len f (l @ rest) = Some (n, rest))
     \<and> (\<forall>u b. wf_u16 f u = Some b \<longrightarrow> length b = 2)
     \<and> (\<forall>bs c rest. wf_read_char f bs = Some (c, rest) \<longrightarrow> 4 \<le> length bs \<and> rest = drop 4 bs)"

lemma binary_formatD:
  assumes "binary_format f"
  shows "wf_len f n = Some l \<Longrightarrow> wf_read_len f (l @ rest) = Some (n, rest)"
    and "wf_u16 f u = Some b \<Longrightarrow> length b = 2"
    and "wf_read_char f bs = Some (c, rest) \<Longrightarrow> 4 \<le> length bs \<and> rest = drop 4 bs"
  using assms unfolding binary_format_def by blast+

lemma write_units_length:
  assumes "binary_format f" and "write_units f es = Some b"
  shows "length b = 2 * length es"
  using assms(2)
proof (induction es arbitrary: b)
  case (Cons e es)
  then obtain u v where "wf_u16 f e = Some u" "write_units f es = Some v" "b = u @ v"
    by (auto simp: bind_eq_Some_conv)
  with Cons.IH binary_formatD(2) [OF assms(1)] show ?case by simp
qed simp

lemma visit_seq_consumes:
  assumes "binary_format f" and "visit_seq f n bs inner = Some (s, rest)"
  shows "4 * n \<le> length bs \<and> rest = drop (4 * n) bs"
  using assms(2)
proof (induction n arbitrary: bs inner)
  case (Suc n)
  then obtain c r where c: "wf_read_char f bs = Some (c, r)" "visit_seq f n r (wstring_push c inner) = Some (s, rest)"
    by (auto split: option.splits)
  then have "4 \<le> length bs" "r = drop 4 bs" using binary_formatD(3) [OF assms(1)] by blast+
  with Suc.IH [OF c(2)] show ?case by (auto simp: add.commute)
qed simp

text \<open>A wide string is written as UTF-16 units and read as characters: in a binary format, where a
  unit takes two bytes and a character four, a wide string with something in it cannot be read back;
  what follows it in the message is taken for the missing half, and reading goes on two bytes per unit
  too late, or fails when less follows.\<close>

lemma wide_string_overreads:
  assumes "binary_format f" and "wstring_serialize f s = Some b"
  shows "(\<forall>rest s' rest'. wstring_deserialize f (b @ rest) = Some (s', rest') \<longrightarrow>
      2 * length (ws_inner s) \<le> length rest \<and> rest' = drop (2 * length (ws_inner s)) rest)
    \<and> (ws_inner s \<noteq> [] \<longrightarrow> wstring_deserialize f b = None)"
proof -
  let ?n = "length (ws_inner s)"
  obtain l u where b: "wf_len f ?n = Some l" "write_units f (ws_inner s) = Some u" "b = l @ u"
    using assms(2) by (auto simp: wstring_serialize_def bind_eq_Some_conv)
  have len: "length u = 2 * ?n" "\<And>r. wf_read_len f (l @ r) = Some (?n, r)"
    using write_units_length [OF assms(1) b(2)] binary_formatD(1) [OF assms(1) b(1)] .
  have over: "2 * ?n \<le> length r \<and> r' = drop (2 * ?n) r" if "wstring_deserialize f (b @ r) = Some (t, r')" for r t r'
    using visit_seq_consumes [OF assms(1), of ?n "u @ r" wstring_new t r'] that len b(3)
    by (simp add: wstring_deserialize_def)
  then show ?thesis using over [of "[]"] by (cases "wstring_deserialize f b") auto
qed

text \<open>A little-endian format as CDR is.\<close>

definition le_format :: wire_format where
  "le_format =
     \<lparr>wf_len = (\<lambda>n. if n < 256 then Some [of_nat n, 0, 0, 0] else None),
      wf_u16 = (\<lambda>u. Some [ucast u, ucast (drop_bit 8 u)]),
      wf_read_len = (\<lambda>bs. case bs of a # _ # _ # _ # rest \<Rightarrow> Some (unat a, rest) | _ \<Rightarrow> None),
      wf_read_char = (\<lambda>bs. case bs of a # b # c # _ # rest \<Rightarrow> Some (unat a + 256 * unat b + 65536 * unat c, rest) | _ \<Rightarrow> None)\<rparr>"

lemma binary_le_format: "binary_format le_format"
  by (auto simp: binary_format_def le_format_def unat_of_nat split: list.splits if_splits)

lemma wide_string_overreads_witness:
  "\<exists>b. wstring_serialize le_format \<lparr>ws_inner = [0x68, 0x69]\<rparr> = Some b \<and> wstring_deserialize le_format b = None"
proof -
  obtain b where b: "wstring_serialize le_format \<lparr>ws_inner = [0x68, 0x69]\<rparr> = Some b"
    by (simp add: wstring_serialize_def le_format_def)
  show ?thesis using wide_string_overreads [OF binary_le_format b] b by simp
qed

end
