(* ===== verification/Msg_Generator.thy ===== *)
theory Msg_Generator
  imports Rust_Numbers "HOL-Library.AList" "HOL-Library.Sublist" "HOL-Library.Word"
begin

text \<open>
  The printer of the message generator (\<open>bin/msggen/main.rs\<close>): from the items of a parsed interface
  file (the types of \<open>bin/msggen/parser.rs\<close>) to a Rust module. The parser is an argument here, and so
  are the writer, the creation of files and the printing of \<open>f64\<close>. A panic is an error of its own.
\<close>

subsection \<open>Items of an interface file\<close>

datatype msg_comment = MsgComment string

datatype base_type_name =
    Primitive string
  | BoundedString "64 word"
  | ComplexType "string option" string

datatype array_specifier = ArrayStatic "64 word" | ArrayUnbounded | ArrayBounded "64 word"

record msg_type_name =
  tn_base :: base_type_name
  tn_array_spec :: "array_specifier option"

text \<open>A float is its bits.\<close>

datatype msg_value = ValueBool bool | ValueFloat "64 word" | ValueInt int | ValueUint "64 word" | ValueString string

datatype msg_item =
    Field msg_type_name string "msg_value option"
  | Constant msg_type_name string msg_value

type_synonym msg_line = "msg_item option \<times> msg_comment option"

subsection \<open>Writing\<close>

datatype gen_error = GenIo | GenPanic

type_synonym writer = "string \<Rightarrow> string \<Rightarrow> bool \<times> string"
type_synonym 'a gen_op = "string \<Rightarrow> (gen_error + 'a) \<times> string"

definition gen_return :: "'a \<Rightarrow> 'a gen_op" where
  "gen_return x out = (Ok x, out)"

definition gen_lift :: "gen_error + 'a \<Rightarrow> 'a gen_op" where
  "gen_lift r out = (r, out)"

definition gen_bind :: "'a gen_op \<Rightarrow> ('a \<Rightarrow> 'b gen_op) \<Rightarrow> 'b gen_op" where
  "gen_bind m f out = (case m out of (Inl e, out') \<Rightarrow> (Err e, out') | (Inr x, out') \<Rightarrow> f x out')"

definition gen_then :: "unit gen_op \<Rightarrow> 'b gen_op \<Rightarrow> 'b gen_op" where
  "gen_then m k = gen_bind m (\<lambda>_. k)"

definition write_text :: "writer \<Rightarrow> string \<Rightarrow> unit gen_op" where
  "write_text w text out = (case w out text of (ok, out') \<Rightarrow> (if ok then Ok () else Err GenIo, out'))"

definition writeln_text :: "writer \<Rightarrow> string \<Rightarrow> unit gen_op" where
  "writeln_text w text = write_text w (text @ [CHR 0x0A])"

fun gen_for :: "('a \<Rightarrow> unit gen_op) \<Rightarrow> 'a list \<Rightarrow> unit gen_op" where
  "gen_for f [] = gen_return ()"
| "gen_for f (x # xs) = gen_then (f x) (gen_for f xs)"

text \<open>The contract of \<open>write_all\<close>: success has appended the text, a failure some beginning of it.\<close>

definition writer_lawful :: "writer \<Rightarrow> bool" where
  "writer_lawful w \<longleftrightarrow> (\<forall>out text. case w out text of (ok, out') \<Rightarrow>
     (\<exists>p. prefix p text \<and> out' = out @ p) \<and> (ok \<longrightarrow> out' = out @ text))"

subsection \<open>UTF-8\<close>

definition byte_in :: "char \<Rightarrow> nat \<Rightarrow> nat \<Rightarrow> bool" where
  "byte_in c lo hi \<longleftrightarrow> lo \<le> of_char c \<and> of_char c \<le> hi"

text \<open>\<open>String::from_utf8\<close> accepts the well-formed sequences: no overlong form, no surrogate, nothing above
  \<open>0x10FFFF\<close>.\<close>

fun utf8_valid :: "string \<Rightarrow> bool" where
  "utf8_valid [] = True"
| "utf8_valid (a # s) =
     (if byte_in a 0 0x7F then utf8_valid s
      else case s of
        [] \<Rightarrow> False
      | b # s2 \<Rightarrow>
          if byte_in a 0xC2 0xDF then byte_in b 0x80 0xBF \<and> utf8_valid s2
          else case s2 of
            [] \<Rightarrow> False
          | c # s3 \<Rightarrow>
              if byte_in a 0xE0 0xEF
              then byte_in b (if byte_in a 0xE0 0xE0 then 0xA0 else 0x80) (if byte_in a 0xED 0xED then 0x9F else 0xBF)
                \<and> byte_in c 0x80 0xBF \<and> utf8_valid s3
              else case s3 of
                [] \<Rightarrow> False
              | d # s4 \<Rightarrow> byte_in a 0xF0 0xF4
                  \<and> byte_in b (if byte_in a 0xF0 0xF0 then 0x90 else 0x80) (if byte_in a 0xF4 0xF4 then 0x8F else 0xBF)
                  \<and> byte_in c 0x80 0xBF \<and> byte_in d 0x80 0xBF \<and> utf8_valid s4)"

subsection \<open>Translation\<close>

definition escape_keywords :: "string \<Rightarrow> string" where
  "escape_keywords ident = (if ident = ''type'' then ''r#'' @ ident else ident)"

definition RUST_BYTESTRING :: string where "RUST_BYTESTRING = ''String''"

definition RUST_WIDE_STRING :: string where "RUST_WIDE_STRING = ''WString''"

definition primitive_names :: "(string \<times> string) list" where
  "primitive_names =
     [(''bool'', ''bool''), (''byte'', ''u8''), (''char'', ''u8''), (''float32'', ''f32''), (''float64'', ''f64''),
      (''int8'', ''i8''), (''int16'', ''i16''), (''int32'', ''i32''), (''int64'', ''i64''), (''uint8'', ''u8''),
      (''uint16'', ''u16''), (''uint32'', ''u32''), (''uint64'', ''u64''), (''string'', RUST_BYTESTRING),
      (''wstring'', RUST_WIDE_STRING)]"

fun translate_base :: "base_type_name \<Rightarrow> gen_error + string" where
  "translate_base (Primitive name) = (case map_of primitive_names name of Some t \<Rightarrow> Ok t | None \<Rightarrow> Err GenPanic)"
| "translate_base (BoundedString bound) = Ok RUST_BYTESTRING"
| "translate_base (ComplexType package_name type_name) =
     Ok ((case package_name of Some pkg \<Rightarrow> ''super::'' @ pkg @ ''::'' | None \<Rightarrow> []) @ type_name)"

definition translate_type :: "msg_type_name \<Rightarrow> gen_error + string" where
  "translate_type t =
     and_then (translate_base (tn_base t)) (\<lambda>base.
       Ok (case tn_array_spec t of
             None \<Rightarrow> base
           | Some (ArrayStatic n) \<Rightarrow> ''['' @ base @ '';'' @ show_nat (unat n) @ '']''
           | Some ArrayUnbounded \<Rightarrow> ''Vec<'' @ base @ ''>''
           | Some (ArrayBounded bound) \<Rightarrow> ''Vec<'' @ base @ ''>''))"

fun translate_value :: "(64 word \<Rightarrow> string) \<Rightarrow> msg_value \<Rightarrow> gen_error + string" where
  "translate_value show_f64 (ValueBool b) = Ok (if b then ''true'' else ''false'')"
| "translate_value show_f64 (ValueFloat f) = Ok (show_f64 f)"
| "translate_value show_f64 (ValueInt i) = Ok (show_int i)"
| "translate_value show_f64 (ValueUint u) = Ok (show_nat (unat u))"
| "translate_value show_f64 (ValueString v) = (if utf8_valid v then Ok v else Err GenPanic)"

subsection \<open>The printer\<close>

fun is_not_field :: "msg_item \<Rightarrow> bool" where
  "is_not_field (Field _ _ _) = False"
| "is_not_field (Constant _ _ _) = True"

definition before_fields :: "msg_line \<Rightarrow> bool" where
  "before_fields p \<longleftrightarrow> (case fst p of None \<Rightarrow> True | Some i \<Rightarrow> is_not_field i)"

definition end_line :: "writer \<Rightarrow> msg_comment option \<Rightarrow> unit gen_op" where
  "end_line w comment_opt = (case comment_opt of Some (MsgComment c) \<Rightarrow> writeln_text w (''// '' @ c) | None \<Rightarrow> writeln_text w [])"

fun print_not_yet :: "(64 word \<Rightarrow> string) \<Rightarrow> writer \<Rightarrow> msg_line \<Rightarrow> unit gen_op" where
  "print_not_yet sf w (None, None) = writeln_text w []"
| "print_not_yet sf w (None, Some (MsgComment c)) = writeln_text w (''// '' @ c)"
| "print_not_yet sf w (Some (Field _ _ _), comment_opt) = gen_lift (Err GenPanic)"
| "print_not_yet sf w (Some (Constant type_name const_name v), comment_opt) =
     gen_bind (gen_lift (translate_type type_name)) (\<lambda>rust_type.
     gen_bind (gen_lift (translate_value sf v)) (\<lambda>rust_value.
     gen_then (write_text w (''pub const '' @ const_name @ '' : '' @ rust_type @ '' = '' @ rust_value @ '';''))
       (end_line w comment_opt)))"

fun print_got_field :: "writer \<Rightarrow> msg_line \<Rightarrow> unit gen_op" where
  "print_got_field w (None, None) = writeln_text w []"
| "print_got_field w (None, Some (MsgComment c)) = writeln_text w (''  // '' @ c)"
| "print_got_field w (Some (Field type_name field_name _), comment_opt) =
     gen_then (write_text w ''  pub '')
    (gen_then (gen_bind (gen_lift (translate_type type_name)) (\<lambda>rust_type.
                 write_text w (escape_keywords field_name @ '' : '' @ rust_type @ '', '')))
       (end_line w comment_opt))"
| "print_got_field w (Some (Constant _ const_name _), comment_opt) =
     gen_then (write_text w ''  pub '')
    (gen_then (write_text w (''// skipped constant '' @ const_name @ '' in the middle of struct''))
       (end_line w comment_opt))"

definition print_struct_definition :: "(64 word \<Rightarrow> string) \<Rightarrow> writer \<Rightarrow> string \<Rightarrow> msg_line list \<Rightarrow> unit gen_op" where
  "print_struct_definition sf w name lines =
     (let not_yet = takeWhile before_fields lines; got_field = dropWhile before_fields lines
      in gen_then (gen_for (print_not_yet sf w) not_yet)
        (gen_then (writeln_text w [])
        (gen_then (writeln_text w ''#[derive(Debug, Serialize, Deserialize)]'')
        (gen_then (writeln_text w (''pub struct '' @ name @ '' {''))
        (gen_then (gen_for (print_got_field w) got_field)
                  (writeln_text w ''}''))))))"

subsection \<open>The text of a module\<close>

definition text_or :: "gen_error + string \<Rightarrow> string" where
  "text_or r = (case r of Inr t \<Rightarrow> t | Inl _ \<Rightarrow> [])"

definition end_text :: "msg_comment option \<Rightarrow> string" where
  "end_text comment_opt = (case comment_opt of Some (MsgComment c) \<Rightarrow> ''// '' @ c | None \<Rightarrow> []) @ [CHR 0x0A]"

fun const_text :: "(64 word \<Rightarrow> string) \<Rightarrow> msg_line \<Rightarrow> string" where
  "const_text sf (Some (Constant t n v), c) =
     ''pub const '' @ n @ '' : '' @ text_or (translate_type t) @ '' = '' @ text_or (translate_value sf v) @ '';'' @ end_text c"
| "const_text sf (_, c) = end_text c"

fun field_text :: "msg_line \<Rightarrow> string" where
  "field_text (Some (Field t n _), c) = ''  pub '' @ escape_keywords n @ '' : '' @ text_or (translate_type t) @ '', '' @ end_text c"
| "field_text (Some (Constant _ n _), c) = ''  pub // skipped constant '' @ n @ '' in the middle of struct'' @ end_text c"
| "field_text (None, None) = end_text None"
| "field_text (None, Some c) = ''  '' @ end_text (Some c)"

definition struct_text :: "(64 word \<Rightarrow> string) \<Rightarrow> string \<Rightarrow> msg_line list \<Rightarrow> string" where
  "struct_text sf name lines =
     concat (map (const_text sf) (takeWhile before_fields lines))
     @ [CHR 0x0A] @ ''#[derive(Debug, Serialize, Deserialize)]'' @ [CHR 0x0A] @ ''pub struct '' @ name @ '' {'' @ [CHR 0x0A]
     @ concat (map field_text (dropWhile before_fields lines)) @ ''}'' @ [CHR 0x0A]"

fun known_type :: "msg_type_name \<Rightarrow> bool" where
  "known_type t = (case tn_base t of Primitive n \<Rightarrow> n \<in> fst ` set primitive_names | _ \<Rightarrow> True)"

fun known_value :: "msg_value \<Rightarrow> bool" where
  "known_value (ValueString v) = utf8_valid v"
| "known_value _ = True"

fun known_constant :: "msg_line \<Rightarrow> bool" where
  "known_constant (Some (Constant t _ v), _) \<longleftrightarrow> known_type t \<and> known_value v"
| "known_constant _ = True"

fun known_field :: "msg_line \<Rightarrow> bool" where
  "known_field (Some (Field t _ _), _) \<longleftrightarrow> known_type t"
| "known_field _ = True"

text \<open>What can be translated: every constant before the first field and every field after.\<close>

definition translatable :: "msg_line list \<Rightarrow> bool" where
  "translatable lines \<longleftrightarrow> list_all known_constant (takeWhile before_fields lines) \<and> list_all known_field (dropWhile before_fields lines)"

subsection \<open>What a printing operation emits\<close>

text \<open>An operation emits a text under a condition when its output is a beginning of the text, all of it on
  success, and it panics exactly where the condition fails.\<close>

definition emits :: "unit gen_op \<Rightarrow> string \<Rightarrow> bool \<Rightarrow> bool" where
  "emits m text ok \<longleftrightarrow> (\<forall>out r out'. m out = (r, out') \<longrightarrow>
     (\<exists>p. prefix p text \<and> out' = out @ p)
     \<and> (r = Ok () \<longrightarrow> out' = out @ text \<and> ok) \<and> (r = Err GenPanic \<longrightarrow> \<not> ok))"

lemma emits_return: "emits (gen_return ()) [] True"
  by (simp add: emits_def gen_return_def)

lemma emits_panic: "emits (gen_lift (Err GenPanic)) text False"
  by (auto simp: emits_def gen_lift_def)

lemma emits_write:
  assumes "writer_lawful w"
  shows "emits (write_text w text) text True" and "emits (writeln_text w text) (text @ [CHR 0x0A]) True"
proof -
  have "emits (write_text w t) t True" for t
    using assms unfolding emits_def write_text_def writer_lawful_def by (fastforce split: prod.splits if_splits)
  then show "emits (write_text w text) text True" "emits (writeln_text w text) (text @ [CHR 0x0A]) True"
    by (simp_all add: writeln_text_def)
qed

lemma emits_then:
  assumes "emits m t ok" and "emits k u ok'"
  shows "emits (gen_then m k) (t @ u) (ok \<and> ok')"
  unfolding emits_def
proof (intro allI impI)
  fix out r out' assume run: "gen_then m k out = (r, out')"
  obtain r1 out1 where m: "m out = (r1, out1)" by fastforce
  then have first: "\<exists>p. prefix p t \<and> out1 = out @ p" "r1 = Ok () \<Longrightarrow> out1 = out @ t \<and> ok" "r1 = Err GenPanic \<Longrightarrow> \<not> ok"
    using assms(1) by (auto simp: emits_def)
  show "(\<exists>p. prefix p (t @ u) \<and> out' = out @ p) \<and> (r = Ok () \<longrightarrow> out' = out @ t @ u \<and> ok \<and> ok') \<and> (r = Err GenPanic \<longrightarrow> \<not> (ok \<and> ok'))"
  proof (cases r1)
    case (Inl e)
    then show ?thesis using run m first by (auto simp: gen_then_def gen_bind_def)
  next
    case (Inr x)
    then have "k (out @ t) = (r, out')" using run m first(2) by (simp add: gen_then_def gen_bind_def)
    then have "\<exists>p. prefix p u \<and> out' = (out @ t) @ p" "r = Ok () \<Longrightarrow> out' = (out @ t) @ u \<and> ok'" "r = Err GenPanic \<Longrightarrow> \<not> ok'"
      using assms(2) unfolding emits_def by blast+
    then show ?thesis using first(2) Inr by (auto simp: append.assoc)
  qed
qed

lemma emits_lift:
  assumes "r \<noteq> Err GenIo" and "\<And>x. r = Ok x \<Longrightarrow> emits (k x) text ok"
  shows "emits (gen_bind (gen_lift r) k) text (ok \<and> (\<exists>x. r = Ok x))"
proof (cases r)
  case (Inl e)
  then have "e = GenPanic" using assms(1) by (cases e) simp_all
  then show ?thesis using Inl by (auto simp: emits_def gen_bind_def gen_lift_def)
next
  case (Inr x)
  then show ?thesis using assms(2) [of x] by (simp add: emits_def gen_bind_def gen_lift_def)
qed

lemma emits_for:
  assumes "\<And>x. x \<in> set xs \<Longrightarrow> emits (f x) (text x) (ok x)"
  shows "emits (gen_for f xs) (concat (map text xs)) (list_all ok xs)"
  using assms by (induction xs) (auto simp: emits_return intro!: emits_then)

lemma translate_known:
  "(\<exists>x. translate_type t = Ok x) \<longleftrightarrow> known_type t" "translate_type t \<noteq> Err GenIo"
  "(\<exists>x. translate_value sf v = Ok x) \<longleftrightarrow> known_value v" "translate_value sf v \<noteq> Err GenIo"
proof -
  have base: "translate_base b = Err GenPanic \<and> \<not> known_type \<lparr>tn_base = b, tn_array_spec = s\<rparr>
      \<or> (\<exists>x. translate_base b = Ok x) \<and> known_type \<lparr>tn_base = b, tn_array_spec = s\<rparr>" for b s
    by (cases b) (auto split: option.splits simp: map_of_eq_None_iff dest: map_of_SomeD intro: rev_image_eqI)
  show "(\<exists>x. translate_type t = Ok x) \<longleftrightarrow> known_type t" "translate_type t \<noteq> Err GenIo"
    using base [of "tn_base t" "tn_array_spec t"] by (auto simp: translate_type_def)
  show "(\<exists>x. translate_value sf v = Ok x) \<longleftrightarrow> known_value v" "translate_value sf v \<noteq> Err GenIo"
    by (cases v; simp)+
qed

lemma emits_cong: "emits m t ok \<Longrightarrow> t = t' \<Longrightarrow> ok = ok' \<Longrightarrow> emits m t' ok'"
  by simp

lemma emits_end_line: "writer_lawful w \<Longrightarrow> emits (end_line w c) (end_text c) True"
  by (auto simp: end_line_def end_text_def intro!: emits_cong [OF emits_write(2)] split: option.splits msg_comment.splits)

lemma emits_not_yet:
  assumes "writer_lawful w" and "before_fields l"
  shows "emits (print_not_yet sf w l) (const_text sf l) (known_constant l)"
proof (cases "(sf, w, l)" rule: print_not_yet.cases)
  case (4 sf' w' t n v c)
  have "emits (print_not_yet sf w (Some (Constant t n v), c)) (const_text sf (Some (Constant t n v), c))
      (((True \<and> True) \<and> (\<exists>x. translate_value sf v = Ok x)) \<and> (\<exists>x. translate_type t = Ok x))"
    unfolding print_not_yet.simps
  proof (rule emits_lift [OF translate_known(2)], rule emits_lift [OF translate_known(4)])
    fix rt rv assume "translate_type t = Ok rt" "translate_value sf v = Ok rv"
    then show "emits (gen_then (write_text w (''pub const '' @ n @ '' : '' @ rt @ '' = '' @ rv @ '';'')) (end_line w c))
        (const_text sf (Some (Constant t n v), c)) (True \<and> True)"
      by (intro emits_cong [OF emits_then [OF emits_write(1) emits_end_line, OF assms(1) assms(1)]]) (simp_all add: text_or_def)
  qed
  then show ?thesis using 4 by (simp only: translate_known) (simp add: conj_commute)
qed (use assms in \<open>auto simp: before_fields_def end_text_def intro!: emits_cong [OF emits_write(2)]\<close>)

lemma emits_got_field:
  assumes "writer_lawful w"
  shows "emits (print_got_field w l) (field_text l) (known_field l)"
proof (cases "(w, l)" rule: print_got_field.cases)
  case (3 w' t n d c)
  have "emits (gen_bind (gen_lift (translate_type t)) (\<lambda>rt. write_text w (escape_keywords n @ '' : '' @ rt @ '', '')))
      (escape_keywords n @ '' : '' @ text_or (translate_type t) @ '', '') (True \<and> (\<exists>x. translate_type t = Ok x))"
    by (rule emits_lift [OF translate_known(2)]) (simp add: text_or_def emits_write(1) [OF assms])
  from emits_then [OF emits_write(1) [OF assms, of "''  pub ''"] emits_then [OF this emits_end_line [OF assms, of c]]]
  show ?thesis using 3 by (simp add: translate_known)
next
  case (4 w' t n v c)
  from emits_then [OF emits_write(1) [OF assms, of "''  pub ''"]
      emits_then [OF emits_write(1) [OF assms, of "''// skipped constant '' @ n @ '' in the middle of struct''"] emits_end_line [OF assms, of c]]]
  show ?thesis using 4 by simp
qed (use assms in \<open>auto simp: end_text_def intro!: emits_cong [OF emits_write(2)]\<close>)

lemma emits_struct:
  assumes "writer_lawful w"
  shows "emits (print_struct_definition sf w name lines) (struct_text sf name lines) (translatable lines)"
proof -
  note ln = emits_write(2) [OF assms]
  have a: "emits (gen_for (print_not_yet sf w) (takeWhile before_fields lines))
      (concat (map (const_text sf) (takeWhile before_fields lines))) (list_all known_constant (takeWhile before_fields lines))"
    by (rule emits_for) (blast dest: set_takeWhileD intro: emits_not_yet [OF assms])
  have b: "emits (gen_for (print_got_field w) (dropWhile before_fields lines))
      (concat (map field_text (dropWhile before_fields lines))) (list_all known_field (dropWhile before_fields lines))"
    by (rule emits_for) (rule emits_got_field [OF assms])
  show ?thesis
    using emits_then [OF a emits_then [OF ln [of "[]"] emits_then [OF ln [of "''#[derive(Debug, Serialize, Deserialize)]''"]
        emits_then [OF ln [of "''pub struct '' @ name @ '' {''"] emits_then [OF b ln [of "''}''"]]]]]]
    by (simp add: print_struct_definition_def struct_text_def translatable_def Let_def)
qed

subsection \<open>Modules\<close>

text \<open>The part of \<open>main\<close> that generates a directory: a module per package, with a struct per type. The
  packages come from colcon, and \<open>unique\<close> keeps the first of equal elements.\<close>

record ros_pkg =
  rp_name :: string
  rp_path :: string
  rp_types :: "(string \<times> string) list"

record gen_files =
  gf_mod :: string
  gf_files :: "(string \<times> string) list"

fun collect_pkgs :: "(ros_pkg list \<Rightarrow> ros_pkg list) \<Rightarrow> (string \<Rightarrow> gen_error + ros_pkg list) \<Rightarrow> string list \<Rightarrow> ros_pkg list \<Rightarrow>
    gen_error + ros_pkg list" where
  "collect_pkgs unique list_pkgs [] pkgs = Ok pkgs"
| "collect_pkgs unique list_pkgs (ros2_type # rest) pkgs =
     and_then (list_pkgs ros2_type) (\<lambda>new_pkgs. collect_pkgs unique list_pkgs rest (unique (pkgs @ new_pkgs)))"

definition module_header :: "string list" where
  "module_header = [''// Generated code. Do not modify.'', ''use serde::{Serialize,Deserialize};'',
     ''#[allow(unused_imports)]'', ''use ros2_client::WString;'', []]"

definition print_module :: "(64 word \<Rightarrow> string) \<Rightarrow> writer \<Rightarrow> (string \<Rightarrow> msg_line list option) \<Rightarrow> ros_pkg \<Rightarrow> unit gen_op" where
  "print_module sf w parse pkg =
     gen_then (gen_for (writeln_text w) module_header)
       (gen_for (\<lambda>(ros2type, type_def).
          gen_bind (gen_lift (ok_or GenPanic (parse type_def))) (\<lambda>msg. print_struct_definition sf w ros2type msg))
        (rp_types pkg))"

definition generate_pkg :: "(64 word \<Rightarrow> string) \<Rightarrow> writer \<Rightarrow> (string \<Rightarrow> msg_line list option) \<Rightarrow> (string \<Rightarrow> bool) \<Rightarrow> string \<Rightarrow>
    ros_pkg \<Rightarrow> gen_files \<Rightarrow> (gen_error + unit) \<times> gen_files" where
  "generate_pkg sf w parse create output_dir pkg fs =
     (let file = output_dir @ ''/'' @ rp_name pkg @ ''.rs''
      in if \<not> create file then (Err GenIo, fs)
         else case writeln_text w (''mod '' @ rp_name pkg @ '';'') (gf_mod fs) of
           (Inl e, m) \<Rightarrow> (Err e, fs\<lparr>gf_mod := m, gf_files := AList.update file [] (gf_files fs)\<rparr>)
         | (Inr _, m) \<Rightarrow>
             (case print_module sf w parse pkg [] of
                (r, text) \<Rightarrow> (r, fs\<lparr>gf_mod := m, gf_files := AList.update file text (gf_files fs)\<rparr>)))"

fun generate_pkgs :: "(64 word \<Rightarrow> string) \<Rightarrow> writer \<Rightarrow> (string \<Rightarrow> msg_line list option) \<Rightarrow> (string \<Rightarrow> bool) \<Rightarrow> string \<Rightarrow>
    ros_pkg list \<Rightarrow> gen_files \<Rightarrow> (gen_error + unit) \<times> gen_files" where
  "generate_pkgs sf w parse create output_dir [] fs = (Ok (), fs)"
| "generate_pkgs sf w parse create output_dir (pkg # pkgs) fs =
     (case generate_pkg sf w parse create output_dir pkg fs of
        (Inl e, fs') \<Rightarrow> (Err e, fs')
      | (Inr _, fs') \<Rightarrow> generate_pkgs sf w parse create output_dir pkgs fs')"

text \<open>With \<open>--typename\<close>: the packages of all requested types, then \<open>mod.rs\<close> and the modules.\<close>

definition generate_dir :: "(64 word \<Rightarrow> string) \<Rightarrow> writer \<Rightarrow> (string \<Rightarrow> msg_line list option) \<Rightarrow> (string \<Rightarrow> bool) \<Rightarrow>
    (ros_pkg list \<Rightarrow> ros_pkg list) \<Rightarrow> (string \<Rightarrow> string \<Rightarrow> gen_error + ros_pkg list) \<Rightarrow>
    string option \<Rightarrow> string option \<Rightarrow> string list \<Rightarrow> (gen_error + unit) \<times> gen_files option" where
  "generate_dir sf w parse create unique list_packages output workspace ros2_types_requested =
     (case and_then (ok_or GenIo output) (\<lambda>output_dir.
           and_then (ok_or GenIo workspace) (\<lambda>workspace_dir.
           and_then (collect_pkgs unique (list_packages workspace_dir) ros2_types_requested []) (\<lambda>pkgs.
           if create (output_dir @ ''/mod.rs'') then Ok (output_dir, pkgs) else Err GenIo))) of
        Inl e \<Rightarrow> (Err e, None)
      | Inr (output_dir, pkgs) \<Rightarrow>
          (case generate_pkgs sf w parse create output_dir pkgs \<lparr>gf_mod = [], gf_files = []\<rparr> of
             (r, fs) \<Rightarrow> (r, Some fs)))"

definition type_text :: "(64 word \<Rightarrow> string) \<Rightarrow> (string \<Rightarrow> msg_line list option) \<Rightarrow> string \<times> string \<Rightarrow> string" where
  "type_text sf parse t = (case parse (snd t) of Some lines \<Rightarrow> struct_text sf (fst t) lines | None \<Rightarrow> [])"

definition module_text :: "(64 word \<Rightarrow> string) \<Rightarrow> (string \<Rightarrow> msg_line list option) \<Rightarrow> ros_pkg \<Rightarrow> string" where
  "module_text sf parse pkg = concat (map (\<lambda>l. l @ [CHR 0x0A]) module_header) @ concat (map (type_text sf parse) (rp_types pkg))"

definition module_translatable :: "(string \<Rightarrow> msg_line list option) \<Rightarrow> ros_pkg \<Rightarrow> bool" where
  "module_translatable parse pkg \<longleftrightarrow>
     list_all (\<lambda>(_, def). case parse def of Some lines \<Rightarrow> translatable lines | None \<Rightarrow> False) (rp_types pkg)"

lemma emits_module:
  assumes "writer_lawful w"
  shows "emits (print_module sf w parse pkg) (module_text sf parse pkg) (module_translatable parse pkg)"
proof -
  have a: "emits (gen_for (writeln_text w) ls) (concat (map (\<lambda>l. l @ [CHR 0x0A]) ls)) (list_all (\<lambda>_. True) ls)" for ls
    by (rule emits_for) (rule emits_write(2) [OF assms])
  have b: "emits (gen_for (\<lambda>(ty, def). gen_bind (gen_lift (ok_or GenPanic (parse def))) (\<lambda>msg. print_struct_definition sf w ty msg)) ts)
      (concat (map (type_text sf parse) ts))
      (list_all (\<lambda>(_, def). case parse def of Some lines \<Rightarrow> translatable lines | None \<Rightarrow> False) ts)" for ts
  proof (rule emits_for)
    fix t
    show "emits (case t of (ty, def) \<Rightarrow> gen_bind (gen_lift (ok_or GenPanic (parse def))) (\<lambda>msg. print_struct_definition sf w ty msg))
        (type_text sf parse t) (case t of (_, def) \<Rightarrow> case parse def of Some lines \<Rightarrow> translatable lines | None \<Rightarrow> False)"
      using emits_struct [OF assms] emits_panic
      by (cases t; cases "parse (snd t)") (auto simp: type_text_def gen_bind_def gen_lift_def emits_def)
  qed
  have "list_all (\<lambda>_. True) ls" for ls :: "string list" by (simp add: list_all_iff)
  with emits_then [OF a b] show ?thesis
    by (simp add: print_module_def module_text_def module_translatable_def)
qed

text \<open>C37. The generator of Rust code writes what it is given to translate: on success the file of a package
  holds the header and then, type by type and in order, the constants before the first field and the
  struct with its fields, the module is listed once, and no other file is touched. It panics
  only for a type that does not parse, an unknown primitive type or a string constant that is not
  UTF-8, and a failing writer leaves a beginning of this text and nothing else.\<close>

theorem generated_module_exact:
  assumes "writer_lawful w" and "generate_pkg sf w parse create dir pkg fs = (r, fs')"
  shows "(r = Ok () \<longrightarrow> module_translatable parse pkg
          \<and> gf_mod fs' = gf_mod fs @ ''mod '' @ rp_name pkg @ '';'' @ [CHR 0x0A]
          \<and> map_of (gf_files fs') = (map_of (gf_files fs))(dir @ ''/'' @ rp_name pkg @ ''.rs'' \<mapsto> module_text sf parse pkg))
    \<and> (r = Err GenPanic \<longrightarrow> \<not> module_translatable parse pkg)
    \<and> (gf_files fs' = gf_files fs \<or> (\<exists>p. prefix p (module_text sf parse pkg)
          \<and> map_of (gf_files fs') = (map_of (gf_files fs))(dir @ ''/'' @ rp_name pkg @ ''.rs'' \<mapsto> p)))"
proof -
  let ?file = "dir @ ''/'' @ rp_name pkg @ ''.rs''"
  obtain r1 m where w: "writeln_text w (''mod '' @ rp_name pkg @ '';'') (gf_mod fs) = (r1, m)" by fastforce
  obtain r2 t where p: "print_module sf w parse pkg [] = (r2, t)" by fastforce
  note line = emits_write(2) [OF assms(1), of "''mod '' @ rp_name pkg @ '';''", unfolded emits_def, rule_format, OF w]
  note body = emits_module [OF assms(1), of sf parse pkg, unfolded emits_def, rule_format, OF p]
  show ?thesis
  proof (cases r1)
    case (Inl e)
    then show ?thesis using assms(2) w line exI [of "\<lambda>p. prefix p (module_text sf parse pkg)
        \<and> map_of (AList.update ?file [] (gf_files fs)) = (map_of (gf_files fs))(?file \<mapsto> p)" "[]"]
      by (auto simp: generate_pkg_def Let_def update_conv' split: if_splits)
  next
    case (Inr u)
    then show ?thesis using assms(2) w p line body by (auto simp: generate_pkg_def Let_def update_conv' split: if_splits)
  qed
qed

lemma generate_pkg_mod:
  assumes "writer_lawful w" and "generate_pkg sf w parse create dir pkg fs = (Ok (), fs')"
  shows "gf_mod fs' = gf_mod fs @ ''mod '' @ rp_name pkg @ '';'' @ [CHR 0x0A]"
proof -
  obtain r m where "writeln_text w (''mod '' @ rp_name pkg @ '';'') (gf_mod fs) = (r, m)" by fastforce
  with emits_write(2) [OF assms(1), of "''mod '' @ rp_name pkg @ '';''", unfolded emits_def, rule_format, OF this] assms(2)
  show ?thesis by (cases r) (auto simp: generate_pkg_def Let_def split: if_splits prod.splits)
qed

lemma generated_modules_listed:
  assumes "writer_lawful w" and "generate_pkgs sf w parse create dir pkgs fs = (Ok (), fs')"
  shows "gf_mod fs' = gf_mod fs @ concat (map (\<lambda>p. ''mod '' @ rp_name p @ '';'' @ [CHR 0x0A]) pkgs)"
  using assms(2)
proof (induction pkgs arbitrary: fs)
  case (Cons pkg pkgs)
  then obtain fs1 where "generate_pkg sf w parse create dir pkg fs = (Ok (), fs1)"
    "generate_pkgs sf w parse create dir pkgs fs1 = (Ok (), fs')" by (auto split: prod.splits sum.splits)
  with generate_pkg_mod [OF assms(1)] Cons.IH show ?case by simp
qed simp

definition memory_writer :: writer where
  "memory_writer out text = (True, out @ text)"

definition sample_item :: "string \<Rightarrow> string \<Rightarrow> msg_line" where
  "sample_item t n = (Some (Field \<lparr>tn_base = Primitive t, tn_array_spec = None\<rparr> n None), None)"

definition sample_constant :: msg_line where
  "sample_constant = (Some (Constant \<lparr>tn_base = Primitive ''uint8'', tn_array_spec = None\<rparr> ''N'' (ValueUint 7)), None)"

lemma memory_writer_lawful: "writer_lawful memory_writer"
  by (simp add: writer_lawful_def memory_writer_def)

lemmas printing_simps =
  gen_then_def gen_bind_def gen_lift_def gen_return_def write_text_def writeln_text_def end_line_def memory_writer_def
  print_struct_definition_def before_fields_def translate_type_def primitive_names_def escape_keywords_def

theorem generated_module_exact_witness:
  "\<exists>r fs. generate_pkg (\<lambda>_. []) memory_writer (\<lambda>_. Some [sample_item ''float64'' ''x'']) (\<lambda>_. True) ''out''
       \<lparr>rp_name = ''geo'', rp_path = [], rp_types = [(''Point'', ''float64 x'')]\<rparr> \<lparr>gf_mod = [], gf_files = []\<rparr> = (r, fs)
     \<and> r = Ok () \<and> gf_mod fs = ''mod geo;'' @ [CHR 0x0A]"
proof -
  let ?pkg = "\<lparr>rp_name = ''geo'', rp_path = [], rp_types = [(''Point'', ''float64 x'')]\<rparr>"
  obtain r fs where g: "generate_pkg (\<lambda>_. []) memory_writer (\<lambda>_. Some [sample_item ''float64'' ''x'']) (\<lambda>_. True) ''out''
       ?pkg \<lparr>gf_mod = [], gf_files = []\<rparr> = (r, fs)" by fastforce
  then have r: "r = Ok ()"
    by (auto simp: generate_pkg_def print_module_def module_header_def sample_item_def printing_simps Let_def)
  show ?thesis using generated_module_exact [OF memory_writer_lawful g] g r by simp
qed

text \<open>A constant that follows a field leaves the keyword \<open>pub\<close> in front of a comment, so that the keyword
  binds to whatever comes next, here the closing brace; and a string constant is printed without
  its quotes.\<close>

lemma constant_after_field_dangles:
  "print_struct_definition sf memory_writer ''M'' [sample_item ''bool'' ''b'', sample_constant] [] =
     (Ok (), [CHR 0x0A] @ ''#[derive(Debug, Serialize, Deserialize)]'' @ [CHR 0x0A] @ ''pub struct M {'' @ [CHR 0x0A]
       @ ''  pub b : bool, '' @ [CHR 0x0A] @ ''  pub // skipped constant N in the middle of struct'' @ [CHR 0x0A] @ ''}'' @ [CHR 0x0A])"
  by (simp add: printing_simps sample_item_def sample_constant_def Let_def)

lemma string_constant_unquoted:
  "const_text sf (Some (Constant \<lparr>tn_base = Primitive ''string'', tn_array_spec = None\<rparr> ''S'' (ValueString ''hi'')), None) =
     ''pub const S : String = hi;'' @ [CHR 0x0A]"
  by (simp add: text_or_def end_text_def translate_type_def primitive_names_def RUST_BYTESTRING_def byte_in_def)

end
