(* ===== verification/Msg_Parser.thy ===== *)
theory Msg_Parser
  imports Msg_Generator
begin

text \<open>
  The parser of interface files (\<open>bin/msggen/parser.rs\<close>, \<open>bin/msggen/stringparser.rs\<close>). The sources
  build it from the combinators of the crate nom, which is a parameter: the record \<open>nom\<close> holds the
  combinators the sources name, over one type of outputs, and \<open>nom_lawful\<close> states what nom documents
  of them. A closure given to \<open>map\<close> returns \<open>None\<close> where it panics. \<open>f64::from_str\<close> is a parameter too.
\<close>

subsection \<open>What nom provides\<close>

datatype string_fragment = Literal string | EscapedChar rust_char | EscapedWS

datatype nom_value =
    NStr string
  | NChar rust_char
  | NU32 "32 word"
  | NU64 "64 word"
  | NF64 "64 word"
  | NOpt "nom_value option"
  | NTuple "nom_value list"
  | NVec "nom_value list"
  | NItem msg_item
  | NBase base_type_name
  | NArray array_specifier
  | NType msg_type_name
  | NValue msg_value
  | NComment msg_comment
  | NFragment string_fragment

text \<open>The result of a parser: the input that is left and an output, or one of the three kinds of error.\<close>

datatype nom_result = Parsed string nom_value | NomError | NomIncomplete | NomFailure | NomPanic

type_synonym nom_parser = "string \<Rightarrow> nom_result"

text \<open>The question mark operator after a call of a parser.\<close>

fun nom_then :: "nom_result \<Rightarrow> (string \<Rightarrow> nom_value \<Rightarrow> nom_result) \<Rightarrow> nom_result" where
  "nom_then (Parsed i v) f = f i v"
| "nom_then e f = e"

record nom =
  nm_tag :: "string \<Rightarrow> nom_parser"
  nm_char :: "char \<Rightarrow> nom_parser"
  nm_one_of :: "string \<Rightarrow> nom_parser"
  nm_alphanumeric1 :: nom_parser
  nm_digit1 :: nom_parser
  nm_space0 :: nom_parser
  nm_line_ending :: nom_parser
  nm_not_line_ending :: nom_parser
  nm_alt :: "nom_parser list \<Rightarrow> nom_parser"
  nm_map :: "nom_parser \<Rightarrow> (nom_value \<Rightarrow> nom_value option) \<Rightarrow> nom_parser"
  nm_value :: "nom_value \<Rightarrow> nom_parser \<Rightarrow> nom_parser"
  nm_opt :: "nom_parser \<Rightarrow> nom_parser"
  nm_recognize :: "nom_parser \<Rightarrow> nom_parser"
  nm_pair :: "nom_parser \<Rightarrow> nom_parser \<Rightarrow> nom_parser"
  nm_tuple :: "nom_parser list \<Rightarrow> nom_parser"
  nm_preceded :: "nom_parser \<Rightarrow> nom_parser \<Rightarrow> nom_parser"
  nm_terminated :: "nom_parser \<Rightarrow> nom_parser \<Rightarrow> nom_parser"
  nm_delimited :: "nom_parser \<Rightarrow> nom_parser \<Rightarrow> nom_parser \<Rightarrow> nom_parser"
  nm_many0 :: "nom_parser \<Rightarrow> nom_parser"
  nm_many1 :: "nom_parser \<Rightarrow> nom_parser"
  nm_map_res :: "nom_parser \<Rightarrow> (nom_value \<Rightarrow> nom_value option) \<Rightarrow> nom_parser"
  nm_map_opt :: "nom_parser \<Rightarrow> (nom_value \<Rightarrow> nom_value option) \<Rightarrow> nom_parser"
  nm_verify :: "nom_parser \<Rightarrow> (nom_value \<Rightarrow> bool) \<Rightarrow> nom_parser"
  nm_fold_many0 :: "nom_parser \<Rightarrow> nom_value \<Rightarrow> (nom_value \<Rightarrow> nom_value \<Rightarrow> nom_value) \<Rightarrow> nom_parser"
  nms_char :: "char \<Rightarrow> nom_parser"
  nms_is_not :: "string \<Rightarrow> nom_parser"
  nms_multispace1 :: nom_parser
  nms_take_while_m_n :: "nat \<Rightarrow> nat \<Rightarrow> (char \<Rightarrow> bool) \<Rightarrow> nom_parser"

text \<open>Rust's types say which output a closure gets; these read it.\<close>

fun out_str :: "nom_value \<Rightarrow> string" where
  "out_str (NStr s) = s" | "out_str _ = []"

fun out_char :: "nom_value \<Rightarrow> rust_char" where
  "out_char (NChar c) = c" | "out_char _ = []"

fun out_u32 :: "nom_value \<Rightarrow> 32 word" where
  "out_u32 (NU32 u) = u" | "out_u32 _ = 0"

fun out_u64 :: "nom_value \<Rightarrow> 64 word" where
  "out_u64 (NU64 u) = u" | "out_u64 _ = 0"

fun out_f64 :: "nom_value \<Rightarrow> 64 word" where
  "out_f64 (NF64 f) = f" | "out_f64 _ = 0"

fun out_opt :: "nom_value \<Rightarrow> nom_value option" where
  "out_opt (NOpt x) = x" | "out_opt _ = None"

fun out_tuple :: "nom_value \<Rightarrow> nom_value list" where
  "out_tuple (NTuple vs) = vs" | "out_tuple _ = []"

fun out_vec :: "nom_value \<Rightarrow> nom_value list" where
  "out_vec (NVec vs) = vs" | "out_vec _ = []"

subsection \<open>Strings\<close>

definition is_ascii_hexdigit :: "char \<Rightarrow> bool" where
  "is_ascii_hexdigit c \<longleftrightarrow> is_ascii_digit c \<or> (65 \<le> (of_char c :: nat) \<and> (of_char c :: nat) \<le> 70)
     \<or> (97 \<le> (of_char c :: nat) \<and> (of_char c :: nat) \<le> 102)"

definition hex_digit_value :: "char \<Rightarrow> nat" where
  "hex_digit_value c = (if is_ascii_digit c then of_char c - 48 else if of_char c \<le> (70 :: nat) then of_char c - 55 else of_char c - 87)"

definition hex_value :: "string \<Rightarrow> nat" where
  "hex_value s = foldl (\<lambda>v c. 16 * v + hex_digit_value c) 0 s"

text \<open>\<open>u32::from_str_radix\<close> with radix 16.\<close>

definition u32_from_hex :: "string \<Rightarrow> 32 word option" where
  "u32_from_hex s =
     (let ds = (case s of c # t \<Rightarrow> if c = CHR ''+'' then t else s | [] \<Rightarrow> s)
      in if ds \<noteq> [] \<and> list_all is_ascii_hexdigit ds \<and> hex_value ds < 2 ^ 32 then Some (of_nat (hex_value ds)) else None)"

text \<open>\<open>char::from_u32\<close>, the character as its UTF-8 bytes.\<close>

definition encode_utf8 :: "nat \<Rightarrow> rust_char" where
  "encode_utf8 c =
     (if c < 0x80 then [char_of c]
      else if c < 0x800 then [char_of (0xC0 + c div 64), char_of (0x80 + c mod 64)]
      else if c < 0x10000 then [char_of (0xE0 + c div 4096), char_of (0x80 + c div 64 mod 64), char_of (0x80 + c mod 64)]
      else [char_of (0xF0 + c div 262144), char_of (0x80 + c div 4096 mod 64), char_of (0x80 + c div 64 mod 64), char_of (0x80 + c mod 64)])"

definition char_from_u32 :: "32 word \<Rightarrow> rust_char option" where
  "char_from_u32 u =
     (let c = unat u in if c < 0xD800 \<or> 0xE000 \<le> c \<and> c < 0x110000 then Some (encode_utf8 c) else None)"

definition parse_unicode :: "nom \<Rightarrow> nom_parser" where
  "parse_unicode N =
     (let parse_hex = nms_take_while_m_n N 1 6 is_ascii_hexdigit;
          parse_delimited_hex = nm_preceded N (nms_char N (CHR ''u'')) (nm_delimited N (nms_char N (CHR ''{'')) parse_hex (nms_char N (CHR ''}'')));
          parse_u32 = nm_map_res N parse_delimited_hex (\<lambda>hex. map_option NU32 (u32_from_hex (out_str hex)))
      in nm_map_opt N parse_u32 (\<lambda>u. map_option NChar (char_from_u32 (out_u32 u))))"

definition parse_escaped_char :: "nom \<Rightarrow> nom_parser" where
  "parse_escaped_char N =
     nm_preceded N (nms_char N (CHR 0x5C))
       (nm_alt N [parse_unicode N,
          nm_value N (NChar [CHR 0x0A]) (nms_char N (CHR ''n'')),
          nm_value N (NChar [CHR 0x0D]) (nms_char N (CHR ''r'')),
          nm_value N (NChar [CHR 0x09]) (nms_char N (CHR ''t'')),
          nm_value N (NChar [CHR 0x08]) (nms_char N (CHR ''b'')),
          nm_value N (NChar [CHR 0x0C]) (nms_char N (CHR ''f'')),
          nm_value N (NChar [CHR 0x5C]) (nms_char N (CHR 0x5C)),
          nm_value N (NChar [CHR ''/'']) (nms_char N (CHR ''/'')),
          nm_value N (NChar [CHR 0x22]) (nms_char N (CHR 0x22))])"

definition parse_escaped_whitespace :: "nom \<Rightarrow> nom_parser" where
  "parse_escaped_whitespace N = nm_preceded N (nms_char N (CHR 0x5C)) (nms_multispace1 N)"

definition parse_literal :: "nom \<Rightarrow> nom_parser" where
  "parse_literal N =
     (let not_quote_slash = nms_is_not N [CHR 0x22, CHR 0x5C]
      in nm_verify N not_quote_slash (\<lambda>s. out_str s \<noteq> []))"

definition parse_fragment :: "nom \<Rightarrow> nom_parser" where
  "parse_fragment N =
     nm_alt N [nm_map N (parse_literal N) (\<lambda>s. Some (NFragment (Literal (out_str s)))),
       nm_map N (parse_escaped_char N) (\<lambda>c. Some (NFragment (EscapedChar (out_char c)))),
       nm_value N (NFragment EscapedWS) (parse_escaped_whitespace N)]"

fun push_fragment :: "nom_value \<Rightarrow> nom_value \<Rightarrow> nom_value" where
  "push_fragment string (NFragment (Literal s)) = NStr (out_str string @ s)"
| "push_fragment string (NFragment (EscapedChar c)) = NStr (out_str string @ c)"
| "push_fragment string _ = string"

definition parse_string :: "nom \<Rightarrow> nom_parser" where
  "parse_string N =
     (let build_string = nm_fold_many0 N (parse_fragment N) (NStr []) push_fragment
      in nm_delimited N (nms_char N (CHR 0x22)) build_string (nms_char N (CHR 0x22)))"

subsection \<open>Interface files\<close>

definition decimal :: "nom \<Rightarrow> nom_parser" where
  "decimal N = nm_recognize N (nm_many1 N (nm_terminated N (nm_one_of N ''0123456789'') (nm_many0 N (nm_char N (CHR ''_'')))))"

definition float :: "nom \<Rightarrow> (string \<Rightarrow> 64 word option) \<Rightarrow> nom_parser" where
  "float N f64_from_str =
     nm_map N (nm_alt N
       [nm_recognize N (nm_tuple N [nm_char N (CHR ''.''), decimal N,
          nm_opt N (nm_tuple N [nm_one_of N ''eE'', nm_opt N (nm_one_of N ''+-''), decimal N])]),
        nm_recognize N (nm_tuple N [decimal N, nm_opt N (nm_preceded N (nm_char N (CHR ''.'')) (decimal N)),
          nm_one_of N ''eE'', nm_opt N (nm_one_of N ''+-''), decimal N]),
        nm_recognize N (nm_tuple N [decimal N, nm_char N (CHR ''.''), nm_opt N (decimal N)])])
       (\<lambda>f. map_option NF64 (f64_from_str (out_str f)))"

definition uint_value :: "nom \<Rightarrow> nom_parser" where
  "uint_value N = nm_map N (nm_digit1 N) (\<lambda>s. map_option (\<lambda>n. NU64 (of_nat n)) (parse_unsigned 64 (out_str s)))"

definition msg_identifier :: "nom \<Rightarrow> nom_parser" where
  "msg_identifier N = nm_map N (nm_recognize N (nm_many1 N (nm_alt N [nm_alphanumeric1 N, nm_tag N ''_'']))) (\<lambda>s. Some (NStr (out_str s)))"

definition type_spec :: "nom \<Rightarrow> nom_parser" where
  "type_spec N i =
     (let array_specifier_inner = nm_alt N
            [nm_map N (nm_preceded N (nm_tag N ''<='') (uint_value N)) (\<lambda>bound. Some (NArray (ArrayBounded (out_u64 bound)))),
             nm_map N (uint_value N) (\<lambda>size. Some (NArray (ArrayStatic (out_u64 size)))),
             nm_map N (nm_space0 N) (\<lambda>_. Some (NArray ArrayUnbounded))];
          array_specifier = nm_delimited N (nm_char N (CHR ''['')) array_specifier_inner (nm_char N (CHR '']''));
          bounded_string = nm_map N (nm_preceded N (nm_tag N ''string<='') (uint_value N)) (\<lambda>bound. Some (NBase (BoundedString (out_u64 bound))));
          primitive_type = nm_map N (nm_alt N (map (nm_tag N)
              [''bool'', ''byte'', ''char'', ''float32'', ''float64'', ''int8'', ''int16'', ''int32'', ''int64'',
               ''uint8'', ''uint16'', ''uint32'', ''uint64'', ''string'', ''wstring'']))
            (\<lambda>s. Some (NBase (Primitive (out_str s))));
          complex_type = nm_map N (nm_pair N (nm_opt N (nm_terminated N (msg_identifier N) (nm_tag N ''/''))) (msg_identifier N))
            (\<lambda>v. case out_tuple v of [package_name, type_name] \<Rightarrow>
               Some (NBase (ComplexType (map_option out_str (out_opt package_name)) (out_str type_name))) | _ \<Rightarrow> None)
      in nom_then (nm_pair N (nm_alt N [bounded_string, primitive_type, complex_type]) (nm_opt N array_specifier) i)
           (\<lambda>i v. case v of
              NTuple [NBase base, NOpt None] \<Rightarrow> Parsed i (NType \<lparr>tn_base = base, tn_array_spec = None\<rparr>)
            | NTuple [NBase base, NOpt (Some (NArray array_spec))] \<Rightarrow> Parsed i (NType \<lparr>tn_base = base, tn_array_spec = Some array_spec\<rparr>)
            | _ \<Rightarrow> NomPanic))"

definition value_spec :: "nom \<Rightarrow> (string \<Rightarrow> 64 word option) \<Rightarrow> overflow_mode \<Rightarrow> nom_parser" where
  "value_spec N f64_from_str mode =
     (let bool_value = nm_alt N [nm_value N (NValue (ValueBool False)) (nm_tag N ''false''), nm_value N (NValue (ValueBool True)) (nm_tag N ''true'')];
          float_value = nm_map N (float N f64_from_str) (\<lambda>f. Some (NValue (ValueFloat (out_f64 f))));
          string_value = nm_map N (parse_string N) (\<lambda>s. Some (NValue (ValueString (out_str s))));
          u_int_value = nm_map N (uint_value N) (\<lambda>u. Some (NValue (ValueUint (out_u64 u))));
          int_value = nm_map N (nm_preceded N (nm_tag N ''-'') (uint_value N))
            (\<lambda>i. map_option (\<lambda>v. NValue (ValueInt v)) (signed_result mode 64 (- wrap_signed 64 (uint (out_u64 i)))))
      in nm_alt N [bool_value, float_value, int_value, u_int_value, string_value])"

fun out_type :: "nom_value \<Rightarrow> msg_type_name" where
  "out_type (NType t) = t" | "out_type _ = \<lparr>tn_base = Primitive [], tn_array_spec = None\<rparr>"

fun out_value :: "nom_value \<Rightarrow> msg_value" where
  "out_value (NValue v) = v" | "out_value _ = ValueBool False"

definition field_item :: "nom \<Rightarrow> nom_parser" where
  "field_item N i =
     nom_then (type_spec N i) (\<lambda>i type_name.
     nom_then (nm_space0 N i) (\<lambda>i _.
     nom_then (msg_identifier N i) (\<lambda>i field_name.
       Parsed i (NItem (Field (out_type type_name) (out_str field_name) None)))))"

definition const_item :: "nom \<Rightarrow> (string \<Rightarrow> 64 word option) \<Rightarrow> overflow_mode \<Rightarrow> nom_parser" where
  "const_item N f64_from_str mode i =
     nom_then (type_spec N i) (\<lambda>i type_name.
     nom_then (nm_space0 N i) (\<lambda>i _.
     nom_then (msg_identifier N i) (\<lambda>i const_name.
     nom_then (nm_space0 N i) (\<lambda>i _.
     nom_then (nm_tag N ''='' i) (\<lambda>i _.
     nom_then (nm_space0 N i) (\<lambda>i _.
     nom_then (value_spec N f64_from_str mode i) (\<lambda>i v.
       Parsed i (NItem (Constant (out_type type_name) (out_str const_name) (out_value v))))))))))"

definition item :: "nom \<Rightarrow> (string \<Rightarrow> 64 word option) \<Rightarrow> overflow_mode \<Rightarrow> nom_parser" where
  "item N f64_from_str mode =
     nm_map N (nm_delimited N (nm_space0 N) (nm_alt N [const_item N f64_from_str mode, field_item N]) (nm_space0 N)) (\<lambda>v. Some (NOpt (Some v)))"

definition just_space :: "nom \<Rightarrow> nom_parser" where
  "just_space N = nm_value N (NOpt None) (nm_space0 N)"

definition parse_comment :: "nom \<Rightarrow> nom_parser" where
  "parse_comment N = nm_map N (nm_recognize N (nm_pair N (nm_tag N ''#'') (nm_not_line_ending N))) (\<lambda>s. Some (NComment (MsgComment (out_str s))))"

definition line_spec :: "nom \<Rightarrow> (string \<Rightarrow> 64 word option) \<Rightarrow> overflow_mode \<Rightarrow> nom_parser" where
  "line_spec N f64_from_str mode =
     nm_terminated N (nm_pair N (nm_alt N [item N f64_from_str mode, just_space N]) (nm_opt N (parse_comment N))) (nm_line_ending N)"

definition msg_spec :: "nom \<Rightarrow> (string \<Rightarrow> 64 word option) \<Rightarrow> overflow_mode \<Rightarrow> nom_parser" where
  "msg_spec N f64_from_str mode = nm_many0 N (line_spec N f64_from_str mode)"

subsection \<open>What nom documents\<close>

definition is_blank :: "char \<Rightarrow> bool" where
  "is_blank c \<longleftrightarrow> c = CHR '' '' \<or> c = CHR 0x09"

definition is_multispace :: "char \<Rightarrow> bool" where
  "is_multispace c \<longleftrightarrow> is_blank c \<or> c = CHR 0x0A \<or> c = CHR 0x0D"

definition is_eol :: "char \<Rightarrow> bool" where
  "is_eol c \<longleftrightarrow> c = CHR 0x0A \<or> c = CHR 0x0D"

text \<open>The longest non-empty beginning whose characters satisfy a predicate; a streaming parser wants to
  see the character that ends it.\<close>

definition span1 :: "(char \<Rightarrow> bool) \<Rightarrow> nom_parser" where
  "span1 p i = (if takeWhile p i = [] then NomError else Parsed (dropWhile p i) (NStr (takeWhile p i)))"

definition streaming_span1 :: "(char \<Rightarrow> bool) \<Rightarrow> nom_parser" where
  "streaming_span1 p i =
     (if dropWhile p i = [] then NomIncomplete else if takeWhile p i = [] then NomError else Parsed (dropWhile p i) (NStr (takeWhile p i)))"

definition first_char :: "(char \<Rightarrow> bool) \<Rightarrow> nom_parser" where
  "first_char p i = (case i of [] \<Rightarrow> NomError | c # r \<Rightarrow> if p c then Parsed r (NChar [c]) else NomError)"

definition nom_tokens :: "nom \<Rightarrow> bool" where
  "nom_tokens N \<longleftrightarrow>
     (\<forall>t i. nm_tag N t i = (if prefix t i then Parsed (drop (length t) i) (NStr t) else NomError))
   \<and> (\<forall>c. nm_char N c = first_char (\<lambda>d. d = c))
   \<and> (\<forall>cs. nm_one_of N cs = first_char (\<lambda>d. d \<in> set cs))
   \<and> nm_alphanumeric1 N = span1 is_ascii_alphanumeric
   \<and> nm_digit1 N = span1 is_ascii_digit
   \<and> (\<forall>i. nm_space0 N i = Parsed (dropWhile is_blank i) (NStr (takeWhile is_blank i)))
   \<and> (\<forall>i. nm_line_ending N i =
        (if prefix [CHR 0x0A] i then Parsed (drop 1 i) (NStr [CHR 0x0A])
         else if prefix [CHR 0x0D, CHR 0x0A] i then Parsed (drop 2 i) (NStr [CHR 0x0D, CHR 0x0A]) else NomError))
   \<and> (\<forall>i. nm_not_line_ending N i =
        (let r = dropWhile (\<lambda>c. \<not> is_eol c) i
         in if prefix [CHR 0x0D] r \<and> \<not> prefix [CHR 0x0D, CHR 0x0A] r then NomError
            else Parsed r (NStr (takeWhile (\<lambda>c. \<not> is_eol c) i))))"

definition nom_streaming :: "nom \<Rightarrow> bool" where
  "nom_streaming N \<longleftrightarrow>
     (\<forall>c i. nms_char N c i = (if i = [] then NomIncomplete else first_char (\<lambda>d. d = c) i))
   \<and> (\<forall>cs. nms_is_not N cs = streaming_span1 (\<lambda>c. c \<notin> set cs))
   \<and> nms_multispace1 N = streaming_span1 is_multispace
   \<and> (\<forall>m n p i. nms_take_while_m_n N m n p i =
        (let k = length (takeWhile p i)
         in if n \<le> k then Parsed (drop n i) (NStr (take n i))
            else if k = length i then NomIncomplete
            else if k < m then NomError else Parsed (drop k i) (NStr (take k i))))"

fun tuple_result :: "nom_parser list \<Rightarrow> string \<Rightarrow> (string \<Rightarrow> nom_value list \<Rightarrow> nom_result) \<Rightarrow> nom_result" where
  "tuple_result [] i k = k i []"
| "tuple_result (p # ps) i k = nom_then (p i) (\<lambda>i v. tuple_result ps i (\<lambda>i vs. k i (v # vs)))"

text \<open>The repetitions stop at the first error of their parser and refuse one that consumes nothing.\<close>

definition nom_combinators :: "nom \<Rightarrow> bool" where
  "nom_combinators N \<longleftrightarrow>
     (\<forall>p. nm_alt N [p] = p)
   \<and> (\<forall>p q ps i. nm_alt N (p # q # ps) i = (case p i of NomError \<Rightarrow> nm_alt N (q # ps) i | r \<Rightarrow> r))
   \<and> (\<forall>p f i. nm_map N p f i = nom_then (p i) (\<lambda>r v. case f v of Some w \<Rightarrow> Parsed r w | None \<Rightarrow> NomPanic))
   \<and> (\<forall>p f i. nm_map_res N p f i = nom_then (p i) (\<lambda>r v. case f v of Some w \<Rightarrow> Parsed r w | None \<Rightarrow> NomError))
   \<and> (\<forall>p f i. nm_map_opt N p f i = nom_then (p i) (\<lambda>r v. case f v of Some w \<Rightarrow> Parsed r w | None \<Rightarrow> NomError))
   \<and> (\<forall>p f i. nm_verify N p f i = nom_then (p i) (\<lambda>r v. if f v then Parsed r v else NomError))
   \<and> (\<forall>w p i. nm_value N w p i = nom_then (p i) (\<lambda>r _. Parsed r w))
   \<and> (\<forall>p i. nm_opt N p i = (case p i of Parsed r v \<Rightarrow> Parsed r (NOpt (Some v)) | NomError \<Rightarrow> Parsed i (NOpt None) | e \<Rightarrow> e))
   \<and> (\<forall>p i. nm_recognize N p i = nom_then (p i) (\<lambda>r _. Parsed r (NStr (take (length i - length r) i))))
   \<and> (\<forall>p q i. nm_pair N p q i = nom_then (p i) (\<lambda>i v. nom_then (q i) (\<lambda>i w. Parsed i (NTuple [v, w]))))
   \<and> (\<forall>ps i. nm_tuple N ps i = tuple_result ps i (\<lambda>i vs. Parsed i (NTuple vs)))
   \<and> (\<forall>p q i. nm_preceded N p q i = nom_then (p i) (\<lambda>i _. q i))
   \<and> (\<forall>p q i. nm_terminated N p q i = nom_then (p i) (\<lambda>i v. nom_then (q i) (\<lambda>i _. Parsed i v)))
   \<and> (\<forall>p q r i. nm_delimited N p q r i = nom_then (p i) (\<lambda>i _. nom_then (q i) (\<lambda>i v. nom_then (r i) (\<lambda>i _. Parsed i v))))
   \<and> (\<forall>p i. nm_many0 N p i =
        (case p i of
           Parsed r v \<Rightarrow> if length r < length i then nom_then (nm_many0 N p r) (\<lambda>r vs. Parsed r (NVec (v # out_vec vs))) else NomError
         | NomError \<Rightarrow> Parsed i (NVec [])
         | e \<Rightarrow> e))
   \<and> (\<forall>p i. nm_many1 N p i = nom_then (p i) (\<lambda>r v. nom_then (nm_many0 N p r) (\<lambda>r vs. Parsed r (NVec (v # out_vec vs)))))
   \<and> (\<forall>p a f i. nm_fold_many0 N p a f i =
        (case p i of
           Parsed r v \<Rightarrow> if length r < length i then nm_fold_many0 N p (f a v) f r else NomError
         | NomError \<Rightarrow> Parsed i a
         | e \<Rightarrow> e))"

definition nom_lawful :: "nom \<Rightarrow> bool" where
  "nom_lawful N \<longleftrightarrow> nom_tokens N \<and> nom_streaming N \<and> nom_combinators N"

lemma nom_tokensD:
  assumes "nom_lawful N"
  shows "nm_tag N t i = (if prefix t i then Parsed (drop (length t) i) (NStr t) else NomError)"
    and "nm_char N c = first_char (\<lambda>d. d = c)" and "nm_one_of N cs = first_char (\<lambda>d. d \<in> set cs)"
    and "nm_alphanumeric1 N = span1 is_ascii_alphanumeric" and "nm_digit1 N = span1 is_ascii_digit"
    and "nm_space0 N i = Parsed (dropWhile is_blank i) (NStr (takeWhile is_blank i))"
    and "nm_line_ending N i =
        (if prefix [CHR 0x0A] i then Parsed (drop 1 i) (NStr [CHR 0x0A])
         else if prefix [CHR 0x0D, CHR 0x0A] i then Parsed (drop 2 i) (NStr [CHR 0x0D, CHR 0x0A]) else NomError)"
    and "nm_not_line_ending N i =
        (let r = dropWhile (\<lambda>c. \<not> is_eol c) i
         in if prefix [CHR 0x0D] r \<and> \<not> prefix [CHR 0x0D, CHR 0x0A] r then NomError
            else Parsed r (NStr (takeWhile (\<lambda>c. \<not> is_eol c) i)))"
  using assms by (simp_all add: nom_lawful_def nom_tokens_def)

lemma nom_streamingD:
  assumes "nom_lawful N"
  shows "nms_char N c i = (if i = [] then NomIncomplete else first_char (\<lambda>d. d = c) i)"
    and "nms_is_not N cs = streaming_span1 (\<lambda>c. c \<notin> set cs)" and "nms_multispace1 N = streaming_span1 is_multispace"
    and "nms_take_while_m_n N m n p i =
        (let k = length (takeWhile p i)
         in if n \<le> k then Parsed (drop n i) (NStr (take n i))
            else if k = length i then NomIncomplete
            else if k < m then NomError else Parsed (drop k i) (NStr (take k i)))"
  using assms by (simp_all add: nom_lawful_def nom_streaming_def)

lemma nom_combinatorsD:
  assumes "nom_lawful N"
  shows "nm_alt N [p] = p"
    and "nm_alt N (p # q # ps) i = (case p i of NomError \<Rightarrow> nm_alt N (q # ps) i | r \<Rightarrow> r)"
    and "nm_map N p f i = nom_then (p i) (\<lambda>r v. case f v of Some w \<Rightarrow> Parsed r w | None \<Rightarrow> NomPanic)"
    and "nm_map_res N p f i = nom_then (p i) (\<lambda>r v. case f v of Some w \<Rightarrow> Parsed r w | None \<Rightarrow> NomError)"
    and "nm_map_opt N p f i = nom_then (p i) (\<lambda>r v. case f v of Some w \<Rightarrow> Parsed r w | None \<Rightarrow> NomError)"
    and "nm_verify N p g i = nom_then (p i) (\<lambda>r v. if g v then Parsed r v else NomError)"
    and "nm_value N w p i = nom_then (p i) (\<lambda>r _. Parsed r w)"
    and "nm_opt N p i = (case p i of Parsed r v \<Rightarrow> Parsed r (NOpt (Some v)) | NomError \<Rightarrow> Parsed i (NOpt None) | e \<Rightarrow> e)"
    and "nm_recognize N p i = nom_then (p i) (\<lambda>r _. Parsed r (NStr (take (length i - length r) i)))"
    and "nm_pair N p q i = nom_then (p i) (\<lambda>i v. nom_then (q i) (\<lambda>i w. Parsed i (NTuple [v, w])))"
    and "nm_tuple N ps i = tuple_result ps i (\<lambda>i vs. Parsed i (NTuple vs))"
    and "nm_preceded N p q i = nom_then (p i) (\<lambda>i _. q i)"
    and "nm_terminated N p q i = nom_then (p i) (\<lambda>i v. nom_then (q i) (\<lambda>i _. Parsed i v))"
    and "nm_delimited N p q s i = nom_then (p i) (\<lambda>i _. nom_then (q i) (\<lambda>i v. nom_then (s i) (\<lambda>i _. Parsed i v)))"
  using assms by (simp_all add: nom_lawful_def nom_combinators_def)

lemma nom_repeatD:
  assumes "nom_lawful N"
  shows "nm_many0 N p i =
        (case p i of
           Parsed r v \<Rightarrow> if length r < length i then nom_then (nm_many0 N p r) (\<lambda>r vs. Parsed r (NVec (v # out_vec vs))) else NomError
         | NomError \<Rightarrow> Parsed i (NVec [])
         | e \<Rightarrow> e)"
    and "nm_many1 N p i = nom_then (p i) (\<lambda>r v. nom_then (nm_many0 N p r) (\<lambda>r vs. Parsed r (NVec (v # out_vec vs))))"
    and "nm_fold_many0 N p a f i =
        (case p i of
           Parsed r v \<Rightarrow> if length r < length i then nm_fold_many0 N p (f a v) f r else NomError
         | NomError \<Rightarrow> Parsed i a
         | e \<Rightarrow> e)"
  using assms by (simp_all add: nom_lawful_def nom_combinators_def)

subsection \<open>Tame parsers\<close>

text \<open>A tame parser leaves a suffix of its input and never asks for the whole parse to be given up.\<close>

definition tame :: "nom_parser \<Rightarrow> bool" where
  "tame p \<longleftrightarrow> (\<forall>i. p i \<noteq> NomFailure \<and> (\<forall>r v. p i = Parsed r v \<longrightarrow> suffix r i))"

lemma tameI: "(\<And>i. p i \<noteq> NomFailure) \<Longrightarrow> (\<And>i r v. p i = Parsed r v \<Longrightarrow> suffix r i) \<Longrightarrow> tame p"
  by (simp add: tame_def)

lemma nom_then_Parsed: "nom_then x f = Parsed r v \<longleftrightarrow> (\<exists>i w. x = Parsed i w \<and> f i w = Parsed r v)"
  by (cases x) simp_all

lemma nom_then_Failure: "nom_then x f = NomFailure \<longleftrightarrow> x = NomFailure \<or> (\<exists>i w. x = Parsed i w \<and> f i w = NomFailure)"
  by (cases x) simp_all

lemma tame_then:
  assumes "tame p" and "\<And>w. tame (\<lambda>i. f i w)"
  shows "tame (\<lambda>i. nom_then (p i) f)"
proof (rule tameI)
  fix i show "nom_then (p i) f \<noteq> NomFailure" using assms by (auto simp: nom_then_Failure tame_def)
next
  fix i r v assume "nom_then (p i) f = Parsed r v"
  then obtain j w where "p i = Parsed j w" "f j w = Parsed r v" by (auto simp: nom_then_Parsed)
  then have "suffix r j" "suffix j i" using assms(1) assms(2) [of w] unfolding tame_def by blast+
  then show "suffix r i" by (rule suffix_order.trans)
qed

lemma tame_return: "tame (\<lambda>i. Parsed i w)" "tame (\<lambda>i. NomError)" "tame (\<lambda>i. NomPanic)"
  by (simp_all add: tame_def)

lemma tame_span: "tame (span1 p)" "tame (streaming_span1 p)" "tame (first_char p)"
  by (auto simp: tame_def span1_def streaming_span1_def first_char_def suffix_dropWhile suffix_ConsI split: list.splits)

lemma tame_tokens:
  assumes "nom_lawful N"
  shows "tame (nm_tag N t)" and "tame (nm_char N c)" and "tame (nm_one_of N cs)" and "tame (nm_alphanumeric1 N)" and "tame (nm_digit1 N)"
    and "tame (nm_space0 N)" and "tame (nm_line_ending N)" and "tame (nm_not_line_ending N)" and "tame (nms_char N c)" and "tame (nms_is_not N cs)"
    and "tame (nms_multispace1 N)" and "tame (nms_take_while_m_n N m n g)"
proof -
  note laws = nom_tokensD [OF assms] nom_streamingD [OF assms]
  show "tame (nm_char N c)" "tame (nm_one_of N cs)" "tame (nm_alphanumeric1 N)" "tame (nm_digit1 N)" "tame (nms_is_not N cs)" "tame (nms_multispace1 N)"
    unfolding laws by (rule tame_span)+
  show "tame (nm_tag N t)" "tame (nm_space0 N)" "tame (nm_line_ending N)" "tame (nm_not_line_ending N)"
    by (auto simp: tame_def laws suffix_drop suffix_dropWhile Let_def split: if_splits)
  show "tame (nms_char N c)" "tame (nms_take_while_m_n N m n g)"
    using tame_span(3) by (auto simp: tame_def laws suffix_drop Let_def split: if_splits)
qed

lemma tame_combinators:
  assumes "nom_lawful N" and "tame p"
  shows "tame (nm_map N p f)" and "tame (nm_map_res N p f)" and "tame (nm_map_opt N p f)" and "tame (nm_verify N p g)"
    and "tame (nm_value N w p)" and "tame (nm_opt N p)"
proof -
  note laws = nom_combinatorsD [OF assms(1)]
  show "tame (nm_map N p f)" "tame (nm_map_res N p f)" "tame (nm_map_opt N p f)" "tame (nm_verify N p g)" "tame (nm_value N w p)"
    using assms(2) by (auto simp: tame_def laws nom_then_Parsed nom_then_Failure split: option.splits if_splits)
  show "tame (nm_opt N p)"
    using assms(2) by (auto simp: tame_def laws split: nom_result.splits)
qed

lemma tame_recognize: "nom_lawful N \<Longrightarrow> tame p \<Longrightarrow> tame (nm_recognize N p)"
  by (auto simp: tame_def nom_combinatorsD nom_then_Parsed nom_then_Failure)

lemma tame_sequences:
  assumes "nom_lawful N" and "tame p" and "tame q"
  shows "tame (nm_pair N p q)" and "tame (nm_preceded N p q)" and "tame (nm_terminated N p q)" and "tame s \<Longrightarrow> tame (nm_delimited N p q s)"
proof -
  note laws = nom_combinatorsD [OF assms(1)]
  have eta: "tame (\<lambda>i. h i) \<Longrightarrow> tame h" for h by simp
  show "tame (nm_pair N p q)" "tame (nm_preceded N p q)" "tame (nm_terminated N p q)" "tame s \<Longrightarrow> tame (nm_delimited N p q s)"
    by (rule eta, unfold laws, intro tame_then assms tame_return; assumption)+
qed

lemma tame_tuple_result:
  "list_all tame ps \<Longrightarrow> (\<And>vs. tame (\<lambda>i. k i vs)) \<Longrightarrow> tame (\<lambda>i. tuple_result ps i k)"
  by (induction ps arbitrary: k) (auto intro: tame_then)

lemma tame_tuple: "nom_lawful N \<Longrightarrow> list_all tame ps \<Longrightarrow> tame (nm_tuple N ps)"
  using tame_tuple_result [OF _ tame_return(1)] by (simp add: tame_def nom_combinatorsD)

lemma tame_alt:
  assumes "nom_lawful N"
  shows "ps \<noteq> [] \<Longrightarrow> list_all tame ps \<Longrightarrow> tame (nm_alt N ps)"
proof (induction ps rule: induct_list012)
  case (3 p q ps)
  then have "tame p" "tame (nm_alt N (q # ps))" by simp_all
  then show ?case by (auto simp: tame_def nom_combinatorsD [OF assms] split: nom_result.splits)
qed (simp_all add: nom_combinatorsD [OF assms])

lemma tame_many0:
  assumes "nom_lawful N" and "tame p"
  shows "tame (nm_many0 N p)"
proof -
  have "nm_many0 N p i \<noteq> NomFailure \<and> (\<forall>r v. nm_many0 N p i = Parsed r v \<longrightarrow> suffix r i)" for i
  proof (induction i rule: length_induct)
    case (1 i)
    show ?case
    proof (cases "p i")
      case (Parsed r v)
      then have "suffix r i" using assms(2) by (auto simp: tame_def)
      with Parsed 1 show ?thesis
        by (auto simp: nom_repeatD(1) [OF assms(1), of p i] nom_then_Parsed nom_then_Failure intro: suffix_order.trans)
    qed (use assms in \<open>auto simp: nom_repeatD(1) tame_def\<close>)
  qed
  then show ?thesis by (simp add: tame_def)
qed

lemma tame_many1: "nom_lawful N \<Longrightarrow> tame p \<Longrightarrow> tame (nm_many1 N p)"
proof -
  assume N: "nom_lawful N" and p: "tame p"
  have "tame (\<lambda>i. nom_then (p i) (\<lambda>r v. nom_then (nm_many0 N p r) (\<lambda>r vs. Parsed r (NVec (v # out_vec vs)))))"
    by (intro tame_then p tame_many0 [OF N p] tame_return)
  then show ?thesis by (simp add: tame_def nom_repeatD(2) [OF N])
qed

lemma tame_fold_many0:
  assumes "nom_lawful N" and "tame p"
  shows "tame (nm_fold_many0 N p a f)"
proof -
  have "nm_fold_many0 N p a f i \<noteq> NomFailure \<and> (\<forall>r v. nm_fold_many0 N p a f i = Parsed r v \<longrightarrow> suffix r i)" for i
  proof (induction i arbitrary: a rule: length_induct)
    case (1 i)
    show ?case
    proof (cases "p i")
      case (Parsed r v)
      then have "suffix r i" using assms(2) by (auto simp: tame_def)
      with Parsed 1 show ?thesis
        by (simp add: nom_repeatD(3) [OF assms(1), of p a f i]) (meson suffix_order.trans)
    qed (use assms in \<open>auto simp: nom_repeatD(3) tame_def\<close>)
  qed
  then show ?thesis by (simp add: tame_def)
qed

lemmas tame_rules = tame_tokens tame_combinators tame_recognize tame_sequences tame_tuple tame_alt tame_many0 tame_many1 tame_fold_many0

lemma tame_strings:
  assumes "nom_lawful N"
  shows "tame (parse_string N)"
  unfolding parse_string_def parse_fragment_def parse_literal_def parse_escaped_char_def parse_escaped_whitespace_def parse_unicode_def Let_def
  using assms by (simp add: tame_rules)

lemma tame_numbers:
  assumes "nom_lawful N"
  shows "tame (decimal N)" and "tame (float N pf)" and "tame (uint_value N)" and "tame (msg_identifier N)"
  unfolding decimal_def float_def uint_value_def msg_identifier_def using assms by (simp_all add: tame_rules)

lemma tame_types:
  assumes "nom_lawful N"
  shows "tame (type_spec N)"
proof -
  have eta: "tame (\<lambda>i. h i) \<Longrightarrow> tame h" for h by simp
  have shape: "tame (\<lambda>i. case v of
              NTuple [NBase base, NOpt None] \<Rightarrow> Parsed i (NType \<lparr>tn_base = base, tn_array_spec = None\<rparr>)
            | NTuple [NBase base, NOpt (Some (NArray array_spec))] \<Rightarrow> Parsed i (NType \<lparr>tn_base = base, tn_array_spec = Some array_spec\<rparr>)
            | _ \<Rightarrow> NomPanic)" for v
    by (simp add: tame_def split: nom_value.splits list.splits option.splits)
  show ?thesis
    by (rule eta, unfold type_spec_def Let_def, rule tame_then [OF _ shape])
      (use assms tame_numbers [OF assms] in \<open>simp add: tame_rules\<close>)
qed

lemma tame_line:
  assumes "nom_lawful N"
  shows "tame (nm_pair N (nm_alt N [item N pf mode, just_space N]) (nm_opt N (parse_comment N)))"
proof -
  note parts = tame_strings [OF assms] tame_numbers [OF assms] tame_types [OF assms]
  have eta: "tame (\<lambda>i. h i) \<Longrightarrow> tame h" for h by simp
  have v: "tame (value_spec N pf mode)"
    unfolding value_spec_def Let_def using assms parts by (simp add: tame_rules)
  have "tame (field_item N)"
    by (rule eta, unfold field_item_def, intro tame_then tame_return parts tame_tokens assms)
  moreover have "tame (const_item N pf mode)"
    by (rule eta, unfold const_item_def, intro tame_then tame_return parts v tame_tokens assms)
  ultimately show ?thesis
    unfolding item_def just_space_def parse_comment_def using assms by (simp add: tame_rules)
qed

subsection \<open>Lines\<close>

text \<open>Consecutive successes of a parser: their outputs and the input that is left.\<close>

inductive takes :: "nom_parser \<Rightarrow> string \<Rightarrow> nom_value list \<Rightarrow> string \<Rightarrow> bool" for p where
  takes_none: "takes p i [] i"
| takes_one: "p i = Parsed r v \<Longrightarrow> takes p r vs s \<Longrightarrow> takes p i (v # vs) s"

lemma line_consumes:
  assumes "nom_lawful N" and "line_spec N pf mode i = Parsed r v"
  shows "length r < length i"
proof -
  obtain j w where j: "nm_pair N (nm_alt N [item N pf mode, just_space N]) (nm_opt N (parse_comment N)) i = Parsed j v"
    "nm_line_ending N j = Parsed r w"
    using assms(2) by (auto simp: line_spec_def nom_combinatorsD(13) [OF assms(1)] nom_then_Parsed)
  have "length j \<le> length i" using tame_line [OF assms(1), of pf mode] j(1) unfolding tame_def by (blast intro: suffix_length_le)
  moreover have "length r < length j"
    using j(2) by (cases j) (auto simp: nom_tokensD(7) [OF assms(1)] split: if_splits)
  ultimately show ?thesis by simp
qed

lemma line_not_failure: "nom_lawful N \<Longrightarrow> line_spec N pf mode i \<noteq> NomFailure"
  using tame_sequences(3) [OF _ tame_line tame_tokens(7)] by (simp add: line_spec_def tame_def)

lemma many0_takes:
  assumes "nom_lawful N" and "\<And>i r v. p i = Parsed r v \<Longrightarrow> length r < length i"
  shows "\<exists>vs r. takes p i vs r \<and> (if p r = NomError then nm_many0 N p i = Parsed r (NVec vs)
    else nm_many0 N p i = p r \<and> (\<forall>s v. p r \<noteq> Parsed s v))"
proof (induction i rule: length_induct)
  case (1 i)
  note many = nom_repeatD(1) [OF assms(1), of p i]
  show ?case
  proof (cases "p i")
    case (Parsed j v)
    with 1 assms(2) obtain vs r where t: "takes p j vs r" "if p r = NomError then nm_many0 N p j = Parsed r (NVec vs)
        else nm_many0 N p j = p r \<and> (\<forall>s v. p r \<noteq> Parsed s v)" by blast
    then have "takes p i (v # vs) r" using Parsed by (auto intro: takes_one)
    with t(2) Parsed assms(2) [OF Parsed] many show ?thesis
      by (intro exI [of _ "v # vs"] exI [of _ r]) (cases "p r"; auto)
  qed (use many in \<open>auto intro!: exI [of _ "[]"] exI [of _ i] takes_none\<close>)
qed

text \<open>What the parser makes of any input: it takes the lines it can parse, and at the first it cannot it
  stops and reports success with the rest left over, unless that line is incomplete or panics.\<close>

lemma msg_spec_takes_lines:
  assumes "nom_lawful N"
  shows "\<exists>vs r. takes (line_spec N pf mode) i vs r
    \<and> (msg_spec N pf mode i = Parsed r (NVec vs) \<and> line_spec N pf mode r = NomError
       \<or> msg_spec N pf mode i = line_spec N pf mode r \<and> line_spec N pf mode r \<in> {NomIncomplete, NomPanic})"
proof -
  obtain vs r where "takes (line_spec N pf mode) i vs r"
    "if line_spec N pf mode r = NomError then nm_many0 N (line_spec N pf mode) i = Parsed r (NVec vs)
     else nm_many0 N (line_spec N pf mode) i = line_spec N pf mode r \<and> (\<forall>s v. line_spec N pf mode r \<noteq> Parsed s v)"
    using many0_takes [of N "line_spec N pf mode" i] line_consumes [OF assms, of pf mode] assms by blast
  then show ?thesis using line_not_failure [OF assms, of pf mode r]
    by (intro exI [of _ vs] exI [of _ r]) (cases "line_spec N pf mode r"; auto simp: msg_spec_def)
qed

subsection \<open>Tokens\<close>

definition stops :: "(char \<Rightarrow> bool) \<Rightarrow> string \<Rightarrow> bool" where
  "stops Q r \<longleftrightarrow> (case r of [] \<Rightarrow> True | c # _ \<Rightarrow> \<not> Q c)"

lemma stops_simps [simp]: "stops Q []" "stops Q (c # r) \<longleftrightarrow> \<not> Q c"
  by (simp_all add: stops_def)

lemma stops_while: "stops Q r \<Longrightarrow> takeWhile Q r = [] \<and> dropWhile Q r = r"
  by (cases r) simp_all

lemma run_while:
  assumes "list_all Q s" and "stops Q r"
  shows "takeWhile Q (s @ r) = s" and "dropWhile Q (s @ r) = r"
  using assms stops_while [OF assms(2)] by (auto simp: list_all_iff takeWhile_append2 dropWhile_append2)

lemma span1_run: "list_all Q s \<Longrightarrow> s \<noteq> [] \<Longrightarrow> stops Q r \<Longrightarrow> span1 Q (s @ r) = Parsed r (NStr s)"
  by (simp add: span1_def run_while)

lemma take_consumed: "take (length i - length (dropWhile Q i)) i = takeWhile Q i"
proof -
  have "length i - length (dropWhile Q i) = length (takeWhile Q i)" by (metis add_diff_cancel_right' length_append takeWhile_dropWhile_id)
  then show ?thesis by (simp only: takeWhile_eq_take [symmetric])
qed

text \<open>A repetition whose steps stay inside a run of characters takes the whole run.\<close>

lemma many0_run:
  assumes "nom_lawful N"
    and step: "\<And>i. I i \<Longrightarrow> p i = NomError \<and> stops Q i
      \<or> (\<exists>r v. p i = Parsed r v \<and> length r < length i \<and> dropWhile Q r = dropWhile Q i \<and> I r)"
    and "I i"
  shows "\<exists>vs. nm_many0 N p i = Parsed (dropWhile Q i) (NVec vs)"
  using assms(3)
proof (induction i rule: length_induct)
  case (1 i)
  from step [OF 1(2)] show ?case
  proof (elim disjE exE conjE)
    assume "p i = NomError" "stops Q i"
    then show ?thesis by (simp add: nom_repeatD(1) [OF assms(1), of p i] stops_while)
  next
    fix r v assume r: "p i = Parsed r v" "length r < length i" "dropWhile Q r = dropWhile Q i" "I r"
    with 1(1) obtain vs where "nm_many0 N p r = Parsed (dropWhile Q i) (NVec vs)" by metis
    with r show ?thesis by (simp add: nom_repeatD(1) [OF assms(1), of p i])
  qed
qed

lemma many1_run:
  assumes "nom_lawful N"
    and "\<And>i. I i \<Longrightarrow> p i = NomError \<and> stops Q i
      \<or> (\<exists>r v. p i = Parsed r v \<and> length r < length i \<and> dropWhile Q r = dropWhile Q i \<and> I r)"
    and "p i = Parsed r v" and "dropWhile Q r = dropWhile Q i" and "I r"
  shows "nm_recognize N (nm_many1 N p) i = Parsed (dropWhile Q i) (NStr (takeWhile Q i))"
  using many0_run [OF assms(1), where I = I, OF assms(2,5)] assms(3,4)
  by (auto simp: nom_combinatorsD(9) [OF assms(1)] nom_repeatD(2) [OF assms(1)] take_consumed)

definition is_ident_char :: "char \<Rightarrow> bool" where
  "is_ident_char c \<longleftrightarrow> is_ascii_alphanumeric c \<or> c = CHR ''_''"

definition is_decimal_char :: "char \<Rightarrow> bool" where
  "is_decimal_char c \<longleftrightarrow> is_ascii_digit c \<or> c = CHR ''_''"

lemma dropWhile_weaker: "(\<And>x. P x \<Longrightarrow> Q x) \<Longrightarrow> dropWhile Q (dropWhile P xs) = dropWhile Q xs"
  by (induction xs) simp_all

lemma identifier_run:
  assumes "nom_lawful N"
  shows "msg_identifier N i = span1 is_ident_char i"
proof -
  let ?p = "nm_alt N [nm_alphanumeric1 N, nm_tag N ''_'']"
  note laws = nom_combinatorsD [OF assms] nom_tokensD [OF assms]
  have step: "?p i = NomError \<and> stops is_ident_char i
      \<or> (\<exists>r v. ?p i = Parsed r v \<and> length r < length i \<and> dropWhile is_ident_char r = dropWhile is_ident_char i)" for i
  proof (cases i)
    case (Cons c t)
    have "dropWhile is_ident_char (dropWhile is_ascii_alphanumeric t) = dropWhile is_ident_char t"
      by (rule dropWhile_weaker) (simp add: is_ident_char_def)
    moreover have "length (dropWhile is_ascii_alphanumeric t) \<le> length t" by (rule length_dropWhile_le)
    moreover have "is_ascii_alphanumeric c \<Longrightarrow> c \<noteq> CHR ''_''"
      by (auto simp: is_ascii_alphanumeric_def is_ascii_alphabetic_def is_ascii_digit_def)
    ultimately show ?thesis using Cons by (auto simp: laws span1_def is_ident_char_def)
  qed (simp add: laws span1_def)
  show ?thesis
  proof (cases "stops is_ident_char i")
    case True
    with step [of i] have "?p i = NomError" by (cases i) (auto simp: laws span1_def is_ident_char_def)
    with True show ?thesis
      by (simp add: msg_identifier_def laws nom_repeatD(2) [OF assms] span1_def stops_while)
  next
    case False
    with step [of i] obtain r v where "?p i = Parsed r v" "dropWhile is_ident_char r = dropWhile is_ident_char i" by auto
    from many1_run [OF assms, where I = "\<lambda>_. True" and p = ?p and Q = is_ident_char, OF _ this] step False
    show ?thesis by (cases i) (auto simp: msg_identifier_def laws(3) span1_def)
  qed
qed

lemma digits_set: "c \<in> set ''0123456789'' \<longleftrightarrow> is_ascii_digit c"
proof
  assume "is_ascii_digit c"
  then have "(of_char c :: nat) \<in> {48..57}" by (simp add: is_ascii_digit_def)
  then have "(of_char c :: nat) \<in> set [48, 49, 50, 51, 52, 53, 54, 55, 56, 57]" by (simp add: atLeastAtMost_iff) presburger
  then have "(of_char c :: nat) \<in> of_char ` set ''0123456789''" by simp
  then show "c \<in> set ''0123456789''" by (simp only: image_iff of_char_eq_iff) blast
qed (auto simp: is_ascii_digit_def)

lemma decimal_run:
  assumes "nom_lawful N"
  shows "decimal N i = (if stops is_ascii_digit i then NomError else Parsed (dropWhile is_decimal_char i) (NStr (takeWhile is_decimal_char i)))"
proof -
  let ?u = "\<lambda>d. d = CHR ''_''"
  let ?p = "nm_terminated N (nm_one_of N ''0123456789'') (nm_many0 N (nm_char N (CHR ''_'')))"
  note laws = nom_combinatorsD [OF assms] nom_tokensD [OF assms]
  have under: "\<exists>vs. nm_many0 N (nm_char N (CHR ''_'')) i = Parsed (dropWhile ?u i) (NVec vs)" for i
    by (rule many0_run [OF assms, where I = "\<lambda>_. True"]) (simp_all add: laws first_char_def split: list.split)
  have p: "?p i = (if stops is_ascii_digit i then NomError else Parsed (dropWhile ?u (tl i)) (NChar [hd i]))" for i
    using under [of "tl i"] by (cases i) (auto simp: laws first_char_def digits_set simp del: list.set)
  have drop: "dropWhile is_decimal_char (dropWhile ?u (tl i)) = dropWhile is_decimal_char i" if "\<not> stops is_ascii_digit i" for i
    using that dropWhile_weaker [of ?u is_decimal_char "tl i"] by (cases i) (auto simp: is_decimal_char_def)
  have step: "?p i = NomError \<and> stops is_decimal_char i
      \<or> (\<exists>r v. ?p i = Parsed r v \<and> length r < length i \<and> dropWhile is_decimal_char r = dropWhile is_decimal_char i \<and> stops ?u r)"
    if "stops ?u i" for i
  proof (cases "stops is_ascii_digit i")
    case True
    then have "stops is_decimal_char i" using that by (cases i) (simp_all add: is_decimal_char_def)
    with True p show ?thesis by simp
  next
    case False
    have "length (dropWhile ?u (tl i)) < length i" using False length_dropWhile_le [of ?u "tl i"] by (cases i) auto
    moreover have "stops ?u (dropWhile ?u s)" for s by (induction s) auto
    ultimately show ?thesis using False p [of i] drop [OF False] by auto
  qed
  have rest: "stops ?u (dropWhile ?u s)" for s by (induction s) auto
  show ?thesis
  proof (cases "stops is_ascii_digit i")
    case True
    with p [of i] show ?thesis by (simp add: decimal_def laws(9) nom_repeatD(2) [OF assms])
  next
    case False
    then have "?p i = Parsed (dropWhile ?u (tl i)) (NChar [hd i])" using p by simp
    from many1_run [OF assms, where I = "stops ?u" and p = ?p and Q = is_decimal_char, OF step this drop [OF False] rest] False
    show ?thesis by (simp add: decimal_def)
  qed
qed

lemma float_error:
  assumes "nom_lawful N" and "stops (\<lambda>c. is_ascii_digit c \<or> c = CHR ''.'') i"
  shows "float N pf i = NomError"
proof -
  have "stops is_ascii_digit i" "stops (\<lambda>c. c = CHR ''.'') i" using assms(2) by (cases i; simp)+
  then show ?thesis
    by (cases i) (simp_all add: float_def nom_combinatorsD [OF assms(1)] nom_tokensD [OF assms(1)] decimal_run [OF assms(1)] first_char_def)
qed

text \<open>A run of digits is no float unless a point or an exponent follows.\<close>

lemma float_of_digits:
  assumes "nom_lawful N" and "list_all is_ascii_digit ds" and "ds \<noteq> []"
    and "stops (\<lambda>c. is_decimal_char c \<or> c \<in> {CHR ''.'', CHR ''e'', CHR ''E''}) r"
  shows "float N pf (ds @ r) = NomError"
proof -
  obtain c ds' where ds: "ds = c # ds'" "is_ascii_digit c" using assms(2,3) by (cases ds) auto
  have dot: "c \<noteq> CHR ''.''" using ds(2) by (auto simp: is_ascii_digit_def)
  have "list_all is_decimal_char ds" using assms(2) by (auto simp: list_all_iff is_decimal_char_def)
  moreover have "stops is_decimal_char r" using assms(4) by (cases r) simp_all
  ultimately have "decimal N (ds @ r) = Parsed r (NStr ds)"
    using ds by (simp add: decimal_run [OF assms(1)] run_while del: append.simps) (simp add: ds)
  with ds dot assms(4) show ?thesis
    by (cases r) (simp_all add: float_def nom_combinatorsD [OF assms(1)] nom_tokensD [OF assms(1)] first_char_def)
qed

lemma uint_run:
  assumes "nom_lawful N" and "stops is_ascii_digit r"
  shows "uint_value N (show_nat (unat u) @ r) = Parsed r (NU64 u)"
proof -
  have "unat u < 2 ^ 64" using unsigned_less [of u] by simp
  then show ?thesis
    using span1_run [OF show_nat_digits show_nat_nonempty assms(2)] parse_show_nat [of "unat u" 64]
    by (simp add: uint_value_def nom_combinatorsD [OF assms(1)] nom_tokensD [OF assms(1)])
qed

lemma uint_error: "nom_lawful N \<Longrightarrow> stops is_ascii_digit i \<Longrightarrow> uint_value N i = NomError"
  by (simp add: uint_value_def nom_combinatorsD nom_tokensD span1_def stops_while)

lemma streaming_char:
  assumes "nom_lawful N"
  shows "nms_char N c (d # i) = (if d = c then Parsed i (NChar [c]) else NomError)"
  by (simp add: nom_streamingD [OF assms] first_char_def)

definition is_literal_char :: "char \<Rightarrow> bool" where
  "is_literal_char c \<longleftrightarrow> c \<noteq> CHR 0x22 \<and> c \<noteq> CHR 0x5C"

lemma literal_run:
  assumes "nom_lawful N" and "list_all is_literal_char s" and "s \<noteq> []" and "\<not> is_literal_char d"
  shows "parse_fragment N (s @ d # i) = Parsed (d # i) (NFragment (Literal s))"
proof -
  have run: "(\<lambda>c. c \<notin> set [CHR 0x22, CHR 0x5C]) = is_literal_char" by (auto simp: is_literal_char_def fun_eq_iff)
  have "stops is_literal_char (d # i)" using assms(4) by simp
  from run_while [OF assms(2) this] show ?thesis using assms(3)
    by (simp add: parse_fragment_def parse_literal_def nom_combinatorsD [OF assms(1)] nom_streamingD(2) [OF assms(1)] run streaming_span1_def del: list.set)
qed

lemma not_literal:
  assumes "nom_lawful N" and "\<not> is_literal_char c"
  shows "parse_literal N (c # i) = NomError"
proof -
  have run: "(\<lambda>c. c \<notin> set [CHR 0x22, CHR 0x5C]) = is_literal_char" by (auto simp: is_literal_char_def fun_eq_iff)
  show ?thesis using assms(2)
    by (simp add: parse_literal_def nom_combinatorsD [OF assms(1)] nom_streamingD(2) [OF assms(1)] run streaming_span1_def del: list.set)
qed

lemma quote_fragment: "nom_lawful N \<Longrightarrow> parse_fragment N (CHR 0x22 # i) = NomError"
  by (simp add: parse_fragment_def not_literal is_literal_char_def nom_combinatorsD streaming_char parse_escaped_char_def
      parse_escaped_whitespace_def)

lemma escape_fragment:
  assumes "nom_lawful N" and "\<not> is_literal_char c"
  shows "parse_fragment N (CHR 0x5C # c # i) = Parsed i (NFragment (EscapedChar [c]))"
proof -
  have "c = CHR 0x22 \<or> c = CHR 0x5C" using assms(2) by (simp add: is_literal_char_def)
  then show ?thesis
    by (auto simp: parse_fragment_def not_literal is_literal_char_def nom_combinatorsD streaming_char parse_escaped_char_def
      parse_unicode_def assms(1) Let_def)
qed

text \<open>The characters of a string with quotes and backslashes escaped.\<close>

definition escape_text :: "string \<Rightarrow> string" where
  "escape_text s = concat (map (\<lambda>c. if is_literal_char c then [c] else [CHR 0x5C, c]) s)"

lemma escape_literal: "list_all is_literal_char s \<Longrightarrow> escape_text (s @ t) = s @ escape_text t"
  by (induction s) (simp_all add: escape_text_def)

lemma build_string_run:
  assumes "nom_lawful N"
  shows "nm_fold_many0 N (parse_fragment N) (NStr a) push_fragment (escape_text s @ CHR 0x22 # i) = Parsed (CHR 0x22 # i) (NStr (a @ s))"
proof (induction s arbitrary: a rule: length_induct)
  case (1 s)
  note fold = nom_repeatD(3) [OF assms, of "parse_fragment N" "NStr a" push_fragment]
  show ?case
  proof (cases s)
    case Nil
    then show ?thesis by (simp add: fold quote_fragment [OF assms] escape_text_def)
  next
    case (Cons c t)
    show ?thesis
    proof (cases "is_literal_char c")
      case False
      then have "escape_text s = CHR 0x5C # c # escape_text t" using Cons by (simp add: escape_text_def)
      with 1 Cons show ?thesis by (simp add: fold escape_fragment [OF assms False])
    next
      case True
      let ?l = "takeWhile is_literal_char s" and ?r = "dropWhile is_literal_char s"
      have l: "list_all is_literal_char ?l" by (auto simp: list_all_iff dest: set_takeWhileD)
      have ne: "?l \<noteq> []" using True Cons by simp
      have esc: "escape_text s = ?l @ escape_text ?r" using escape_literal [OF l, of ?r] by simp
      have "?r = [] \<or> \<not> is_literal_char (hd ?r)" using hd_dropWhile by blast
      then obtain d j where d: "escape_text ?r @ CHR 0x22 # i = d # j" "\<not> is_literal_char d"
        by (cases ?r) (auto simp: escape_text_def is_literal_char_def)
      have "length ?r < length s" using Cons True length_dropWhile_le [of is_literal_char t] by simp
      then have "nm_fold_many0 N (parse_fragment N) (NStr (a @ ?l)) push_fragment (d # j) = Parsed (CHR 0x22 # i) (NStr ((a @ ?l) @ ?r))"
        using 1 d(1) by metis
      with ne show ?thesis by (simp add: esc d(1) fold literal_run [OF assms l ne d(2)])
    qed
  qed
qed

lemma string_run:
  assumes "nom_lawful N"
  shows "parse_string N (CHR 0x22 # escape_text s @ CHR 0x22 # i) = Parsed i (NStr s)"
  by (simp add: parse_string_def nom_combinatorsD [OF assms] streaming_char [OF assms] build_string_run [OF assms, of "[]", simplified])

subsection \<open>Types and values\<close>

definition ident_ok :: "string \<Rightarrow> bool" where
  "ident_ok s \<longleftrightarrow> s \<noteq> [] \<and> list_all is_ident_char s"

fun base_spec :: "base_type_name \<Rightarrow> string" where
  "base_spec (Primitive n) = n"
| "base_spec (BoundedString b) = ''string<='' @ show_nat (unat b)"
| "base_spec (ComplexType (Some p) t) = p @ ''/'' @ t"
| "base_spec (ComplexType None t) = t"

fun array_text :: "array_specifier option \<Rightarrow> string" where
  "array_text None = []"
| "array_text (Some ArrayUnbounded) = ''[]''"
| "array_text (Some (ArrayStatic n)) = ''['' @ show_nat (unat n) @ '']''"
| "array_text (Some (ArrayBounded n)) = ''[<='' @ show_nat (unat n) @ '']''"

text \<open>The types the grammar can tell apart: the name of a type or package that begins like a primitive type
  is taken for that type.\<close>

fun base_ok :: "base_type_name \<Rightarrow> bool" where
  "base_ok (Primitive n) \<longleftrightarrow> n \<in> fst ` set primitive_names"
| "base_ok (BoundedString b) = True"
| "base_ok (ComplexType p t) \<longleftrightarrow> (case p of Some s \<Rightarrow> ident_ok s | None \<Rightarrow> True) \<and> ident_ok t
     \<and> list_all (\<lambda>n. \<not> prefix n (base_spec (ComplexType p t))) (map fst primitive_names)"

lemma alt_tags:
  assumes "nom_lawful N"
  shows "ts \<noteq> [] \<Longrightarrow> nm_alt N (map (nm_tag N) ts) i
    = (case find (\<lambda>t. prefix t i) ts of Some t \<Rightarrow> Parsed (drop (length t) i) (NStr t) | None \<Rightarrow> NomError)"
proof (induction ts rule: induct_list012)
  case (2 t)
  then show ?case by (simp add: nom_combinatorsD [OF assms] nom_tokensD [OF assms])
next
  case (3 t u ts)
  then show ?case by (simp add: nom_combinatorsD [OF assms] nom_tokensD(1) [OF assms])
qed simp

definition base_parser :: "nom \<Rightarrow> nom_parser" where
  "base_parser N = nm_alt N
     [nm_map N (nm_preceded N (nm_tag N ''string<='') (uint_value N)) (\<lambda>bound. Some (NBase (BoundedString (out_u64 bound)))),
      nm_map N (nm_alt N (map (nm_tag N) (map fst primitive_names))) (\<lambda>s. Some (NBase (Primitive (out_str s)))),
      nm_map N (nm_pair N (nm_opt N (nm_terminated N (msg_identifier N) (nm_tag N ''/''))) (msg_identifier N))
            (\<lambda>v. case out_tuple v of [package_name, type_name] \<Rightarrow>
               Some (NBase (ComplexType (map_option out_str (out_opt package_name)) (out_str type_name))) | _ \<Rightarrow> None)]"

definition array_parser :: "nom \<Rightarrow> nom_parser" where
  "array_parser N = nm_delimited N (nm_char N (CHR ''['')) (nm_alt N
            [nm_map N (nm_preceded N (nm_tag N ''<='') (uint_value N)) (\<lambda>bound. Some (NArray (ArrayBounded (out_u64 bound)))),
             nm_map N (uint_value N) (\<lambda>size. Some (NArray (ArrayStatic (out_u64 size)))),
             nm_map N (nm_space0 N) (\<lambda>_. Some (NArray ArrayUnbounded))]) (nm_char N (CHR '']''))"

lemma type_spec_parts:
  "type_spec N i = nom_then (nm_pair N (base_parser N) (nm_opt N (array_parser N)) i)
           (\<lambda>i v. case v of
              NTuple [NBase base, NOpt None] \<Rightarrow> Parsed i (NType \<lparr>tn_base = base, tn_array_spec = None\<rparr>)
            | NTuple [NBase base, NOpt (Some (NArray array_spec))] \<Rightarrow> Parsed i (NType \<lparr>tn_base = base, tn_array_spec = Some array_spec\<rparr>)
            | _ \<Rightarrow> NomPanic)"
  by (simp add: type_spec_def base_parser_def array_parser_def primitive_names_def Let_def)

text \<open>What may follow a type: a space, or the bracket of an array.\<close>

definition after_type :: "string \<Rightarrow> bool" where
  "after_type r \<longleftrightarrow> r \<noteq> [] \<and> (hd r = CHR '' '' \<or> hd r = CHR ''['')"

lemma after_type_stops:
  assumes "after_type r"
  shows "stops is_ident_char r" and "stops is_ascii_digit r" and "\<not> prefix ''<='' r" and "\<not> prefix ''/'' r"
  using assms by (cases r; auto simp: after_type_def is_ident_char_def is_ascii_alphanumeric_def is_ascii_alphabetic_def is_ascii_digit_def)+

lemma prefix_inside:
  assumes "prefix n (s @ r)" and "list_all Q n" and "stops Q r"
  shows "prefix n s"
proof -
  obtain z where z: "s @ r = n @ z" using assms(1) by (auto simp: prefix_def)
  then consider us where "s = n @ us" | us where "n = s @ us" "us @ z = r" by (auto simp: append_eq_append_conv2)
  then show ?thesis
  proof cases
    case 2
    then show ?thesis using assms(2,3) by (cases us) auto
  qed simp
qed

lemma primitive_idents: "list_all (list_all is_ident_char) (map fst primitive_names)"
  by (simp add: primitive_names_def is_ident_char_def is_ascii_alphanumeric_def is_ascii_alphabetic_def is_ascii_digit_def)

lemma primitives_found: "list_all (\<lambda>n. find (\<lambda>t. prefix t (n @ r)) (map fst primitive_names) = Some n) (map fst primitive_names)"
  by (simp add: primitive_names_def)

lemma primitives_unbounded: "\<not> prefix ''<='' r \<Longrightarrow> list_all (\<lambda>n. \<not> prefix ''string<='' (n @ r)) (map fst primitive_names)"
  by (simp add: primitive_names_def)

lemma base_run:
  assumes "nom_lawful N" and "base_ok b" and "after_type r"
  shows "base_parser N (base_spec b @ r) = Parsed r (NBase b)"
proof -
  note laws = nom_combinatorsD [OF assms(1)] nom_tokensD(1) [OF assms(1)] identifier_run [OF assms(1)]
  note ends = after_type_stops [OF assms(3)]
  have tags: "nm_alt N (map (nm_tag N) (map fst primitive_names)) i =
      (case find (\<lambda>t. prefix t i) (map fst primitive_names) of Some t \<Rightarrow> Parsed (drop (length t) i) (NStr t) | None \<Rightarrow> NomError)" for i
    by (rule alt_tags [OF assms(1)]) (simp add: primitive_names_def)
  show ?thesis
  proof (cases b)
    case (Primitive n)
    then have "n \<in> set (map fst primitive_names)" using assms(2) by simp
    then have found: "find (\<lambda>t. prefix t (n @ r)) (map fst primitive_names) = Some n" and bound: "\<not> prefix ''string<='' (n @ r)"
      using primitives_found [of r] primitives_unbounded [OF ends(3)] unfolding list_all_iff by blast+
    show ?thesis unfolding Primitive base_parser_def base_spec.simps by (simp add: laws tags found bound del: list.map_comp map_map)
  next
    case (BoundedString u)
    then show ?thesis by (simp add: base_parser_def laws uint_run [OF assms(1) ends(2)])
  next
    case (ComplexType p t)
    let ?s = "base_spec b"
    have none: "find (\<lambda>n. prefix n (?s @ r)) (map fst primitive_names) = None"
      using assms(2) ComplexType primitive_idents prefix_inside [OF _ _ ends(1), of _ ?s]
      by (auto simp: find_None_iff list_all_iff)
    then have "\<not> prefix ''string'' (?s @ r)" unfolding find_None_iff by (auto simp: primitive_names_def)
    then have bound: "\<not> prefix ''string<='' (?s @ r)"
      using prefix_order.trans [of "''string''" "''string<=''" "?s @ r"] by auto
    have slash: "stops is_ident_char (CHR ''/'' # i)" for i
      by (simp add: is_ident_char_def is_ascii_alphanumeric_def is_ascii_alphabetic_def is_ascii_digit_def)
    have t: "span1 is_ident_char (t @ r) = Parsed r (NStr t)"
      using assms(2) ComplexType ends(1) by (simp add: span1_run ident_ok_def)
    have "base_parser N (?s @ r) = nm_map N (nm_pair N (nm_opt N (nm_terminated N (msg_identifier N) (nm_tag N ''/''))) (msg_identifier N))
            (\<lambda>v. case out_tuple v of [package_name, type_name] \<Rightarrow>
               Some (NBase (ComplexType (map_option out_str (out_opt package_name)) (out_str type_name))) | _ \<Rightarrow> None) (?s @ r)"
      unfolding base_parser_def by (simp only: laws tags none bound if_False nom_then.simps option.case nom_result.case)
    also have "\<dots> = Parsed r (NBase b)"
    proof (cases p)
      case None
      with ComplexType t ends(4) show ?thesis by (simp add: laws)
    next
      case (Some q)
      have "span1 is_ident_char (q @ CHR ''/'' # t @ r) = Parsed (CHR ''/'' # t @ r) (NStr q)"
        using assms(2) ComplexType Some span1_run [OF _ _ slash] by (simp add: ident_ok_def)
      with ComplexType Some t show ?thesis by (simp add: laws)
    qed
    finally show ?thesis .
  qed
qed

lemma array_run:
  assumes "nom_lawful N"
  shows "nm_opt N (array_parser N) (array_text a @ CHR '' '' # r) = Parsed (CHR '' '' # r) (NOpt (map_option NArray a))"
proof -
  note laws = nom_combinatorsD [OF assms(1)] nom_tokensD [OF assms(1)] first_char_def
  have close: "stops is_ascii_digit (CHR '']'' # i)" "stops is_ascii_digit (CHR ''<'' # i)" for i by (simp_all add: is_ascii_digit_def)
  have digit: "\<not> prefix ''<='' (show_nat n @ i)" for n i
    using show_nat_digits [of n] show_nat_nonempty [of n] by (cases "show_nat n") (auto simp: is_ascii_digit_def)
  note digits = uint_run [OF assms close(1)] uint_error [OF assms close(1)] uint_error [OF assms close(2)]
  show ?thesis by (cases a rule: array_text.cases) (simp_all add: array_parser_def laws digits digit is_blank_def)
qed

fun type_text_of :: "msg_type_name \<Rightarrow> string" where
  "type_text_of t = base_spec (tn_base t) @ array_text (tn_array_spec t)"

lemma type_run:
  assumes "nom_lawful N" and "base_ok (tn_base t)"
  shows "type_spec N (type_text_of t @ CHR '' '' # r) = Parsed (CHR '' '' # r) (NType t)"
proof -
  have "after_type (array_text (tn_array_spec t) @ CHR '' '' # r)"
    by (cases "tn_array_spec t" rule: array_text.cases) (simp_all add: after_type_def)
  from base_run [OF assms this] array_run [OF assms(1), of "tn_array_spec t" r] show ?thesis
    by (cases "tn_array_spec t") (simp_all add: type_spec_parts nom_combinatorsD(10) [OF assms(1)])
qed

text \<open>The end of an item in a line: a comment or the end of the line.\<close>

definition item_end :: "string \<Rightarrow> bool" where
  "item_end r \<longleftrightarrow> r \<noteq> [] \<and> (hd r = CHR ''#'' \<or> hd r = CHR 0x0A)"

fun value_text :: "msg_value \<Rightarrow> string" where
  "value_text (ValueBool b) = (if b then ''true'' else ''false'')"
| "value_text (ValueInt i) = show_int i"
| "value_text (ValueUint u) = show_nat (unat u)"
| "value_text (ValueString s) = [CHR 0x22] @ escape_text s @ [CHR 0x22]"
| "value_text (ValueFloat f) = []"

fun value_ok :: "msg_value \<Rightarrow> bool" where
  "value_ok (ValueInt i) \<longleftrightarrow> - (2 ^ 63) < i \<and> i < 0"
| "value_ok (ValueFloat f) = False"
| "value_ok _ = True"

lemma value_run:
  assumes "nom_lawful N" and "value_ok v" and "item_end r"
  shows "value_spec N pf mode (value_text v @ r) = Parsed r (NValue v)"
proof -
  note laws = nom_combinatorsD [OF assms(1)] nom_tokensD(1) [OF assms(1)]
  have ends: "stops (\<lambda>c. is_decimal_char c \<or> c \<in> {CHR ''.'', CHR ''e'', CHR ''E''}) r" "stops is_ascii_digit r"
    using assms(3) by (cases r; auto simp: item_end_def is_decimal_char_def is_ascii_digit_def)+
  have no_tag: "\<not> prefix ''false'' (show_nat n @ i)" "\<not> prefix ''true'' (show_nat n @ i)" "\<not> prefix ''-'' (show_nat n @ i)" for n i
    using show_nat_digits [of n] show_nat_nonempty [of n] by (cases "show_nat n"; auto simp: is_ascii_digit_def)+
  note digits = float_of_digits [OF assms(1) show_nat_digits show_nat_nonempty ends(1)] uint_run [OF assms(1) ends(2)]
  show ?thesis
  proof (cases v)
    case (ValueInt i)
    let ?n = "nat (- i)"
    have n: "?n < 2 ^ 63" "int ?n = - i" using assms(2) ValueInt by auto
    then have u: "unat (of_nat ?n :: 64 word) = ?n" by (simp add: unat_of_nat)
    then have "uint_value N (show_nat ?n @ r) = Parsed r (NU64 (of_nat ?n))" using digits(2) [of "of_nat ?n"] by simp
    moreover have "signed_result mode 64 (- wrap_signed 64 (uint (of_nat ?n :: 64 word))) = Some i"
    proof -
      have "uint (of_nat ?n :: 64 word) = - i" using u n(2) by (metis uint_nat)
      then show ?thesis using n assms(2) ValueInt by (simp add: in_signed_def)
    qed
    moreover have "stops (\<lambda>c. is_ascii_digit c \<or> c = CHR ''.'') (CHR ''-'' # s)" for s by (simp add: is_ascii_digit_def)
    ultimately show ?thesis using ValueInt assms(2)
      by (simp add: value_spec_def laws float_error [OF assms(1)] show_int_def)
  next
    case (ValueString s)
    have "stops (\<lambda>c. is_ascii_digit c \<or> c = CHR ''.'') (CHR 0x22 # i)" "stops is_ascii_digit (CHR 0x22 # i)" for i by (simp_all add: is_ascii_digit_def)
    then show ?thesis using ValueString string_run [OF assms(1), of s r]
      by (simp add: value_spec_def laws float_error [OF assms(1)] uint_error [OF assms(1)])
  qed (use assms(2) in \<open>simp_all add: value_spec_def laws no_tag digits\<close>)
qed

subsection \<open>Lines of an interface file\<close>

fun item_text :: "msg_item option \<Rightarrow> string" where
  "item_text None = []"
| "item_text (Some (Field t n _)) = type_text_of t @ '' '' @ n"
| "item_text (Some (Constant t n v)) = type_text_of t @ '' '' @ n @ ''='' @ value_text v"

fun comment_text :: "msg_comment option \<Rightarrow> string" where
  "comment_text None = []"
| "comment_text (Some (MsgComment c)) = c"

definition line_text :: "msg_line \<Rightarrow> string" where
  "line_text l = item_text (fst l) @ comment_text (snd l) @ [CHR 0x0A]"

fun item_ok :: "msg_item option \<Rightarrow> bool" where
  "item_ok None = True"
| "item_ok (Some (Field t n d)) \<longleftrightarrow> base_ok (tn_base t) \<and> ident_ok n \<and> d = None"
| "item_ok (Some (Constant t n v)) \<longleftrightarrow> base_ok (tn_base t) \<and> ident_ok n \<and> value_ok v"

fun comment_ok :: "msg_comment option \<Rightarrow> bool" where
  "comment_ok None = True"
| "comment_ok (Some (MsgComment c)) \<longleftrightarrow> prefix ''#'' c \<and> list_all (\<lambda>c. \<not> is_eol c) c"

definition line_ok :: "msg_line \<Rightarrow> bool" where
  "line_ok l \<longleftrightarrow> item_ok (fst l) \<and> comment_ok (snd l)"

definition line_value :: "msg_line \<Rightarrow> nom_value" where
  "line_value l = NTuple [NOpt (map_option NItem (fst l)), NOpt (map_option NComment (snd l))]"

lemma item_end_stops:
  assumes "item_end r"
  shows "stops is_ident_char r" and "stops is_blank r" and "\<not> prefix ''='' r"
  using assms by (cases r; auto simp: item_end_def is_blank_def is_ident_char_def is_ascii_alphanumeric_def is_ascii_alphabetic_def is_ascii_digit_def)+

lemma ident_not_blank: "is_ident_char c \<Longrightarrow> \<not> is_blank c"
  by (auto simp: is_blank_def is_ident_char_def is_ascii_alphanumeric_def is_ascii_alphabetic_def is_ascii_digit_def)

lemma ident_starts: "ident_ok s \<Longrightarrow> stops is_blank (s @ r)"
  by (cases s) (auto simp: ident_ok_def ident_not_blank)

lemma type_starts:
  assumes "base_ok (tn_base t)"
  shows "stops is_blank (type_text_of t @ r)"
proof (cases "tn_base t" rule: base_spec.cases)
  case (1 n)
  then have "ident_ok n" using assms primitive_idents by (auto simp: ident_ok_def list_all_iff primitive_names_def)
  then show ?thesis using 1 ident_starts [of n] by simp
next
  case (2 b)
  then show ?thesis by (simp add: is_blank_def)
next
  case (3 p n)
  then show ?thesis using assms ident_starts [of p] by simp
next
  case (4 n)
  then show ?thesis using assms ident_starts [of n] by simp
qed

lemma type_error:
  assumes "nom_lawful N" and "stops is_ident_char i"
  shows "type_spec N i = NomError"
proof -
  have no: "\<not> prefix n i" if "n \<noteq> []" "is_ident_char (hd n)" for n
    using assms(2) that by (cases n; cases i) auto
  have tags: "nm_alt N (map (nm_tag N) (map fst primitive_names)) i =
      (case find (\<lambda>t. prefix t i) (map fst primitive_names) of Some t \<Rightarrow> Parsed (drop (length t) i) (NStr t) | None \<Rightarrow> NomError)"
    by (rule alt_tags [OF assms(1)]) (simp add: primitive_names_def)
  have none: "find (\<lambda>n. prefix n i) (map fst primitive_names) = None"
  proof -
    have "list_all (\<lambda>n. n \<noteq> [] \<and> is_ident_char (hd n)) (map fst primitive_names)"
      by (simp add: primitive_names_def is_ident_char_def is_ascii_alphanumeric_def is_ascii_alphabetic_def is_ascii_digit_def)
    then show ?thesis using no by (auto simp: find_None_iff list_all_iff)
  qed
  have bound: "\<not> prefix ''string<='' i"
    by (rule no) (simp_all add: is_ident_char_def is_ascii_alphanumeric_def is_ascii_alphabetic_def)
  have "base_parser N i = NomError"
    unfolding base_parser_def
    by (simp add: nom_combinatorsD [OF assms(1)] nom_tokensD(1) [OF assms(1)] tags none bound identifier_run [OF assms(1)] span1_def
        stops_while [OF assms(2)] del: map_map list.map_comp)
  then show ?thesis by (simp add: type_spec_parts nom_combinatorsD(10) [OF assms(1)])
qed

lemma item_run:
  assumes "nom_lawful N" and "item_ok (Some it)" and "item_end r"
  shows "item N pf mode (item_text (Some it) @ r) = Parsed r (NOpt (Some (NItem it)))"
proof -
  note laws = nom_combinatorsD [OF assms(1)] nom_tokensD(1,6) [OF assms(1)] identifier_run [OF assms(1)]
  note ends = item_end_stops [OF assms(3)]
  have name: "span1 is_ident_char (n @ s) = Parsed s (NStr n)" if "ident_ok n" "stops is_ident_char s" for n s
    using that by (simp add: span1_run ident_ok_def)
  have skip: "dropWhile is_blank (n @ s) = n @ s" "is_blank (CHR '' '')" if "ident_ok n" for n s
    using stops_while [OF ident_starts [OF that, of s]] by (simp_all add: is_blank_def)
  have eq: "stops is_ident_char (CHR ''='' # s)" "\<not> is_blank (CHR ''='')" for s
    by (simp_all add: is_blank_def is_ident_char_def is_ascii_alphanumeric_def is_ascii_alphabetic_def is_ascii_digit_def)
  show ?thesis
  proof (cases it)
    case (Field t n d)
    then have ok: "base_ok (tn_base t)" "ident_ok n" "d = None" using assms(2) by simp_all
    note t = type_run [OF assms(1) ok(1), of "n @ r"]
    have "const_item N pf mode (type_text_of t @ CHR '' '' # n @ r) = NomError"
      unfolding const_item_def t by (simp add: laws skip [OF ok(2)] name [OF ok(2) ends(1)] stops_while [OF ends(2)] ends(3))
    moreover have "field_item N (type_text_of t @ CHR '' '' # n @ r) = Parsed r (NItem it)"
      unfolding field_item_def t using Field ok(3) by (simp add: laws skip [OF ok(2)] name [OF ok(2) ends(1)])
    ultimately show ?thesis using Field stops_while [OF type_starts [OF ok(1), of "CHR '' '' # n @ r"]] stops_while [OF ends(2)]
      by (simp add: item_def laws del: type_text_of.simps)
  next
    case (Constant t n v)
    then have ok: "base_ok (tn_base t)" "ident_ok n" "value_ok v" using assms(2) by simp_all
    have blank: "stops is_blank (value_text v @ r)"
      using ok(3) show_nat_digits show_nat_nonempty
      by (cases v; cases "show_nat (case v of ValueInt i \<Rightarrow> nat (- i) | ValueUint u \<Rightarrow> unat u | _ \<Rightarrow> 0)")
        (auto simp: is_blank_def show_int_def is_ascii_digit_def dest: arg_cong [where f = "list_all is_ascii_digit"])
    note t = type_run [OF assms(1) ok(1), of "n @ CHR ''='' # value_text v @ r"]
    have "const_item N pf mode (type_text_of t @ CHR '' '' # n @ CHR ''='' # value_text v @ r) = Parsed r (NItem it)"
      unfolding const_item_def t using Constant
      by (simp add: laws skip [OF ok(2)] name [OF ok(2) eq(1)] eq(2) stops_while [OF blank] value_run [OF assms(1) ok(3) assms(3)])
    then show ?thesis
      using Constant stops_while [OF type_starts [OF ok(1), of "CHR '' '' # n @ CHR ''='' # value_text v @ r"]] stops_while [OF ends(2)]
      by (simp add: item_def laws del: type_text_of.simps)
  qed
qed

lemma no_item:
  assumes "nom_lawful N" and "item_end r"
  shows "item N pf mode r = NomError"
  using item_end_stops [OF assms(2)] stops_while [OF item_end_stops(2) [OF assms(2)]]
  by (simp add: item_def nom_combinatorsD [OF assms(1)] nom_tokensD(6) [OF assms(1)] const_item_def field_item_def type_error [OF assms(1)])

lemma comment_run:
  assumes "nom_lawful N" and "comment_ok c"
  shows "nm_opt N (parse_comment N) (comment_text c @ CHR 0x0A # r) = Parsed (CHR 0x0A # r) (NOpt (map_option NComment c))"
proof (cases c rule: comment_text.cases)
  case 1
  then show ?thesis by (simp add: parse_comment_def nom_combinatorsD [OF assms(1)] nom_tokensD [OF assms(1)])
next
  case (2 s)
  then obtain b where s: "s = CHR ''#'' # b" "list_all (\<lambda>c. \<not> is_eol c) b" using assms(2) by (cases s) auto
  have "stops (\<lambda>c. \<not> is_eol c) (CHR 0x0A # r)" by (simp add: is_eol_def)
  from run_while [OF s(2) this] show ?thesis using 2 s(1)
    by (simp add: parse_comment_def nom_combinatorsD [OF assms(1)] nom_tokensD [OF assms(1)])
qed

lemma line_run:
  assumes "nom_lawful N" and "line_ok l"
  shows "line_spec N pf mode (line_text l @ r) = Parsed r (line_value l)"
proof -
  let ?r = "comment_text (snd l) @ CHR 0x0A # r"
  note laws = nom_combinatorsD [OF assms(1)] nom_tokensD(6,7) [OF assms(1)]
  have ok: "item_ok (fst l)" "comment_ok (snd l)" using assms(2) by (simp_all add: line_ok_def)
  have e: "item_end ?r"
    using ok(2) by (cases "snd l" rule: comment_text.cases) (auto simp: item_end_def prefix_def)
  have "nm_alt N [item N pf mode, just_space N] (item_text (fst l) @ ?r) = Parsed ?r (NOpt (map_option NItem (fst l)))"
  proof (cases "fst l")
    case None
    then show ?thesis by (simp add: laws no_item [OF assms(1) e] just_space_def stops_while [OF item_end_stops(2) [OF e]])
  next
    case (Some it)
    then show ?thesis using item_run [OF assms(1) _ e, of it] ok(1) by (simp add: laws(2))
  qed
  then show ?thesis
    by (simp add: line_spec_def line_text_def line_value_def laws(10,13,16) comment_run [OF assms(1) ok(2)])
qed

lemma many0_texts:
  assumes "nom_lawful N" and "\<And>l r. l \<in> set ls \<Longrightarrow> p (f l @ r) = Parsed r (g l)" and "\<And>l. l \<in> set ls \<Longrightarrow> f l \<noteq> []" and "p r = NomError"
  shows "nm_many0 N p (concat (map f ls) @ r) = Parsed r (NVec (map g ls))"
  using assms(2,3)
proof (induction ls)
  case Nil
  then show ?case using assms(4) by (simp add: nom_repeatD(1) [OF assms(1)])
next
  case (Cons l ls)
  then show ?case by (simp add: nom_repeatD(1) [OF assms(1), of p "f l @ concat (map f ls) @ r"])
qed

lemma no_line:
  assumes "nom_lawful N"
  shows "line_spec N pf mode [] = NomError"
proof -
  have e: "type_spec N [] = NomError" using type_error [OF assms, of "[]"] by simp
  show ?thesis
    by (simp add: line_spec_def item_def const_item_def field_item_def e just_space_def parse_comment_def nom_combinatorsD [OF assms] nom_tokensD [OF assms])
qed

subsection \<open>Interface files\<close>

fun out_item :: "nom_value \<Rightarrow> msg_item option" where
  "out_item (NItem it) = Some it" | "out_item _ = None"

fun out_comment :: "nom_value \<Rightarrow> msg_comment option" where
  "out_comment (NComment c) = Some c" | "out_comment _ = None"

fun out_line :: "nom_value \<Rightarrow> msg_line" where
  "out_line (NTuple [NOpt it, NOpt c]) = (Option.bind it out_item, Option.bind c out_comment)"
| "out_line _ = (None, None)"

text \<open>The call in \<open>main\<close>: an error is a panic, and what is left of the input is dropped.\<close>

definition parse_type_def :: "nom \<Rightarrow> (string \<Rightarrow> 64 word option) \<Rightarrow> overflow_mode \<Rightarrow> string \<Rightarrow> msg_line list option" where
  "parse_type_def N f64_from_str mode type_def =
     (case msg_spec N f64_from_str mode type_def of Parsed _ msg \<Rightarrow> Some (map out_line (out_vec msg)) | _ \<Rightarrow> None)"

lemma out_line_value: "out_line (line_value l) = l"
  by (cases l; cases "fst l"; cases "snd l") (simp_all add: line_value_def)

lemma msg_spec_run:
  assumes "nom_lawful N" and "list_all line_ok ls"
  shows "msg_spec N pf mode (concat (map line_text ls)) = Parsed [] (NVec (map line_value ls))"
proof -
  have "nm_many0 N (line_spec N pf mode) (concat (map line_text ls) @ []) = Parsed [] (NVec (map line_value ls))"
    using assms(2) by (intro many0_texts assms(1) line_run no_line) (auto simp: list_all_iff line_text_def)
  then show ?thesis by (simp add: msg_spec_def)
qed

text \<open>C36. Reading an interface file undoes writing it, for the lines the grammar can read back: each is empty or a field
  without a default value or a constant that is a truth value, a string or an integer above
  \<open>i64::MIN\<close>, and may end in a comment. Types are primitive ones, strings with a bound or none, and types of a package
  or of the same package, with arrays of any size; names are made of identifier characters, and a type of a
  package does not begin like a primitive one. Of the text of any such lines the parser returns exactly these lines and
  leaves nothing. The other lines end the parse or are changed by it: see \<open>primitive_prefix_drops_file\<close>, \<open>default_value_drops_file\<close>,
  \<open>negative_float_drops_file\<close> and \<open>negative_constant_wraps\<close>.\<close>

theorem interface_file_round_trip:
  assumes "nom_lawful N" and "list_all line_ok ls"
  shows "msg_spec N pf mode (concat (map line_text ls)) = Parsed [] (NVec (map line_value ls))
    \<and> parse_type_def N pf mode (concat (map line_text ls)) = Some ls"
  using msg_spec_run [OF assms, of pf mode] by (simp add: parse_type_def_def out_line_value o_def map_idI)

text \<open>From the files to the module: the module generated from the texts of its types is the text of their
  structs.\<close>

lemma module_of_files:
  assumes "nom_lawful N" and "list_all (\<lambda>(_, ls). list_all line_ok ls) ts"
    and "rp_types pkg = map (\<lambda>(n, ls). (n, concat (map line_text ls))) ts"
  shows "module_text sf (parse_type_def N pf mode) pkg
    = concat (map (\<lambda>l. l @ [CHR 0x0A]) module_header) @ concat (map (\<lambda>(n, ls). struct_text sf n ls) ts)"
proof -
  have "type_text sf (parse_type_def N pf mode) (n, concat (map line_text ls)) = struct_text sf n ls" if "list_all line_ok ls" for n ls
    using msg_spec_run [OF assms(1) that, of pf mode] by (simp add: type_text_def parse_type_def_def out_line_value o_def map_idI)
  then have "map (type_text sf (parse_type_def N pf mode)) (rp_types pkg) = map (\<lambda>(n, ls). struct_text sf n ls) ts"
    using assms(2,3) by (auto simp: list_all_iff)
  then show ?thesis by (simp add: module_text_def)
qed

subsection \<open>An instance of nom\<close>

fun ref_alt :: "nom_parser list \<Rightarrow> nom_parser" where
  "ref_alt [] i = NomError"
| "ref_alt [p] i = p i"
| "ref_alt (p # q # ps) i = (case p i of NomError \<Rightarrow> ref_alt (q # ps) i | r \<Rightarrow> r)"

fun ref_many0 :: "nom_parser \<Rightarrow> nom_parser" where
  "ref_many0 p i =
     (case p i of
        Parsed r v \<Rightarrow> if length r < length i then nom_then (ref_many0 p r) (\<lambda>r vs. Parsed r (NVec (v # out_vec vs))) else NomError
      | NomError \<Rightarrow> Parsed i (NVec [])
      | e \<Rightarrow> e)"

fun ref_fold :: "nom_parser \<Rightarrow> nom_value \<Rightarrow> (nom_value \<Rightarrow> nom_value \<Rightarrow> nom_value) \<Rightarrow> nom_parser" where
  "ref_fold p a f i =
     (case p i of
        Parsed r v \<Rightarrow> if length r < length i then ref_fold p (f a v) f r else NomError
      | NomError \<Rightarrow> Parsed i a
      | e \<Rightarrow> e)"

declare ref_many0.simps [simp del] ref_fold.simps [simp del]

definition ref_nom :: nom where
  "ref_nom =
     \<lparr>nm_tag = \<lambda>t i. if prefix t i then Parsed (drop (length t) i) (NStr t) else NomError,
      nm_char = \<lambda>c. first_char (\<lambda>d. d = c), nm_one_of = \<lambda>cs. first_char (\<lambda>d. d \<in> set cs),
      nm_alphanumeric1 = span1 is_ascii_alphanumeric, nm_digit1 = span1 is_ascii_digit,
      nm_space0 = \<lambda>i. Parsed (dropWhile is_blank i) (NStr (takeWhile is_blank i)),
      nm_line_ending = \<lambda>i. if prefix [CHR 0x0A] i then Parsed (drop 1 i) (NStr [CHR 0x0A])
         else if prefix [CHR 0x0D, CHR 0x0A] i then Parsed (drop 2 i) (NStr [CHR 0x0D, CHR 0x0A]) else NomError,
      nm_not_line_ending = \<lambda>i. let r = dropWhile (\<lambda>c. \<not> is_eol c) i
         in if prefix [CHR 0x0D] r \<and> \<not> prefix [CHR 0x0D, CHR 0x0A] r then NomError
            else Parsed r (NStr (takeWhile (\<lambda>c. \<not> is_eol c) i)),
      nm_alt = ref_alt,
      nm_map = \<lambda>p f i. nom_then (p i) (\<lambda>r v. case f v of Some w \<Rightarrow> Parsed r w | None \<Rightarrow> NomPanic),
      nm_value = \<lambda>w p i. nom_then (p i) (\<lambda>r _. Parsed r w),
      nm_opt = \<lambda>p i. case p i of Parsed r v \<Rightarrow> Parsed r (NOpt (Some v)) | NomError \<Rightarrow> Parsed i (NOpt None) | e \<Rightarrow> e,
      nm_recognize = \<lambda>p i. nom_then (p i) (\<lambda>r _. Parsed r (NStr (take (length i - length r) i))),
      nm_pair = \<lambda>p q i. nom_then (p i) (\<lambda>i v. nom_then (q i) (\<lambda>i w. Parsed i (NTuple [v, w]))),
      nm_tuple = \<lambda>ps i. tuple_result ps i (\<lambda>i vs. Parsed i (NTuple vs)),
      nm_preceded = \<lambda>p q i. nom_then (p i) (\<lambda>i _. q i),
      nm_terminated = \<lambda>p q i. nom_then (p i) (\<lambda>i v. nom_then (q i) (\<lambda>i _. Parsed i v)),
      nm_delimited = \<lambda>p q s i. nom_then (p i) (\<lambda>i _. nom_then (q i) (\<lambda>i v. nom_then (s i) (\<lambda>i _. Parsed i v))),
      nm_many0 = ref_many0,
      nm_many1 = \<lambda>p i. nom_then (p i) (\<lambda>r v. nom_then (ref_many0 p r) (\<lambda>r vs. Parsed r (NVec (v # out_vec vs)))),
      nm_map_res = \<lambda>p f i. nom_then (p i) (\<lambda>r v. case f v of Some w \<Rightarrow> Parsed r w | None \<Rightarrow> NomError),
      nm_map_opt = \<lambda>p f i. nom_then (p i) (\<lambda>r v. case f v of Some w \<Rightarrow> Parsed r w | None \<Rightarrow> NomError),
      nm_verify = \<lambda>p g i. nom_then (p i) (\<lambda>r v. if g v then Parsed r v else NomError),
      nm_fold_many0 = ref_fold,
      nms_char = \<lambda>c i. if i = [] then NomIncomplete else first_char (\<lambda>d. d = c) i,
      nms_is_not = \<lambda>cs. streaming_span1 (\<lambda>c. c \<notin> set cs), nms_multispace1 = streaming_span1 is_multispace,
      nms_take_while_m_n = \<lambda>m n p i. let k = length (takeWhile p i)
         in if n \<le> k then Parsed (drop n i) (NStr (take n i))
            else if k = length i then NomIncomplete
            else if k < m then NomError else Parsed (drop k i) (NStr (take k i))\<rparr>"

lemma ref_nom_lawful: "nom_lawful ref_nom"
proof -
  have alt: "ref_alt [p] = p" for p by (simp add: fun_eq_iff)
  have "nom_combinators ref_nom"
    unfolding nom_combinators_def ref_nom_def nom.select_convs
    by (intro conjI allI refl alt ref_alt.simps ref_many0.simps ref_fold.simps)
  moreover have "nom_tokens ref_nom" "nom_streaming ref_nom" by (simp_all add: nom_tokens_def nom_streaming_def ref_nom_def)
  ultimately show ?thesis by (simp add: nom_lawful_def)
qed

definition point_file :: "msg_line list" where
  "point_file =
     [(None, Some (MsgComment ''# A point'')),
      (Some (Constant \<lparr>tn_base = Primitive ''int8'', tn_array_spec = None\<rparr> ''N'' (ValueInt (- 7))), None),
      (Some (Field \<lparr>tn_base = Primitive ''float64'', tn_array_spec = Some (ArrayStatic 3)\<rparr> ''xyz'' None), Some (MsgComment ''#m'')),
      (Some (Field \<lparr>tn_base = ComplexType (Some ''std_msgs'') ''Header'', tn_array_spec = None\<rparr> ''header'' None), None)]"

lemma point_file_ok: "list_all line_ok point_file"
  by (simp add: point_file_def line_ok_def ident_ok_def primitive_names_def is_eol_def
      is_ident_char_def is_ascii_alphanumeric_def is_ascii_alphabetic_def is_ascii_digit_def)

theorem interface_file_round_trip_witness:
  "parse_type_def ref_nom (\<lambda>_. None) Checked (concat (map line_text point_file)) = Some point_file
   \<and> line_text (point_file ! 3) = ''std_msgs/Header header'' @ [CHR 0x0A]"
  using interface_file_round_trip [OF ref_nom_lawful point_file_ok, of "\<lambda>_. None" Checked] by (simp add: point_file_def line_text_def)

lemma msg_spec_takes_lines_witness:
  "\<exists>vs r. takes (line_spec ref_nom (\<lambda>_. None) Checked) ''bad line'' vs r
    \<and> (msg_spec ref_nom (\<lambda>_. None) Checked ''bad line'' = Parsed r (NVec vs) \<and> line_spec ref_nom (\<lambda>_. None) Checked r = NomError
       \<or> msg_spec ref_nom (\<lambda>_. None) Checked ''bad line'' = line_spec ref_nom (\<lambda>_. None) Checked r
         \<and> line_spec ref_nom (\<lambda>_. None) Checked r \<in> {NomIncomplete, NomPanic})"
  by (rule msg_spec_takes_lines [OF ref_nom_lawful])

subsection \<open>Where the grammar surprises\<close>

lemma msg_spec_stops:
  assumes "nom_lawful N" and "line_spec N pf mode i = NomError"
  shows "msg_spec N pf mode i = Parsed i (NVec [])"
  using assms(2) by (simp add: msg_spec_def nom_repeatD(1) [OF assms(1)])

lemmas char_class_defs = is_ident_char_def is_ascii_alphanumeric_def is_ascii_alphabetic_def is_ascii_digit_def is_blank_def is_decimal_char_def

lemma tags_run:
  assumes "nom_lawful N" and "find (\<lambda>t. prefix t i) (map fst primitive_names) = Some n" and "\<not> prefix ''string<='' i"
  shows "base_parser N i = Parsed (drop (length n) i) (NBase (Primitive n))"
proof -
  have "nm_alt N (map (nm_tag N) (map fst primitive_names)) i = Parsed (drop (length n) i) (NStr n)"
    using alt_tags [OF assms(1), of "map fst primitive_names" i] assms(2) by (simp add: primitive_names_def)
  then show ?thesis using assms(3)
    unfolding base_parser_def by (simp add: nom_combinatorsD [OF assms(1)] nom_tokensD(1) [OF assms(1)] del: map_map list.map_comp)
qed

lemma array_none: "nom_lawful N \<Longrightarrow> stops (\<lambda>c. c = CHR ''['') i \<Longrightarrow> nm_opt N (array_parser N) i = Parsed i (NOpt None)"
  by (cases i) (simp_all add: array_parser_def nom_combinatorsD nom_tokensD first_char_def)

lemma primitive_run:
  assumes "nom_lawful N" and "find (\<lambda>t. prefix t i) (map fst primitive_names) = Some n" and "\<not> prefix ''string<='' i"
    and "stops (\<lambda>c. c = CHR ''['') (drop (length n) i)"
  shows "type_spec N i = Parsed (drop (length n) i) (NType \<lparr>tn_base = Primitive n, tn_array_spec = None\<rparr>)"
  using tags_run [OF assms(1-3)] array_none [OF assms(1,4)] by (simp add: type_spec_parts nom_combinatorsD(10) [OF assms(1)])

text \<open>A type whose package begins like a primitive type ends the parse: here \<open>char\<close> is taken off, \<open>ge\<close> is the
  name of the field, and the rest of the file is dropped without an error.\<close>

lemma primitive_prefix_drops_file:
  assumes "nom_lawful N"
  shows "msg_spec N pf mode (''charge/Level x'' @ CHR 0x0A # r) = Parsed (''charge/Level x'' @ CHR 0x0A # r) (NVec [])"
proof -
  note laws = nom_combinatorsD [OF assms] nom_tokensD [OF assms] identifier_run [OF assms]
  have t: "type_spec N (''charge/Level x'' @ CHR 0x0A # r) = Parsed (''ge/Level x'' @ CHR 0x0A # r) (NType \<lparr>tn_base = Primitive ''char'', tn_array_spec = None\<rparr>)"
    using primitive_run [OF assms, of "''charge/Level x'' @ CHR 0x0A # r" "''char''"] by (simp add: primitive_names_def)
  show ?thesis
    by (rule msg_spec_stops [OF assms])
      (use t in \<open>simp add: line_spec_def item_def const_item_def field_item_def laws span1_def char_class_defs just_space_def parse_comment_def\<close>)
qed

text \<open>So does a negative floating-point constant, of which only the integral part is a value, and a field
  with a default value.\<close>

lemma negative_float_drops_file:
  assumes "nom_lawful N"
  shows "msg_spec N pf mode (''float64 X=-1.5'' @ CHR 0x0A # r) = Parsed (''float64 X=-1.5'' @ CHR 0x0A # r) (NVec [])"
proof -
  note laws = nom_combinatorsD [OF assms] nom_tokensD [OF assms] identifier_run [OF assms]
  have t: "type_spec N (''float64 X=-1.5'' @ CHR 0x0A # r) = Parsed ('' X=-1.5'' @ CHR 0x0A # r) (NType \<lparr>tn_base = Primitive ''float64'', tn_array_spec = None\<rparr>)"
    using primitive_run [OF assms, of "''float64 X=-1.5'' @ CHR 0x0A # r" "''float64''"] by (simp add: primitive_names_def)
  have u: "uint_value N (''1.5'' @ CHR 0x0A # r) = Parsed (''.5'' @ CHR 0x0A # r) (NU64 1)"
    by (simp add: uint_value_def laws span1_def char_class_defs parse_unsigned_def digits_value_def digit_value_def)
  have "float N pf (''-1.5'' @ CHR 0x0A # r) = NomError" by (rule float_error [OF assms]) (simp add: is_ascii_digit_def)
  then have "value_spec N pf mode (''-1.5'' @ CHR 0x0A # r) = Parsed (''.5'' @ CHR 0x0A # r) (NValue (ValueInt (- 1)))"
    using u by (simp add: value_spec_def laws in_signed_def)
  with t show ?thesis
    by (intro msg_spec_stops [OF assms])
      (simp add: line_spec_def item_def const_item_def field_item_def laws span1_def char_class_defs just_space_def parse_comment_def)
qed

lemma default_value_drops_file:
  assumes "nom_lawful N"
  shows "msg_spec N pf mode (''int32 x 42'' @ CHR 0x0A # r) = Parsed (''int32 x 42'' @ CHR 0x0A # r) (NVec [])"
proof -
  note laws = nom_combinatorsD [OF assms] nom_tokensD [OF assms] identifier_run [OF assms]
  have t: "type_spec N (''int32 x 42'' @ CHR 0x0A # r) = Parsed ('' x 42'' @ CHR 0x0A # r) (NType \<lparr>tn_base = Primitive ''int32'', tn_array_spec = None\<rparr>)"
    using primitive_run [OF assms, of "''int32 x 42'' @ CHR 0x0A # r" "''int32''"] by (simp add: primitive_names_def)
  show ?thesis
    by (rule msg_spec_stops [OF assms])
      (use t in \<open>simp add: line_spec_def item_def const_item_def field_item_def laws span1_def char_class_defs just_space_def parse_comment_def\<close>)
qed

text \<open>Negative integers wrap: below the range of \<open>i64\<close> a constant becomes positive, and at its lower end it
  panics where overflow is checked.\<close>

lemma negative_constant_wraps:
  assumes "nom_lawful N" and "stops is_ascii_digit r"
  shows "value_spec N pf mode (''-9223372036854775809'' @ r) = Parsed r (NValue (ValueInt 9223372036854775807))"
    and "value_spec N pf Checked (''-9223372036854775808'' @ r) = NomPanic"
proof -
  note laws = nom_combinatorsD [OF assms(1)] nom_tokensD [OF assms(1)]
  have "float N pf (CHR ''-'' # i) = NomError" for i by (rule float_error [OF assms(1)]) (simp add: is_ascii_digit_def)
  moreover have "span1 is_ascii_digit (ds @ r) = Parsed r (NStr ds)" if "list_all is_ascii_digit ds" "ds \<noteq> []" for ds
    by (rule span1_run [OF that assms(2)])
  from this [of "''9223372036854775809''"] this [of "''9223372036854775808''"]
  have "uint_value N (''9223372036854775809'' @ r) = Parsed r (NU64 9223372036854775809)"
    "uint_value N (''9223372036854775808'' @ r) = Parsed r (NU64 9223372036854775808)"
    by (simp_all add: uint_value_def laws is_ascii_digit_def parse_unsigned_def digits_value_def digit_value_def)
  ultimately show "value_spec N pf mode (''-9223372036854775809'' @ r) = Parsed r (NValue (ValueInt 9223372036854775807))"
    "value_spec N pf Checked (''-9223372036854775808'' @ r) = NomPanic"
    by (simp_all add: value_spec_def laws in_signed_def wrap_signed_def signed_result_def)
qed

text \<open>A number too large for \<open>u64\<close> panics, and so does a floating-point constant with the underscores the
  grammar allows and \<open>f64::from_str\<close> does not.\<close>

lemma numbers_panic:
  assumes "nom_lawful N"
  shows "list_all is_ascii_digit ds \<Longrightarrow> ds \<noteq> [] \<Longrightarrow> stops is_ascii_digit r \<Longrightarrow> 2 ^ 64 \<le> digits_value ds \<Longrightarrow> uint_value N (ds @ r) = NomPanic"
    and "pf ''1_0.5'' = None \<Longrightarrow> value_spec N pf mode (''1_0.5'' @ CHR 0x0A # r) = NomPanic"
proof -
  note laws = nom_combinatorsD [OF assms] nom_tokensD [OF assms]
  show "uint_value N (ds @ r) = NomPanic" if "list_all is_ascii_digit ds" "ds \<noteq> []" "stops is_ascii_digit r" "2 ^ 64 \<le> digits_value ds"
  proof -
    have "hd ds \<noteq> CHR ''+''" using that(1,2) by (cases ds) (auto simp: is_ascii_digit_def)
    then have "parse_unsigned 64 ds = None" using that(4) by (cases ds) (auto simp: parse_unsigned_def Let_def)
    then show ?thesis by (simp add: uint_value_def laws span1_run [OF that(1,2,3)])
  qed
  have dec: "stops is_ascii_digit (''1_0.5'' @ CHR 0x0A # r) = False" "stops is_ascii_digit (''5'' @ CHR 0x0A # r) = False"
    by (simp_all add: is_ascii_digit_def)
  assume "pf ''1_0.5'' = None"
  then show "value_spec N pf mode (''1_0.5'' @ CHR 0x0A # r) = NomPanic"
    using dec by (simp add: value_spec_def float_def laws decimal_run [OF assms] first_char_def char_class_defs)
qed

text \<open>A string that is not closed makes the parser ask for more input, which \<open>main\<close> turns into a panic.\<close>

lemma unclosed_string_incomplete:
  assumes "nom_lawful N" and "list_all is_literal_char s"
  shows "value_spec N pf mode (CHR 0x22 # s) = NomIncomplete"
proof -
  have run: "(\<lambda>c. c \<notin> set [CHR 0x22, CHR 0x5C]) = is_literal_char" by (auto simp: is_literal_char_def fun_eq_iff)
  have "dropWhile is_literal_char s = []" using assms(2) by (simp add: list_all_iff)
  then have "parse_fragment N s = NomIncomplete"
    by (simp add: parse_fragment_def parse_literal_def nom_combinatorsD [OF assms(1)] nom_streamingD(2) [OF assms(1)] run streaming_span1_def del: list.set)
  then have "parse_string N (CHR 0x22 # s) = NomIncomplete"
    by (simp add: parse_string_def nom_combinatorsD [OF assms(1)] streaming_char [OF assms(1)] nom_repeatD(3) [OF assms(1)])
  moreover have "stops (\<lambda>c. is_ascii_digit c \<or> c = CHR ''.'') (CHR 0x22 # s)" "stops is_ascii_digit (CHR 0x22 # s)" by (simp_all add: is_ascii_digit_def)
  ultimately show ?thesis
    by (simp add: value_spec_def nom_combinatorsD [OF assms(1)] nom_tokensD(1) [OF assms(1)] float_error [OF assms(1)] uint_error [OF assms(1)])
qed

end
