(* ===== verification/Turtle_Ui.thy ===== *)
theory Turtle_Ui
  imports Parameters
begin

text \<open>
  The user interface of the example \<open>turtle_teleop\<close> (\<open>ui.rs\<close>) and the messages it deals in
  (\<open>main.rs\<close>). Floating-point numbers are their bits. Crossterm's terminal events are a type of their
  own: a key press with its code and modifiers, or anything else. An out-of-range index panics, which is
  the value \<open>None\<close>.
\<close>

subsection \<open>Messages\<close>

type_synonym f32 = "32 word"

record vector3 =
  v3_x :: f64
  v3_y :: f64
  v3_z :: f64

definition VECTOR3_ZERO :: vector3 where
  "VECTOR3_ZERO = \<lparr>v3_x = 0, v3_y = 0, v3_z = 0\<rparr>"

record twist =
  tw_linear :: vector3
  tw_angular :: vector3

definition twist_default :: twist where
  "twist_default = \<lparr>tw_linear = VECTOR3_ZERO, tw_angular = VECTOR3_ZERO\<rparr>"

record turtle_pose =
  po_x :: f32
  po_y :: f32
  po_theta :: f32
  po_linear_velocity :: f32
  po_angular_velocity :: f32

definition pose_default :: turtle_pose where
  "pose_default = \<lparr>po_x = 0, po_y = 0, po_theta = 0, po_linear_velocity = 0, po_angular_velocity = 0\<rparr>"

record pen_request =
  pen_r :: "8 word"
  pen_g :: "8 word"
  pen_b :: "8 word"
  pen_width :: "8 word"
  pen_off :: "8 word"

text \<open>The bits of the constants: \<open>2.0\<close> and \<open>-2.0\<close> as \<open>f64\<close>, pi as \<open>f32\<close>.\<close>

definition F64_TWO :: f64 where "F64_TWO = 0x4000000000000000"
definition F64_MINUS_TWO :: f64 where "F64_MINUS_TWO = 0xC000000000000000"
definition F32_PI :: f32 where "F32_PI = 0x40490FDB"

subsection \<open>Events\<close>

datatype ui_event =
    StopEventLoop
  | ChooseTurtle int
  | TurtleCmdVel twist
  | ResetTurtles
  | SetPen pen_request
  | SpawnTurtle string
  | KillTurtle string
  | RotateAbsolute f32
  | CancelRotateAbsolute

definition MOVE_FORWARD :: twist where
  "MOVE_FORWARD = \<lparr>tw_linear = VECTOR3_ZERO\<lparr>v3_x := F64_TWO\<rparr>, tw_angular = VECTOR3_ZERO\<rparr>"

definition MOVE_BACKWARD :: twist where
  "MOVE_BACKWARD = \<lparr>tw_linear = VECTOR3_ZERO\<lparr>v3_x := F64_MINUS_TWO\<rparr>, tw_angular = VECTOR3_ZERO\<rparr>"

definition ROTATE_LEFT :: twist where
  "ROTATE_LEFT = \<lparr>tw_linear = VECTOR3_ZERO, tw_angular = VECTOR3_ZERO\<lparr>v3_z := F64_TWO\<rparr>\<rparr>"

definition ROTATE_RIGHT :: twist where
  "ROTATE_RIGHT = \<lparr>tw_linear = VECTOR3_ZERO, tw_angular = VECTOR3_ZERO\<lparr>v3_z := F64_MINUS_TWO\<rparr>\<rparr>"

definition PEN_REQUESTS :: "pen_request list" where
  "PEN_REQUESTS =
     [\<lparr>pen_r = 255, pen_g = 0, pen_b = 0, pen_width = 3, pen_off = 0\<rparr>,
      \<lparr>pen_r = 255, pen_g = 200, pen_b = 0, pen_width = 5, pen_off = 0\<rparr>,
      \<lparr>pen_r = 250, pen_g = 250, pen_b = 250, pen_width = 2, pen_off = 1\<rparr>,
      \<lparr>pen_r = 0, pen_g = 250, pen_b = 0, pen_width = 1, pen_off = 0\<rparr>,
      \<lparr>pen_r = 0, pen_g = 0, pen_b = 0, pen_width = 1, pen_off = 0\<rparr>]"

subsection \<open>The display\<close>

definition MESSAGES_MAX_LEN :: nat where "MESSAGES_MAX_LEN = 20"

record ui_display =
  di_cmd_vel :: twist
  di_pose :: turtle_pose
  di_messages :: "string list"

definition display_default :: ui_display where
  "display_default = \<lparr>di_cmd_vel = twist_default, di_pose = pose_default, di_messages = []\<rparr>"

definition set_cmd_vel :: "twist \<Rightarrow> ui_display \<Rightarrow> ui_display" where
  "set_cmd_vel t d = d\<lparr>di_cmd_vel := t\<rparr>"

definition set_pose :: "turtle_pose \<Rightarrow> ui_display \<Rightarrow> ui_display" where
  "set_pose p d = d\<lparr>di_pose := p\<rparr>"

definition add_message :: "string \<Rightarrow> ui_display \<Rightarrow> ui_display" where
  "add_message msg d = d\<lparr>di_messages := take MESSAGES_MAX_LEN (msg # di_messages d)\<rparr>"

text \<open>The keys the screen tells the user about.\<close>

definition INSTRUCTIONS :: "(string \<times> string) list" where
  "INSTRUCTIONS =
     [(''a'', ''Spawn 1''), (''A'', ''Kill 1''), (''b'', ''Spawn 2''), (''B'', ''Kill 2''), (''1'', ''Control Turtle 1''),
      (''2'', ''Control Turtle 2''), (''d'', ''Rotate West ''), (''g'', ''Rotate East''), (''f'', ''Cancel Rotate''),
      (''Up'', ''Move Forward''), (''Down'', ''Move Backward''), (''Left'', ''Move Left ''), (''Right'', ''Move Right''),
      (''p'', ''Set pen''), (''r'', ''Reset'')]"

text \<open>The text of the screen, panel by panel: the state of the turtle, the instructions and the messages. The
  printing of floats is a parameter; fonts, frames and layout are left out.\<close>

definition state_panel :: "(f64 \<Rightarrow> string) \<Rightarrow> (f32 \<Rightarrow> string) \<Rightarrow> ui_display \<Rightarrow> string list" where
  "state_panel s64 s32 d =
     [''cmd_vel: '',
      '' - linear: '',
      ''   - x: '' @ s64 (v3_x (tw_linear (di_cmd_vel d))),
      ''   - y: '' @ s64 (v3_y (tw_linear (di_cmd_vel d))),
      ''   - z: '' @ s64 (v3_z (tw_linear (di_cmd_vel d))),
      '' - angular: '',
      ''   - x: '' @ s64 (v3_x (tw_angular (di_cmd_vel d))),
      ''   - y: '' @ s64 (v3_y (tw_angular (di_cmd_vel d))),
      ''   - z: '' @ s64 (v3_z (tw_angular (di_cmd_vel d))),
      [],
      ''pose: '',
      '' - x: '' @ s32 (po_x (di_pose d)),
      '' - y: '' @ s32 (po_y (di_pose d)),
      '' - theta: '' @ s32 (po_theta (di_pose d)),
      '' - linear velocity: '' @ s32 (po_linear_velocity (di_pose d)),
      '' - angular velocity: '' @ s32 (po_angular_velocity (di_pose d))]"

definition instructions_panel :: "string list" where
  "instructions_panel = map (\<lambda>(shortcut, descr). ''<'' @ shortcut @ ''>: '' @ descr) INSTRUCTIONS"

definition messages_panel :: "ui_display \<Rightarrow> string list" where
  "messages_panel d = di_messages d"

subsection \<open>Keys\<close>

datatype key_code = KeyChar char | KeyUp | KeyDown | KeyLeft | KeyRight | KeyOther

datatype key_modifier = Shift | Control | Alt

record key_event =
  ke_code :: key_code
  ke_modifiers :: "key_modifier set"

datatype term_event = KeyPress key_event | OtherTermEvent

fun as_key_press_event :: "term_event \<Rightarrow> key_event option" where
  "as_key_press_event (KeyPress e) = Some e"
| "as_key_press_event OtherTermEvent = None"

definition key_event_of :: "key_event \<Rightarrow> nat \<Rightarrow> (ui_event option \<times> nat) option" where
  "key_event_of e pen_index =
     (case ke_code e of
        KeyChar c \<Rightarrow>
          if c = CHR ''q'' then Some (Some StopEventLoop, pen_index)
          else if c = CHR ''c'' \<and> ke_modifiers e = {Control} then Some (Some StopEventLoop, pen_index)
          else if c = CHR ''r'' then Some (Some ResetTurtles, pen_index)
          else if c = CHR ''p''
          then (if pen_index < length PEN_REQUESTS
                then Some (Some (SetPen (PEN_REQUESTS ! pen_index)), (pen_index + 1) mod length PEN_REQUESTS)
                else None)
          else if c = CHR ''a'' \<or> c = CHR ''b''
          then Some (Some (SpawnTurtle (if c = CHR ''a'' then ''turtle1'' else ''turtle2'')), pen_index)
          else if c = CHR ''A'' \<or> c = CHR ''B''
          then Some (Some (KillTurtle (if c = CHR ''A'' then ''turtle1'' else ''turtle2'')), pen_index)
          else if c = CHR ''1'' then Some (Some (ChooseTurtle 1), pen_index)
          else if c = CHR ''2'' then Some (Some (ChooseTurtle 2), pen_index)
          else if c = CHR ''d'' then Some (Some (RotateAbsolute F32_PI), pen_index)
          else if c = CHR ''g'' then Some (Some (RotateAbsolute 0), pen_index)
          else if c = CHR ''f'' then Some (Some CancelRotateAbsolute, pen_index)
          else Some (None, pen_index)
      | KeyUp \<Rightarrow> Some (Some (TurtleCmdVel MOVE_FORWARD), pen_index)
      | KeyDown \<Rightarrow> Some (Some (TurtleCmdVel MOVE_BACKWARD), pen_index)
      | KeyRight \<Rightarrow> Some (Some (TurtleCmdVel ROTATE_RIGHT), pen_index)
      | KeyLeft \<Rightarrow> Some (Some (TurtleCmdVel ROTATE_LEFT), pen_index)
      | KeyOther \<Rightarrow> Some (None, pen_index))"

definition into_event :: "term_event \<Rightarrow> nat \<Rightarrow> (ui_event option \<times> nat) option" where
  "into_event event pen_index =
     (case as_key_press_event event of None \<Rightarrow> Some (None, pen_index) | Some e \<Rightarrow> key_event_of e pen_index)"

text \<open>The stream of events from a stream of terminal events: errors pass, what is no command is skipped.\<close>

fun events_from :: "nat \<Rightarrow> ('e + term_event) list \<Rightarrow> ('e + ui_event) list option" where
  "events_from pen_index [] = Some []"
| "events_from pen_index (Inl e # items) = map_option (\<lambda>evs. Err e # evs) (events_from pen_index items)"
| "events_from pen_index (Inr t # items) =
     (case into_event t pen_index of
        None \<Rightarrow> None
      | Some (None, pen_index') \<Rightarrow> events_from pen_index' items
      | Some (Some ev, pen_index') \<Rightarrow> map_option (\<lambda>evs. Ok ev # evs) (events_from pen_index' items))"

definition ui_events :: "('e + term_event) list \<Rightarrow> ('e + ui_event) list option" where
  "ui_events items = events_from 0 items"

subsection \<open>Lemmas\<close>

fun chosen_pen :: "'e + ui_event \<Rightarrow> pen_request option" where
  "chosen_pen (Inr (SetPen p)) = Some p"
| "chosen_pen _ = None"

definition pens_from :: "nat \<Rightarrow> nat \<Rightarrow> pen_request list" where
  "pens_from i k = map (\<lambda>j. PEN_REQUESTS ! ((i + j) mod 5)) [0..<k]"

lemma pens_from_Suc: "pens_from i (Suc k) = PEN_REQUESTS ! (i mod 5) # pens_from (Suc i) k"
  unfolding pens_from_def map_upt_Suc by simp

lemma pens_from_mod: "pens_from (i mod 5) k = pens_from i k"
  by (simp add: pens_from_def mod_add_left_eq)

lemma length_PEN_REQUESTS [simp]: "length PEN_REQUESTS = 5"
  by (simp add: PEN_REQUESTS_def)

text \<open>A key chooses a pen or leaves the index of the next pen alone, and it never panics.\<close>

lemma into_event_pen:
  assumes "i < 5"
  shows "(\<exists>ev. into_event t i = Some (ev, i) \<and> (\<forall>p. ev \<noteq> Some (SetPen p)))
    \<or> into_event t i = Some (Some (SetPen (PEN_REQUESTS ! i)), Suc i mod 5)"
proof (cases t)
  case (KeyPress e)
  with assms show ?thesis by (cases "ke_code e") (simp_all add: into_event_def key_event_of_def)
qed (simp add: into_event_def)

lemma events_cycle_pens:
  assumes "i < 5"
  shows "\<exists>evs. events_from i items = Some evs \<and> (\<exists>k. List.map_filter chosen_pen evs = pens_from i k)"
  using assms
proof (induction items arbitrary: i)
  case Nil
  then show ?case by (auto simp: map_filter_simps pens_from_def intro!: exI [of _ 0])
next
  case (Cons it items)
  show ?case
  proof (cases it)
    case (Inl e)
    with Cons.IH [OF Cons.prems] show ?thesis by (auto simp: map_filter_simps)
  next
    case (Inr t)
    from into_event_pen [OF Cons.prems, of t] show ?thesis
    proof (elim disjE exE conjE)
      fix ev assume 1: "into_event t i = Some (ev, i)" "\<forall>p. ev \<noteq> Some (SetPen p)"
      obtain evs k where "events_from i items = Some evs" "List.map_filter chosen_pen evs = pens_from i k"
        using Cons.IH [OF Cons.prems] by blast
      moreover have "chosen_pen (Inr a :: 'a + ui_event) = None" if "ev = Some a" for a
        using 1(2) that by (cases a) simp_all
      ultimately show ?thesis using 1 Inr by (cases ev) (auto simp: map_filter_simps)
    next
      assume 2: "into_event t i = Some (Some (SetPen (PEN_REQUESTS ! i)), Suc i mod 5)"
      obtain evs k where r: "events_from (Suc i mod 5) items = Some evs" "List.map_filter chosen_pen evs = pens_from (Suc i mod 5) k"
        using Cons.IH [of "Suc i mod 5"] by auto
      then have "List.map_filter chosen_pen (Ok (SetPen (PEN_REQUESTS ! i)) # evs) = pens_from i (Suc k)"
        using Cons.prems by (simp add: map_filter_simps pens_from_Suc pens_from_mod)
      with 2 Inr r show ?thesis by (auto intro!: exI [of _ "Suc k"])
    qed
  qed
qed

text \<open>The keys choose the pens in turn: however the user types, the interface does not panic, and the pens
  it asks for are those of the table from the first on, starting over after the last.\<close>

lemma pens_in_turn: "\<exists>evs k. ui_events items = Some evs \<and> List.map_filter chosen_pen evs = map (\<lambda>j. PEN_REQUESTS ! (j mod 5)) [0..<k]"
  using events_cycle_pens [of 0 items] by (auto simp: ui_events_def pens_from_def)

text \<open>Every key of the instructions does something.\<close>

fun shortcut_code :: "string \<Rightarrow> key_code" where
  "shortcut_code [c] = KeyChar c"
| "shortcut_code s = (if s = ''Up'' then KeyUp else if s = ''Down'' then KeyDown else if s = ''Left'' then KeyLeft
     else if s = ''Right'' then KeyRight else KeyOther)"

lemma instructions_work:
  "list_all (\<lambda>(k, _). \<exists>ev j. into_event (KeyPress \<lparr>ke_code = shortcut_code k, ke_modifiers = m\<rparr>) 0 = Some (Some ev, j)) INSTRUCTIONS"
  by (simp add: INSTRUCTIONS_def into_event_def key_event_of_def)

text \<open>The display holds the newest messages, the newest first.\<close>

lemma messages_newest_first:
  "di_messages (fold add_message msgs d) = take MESSAGES_MAX_LEN (rev msgs @ di_messages d)" if "length (di_messages d) \<le> MESSAGES_MAX_LEN"
  using that
proof (induction msgs arbitrary: d)
  case (Cons m msgs)
  have "length (di_messages (add_message m d)) \<le> MESSAGES_MAX_LEN" by (simp add: add_message_def)
  then show ?case using Cons.IH [of "add_message m d"]
    by (simp add: add_message_def min_def take_Cons' split: nat_diff_split)
qed simp

end
