(* ===== verification/Turtle_Teleop.thy ===== *)
theory Turtle_Teleop
  imports Turtle_Ui Dds_Endpoints Dds_Open
begin

text \<open>
  The example \<open>turtle_teleop\<close> (\<open>main.rs\<close>): a client program of the library. \<open>App::new\<close> and
  \<open>Requester::new\<close> are operations on the DDS node of \<open>Dds_Node\<close>. The event loop and the tasks it spawns
  are a step relation: one step is one branch of the loop's \<open>select!\<close>, or one task up to its next
  await. What a call of a service or action returns is an argument of the step that receives it; the calls
  themselves are those of \<open>Dds_Service\<close> and \<open>Dds_Action\<close>. The text of values printed with Debug is a
  parameter.
\<close>

subsection \<open>Messages\<close>

record empty_message = em_dummy :: "8 word"

definition empty_message_new :: empty_message where
  "empty_message_new = \<lparr>em_dummy = 1\<rparr>"

record spawn_request =
  sw_x :: f32
  sw_y :: f32
  sw_theta :: f32
  sw_name :: string

record kill_request = kl_name :: string

text \<open>\<open>1.0\<close> as \<open>f32\<close>.\<close>

definition F32_ONE :: f32 where "F32_ONE = 0x3F800000"

subsection \<open>Setting up\<close>

definition teleop_topic_qos :: "'d dds_durations \<Rightarrow> 'd qos_policies" where
  "teleop_topic_qos D =
     policy_builder_new
       \<lparr>qp_durability := Some PolicyVolatile, qp_liveliness := Some (PolicyAutomatic (dd_infinite D)),
        qp_reliability := Some (PolicyReliable (dd_from_millis D 100)), qp_history := Some (PolicyKeepLast 1)\<rparr>"

definition teleop_service_qos :: "'d dds_durations \<Rightarrow> 'd qos_policies" where
  "teleop_service_qos D =
     policy_builder_new\<lparr>qp_reliability := Some (PolicyReliable (dd_from_millis D 100)), qp_history := Some (PolicyKeepLast 1)\<rparr>"

record turtle_requester =
  rq_turtle_cmd_vel_writer :: "twist dds_publisher"
  rq_turtle_cmd_vel_writer2 :: "twist dds_publisher"
  rq_reset_client :: dds_client
  rq_set_pen_client :: dds_client
  rq_spawn_client :: dds_client
  rq_kill_client :: dds_client
  rq_rotate_action_client :: dds_action_client

definition requester_new :: "'d dds_durations \<Rightarrow> ('d qos_policies, 't) dds_env \<Rightarrow> 'd qos_policies \<Rightarrow> 'd qos_policies dds_topic \<Rightarrow>
    ('d qos_policies, 't, turtle_requester) dnode_op" where
  "requester_new D env topic_qos turtle_cmd_vel_topic =
     dnode_bind (dnode_expect (dds_create_publisher env turtle_cmd_vel_topic None)) (\<lambda>writer.
     dnode_bind (dnode_unwrap (name_new ''/turtle2'' ''cmd_vel'')) (\<lambda>cmd_vel2.
     dnode_bind (dnode_expect (dds_create_topic env cmd_vel2 (message_type_name_new ''geometry_msgs'' ''Twist'') topic_qos)) (\<lambda>topic2.
     dnode_bind (dnode_expect (dds_create_publisher env topic2 None)) (\<lambda>writer2.
     (let service_qos = teleop_service_qos D
      in dnode_bind (dnode_unwrap (name_new ''/'' ''reset'')) (\<lambda>reset_name.
         dnode_bind (dnode_expect (dds_create_client env Enhanced reset_name (service_type_name_new ''std_srvs'' ''Empty'') service_qos service_qos)) (\<lambda>reset_client.
         dnode_bind (dnode_unwrap (name_new ''/turtle1'' ''set_pen'')) (\<lambda>set_pen_name.
         dnode_bind (dnode_expect (dds_create_client env Enhanced set_pen_name (service_type_name_new ''turtlesim'' ''SetPen'') service_qos service_qos)) (\<lambda>set_pen_client.
         dnode_bind (dnode_unwrap (name_new ''/'' ''spawn'')) (\<lambda>spawn_name.
         dnode_bind (dnode_expect (dds_create_client env Enhanced spawn_name (service_type_name_new ''turtlesim'' ''Spawn'') service_qos service_qos)) (\<lambda>spawn_client.
         dnode_bind (dnode_unwrap (name_new ''/'' ''kill'')) (\<lambda>kill_name.
         dnode_bind (dnode_expect (dds_create_client env Enhanced kill_name (service_type_name_new ''turtlesim'' ''Kill'') service_qos service_qos)) (\<lambda>kill_client.
         dnode_bind (dnode_unwrap (name_new ''/turtle1'' ''rotate_absolute'')) (\<lambda>rotate_name.
         dnode_bind (dnode_expect (dds_create_action_client env Enhanced rotate_name (action_type_name_new ''turtlesim'' ''RotateAbsolute'')
             \<lparr>aq_goal_service = service_qos, aq_result_service = service_qos, aq_cancel_service = service_qos, aq_feedback = service_qos,
              aq_status = service_qos\<rparr>)) (\<lambda>(rotate, _, _).
           dnode_return
             \<lparr>rq_turtle_cmd_vel_writer = \<lparr>dp_guid = writer, dp_written = []\<rparr>,
              rq_turtle_cmd_vel_writer2 = \<lparr>dp_guid = writer2, dp_written = []\<rparr>,
              rq_reset_client = reset_client, rq_set_pen_client = set_pen_client, rq_spawn_client = spawn_client,
              rq_kill_client = kill_client, rq_rotate_action_client = rotate\<rparr>)))))))))))))))"

text \<open>The part of \<open>App::new\<close> that uses the node: what it returns are the requester and the two readers.\<close>

definition app_entities :: "'d dds_durations \<Rightarrow> ('d qos_policies, 't) dds_env \<Rightarrow>
    ('d qos_policies, 't, turtle_requester \<times> guid \<times> guid) dnode_op" where
  "app_entities D env =
     (let topic_qos = teleop_topic_qos D
      in dnode_bind (dnode_unwrap (name_new ''/turtle1'' ''cmd_vel'')) (\<lambda>cmd_vel.
         dnode_bind (dnode_expect (dds_create_topic env cmd_vel (message_type_name_new ''geometry_msgs'' ''Twist'') topic_qos)) (\<lambda>turtle_cmd_vel_topic.
         dnode_bind (dnode_expect (dds_create_subscription env turtle_cmd_vel_topic None)) (\<lambda>turtle_cmd_vel_reader.
         dnode_bind (dnode_unwrap (name_new ''/turtle1'' ''pose'')) (\<lambda>pose.
         dnode_bind (dnode_expect (dds_create_topic env pose (message_type_name_new ''turtlesim'' ''Pose'') topic_qos)) (\<lambda>turtle_pose_topic.
         dnode_bind (dnode_expect (dds_create_subscription env turtle_pose_topic None)) (\<lambda>turtle_pose_reader.
         dnode_bind (requester_new D env topic_qos turtle_cmd_vel_topic) (\<lambda>requester.
           dnode_return (requester, turtle_cmd_vel_reader, turtle_pose_reader)))))))))"

definition app_new :: "string set \<Rightarrow> 'd participant_env \<Rightarrow> ('d qos_policies, 't) dds_env \<Rightarrow>
    node_error + ((turtle_requester \<times> guid \<times> guid) \<times> ('d qos_policies, 't) dds_node)" where
  "app_new features P env =
     (case dds_context_new features P of
        Inl _ \<Rightarrow> Err NodePanic
      | Inr ctx \<Rightarrow>
          (let D = pa_durations P; env = node_env D ctx env
           in case node_name_new ''/ros2_demo'' ''turtle_teleop'' of
                Inl _ \<Rightarrow> Err NodePanic
              | Inr name \<Rightarrow>
                  (case node_new env name (options_enable_rosout True node_options_new) (oc_context ctx) [] of
                     (Inl _, _) \<Rightarrow> Err NodePanic
                   | (Inr node, _) \<Rightarrow>
                       (case app_entities D env node of (Inl e, _) \<Rightarrow> Err e | (Inr h, node') \<Rightarrow> Ok (h, node')))))"

subsection \<open>The topics of the program\<close>

lemma teleop_names:
  "name_new ''/turtle1'' ''cmd_vel'' = Ok (absolute_name [''turtle1''] ''cmd_vel'')"
  "name_new ''/turtle1'' ''pose'' = Ok (absolute_name [''turtle1''] ''pose'')"
  "name_new ''/turtle2'' ''cmd_vel'' = Ok (absolute_name [''turtle2''] ''cmd_vel'')"
  "name_new ''/'' ''reset'' = Ok (absolute_name [] ''reset'')"
  "name_new ''/turtle1'' ''set_pen'' = Ok (absolute_name [''turtle1''] ''set_pen'')"
  "name_new ''/'' ''spawn'' = Ok (absolute_name [] ''spawn'')"
  "name_new ''/'' ''kill'' = Ok (absolute_name [] ''kill'')"
  "name_new ''/turtle1'' ''rotate_absolute'' = Ok (absolute_name [''turtle1''] ''rotate_absolute'')"
  by code_simp+

definition requester_writes :: "node_name \<Rightarrow> topic_key list" where
  "requester_writes nm =
     [message_key nm (absolute_name [''turtle1''] ''cmd_vel'') (message_type_name_new ''geometry_msgs'' ''Twist''),
      message_key nm (absolute_name [''turtle2''] ''cmd_vel'') (message_type_name_new ''geometry_msgs'' ''Twist''),
      request_key_of nm (absolute_name [] ''reset'') (service_type_name_new ''std_srvs'' ''Empty''),
      request_key_of nm (absolute_name [''turtle1''] ''set_pen'') (service_type_name_new ''turtlesim'' ''SetPen''),
      request_key_of nm (absolute_name [] ''spawn'') (service_type_name_new ''turtlesim'' ''Spawn''),
      request_key_of nm (absolute_name [] ''kill'') (service_type_name_new ''turtlesim'' ''Kill'')]
     @ to_server nm (absolute_name [''turtle1''] ''rotate_absolute'') (action_type_name_new ''turtlesim'' ''RotateAbsolute'')"

definition requester_reads :: "node_name \<Rightarrow> topic_key list" where
  "requester_reads nm =
     [response_key_of nm (absolute_name [] ''reset'') (service_type_name_new ''std_srvs'' ''Empty''),
      response_key_of nm (absolute_name [''turtle1''] ''set_pen'') (service_type_name_new ''turtlesim'' ''SetPen''),
      response_key_of nm (absolute_name [] ''spawn'') (service_type_name_new ''turtlesim'' ''Spawn''),
      response_key_of nm (absolute_name [] ''kill'') (service_type_name_new ''turtlesim'' ''Kill'')]
     @ to_client nm (absolute_name [''turtle1''] ''rotate_absolute'') (action_type_name_new ''turtlesim'' ''RotateAbsolute'')"

lemma makes_requester:
  assumes "topic_key t = message_key nm (absolute_name [''turtle1''] ''cmd_vel'') (message_type_name_new ''geometry_msgs'' ''Twist'')"
  shows "makes nm (requester_new D env q t) (\<lambda>_. True) (requester_writes nm) (requester_reads nm)"
proof -
  let ?m = "message_type_name_new ''geometry_msgs'' ''Twist''"
  have pub: "makes nm (dds_create_publisher env t' None) (\<lambda>_. True) [k] []" if "topic_key t' = k" for t' k
    using makes_writer(2) [of nm env t' None] that by simp
  have "makes nm (requester_new D env q t) (\<lambda>_. True)
      ([topic_key t] @ [] @ [message_key nm (absolute_name [''turtle2''] ''cmd_vel'') ?m]
        @ [request_key_of nm (absolute_name [] ''reset'') (service_type_name_new ''std_srvs'' ''Empty'')]
        @ [request_key_of nm (absolute_name [''turtle1''] ''set_pen'') (service_type_name_new ''turtlesim'' ''SetPen'')]
        @ [request_key_of nm (absolute_name [] ''spawn'') (service_type_name_new ''turtlesim'' ''Spawn'')]
        @ [request_key_of nm (absolute_name [] ''kill'') (service_type_name_new ''turtlesim'' ''Kill'')]
        @ to_server nm (absolute_name [''turtle1''] ''rotate_absolute'') (action_type_name_new ''turtlesim'' ''RotateAbsolute'') @ [])
      ([] @ [] @ []
        @ [response_key_of nm (absolute_name [] ''reset'') (service_type_name_new ''std_srvs'' ''Empty'')]
        @ [response_key_of nm (absolute_name [''turtle1''] ''set_pen'') (service_type_name_new ''turtlesim'' ''SetPen'')]
        @ [response_key_of nm (absolute_name [] ''spawn'') (service_type_name_new ''turtlesim'' ''Spawn'')]
        @ [response_key_of nm (absolute_name [] ''kill'') (service_type_name_new ''turtlesim'' ''Kill'')]
        @ to_client nm (absolute_name [''turtle1''] ''rotate_absolute'') (action_type_name_new ''turtlesim'' ''RotateAbsolute'') @ [])"
    unfolding requester_new_def Let_def teleop_names [THEN unwrapped]
    by (intro makes_then [OF makes_writer(2)] makes_then [OF makes_topic] makes_then [OF pub] makes_then [OF makes_client]
        makes_then [OF makes_action_client]) (auto intro: makes_return split: prod.splits)
  then show ?thesis using assms by (simp add: requester_writes_def requester_reads_def)
qed

lemma makes_app:
  "makes nm (app_entities D env) (\<lambda>_. True) (requester_writes nm)
     ([message_key nm (absolute_name [''turtle1''] ''cmd_vel'') (message_type_name_new ''geometry_msgs'' ''Twist''),
       message_key nm (absolute_name [''turtle1''] ''pose'') (message_type_name_new ''turtlesim'' ''Pose'')] @ requester_reads nm)"
proof -
  have sub: "makes nm (dds_create_subscription env t None) (\<lambda>_. True) [] [k]" if "topic_key t = k" for t k
    using makes_reader(2) [of nm env t None] that by simp
  have "makes nm (app_entities D env) (\<lambda>_. True) ([] @ [] @ [] @ [] @ requester_writes nm @ [])
     ([] @ [message_key nm (absolute_name [''turtle1''] ''cmd_vel'') (message_type_name_new ''geometry_msgs'' ''Twist'')]
       @ [] @ [message_key nm (absolute_name [''turtle1''] ''pose'') (message_type_name_new ''turtlesim'' ''Pose'')] @ requester_reads nm @ [])"
    unfolding app_entities_def Let_def teleop_names [THEN unwrapped]
    by (intro makes_then [OF makes_topic] makes_then [OF sub] makes_bind [OF makes_requester]) (auto intro: makes_return)
  then show ?thesis by simp
qed

lemma turtle_topics:
  "requester_writes nm =
     [(''rt/turtle1/cmd_vel'', ''geometry_msgs::msg::dds_::Twist_''),
      (''rt/turtle2/cmd_vel'', ''geometry_msgs::msg::dds_::Twist_''),
      (''rq/resetRequest'', ''std_srvs::srv::dds_::Empty_Request_''),
      (''rq/turtle1/set_penRequest'', ''turtlesim::srv::dds_::SetPen_Request_''),
      (''rq/spawnRequest'', ''turtlesim::srv::dds_::Spawn_Request_''),
      (''rq/killRequest'', ''turtlesim::srv::dds_::Kill_Request_''),
      (''rq/turtle1/rotate_absolute/_action/send_goalRequest'', ''turtlesim::action::dds_::RotateAbsolute_SendGoal_Request_''),
      (''rq/turtle1/rotate_absolute/_action/cancel_goalRequest'', ''action_msgs::srv::dds_::CancelGoal_Request_''),
      (''rq/turtle1/rotate_absolute/_action/get_resultRequest'', ''turtlesim::action::dds_::RotateAbsolute_GetResult_Request_'')]"
  by (simp add: requester_writes_def message_key_def request_key_of_def to_server_def action_services_def absolute_name_def to_dds_name_def
      name_push_def ends_with_char_def dds_msg_type_def dds_request_type_def slash_to_colons_def message_type_name_new_def
      service_type_name_new_def action_type_name_new_def service_type_name_new_prefix_def replace_char_Cons Let_def)

lemma teleop_endpoints:
  assumes "app_new features P env = Ok (h, node)"
  shows "\<exists>calls cs. dn_calls node = calls @ cs \<and> written_topics cs = requester_writes (dn_name node)
    \<and> take 2 (read_topics cs) = [(''rt/turtle1/cmd_vel'', ''geometry_msgs::msg::dds_::Twist_''), (''rt/turtle1/pose'', ''turtlesim::msg::dds_::Pose_'')]
    \<and> drop 2 (read_topics cs) = requester_reads (dn_name node)"
proof -
  obtain D env' n where n: "app_entities D env' n = (Ok h, node)"
    using assms by (auto simp: app_new_def Let_def split: sum.splits prod.splits)
  have keys: "message_key nm (absolute_name [''turtle1''] ''cmd_vel'') (message_type_name_new ''geometry_msgs'' ''Twist'')
      = (''rt/turtle1/cmd_vel'', ''geometry_msgs::msg::dds_::Twist_'')"
    "message_key nm (absolute_name [''turtle1''] ''pose'') (message_type_name_new ''turtlesim'' ''Pose'')
      = (''rt/turtle1/pose'', ''turtlesim::msg::dds_::Pose_'')" for nm
    by (simp_all add: message_key_def absolute_name_def to_dds_name_def ends_with_char_def dds_msg_type_def slash_to_colons_def
        message_type_name_new_def replace_char_Cons)
  have "dn_name node = dn_name n" using makes_app [of "dn_name n" D env'] n unfolding makes_def by blast
  moreover obtain cs where "dn_calls node = dn_calls n @ cs" "written_topics cs = requester_writes (dn_name n)"
    "read_topics cs = [(''rt/turtle1/cmd_vel'', ''geometry_msgs::msg::dds_::Twist_''), (''rt/turtle1/pose'', ''turtlesim::msg::dds_::Pose_'')]
       @ requester_reads (dn_name n)"
    using makesD [OF makes_app n] unfolding keys by blast
  ultimately show ?thesis by (intro exI [of _ "dn_calls n"] exI [of _ cs]) simp
qed

subsection \<open>The running program\<close>

datatype turtle_request =
    RequestReset empty_message
  | RequestSetPen pen_request
  | RequestSpawn spawn_request
  | RequestKill kill_request
  | RequestGoal goal_id f32
  | RequestResult goal_id
  | RequestCancel goal_id bi_time

text \<open>A oneshot channel, seen from its sender: not used, used, or dropped.\<close>

datatype oneshot = OneshotOpen | OneshotSent | OneshotDropped

text \<open>A spawned task: not yet polled, or at one of its awaits. \<open>AwaitRoom\<close> waits for room in the channel of
  messages; \<open>AwaitRotate\<close> is the \<open>select!\<close> between the cancellation, while that branch is enabled, and the
  result.\<close>

datatype turtle_task =
    NewPublish twist
  | NewReset
  | NewSetPen pen_request
  | NewSpawn string
  | NewKill string
  | NewRotate f32
  | AwaitReset
  | AwaitSetPen pen_request
  | AwaitSpawn
  | AwaitKill string
  | AwaitGoal goal_id
  | AwaitAccepted goal_id string
  | AwaitRotate goal_id nat bool
  | AwaitCancel goal_id
  | AwaitRoom string
  | TaskDone

datatype loop_branch = BranchEvents | BranchMessages | BranchCmdVel | BranchPose

datatype loop_status = LoopRunning | LoopBroken | LoopDrawError | LoopPanic | LoopInterrupted

text \<open>The program: the cells of the requester, what was handed to its writers, clients and the log, the channel
  of messages, the tasks, and the state of the loop. \<open>te_sent\<close> records every message ever put into the
  channel.\<close>

record teleop =
  te_turtle_id :: int
  te_cancel_rotate :: "nat option"
  te_oneshots :: "oneshot list"
  te_cmd_vel_writer :: "twist dds_publisher"
  te_cmd_vel_writer2 :: "twist dds_publisher"
  te_requests :: "turtle_request list"
  te_rosout :: "string list"
  te_messages :: "string list"
  te_sent :: "string list"
  te_tasks :: "turtle_task list"
  te_display :: ui_display
  te_pen_index :: nat
  te_disabled :: "loop_branch set"
  te_status :: loop_status
  te_restored :: bool

definition teleop_start :: "turtle_requester \<Rightarrow> teleop" where
  "teleop_start rq =
     \<lparr>te_turtle_id = 1, te_cancel_rotate = None, te_oneshots = [], te_cmd_vel_writer = rq_turtle_cmd_vel_writer rq,
      te_cmd_vel_writer2 = rq_turtle_cmd_vel_writer2 rq, te_requests = [], te_rosout = [''initialized, entering event loop''],
      te_messages = [], te_sent = [], te_tasks = [], te_display = display_default, te_pen_index = 0, te_disabled = {},
      te_status = LoopRunning, te_restored = False\<rparr>"

text \<open>How values are printed.\<close>

record teleop_text =
  tx_goal_id :: "goal_id \<Rightarrow> string"
  tx_status :: "goal_status_enum \<Rightarrow> string"
  tx_code :: "cancel_response_enum \<Rightarrow> string"
  tx_f32 :: "f32 \<Rightarrow> string"
  tx_string :: "string \<Rightarrow> string"

definition show_u8 :: "8 word \<Rightarrow> string" where
  "show_u8 w = show_nat (unat w)"

definition pen_debug :: "pen_request \<Rightarrow> string" where
  "pen_debug p = ''PenRequest { r: '' @ show_u8 (pen_r p) @ '', g: '' @ show_u8 (pen_g p) @ '', b: '' @ show_u8 (pen_b p)
     @ '', width: '' @ show_u8 (pen_width p) @ '', off: '' @ show_u8 (pen_off p) @ '' }''"

subsection \<open>The tasks\<close>

definition CHANNEL_CAPACITY :: nat where "CHANNEL_CAPACITY = 16"

definition request :: "turtle_request \<Rightarrow> teleop \<Rightarrow> teleop" where
  "request r s = s\<lparr>te_requests := te_requests s @ [r]\<rparr>"

definition send_message :: "string \<Rightarrow> teleop \<Rightarrow> teleop" where
  "send_message msg s = s\<lparr>te_messages := te_messages s @ [msg], te_sent := te_sent s @ [msg]\<rparr>"

definition rosout_info :: "string \<Rightarrow> teleop \<Rightarrow> teleop" where
  "rosout_info msg s = s\<lparr>te_rosout := te_rosout s @ [msg]\<rparr>"

definition publish_turtle_cmd_vel :: "(twist \<Rightarrow> bool) \<Rightarrow> twist \<Rightarrow> teleop \<Rightarrow> teleop" where
  "publish_turtle_cmd_vel write t s =
     (if te_turtle_id s = 1 then s\<lparr>te_cmd_vel_writer := snd (dds_async_publish write t (te_cmd_vel_writer s))\<rparr>
      else if te_turtle_id s = 2 then s\<lparr>te_cmd_vel_writer2 := snd (dds_async_publish write t (te_cmd_vel_writer2 s))\<rparr>
      else s)"

text \<open>What an await of a task returns.\<close>

datatype task_input =
    FirstPoll goal_id "twist \<Rightarrow> bool"
  | ResetReturned "call_service_error + empty_message"
  | SetPenReturned "call_service_error + unit"
  | SpawnReturned "call_service_error + string"
  | KillReturned "call_service_error + empty_message"
  | GoalReturned "call_service_error + send_goal_response"
  | RoomInChannel
  | CancelReceived bi_time
  | ResultReturned "call_service_error + goal_status_enum \<times> f32"
  | CancelReturned "call_service_error + cancel_goal_response"

definition turtle_reset :: "turtle_task \<Rightarrow> task_input \<Rightarrow> teleop \<Rightarrow> (turtle_task \<times> teleop) option" where
  "turtle_reset t i s =
     (case t of
        NewReset \<Rightarrow> (case i of FirstPoll _ _ \<Rightarrow> Some (AwaitReset, request (RequestReset empty_message_new) s) | _ \<Rightarrow> None)
      | AwaitReset \<Rightarrow>
          (case i of
             ResetReturned (Inl _) \<Rightarrow> Some (TaskDone, s)
           | ResetReturned (Inr _) \<Rightarrow> Some (AwaitRoom ''reset request sent'', rosout_info ''Requested turtlesim reset'' s)
           | _ \<Rightarrow> None)
      | _ \<Rightarrow> None)"

definition turtle_set_pen :: "turtle_task \<Rightarrow> task_input \<Rightarrow> teleop \<Rightarrow> (turtle_task \<times> teleop) option" where
  "turtle_set_pen t i s =
     (case t of
        NewSetPen p \<Rightarrow> (case i of FirstPoll _ _ \<Rightarrow> Some (AwaitSetPen p, request (RequestSetPen p) s) | _ \<Rightarrow> None)
      | AwaitSetPen p \<Rightarrow>
          (case i of
             SetPenReturned (Inl _) \<Rightarrow> Some (TaskDone, s)
           | SetPenReturned (Inr _) \<Rightarrow> Some (AwaitRoom (''pen '' @ pen_debug p @ '' has been set''), s)
           | _ \<Rightarrow> None)
      | _ \<Rightarrow> None)"

definition turtle_spawn :: "turtle_task \<Rightarrow> task_input \<Rightarrow> teleop \<Rightarrow> (turtle_task \<times> teleop) option" where
  "turtle_spawn t i s =
     (case t of
        NewSpawn name \<Rightarrow>
          (case i of
             FirstPoll _ _ \<Rightarrow>
               Some (AwaitSpawn, request (RequestSpawn \<lparr>sw_x = F32_ONE, sw_y = F32_ONE, sw_theta = 0, sw_name = name\<rparr>) s)
           | _ \<Rightarrow> None)
      | AwaitSpawn \<Rightarrow> (case i of SpawnReturned _ \<Rightarrow> Some (TaskDone, s) | _ \<Rightarrow> None)
      | _ \<Rightarrow> None)"

definition turtle_kill :: "teleop_text \<Rightarrow> turtle_task \<Rightarrow> task_input \<Rightarrow> teleop \<Rightarrow> (turtle_task \<times> teleop) option" where
  "turtle_kill tx t i s =
     (case t of
        NewKill name \<Rightarrow> (case i of FirstPoll _ _ \<Rightarrow> Some (AwaitKill name, request (RequestKill \<lparr>kl_name = name\<rparr>) s) | _ \<Rightarrow> None)
      | AwaitKill name \<Rightarrow>
          (case i of
             KillReturned (Inl _) \<Rightarrow> Some (TaskDone, s)
           | KillReturned (Inr _) \<Rightarrow> Some (AwaitRoom (''turtle '' @ tx_string tx name @ '' has been killed''), s)
           | _ \<Rightarrow> None)
      | _ \<Rightarrow> None)"

text \<open>\<open>cancel_rotate.replace\<close>: the sender that was there is dropped.\<close>

definition drop_sender :: "nat option \<Rightarrow> oneshot list \<Rightarrow> oneshot list" where
  "drop_sender c os = (case c of Some k \<Rightarrow> if os ! k = OneshotOpen then os[k := OneshotDropped] else os | None \<Rightarrow> os)"

definition replace_cancel :: "teleop \<Rightarrow> nat \<times> teleop" where
  "replace_cancel s =
     (let k = length (te_oneshots s)
      in (k, s\<lparr>te_oneshots := drop_sender (te_cancel_rotate s) (te_oneshots s) @ [OneshotOpen], te_cancel_rotate := Some k\<rparr>))"

definition rotate_absolute :: "teleop_text \<Rightarrow> turtle_task \<Rightarrow> task_input \<Rightarrow> teleop \<Rightarrow> (turtle_task \<times> teleop) option" where
  "rotate_absolute tx t i s =
     (case t of
        NewRotate heading \<Rightarrow>
          (case i of FirstPoll goal_id _ \<Rightarrow> Some (AwaitGoal goal_id, request (RequestGoal goal_id heading) s) | _ \<Rightarrow> None)
      | AwaitGoal goal_id \<Rightarrow>
          (case i of
             GoalReturned (Inl _) \<Rightarrow> Some (TaskDone, s)
           | GoalReturned (Inr response) \<Rightarrow>
               if \<not> sr_accepted response then Some (TaskDone, s)
               else (let msg = ''rotate_absolute goal has been accepted (goal_id='' @ tx_goal_id tx goal_id @ '')''
                     in Some (AwaitAccepted goal_id msg, rosout_info msg s))
           | _ \<Rightarrow> None)
      | AwaitAccepted goal_id msg \<Rightarrow>
          (case i of
             RoomInChannel \<Rightarrow>
               if length (te_messages s) < CHANNEL_CAPACITY
               then (let (k, s') = replace_cancel (send_message msg s)
                     in Some (AwaitRotate goal_id k True, request (RequestResult goal_id) s'))
               else None
           | _ \<Rightarrow> None)
      | AwaitRotate goal_id k enabled \<Rightarrow>
          (case i of
             CancelReceived now \<Rightarrow>
               if \<not> enabled then None
               else (case te_oneshots s ! k of
                       OneshotOpen \<Rightarrow> None
                     | OneshotDropped \<Rightarrow> Some (AwaitRotate goal_id k False, s)
                     | OneshotSent \<Rightarrow> Some (AwaitCancel goal_id, request (RequestCancel goal_id now) s))
           | ResultReturned (Inl _) \<Rightarrow> Some (TaskDone, s)
           | ResultReturned (Inr (status, delta)) \<Rightarrow>
               Some (AwaitRoom (''rotate_absolute has terminated with status '' @ tx_status tx status @ '' and delta '' @ tx_f32 tx delta), s)
           | _ \<Rightarrow> None)
      | AwaitCancel goal_id \<Rightarrow>
          (case i of
             CancelReturned (Inl _) \<Rightarrow> Some (TaskDone, s)
           | CancelReturned (Inr response) \<Rightarrow>
               Some (AwaitRoom (''rotate_absolute cancellation returned code '' @ tx_code tx (cg_return_code response)), s)
           | _ \<Rightarrow> None)
      | _ \<Rightarrow> None)"

text \<open>The last await of the tasks that report: \<open>messages_sender.send(msg)\<close>.\<close>

definition task_step :: "teleop_text \<Rightarrow> turtle_task \<Rightarrow> task_input \<Rightarrow> teleop \<Rightarrow> (turtle_task \<times> teleop) option" where
  "task_step tx t i s =
     (case t of
        NewPublish tw \<Rightarrow> (case i of FirstPoll _ write \<Rightarrow> Some (TaskDone, publish_turtle_cmd_vel write tw s) | _ \<Rightarrow> None)
      | NewReset \<Rightarrow> turtle_reset t i s | AwaitReset \<Rightarrow> turtle_reset t i s
      | NewSetPen _ \<Rightarrow> turtle_set_pen t i s | AwaitSetPen _ \<Rightarrow> turtle_set_pen t i s
      | NewSpawn _ \<Rightarrow> turtle_spawn t i s | AwaitSpawn \<Rightarrow> turtle_spawn t i s
      | NewKill _ \<Rightarrow> turtle_kill tx t i s | AwaitKill _ \<Rightarrow> turtle_kill tx t i s
      | AwaitRoom msg \<Rightarrow>
          (case i of
             RoomInChannel \<Rightarrow> if length (te_messages s) < CHANNEL_CAPACITY then Some (TaskDone, send_message msg s) else None
           | _ \<Rightarrow> None)
      | TaskDone \<Rightarrow> None
      | _ \<Rightarrow> rotate_absolute tx t i s)"

subsection \<open>The event loop\<close>

definition spawn_task :: "turtle_task \<Rightarrow> teleop \<Rightarrow> teleop" where
  "spawn_task t s = s\<lparr>te_tasks := te_tasks s @ [t]\<rparr>"

definition cancel_rotate_absolute :: "teleop \<Rightarrow> teleop" where
  "cancel_rotate_absolute s =
     (case te_cancel_rotate s of
        None \<Rightarrow> s
      | Some k \<Rightarrow> s\<lparr>te_cancel_rotate := None, te_oneshots := (te_oneshots s)[k := OneshotSent]\<rparr>)"

definition set_controlled_turtle_id :: "int \<Rightarrow> teleop \<Rightarrow> teleop" where
  "set_controlled_turtle_id i s = s\<lparr>te_turtle_id := i\<rparr>"

text \<open>\<open>break\<close> restores the terminal.\<close>

fun handle_event :: "ui_event \<Rightarrow> teleop \<Rightarrow> teleop" where
  "handle_event StopEventLoop s = s\<lparr>te_status := LoopBroken, te_restored := True\<rparr>"
| "handle_event (TurtleCmdVel t) s = spawn_task (NewPublish t) s"
| "handle_event ResetTurtles s = spawn_task NewReset s"
| "handle_event (SetPen p) s = spawn_task (NewSetPen p) s"
| "handle_event (SpawnTurtle name) s = spawn_task (NewSpawn name) s"
| "handle_event (KillTurtle name) s = spawn_task (NewKill name) s"
| "handle_event (RotateAbsolute heading) s = spawn_task (NewRotate heading) s"
| "handle_event CancelRotateAbsolute s = cancel_rotate_absolute s"
| "handle_event (ChooseTurtle i) s = set_controlled_turtle_id i s"

text \<open>The next iteration draws first; an error of drawing leaves the loop.\<close>

definition next_iteration :: "bool \<Rightarrow> teleop \<Rightarrow> teleop" where
  "next_iteration drawn s =
     (if te_status s \<noteq> LoopRunning then s
      else if drawn then s\<lparr>te_disabled := {}\<rparr> else s\<lparr>te_status := LoopDrawError\<rparr>)"

definition disable_branch :: "loop_branch \<Rightarrow> teleop \<Rightarrow> teleop" where
  "disable_branch b s = s\<lparr>te_disabled := insert b (te_disabled s)\<rparr>"

text \<open>What a branch of the \<open>select!\<close> gets. A value that does not match its pattern disables the branch for
  this iteration; a terminal event that is no command is skipped inside the stream.\<close>

datatype loop_input =
    TerminalItem "unit + term_event"
  | TerminalEnd
  | MessageItem
  | CmdVelItem "read_error + twist"
  | PoseItem "read_error + turtle_pose"

fun branch_of :: "loop_input \<Rightarrow> loop_branch" where
  "branch_of (TerminalItem _) = BranchEvents"
| "branch_of TerminalEnd = BranchEvents"
| "branch_of MessageItem = BranchMessages"
| "branch_of (CmdVelItem _) = BranchCmdVel"
| "branch_of (PoseItem _) = BranchPose"

fun loop_branch_step :: "loop_input \<Rightarrow> bool \<Rightarrow> teleop \<Rightarrow> teleop option" where
  "loop_branch_step (TerminalItem (Inl _)) drawn s = Some (disable_branch BranchEvents s)"
| "loop_branch_step (TerminalItem (Inr t)) drawn s =
     (case into_event t (te_pen_index s) of
        None \<Rightarrow> Some (s\<lparr>te_status := LoopPanic\<rparr>)
      | Some (None, pen_index) \<Rightarrow> Some (s\<lparr>te_pen_index := pen_index\<rparr>)
      | Some (Some ev, pen_index) \<Rightarrow> Some (next_iteration drawn (handle_event ev (s\<lparr>te_pen_index := pen_index\<rparr>))))"
| "loop_branch_step TerminalEnd drawn s = Some (disable_branch BranchEvents s)"
| "loop_branch_step MessageItem drawn s =
     (case te_messages s of
        [] \<Rightarrow> None
      | msg # msgs \<Rightarrow> Some (next_iteration drawn (s\<lparr>te_messages := msgs, te_display := add_message msg (te_display s)\<rparr>)))"
| "loop_branch_step (CmdVelItem (Inl _)) drawn s = Some (disable_branch BranchCmdVel s)"
| "loop_branch_step (CmdVelItem (Inr t)) drawn s = Some (next_iteration drawn (s\<lparr>te_display := set_cmd_vel t (te_display s)\<rparr>))"
| "loop_branch_step (PoseItem (Inl _)) drawn s = Some (disable_branch BranchPose s)"
| "loop_branch_step (PoseItem (Inr p)) drawn s = Some (next_iteration drawn (s\<lparr>te_display := set_pose p (te_display s)\<rparr>))"

subsection \<open>The program\<close>

text \<open>A step of \<open>main\<close>: the loop takes an input, a task is polled, or Ctrl-C ends the program from outside.\<close>

datatype teleop_action = LoopStep loop_input bool | TaskStep nat task_input | Interrupt

fun teleop_step :: "teleop_text \<Rightarrow> teleop_action \<Rightarrow> teleop \<Rightarrow> teleop option" where
  "teleop_step tx (LoopStep i drawn) s =
     (if te_status s = LoopRunning \<and> branch_of i \<notin> te_disabled s then loop_branch_step i drawn s else None)"
| "teleop_step tx (TaskStep n i) s =
     (if te_status s = LoopRunning \<and> n < length (te_tasks s)
      then map_option (\<lambda>(t, s'). s'\<lparr>te_tasks := (te_tasks s')[n := t]\<rparr>) (task_step tx (te_tasks s ! n) i s)
      else None)"
| "teleop_step tx Interrupt s = (if te_status s = LoopRunning then Some (s\<lparr>te_status := LoopInterrupted\<rparr>) else None)"

inductive teleop_reach :: "teleop_text \<Rightarrow> turtle_requester \<Rightarrow> teleop \<Rightarrow> bool" for tx rq where
  teleop_init: "teleop_reach tx rq (next_iteration drawn (teleop_start rq))"
| teleop_next: "teleop_reach tx rq s \<Longrightarrow> teleop_step tx a s = Some s' \<Longrightarrow> teleop_reach tx rq s'"

subsection \<open>What holds while it runs\<close>

definition turtle_moves :: "twist set" where
  "turtle_moves = {MOVE_FORWARD, MOVE_BACKWARD, ROTATE_LEFT, ROTATE_RIGHT}"

definition turtle_headings :: "f32 set" where
  "turtle_headings = {F32_PI, 0}"

fun event_ok :: "ui_event \<Rightarrow> bool" where
  "event_ok (TurtleCmdVel t) \<longleftrightarrow> t \<in> turtle_moves"
| "event_ok (ChooseTurtle i) \<longleftrightarrow> i \<in> {1, 2}"
| "event_ok (RotateAbsolute h) \<longleftrightarrow> h \<in> turtle_headings"
| "event_ok _ = True"

text \<open>A task belongs to requests already made: \<open>R\<close> are the requests, \<open>n\<close> counts the oneshot channels.\<close>

fun task_ok :: "turtle_request set \<Rightarrow> nat \<Rightarrow> turtle_task \<Rightarrow> bool" where
  "task_ok R n (NewPublish t) \<longleftrightarrow> t \<in> turtle_moves"
| "task_ok R n (NewRotate h) \<longleftrightarrow> h \<in> turtle_headings"
| "task_ok R n (AwaitGoal g) \<longleftrightarrow> (\<exists>h\<in>turtle_headings. RequestGoal g h \<in> R)"
| "task_ok R n (AwaitAccepted g _) \<longleftrightarrow> (\<exists>h\<in>turtle_headings. RequestGoal g h \<in> R)"
| "task_ok R n (AwaitRotate g k _) \<longleftrightarrow> RequestResult g \<in> R \<and> k < n"
| "task_ok R n _ = True"

fun request_ok :: "turtle_request set \<Rightarrow> turtle_request \<Rightarrow> bool" where
  "request_ok R (RequestResult g) \<longleftrightarrow> (\<exists>h\<in>turtle_headings. RequestGoal g h \<in> R)"
| "request_ok R (RequestCancel g _) \<longleftrightarrow> RequestResult g \<in> R"
| "request_ok R _ = True"

lemma ok_mono:
  "task_ok R n t \<Longrightarrow> R \<subseteq> R' \<Longrightarrow> n \<le> n' \<Longrightarrow> task_ok R' n' t"
  "request_ok R r \<Longrightarrow> R \<subseteq> R' \<Longrightarrow> request_ok R' r"
  by (cases t; auto) (cases r; auto)

definition messages_inv :: "teleop \<Rightarrow> bool" where
  "messages_inv s \<longleftrightarrow> length (te_messages s) \<le> CHANNEL_CAPACITY
     \<and> (\<exists>shown. te_sent s = shown @ te_messages s \<and> di_messages (te_display s) = take MESSAGES_MAX_LEN (rev shown))"

definition loop_inv :: "teleop \<Rightarrow> bool" where
  "loop_inv s \<longleftrightarrow> te_pen_index s < 5 \<and> te_status s \<noteq> LoopPanic \<and> te_turtle_id s \<in> {1, 2}"

definition moved :: "twist dds_publisher \<Rightarrow> twist dds_publisher \<Rightarrow> bool" where
  "moved p p' \<longleftrightarrow> (\<exists>w. dp_written p' = dp_written p @ w \<and> set w \<subseteq> turtle_moves)"

definition writers_inv :: "turtle_requester \<Rightarrow> teleop \<Rightarrow> bool" where
  "writers_inv rq s \<longleftrightarrow> moved (rq_turtle_cmd_vel_writer rq) (te_cmd_vel_writer s) \<and> moved (rq_turtle_cmd_vel_writer2 rq) (te_cmd_vel_writer2 s)"

text \<open>The one open channel is that of the sender in the cell.\<close>

definition oneshots_inv :: "teleop \<Rightarrow> bool" where
  "oneshots_inv s \<longleftrightarrow> (\<forall>j. j < length (te_oneshots s) \<and> te_oneshots s ! j = OneshotOpen \<longleftrightarrow> te_cancel_rotate s = Some j)"

definition tasks_inv :: "teleop \<Rightarrow> bool" where
  "tasks_inv s \<longleftrightarrow> list_all (task_ok (set (te_requests s)) (length (te_oneshots s))) (te_tasks s)
     \<and> list_all (request_ok (set (te_requests s))) (te_requests s)"

definition teleop_inv :: "turtle_requester \<Rightarrow> teleop \<Rightarrow> bool" where
  "teleop_inv rq s \<longleftrightarrow> messages_inv s \<and> loop_inv s \<and> writers_inv rq s \<and> oneshots_inv s \<and> tasks_inv s"

lemmas teleop_inv_defs = teleop_inv_def messages_inv_def loop_inv_def writers_inv_def oneshots_inv_def tasks_inv_def

lemma moved_refl: "moved p p"
  by (simp add: moved_def)

lemma moved_publish: "moved p p' \<Longrightarrow> t \<in> turtle_moves \<Longrightarrow> moved p (snd (dds_async_publish write t p'))"
  by (auto simp: moved_def dds_async_publish_def)

lemma start_inv: "teleop_inv rq (teleop_start rq)"
  by (simp add: teleop_inv_defs teleop_start_def display_default_def moved_refl)

lemma iteration_inv: "teleop_inv rq s \<Longrightarrow> teleop_inv rq (next_iteration drawn s)"
  by (simp add: next_iteration_def teleop_inv_defs)

lemma into_event_ok:
  assumes "i < 5" and "into_event t i = Some (ev, j)"
  shows "j < 5 \<and> (\<forall>e. ev = Some e \<longrightarrow> event_ok e)"
proof -
  have "case into_event t i of None \<Rightarrow> False | Some (ev, j) \<Rightarrow> j < 5 \<and> (case ev of None \<Rightarrow> True | Some e \<Rightarrow> event_ok e)"
  proof (cases t)
    case (KeyPress e)
    with assms(1) show ?thesis
      by (cases "ke_code e") (simp_all add: into_event_def key_event_of_def turtle_moves_def turtle_headings_def)
  qed (use assms in \<open>simp add: into_event_def\<close>)
  with assms(2) show ?thesis by (auto split: option.splits)
qed

lemma disable_inv: "teleop_inv rq s \<Longrightarrow> teleop_inv rq (disable_branch b s)"
  by (simp add: disable_branch_def teleop_inv_defs)

lemma nth_update_at: "j < length xs \<Longrightarrow> xs[k := x] ! j = (if j = k then x else xs ! j)"
  by (cases "j = k") simp_all

lemma only_open:
  assumes "oneshots_inv s" and "j < length (te_oneshots s)" and "te_oneshots s ! j = OneshotOpen"
  shows "te_cancel_rotate s = Some j"
  using assms unfolding oneshots_inv_def by blast

lemma cancel_inv:
  assumes "teleop_inv rq s"
  shows "teleop_inv rq (cancel_rotate_absolute s)"
proof (cases "te_cancel_rotate s")
  case (Some k)
  have "j < length (te_oneshots s) \<Longrightarrow> te_oneshots s ! j = OneshotOpen \<Longrightarrow> j = k" for j
    using only_open [of s j] assms Some by (simp add: teleop_inv_def)
  then have "oneshots_inv (cancel_rotate_absolute s)"
    using Some by (auto simp: oneshots_inv_def cancel_rotate_absolute_def nth_update_at split: if_splits)
  moreover have "messages_inv (cancel_rotate_absolute s) \<and> loop_inv (cancel_rotate_absolute s) \<and> writers_inv rq (cancel_rotate_absolute s)
      \<and> tasks_inv (cancel_rotate_absolute s)"
    using assms Some by (simp add: cancel_rotate_absolute_def teleop_inv_def messages_inv_def loop_inv_def writers_inv_def tasks_inv_def)
  ultimately show ?thesis by (simp add: teleop_inv_def)
qed (use assms in \<open>simp add: cancel_rotate_absolute_def\<close>)

lemma handle_event_inv:
  assumes "teleop_inv rq s" and "event_ok ev"
  shows "teleop_inv rq (handle_event ev s)"
proof -
  have task: "teleop_inv rq (spawn_task t s)" if "task_ok (set (te_requests s)) (length (te_oneshots s)) t" for t
    using assms(1) that by (simp add: spawn_task_def teleop_inv_defs)
  show ?thesis
  proof (cases ev)
    case CancelRotateAbsolute
    then show ?thesis using cancel_inv [OF assms(1)] by simp
  next
    case StopEventLoop
    then show ?thesis using assms(1) by (simp add: teleop_inv_defs)
  next
    case (ChooseTurtle i)
    then show ?thesis using assms by (simp add: set_controlled_turtle_id_def teleop_inv_defs)
  qed (use assms(2) task in simp_all)
qed

lemma message_inv:
  assumes "messages_inv s" and "te_messages s = msg # msgs"
  shows "messages_inv (s\<lparr>te_messages := msgs, te_display := add_message msg (te_display s)\<rparr>)"
proof -
  obtain shown where s: "te_sent s = shown @ te_messages s" "di_messages (te_display s) = take MESSAGES_MAX_LEN (rev shown)"
    using assms(1) by (auto simp: messages_inv_def)
  have "take MESSAGES_MAX_LEN (msg # take MESSAGES_MAX_LEN (rev shown)) = take MESSAGES_MAX_LEN (msg # rev shown)"
    by (simp add: MESSAGES_MAX_LEN_def)
  with s assms show ?thesis by (auto simp: messages_inv_def add_message_def intro!: exI [of _ "shown @ [msg]"])
qed

lemma loop_step_inv:
  assumes "teleop_inv rq s" and "loop_branch_step i drawn s = Some s'"
  shows "teleop_inv rq s'"
proof (cases "(i, drawn, s)" rule: loop_branch_step.cases)
  case (2 t d u)
  have pen: "te_pen_index s < 5" using assms(1) by (simp add: teleop_inv_def loop_inv_def)
  obtain ev j where ev: "into_event t (te_pen_index s) = Some (ev, j)" using into_event_pen [OF pen, of t] by auto
  have j: "j < 5" "\<And>e. ev = Some e \<Longrightarrow> event_ok e" using into_event_ok [OF pen ev] by auto
  have "teleop_inv rq (s\<lparr>te_pen_index := j\<rparr>)" using assms(1) j(1) by (simp add: teleop_inv_defs)
  then show ?thesis using 2 assms(2) ev j(2) by (cases ev) (auto intro: iteration_inv handle_event_inv)
next
  case (4 d u)
  then obtain m ms where ms: "te_messages s = m # ms" using assms(2) by (cases "te_messages s") auto
  have "teleop_inv rq (s\<lparr>te_messages := ms, te_display := add_message m (te_display s)\<rparr>)"
    using assms(1) message_inv [OF _ ms] by (simp add: teleop_inv_def loop_inv_def writers_inv_def oneshots_inv_def tasks_inv_def)
  then show ?thesis using 4 assms(2) ms by (auto intro: iteration_inv)
next
  case (6 t d u)
  have "teleop_inv rq (s\<lparr>te_display := set_cmd_vel t (te_display s)\<rparr>)" using assms(1) by (simp add: teleop_inv_defs set_cmd_vel_def)
  then show ?thesis using 6 assms(2) by (auto intro: iteration_inv)
next
  case (8 p d u)
  have "teleop_inv rq (s\<lparr>te_display := set_pose p (te_display s)\<rparr>)" using assms(1) by (simp add: teleop_inv_defs set_pose_def)
  then show ?thesis using 8 assms(2) by (auto intro: iteration_inv)
qed (use assms disable_inv in auto)

lemma requested:
  assumes "teleop_inv rq s" and "request_ok (insert r (set (te_requests s))) r"
  shows "teleop_inv rq (request r s)"
proof -
  have "set (te_requests s) \<subseteq> insert r (set (te_requests s))" by blast
  then have "list_all (task_ok (insert r (set (te_requests s))) (length (te_oneshots s))) (te_tasks s)"
    "list_all (request_ok (insert r (set (te_requests s)))) (te_requests s)"
    using assms(1) by (auto simp: teleop_inv_defs list_all_iff intro: ok_mono)
  then show ?thesis using assms by (simp add: request_def teleop_inv_defs)
qed

lemma logged: "teleop_inv rq s \<Longrightarrow> teleop_inv rq (rosout_info msg s)"
  by (simp add: rosout_info_def teleop_inv_defs)

lemma sent_inv: "teleop_inv rq s \<Longrightarrow> length (te_messages s) < CHANNEL_CAPACITY \<Longrightarrow> teleop_inv rq (send_message msg s)"
  by (auto simp: send_message_def teleop_inv_defs)

lemma published_inv:
  assumes "teleop_inv rq s" and "t \<in> turtle_moves"
  shows "teleop_inv rq (publish_turtle_cmd_vel write t s)"
proof -
  consider "te_turtle_id s = 1" | "te_turtle_id s = 2" using assms(1) by (auto simp: teleop_inv_def loop_inv_def)
  then show ?thesis using assms by cases (simp_all add: publish_turtle_cmd_vel_def teleop_inv_defs moved_publish)
qed

lemma replace_inv:
  assumes "teleop_inv rq s" and "replace_cancel s = (k, s')"
  shows "teleop_inv rq s'" and "k < length (te_oneshots s')" and "te_requests s' = te_requests s" and "te_tasks s' = te_tasks s"
proof -
  let ?os = "drop_sender (te_cancel_rotate s) (te_oneshots s)"
  have len: "length ?os = length (te_oneshots s)" by (simp add: drop_sender_def split: option.splits)
  have none: "j < length ?os \<Longrightarrow> ?os ! j \<noteq> OneshotOpen" for j
    using only_open [of s j] assms(1) len
    by (cases "te_cancel_rotate s") (auto simp: teleop_inv_def drop_sender_def nth_update_at split: if_splits)
  have s': "s' = s\<lparr>te_oneshots := ?os @ [OneshotOpen], te_cancel_rotate := Some (length (te_oneshots s))\<rparr>" "k = length (te_oneshots s)"
    using assms(2) by (auto simp: replace_cancel_def Let_def)
  have "oneshots_inv s'" using none len by (auto simp: s'(1) oneshots_inv_def nth_append less_Suc_eq)
  moreover have "tasks_inv s'"
    using assms(1) len by (auto simp: s'(1) teleop_inv_def tasks_inv_def list_all_iff intro: ok_mono(1) [OF _ order_refl])
  moreover have "messages_inv s' \<and> loop_inv s' \<and> writers_inv rq s'"
    using assms(1) by (simp add: s'(1) teleop_inv_def messages_inv_def loop_inv_def writers_inv_def)
  ultimately show "teleop_inv rq s'" by (simp add: teleop_inv_def)
  show "k < length (te_oneshots s')" "te_requests s' = te_requests s" "te_tasks s' = te_tasks s" using s' len by simp_all
qed

text \<open>What a step of a task keeps: the invariant, the other tasks, and that the task belongs to requests made.\<close>

definition task_keeps :: "turtle_requester \<Rightarrow> teleop \<Rightarrow> turtle_task \<times> teleop \<Rightarrow> bool" where
  "task_keeps rq s r \<longleftrightarrow> teleop_inv rq (snd r) \<and> te_tasks (snd r) = te_tasks s
     \<and> task_ok (set (te_requests (snd r))) (length (te_oneshots (snd r))) (fst r)"

lemma small_tasks_keep:
  assumes "teleop_inv rq s" and "r \<in> {turtle_reset t i s, turtle_set_pen t i s, turtle_spawn t i s, turtle_kill tx t i s}" and "r = Some x"
  shows "task_keeps rq s x"
  using assms
  by (auto simp: turtle_reset_def turtle_set_pen_def turtle_spawn_def turtle_kill_def task_keeps_def requested logged
      split: turtle_task.splits task_input.splits sum.splits)
    (simp_all add: request_def rosout_info_def)

lemma rotate_keeps:
  assumes "teleop_inv rq s" and "task_ok (set (te_requests s)) (length (te_oneshots s)) t" and "rotate_absolute tx t i s = Some x"
  shows "task_keeps rq s x"
proof (cases t)
  case (NewRotate h)
  then obtain g w where "i = FirstPoll g w" "x = (AwaitGoal g, request (RequestGoal g h) s)"
    using assms(3) by (cases i) (auto simp: rotate_absolute_def)
  then show ?thesis using assms(1,2) NewRotate by (auto simp: task_keeps_def requested) (auto simp: request_def)
next
  case (AwaitGoal g)
  then show ?thesis using assms
    by (cases i) (auto simp: rotate_absolute_def task_keeps_def Let_def logged split: sum.splits if_splits; simp add: rosout_info_def)+
next
  case (AwaitAccepted g msg)
  then have i: "i = RoomInChannel" "length (te_messages s) < CHANNEL_CAPACITY" using assms(3)
    by (cases i; simp add: rotate_absolute_def split: if_splits)+
  obtain k s' where r: "replace_cancel (send_message msg s) = (k, s')" by fastforce
  note sent = sent_inv [OF assms(1) i(2), of msg]
  note kept = replace_inv [OF sent r]
  have x: "x = (AwaitRotate g k True, request (RequestResult g) s')"
    using assms(3) AwaitAccepted i r by (simp add: rotate_absolute_def)
  have goal: "\<exists>h\<in>turtle_headings. RequestGoal g h \<in> set (te_requests s')"
    using assms(2) AwaitAccepted kept(3) by (simp add: send_message_def)
  then have "teleop_inv rq (request (RequestResult g) s')" by (intro requested kept) auto
  with kept show ?thesis by (simp add: task_keeps_def x) (simp add: request_def send_message_def)
next
  case (AwaitRotate g k e)
  then show ?thesis using assms
    by (cases i) (auto simp: rotate_absolute_def task_keeps_def requested split: sum.splits if_splits oneshot.splits;
      simp add: request_def)+
next
  case (AwaitCancel g)
  then show ?thesis using assms by (cases i) (auto simp: rotate_absolute_def task_keeps_def split: sum.splits)
qed (use assms in \<open>simp_all add: rotate_absolute_def\<close>)

lemma task_step_keeps:
  assumes "teleop_inv rq s" and "task_ok (set (te_requests s)) (length (te_oneshots s)) t" and "task_step tx t i s = Some x"
  shows "task_keeps rq s x"
proof (cases t)
  case (NewPublish tw)
  then show ?thesis using assms
    by (cases i) (auto simp: task_step_def task_keeps_def published_inv; simp add: publish_turtle_cmd_vel_def)+
next
  case (AwaitRoom msg)
  then show ?thesis using assms
    by (cases i) (auto simp: task_step_def task_keeps_def sent_inv split: if_splits; simp add: send_message_def)+
next
  case TaskDone
  then show ?thesis using assms(3) by (simp add: task_step_def)
next
  case NewReset then show ?thesis using small_tasks_keep [OF assms(1), of "turtle_reset t i s" t i tx x] assms(3) by (simp add: task_step_def)
next
  case AwaitReset then show ?thesis using small_tasks_keep [OF assms(1), of "turtle_reset t i s" t i tx x] assms(3) by (simp add: task_step_def)
next
  case NewSetPen then show ?thesis using small_tasks_keep [OF assms(1), of "turtle_set_pen t i s" t i tx x] assms(3) by (simp add: task_step_def)
next
  case AwaitSetPen then show ?thesis using small_tasks_keep [OF assms(1), of "turtle_set_pen t i s" t i tx x] assms(3) by (simp add: task_step_def)
next
  case NewSpawn then show ?thesis using small_tasks_keep [OF assms(1), of "turtle_spawn t i s" t i tx x] assms(3) by (simp add: task_step_def)
next
  case AwaitSpawn then show ?thesis using small_tasks_keep [OF assms(1), of "turtle_spawn t i s" t i tx x] assms(3) by (simp add: task_step_def)
next
  case NewKill then show ?thesis using small_tasks_keep [OF assms(1), of "turtle_kill tx t i s" t i tx x] assms(3) by (simp add: task_step_def)
next
  case AwaitKill then show ?thesis using small_tasks_keep [OF assms(1), of "turtle_kill tx t i s" t i tx x] assms(3) by (simp add: task_step_def)
qed (use rotate_keeps [OF assms(1,2)] assms(3) in \<open>simp_all add: task_step_def\<close>)

lemma teleop_step_inv:
  assumes "teleop_inv rq s" and "teleop_step tx a s = Some s'"
  shows "teleop_inv rq s'"
proof (cases a)
  case (LoopStep i drawn)
  then show ?thesis using assms loop_step_inv by (auto split: if_splits)
next
  case (TaskStep n i)
  then obtain t u where u: "n < length (te_tasks s)" "task_step tx (te_tasks s ! n) i s = Some (t, u)" "s' = u\<lparr>te_tasks := (te_tasks u)[n := t]\<rparr>"
    using assms(2) by (auto split: if_splits)
  have "task_ok (set (te_requests s)) (length (te_oneshots s)) (te_tasks s ! n)"
    using assms(1) u(1) by (simp add: teleop_inv_def tasks_inv_def list_all_length)
  from task_step_keeps [OF assms(1) this u(2)] have k: "teleop_inv rq u" "te_tasks u = te_tasks s"
    "task_ok (set (te_requests u)) (length (te_oneshots u)) t" by (simp_all add: task_keeps_def)
  then have "list_all (task_ok (set (te_requests u)) (length (te_oneshots u))) ((te_tasks u)[n := t])"
    by (auto simp: teleop_inv_def tasks_inv_def list_all_iff dest!: subsetD [OF set_update_subset_insert])
  with k(1) show ?thesis by (simp add: u(3) teleop_inv_defs)
next
  case Interrupt
  then have "s' = s\<lparr>te_status := LoopInterrupted\<rparr>" using assms(2) by (simp split: if_splits)
  then show ?thesis using assms(1) by (simp add: teleop_inv_defs)
qed

lemma teleop_reach_inv: "teleop_reach tx rq s \<Longrightarrow> teleop_inv rq s"
  by (induction rule: teleop_reach.induct) (blast intro: iteration_inv start_inv teleop_step_inv)+

text \<open>C38. Whatever the user types, the services answer and the tasks interleave, the teleoperation of turtles
  stays sound. The screen shows the newest twenty of the messages delivered, the newest first, and none is
  lost between the tasks and the screen; the channel holds at most sixteen. The interface never panics. Only
  the four moves of the keys are published, and only for turtle 1 or 2. A rotation is canceled only
  after its goal was sent and its result asked for, and at any time there is at most one rotation that
  the user can cancel.\<close>

theorem teleop_invariant:
  assumes "teleop_reach tx rq s"
  shows "(\<exists>shown. te_sent s = shown @ te_messages s \<and> di_messages (te_display s) = take 20 (rev shown))
    \<and> length (te_messages s) \<le> 16 \<and> te_status s \<noteq> LoopPanic \<and> te_turtle_id s \<in> {1, 2}
    \<and> (\<exists>w. dp_written (te_cmd_vel_writer s) = dp_written (rq_turtle_cmd_vel_writer rq) @ w \<and> set w \<subseteq> turtle_moves)
    \<and> (\<exists>w. dp_written (te_cmd_vel_writer2 s) = dp_written (rq_turtle_cmd_vel_writer2 rq) @ w \<and> set w \<subseteq> turtle_moves)
    \<and> (\<forall>g now. RequestCancel g now \<in> set (te_requests s) \<longrightarrow>
         RequestResult g \<in> set (te_requests s) \<and> (\<exists>h\<in>turtle_headings. RequestGoal g h \<in> set (te_requests s)))
    \<and> (\<forall>j. j < length (te_oneshots s) \<and> te_oneshots s ! j = OneshotOpen \<longleftrightarrow> te_cancel_rotate s = Some j)"
proof -
  have i: "messages_inv s" "loop_inv s" "writers_inv rq s" "oneshots_inv s" "tasks_inv s"
    using teleop_reach_inv [OF assms] by (simp_all add: teleop_inv_def)
  have "request_ok (set (te_requests s)) r" if "r \<in> set (te_requests s)" for r
    using i(5) that by (simp add: tasks_inv_def list_all_iff)
  then have c: "RequestResult g \<in> set (te_requests s) \<and> (\<exists>h\<in>turtle_headings. RequestGoal g h \<in> set (te_requests s))"
    if "RequestCancel g now \<in> set (te_requests s)" for g now
    using that by (metis request_ok.simps(1,2))
  have "messages_inv s \<and> loop_inv s \<and> writers_inv rq s" using i by blast
  then have "(\<exists>shown. te_sent s = shown @ te_messages s \<and> di_messages (te_display s) = take 20 (rev shown))"
    "length (te_messages s) \<le> 16" "te_status s \<noteq> LoopPanic" "te_turtle_id s \<in> {1, 2}"
    "\<exists>w. dp_written (te_cmd_vel_writer s) = dp_written (rq_turtle_cmd_vel_writer rq) @ w \<and> set w \<subseteq> turtle_moves"
    "\<exists>w. dp_written (te_cmd_vel_writer2 s) = dp_written (rq_turtle_cmd_vel_writer2 rq) @ w \<and> set w \<subseteq> turtle_moves"
    by (simp_all add: messages_inv_def loop_inv_def writers_inv_def moved_def CHANNEL_CAPACITY_def MESSAGES_MAX_LEN_def)
  with c i(4) show ?thesis unfolding oneshots_inv_def by blast
qed

text \<open>A run: the user turns the turtle, the goal is accepted, the message is shown, and the rotation is
  canceled.\<close>

definition plain_text :: teleop_text where
  "plain_text = \<lparr>tx_goal_id = \<lambda>_. ''7'', tx_status = \<lambda>_. [], tx_code = \<lambda>_. [], tx_f32 = \<lambda>_. [], tx_string = \<lambda>s. s\<rparr>"

definition idle_requester :: turtle_requester where
  "idle_requester =
     (let p = \<lparr>dp_guid = [], dp_written = []\<rparr>; c = \<lparr>dc_service_mapping = Enhanced, dc_sequence_number_gen = 0, dc_client_guid = [], dc_written = []\<rparr>
      in \<lparr>rq_turtle_cmd_vel_writer = p, rq_turtle_cmd_vel_writer2 = p, rq_reset_client = c, rq_set_pen_client = c, rq_spawn_client = c,
          rq_kill_client = c, rq_rotate_action_client = \<lparr>my_goal_client = c, my_cancel_client = c, my_result_client = c\<rparr>\<rparr>)"

fun run_teleop :: "teleop_text \<Rightarrow> teleop_action list \<Rightarrow> teleop \<Rightarrow> teleop option" where
  "run_teleop tx [] s = Some s"
| "run_teleop tx (a # as) s = Option.bind (teleop_step tx a s) (run_teleop tx as)"

lemma run_teleop_reach: "teleop_reach tx rq s \<Longrightarrow> run_teleop tx as s = Some s' \<Longrightarrow> teleop_reach tx rq s'"
  by (induction as arbitrary: s) (auto split: bind_splits intro: teleop_next)

definition press :: "char \<Rightarrow> teleop_action" where
  "press c = LoopStep (TerminalItem (Inr (KeyPress \<lparr>ke_code = KeyChar c, ke_modifiers = {}\<rparr>))) True"

definition accepted :: task_input where
  "accepted = GoalReturned (Inr \<lparr>sr_accepted = True, sr_stamp = BI_TIME_ZERO\<rparr>)"

definition turn_west :: "teleop_action list" where
  "turn_west = [press (CHR ''d''), TaskStep 0 (FirstPoll 7 (\<lambda>_. True)), TaskStep 0 accepted, TaskStep 0 RoomInChannel]"

lemmas run_simps = turn_west_def press_def accepted_def teleop_start_def next_iteration_def into_event_def key_event_of_def spawn_task_def
  task_step_def rotate_absolute_def request_def rosout_info_def send_message_def replace_cancel_def drop_sender_def CHANNEL_CAPACITY_def
  cancel_rotate_absolute_def Let_def

theorem teleop_invariant_witness:
  "\<exists>s. run_teleop plain_text (turn_west @ [LoopStep MessageItem True, press (CHR ''f''), TaskStep 0 (CancelReceived BI_TIME_ZERO)])
       (next_iteration True (teleop_start idle_requester)) = Some s
     \<and> te_requests s = [RequestGoal 7 F32_PI, RequestResult 7, RequestCancel 7 BI_TIME_ZERO]
     \<and> length (di_messages (te_display s)) = 1 \<and> length (te_messages s) \<le> 16
     \<and> (\<exists>shown. te_sent s = shown @ te_messages s \<and> di_messages (te_display s) = take 20 (rev shown))"
proof -
  let ?as = "turn_west @ [LoopStep MessageItem True, press (CHR ''f''), TaskStep 0 (CancelReceived BI_TIME_ZERO)]"
  obtain s where s: "run_teleop plain_text ?as (next_iteration True (teleop_start idle_requester)) = Some s"
    "te_requests s = [RequestGoal 7 F32_PI, RequestResult 7, RequestCancel 7 BI_TIME_ZERO]" "length (di_messages (te_display s)) = 1"
    by (simp add: run_simps add_message_def display_default_def MESSAGES_MAX_LEN_def)
  have "teleop_reach plain_text idle_requester s" by (rule run_teleop_reach [OF teleop_init s(1)])
  from teleop_invariant [OF this] s show ?thesis by blast
qed

text \<open>Of two rotations accepted one after the other, the user can cancel only the second: the first task
  finds its sender dropped and waits for its result.\<close>

lemma first_rotation_not_cancelable:
  "\<exists>s. run_teleop plain_text (turn_west @ [press (CHR ''g''), TaskStep 1 (FirstPoll 8 (\<lambda>_. True)), TaskStep 1 accepted, TaskStep 1 RoomInChannel,
         press (CHR ''f''), TaskStep 0 (CancelReceived BI_TIME_ZERO)]) (next_iteration True (teleop_start idle_requester)) = Some s
     \<and> te_tasks s = [AwaitRotate 7 0 False, AwaitRotate 8 1 True] \<and> te_cancel_rotate s = None
     \<and> te_oneshots s = [OneshotDropped, OneshotSent]"
  by (simp add: run_simps)

text \<open>The terminal is restored exactly when the user quits: an error of drawing or an interrupt leaves it in raw
  mode.\<close>

lemma restored_iff_quit: "teleop_reach tx rq s \<Longrightarrow> te_restored s \<longleftrightarrow> te_status s = LoopBroken"
proof (induction rule: teleop_reach.induct)
  case (teleop_init drawn)
  then show ?case by (simp add: next_iteration_def teleop_start_def)
next
  case (teleop_next s a s')
  have "te_status s = LoopRunning" using teleop_next(2) by (cases a) (simp_all split: if_splits)
  moreover have "te_restored (handle_event ev u) \<longleftrightarrow> te_status (handle_event ev u) = LoopBroken"
    if "te_restored u \<longleftrightarrow> te_status u = LoopBroken" for ev u
    using that by (cases ev) (simp_all add: spawn_task_def set_controlled_turtle_id_def cancel_rotate_absolute_def split: option.splits)
  moreover have "te_restored (next_iteration d u) = te_restored u \<and> (te_status (next_iteration d u) = LoopBroken \<longleftrightarrow> te_status u = LoopBroken)" for d u
    by (simp add: next_iteration_def)
  moreover have "te_restored (snd x) = te_restored s \<and> te_status (snd x) = te_status s" if "task_step tx t i s = Some x" for t i x
    using that by (auto simp: task_step_def turtle_reset_def turtle_set_pen_def turtle_spawn_def turtle_kill_def rotate_absolute_def request_def
        rosout_info_def send_message_def replace_cancel_def publish_turtle_cmd_vel_def Let_def
        split: turtle_task.splits task_input.splits sum.splits if_splits oneshot.splits)
  ultimately show ?case using teleop_next
    by (cases a) (auto split: if_splits option.splits list.splits elim!: loop_branch_step.elims simp: disable_branch_def)
qed

end
