(* ===== verification/Fibonacci_Server.thy ===== *)
theory Fibonacci_Server
  imports Action_Server
begin

text \<open>
  The example programs \<open>minimal_action_server\<close> and \<open>concurrent_action_server\<close>, applications of the
  asynchronous action server: their main loops as step functions. A step is one branch of a
  \<open>select!\<close>, or a task up to its next await; requests arrive in the streams of the three services in steps of
  their own. The operations of the server are those of \<open>Action_Server\<close>.
\<close>

subsection \<open>The work on a goal\<close>

type_synonym fib_server = "(int, int list, int list) action_server"
type_synonym fib_output = "(int list, int list) action_output"

definition contains_goal :: "cancel_handle \<Rightarrow> goal_id \<Rightarrow> bool" where
  "contains_goal ch gid \<longleftrightarrow> gid \<in> set (ch_goals ch)"

fun executing_goal_id :: "executing_goal_handle \<Rightarrow> goal_id" where
  "executing_goal_id (ExecutingGoalHandle gid) = gid"

text \<open>Arithmetic of a debug build is checked, of a release build it wraps.\<close>

definition build_mode :: "bool \<Rightarrow> overflow_mode" where
  "build_mode debug = (if debug then Checked else Wrapping)"

text \<open>\<open>fib.push(fib[i-2] + fib[i-1])\<close>; an index out of bounds or an overflow is \<open>None\<close>.\<close>

definition push_next :: "bool \<Rightarrow> nat \<Rightarrow> int list \<Rightarrow> int list option" where
  "push_next debug i fib =
     (if 2 \<le> i \<and> i - 1 < length fib
      then map_option (\<lambda>x. fib @ [x]) (signed_result (build_mode debug) 32 (fib ! (i - 2) + fib ! (i - 1)))
      else None)"

datatype fib_work =
    WorkGoesOn nat "int list"
  | WorkEnds goal_end_status "int list"
  | WorkPanics

definition work_tick :: "(fib_output \<Rightarrow> bool) \<Rightarrow> bool \<Rightarrow> executing_goal_handle \<Rightarrow> nat \<Rightarrow> nat \<Rightarrow> int list \<Rightarrow> fib_server \<Rightarrow>
    fib_work \<times> fib_server" where
  "work_tick wr debug eh fib_order i fib st =
     (let i = i + 1 in
      case push_next debug i fib of
        None \<Rightarrow> (WorkPanics, st)
      | Some fib \<Rightarrow>
          (case publish_feedback wr eh fib st of
             (Inl _, st) \<Rightarrow> (WorkPanics, st)
           | (Inr _, st) \<Rightarrow> (if i = fib_order then WorkEnds EndSucceeded fib else WorkGoesOn i fib, st)))"

definition work_cancel :: "(fib_output \<Rightarrow> bool) \<Rightarrow> executing_goal_handle \<Rightarrow> nat \<Rightarrow> int list \<Rightarrow> goal_error + (request_id \<times> goal_info) \<Rightarrow>
    fib_server \<Rightarrow> fib_work \<times> fib_server" where
  "work_cancel wr eh i fib request st =
     (case request of
        Inl _ \<Rightarrow> (WorkPanics, st)
      | Inr rq \<Rightarrow>
          (let cancel_handle = receive_cancel_request rq st; my_goal = executing_goal_id eh
           in if contains_goal cancel_handle my_goal
              then (case respond_to_cancel_requests wr cancel_handle [my_goal] st of
                      (Inl _, st) \<Rightarrow> (WorkPanics, st)
                    | (Inr _, st) \<Rightarrow> (WorkEnds EndCanceled fib, st))
              else (WorkGoesOn i fib, st)))"

text \<open>One poll of \<open>send_result_response\<close>, the first or a later one.\<close>

definition poll_result :: "(fib_output \<Rightarrow> bool) \<Rightarrow> bool \<Rightarrow> executing_goal_handle \<Rightarrow> goal_end_status \<Rightarrow> int list \<Rightarrow>
    (goal_error + (request_id \<times> goal_id)) list \<Rightarrow> fib_server \<Rightarrow>
    (goal_error + unit) poll \<times> fib_server \<times> (goal_error + (request_id \<times> goal_id)) list" where
  "poll_result wr polled eh es fib reqs st =
     (if polled then resume_result_response wr eh es fib reqs st else send_result_response wr eh es fib reqs st)"

text \<open>A new goal: its order is read, and it is refused unless it is from 1 to 25.\<close>

datatype goal_outcome = GoalPanics | GoalRefused | GoalFine nat

definition examine_goal :: "(fib_output \<Rightarrow> bool) \<Rightarrow> bool \<Rightarrow> bi_time \<Rightarrow> new_goal_handle \<Rightarrow> fib_server \<Rightarrow> goal_outcome \<times> fib_server" where
  "examine_goal wr debug now h st =
     (case get_new_goal debug h st of
        None \<Rightarrow> (GoalPanics, st)
      | Some (None, st) \<Rightarrow> (GoalPanics, st)
      | Some (Some goal, st) \<Rightarrow>
          if goal < 0 then (GoalPanics, st)
          else (let fib_order = nat goal
                in if \<not> (1 \<le> fib_order \<and> fib_order \<le> 25)
                   then (case reject_goal wr now h st of (Inl _, st) \<Rightarrow> (GoalPanics, st) | (Inr _, st) \<Rightarrow> (GoalRefused, st))
                   else (GoalFine fib_order, st)))"

text \<open>The streams of the three services: what rustdds has received and the program has not taken yet.\<close>

record fib_streams =
  fs_goals :: "(goal_error + (request_id \<times> int send_goal_request)) list"
  fs_cancels :: "(goal_error + (request_id \<times> goal_info)) list"
  fs_results :: "(goal_error + (request_id \<times> goal_id)) list"

datatype fib_arrival =
    GoalRequest "goal_error + (request_id \<times> int send_goal_request)"
  | CancelRequest "goal_error + (request_id \<times> goal_info)"
  | ResultRequest "goal_error + (request_id \<times> goal_id)"

fun arrive :: "fib_arrival \<Rightarrow> fib_streams \<Rightarrow> fib_streams" where
  "arrive (GoalRequest r) q = q\<lparr>fs_goals := fs_goals q @ [r]\<rparr>"
| "arrive (CancelRequest r) q = q\<lparr>fs_cancels := fs_cancels q @ [r]\<rparr>"
| "arrive (ResultRequest r) q = q\<lparr>fs_results := fs_results q @ [r]\<rparr>"

definition no_requests :: fib_streams where
  "no_requests = \<lparr>fs_goals = [], fs_cancels = [], fs_results = []\<rparr>"

subsection \<open>The minimal server\<close>

datatype minimal_phase =
    GoalAwaited
  | Work executing_goal_handle nat nat "int list"
  | Respond bool executing_goal_handle goal_end_status "int list"
  | MainDone
  | MainPanics

record minimal =
  mi_server :: fib_server
  mi_streams :: fib_streams
  mi_run :: bool
  mi_phase :: minimal_phase

definition minimal_start :: minimal where
  "minimal_start = \<lparr>mi_server = action_server_new, mi_streams = no_requests, mi_run = True, mi_phase = GoalAwaited\<rparr>"

text \<open>The head of the loop, \<open>while run\<close>.\<close>

definition minimal_loop :: "minimal \<Rightarrow> minimal" where
  "minimal_loop s = s\<lparr>mi_phase := if mi_run s then GoalAwaited else MainDone\<rparr>"

definition minimal_accept :: "(fib_output \<Rightarrow> bool) \<Rightarrow> bi_time \<Rightarrow> new_goal_handle \<Rightarrow> nat \<Rightarrow> minimal \<Rightarrow> minimal" where
  "minimal_accept wr now h fib_order s =
     (case accept_goal wr now h (mi_server s) of
        (Inl _, st) \<Rightarrow> s\<lparr>mi_server := st, mi_phase := MainPanics\<rparr>
      | (Inr accepted_goal, st) \<Rightarrow>
          (case start_executing_goal wr accepted_goal st of
             (Inl _, st) \<Rightarrow> s\<lparr>mi_server := st, mi_phase := MainPanics\<rparr>
           | (Inr executing_goal, st) \<Rightarrow> s\<lparr>mi_server := st, mi_phase := Work executing_goal fib_order 1 [0, 1]\<rparr>))"

definition minimal_receive :: "(fib_output \<Rightarrow> bool) \<Rightarrow> bool \<Rightarrow> bi_time \<Rightarrow> minimal \<Rightarrow> minimal" where
  "minimal_receive wr debug now s =
     (let (p, st, rest) = receive_new_goal (fs_goals (mi_streams s)) (mi_server s);
          s = s\<lparr>mi_server := st, mi_streams := (mi_streams s)\<lparr>fs_goals := rest\<rparr>\<rparr>
      in case p of
           Pending \<Rightarrow> s
         | Ready (Inl _) \<Rightarrow> minimal_loop s
         | Ready (Inr h) \<Rightarrow>
             (case examine_goal wr debug now h st of
                (GoalPanics, st) \<Rightarrow> s\<lparr>mi_server := st, mi_phase := MainPanics\<rparr>
              | (GoalRefused, st) \<Rightarrow> minimal_loop (s\<lparr>mi_server := st\<rparr>)
              | (GoalFine fib_order, st) \<Rightarrow> minimal_accept wr now h fib_order (s\<lparr>mi_server := st\<rparr>)))"

fun after_work :: "executing_goal_handle \<Rightarrow> nat \<Rightarrow> fib_work \<Rightarrow> minimal_phase" where
  "after_work eh fib_order (WorkGoesOn i fib) = Work eh fib_order i fib"
| "after_work eh fib_order (WorkEnds es fib) = Respond False eh es fib"
| "after_work eh fib_order WorkPanics = MainPanics"

datatype minimal_event =
    Arrives fib_arrival
  | StopPressed
  | GoalPolled bi_time
  | WorkTick
  | CancelPolled
  | ResultPolled
  | ResultTimeout

definition minimal_step :: "(fib_output \<Rightarrow> bool) \<Rightarrow> bool \<Rightarrow> minimal_event \<Rightarrow> minimal \<Rightarrow> minimal option" where
  "minimal_step wr debug ev s =
     (case ev of
        Arrives a \<Rightarrow> Some (s\<lparr>mi_streams := arrive a (mi_streams s)\<rparr>)
      | StopPressed \<Rightarrow>
          (case mi_phase s of
             GoalAwaited \<Rightarrow> Some (minimal_loop (s\<lparr>mi_run := False\<rparr>))
           | Work eh fib_order i fib \<Rightarrow> Some (s\<lparr>mi_run := False, mi_phase := Respond False eh EndAborted fib\<rparr>)
           | _ \<Rightarrow> None)
      | GoalPolled now \<Rightarrow> (case mi_phase s of GoalAwaited \<Rightarrow> Some (minimal_receive wr debug now s) | _ \<Rightarrow> None)
      | WorkTick \<Rightarrow>
          (case mi_phase s of
             Work eh fib_order i fib \<Rightarrow>
               (let (w, st) = work_tick wr debug eh fib_order i fib (mi_server s)
                in Some (s\<lparr>mi_server := st, mi_phase := after_work eh fib_order w\<rparr>))
           | _ \<Rightarrow> None)
      | CancelPolled \<Rightarrow>
          (case (mi_phase s, fs_cancels (mi_streams s)) of
             (Work eh fib_order i fib, request # rest) \<Rightarrow>
               (let (w, st) = work_cancel wr eh i fib request (mi_server s)
                in Some (s\<lparr>mi_server := st, mi_streams := (mi_streams s)\<lparr>fs_cancels := rest\<rparr>, mi_phase := after_work eh fib_order w\<rparr>))
           | _ \<Rightarrow> None)
      | ResultPolled \<Rightarrow>
          (case mi_phase s of
             Respond polled eh es fib \<Rightarrow>
               (let (p, st, rest) = poll_result wr polled eh es fib (fs_results (mi_streams s)) (mi_server s);
                    s = s\<lparr>mi_server := st, mi_streams := (mi_streams s)\<lparr>fs_results := rest\<rparr>\<rparr>
                in case p of
                     Pending \<Rightarrow> Some (s\<lparr>mi_phase := Respond True eh es fib\<rparr>)
                   | Ready _ \<Rightarrow> Some (minimal_loop s))
           | _ \<Rightarrow> None)
      | ResultTimeout \<Rightarrow> (case mi_phase s of Respond polled eh es fib \<Rightarrow> Some (minimal_loop s) | _ \<Rightarrow> None))"

fun minimal_run :: "(fib_output \<Rightarrow> bool) \<Rightarrow> bool \<Rightarrow> minimal_event list \<Rightarrow> minimal \<Rightarrow> minimal option" where
  "minimal_run wr debug [] s = Some s"
| "minimal_run wr debug (ev # evs) s = Option.bind (minimal_step wr debug ev s) (minimal_run wr debug evs)"

subsection \<open>The concurrent server\<close>

text \<open>A spawned \<open>action_runner\<close>: before its first poll, at one of its awaits, or ended. A panic ends the task
  only.\<close>

datatype runner =
    RunnerNew new_goal_handle nat
  | RunnerAccepted accepted_goal_handle nat
  | RunnerWorks executing_goal_handle nat nat "int list"
  | RunnerResponds bool executing_goal_handle goal_end_status "int list"
  | RunnerDone
  | RunnerPanics

datatype runner_event =
    RunnerAccepts bi_time
  | RunnerStarts
  | RunnerTick
  | RunnerCancel
  | RunnerResult
  | RunnerTimeout

fun runner_after :: "executing_goal_handle \<Rightarrow> nat \<Rightarrow> fib_work \<Rightarrow> runner" where
  "runner_after eh fib_order (WorkGoesOn i fib) = RunnerWorks eh fib_order i fib"
| "runner_after eh fib_order (WorkEnds es fib) = RunnerResponds False eh es fib"
| "runner_after eh fib_order WorkPanics = RunnerPanics"

definition action_runner :: "(fib_output \<Rightarrow> bool) \<Rightarrow> bool \<Rightarrow> runner_event \<Rightarrow> runner \<Rightarrow> fib_server \<times> fib_streams \<Rightarrow>
    (runner \<times> fib_server \<times> fib_streams) option" where
  "action_runner wr debug ev r sq =
     (let (st, q) = sq in
      case ev of
        RunnerAccepts now \<Rightarrow>
          (case r of
             RunnerNew new_goal_handle fib_order \<Rightarrow>
               (case accept_goal wr now new_goal_handle st of
                  (Inl _, st) \<Rightarrow> Some (RunnerPanics, st, q)
                | (Inr accepted_goal, st) \<Rightarrow> Some (RunnerAccepted accepted_goal fib_order, st, q))
           | _ \<Rightarrow> None)
      | RunnerStarts \<Rightarrow>
          (case r of
             RunnerAccepted accepted_goal fib_order \<Rightarrow>
               (case start_executing_goal wr accepted_goal st of
                  (Inl _, st) \<Rightarrow> Some (RunnerPanics, st, q)
                | (Inr executing_goal, st) \<Rightarrow> Some (RunnerWorks executing_goal fib_order 1 [0, 1], st, q))
           | _ \<Rightarrow> None)
      | RunnerTick \<Rightarrow>
          (case r of
             RunnerWorks eh fib_order i fib \<Rightarrow>
               (let (w, st) = work_tick wr debug eh fib_order i fib st in Some (runner_after eh fib_order w, st, q))
           | _ \<Rightarrow> None)
      | RunnerCancel \<Rightarrow>
          (case (r, fs_cancels q) of
             (RunnerWorks eh fib_order i fib, request # rest) \<Rightarrow>
               (let (w, st) = work_cancel wr eh i fib request st in Some (runner_after eh fib_order w, st, q\<lparr>fs_cancels := rest\<rparr>))
           | _ \<Rightarrow> None)
      | RunnerResult \<Rightarrow>
          (case r of
             RunnerResponds polled eh es fib \<Rightarrow>
               (let (p, st, rest) = poll_result wr polled eh es fib (fs_results q) st
                in Some (case p of Pending \<Rightarrow> RunnerResponds True eh es fib | Ready _ \<Rightarrow> RunnerDone, st, q\<lparr>fs_results := rest\<rparr>))
           | _ \<Rightarrow> None)
      | RunnerTimeout \<Rightarrow> (case r of RunnerResponds polled eh es fib \<Rightarrow> Some (RunnerDone, st, q) | _ \<Rightarrow> None))"

datatype concurrent_main = ConcurrentRuns | ConcurrentDone | ConcurrentPanics

record concurrent =
  cc_server :: fib_server
  cc_streams :: fib_streams
  cc_main :: concurrent_main
  cc_runners :: "runner list"

definition concurrent_start :: concurrent where
  "concurrent_start = \<lparr>cc_server = action_server_new, cc_streams = no_requests, cc_main = ConcurrentRuns, cc_runners = []\<rparr>"

definition concurrent_receive :: "(fib_output \<Rightarrow> bool) \<Rightarrow> bool \<Rightarrow> bi_time \<Rightarrow> concurrent \<Rightarrow> concurrent" where
  "concurrent_receive wr debug now s =
     (let (p, st, rest) = receive_new_goal (fs_goals (cc_streams s)) (cc_server s);
          s = s\<lparr>cc_server := st, cc_streams := (cc_streams s)\<lparr>fs_goals := rest\<rparr>\<rparr>
      in case p of
           Pending \<Rightarrow> s
         | Ready (Inl _) \<Rightarrow> s
         | Ready (Inr h) \<Rightarrow>
             (case examine_goal wr debug now h st of
                (GoalPanics, st) \<Rightarrow> s\<lparr>cc_server := st, cc_main := ConcurrentPanics\<rparr>
              | (GoalRefused, st) \<Rightarrow> s\<lparr>cc_server := st\<rparr>
              | (GoalFine fib_order, st) \<Rightarrow> s\<lparr>cc_server := st, cc_runners := cc_runners s @ [RunnerNew h fib_order]\<rparr>))"

datatype concurrent_event =
    ConcurrentArrives fib_arrival
  | ConcurrentStop
  | ConcurrentGoal bi_time
  | RunnerMoves nat runner_event

text \<open>When the main loop ends or panics the process ends, and its tasks with it.\<close>

definition concurrent_step :: "(fib_output \<Rightarrow> bool) \<Rightarrow> bool \<Rightarrow> concurrent_event \<Rightarrow> concurrent \<Rightarrow> concurrent option" where
  "concurrent_step wr debug ev s =
     (if cc_main s \<noteq> ConcurrentRuns then None
      else case ev of
        ConcurrentArrives a \<Rightarrow> Some (s\<lparr>cc_streams := arrive a (cc_streams s)\<rparr>)
      | ConcurrentStop \<Rightarrow> Some (s\<lparr>cc_main := ConcurrentDone\<rparr>)
      | ConcurrentGoal now \<Rightarrow> Some (concurrent_receive wr debug now s)
      | RunnerMoves k rv \<Rightarrow>
          if k < length (cc_runners s)
          then map_option (\<lambda>(r, st, q). s\<lparr>cc_server := st, cc_streams := q, cc_runners := (cc_runners s)[k := r]\<rparr>)
                 (action_runner wr debug rv (cc_runners s ! k) (cc_server s, cc_streams s))
          else None)"

fun concurrent_run :: "(fib_output \<Rightarrow> bool) \<Rightarrow> bool \<Rightarrow> concurrent_event list \<Rightarrow> concurrent \<Rightarrow> concurrent option" where
  "concurrent_run wr debug [] s = Some s"
| "concurrent_run wr debug (ev # evs) s = Option.bind (concurrent_step wr debug ev s) (concurrent_run wr debug evs)"
subsection \<open>Fibonacci numbers\<close>

fun fibonacci :: "nat \<Rightarrow> int" where
  "fibonacci 0 = 0"
| "fibonacci (Suc 0) = 1"
| "fibonacci (Suc (Suc n)) = fibonacci n + fibonacci (Suc n)"

text \<open>The first numbers of the sequence.\<close>

definition fibs :: "nat \<Rightarrow> int list" where
  "fibs n = map fibonacci [0..<n]"

lemma fibonacci_nonneg: "0 \<le> fibonacci n"
  by (induction n rule: fibonacci.induct) simp_all

lemma fibonacci_Suc_mono: "fibonacci n \<le> fibonacci (Suc n)"
  by (cases n) (simp_all add: fibonacci_nonneg)

lemma fibonacci_mono: "m \<le> n \<Longrightarrow> fibonacci m \<le> fibonacci n"
  by (rule lift_Suc_mono_le [of fibonacci]) (simp_all add: fibonacci_Suc_mono)

text \<open>Computing a number by pairs of neighbours.\<close>

lemma fibonacci_pair: "((\<lambda>(a, b). (b, a + b)) ^^ n) (0, 1) = (fibonacci n, fibonacci (Suc n))"
  by (induction n) simp_all

lemma fibonacci_46: "fibonacci 46 = 1836311903" "fibonacci 47 = 2971215073"
proof -
  have "((\<lambda>(a, b). (b, a + b)) ^^ 46) (0 :: int, 1 :: int) = (1836311903, 2971215073)" by code_simp
  then have "(fibonacci 46, fibonacci (Suc 46)) = (1836311903, 2971215073)"
    by (simp only: fibonacci_pair)
  moreover have "Suc 46 = 47" by simp
  ultimately show "fibonacci 46 = 1836311903" "fibonacci 47 = 2971215073"
    by (simp_all only: prod.inject)
qed

lemma fibonacci_i32: "n \<le> 46 \<Longrightarrow> i32_ok (fibonacci n)"
  using fibonacci_mono [of n 46] fibonacci_nonneg [of n] fibonacci_46(1) by (simp add: in_signed_def)

lemma fibs_start: "[0, 1] = fibs 2"
  by (simp add: fibs_def numeral_2_eq_2)

lemma length_fibs [simp]: "length (fibs n) = n"
  by (simp add: fibs_def)

lemma fibs_Suc: "fibs (Suc n) = fibs n @ [fibonacci n]"
  by (simp add: fibs_def)

lemma push_next_sum:
  assumes "1 \<le> i"
  shows "push_next debug (Suc i) (fibs (Suc i)) =
    map_option (\<lambda>x. fibs (Suc i) @ [x]) (signed_result (build_mode debug) 32 (fibonacci (Suc i)))"
proof -
  obtain j where "i = Suc j" using assms by (cases i) simp_all
  then show ?thesis by (simp add: push_next_def fibs_def nth_append)
qed

lemma push_next_fibs: "1 \<le> i \<Longrightarrow> i \<le> 45 \<Longrightarrow> push_next debug (Suc i) (fibs (Suc i)) = Some (fibs (Suc (Suc i)))"
  using fibonacci_i32 [of "Suc i"] by (simp add: push_next_sum fibs_Suc [of "Suc i"])

subsection \<open>A goal that is served\<close>

lemma tick_works:
  assumes "statuses st gid = Some Executing" and "\<And>out. wr out" and "1 \<le> i" "i \<le> 45"
  shows "work_tick wr debug (ExecutingGoalHandle gid) n i (fibs (Suc i)) st =
    (if Suc i = n then WorkEnds EndSucceeded (fibs (Suc (Suc i))) else WorkGoesOn (Suc i) (fibs (Suc (Suc i))),
     st\<lparr>sent := sent st @ [FeedbackMessage gid (fibs (Suc (Suc i)))]\<rparr>)"
  using assms by (auto simp: work_tick_def push_next_fibs statuses_def send_def)

definition working :: "goal_id \<Rightarrow> nat \<Rightarrow> nat \<Rightarrow> minimal \<Rightarrow> minimal" where
  "working gid n i s = s\<lparr>mi_phase := Work (ExecutingGoalHandle gid) n i (fibs (Suc i))\<rparr>"

definition with_feedback :: "goal_id \<Rightarrow> nat list \<Rightarrow> minimal \<Rightarrow> minimal" where
  "with_feedback gid js s =
     s\<lparr>mi_server := (mi_server s)\<lparr>sent := sent (mi_server s) @ map (\<lambda>j. FeedbackMessage gid (fibs (Suc j))) js\<rparr>\<rparr>"

lemma with_feedback_append: "with_feedback gid ks (with_feedback gid js s) = with_feedback gid (js @ ks) s"
  by (simp add: with_feedback_def)

lemma with_feedback_statuses [simp]: "statuses (mi_server (with_feedback gid js s)) = statuses (mi_server s)"
  by (rule statuses_cong) (simp add: with_feedback_def)

lemma minimal_tick:
  assumes "statuses (mi_server s) gid = Some Executing" and "\<And>out. wr out" and "1 \<le> i" "i \<le> 45"
  shows "minimal_step wr debug WorkTick (working gid n i s) =
    Some (if Suc i = n then (with_feedback gid [Suc i] s)\<lparr>mi_phase := Respond False (ExecutingGoalHandle gid) EndSucceeded (fibs (Suc n))\<rparr>
          else working gid n (Suc i) (with_feedback gid [Suc i] s))"
  using tick_works [OF assms(1), of wr i debug n] assms
  by (auto simp: minimal_step_def working_def with_feedback_def)

lemma minimal_ticks:
  assumes "statuses (mi_server s) gid = Some Executing" and "\<And>out. wr out" and "1 \<le> i" "i + k \<le> 46" and "n \<notin> {i<..i + k}"
  shows "minimal_run wr debug (replicate k WorkTick) (working gid n i s) = Some (working gid n (i + k) (with_feedback gid [Suc i..<Suc (i + k)] s))"
  using assms
proof (induction k arbitrary: i s)
  case 0
  then show ?case by (simp add: with_feedback_def)
next
  case (Suc k)
  have "minimal_run wr debug (replicate (Suc k) WorkTick) (working gid n i s) =
      minimal_run wr debug (replicate k WorkTick) (working gid n (Suc i) (with_feedback gid [Suc i] s))"
    using minimal_tick [OF Suc.prems(1), of wr i debug n] Suc.prems by (cases "Suc i = n") auto
  also have "\<dots> = Some (working gid n (Suc i + k) (with_feedback gid [Suc (Suc i)..<Suc (Suc i + k)] (with_feedback gid [Suc i] s)))"
    by (rule Suc.IH) (use Suc.prems in auto)
  also have "with_feedback gid [Suc (Suc i)..<Suc (Suc i + k)] (with_feedback gid [Suc i] s) = with_feedback gid [Suc i..<Suc (i + Suc k)] s"
    by (simp add: with_feedback_append upt_conv_Cons del: upt_Suc)
  finally show ?case by simp
qed

lemma minimal_run_append:
  "minimal_run wr debug (evs @ evs') s = Option.bind (minimal_run wr debug evs s) (minimal_run wr debug evs')"
proof (induction evs arbitrary: s)
  case (Cons ev evs)
  then show ?case by (cases "minimal_step wr debug ev s") simp_all
qed simp
lemma minimal_work:
  assumes "statuses (mi_server s) gid = Some Executing" and "\<And>out. wr out" and "2 \<le> n" "n \<le> 46"
  shows "minimal_run wr debug (replicate (n - 1) WorkTick) (working gid n 1 s) =
    Some ((with_feedback gid [2..<Suc n] s)\<lparr>mi_phase := Respond False (ExecutingGoalHandle gid) EndSucceeded (fibs (Suc n))\<rparr>)"
proof -
  obtain k where k: "n = Suc (Suc k)" using assms(3) by (metis Suc_1 Suc_le_D Suc_le_mono numeral_2_eq_2)
  let ?s = "with_feedback gid [Suc 1..<Suc (1 + k)] s"
  have "minimal_run wr debug (replicate k WorkTick) (working gid n 1 s) = Some (working gid n (1 + k) ?s)"
    by (rule minimal_ticks) (use k assms in auto)
  moreover have "minimal_step wr debug WorkTick (working gid n (1 + k) ?s) =
      Some ((with_feedback gid [2..<Suc n] s)\<lparr>mi_phase := Respond False (ExecutingGoalHandle gid) EndSucceeded (fibs (Suc n))\<rparr>)"
    using minimal_tick [of ?s gid wr "Suc k" debug n] k assms by (simp add: with_feedback_append numeral_2_eq_2)
  moreover have "replicate (n - 1) WorkTick = replicate k WorkTick @ [WorkTick]"
    using k by (simp add: replicate_append_same)
  ultimately show ?thesis by (simp add: minimal_run_append)
qed

text \<open>What the server sends to clients, besides the statuses.\<close>

fun is_answer :: "fib_output \<Rightarrow> bool" where
  "is_answer (StatusArray ss) = False"
| "is_answer out = True"

definition answers :: "fib_server \<Rightarrow> fib_output list" where
  "answers st = filter is_answer (sent st)"

lemma answers_send:
  "answers (snd (send wr out st)) = answers st @ (if wr out \<and> is_answer out then [out] else [])"
  "answers (publish_statuses wr st) = answers st" "answers (set_status gid x st) = answers st"
  "answers (mark_goal_finished gid st) = answers st" "answers (st\<lparr>result_requests := rr\<rparr>) = answers st"
  "answers (st\<lparr>goals := gs\<rparr>) = answers st"
  by (simp_all add: answers_def send_def publish_statuses_def set_status_def mark_goal_finished_def)

text \<open>The server that has received a new goal, and fetching that goal from it.\<close>

definition received :: "goal_id \<Rightarrow> int \<Rightarrow> fib_server \<Rightarrow> fib_server" where
  "received gid n st = st\<lparr>goals := bt_insert gid \<lparr>ag_status = Unknown, ag_accepted_time = None, ag_goal = n\<rparr> (goals st)\<rparr>"

lemma get_received:
  assumes r: "action_reachable wr debug care st" and care: "care \<noteq> AnyUse" and new: "map_of (goals st) gid = None"
  shows "\<exists>st'. get_new_goal debug \<lparr>ngh_goal_id = gid, ngh_req_id = rid\<rparr> (received gid n st) = Some (Some n, st')
    \<and> action_reachable wr debug care st' \<and> sent st' = sent st \<and> result_requests st' = result_requests st
    \<and> (\<forall>a. map_of (goals st') a = (if a \<in> set (finished_goals st) then None
         else if a = gid then Some \<lparr>ag_status = Unknown, ag_accepted_time = None, ag_goal = n\<rparr> else map_of (goals st) a))
    \<and> gid \<notin> set (finished_goals st)"
proof -
  let ?h = "\<lparr>ngh_goal_id = gid, ngh_req_id = rid\<rparr>" and ?st = "received gid n st"
  have "receive_new_goal [Inr (rid, \<lparr>sg_goal_id = gid, sg_goal = n\<rparr>)] st = (Ready (Ok ?h), ?st, [])" using new by (simp add: received_def)
  then have r': "action_reachable wr debug care ?st" using r by (metis step_receive reach_step)
  obtain st' where st': "flush_finished_goals debug ?st = Some st'"
    using get_new_goal_flushes [OF r' care, of ?h] by (auto simp: get_new_goal_def)
  have nf: "gid \<notin> set (finished_goals st)"
    using finished_inv_reachable [OF r care] new by (auto simp: finished_inv_def statuses_def)
  have g: "map_of (goals st') a = (if a \<in> set (finished_goals st) then None
      else if a = gid then Some \<lparr>ag_status = Unknown, ag_accepted_time = None, ag_goal = n\<rparr> else map_of (goals st) a)" for a
    using st' action_inv_reachable [OF r'] action_inv_reachable [OF r]
    by (auto simp: received_def flush_finished_goals_def flush_goals_get action_inv_def bt_get_insert)
  have get: "get_new_goal debug ?h ?st = Some (Some n, st')" using st' g [of gid] nf by (simp add: get_new_goal_def)
  have "sent st' = sent st \<and> result_requests st' = result_requests st"
    using st' by (auto simp: flush_finished_goals_def received_def)
  then show ?thesis using get g nf reach_step [OF r' step_get [OF get]] by blast
qed

lemma examine_new_goal:
  assumes r: "action_reachable wr debug care st" and care: "care \<noteq> AnyUse" and new: "map_of (goals st) gid = None" and n: "1 \<le> n" "n \<le> 25"
  shows "\<exists>st'. examine_goal wr debug now \<lparr>ngh_goal_id = gid, ngh_req_id = rid\<rparr> (received gid n st) = (GoalFine (nat n), st')
    \<and> statuses st' gid = Some Unknown \<and> answers st' = answers st \<and> result_requests st' = result_requests st"
proof -
  obtain st' where "get_new_goal debug \<lparr>ngh_goal_id = gid, ngh_req_id = rid\<rparr> (received gid n st) = Some (Some n, st')"
    "sent st' = sent st" "result_requests st' = result_requests st"
    "map_of (goals st') gid = Some \<lparr>ag_status = Unknown, ag_accepted_time = None, ag_goal = n\<rparr>"
    using get_received [OF r care new, of rid n] by (metis (no_types, lifting))
  moreover have "1 \<le> nat n \<and> nat n \<le> 25" using n by linarith
  ultimately show ?thesis using n by (simp add: examine_goal_def Let_def statuses_def answers_def)
qed

lemma minimal_accepts:
  assumes "statuses (mi_server s) gid = Some Unknown" and "\<And>out. wr out"
  shows "\<exists>st. minimal_accept wr now \<lparr>ngh_goal_id = gid, ngh_req_id = rid\<rparr> n s = working gid n 1 (s\<lparr>mi_server := st\<rparr>)
    \<and> statuses st gid = Some Executing \<and> answers st = answers (mi_server s) @ [SendGoalResponse rid True now]
    \<and> result_requests st = result_requests (mi_server s)"
proof -
  let ?h = "\<lparr>ngh_goal_id = gid, ngh_req_id = rid\<rparr>"
  obtain r st where a: "accept_goal wr now ?h (mi_server s) = (r, st)" by fastforce
  then have r: "r = Ok (AcceptedGoalHandle gid)" and st: "answers st = answers (mi_server s) @ [SendGoalResponse rid True now]"
    using assms by (auto simp: accept_goal_def statuses_def Let_def case_prod_unfold answers_send)
  have acc: "statuses st gid = Some Accepted" "result_requests st = result_requests (mi_server s)"
    using accept_goal_effect [OF a] assms(1) by (auto simp: statuses_def bt_get_modify)
  let ?st = "publish_statuses wr (set_status gid Executing st)"
  have "start_executing_goal wr (AcceptedGoalHandle gid) st = (Ok (ExecutingGoalHandle gid), ?st)"
    using acc by (auto simp: statuses_def)
  then have "minimal_accept wr now ?h n s = working gid n 1 (s\<lparr>mi_server := ?st\<rparr>)"
    using a r by (simp add: minimal_accept_def working_def fibs_start numeral_2_eq_2)
  moreover have "statuses ?st gid = Some Executing"
    using acc statuses_cong [of ?st "set_status gid Executing st"] by (simp add: statuses_set_status)
  ultimately show ?thesis using st acc by (intro exI [of _ ?st]) (simp add: answers_send)
qed

lemma minimal_responds:
  assumes "statuses (mi_server s) gid = Some Executing" and "map_of (result_requests (mi_server s)) gid = None"
    and "\<And>out. wr out" and "fs_results (mi_streams s) = [Inr (rid, gid)]" and "mi_run s"
    and "mi_phase s = Respond False (ExecutingGoalHandle gid) es x"
  shows "\<exists>s'. minimal_step wr debug ResultPolled s = Some s' \<and> mi_phase s' = GoalAwaited \<and> statuses (mi_server s') gid = Some (end_status es)
    \<and> answers (mi_server s') = answers (mi_server s) @ [GetResultResponse rid (end_status es) x]"
proof -
  let ?st = "mi_server s"
  obtain r st where f: "finish_goal wr gid rid (end_status es) x ?st = (r, st)" by fastforce
  obtain g where g: "map_of (goals ?st) gid = Some g" "ag_status g = Executing" using assms(1) by (auto simp: statuses_def)
  then have "r = Ok ()" "answers st = answers ?st @ [GetResultResponse rid (end_status es) x]"
    using f assms(3) by (auto simp: finish_goal_def Let_def case_prod_unfold answers_send)
  moreover have "statuses st gid = Some (end_status es)"
    using finish_goal_effect(2) [OF f] assms(1) statuses_cong [of st "set_status gid (end_status es) ?st"]
    by (auto simp: active_def statuses_set_status)
  moreover have "send_result_response wr (ExecutingGoalHandle gid) es x [Inr (rid, gid)] ?st = (Ready r, st, [])"
    using f assms(2) by (simp add: find_result_request_def)
  ultimately show ?thesis
    using assms by (simp add: minimal_step_def poll_result_def minimal_loop_def)
qed
text \<open>C29. A goal of order n from 2 to 25 is served by the minimal server: polled, it is accepted; each tick publishes the
  Fibonacci numbers so far; after n - 1 ticks the result request of the client is answered with success and
  the numbers from the 0th to the n-th, and the server waits for the next goal.\<close>

theorem fibonacci_goal_served:
  assumes "action_reachable wr debug LiveCancels (mi_server s)" and "mi_phase s = GoalAwaited" and "mi_run s"
    and "map_of (goals (mi_server s)) gid = None" and "map_of (result_requests (mi_server s)) gid = None"
    and "fs_goals (mi_streams s) = [Inr (rid, \<lparr>sg_goal_id = gid, sg_goal = n\<rparr>)]" and "fs_results (mi_streams s) = []"
    and "2 \<le> n" and "n \<le> 25" and "\<And>out. wr out"
  shows "\<exists>s'. minimal_run wr debug (GoalPolled now # replicate (nat n - 1) WorkTick
         @ [Arrives (ResultRequest (Inr (rid', gid))), ResultPolled]) s = Some s'
    \<and> answers (mi_server s') = answers (mi_server s) @ [SendGoalResponse rid True now]
         @ map (\<lambda>j. FeedbackMessage gid (fibs (Suc j))) [2..<Suc (nat n)]
         @ [GetResultResponse rid' Succeeded (fibs (Suc (nat n)))]
    \<and> statuses (mi_server s') gid = Some Succeeded \<and> mi_phase s' = GoalAwaited"
proof -
  let ?st = "mi_server s" and ?eh = "ExecutingGoalHandle gid"
  obtain st1 where st1: "examine_goal wr debug now \<lparr>ngh_goal_id = gid, ngh_req_id = rid\<rparr> (received gid n ?st) = (GoalFine (nat n), st1)"
    "statuses st1 gid = Some Unknown" "answers st1 = answers ?st" "result_requests st1 = result_requests ?st"
    using examine_new_goal [OF assms(1) _ assms(4), of n now rid] assms(8,9) by auto
  define s1 where "s1 = s\<lparr>mi_streams := (mi_streams s)\<lparr>fs_goals := []\<rparr>, mi_server := st1\<rparr>"
  obtain st2 where st2: "minimal_accept wr now \<lparr>ngh_goal_id = gid, ngh_req_id = rid\<rparr> (nat n) s1 = working gid (nat n) 1 (s1\<lparr>mi_server := st2\<rparr>)"
    "statuses st2 gid = Some Executing" "answers st2 = answers ?st @ [SendGoalResponse rid True now]"
    "result_requests st2 = result_requests ?st"
    using minimal_accepts [of s1 gid wr now rid "nat n"] st1 assms(10) by (auto simp: s1_def)
  define s2 where "s2 = s1\<lparr>mi_server := st2\<rparr>"
  have a: "minimal_step wr debug (GoalPolled now) s = Some (working gid (nat n) 1 s2)"
    using st1 st2(1) assms(2,4,6) by (simp add: minimal_step_def minimal_receive_def s1_def s2_def received_def)
  define s3 where "s3 = (with_feedback gid [2..<Suc (nat n)] s2)\<lparr>mi_phase := Respond False ?eh EndSucceeded (fibs (Suc (nat n)))\<rparr>"
  have b: "minimal_run wr debug (replicate (nat n - 1) WorkTick) (working gid (nat n) 1 s2) = Some s3"
    unfolding s3_def by (rule minimal_work) (use assms(8-10) st2(2) in \<open>auto simp: s2_def\<close>)
  define s4 where "s4 = s3\<lparr>mi_streams := arrive (ResultRequest (Inr (rid', gid))) (mi_streams s3)\<rparr>"
  obtain s5 where s5: "minimal_step wr debug ResultPolled s4 = Some s5" "mi_phase s5 = GoalAwaited"
    "statuses (mi_server s5) gid = Some Succeeded" "answers (mi_server s5) = answers (mi_server s4) @ [GetResultResponse rid' Succeeded (fibs (Suc (nat n)))]"
    using minimal_responds [of s4 gid wr rid' EndSucceeded "fibs (Suc (nat n))" debug] st2 assms(3,5,7,10)
    by (auto simp: s4_def s3_def s2_def s1_def with_feedback_def statuses_def)
  have "minimal_run wr debug (GoalPolled now # replicate (nat n - 1) WorkTick @ [Arrives (ResultRequest (Inr (rid', gid))), ResultPolled]) s = Some s5"
    using a b s5(1) by (simp add: minimal_run_append minimal_step_def [of _ _ "Arrives _"] s4_def)
  moreover have "answers (mi_server s4) = answers ?st @ [SendGoalResponse rid True now] @ map (\<lambda>j. FeedbackMessage gid (fibs (Suc j))) [2..<Suc (nat n)]"
    using st2(3) by (simp add: s4_def s3_def s2_def with_feedback_def answers_def comp_def)
  ultimately show ?thesis using s5 by auto
qed
definition all_taken :: "fib_output \<Rightarrow> bool" where
  "all_taken out = True"

definition goal_arrived :: "int \<Rightarrow> minimal" where
  "goal_arrived n = minimal_start\<lparr>mi_streams := arrive (GoalRequest (Inr (demo_id 1, \<lparr>sg_goal_id = 5, sg_goal = n\<rparr>))) no_requests\<rparr>"

lemma goal_arrived_fields:
  "mi_server (goal_arrived n) = action_server_new" "mi_phase (goal_arrived n) = GoalAwaited" "mi_run (goal_arrived n)"
  "fs_goals (mi_streams (goal_arrived n)) = [Inr (demo_id 1, \<lparr>sg_goal_id = 5, sg_goal = n\<rparr>)]" "fs_results (mi_streams (goal_arrived n)) = []"
  by (simp_all add: goal_arrived_def minimal_start_def no_requests_def)

lemma new_server_fields:
  "goals action_server_new = []" "finished_goals action_server_new = []" "result_requests action_server_new = []" "answers action_server_new = []"
  by (simp_all add: action_server_new_def answers_def)

theorem fibonacci_goal_served_witness:
  "\<exists>s'. minimal_run all_taken True (GoalPolled \<lparr>bt_nanos_since_epoch = 100\<rparr> # replicate 2 WorkTick
      @ [Arrives (ResultRequest (Inr (demo_id 2, 5))), ResultPolled]) (goal_arrived 3) = Some s'
    \<and> answers (mi_server s') = [SendGoalResponse (demo_id 1) True \<lparr>bt_nanos_since_epoch = 100\<rparr>,
        FeedbackMessage 5 [0, 1, 1], FeedbackMessage 5 [0, 1, 1, 2], GetResultResponse (demo_id 2) Succeeded [0, 1, 1, 2]]"
proof -
  have "fibs 3 = [0, 1, 1]" "fibs 4 = [0, 1, 1, 2]" by (simp_all add: fibs_def eval_nat_numeral)
  then show ?thesis
    using fibonacci_goal_served [of all_taken True "goal_arrived 3" 5 "demo_id 1" 3 "\<lparr>bt_nanos_since_epoch = 100\<rparr>" "demo_id 2"]
    by (auto simp: goal_arrived_fields reach_new all_taken_def new_server_fields upt_rec eval_nat_numeral)
qed

subsection \<open>Goals that are not served\<close>

text \<open>An accepted goal of order 1 is never finished: the number worked up to is 2 when it is first compared with the
  order. In a debug build the 46th tick overflows and the program panics.\<close>

lemma order_one_never_ends:
  assumes "statuses (mi_server s) gid = Some Executing" and "\<And>out. wr out" and "k \<le> 45"
  shows "minimal_run wr debug (replicate k WorkTick) (working gid 1 1 s) = Some (working gid 1 (1 + k) (with_feedback gid [2..<2 + k] s))"
    and "k = 45 \<Longrightarrow> minimal_run wr True (replicate (Suc k) WorkTick) (working gid 1 1 s) =
      Some ((with_feedback gid [2..<47] s)\<lparr>mi_phase := MainPanics\<rparr>)"
proof -
  show run: "minimal_run wr debug (replicate k WorkTick) (working gid 1 1 s) = Some (working gid 1 (1 + k) (with_feedback gid [2..<2 + k] s))" for debug
    using minimal_ticks [OF assms(1), of wr 1 k 1 debug] assms(2,3) by (simp add: numeral_2_eq_2)
  assume k: "k = 45"
  have "push_next True 47 (fibs 47) = None"
    using push_next_sum [of 46 True] fibonacci_46(2) by (simp add: signed_result_def build_mode_def in_signed_def)
  then have "minimal_step wr True WorkTick (working gid 1 46 (with_feedback gid [2..<47] s)) = Some ((with_feedback gid [2..<47] s)\<lparr>mi_phase := MainPanics\<rparr>)"
    by (simp add: minimal_step_def working_def work_tick_def with_feedback_def)
  moreover have "replicate (Suc k) WorkTick = replicate k WorkTick @ [WorkTick]" by (simp only: replicate_append_same [symmetric] replicate_Suc)
  ultimately show "minimal_run wr True (replicate (Suc k) WorkTick) (working gid 1 1 s) = Some ((with_feedback gid [2..<47] s)\<lparr>mi_phase := MainPanics\<rparr>)"
    using run [of True] k by (simp add: minimal_run_append del: replicate_Suc)
qed

text \<open>A goal with a negative order stops the server: the conversion to \<open>usize\<close> is unwrapped.\<close>

lemma negative_order_panics: "n < 0 \<Longrightarrow> mi_phase (minimal_receive wr debug now (goal_arrived n)) = MainPanics"
  by (simp add: minimal_receive_def goal_arrived_fields action_server_new_def examine_goal_def get_new_goal_def flush_finished_goals_def)

text \<open>An order of 0 or above 25 is refused.\<close>

lemma order_refused:
  assumes "n = 0 \<or> 25 < n" and "\<And>out. wr out"
  shows "answers (mi_server (minimal_receive wr debug now (goal_arrived n))) = [SendGoalResponse (demo_id 1) False now]
    \<and> mi_phase (minimal_receive wr debug now (goal_arrived n)) = GoalAwaited"
proof -
  have "\<not> n < 0" "\<not> (1 \<le> nat n \<and> nat n \<le> 25)" using assms(1) by linarith+
  then show ?thesis
    using assms(2)
    by (simp add: minimal_receive_def goal_arrived_fields action_server_new_def examine_goal_def get_new_goal_def flush_finished_goals_def
        reject_goal_def send_def answers_def minimal_loop_def Let_def)
qed

text \<open>A cancel request for another goal is taken and never answered.\<close>

lemma other_cancel_swallowed:
  assumes "gid' \<noteq> gid" "gid' \<noteq> GOAL_ID_ZERO" and "mi_phase s = Work (ExecutingGoalHandle gid) n i fib"
    and "fs_cancels (mi_streams s) = Inr (rid, \<lparr>gi_goal_id = gid', gi_stamp = BI_TIME_ZERO\<rparr>) # rest" and inv: "action_inv (mi_server s)"
  shows "minimal_step wr debug CancelPolled s = Some (s\<lparr>mi_streams := (mi_streams s)\<lparr>fs_cancels := rest\<rparr>\<rparr>)"
proof -
  have "\<not> contains_goal (receive_cancel_request (rid, \<lparr>gi_goal_id = gid', gi_stamp = BI_TIME_ZERO\<rparr>) (mi_server s)) gid"
    using assms(1,2) by (auto simp: contains_goal_def receive_cancel_request_goals(2) [OF inv] cancel_selects_def)
  then show ?thesis using assms(3,4) by (simp add: minimal_step_def work_cancel_def Let_def)
qed

text \<open>When no client asks for the result within the timeout, the goal stays as it was, executing or canceling.\<close>

lemma unclaimed_goal_stays:
  "mi_phase s = Respond polled eh es fib \<Longrightarrow> \<exists>s'. minimal_step wr debug ResultTimeout s = Some s' \<and> mi_server s' = mi_server s
     \<and> mi_phase s' \<in> {GoalAwaited, MainDone}"
  by (simp add: minimal_step_def minimal_loop_def)
subsection \<open>The concurrent server, all interleavings\<close>

text \<open>The order of a known goal, which no operation changes.\<close>

definition order_of :: "fib_server \<Rightarrow> goal_id \<Rightarrow> int option" where
  "order_of st gid = map_option ag_goal (map_of (goals st) gid)"

lemma order_of_cong: "goals st = goals st' \<Longrightarrow> order_of st = order_of st'"
  by (simp add: order_of_def fun_eq_iff)

lemma order_of_set_status [simp]: "order_of (set_status gid x st) = order_of st"
  by (auto simp: order_of_def fun_eq_iff map_of_set_status option.map_comp comp_def)

lemma order_of_canceling [simp]: "order_of (fold (\<lambda>gi. set_status (gi_goal_id gi) Canceling) gis st) = order_of st"
  by (induction gis arbitrary: st) simp_all

text \<open>The first numbers of the sequence as an \<open>i32\<close> keeps them, which wraps from the 47th on.\<close>

definition fibs32 :: "nat \<Rightarrow> int list" where
  "fibs32 k = map (\<lambda>j. wrap_signed 32 (fibonacci j)) [0..<k]"

lemma fibs32_fibs: "k \<le> 47 \<Longrightarrow> fibs32 k = fibs k"
proof -
  assume "k \<le> 47"
  then have "wrap_signed 32 (fibonacci j) = fibonacci j" if "j < k" for j
    using fibonacci_i32 [of j] that by (intro wrap_signed_id) simp_all
  then show ?thesis by (simp add: fibs32_def fibs_def)
qed

lemma push_next_fibs32:
  assumes "1 \<le> i" and "push_next debug (Suc i) (fibs32 (Suc i)) = Some fib" and "debug \<Longrightarrow> i \<le> 46"
  shows "fib = fibs32 (Suc (Suc i)) \<and> (debug \<longrightarrow> i \<le> 45)"
proof (cases debug)
  case True
  then have i: "i \<le> 46" using assms(3) by simp
  then have "push_next debug (Suc i) (fibs (Suc i)) = Some fib" using assms(2) fibs32_fibs [of "Suc i"] by simp
  moreover have "push_next True 47 (fibs 47) = None"
    using push_next_sum [of 46 True] fibonacci_46(2) by (simp add: signed_result_def build_mode_def in_signed_def)
  ultimately have "i \<noteq> 46" using True by auto
  with i have "i \<le> 45" by linarith
  then show ?thesis using push_next_fibs [OF assms(1), of debug] assms(2) fibs32_fibs [of "Suc i"] fibs32_fibs [of "Suc (Suc i)"] by simp
next
  case False
  obtain j where j: "i = Suc j" using assms(1) by (cases i) simp_all
  let ?x = "wrap_signed 32 (fibonacci j)" and ?y = "wrap_signed 32 (fibonacci (Suc j))"
  have "signed_result Wrapping 32 (?x + ?y) = Some (wrap_signed 32 (?x + ?y))" by (simp add: signed_result_Wrapping)
  moreover have "wrap_signed 32 (?x + ?y) = wrap_signed 32 (fibonacci (Suc i))"
    using wrap_signed_add [of 32 ?x "fibonacci (Suc j)"] wrap_signed_add [of 32 "fibonacci (Suc j)" "fibonacci j"]
    by (simp add: j add.commute)
  ultimately show ?thesis
    using assms(2) False by (auto simp: j push_next_def build_mode_def fibs32_def nth_append)
qed

text \<open>The sequence of a goal of order n worked up to the i-th number: a goal of order 1 goes beyond its order, in a
  debug build up to the 46th number.\<close>

definition worked :: "bool \<Rightarrow> nat \<Rightarrow> nat \<Rightarrow> int list \<Rightarrow> bool" where
  "worked debug n i fib \<longleftrightarrow> 1 \<le> i \<and> (n \<noteq> 1 \<longrightarrow> i \<le> n) \<and> (debug \<longrightarrow> i \<le> 46) \<and> fib = fibs32 (Suc i)"

lemma worked_exact: "worked debug n i fib \<Longrightarrow> n \<le> 25 \<Longrightarrow> n \<noteq> 1 \<or> debug \<Longrightarrow> fib = fibs (Suc i)"
  by (auto simp: worked_def fibs32_fibs)

lemma worked_next:
  assumes "worked debug n i fib" and "push_next debug (Suc i) fib = Some fib'" and "n \<noteq> 1 \<Longrightarrow> i < n"
  shows "worked debug n (Suc i) fib'"
  using push_next_fibs32 [of i debug fib'] assms by (auto simp: worked_def)

text \<open>What a run may send: feedback and results are the numbers of a requested goal, those of a success exactly up to
  the requested order.\<close>

definition goal_requested :: "fib_arrival set \<Rightarrow> goal_id \<Rightarrow> int \<Rightarrow> bool" where
  "goal_requested A gid n \<longleftrightarrow> (\<exists>rid. GoalRequest (Inr (rid, \<lparr>sg_goal_id = gid, sg_goal = n\<rparr>)) \<in> A)"

fun output_ok :: "bool \<Rightarrow> fib_arrival set \<Rightarrow> fib_output \<Rightarrow> bool" where
  "output_ok debug A (FeedbackMessage gid fib) \<longleftrightarrow>
     (\<exists>n i. goal_requested A gid (int n) \<and> 1 \<le> n \<and> n \<le> 25 \<and> 2 \<le> i \<and> worked debug n i fib)"
| "output_ok debug A (GetResultResponse rid x fib) \<longleftrightarrow>
     (\<exists>gid n. ResultRequest (Inr (rid, gid)) \<in> A \<and> goal_requested A gid (int n) \<and> 1 \<le> n \<and> n \<le> 25
        \<and> (x = Succeeded \<and> n \<noteq> 1 \<and> fib = fibs (Suc n)
           \<or> x = Canceled \<and> (\<exists>i. worked debug n i fib \<and> (n \<noteq> 1 \<longrightarrow> i < n))))"
| "output_ok debug A out = True"

definition sent_ok :: "bool \<Rightarrow> fib_arrival set \<Rightarrow> fib_server \<Rightarrow> bool" where
  "sent_ok debug A st \<longleftrightarrow> (\<forall>out\<in>set (sent st). output_ok debug A out)"

lemma sent_ok_simps:
  "sent_ok debug A (snd (send wr out st)) \<longleftrightarrow> sent_ok debug A st \<and> (wr out \<longrightarrow> output_ok debug A out)"
  "sent_ok debug A (publish_statuses wr st) = sent_ok debug A st" "sent_ok debug A (set_status gid x st) = sent_ok debug A st"
  "sent_ok debug A (mark_goal_finished gid st) = sent_ok debug A st" "sent_ok debug A (st\<lparr>result_requests := rr\<rparr>) = sent_ok debug A st"
  "sent_ok debug A (st\<lparr>goals := gs\<rparr>) = sent_ok debug A st"
  "sent_ok debug A (fold (\<lambda>gi. set_status (gi_goal_id gi) Canceling) gis st) = sent_ok debug A st"
proof -
  show "sent_ok debug A (fold (\<lambda>gi. set_status (gi_goal_id gi) Canceling) gis st) = sent_ok debug A st"
    by (induction gis arbitrary: st) (simp_all add: sent_ok_def set_status_def)
qed (auto simp: sent_ok_def send_def publish_statuses_def set_status_def mark_goal_finished_def)

text \<open>The goal of a task that is not over.\<close>

fun runner_goal :: "runner \<Rightarrow> goal_id option" where
  "runner_goal (RunnerNew h n) = Some (ngh_goal_id h)"
| "runner_goal (RunnerAccepted (AcceptedGoalHandle gid) n) = Some gid"
| "runner_goal (RunnerWorks (ExecutingGoalHandle gid) n i fib) = Some gid"
| "runner_goal (RunnerResponds polled (ExecutingGoalHandle gid) es fib) = Some gid"
| "runner_goal RunnerDone = None"
| "runner_goal RunnerPanics = None"

definition goal_is :: "fib_server \<Rightarrow> goal_id \<Rightarrow> goal_status_enum \<Rightarrow> nat \<Rightarrow> bool" where
  "goal_is st gid x n \<longleftrightarrow> statuses st gid = Some x \<and> order_of st gid = Some (int n) \<and> 1 \<le> n \<and> n \<le> 25"

fun runner_ok :: "bool \<Rightarrow> fib_server \<Rightarrow> runner \<Rightarrow> bool" where
  "runner_ok debug st (RunnerNew h n) \<longleftrightarrow> goal_is st (ngh_goal_id h) Unknown n"
| "runner_ok debug st (RunnerAccepted (AcceptedGoalHandle gid) n) \<longleftrightarrow> goal_is st gid Accepted n"
| "runner_ok debug st (RunnerWorks (ExecutingGoalHandle gid) n i fib) \<longleftrightarrow>
     goal_is st gid Executing n \<and> worked debug n i fib \<and> (n \<noteq> 1 \<longrightarrow> i < n)"
| "runner_ok debug st (RunnerResponds polled (ExecutingGoalHandle gid) es fib) \<longleftrightarrow>
     (\<exists>n. es = EndSucceeded \<and> goal_is st gid Executing n \<and> n \<noteq> 1 \<and> fib = fibs (Suc n)
        \<or> es = EndCanceled \<and> goal_is st gid Canceling n \<and> (\<exists>i. worked debug n i fib \<and> (n \<noteq> 1 \<longrightarrow> i < n)))"
| "runner_ok debug st RunnerDone = True"
| "runner_ok debug st RunnerPanics = True"

definition requests_from :: "fib_arrival set \<Rightarrow> fib_server \<Rightarrow> fib_streams \<Rightarrow> bool" where
  "requests_from A st q \<longleftrightarrow> (\<forall>r\<in>set (fs_goals q). GoalRequest r \<in> A) \<and> (\<forall>r\<in>set (fs_results q). ResultRequest r \<in> A)
     \<and> (\<forall>r\<in>set (fs_cancels q). CancelRequest r \<in> A)
     \<and> (\<forall>gid rid. map_of (result_requests st) gid = Some rid \<longrightarrow> ResultRequest (Inr (rid, gid)) \<in> A)
     \<and> (\<forall>gid n. order_of st gid = Some n \<longrightarrow> goal_requested A gid n)"

text \<open>What a step of a task does: it keeps what the server must keep and touches its own goal only.\<close>

definition kept :: "goal_id option \<Rightarrow> fib_server \<Rightarrow> fib_server \<Rightarrow> bool" where
  "kept a st st' \<longleftrightarrow> order_of st' = order_of st \<and> (\<forall>b. a \<noteq> Some b \<longrightarrow> statuses st' b = statuses st b)"

lemma runner_ok_kept:
  assumes "runner_ok debug st r" and "kept a st st'" and "runner_goal r \<noteq> None \<Longrightarrow> runner_goal r \<noteq> a"
  shows "runner_ok debug st' r"
proof -
  have "goal_is st' gid x n = goal_is st gid x n" if "runner_goal r = Some gid" for gid x n
    using assms(2,3) that by (auto simp: kept_def goal_is_def)
  then show ?thesis using assms(1)
    by (cases "(debug, st', r)" rule: runner_ok.cases) auto
qed
definition moves :: "bool \<Rightarrow> fib_arrival set \<Rightarrow> goal_id \<Rightarrow> goal_status_enum \<Rightarrow> fib_server \<Rightarrow> fib_server \<Rightarrow> bool" where
  "moves debug A gid x st st' \<longleftrightarrow> order_of st' = order_of st \<and> statuses st' = (statuses st)(gid := Some x)
     \<and> (sent_ok debug A st \<longrightarrow> sent_ok debug A st') \<and> result_requests st' = result_requests st"

lemma moves_set_status:
  assumes "statuses st gid \<noteq> None" and "goals st' = goals (set_status gid x st)" and "result_requests st' = result_requests st"
    and "sent_ok debug A st \<Longrightarrow> sent_ok debug A st'"
  shows "moves debug A gid x st st'"
  using assms order_of_cong [OF assms(2)] statuses_cong [OF assms(2)] by (auto simp: moves_def statuses_set_status fun_eq_iff)

lemma accept_moves:
  assumes a: "accept_goal wr now h st = (r, st')" and u: "statuses st (ngh_goal_id h) = Some Unknown"
  shows "moves debug A (ngh_goal_id h) Accepted st st'"
    and "r = Ok ah \<Longrightarrow> ah = AcceptedGoalHandle (ngh_goal_id h)" and "(\<And>out. wr out) \<Longrightarrow> r \<noteq> Inl e"
proof -
  have g: "goals st' = bt_modify (ngh_goal_id h) (\<lambda>g. g\<lparr>ag_status := Accepted, ag_accepted_time := Some now\<rparr>) (goals st)"
    using accept_goal_effect(3) [OF a] u by simp
  have "order_of st' = order_of st" "statuses st' = (statuses st)(ngh_goal_id h := Some Accepted)"
    using u by (auto simp: order_of_def statuses_def g bt_get_modify fun_eq_iff option.map_comp comp_def)
  moreover have "sent_ok debug A st \<longrightarrow> sent_ok debug A st'"
    using a u by (auto simp: accept_goal_def statuses_def Let_def case_prod_unfold sent_ok_simps)
  ultimately show "moves debug A (ngh_goal_id h) Accepted st st'" by (simp add: moves_def accept_goal_effect(2) [OF a])
  show "r = Ok ah \<Longrightarrow> ah = AcceptedGoalHandle (ngh_goal_id h)" "(\<And>out. wr out) \<Longrightarrow> r \<noteq> Inl e"
    using a u by (auto simp: accept_goal_def statuses_def Let_def case_prod_unfold split: if_splits)
qed

lemma start_moves:
  assumes s: "start_executing_goal wr (AcceptedGoalHandle gid) st = (r, st')" and u: "statuses st gid = Some Accepted"
  shows "moves debug A gid Executing st st'" and "r = Ok (ExecutingGoalHandle gid)"
proof -
  have "(r, st') = (Ok (ExecutingGoalHandle gid), publish_statuses wr (set_status gid Executing st))"
    using s u by (auto simp: statuses_def)
  then show "moves debug A gid Executing st st'" "r = Ok (ExecutingGoalHandle gid)"
    using u by (auto intro!: moves_set_status simp: sent_ok_simps)
qed

lemma feedback_moves:
  assumes f: "publish_feedback wr (ExecutingGoalHandle gid) fib st = (r, st')" and u: "statuses st gid = Some Executing"
    and o: "output_ok debug A (FeedbackMessage gid fib)"
  shows "moves debug A gid Executing st st'" and "(\<And>out. wr out) \<Longrightarrow> r \<noteq> Inl e"
proof -
  have "goals st' = goals st" "result_requests st' = result_requests st" using publish_feedback_effect [OF f] by simp_all
  moreover have "sent_ok debug A st \<longrightarrow> sent_ok debug A st'"
    using f u o by (auto simp: statuses_def case_prod_unfold sent_ok_simps simp del: output_ok.simps split: option.splits)
  ultimately show "moves debug A gid Executing st st'"
    using u order_of_cong [of st' st] statuses_cong [of st' st] by (auto simp: moves_def)
  show "(\<And>out. wr out) \<Longrightarrow> r \<noteq> Inl e" using f u by (auto simp: statuses_def case_prod_unfold split: option.splits if_splits)
qed

lemma respond_moves:
  assumes f: "respond_to_cancel_requests wr ch [gid] st = (r, st')" and u: "statuses st gid = Some Executing" and inv: "action_inv st"
  shows "moves debug A gid Canceling st st'" and "(\<And>out. wr out) \<Longrightarrow> r \<noteq> Inl e"
proof -
  obtain g t where g: "map_of (goals st) gid = Some g" "ag_accepted_time g = Some t"
    using u inv by (fastforce simp: statuses_def action_inv_def)
  then have "gi_goal_id ` set (canceling_goals [gid] st) = {gid}" by (simp add: canceling_goals_def map_filter_def)
  then have "statuses st' = (statuses st)(gid := Some Canceling)" using respond_statuses [OF f] by auto
  moreover have "sent_ok debug A st \<longrightarrow> sent_ok debug A st'"
    using f by (auto simp: respond_to_cancel_requests_def Let_def case_prod_unfold sent_ok_simps)
  moreover have "order_of st' = order_of st" using order_of_cong [OF respond_fields(1) [OF f]] by simp
  ultimately show "moves debug A gid Canceling st st'" using respond_fields(3) [OF f] by (simp add: moves_def)
  show "(\<And>out. wr out) \<Longrightarrow> r \<noteq> Inl e" using f by (auto simp: respond_to_cancel_requests_def Let_def case_prod_unfold)
qed

lemma finish_moves:
  assumes f: "finish_goal wr gid rid x fib st = (r, st')" and u: "statuses st gid = Some y" "active y"
    and o: "output_ok debug A (GetResultResponse rid x fib)"
  shows "moves debug A gid x st st'"
proof (rule moves_set_status)
  show "goals st' = goals (set_status gid x st)" using finish_goal_effect(2) [OF f] u by auto
  show "result_requests st' = result_requests st" by (rule finish_goal_effect(1) [OF f])
  show "sent_ok debug A st \<Longrightarrow> sent_ok debug A st'"
    using f u o by (auto simp: finish_goal_def statuses_def active_def Let_def case_prod_unfold sent_ok_simps simp del: output_ok.simps split: if_splits)
qed (use u in simp)
lemma await_from:
  assumes "await_result_request gid reqs rr = (p, rr', rest)" and "bt_inv rr"
  shows "set rest \<subseteq> set reqs" and "map_of rr' g = Some i \<Longrightarrow> map_of rr g = Some i \<or> Inr (i, g) \<in> set reqs"
    and "p = Ready (Ok rid) \<Longrightarrow> Inr (rid, gid) \<in> set reqs"
  using assms by (induction gid reqs rr rule: await_result_request.induct) (auto simp: bt_inv_insert bt_get_insert split: if_splits)

text \<open>The request a poll of \<open>send_result_response\<close> finds, and the remembered requests after it.\<close>

definition seek_request :: "bool \<Rightarrow> goal_id \<Rightarrow> (goal_error + (request_id \<times> goal_id)) list \<Rightarrow> (goal_id \<times> request_id) list \<Rightarrow>
    (goal_error + request_id) poll \<times> (goal_id \<times> request_id) list \<times> (goal_error + (request_id \<times> goal_id)) list" where
  "seek_request polled gid reqs rr = (if polled then await_result_request gid reqs rr else find_result_request gid reqs rr)"

lemma poll_result_seek:
  "poll_result wr polled (ExecutingGoalHandle gid) es fib reqs st =
     (let (p, rr, rest) = seek_request polled gid reqs (result_requests st);
          st1 = st\<lparr>result_requests := rr\<rparr>
      in case p of
           Pending \<Rightarrow> (Pending, st1, rest)
         | Ready (Inl e) \<Rightarrow> (Ready (Err e), st1, rest)
         | Ready (Inr rid) \<Rightarrow> (let (r, st2) = finish_goal wr gid rid (end_status es) fib st1 in (Ready r, st2, rest)))"
  by (cases polled) (simp_all add: poll_result_def seek_request_def)

lemma seek_from:
  assumes "seek_request polled gid (fs_results q) (result_requests st) = (p, rr, rest)" and "action_inv st" and "requests_from A st q"
  shows "requests_from A (st\<lparr>result_requests := rr\<rparr>) (q\<lparr>fs_results := rest\<rparr>)"
    and "p = Ready (Ok rid) \<Longrightarrow> ResultRequest (Inr (rid, gid)) \<in> A"
proof -
  have f: "set rest \<subseteq> set (fs_results q) \<and> (\<forall>g i. map_of rr g = Some i \<longrightarrow> map_of (result_requests st) g = Some i \<or> Inr (i, g) \<in> set (fs_results q))
      \<and> (p = Ready (Ok rid) \<longrightarrow> Inr (rid, gid) \<in> set (fs_results q) \<or> map_of (result_requests st) gid = Some rid)"
    using assms(1,2) await_from [of gid "fs_results q" "result_requests st" p rr rest]
    by (auto simp: seek_request_def find_result_request_def action_inv_def split: if_splits option.splits)
  have remembered: "ResultRequest (Inr (i, g)) \<in> A" if "map_of rr g = Some i" for g i
  proof -
    have "map_of (result_requests st) g = Some i \<or> Inr (i, g) \<in> set (fs_results q)" using f that by blast
    then show ?thesis using assms(3) by (auto simp: requests_from_def)
  qed
  show "requests_from A (st\<lparr>result_requests := rr\<rparr>) (q\<lparr>fs_results := rest\<rparr>)"
    using f assms(3) remembered by (auto simp: requests_from_def order_of_def)
  show "p = Ready (Ok rid) \<Longrightarrow> ResultRequest (Inr (rid, gid)) \<in> A" using f assms(3) by (auto simp: requests_from_def)
qed

lemma requests_from_moves: "requests_from A st q \<Longrightarrow> moves debug A gid x st st' \<Longrightarrow> requests_from A st' q"
  by (simp add: requests_from_def moves_def)

text \<open>What keeps a run free of panics: every write is taken, no cancel request is a read error, and no order is negative or 1.\<close>

definition benign :: "(fib_output \<Rightarrow> bool) \<Rightarrow> fib_arrival set \<Rightarrow> bool" where
  "benign wr A \<longleftrightarrow> (\<forall>out. wr out) \<and> (\<forall>e. CancelRequest (Inl e) \<notin> A) \<and> (\<forall>gid n. goal_requested A gid n \<longrightarrow> 0 \<le> n \<and> n \<noteq> 1)"

definition runner_moved :: "(fib_output \<Rightarrow> bool) \<Rightarrow> bool \<Rightarrow> fib_arrival set \<Rightarrow> runner \<Rightarrow> fib_server \<Rightarrow> runner \<times> fib_server \<times> fib_streams \<Rightarrow> bool" where
  "runner_moved wr debug A r st rsq \<longleftrightarrow>
     (case rsq of (r', st', q') \<Rightarrow> kept (runner_goal r) st st' \<and> runner_ok debug st' r' \<and> runner_goal r' \<in> {runner_goal r, None}
        \<and> requests_from A st' q' \<and> sent_ok debug A st' \<and> (benign wr A \<longrightarrow> r' \<noteq> RunnerPanics))"

lemma runner_movedI:
  assumes "moves debug A gid x st st'" and "sent_ok debug A st" and "requests_from A st' q'" and "runner_goal r = Some gid"
    and "runner_ok debug st' r'" and "runner_goal r' \<in> {Some gid, None}" and "benign wr A \<Longrightarrow> r' \<noteq> RunnerPanics"
  shows "runner_moved wr debug A r st (r', st', q')"
  using assms by (auto simp: runner_moved_def moves_def kept_def)

lemma goal_is_moves: "goal_is st gid y n \<Longrightarrow> moves debug A gid x st st' \<Longrightarrow> goal_is st' gid x n"
  by (simp add: goal_is_def moves_def)

lemma accept_moved:
  assumes "action_runner wr debug (RunnerAccepts now) r (st, q) = Some rsq" and "runner_ok debug st r" "requests_from A st q" "sent_ok debug A st"
  shows "runner_moved wr debug A r st rsq"
proof -
  obtain h n where r: "r = RunnerNew h n" using assms(1) by (auto simp: action_runner_def split: runner.splits)
  obtain x st' where a: "accept_goal wr now h st = (x, st')" by fastforce
  have u: "statuses st (ngh_goal_id h) = Some Unknown" using assms(2) r by (simp add: goal_is_def)
  note m = accept_moves [OF a u]
  have req: "requests_from A st' q" by (rule requests_from_moves [OF assms(3) m(1)])
  show ?thesis
  proof (cases x)
    case (Inl e)
    then have "rsq = (RunnerPanics, st', q)" using assms(1) r a by (simp add: action_runner_def)
    then show ?thesis using m(3) [of e] Inl by (auto intro!: runner_movedI [OF m(1) assms(4) req] simp: r benign_def)
  next
    case (Inr ah)
    then have "rsq = (RunnerAccepted (AcceptedGoalHandle (ngh_goal_id h)) n, st', q)" using assms(1) r a m(2) by (simp add: action_runner_def)
    then show ?thesis using goal_is_moves [OF _ m(1)] assms(2) by (auto intro!: runner_movedI [OF m(1) assms(4) req] simp: r)
  qed
qed

lemma start_moved:
  assumes "action_runner wr debug RunnerStarts r (st, q) = Some rsq" and "runner_ok debug st r" "requests_from A st q" "sent_ok debug A st"
  shows "runner_moved wr debug A r st rsq"
proof -
  obtain gid n where r: "r = RunnerAccepted (AcceptedGoalHandle gid) n"
    using assms(1) by (auto simp: action_runner_def split: runner.splits intro: accepted_goal_handle.exhaust)
  obtain x st' where a: "start_executing_goal wr (AcceptedGoalHandle gid) st = (x, st')" by fastforce
  have u: "statuses st gid = Some Accepted" using assms(2) r by (simp add: goal_is_def)
  note m = start_moves [OF a u]
  have "rsq = (RunnerWorks (ExecutingGoalHandle gid) n 1 (fibs32 2), st', q)"
    using assms(1) r a m(2) by (simp add: action_runner_def fibs_start fibs32_fibs)
  moreover have "worked debug n 1 (fibs32 2)" if "1 \<le> n" using that by (simp add: worked_def numeral_2_eq_2)
  ultimately show ?thesis
    using goal_is_moves [OF _ m(1), of Accepted n] assms(2) requests_from_moves [OF assms(3) m(1)]
    by (auto intro!: runner_movedI [OF m(1) assms(4)] simp: r numeral_2_eq_2 goal_is_def)
qed
lemma tick_moved:
  assumes "action_runner wr debug RunnerTick r (st, q) = Some rsq" and "runner_ok debug st r" "requests_from A st q" "sent_ok debug A st"
  shows "runner_moved wr debug A r st rsq"
proof -
  obtain gid n i fib where r: "r = RunnerWorks (ExecutingGoalHandle gid) n i fib"
    using assms(1) by (auto simp: action_runner_def split: runner.splits intro: executing_goal_handle.exhaust)
  have ok: "goal_is st gid Executing n" "worked debug n i fib" "n \<noteq> 1 \<Longrightarrow> i < n" using assms(2) r by auto
  then have u: "statuses st gid = Some Executing" and n: "goal_requested A gid (int n)" "1 \<le> n" "n \<le> 25"
    using assms(3) by (auto simp: goal_is_def requests_from_def)
  have next_fib: "push_next debug (Suc i) fib = Some (fibs (Suc (Suc i)))" if "n \<noteq> 1"
  proof -
    have "fib = fibs (Suc i)" by (rule worked_exact [OF ok(2) n(3)]) (use that in simp)
    moreover have "1 \<le> i" "i \<le> 45" using ok(2,3) n that by (auto simp: worked_def)
    ultimately show ?thesis by (simp add: push_next_fibs)
  qed
  show ?thesis
  proof (cases "push_next debug (Suc i) fib")
    case None
    then have "rsq = (RunnerPanics, st, q)" "n = 1" using assms(1) r next_fib by (auto simp: action_runner_def work_tick_def)
    then show ?thesis using n assms(3,4) by (auto simp: runner_moved_def kept_def benign_def)
  next
    case (Some fib')
    obtain x st' where f: "publish_feedback wr (ExecutingGoalHandle gid) fib' st = (x, st')" by fastforce
    have w: "worked debug n (Suc i) fib'" "2 \<le> Suc i" using worked_next [OF ok(2) Some ok(3)] ok(2) by (simp_all add: worked_def)
    have whole: "fib' = fibs (Suc (Suc i))" if "n \<noteq> 1" using next_fib [OF that] Some by simp
    have "output_ok debug A (FeedbackMessage gid fib')" using n w unfolding output_ok.simps by blast
    note m = feedback_moves [OF f u this]
    have req: "requests_from A st' q" by (rule requests_from_moves [OF assms(3) m(1)])
    show ?thesis
    proof (cases x)
      case (Inl e)
      then have "rsq = (RunnerPanics, st', q)" using assms(1) r Some f by (simp add: action_runner_def work_tick_def)
      then show ?thesis using m(2) [of e] Inl by (auto intro!: runner_movedI [OF m(1) assms(4) req] simp: r benign_def)
    next
      case (Inr y)
      then have "rsq = (if Suc i = n then RunnerResponds False (ExecutingGoalHandle gid) EndSucceeded fib'
          else RunnerWorks (ExecutingGoalHandle gid) n (Suc i) fib', st', q)"
        using assms(1) r Some f by (cases "Suc i = n") (auto simp: action_runner_def work_tick_def)
      then show ?thesis using goal_is_moves [OF ok(1) m(1)] w whole ok n
        by (auto intro!: runner_movedI [OF m(1) assms(4) req] simp: r)
    qed
  qed
qed

lemma stream_taken: "requests_from A st q \<Longrightarrow> fs_cancels q = c # cs \<Longrightarrow> requests_from A st (q\<lparr>fs_cancels := cs\<rparr>) \<and> CancelRequest c \<in> A"
  by (simp add: requests_from_def)

lemma work_cancel_cases:
  assumes "work_cancel wr (ExecutingGoalHandle gid) i fib c st = (w, st')"
  shows "(\<exists>e. c = Inl e) \<and> w = WorkPanics \<and> st' = st \<or> w = WorkGoesOn i fib \<and> st' = st
    \<or> (\<exists>ch x. respond_to_cancel_requests wr ch [gid] st = (x, st') \<and> w = (case x of Inl _ \<Rightarrow> WorkPanics | Inr _ \<Rightarrow> WorkEnds EndCanceled fib))"
proof (cases c)
  case (Inr rq)
  let ?ch = "receive_cancel_request rq st"
  obtain x st1 where x: "respond_to_cancel_requests wr ?ch [gid] st = (x, st1)" by fastforce
  show ?thesis
  proof (cases "contains_goal ?ch gid")
    case True
    then have "(w, st') = (case x of Inl _ \<Rightarrow> WorkPanics | Inr _ \<Rightarrow> WorkEnds EndCanceled fib, st1)"
      using assms Inr x by (cases x) (simp_all add: work_cancel_def Let_def)
    then show ?thesis using x by blast
  qed (use assms Inr in \<open>simp add: work_cancel_def Let_def\<close>)
qed (use assms in \<open>simp add: work_cancel_def\<close>)

lemma cancel_moved:
  assumes "action_runner wr debug RunnerCancel r (st, q) = Some rsq" and "runner_ok debug st r" "requests_from A st q" "sent_ok debug A st"
    and inv: "action_inv st"
  shows "runner_moved wr debug A r st rsq"
proof -
  obtain gid n i fib c cs where r: "r = RunnerWorks (ExecutingGoalHandle gid) n i fib" and c: "fs_cancels q = c # cs"
    using assms(1) by (auto simp: action_runner_def split: runner.splits list.splits intro: executing_goal_handle.exhaust)
  define q' where "q' = q\<lparr>fs_cancels := cs\<rparr>"
  have q': "requests_from A st q'" "CancelRequest c \<in> A" using stream_taken [OF assms(3) c] by (simp_all add: q'_def)
  have ok: "goal_is st gid Executing n" and u: "statuses st gid = Some Executing" and w: "worked debug n i fib" "n \<noteq> 1 \<longrightarrow> i < n"
    using assms(2) r by (auto simp: goal_is_def)
  obtain w st' where wc: "work_cancel wr (ExecutingGoalHandle gid) i fib c st = (w, st')" by fastforce
  then have rsq: "rsq = (runner_after (ExecutingGoalHandle gid) n w, st', q')"
    using assms(1) r c by (simp add: action_runner_def q'_def)
  consider e where "c = Inl e" "w = WorkPanics" "st' = st" | "w = WorkGoesOn i fib" "st' = st"
    | ch x where "respond_to_cancel_requests wr ch [gid] st = (x, st')" "w = (case x of Inl _ \<Rightarrow> WorkPanics | Inr _ \<Rightarrow> WorkEnds EndCanceled fib)"
    using work_cancel_cases [OF wc] by blast
  then show ?thesis
  proof cases
    case 1
    then show ?thesis using rsq q' assms(4) by (auto simp: runner_moved_def kept_def benign_def)
  next
    case 2
    then show ?thesis using rsq q' assms(2,4) r by (auto simp: runner_moved_def kept_def)
  next
    case 3
    note m = respond_moves [OF 3(1) u inv]
    have responds: "runner_ok debug st' (RunnerResponds False (ExecutingGoalHandle gid) EndCanceled fib)"
      using goal_is_moves [OF ok m(1)] w by auto
    show ?thesis
    proof (cases x)
      case (Inl e)
      then show ?thesis using rsq 3(2) m(2) [of e] requests_from_moves [OF q'(1) m(1)]
        by (auto intro!: runner_movedI [OF m(1) assms(4)] simp: r benign_def)
    next
      case (Inr y)
      then show ?thesis using rsq 3(2) responds requests_from_moves [OF q'(1) m(1)]
        by (auto intro!: runner_movedI [OF m(1) assms(4)] simp: r simp del: runner_ok.simps(4))
    qed
  qed
qed

lemma result_moved:
  assumes "action_runner wr debug RunnerResult r (st, q) = Some rsq" and "runner_ok debug st r" "requests_from A st q" "sent_ok debug A st"
    and inv: "action_inv st"
  shows "runner_moved wr debug A r st rsq"
proof -
  obtain polled gid es fib where r: "r = RunnerResponds polled (ExecutingGoalHandle gid) es fib"
    using assms(1) by (auto simp: action_runner_def split: runner.splits intro: executing_goal_handle.exhaust)
  obtain n where n: "es = EndSucceeded \<and> goal_is st gid Executing n \<and> n \<noteq> 1 \<and> fib = fibs (Suc n)
      \<or> es = EndCanceled \<and> goal_is st gid Canceling n \<and> (\<exists>i. worked debug n i fib \<and> (n \<noteq> 1 \<longrightarrow> i < n))"
    using assms(2) r by auto
  obtain p rr rest where p: "seek_request polled gid (fs_results q) (result_requests st) = (p, rr, rest)" by (metis prod_cases3)
  let ?st = "st\<lparr>result_requests := rr\<rparr>" and ?q = "q\<lparr>fs_results := rest\<rparr>"
  note sk = seek_from [OF p inv assms(3)]
  have same: "statuses ?st = statuses st" "order_of ?st = order_of st" by (simp_all add: statuses_def order_of_def fun_eq_iff)
  have r_ok: "runner_ok debug ?st (RunnerResponds True (ExecutingGoalHandle gid) es fib)" using assms(2) by (simp add: r goal_is_def same)
  consider "p = Pending" | e where "p = Ready (Inl e)" | rid where "p = Ready (Inr rid)" by (metis old.sum.exhaust poll.exhaust)
  then show ?thesis
  proof cases
    case 3
    have "output_ok debug A (GetResultResponse rid (end_status es) fib)"
    proof -
      have "goal_requested A gid (int n) \<and> 1 \<le> n \<and> n \<le> 25" using n assms(3) by (auto simp: requests_from_def goal_is_def)
      moreover have "end_status es = Succeeded \<and> n \<noteq> 1 \<and> fib = fibs (Suc n)
          \<or> end_status es = Canceled \<and> (\<exists>i. worked debug n i fib \<and> (n \<noteq> 1 \<longrightarrow> i < n))" using n by auto
      ultimately show ?thesis using sk(2) [OF 3] unfolding output_ok.simps by blast
    qed
    moreover obtain y where "statuses ?st gid = Some y" "active y" using n by (auto simp: goal_is_def active_def same)
    moreover obtain x st' where f: "finish_goal wr gid rid (end_status es) fib ?st = (x, st')" by fastforce
    ultimately have m: "moves debug A gid (end_status es) ?st st'" by (intro finish_moves)
    have "rsq = (RunnerDone, st', ?q)" using assms(1) r p 3 f by (simp add: action_runner_def poll_result_seek)
    then show ?thesis using m requests_from_moves [OF sk(1) m] assms(4)
      by (simp add: runner_moved_def moves_def kept_def same sent_ok_simps r)
  qed (use assms(1,4) r p r_ok sk(1) same in
    \<open>auto simp: action_runner_def poll_result_seek runner_moved_def kept_def sent_ok_simps simp del: runner_ok.simps(4)\<close>)
qed
lemma timeout_moved:
  "action_runner wr debug RunnerTimeout r (st, q) = Some rsq \<Longrightarrow> requests_from A st q \<Longrightarrow> sent_ok debug A st \<Longrightarrow> runner_moved wr debug A r st rsq"
  by (auto simp: action_runner_def runner_moved_def kept_def split: runner.splits)

lemma runner_moves:
  assumes "action_runner wr debug ev r (st, q) = Some rsq" and "runner_ok debug st r" "requests_from A st q" "sent_ok debug A st" and "action_inv st"
  shows "runner_moved wr debug A r st rsq"
proof (cases ev)
  case (RunnerAccepts now)
  with assms(1) show ?thesis by (intro accept_moved [OF _ assms(2-4)]) simp
next
  case RunnerStarts
  with assms(1) show ?thesis by (intro start_moved [OF _ assms(2-4)]) simp
next
  case RunnerTick
  with assms(1) show ?thesis by (intro tick_moved [OF _ assms(2-4)]) simp
next
  case RunnerCancel
  with assms(1) show ?thesis by (intro cancel_moved [OF _ assms(2-5)]) simp
next
  case RunnerResult
  with assms(1) show ?thesis by (intro result_moved [OF _ assms(2-5)]) simp
next
  case RunnerTimeout
  with assms(1) show ?thesis by (intro timeout_moved [OF _ assms(3,4)]) simp
qed

text \<open>A task uses the action server with care.\<close>

lemma work_careful:
  assumes "action_reachable wr debug Ros2Use st"
  shows "work_tick wr debug eh n i fib st = (w, st') \<Longrightarrow> action_reachable wr debug Ros2Use st'"
    and "work_cancel wr (ExecutingGoalHandle gid) i fib c st = (w, st') \<Longrightarrow> statuses st gid = Some Executing \<Longrightarrow> action_reachable wr debug Ros2Use st'"
    and "poll_result wr polled (ExecutingGoalHandle gid) es fib reqs st = (p, st', rest) \<Longrightarrow> may_end (statuses st gid) es
      \<Longrightarrow> action_reachable wr debug Ros2Use st'"
proof -
  have "action_reachable wr debug Ros2Use (snd (publish_feedback wr eh fib st))" for fib
    by (rule reach_step [OF assms]) (rule step_feedback [OF surjective_pairing])
  then show "work_tick wr debug eh n i fib st = (w, st') \<Longrightarrow> action_reachable wr debug Ros2Use st'"
    using assms by (auto simp: work_tick_def split: option.splits sum.splits prod.splits) (metis snd_conv)+
  show "action_reachable wr debug Ros2Use st'" if "work_cancel wr (ExecutingGoalHandle gid) i fib c st = (w, st')" "statuses st gid = Some Executing"
    using work_cancel_cases [OF that(1)] assms that(2) step_cancel [of wr _ "[gid]" st _ st' Ros2Use debug]
    by (auto simp: terminal_def intro: reach_step)
  show "action_reachable wr debug Ros2Use st'"
    if "poll_result wr polled (ExecutingGoalHandle gid) es fib reqs st = (p, st', rest)" "may_end (statuses st gid) es"
    using that by (cases polled) (auto simp: poll_result_def intro: reach_step [OF assms step_result] reach_step [OF assms step_resume])
qed

lemma runner_careful:
  assumes step: "action_runner wr debug ev r (st, q) = Some (r', st', q')" and ok: "runner_ok debug st r" and re: "action_reachable wr debug Ros2Use st"
  shows "action_reachable wr debug Ros2Use st'"
proof (cases ev)
  case (RunnerAccepts now)
  then show ?thesis using step reach_step [OF re step_accept]
    by (auto simp: action_runner_def split: runner.splits sum.splits prod.splits)
next
  case RunnerStarts
  then show ?thesis using step reach_step [OF re step_start]
    by (auto simp: action_runner_def split: runner.splits sum.splits prod.splits)
next
  case RunnerTick
  then show ?thesis using step work_careful(1) [OF re] by (auto simp: action_runner_def split: runner.splits prod.splits)
next
  case RunnerCancel
  then obtain gid n i fib c cs where r: "r = RunnerWorks (ExecutingGoalHandle gid) n i fib" and c: "fs_cancels q = c # cs"
    using step by (auto simp: action_runner_def split: runner.splits list.splits intro: executing_goal_handle.exhaust)
  obtain w st1 where w: "work_cancel wr (ExecutingGoalHandle gid) i fib c st = (w, st1)" by fastforce
  then have "st' = st1" using step RunnerCancel r c by (simp add: action_runner_def)
  then show ?thesis using work_careful(2) [OF re w] ok r by (simp add: goal_is_def)
next
  case RunnerResult
  then obtain polled gid es fib where r: "r = RunnerResponds polled (ExecutingGoalHandle gid) es fib"
    using step by (auto simp: action_runner_def split: runner.splits intro: executing_goal_handle.exhaust)
  then have "may_end (statuses st gid) es" using ok by (auto simp: goal_is_def may_end_def)
  then show ?thesis using step r RunnerResult work_careful(3) [OF re] by (auto simp: action_runner_def split: prod.splits)
next
  case RunnerTimeout
  then show ?thesis using step re by (auto simp: action_runner_def split: runner.splits)
qed
text \<open>Fetching a new goal forgets ended goals only.\<close>

definition survives :: "fib_server \<Rightarrow> fib_server \<Rightarrow> bool" where
  "survives st st' \<longleftrightarrow> (\<forall>gid x n. goal_is st gid x n \<longrightarrow> \<not> terminal x \<longrightarrow> goal_is st' gid x n)"

lemma runner_ok_survives:
  assumes "runner_ok debug st r" and "survives st st'"
  shows "runner_ok debug st' r"
proof -
  have "goal_is st gid x n \<Longrightarrow> goal_is st' gid x n" if "x \<in> {Unknown, Accepted, Executing, Canceling}" for gid x n
    using assms(2) that by (auto simp: survives_def terminal_def)
  then show ?thesis using assms(1) by (cases "(debug, st, r)" rule: runner_ok.cases) (simp_all, blast+)
qed

text \<open>What the examination of a new goal promises.\<close>

definition examined :: "(fib_output \<Rightarrow> bool) \<Rightarrow> bool \<Rightarrow> fib_arrival set \<Rightarrow> goal_id \<Rightarrow> int \<Rightarrow> fib_server \<Rightarrow> goal_outcome \<Rightarrow> fib_server \<Rightarrow> bool" where
  "examined wr debug A gid n st out st' \<longleftrightarrow> action_reachable wr debug Ros2Use st' \<and> survives st st' \<and> (sent_ok debug A st \<longrightarrow> sent_ok debug A st')
     \<and> result_requests st' = result_requests st \<and> (\<forall>b m. order_of st' b = Some m \<longrightarrow> order_of st b = Some m \<or> b = gid \<and> m = n)
     \<and> (\<forall>k. out = GoalFine k \<longrightarrow> goal_is st' gid Unknown k) \<and> (out = GoalPanics \<longrightarrow> n < 0 \<or> (\<exists>y. \<not> wr y))"

lemma reject_examined:
  assumes "examined wr debug A gid n st GoalRefused st'" and "statuses st gid = None"
    and rj: "reject_goal wr now \<lparr>ngh_goal_id = gid, ngh_req_id = rid\<rparr> st' = (x, st'')" and "statuses st' gid = Some Unknown"
  shows "examined wr debug A gid n st (case x of Inl _ \<Rightarrow> GoalPanics | Inr _ \<Rightarrow> GoalRefused) st''"
proof -
  have g: "goals st'' = bt_remove gid (goals st')" and rr: "result_requests st'' = result_requests st'"
    using reject_goal_effect [OF rj] assms(4) by simp_all
  then have same: "statuses st'' b = (if b = gid then None else statuses st' b)" "order_of st'' b = (if b = gid then None else order_of st' b)" for b
    by (auto simp: statuses_def order_of_def bt_get_remove)
  have "action_reachable wr debug Ros2Use st''" using assms(1) reach_step step_reject [OF rj] unfolding examined_def by blast
  moreover have "survives st st''" using assms(1,2) by (auto simp: examined_def survives_def goal_is_def same)
  moreover have "sent_ok debug A st \<longrightarrow> sent_ok debug A st''"
    using assms(1,4) rj by (auto simp: examined_def reject_goal_def statuses_def Let_def case_prod_unfold sent_ok_simps)
  moreover have "x = Inl e \<Longrightarrow> \<exists>y. \<not> wr y" for e
    using assms(4) rj by (auto simp: reject_goal_def statuses_def Let_def case_prod_unfold split: if_splits)
  ultimately show ?thesis using assms(1) rr by (auto simp: examined_def same split: if_splits sum.splits)
qed

lemma examine_examined:
  assumes r: "action_reachable wr debug Ros2Use st" and new: "map_of (goals st) gid = None"
    and ex: "examine_goal wr debug now \<lparr>ngh_goal_id = gid, ngh_req_id = rid\<rparr> (received gid n st) = (out, st')"
  shows "examined wr debug A gid n st out st'"
proof -
  let ?h = "\<lparr>ngh_goal_id = gid, ngh_req_id = rid\<rparr>"
  obtain st1 where get: "get_new_goal debug ?h (received gid n st) = Some (Some n, st1)"
    and st1: "action_reachable wr debug Ros2Use st1" "sent st1 = sent st" "result_requests st1 = result_requests st"
    and g: "\<And>a. map_of (goals st1) a = (if a \<in> set (finished_goals st) then None
         else if a = gid then Some \<lparr>ag_status = Unknown, ag_accepted_time = None, ag_goal = n\<rparr> else map_of (goals st) a)"
    and nf: "gid \<notin> set (finished_goals st)"
    using get_received [OF r _ new, of rid n] by blast
  have gid1: "statuses st1 gid = Some Unknown" "order_of st1 gid = Some n" "statuses st gid = None"
    using g nf new by (simp_all add: statuses_def order_of_def)
  have "goal_is st1 b x k" if "goal_is st b x k" "\<not> terminal x" for b x k
  proof -
    have "b \<notin> set (finished_goals st)"
      using finished_terminal [OF finished_inv_reachable [OF r], of b] that by (auto simp: goal_is_def)
    then show ?thesis using that gid1(3) by (auto simp: goal_is_def g statuses_def order_of_def)
  qed
  then have sv: "survives st st1" by (simp add: survives_def)
  have ord: "order_of st1 b = Some m \<Longrightarrow> order_of st b = Some m \<or> b = gid \<and> m = n" for b m
    by (auto simp: order_of_def g split: if_splits)
  have fine: "examined wr debug A gid n st (GoalFine k) st1" if "goal_is st1 gid Unknown k" for k
    using st1 sv ord that gid1 by (simp add: examined_def sent_ok_def goal_is_def)
  consider "n < 0" | "0 \<le> n" "1 \<le> nat n \<and> nat n \<le> 25" | "0 \<le> n" "\<not> (1 \<le> nat n \<and> nat n \<le> 25)" by linarith
  then show ?thesis
  proof cases
    case 1
    then have "(out, st') = (GoalPanics, st1)" using ex get by (simp add: examine_goal_def)
    then show ?thesis using st1 sv ord 1 by (simp add: examined_def sent_ok_def)
  next
    case 2
    then have "(out, st') = (GoalFine (nat n), st1)" using ex get by (simp add: examine_goal_def Let_def)
    then show ?thesis using fine [of "nat n"] gid1 2 by (simp add: goal_is_def)
  next
    case 3
    obtain x st2 where rj: "reject_goal wr now ?h st1 = (x, st2)" by fastforce
    have "(out, st') = (case x of Inl _ \<Rightarrow> GoalPanics | Inr _ \<Rightarrow> GoalRefused, st2)"
      using ex get 3 rj by (cases x) (auto simp: examine_goal_def Let_def)
    moreover have "examined wr debug A gid n st GoalRefused st1" using st1 sv ord by (simp add: examined_def sent_ok_def)
    ultimately show ?thesis using reject_examined [OF _ gid1(3) rj gid1(1), of debug A n] by (auto split: sum.splits)
  qed
qed
definition separate :: "runner list \<Rightarrow> bool" where
  "separate rs \<longleftrightarrow> (\<forall>j k a. j < length rs \<longrightarrow> k < length rs \<longrightarrow> runner_goal (rs ! j) = Some a \<longrightarrow> runner_goal (rs ! k) = Some a \<longrightarrow> j = k)"

definition concurrent_inv :: "(fib_output \<Rightarrow> bool) \<Rightarrow> bool \<Rightarrow> fib_arrival set \<Rightarrow> concurrent \<Rightarrow> bool" where
  "concurrent_inv wr debug A s \<longleftrightarrow> action_reachable wr debug Ros2Use (cc_server s) \<and> requests_from A (cc_server s) (cc_streams s)
     \<and> sent_ok debug A (cc_server s) \<and> list_all (runner_ok debug (cc_server s)) (cc_runners s) \<and> separate (cc_runners s)
     \<and> (benign wr A \<longrightarrow> cc_main s \<noteq> ConcurrentPanics \<and> RunnerPanics \<notin> set (cc_runners s))"

lemma start_concurrent: "concurrent_inv wr debug A concurrent_start"
  by (simp add: concurrent_inv_def concurrent_start_def reach_new requests_from_def no_requests_def sent_ok_def order_of_def separate_def
      action_server_new_def [THEN arg_cong, of goals] action_server_new_def [THEN arg_cong, of sent] action_server_new_def [THEN arg_cong, of result_requests])

lemma arrive_concurrent:
  "concurrent_inv wr debug A s \<Longrightarrow> a \<in> A \<Longrightarrow> concurrent_inv wr debug A (s\<lparr>cc_streams := arrive a (cc_streams s)\<rparr>)"
  by (cases a) (auto simp: concurrent_inv_def requests_from_def)

lemma separateD: "separate rs \<Longrightarrow> j < length rs \<Longrightarrow> k < length rs \<Longrightarrow> runner_goal (rs ! j) = Some a \<Longrightarrow> runner_goal (rs ! k) = Some a \<Longrightarrow> j = k"
  by (simp add: separate_def)

lemma separate_update:
  assumes "separate rs" and "k < length rs" and "runner_goal r \<in> {runner_goal (rs ! k), None}"
  shows "separate (rs[k := r])"
  unfolding separate_def
proof (intro allI impI)
  fix i j a assume ij: "i < length (rs[k := r])" "j < length (rs[k := r])" "runner_goal (rs[k := r] ! i) = Some a" "runner_goal (rs[k := r] ! j) = Some a"
  have "runner_goal (rs ! i) = Some a" if "runner_goal (rs[k := r] ! i) = Some a" for i
    using assms(2,3) that by (cases "i = k") auto
  then show "i = j" using separateD [OF assms(1), of i j a] ij by simp
qed

lemma separate_snoc:
  assumes "separate rs" and "\<And>r. r \<in> set rs \<Longrightarrow> runner_goal r \<noteq> runner_goal x"
  shows "separate (rs @ [x])"
  unfolding separate_def
proof (intro allI impI)
  fix i j a assume ij: "i < length (rs @ [x])" "j < length (rs @ [x])" "runner_goal ((rs @ [x]) ! i) = Some a" "runner_goal ((rs @ [x]) ! j) = Some a"
  then show "i = j" using separateD [OF assms(1), of i j a] assms(2) [of "rs ! i"] assms(2) [of "rs ! j"]
    by (auto simp: nth_append split: if_splits)
qed

lemma runner_concurrent:
  assumes inv: "concurrent_inv wr debug A s" and k: "k < length (cc_runners s)"
    and step: "action_runner wr debug ev (cc_runners s ! k) (cc_server s, cc_streams s) = Some (r, st, q)"
  shows "concurrent_inv wr debug A (s\<lparr>cc_server := st, cc_streams := q, cc_runners := (cc_runners s)[k := r]\<rparr>)"
proof -
  let ?rs = "cc_runners s"
  have i: "action_reachable wr debug Ros2Use (cc_server s)" "requests_from A (cc_server s) (cc_streams s)" "sent_ok debug A (cc_server s)"
    "list_all (runner_ok debug (cc_server s)) ?rs" "separate ?rs"
    "benign wr A \<Longrightarrow> cc_main s \<noteq> ConcurrentPanics \<and> RunnerPanics \<notin> set ?rs"
    using inv by (simp_all add: concurrent_inv_def)
  have ok: "runner_ok debug (cc_server s) (?rs ! k)" using i(4) k by (simp add: list_all_length)
  have m: "kept (runner_goal (?rs ! k)) (cc_server s) st" "runner_ok debug st r" "runner_goal r \<in> {runner_goal (?rs ! k), None}"
    "requests_from A st q" "sent_ok debug A st" "benign wr A \<Longrightarrow> r \<noteq> RunnerPanics"
    using runner_moves [OF step ok i(2,3) action_inv_reachable [OF i(1)]] by (auto simp: runner_moved_def)
  have "runner_ok debug st (?rs ! j)" if "j < length ?rs" "j \<noteq> k" for j
  proof (rule runner_ok_kept [OF _ m(1)])
    show "runner_ok debug (cc_server s) (?rs ! j)" using i(4) that by (simp add: list_all_length)
    show "runner_goal (?rs ! j) \<noteq> None \<Longrightarrow> runner_goal (?rs ! j) \<noteq> runner_goal (?rs ! k)" using separateD [OF i(5), of j k] k that by auto
  qed
  then have "list_all (runner_ok debug st) (?rs[k := r])" using m(2) k by (simp add: list_all_length nth_list_update)
  moreover have "set (?rs[k := r]) \<subseteq> insert r (set ?rs)" by (rule set_update_subset_insert)
  ultimately show ?thesis
    using m i(6) runner_careful [OF step ok i(1)] separate_update [OF i(5) k m(3)] by (auto simp: concurrent_inv_def)
qed

lemma receive_streams:
  "receive_new_goal reqs st = (p, st', rest) \<Longrightarrow> set rest \<subseteq> set reqs"
  by (induction reqs st rule: receive_new_goal.induct) (auto split: option.splits)

lemma receive_concurrent:
  assumes inv: "concurrent_inv wr debug A s"
  shows "concurrent_inv wr debug A (concurrent_receive wr debug now s)"
proof -
  let ?st = "cc_server s" and ?q = "cc_streams s"
  obtain p st rest where rc: "receive_new_goal (fs_goals ?q) ?st = (p, st, rest)" by (metis prod_cases3)
  have i: "action_reachable wr debug Ros2Use ?st" "requests_from A ?st ?q" "sent_ok debug A ?st" "list_all (runner_ok debug ?st) (cc_runners s)"
    using inv by (simp_all add: concurrent_inv_def)
  have q: "requests_from A ?st (?q\<lparr>fs_goals := rest\<rparr>)" using i(2) receive_streams [OF rc] by (auto simp: requests_from_def)
  show ?thesis
  proof (cases "\<exists>h. p = Ready (Ok h)")
    case False
    then have "st = ?st" "concurrent_receive wr debug now s = s\<lparr>cc_server := ?st, cc_streams := ?q\<lparr>fs_goals := rest\<rparr>\<rparr>"
      using receive_new_goal_effect [OF rc] rc by (auto simp: concurrent_receive_def Let_def split: poll.splits sum.splits)
    then show ?thesis using inv q by (simp add: concurrent_inv_def)
  next
    case True
    then obtain h where h: "p = Ready (Ok h)" by blast
    obtain pre req where "fs_goals ?q = pre @ Inr (ngh_req_id h, req) # rest" "sg_goal_id req = ngh_goal_id h"
      "map_of (goals ?st) (ngh_goal_id h) = None" "st = received (ngh_goal_id h) (sg_goal req) ?st"
      using receive_new_goal_prefix [OF rc [unfolded h], folded received_def] by blast
    then have rq: "Inr (ngh_req_id h, req) \<in> set (fs_goals ?q)" "sg_goal_id req = ngh_goal_id h" "map_of (goals ?st) (ngh_goal_id h) = None"
      "st = received (ngh_goal_id h) (sg_goal req) ?st"
      by simp_all
    obtain out st' where ex: "examine_goal wr debug now h st = (out, st')" by fastforce
    have e: "examined wr debug A (ngh_goal_id h) (sg_goal req) ?st out st'"
      using examine_examined [OF i(1) rq(3), of now "ngh_req_id h" "sg_goal req" out st'] ex rq(4) by (cases h) simp
    have gr: "goal_requested A (ngh_goal_id h) (sg_goal req)" using i(2) rq(1,2) by (cases req) (auto simp: goal_requested_def requests_from_def)
    have ord: "goal_requested A b m" if "order_of st' b = Some m" for b m
    proof -
      have "order_of ?st b = Some m \<or> b = ngh_goal_id h \<and> m = sg_goal req" using e that by (simp add: examined_def)
      then show ?thesis using gr i(2) by (auto simp: requests_from_def)
    qed
    have "result_requests st' = result_requests ?st" using e by (simp add: examined_def)
    then have req': "requests_from A st' (?q\<lparr>fs_goals := rest\<rparr>)" using q ord by (auto simp: requests_from_def)
    have ok: "list_all (runner_ok debug st') (cc_runners s)"
      using i(4) e runner_ok_survives [of debug ?st _ st'] by (auto simp: examined_def list_all_iff)
    have new: "runner_goal r \<noteq> Some (ngh_goal_id h)" if "r \<in> set (cc_runners s)" for r
      using i(4) that rq(3) by (cases "(debug, ?st, r)" rule: runner_ok.cases) (auto simp: list_all_iff goal_is_def statuses_def)
    have calm: "out \<noteq> GoalPanics" if "benign wr A"
    proof -
      have "0 \<le> sg_goal req" "\<forall>y. wr y" using that gr by (simp_all add: benign_def)
      then show ?thesis using e by (auto simp: examined_def)
    qed
    have "concurrent_receive wr debug now s = s\<lparr>cc_server := st', cc_streams := ?q\<lparr>fs_goals := rest\<rparr>,
        cc_main := (if out = GoalPanics then ConcurrentPanics else cc_main s),
        cc_runners := cc_runners s @ (case out of GoalFine k \<Rightarrow> [RunnerNew h k] | _ \<Rightarrow> [])\<rparr>"
      using rc h ex by (cases out) (simp_all add: concurrent_receive_def)
    then show ?thesis
      using inv e req' ok calm separate_snoc [of "cc_runners s" "RunnerNew h _"] new
      by (cases out) (auto simp: concurrent_inv_def examined_def)
  qed
qed
lemma concurrent_step_inv:
  assumes "concurrent_step wr debug ev s = Some s'" and "concurrent_inv wr debug A s" and "\<And>a. ev = ConcurrentArrives a \<Longrightarrow> a \<in> A"
  shows "concurrent_inv wr debug A s'"
proof (cases ev)
  case (ConcurrentArrives a)
  then show ?thesis using assms arrive_concurrent by (auto simp: concurrent_step_def split: if_splits)
next
  case ConcurrentStop
  then show ?thesis using assms by (auto simp: concurrent_step_def concurrent_inv_def split: if_splits)
next
  case (ConcurrentGoal now)
  then show ?thesis using assms receive_concurrent by (auto simp: concurrent_step_def split: if_splits)
next
  case (RunnerMoves k ev)
  then show ?thesis using assms runner_concurrent by (auto simp: concurrent_step_def split: if_splits)
qed

lemma concurrent_run_inv:
  assumes "concurrent_run wr debug evs s = Some s'" and "concurrent_inv wr debug A s" and "\<And>a. ConcurrentArrives a \<in> set evs \<Longrightarrow> a \<in> A"
  shows "concurrent_inv wr debug A s'"
  using assms
proof (induction evs arbitrary: s)
  case (Cons ev evs)
  then obtain s1 where s1: "concurrent_step wr debug ev s = Some s1" "concurrent_run wr debug evs s1 = Some s'"
    by (auto split: Option.bind_splits)
  have "concurrent_inv wr debug A s1" by (rule concurrent_step_inv [OF s1(1) Cons.prems(2)]) (simp add: Cons.prems(3))
  then show ?case using Cons.IH [OF s1(2)] Cons.prems(3) by simp
qed simp

definition arrivals :: "concurrent_event list \<Rightarrow> fib_arrival set" where
  "arrivals evs = {a. ConcurrentArrives a \<in> set evs}"

text \<open>C28. In every interleaving of the main loop, the tasks it has spawned and the arriving requests, the concurrent
  server uses the action server as the ROS 2 goal state machine asks, and no two tasks work on one goal. Every feedback
  it sends is for a goal that was requested with an order from 1 to 25, and is the Fibonacci numbers up to
  some i-th, with i from 2 to the order. Every result is sent to a client that asked for the result of
  such a goal: a success is the numbers up to the order, a canceled one those up to some i-th below it. The
  numbers are kept as \<open>i32\<close>: for order 1, which never ends by itself, i is not bounded by the order and from the 47th on the
  numbers of a release build have wrapped, while a debug build stops at the 46th. Nothing panics unless a write fails, a
  cancel request cannot be read, or a goal is requested with a negative order or order 1.\<close>

theorem concurrent_server_safe:
  assumes "concurrent_run wr debug evs concurrent_start = Some s"
  shows "action_reachable wr debug Ros2Use (cc_server s) \<and> separate (cc_runners s)
    \<and> (\<forall>out\<in>set (sent (cc_server s)). output_ok debug (arrivals evs) out)
    \<and> (benign wr (arrivals evs) \<longrightarrow> cc_main s \<noteq> ConcurrentPanics \<and> RunnerPanics \<notin> set (cc_runners s))"
  using concurrent_run_inv [OF assms start_concurrent, of "arrivals evs"]
  by (simp add: arrivals_def concurrent_inv_def sent_ok_def)
definition sample_events :: "concurrent_event list" where
  "sample_events =
     [ConcurrentArrives (GoalRequest (Inr (demo_id 1, \<lparr>sg_goal_id = 5, sg_goal = 2\<rparr>))),
      ConcurrentArrives (GoalRequest (Inr (demo_id 2, \<lparr>sg_goal_id = 6, sg_goal = 3\<rparr>))),
      ConcurrentGoal \<lparr>bt_nanos_since_epoch = 100\<rparr>, ConcurrentGoal \<lparr>bt_nanos_since_epoch = 101\<rparr>,
      RunnerMoves 1 (RunnerAccepts \<lparr>bt_nanos_since_epoch = 102\<rparr>), RunnerMoves 0 (RunnerAccepts \<lparr>bt_nanos_since_epoch = 103\<rparr>),
      RunnerMoves 1 RunnerStarts, RunnerMoves 0 RunnerStarts, RunnerMoves 0 RunnerTick, RunnerMoves 1 RunnerTick,
      ConcurrentArrives (ResultRequest (Inr (demo_id 3, 5))), RunnerMoves 0 RunnerResult]"

lemmas run_concurrent_simps = concurrent_start_def concurrent_step_def concurrent_receive_def action_runner_def no_requests_def action_server_new_def
  examine_goal_def get_new_goal_def flush_finished_goals_def accept_goal_def publish_statuses_def send_def set_status_def bt_modify_def
  work_tick_def push_next_def build_mode_def in_signed_def signed_result_def poll_result_def find_result_request_def finish_goal_def
  mark_goal_finished_def all_taken_def Let_def

lemma sample_run:
  "\<exists>s. concurrent_run all_taken True sample_events concurrent_start = Some s
     \<and> cc_runners s = [RunnerDone, RunnerWorks (ExecutingGoalHandle 6) 3 2 [0, 1, 1]]
     \<and> GetResultResponse (demo_id 3) Succeeded [0, 1, 1] \<in> set (sent (cc_server s))"
  unfolding sample_events_def by (simp add: run_concurrent_simps)

lemma sample_benign: "benign all_taken (arrivals sample_events)"
  by (auto simp: benign_def all_taken_def arrivals_def sample_events_def goal_requested_def)

theorem concurrent_server_safe_witness:
  "\<exists>s. concurrent_run all_taken True sample_events concurrent_start = Some s
     \<and> GetResultResponse (demo_id 3) Succeeded [0, 1, 1] \<in> set (sent (cc_server s))
     \<and> output_ok True (arrivals sample_events) (GetResultResponse (demo_id 3) Succeeded [0, 1, 1])
     \<and> separate (cc_runners s) \<and> cc_main s \<noteq> ConcurrentPanics"
proof -
  obtain s where s: "concurrent_run all_taken True sample_events concurrent_start = Some s"
    "GetResultResponse (demo_id 3) Succeeded [0, 1, 1] \<in> set (sent (cc_server s))"
    using sample_run by blast
  show ?thesis using concurrent_server_safe [OF s(1)] sample_benign s by blast
qed

end
