(* ===== verification/Fibonacci_Client.thy ===== *)
theory Fibonacci_Client
  imports Fibonacci_Server Dds_Endpoints Dds_Open
begin

text \<open>
  The example \<open>minimal_action_client\<close>, and the setting up of the three Fibonacci examples on the DDS
  node of \<open>Dds_Node\<close>. The main loop of the client is a step function: one step is one branch of a
  \<open>select!\<close> or the end of an await. What the action client returns is an argument of the step that
  receives it; the calls are those of \<open>Dds_Action\<close>. What is printed is a value of \<open>client_report\<close>.
\<close>

subsection \<open>Setting up\<close>

definition example_qos :: "'d dds_durations \<Rightarrow> policy_durability \<Rightarrow> int \<Rightarrow> 'd qos_policies" where
  "example_qos D dur depth =
     policy_builder_new\<lparr>qp_reliability := Some (PolicyReliable (dd_from_millis D 100)), qp_durability := Some dur, qp_history := Some (PolicyKeepLast depth)\<rparr>"

definition minimal_server_qos :: "'d dds_durations \<Rightarrow> 'd qos_policies action_qos" where
  "minimal_server_qos D =
     (let service_qos = example_qos D PolicyVolatile 1; feedback_qos = example_qos D PolicyVolatile 1; status_qos = example_qos D PolicyTransientLocal 1
      in \<lparr>aq_goal_service = service_qos, aq_result_service = service_qos, aq_cancel_service = service_qos, aq_feedback = feedback_qos, aq_status = status_qos\<rparr>)"

definition concurrent_server_qos :: "'d dds_durations \<Rightarrow> 'd qos_policies action_qos" where
  "concurrent_server_qos D =
     (let service_qos = example_qos D PolicyTransientLocal 4; publisher_qos = example_qos D PolicyTransientLocal 4
      in \<lparr>aq_goal_service = service_qos, aq_result_service = service_qos, aq_cancel_service = service_qos, aq_feedback = publisher_qos, aq_status = publisher_qos\<rparr>)"

text \<open>\<open>create_qos\<close> of the client.\<close>

definition client_qos :: "'d dds_durations \<Rightarrow> 'd qos_policies" where
  "client_qos D = example_qos D PolicyVolatile 1"

definition minimal_server_setup :: "'d dds_durations \<Rightarrow> ('d qos_policies, 't) dds_env \<Rightarrow> ('d qos_policies, 't, int list dds_action_server) dnode_op" where
  "minimal_server_setup D env =
     dnode_bind (dnode_unwrap (name_new ''/'' ''fibonacci'')) (\<lambda>action_name.
       dnode_expect (dds_create_action_server env Enhanced action_name (action_type_name_new ''example_interfaces'' ''Fibonacci'') (minimal_server_qos D)))"

definition concurrent_server_setup :: "'d dds_durations \<Rightarrow> ('d qos_policies, 't) dds_env \<Rightarrow>
    ('d qos_policies, 't, 'd qos_policies spinner \<times> int list dds_action_server) dnode_op" where
  "concurrent_server_setup D env =
     dnode_bind (dnode_expect (create_spinner env)) (\<lambda>sp.
     dnode_bind (dnode_unwrap (name_new ''/'' ''fibonacci'')) (\<lambda>action_name.
     dnode_bind (dnode_expect (dds_create_action_server env Enhanced action_name (action_type_name_new ''example_interfaces'' ''Fibonacci'')
         (concurrent_server_qos D))) (\<lambda>server.
       dnode_return (sp, server))))"

definition client_setup :: "'d dds_durations \<Rightarrow> ('d qos_policies, 't) dds_env \<Rightarrow>
    ('d qos_policies, 't, 'd qos_policies spinner \<times> dds_action_client \<times> guid \<times> guid) dnode_op" where
  "client_setup D env =
     dnode_bind (dnode_expect (create_spinner env)) (\<lambda>sp.
     dnode_bind (dnode_unwrap (name_new ''/'' ''fibonacci'')) (\<lambda>action_name.
     (let service_qos = client_qos D
      in dnode_bind (dnode_expect (dds_create_action_client env Enhanced action_name (action_type_name_new ''example_interfaces'' ''Fibonacci'')
           \<lparr>aq_goal_service = service_qos, aq_result_service = service_qos, aq_cancel_service = service_qos, aq_feedback = service_qos,
            aq_status = service_qos\<rparr>)) (\<lambda>client.
           dnode_return (sp, client)))))"

text \<open>\<open>Context::new\<close> and \<open>new_node\<close>, both unwrapped, and the setting up in that node.\<close>

definition example_node :: "string set \<Rightarrow> 'd participant_env \<Rightarrow> ('d qos_policies, 't) dds_env \<Rightarrow> string \<Rightarrow> node_options \<Rightarrow>
    ('d dds_durations \<Rightarrow> ('d qos_policies, 't) dds_env \<Rightarrow> ('d qos_policies, 't, 'a) dnode_op) \<Rightarrow>
    node_error + ('a \<times> ('d qos_policies, 't) dds_node)" where
  "example_node features P env base opts setup =
     (case dds_context_new features P of
        Inl _ \<Rightarrow> Err NodePanic
      | Inr ctx \<Rightarrow>
          (let D = pa_durations P; env = node_env D ctx env
           in case node_name_new ''/rustdds'' base of
                Inl _ \<Rightarrow> Err NodePanic
              | Inr name \<Rightarrow>
                  (case node_new env name opts (oc_context ctx) [] of
                     (Inl _, _) \<Rightarrow> Err NodePanic
                   | (Inr node, _) \<Rightarrow> (case setup D env node of (Inl e, _) \<Rightarrow> Err e | (Inr x, node') \<Rightarrow> Ok (x, node')))))"

definition minimal_server_main :: "string set \<Rightarrow> 'd participant_env \<Rightarrow> ('d qos_policies, 't) dds_env \<Rightarrow>
    node_error + (int list dds_action_server \<times> ('d qos_policies, 't) dds_node)" where
  "minimal_server_main features P env =
     example_node features P env ''minimal_action_server'' (options_enable_rosout True node_options_new) minimal_server_setup"

definition concurrent_server_main :: "string set \<Rightarrow> 'd participant_env \<Rightarrow> ('d qos_policies, 't) dds_env \<Rightarrow>
    node_error + (('d qos_policies spinner \<times> int list dds_action_server) \<times> ('d qos_policies, 't) dds_node)" where
  "concurrent_server_main features P env =
     example_node features P env ''minimal_action_server'' (options_enable_rosout True node_options_new) concurrent_server_setup"

definition client_main :: "string set \<Rightarrow> 'd participant_env \<Rightarrow> ('d qos_policies, 't) dds_env \<Rightarrow>
    node_error + (('d qos_policies spinner \<times> dds_action_client \<times> guid \<times> guid) \<times> ('d qos_policies, 't) dds_node)" where
  "client_main features P env = example_node features P env ''fibonacci_client'' node_options_new client_setup"
subsection \<open>The examples meet\<close>

definition fibonacci_name :: name where
  "fibonacci_name = absolute_name [] ''fibonacci''"

lemma fibonacci_named: "name_new ''/'' ''fibonacci'' = Ok fibonacci_name"
  unfolding fibonacci_name_def by code_simp

lemma bind_expect_Ok:
  assumes "dnode_bind (dnode_expect m) f n = (Ok x, n')"
  shows "\<exists>y n1. m n = (Ok y, n1) \<and> f y n1 = (Ok x, n')"
proof -
  obtain r n1 where "m n = (r, n1)" by fastforce
  then show ?thesis using assms by (cases r) (simp_all add: dnode_bind_def dnode_expect_def)
qed

abbreviation fibonacci_type :: action_type_name where
  "fibonacci_type \<equiv> action_type_name_new ''example_interfaces'' ''Fibonacci''"

text \<open>The topics of the action, as DDS names and types.\<close>

lemma fibonacci_topics:
  "to_server nm fibonacci_name fibonacci_type =
     [(''rq/fibonacci/_action/send_goalRequest'', ''example_interfaces::action::dds_::Fibonacci_SendGoal_Request_''),
      (''rq/fibonacci/_action/cancel_goalRequest'', ''action_msgs::srv::dds_::CancelGoal_Request_''),
      (''rq/fibonacci/_action/get_resultRequest'', ''example_interfaces::action::dds_::Fibonacci_GetResult_Request_'')]"
  by (simp add: request_key_of_def to_server_def action_services_def fibonacci_name_def absolute_name_def to_dds_name_def
      name_push_def ends_with_char_def dds_request_type_def slash_to_colons_def
      message_type_name_new_def service_type_name_new_def action_type_name_new_def service_type_name_new_prefix_def replace_char_Cons Let_def)

text \<open>Both servers read the topics the client writes and write those it reads.\<close>

lemma examples_meet:
  assumes "client_setup D env a = (Ok c, a')"
    and "minimal_server_setup D' env' b = (Ok s, b') \<or> concurrent_server_setup D' env' b = (Ok s', b')"
  shows "\<exists>pre pre' cs ss. dn_calls a' = pre @ cs \<and> dn_calls b' = pre' @ ss \<and> written_topics cs = read_topics ss \<and> read_topics cs = written_topics ss
    \<and> length (read_topics ss) = 3 \<and> length (written_topics ss) = 5"
proof -
  obtain q n1 x where c: "dds_create_action_client env Enhanced fibonacci_name fibonacci_type q n1 = (Ok x, a')"
    using assms(1) unfolding client_setup_def Let_def unwrapped [OF fibonacci_named]
    by (auto dest!: bind_expect_Ok simp: dnode_return_def)
  obtain q' n2 y where s: "dds_create_action_server env' Enhanced fibonacci_name fibonacci_type q' n2 = (Ok (y :: int list dds_action_server), b')"
    using assms(2) unfolding minimal_server_setup_def concurrent_server_setup_def unwrapped [OF fibonacci_named]
    by (auto dest!: bind_expect_Ok simp: dnode_return_def expect_Ok)
  obtain cs where cs: "dn_calls a' = dn_calls n1 @ cs" "written_topics cs = to_server (dn_name n1) fibonacci_name fibonacci_type"
    "read_topics cs = to_client (dn_name n1) fibonacci_name fibonacci_type"
    using makesD [OF makes_action_client c] by blast
  obtain ss where ss: "dn_calls b' = dn_calls n2 @ ss" "written_topics ss = to_client (dn_name n2) fibonacci_name fibonacci_type"
    "read_topics ss = to_server (dn_name n2) fibonacci_name fibonacci_type"
    using makesD [OF makes_action_server s] by blast
  have "absolute fibonacci_name" by (simp add: fibonacci_name_def absolute_name_def)
  moreover have "length (to_client nm fibonacci_name fibonacci_type) = 5" for nm
    by (simp add: to_client_def action_services_def action_topics_def Let_def)
  moreover have "length (to_server nm fibonacci_name fibonacci_type) = 3" for nm by (simp add: fibonacci_topics)
  ultimately show ?thesis
    using cs ss action_topics_same [of fibonacci_name "dn_name n1" "dn_name n2" fibonacci_type]
    by (intro exI [of _ "dn_calls n1"] exI [of _ "dn_calls n2"] exI [of _ cs] exI [of _ ss]) simp
qed

text \<open>The durability the concurrent server asks of the requests is not the one the client offers.\<close>

lemma concurrent_durability:
  "qp_durability (aq_goal_service (concurrent_server_qos D)) = Some PolicyTransientLocal
   \<and> qp_durability (client_qos D) = Some PolicyVolatile \<and> qp_durability (aq_goal_service (minimal_server_qos D)) = Some PolicyVolatile"
  by (simp add: concurrent_server_qos_def minimal_server_qos_def client_qos_def example_qos_def Let_def)

subsection \<open>The loop of the client\<close>

datatype client_report =
    SendingGoal int
  | NoGoalResponse
  | GoalAnswer goal_id send_goal_response
  | GoalSendError call_service_error
  | GoalNotAccepted
  | GoalTimeout goal_id
  | ActionResult goal_status_enum "int list"
  | ActionResultError call_service_error
  | ActionFeedback "read_error + int list"
  | OurStatus goal_status_enum
  | StatusMissing nat
  | StatusError read_error

text \<open>What the client asks of the action client.\<close>

datatype client_request = SendGoal int | RequestActionResult goal_id

datatype client_phase =
    ClientIdle
  | AwaitGoalResponse
  | AwaitActionResult goal_id
  | Sulking
  | ClientDone

record fib_client =
  fc_request_generator :: int
  fc_run :: bool
  fc_phase :: client_phase
  fc_reports :: "client_report list"
  fc_requests :: "client_request list"

definition client_start :: fib_client where
  "client_start = \<lparr>fc_request_generator = 2, fc_run = True, fc_phase = ClientIdle, fc_reports = [], fc_requests = []\<rparr>"

definition report_line :: "client_report \<Rightarrow> fib_client \<Rightarrow> fib_client" where
  "report_line r c = c\<lparr>fc_reports := fc_reports c @ [r]\<rparr>"

text \<open>The head of the loop, \<open>while run\<close>.\<close>

definition client_loop :: "fib_client \<Rightarrow> fib_client" where
  "client_loop c = c\<lparr>fc_phase := if fc_run c then ClientIdle else ClientDone\<rparr>"

definition client_tick :: "fib_client \<Rightarrow> fib_client" where
  "client_tick c =
     (let order = (fc_request_generator c + 2) mod 10
      in (report_line (SendingGoal order) c)\<lparr>fc_request_generator := order, fc_phase := AwaitGoalResponse, fc_requests := fc_requests c @ [SendGoal order]\<rparr>)"

definition goal_answered :: "call_service_error + (goal_id \<times> send_goal_response) \<Rightarrow> fib_client \<Rightarrow> fib_client" where
  "goal_answered r c =
     (case r of
        Inl e \<Rightarrow> client_loop (report_line (GoalSendError e) c)
      | Inr (goal_id, goal_response) \<Rightarrow>
          (let c = report_line (GoalAnswer goal_id goal_response) c
           in if sr_accepted goal_response then c\<lparr>fc_phase := AwaitActionResult goal_id, fc_requests := fc_requests c @ [RequestActionResult goal_id]\<rparr>
              else (report_line GoalNotAccepted c)\<lparr>fc_phase := Sulking\<rparr>))"

definition status_report :: "goal_id \<Rightarrow> read_error + goal_status list \<Rightarrow> client_report" where
  "status_report goal_id r =
     (case r of
        Inl e \<Rightarrow> StatusError e
      | Inr statuses_sent \<Rightarrow>
          (case find (\<lambda>gs. gi_goal_id (gs_goal_info gs) = goal_id) statuses_sent of
             Some gs \<Rightarrow> OurStatus (gs_status gs)
           | None \<Rightarrow> StatusMissing (length statuses_sent)))"

datatype client_event =
    ClientStop
  | ClientTick
  | GoalReplied "call_service_error + (goal_id \<times> send_goal_response)"
  | GoalResponseTimeout
  | GoalFinishTimeout
  | ResultReplied "call_service_error + (goal_status_enum \<times> int list)"
  | FeedbackArrives "read_error + int list"
  | StatusArrives "read_error + goal_status list"
  | SulkOver

definition client_step :: "client_event \<Rightarrow> fib_client \<Rightarrow> fib_client option" where
  "client_step ev c =
     (case ev of
        ClientStop \<Rightarrow>
          (case fc_phase c of
             ClientIdle \<Rightarrow> Some (client_loop (c\<lparr>fc_run := False\<rparr>))
           | AwaitActionResult _ \<Rightarrow> Some (client_loop (c\<lparr>fc_run := False\<rparr>))
           | _ \<Rightarrow> None)
      | ClientTick \<Rightarrow> if fc_phase c = ClientIdle then Some (client_tick c) else None
      | GoalReplied r \<Rightarrow> if fc_phase c = AwaitGoalResponse then Some (goal_answered r c) else None
      | GoalResponseTimeout \<Rightarrow>
          if fc_phase c = AwaitGoalResponse then Some (goal_answered (Inl (CallWriteError WriteOther)) (report_line NoGoalResponse c)) else None
      | GoalFinishTimeout \<Rightarrow>
          (case fc_phase c of AwaitActionResult goal_id \<Rightarrow> Some (client_loop (report_line (GoalTimeout goal_id) c)) | _ \<Rightarrow> None)
      | ResultReplied r \<Rightarrow>
          (case fc_phase c of
             AwaitActionResult goal_id \<Rightarrow>
               Some (client_loop (report_line (case r of Inl e \<Rightarrow> ActionResultError e | Inr (goal_status, result) \<Rightarrow> ActionResult goal_status result) c))
           | _ \<Rightarrow> None)
      | FeedbackArrives r \<Rightarrow> (case fc_phase c of AwaitActionResult goal_id \<Rightarrow> Some (report_line (ActionFeedback r) c) | _ \<Rightarrow> None)
      | StatusArrives r \<Rightarrow> (case fc_phase c of AwaitActionResult goal_id \<Rightarrow> Some (report_line (status_report goal_id r) c) | _ \<Rightarrow> None)
      | SulkOver \<Rightarrow> if fc_phase c = Sulking then Some (client_loop c) else None)"

fun client_run :: "client_event list \<Rightarrow> fib_client \<Rightarrow> fib_client option" where
  "client_run [] c = Some c"
| "client_run (ev # evs) c = Option.bind (client_step ev c) (client_run evs)"
subsection \<open>What the client asks for\<close>

fun sent_order :: "client_request \<Rightarrow> int option" where
  "sent_order (SendGoal order) = Some order"
| "sent_order (RequestActionResult gid) = None"

definition sent_orders :: "fib_client \<Rightarrow> int list" where
  "sent_orders c = List.map_filter sent_order (fc_requests c)"

lemma sent_orders_simps:
  "fc_requests c' = fc_requests c @ [SendGoal n] \<Longrightarrow> sent_orders c' = sent_orders c @ [n]"
  "fc_requests c' = fc_requests c @ [RequestActionResult gid] \<Longrightarrow> sent_orders c' = sent_orders c"
  "fc_requests c' = fc_requests c \<Longrightarrow> sent_orders c' = sent_orders c"
  by (simp_all add: sent_orders_def map_filter_def)

lemma client_changes [simp]:
  "fc_requests (client_loop c) = fc_requests c" "fc_request_generator (client_loop c) = fc_request_generator c"
  "fc_reports (client_loop c) = fc_reports c"
  "fc_requests (report_line r c) = fc_requests c" "fc_request_generator (report_line r c) = fc_request_generator c"
  "fc_reports (report_line r c) = fc_reports c @ [r]"
  by (simp_all add: client_loop_def report_line_def)

text \<open>A step sends the next order, asks for the result of a goal it has just seen accepted, or asks for nothing.\<close>

lemma client_step_requests:
  assumes "client_step ev c = Some c'"
  shows "fc_requests c' = fc_requests c @ [SendGoal ((fc_request_generator c + 2) mod 10)] \<and> fc_request_generator c' = (fc_request_generator c + 2) mod 10
      \<and> set (fc_reports c) \<subseteq> set (fc_reports c')
    \<or> fc_request_generator c' = fc_request_generator c \<and> set (fc_reports c) \<subseteq> set (fc_reports c')
      \<and> (fc_requests c' = fc_requests c \<or> (\<exists>gid resp. fc_requests c' = fc_requests c @ [RequestActionResult gid]
            \<and> sr_accepted resp \<and> GoalAnswer gid resp \<in> set (fc_reports c')))"
proof -
  have answered: "fc_request_generator (goal_answered r c) = fc_request_generator c \<and> set (fc_reports c) \<subseteq> set (fc_reports (goal_answered r c))
      \<and> (fc_requests (goal_answered r c) = fc_requests c \<or> (\<exists>gid resp. fc_requests (goal_answered r c) = fc_requests c @ [RequestActionResult gid]
            \<and> sr_accepted resp \<and> GoalAnswer gid resp \<in> set (fc_reports (goal_answered r c))))" for r c
    by (auto simp: goal_answered_def Let_def split: sum.splits)
  show ?thesis
  proof (cases ev)
    case GoalResponseTimeout
    then show ?thesis using assms answered [of "Inl (CallWriteError WriteOther)" "report_line NoGoalResponse c"]
      by (auto simp: client_step_def split: if_splits)
  next
    case (GoalReplied r)
    then show ?thesis using assms answered [of r c] by (auto simp: client_step_def split: if_splits)
  qed (use assms in \<open>auto simp: client_step_def client_tick_def Let_def split: if_splits client_phase.splits\<close>)
qed

definition results_accepted :: "fib_client \<Rightarrow> bool" where
  "results_accepted c \<longleftrightarrow> (\<forall>gid. RequestActionResult gid \<in> set (fc_requests c) \<longrightarrow> (\<exists>resp. sr_accepted resp \<and> GoalAnswer gid resp \<in> set (fc_reports c)))"

definition orders_in_turn :: "fib_client \<Rightarrow> bool" where
  "orders_in_turn c \<longleftrightarrow> (\<exists>m. sent_orders c = map (\<lambda>k. (2 * int k + 4) mod 10) [0..<m] \<and> fc_request_generator c = (2 * int m + 2) mod 10)"

lemma results_accepted_step:
  assumes "client_step ev c = Some c'" and "results_accepted c"
  shows "results_accepted c'"
  unfolding results_accepted_def
proof (intro allI impI)
  fix gid assume a: "RequestActionResult gid \<in> set (fc_requests c')"
  have sub: "set (fc_reports c) \<subseteq> set (fc_reports c')" using client_step_requests [OF assms(1)] by blast
  have "RequestActionResult gid \<in> set (fc_requests c) \<or> (\<exists>resp. sr_accepted resp \<and> GoalAnswer gid resp \<in> set (fc_reports c'))"
    using client_step_requests [OF assms(1)] a by auto
  then show "\<exists>resp. sr_accepted resp \<and> GoalAnswer gid resp \<in> set (fc_reports c')"
    using assms(2) sub unfolding results_accepted_def by blast
qed

lemma orders_in_turn_step:
  assumes "client_step ev c = Some c'" and "orders_in_turn c"
  shows "orders_in_turn c'"
proof -
  obtain m where m: "sent_orders c = map (\<lambda>k. (2 * int k + 4) mod 10) [0..<m]" "fc_request_generator c = (2 * int m + 2) mod 10"
    using assms(2) by (auto simp: orders_in_turn_def)
  consider "fc_requests c' = fc_requests c @ [SendGoal ((fc_request_generator c + 2) mod 10)]" "fc_request_generator c' = (fc_request_generator c + 2) mod 10"
    | "sent_orders c' = sent_orders c" "fc_request_generator c' = fc_request_generator c"
    using client_step_requests [OF assms(1)] sent_orders_simps(2,3) by blast
  then show ?thesis
  proof cases
    case 1
    have "(fc_request_generator c + 2) mod 10 = (2 * int m + 4) mod 10" unfolding m(2) by presburger
    then show ?thesis unfolding orders_in_turn_def using m(1) 1 sent_orders_simps(1) [OF 1(1)]
      by (intro exI [of _ "Suc m"]) (simp add: algebra_simps)
  next
    case 2
    then show ?thesis using m by (auto simp: orders_in_turn_def)
  qed
qed

lemma client_run_keeps:
  assumes "client_run evs c = Some c'" and "\<And>ev c c'. client_step ev c = Some c' \<Longrightarrow> I c \<Longrightarrow> I c'" and "I c"
  shows "I c'"
  using assms(1,3)
proof (induction evs arbitrary: c)
  case (Cons ev evs)
  then show ?case using assms(2) by (cases "client_step ev c") auto
qed simp

text \<open>The orders are 4, 6, 8, 0, 2 and so on in turn, and results are asked for accepted goals only.\<close>

lemma client_orders:
  assumes "client_run evs client_start = Some c"
  shows "orders_in_turn c \<and> results_accepted c"
proof -
  have "orders_in_turn client_start" "results_accepted client_start"
    by (auto simp: orders_in_turn_def results_accepted_def client_start_def sent_orders_def map_filter_def intro!: exI [of _ 0])
  then show ?thesis
    using client_run_keeps [where I = orders_in_turn, OF assms] client_run_keeps [where I = results_accepted, OF assms]
      orders_in_turn_step results_accepted_step by blast
qed

text \<open>An order of the client is one the servers serve, or 0, which they refuse.\<close>

lemma client_orders_served:
  assumes "client_run evs client_start = Some c" and "n \<in> set (sent_orders c)"
  shows "n = 0 \<or> 2 \<le> n \<and> n \<le> 8"
proof -
  obtain m where "sent_orders c = map (\<lambda>k. (2 * int k + 4) mod 10) [0..<m]"
    using client_orders [OF assms(1)] by (auto simp: orders_in_turn_def)
  then obtain k where "n = (2 * int k + 4) mod 10" using assms(2) by auto
  then show ?thesis by presburger
qed

end
