(* ===== verification/Add_Two_Ints.thy ===== *)
theory Add_Two_Ints
  imports Fibonacci_Client Dds_Action_Calls
begin

text \<open>
  The four examples of the service \<open>add_two_ints\<close> (\<open>ros2_service_server\<close>, \<open>async_service_server\<close>,
  \<open>ros2_service_client\<close>, \<open>async_service_client\<close>): the entities they create and their loops, on the services of
  \<open>Dds_Service\<close>. An event of mio, a tick, the time and what a reader holds are arguments of the steps.
\<close>

subsection \<open>The servers\<close>

record add_request =
  ai_a :: int
  ai_b :: int

record add_response = ai_sum :: int

definition add_server_qos :: "'d dds_durations \<Rightarrow> 'd qos_policies" where
  "add_server_qos D =
     policy_builder_new
       \<lparr>qp_history := Some (PolicyKeepLast 10), qp_reliability := Some (PolicyReliable (dd_from_millis D 100)),
        qp_durability := Some PolicyVolatile, qp_deadline := Some (dd_infinite D), qp_lifespan := Some (dd_infinite D),
        qp_liveliness := Some (PolicyAutomatic (dd_infinite D))\<rparr>"

definition add_server_setup :: "'d dds_durations \<Rightarrow> ('d qos_policies, 't) dds_env \<Rightarrow> ('d qos_policies, 't, dds_server) dnode_op" where
  "add_server_setup D env =
     (let service_qos = add_server_qos D
      in dnode_bind (dnode_unwrap (name_new ''/'' ''add_two_ints'')) (\<lambda>service_name.
           dnode_expect (dds_create_server env Enhanced service_name (service_type_name_new ''example_interfaces'' ''AddTwoInts'') service_qos service_qos)))"

definition add_server_main :: "string set \<Rightarrow> 'd participant_env \<Rightarrow> ('d qos_policies, 't) dds_env \<Rightarrow>
    node_error + (dds_server \<times> ('d qos_policies, 't) dds_node)" where
  "add_server_main features P env =
     example_node features P env ''rustdds_server'' (options_enable_rosout True node_options_new) add_server_setup"

text \<open>What one event of the synchronous server does: it takes one request. A panic is \<open>None\<close>.\<close>

definition add_server_event :: "dds_lib \<Rightarrow> add_request dds_cdr \<Rightarrow> add_response dds_cdr \<Rightarrow> (dds_sample \<Rightarrow> sample_identity option) \<Rightarrow> bool \<Rightarrow>
    wrapper dds_reader \<times> dds_server \<Rightarrow> (wrapper dds_reader \<times> dds_server) option" where
  "add_server_event l qcdr rcdr write debug qs =
     (let (q, server) = qs; (taken, q) = reader_take q
      in case receive_request l qcdr server taken of
           Inl e \<Rightarrow> Some (q, server)
         | Inr None \<Rightarrow> Some (q, server)
         | Inr (Some (req_id, request)) \<Rightarrow>
             map_option (\<lambda>sum. (q, snd (send_response l rcdr write req_id \<lparr>ai_sum = sum\<rparr> server)))
               (signed_result (build_mode debug) 64 (ai_a request + ai_b request)))"

fun add_server_loop :: "dds_lib \<Rightarrow> add_request dds_cdr \<Rightarrow> add_response dds_cdr \<Rightarrow> (dds_sample \<Rightarrow> sample_identity option) \<Rightarrow> bool \<Rightarrow>
    nat \<Rightarrow> wrapper dds_reader \<times> dds_server \<Rightarrow> (wrapper dds_reader \<times> dds_server) option" where
  "add_server_loop l qcdr rcdr write debug 0 qs = Some qs"
| "add_server_loop l qcdr rcdr write debug (Suc events) qs =
     Option.bind (add_server_event l qcdr rcdr write debug qs) (add_server_loop l qcdr rcdr write debug events)"

text \<open>The asynchronous server: the closure of its stream, and the stream over what has arrived.\<close>

definition add_stream_item :: "dds_lib \<Rightarrow> add_response dds_cdr \<Rightarrow> (dds_sample \<Rightarrow> sample_identity option) \<Rightarrow> bool \<Rightarrow>
    read_error + (rmw_request_id \<times> add_request) \<Rightarrow> dds_server \<Rightarrow> dds_server option" where
  "add_stream_item l rcdr write debug r server =
     (case r of
        Inl e \<Rightarrow> Some server
      | Inr (req_id, req) \<Rightarrow>
          map_option (\<lambda>sum. snd (dds_async_send_response l rcdr write req_id \<lparr>ai_sum = sum\<rparr> server))
            (signed_result (build_mode debug) 64 (ai_a req + ai_b req)))"

fun add_stream :: "dds_lib \<Rightarrow> add_response dds_cdr \<Rightarrow> (dds_sample \<Rightarrow> sample_identity option) \<Rightarrow> bool \<Rightarrow>
    (read_error + (rmw_request_id \<times> add_request)) list \<Rightarrow> dds_server \<Rightarrow> dds_server option" where
  "add_stream l rcdr write debug [] server = Some server"
| "add_stream l rcdr write debug (r # rs) server =
     Option.bind (add_stream_item l rcdr write debug r server) (add_stream l rcdr write debug rs)"

definition async_add_server :: "dds_lib \<Rightarrow> add_request dds_cdr \<Rightarrow> add_response dds_cdr \<Rightarrow> (dds_sample \<Rightarrow> sample_identity option) \<Rightarrow> bool \<Rightarrow>
    wrapper dds_reader \<Rightarrow> dds_server \<Rightarrow> dds_server option" where
  "async_add_server l qcdr rcdr write debug q server = add_stream l rcdr write debug (receive_request_stream l qcdr server q) server"

subsection \<open>The clients\<close>

definition add_client_qos :: "'d dds_durations \<Rightarrow> 'd qos_policies" where
  "add_client_qos D =
     policy_builder_new\<lparr>qp_reliability := Some (PolicyReliable (dd_from_millis D 100)), qp_history := Some (PolicyKeepLast 1)\<rparr>"

definition add_client_setup :: "'d dds_durations \<Rightarrow> ('d qos_policies, 't) dds_env \<Rightarrow> ('d qos_policies, 't, dds_client) dnode_op" where
  "add_client_setup D env =
     (let service_qos = add_client_qos D
      in dnode_bind (dnode_unwrap (name_new ''/'' ''add_two_ints'')) (\<lambda>service_name.
           dnode_expect (dds_create_client env Enhanced service_name (service_type_name_new ''example_interfaces'' ''AddTwoInts'') service_qos service_qos)))"

definition async_add_client_setup :: "'d dds_durations \<Rightarrow> ('d qos_policies, 't) dds_env \<Rightarrow>
    ('d qos_policies, 't, dds_client \<times> 'd qos_policies spinner) dnode_op" where
  "async_add_client_setup D env =
     dnode_bind (add_client_setup D env) (\<lambda>client.
     dnode_bind (dnode_expect (create_spinner env)) (\<lambda>sp.
       dnode_return (client, sp)))"

definition add_client_main :: "string set \<Rightarrow> 'd participant_env \<Rightarrow> ('d qos_policies, 't) dds_env \<Rightarrow>
    node_error + (dds_client \<times> ('d qos_policies, 't) dds_node)" where
  "add_client_main features P env =
     example_node features P env ''rustdds_client'' (options_enable_rosout True node_options_new) add_client_setup"

text \<open>What the clients print of requests and responses.\<close>

datatype add_report =
    RequestSent int int rmw_request_id
  | RequestError write_error
  | ResponseReceived rmw_request_id add_response
  | ResponseError call_service_error
  | WaitingForServer

text \<open>\<open>while let Ok(Some((id, response))) = client.receive_response()\<close>.\<close>

function drain_responses :: "dds_lib \<Rightarrow> add_response dds_cdr \<Rightarrow> dds_client \<Rightarrow> wrapper dds_reader \<Rightarrow> (rmw_request_id \<times> add_response) list \<times> wrapper dds_reader" where
  "drain_responses l cdr c q =
     (case receive_response l cdr c (fst (reader_take q)) of
        Inr (Some r) \<Rightarrow> (let (rs, q') = drain_responses l cdr c (snd (reader_take q)) in (r # rs, q'))
      | _ \<Rightarrow> ([], snd (reader_take q)))"
  by pat_completeness auto
termination
  by (relation "measure (\<lambda>(l, cdr, c, q). length q)") (auto dest: reader_take_response)

declare drain_responses.simps [simp del]

record add_client =
  ad_client :: dds_client
  ad_reader :: "wrapper dds_reader"
  ad_request_generator :: int
  ad_request_sent_at :: nat
  ad_reports :: "add_report list"

text \<open>\<open>request_generator += 3\<close> and the two numbers of the next request; an overflow in a debug build is \<open>None\<close>.\<close>

definition next_request :: "bool \<Rightarrow> int \<Rightarrow> (int \<times> add_request) option" where
  "next_request debug request_generator =
     map_option (\<lambda>g. (g, \<lparr>ai_a = trunc_rem g 5, ai_b = trunc_rem g 7\<rparr>)) (signed_result (build_mode debug) 64 (request_generator + 3))"

definition add_client_send :: "dds_lib \<Rightarrow> add_request dds_cdr \<Rightarrow> (dds_sample \<Rightarrow> sample_identity option) \<Rightarrow> bool \<Rightarrow> add_client \<Rightarrow> add_client option" where
  "add_client_send l qcdr write debug s =
     map_option (\<lambda>(g, request).
       (let (r, c) = send_request l qcdr write request (ad_client s)
        in s\<lparr>ad_client := c, ad_request_generator := g,
             ad_reports := ad_reports s @ [case r of Inr req_id \<Rightarrow> RequestSent (ai_a request) (ai_b request) req_id | Inl e \<Rightarrow> RequestError e]\<rparr>))
       (next_request debug (ad_request_generator s))"
definition add_client_iteration :: "dds_lib \<Rightarrow> add_request dds_cdr \<Rightarrow> add_response dds_cdr \<Rightarrow> (dds_sample \<Rightarrow> sample_identity option) \<Rightarrow> bool \<Rightarrow>
    bool \<Rightarrow> nat \<Rightarrow> add_client \<Rightarrow> add_client option" where
  "add_client_iteration l qcdr rcdr write debug response_event now s =
     (let s = (if response_event
               then (let (rs, q) = drain_responses l rcdr (ad_client s) (ad_reader s)
                     in s\<lparr>ad_reader := q, ad_reports := ad_reports s @ map (\<lambda>(req_id, response). ResponseReceived req_id response) rs\<rparr>)
               else s)
      in if 2000000000 < now - ad_request_sent_at s
         then add_client_send l qcdr write debug (s\<lparr>ad_request_sent_at := now\<rparr>)
         else Some s)"

text \<open>The asynchronous client. \<open>AddTick\<close> says whether the server was there at the first poll of
  \<open>wait_for_service\<close>: the timer beside it is not awaited, so a later poll does not come.\<close>

datatype async_add_phase = AddIdle | AddAwaits rmw_request_id | AddDone | AddPanics

record async_add_client =
  aa_client :: dds_client
  aa_items :: "(read_error + wrapper cache_change) option list"
  aa_request_generator :: int
  aa_phase :: async_add_phase
  aa_reports :: "add_report list"

datatype async_add_event =
    AddStop
  | AddTick bool
  | AddArrives "(read_error + wrapper cache_change) option"
  | AddPoll
  | AddTimeout

definition aa_say :: "add_report \<Rightarrow> async_add_client \<Rightarrow> async_add_client" where
  "aa_say r s = s\<lparr>aa_reports := aa_reports s @ [r]\<rparr>"

definition async_add_tick :: "dds_lib \<Rightarrow> add_request dds_cdr \<Rightarrow> (dds_sample \<Rightarrow> sample_identity option) \<Rightarrow> bool \<Rightarrow> bool \<Rightarrow> async_add_client \<Rightarrow> async_add_client" where
  "async_add_tick l qcdr write debug service_is_ready s =
     (if service_is_ready
      then (case next_request debug (aa_request_generator s) of
              None \<Rightarrow> s\<lparr>aa_phase := AddPanics\<rparr>
            | Some (g, request) \<Rightarrow>
                (case async_send_request l qcdr write request (aa_client s) of
                   (Inl e, c) \<Rightarrow> aa_say (RequestError e) (s\<lparr>aa_client := c, aa_request_generator := g\<rparr>)
                 | (Inr req_id, c) \<Rightarrow>
                     aa_say (RequestSent (ai_a request) (ai_b request) req_id)
                       (s\<lparr>aa_client := c, aa_request_generator := g, aa_phase := AddAwaits req_id\<rparr>)))
      else aa_say WaitingForServer s)"

definition async_add_step :: "dds_lib \<Rightarrow> add_request dds_cdr \<Rightarrow> add_response dds_cdr \<Rightarrow> (dds_sample \<Rightarrow> sample_identity option) \<Rightarrow> bool \<Rightarrow>
    async_add_event \<Rightarrow> async_add_client \<Rightarrow> async_add_client option" where
  "async_add_step l qcdr rcdr write debug ev s =
     (case ev of
        AddStop \<Rightarrow> if aa_phase s = AddIdle then Some (s\<lparr>aa_phase := AddDone\<rparr>) else None
      | AddTick service_is_ready \<Rightarrow> if aa_phase s = AddIdle then Some (async_add_tick l qcdr write debug service_is_ready s) else None
      | AddArrives item \<Rightarrow> Some (s\<lparr>aa_items := aa_items s @ [item]\<rparr>)
      | AddPoll \<Rightarrow>
          (case aa_phase s of
             AddAwaits req_id \<Rightarrow>
               (let (p, rest) = async_receive_response l rcdr (aa_client s) req_id (aa_items s); s = s\<lparr>aa_items := rest\<rparr>
                in Some (case p of
                           Pending \<Rightarrow> s
                         | Ready (Inl e) \<Rightarrow> aa_say (ResponseError (CallReadError e)) (s\<lparr>aa_phase := AddIdle\<rparr>)
                         | Ready (Inr response) \<Rightarrow> aa_say (ResponseReceived req_id response) (s\<lparr>aa_phase := AddIdle\<rparr>)))
           | _ \<Rightarrow> None)
      | AddTimeout \<Rightarrow>
          (case aa_phase s of
             AddAwaits req_id \<Rightarrow> Some (aa_say (ResponseError (CallWriteError WriteOther)) (s\<lparr>aa_phase := AddIdle\<rparr>))
           | _ \<Rightarrow> None))"

subsection \<open>The two servers agree\<close>

text \<open>An event of the synchronous server does what the stream of the asynchronous one does with the next item.\<close>

lemma response_mapping [simp]: "dv_service_mapping (snd (send_response l cdr write i x s)) = dv_service_mapping s"
  by (auto simp: send_response_def Let_def split: sum.splits option.splits)

lemma async_response_same: "dds_async_send_response l cdr write i x s = send_response l cdr write i x s"
  by (simp add: dds_async_send_response_def send_response_def)

lemma event_of_item:
  "add_server_event l qcdr rcdr write debug (it # q, s) =
     map_option (\<lambda>s'. (q, s')) (add_stream_item l rcdr write debug (hd (receive_request_stream l qcdr s [it])) s)"
  by (cases it) (auto simp: add_server_event_def add_stream_item_def receive_request_stream_def receive_request_def async_response_same
      option.map_comp comp_def split: sum.splits)

lemma stream_item_mapping: "add_stream_item l rcdr write debug r s = Some s' \<Longrightarrow> dv_service_mapping s' = dv_service_mapping s"
  by (auto simp: add_stream_item_def async_response_same split: sum.splits)

lemma stream_cong: "dv_service_mapping s' = dv_service_mapping s \<Longrightarrow> receive_request_stream l qcdr s' q = receive_request_stream l qcdr s q"
  by (simp add: receive_request_stream_def)

lemma servers_agree:
  "add_server_loop l qcdr rcdr write debug (length q) (q, s) = map_option (\<lambda>s'. ([], s')) (async_add_server l qcdr rcdr write debug q s)"
proof (induction q arbitrary: s)
  case Nil
  then show ?case by (simp add: async_add_server_def receive_request_stream_def)
next
  case (Cons it q)
  have r: "receive_request_stream l qcdr s (it # q) = hd (receive_request_stream l qcdr s [it]) # receive_request_stream l qcdr s q"
    by (simp add: receive_request_stream_def)
  show ?case
  proof (cases "add_stream_item l rcdr write debug (hd (receive_request_stream l qcdr s [it])) s")
    case None
    then show ?thesis by (simp add: event_of_item async_add_server_def r)
  next
    case (Some s')
    then show ?thesis
      using Cons.IH [of s'] stream_cong [OF stream_item_mapping [OF Some], of l qcdr q]
      by (simp add: event_of_item async_add_server_def r)
  qed
qed

text \<open>One event takes one request: of the requests that have arrived, as many are left as there were events too few.\<close>

lemma one_request_per_event:
  assumes "add_server_loop l qcdr rcdr write debug k (q, s) = Some (q', s')" and "k \<le> length q"
  shows "q' = drop k q"
  using assms
proof (induction k arbitrary: q s)
  case (Suc k)
  then obtain it r where q: "q = it # r" by (cases q) auto
  then show ?case using Suc by (auto simp: event_of_item split: Option.bind_splits)
qed simp
subsection \<open>Requests come back as sums\<close>

text \<open>A request of a client, delivered to the synchronous server, is answered with the sum, and the loop of the
  client receives that answer.\<close>

lemma add_two_ints_returns:
  assumes "dds_cdr_lawful qcdr" and "dds_cdr_lawful rcdr" and "dc_service_mapping c = Enhanced" and "dv_service_mapping s = Enhanced"
    and "send_request l qcdr write \<lparr>ai_a = a, ai_b = b\<rparr> c = (Ok i, c')" and "rr_sequence_number i \<noteq> sn_unknown l"
    and "i64_ok (a + b)" and "send_response l rcdr write' i \<lparr>ai_sum = a + b\<rparr> s = (Ok (), s')"
  shows "add_server_event l qcdr rcdr write' debug (Inr (delivered st (last (dc_written c')) (sample_identity_from i)) # q, s) = Some (q, s')"
    and "drain_responses l rcdr c' [Inr (delivered st' (last (dv_written s')) sid)] = ([(i, \<lparr>ai_sum = a + b\<rparr>)], [])"
    and "async_receive_response l rcdr c' i (Some (Inr (delivered st' (last (dv_written s')) sid)) # rest) = (Ready (Ok \<lparr>ai_sum = a + b\<rparr>), rest)"
proof -
  note got = enhanced_exchange [OF assms(1-6,8)]
  show "add_server_event l qcdr rcdr write' debug (Inr (delivered st (last (dc_written c')) (sample_identity_from i)) # q, s) = Some (q, s')"
    using got(1) assms(7,8) by (simp add: add_server_event_def)
  have "receive_response l rcdr c' (Ok (Some (delivered st' (last (dv_written s')) sid))) = Ok (Some (i, \<lparr>ai_sum = a + b\<rparr>))"
    using got(2) [of st' sid "dc_client_guid c'"] got(3) by (simp add: receive_response_def)
  moreover have "drain_responses l rcdr c' [] = ([], [])" by (subst drain_responses.simps) (simp add: receive_response_def)
  ultimately show "drain_responses l rcdr c' [Inr (delivered st' (last (dv_written s')) sid)] = ([(i, \<lparr>ai_sum = a + b\<rparr>)], [])"
    by (subst drain_responses.simps) simp
  show "async_receive_response l rcdr c' i (Some (Inr (delivered st' (last (dv_written s')) sid)) # rest) = (Ready (Ok \<lparr>ai_sum = a + b\<rparr>), rest)"
    using got(2,3) by simp
qed

text \<open>A sum that does not fit panics in a debug build, whatever the client.\<close>

lemma sum_overflow_panics:
  assumes "\<not> i64_ok (ai_a req + ai_b req)" and "receive_request l qcdr s (Ok (Some dcc)) = Ok (Some (i, req))"
  shows "add_server_event l qcdr rcdr write True (Inr dcc # q, s) = None"
  using assms by (simp add: add_server_event_def signed_result_def build_mode_def)

text \<open>The requests of the clients: the k-th is \<open>3 k\<close> modulo 5 and modulo 7, so that its sum always fits.\<close>

lemma client_request:
  assumes "g = 3 * int k" and "g + 3 < 2 ^ 63"
  shows "next_request debug g = Some (3 * int (Suc k), \<lparr>ai_a = 3 * int (Suc k) mod 5, ai_b = 3 * int (Suc k) mod 7\<rparr>)"
    and "i64_ok (3 * int (Suc k) mod 5 + 3 * int (Suc k) mod 7)"
proof -
  have "i64_ok (g + 3)" using assms by (simp add: in_signed_def)
  then have "signed_result (build_mode debug) 64 (g + 3) = Some (g + 3)" by simp
  moreover have e: "g + 3 = 3 * int (Suc k)" using assms(1) by simp
  ultimately have r: "signed_result (build_mode debug) 64 (g + 3) = Some (3 * int (Suc k))" by (simp only: e)
  have "trunc_rem (3 * int (Suc k)) n = 3 * int (Suc k) mod n" if "0 < n" for n using that by (intro trunc_rem_nonneg) simp_all
  then show "next_request debug g = Some (3 * int (Suc k), \<lparr>ai_a = 3 * int (Suc k) mod 5, ai_b = 3 * int (Suc k) mod 7\<rparr>)"
    unfolding next_request_def r by simp
  have small: "i64_ok (x + y)" if "0 \<le> x" "x < 5" "0 \<le> y" "y < 7" for x y :: int using that by (simp add: in_signed_def)
  show "i64_ok (3 * int (Suc k) mod 5 + 3 * int (Suc k) mod 7)" by (rule small) simp_all
qed

text \<open>A response that cannot be decoded ends the draining: those behind it are left in the reader.\<close>

lemma undecodable_response_stalls: "drain_responses l rcdr c (Inl e # q) = ([], q)"
  by (subst drain_responses.simps) (simp add: receive_response_def)

text \<open>A server that is not there at once is not waited for.\<close>

lemma service_not_awaited:
  "aa_phase s = AddIdle \<Longrightarrow> async_add_step l qcdr rcdr write debug (AddTick False) s = Some (aa_say WaitingForServer s)"
  by (simp add: async_add_step_def async_add_tick_def)

text \<open>A client and a server of the examples use the same topics.\<close>

definition add_name :: name where
  "add_name = absolute_name [] ''add_two_ints''"

lemma add_named: "name_new ''/'' ''add_two_ints'' = Ok add_name"
  unfolding add_name_def by code_simp

abbreviation add_type :: service_type_name where
  "add_type \<equiv> service_type_name_new ''example_interfaces'' ''AddTwoInts''"

lemma add_topics:
  "request_key_of nm add_name add_type = (''rq/add_two_intsRequest'', ''example_interfaces::srv::dds_::AddTwoInts_Request_'')"
  "response_key_of nm add_name add_type = (''rr/add_two_intsReply'', ''example_interfaces::srv::dds_::AddTwoInts_Response_'')"
  by (simp_all add: request_key_of_def response_key_of_def add_name_def absolute_name_def to_dds_name_def name_push_def ends_with_char_def
      dds_request_type_def dds_response_type_def slash_to_colons_def message_type_name_new_def service_type_name_new_def
      service_type_name_new_prefix_def replace_char_Cons Let_def)

lemma add_examples_meet:
  assumes "add_client_setup D env a = (Ok c, a')" and "add_server_setup D' env' b = (Ok s, b')"
  shows "\<exists>cs ss. dn_calls a' = dn_calls a @ cs \<and> dn_calls b' = dn_calls b @ ss
    \<and> written_topics cs = [(''rq/add_two_intsRequest'', ''example_interfaces::srv::dds_::AddTwoInts_Request_'')] \<and> read_topics ss = written_topics cs
    \<and> read_topics cs = [(''rr/add_two_intsReply'', ''example_interfaces::srv::dds_::AddTwoInts_Response_'')] \<and> written_topics ss = read_topics cs"
proof -
  obtain q where c: "dds_create_client env Enhanced add_name add_type q q a = (Ok c, a')"
    using assms(1) unfolding add_client_setup_def Let_def unwrapped [OF add_named] by (auto simp: expect_Ok)
  obtain q' where s: "dds_create_server env' Enhanced add_name add_type q' q' b = (Ok s, b')"
    using assms(2) unfolding add_server_setup_def Let_def unwrapped [OF add_named] by (auto simp: expect_Ok)
  show ?thesis using makesD [OF makes_client c] makesD [OF makes_server(1) s] by (auto simp: add_topics)
qed

end
