(* ===== verification/Spec2Isabelle.thy ===== *)
theory Spec2Isabelle
  imports Zenoh_Context Zenoh_Action_Calls Zenoh_Parameters Dds_Open Dds_Endpoints Dds_Param_Calls
    Dds_Async_Action Logging Wide_String Msg_Parser Turtle_Teleop Add_Two_Ints
begin

text \<open>
  \<^bold>\<open>ros2-client, verified\<close>

  ros2-client is a ROS 2 client library in Rust. A program makes a context, makes nodes in it, and
  through a node publishers, subscriptions, service clients and servers, action clients and
  servers. Two backends carry them: DDS (through the crate rustdds; \<open>src/src/*.rs\<close>,
  \<open>src/src/action\<close>, \<open>src/src/service\<close>) and Zenoh (through the crate zenoh;
  \<open>src/src/zenoh_backend\<close>). Both share the names, the QoS profiles, the time types, the parameter
  values and the messages of actions.

  \<^bold>\<open>How the parts interact, Zenoh.\<close> A node resolves the name it is given (names.rs) against its own,
  builds a key expression from domain, name, type and type hash (keyexpr.rs, type_hash.rs) and
  declares the entity in the session of its context. It also declares a liveliness token whose key
  carries the identity, name, type, hash and QoS (qos_encoding.rs) of the entity. Every context
  receives the tokens of all peers, parses them and keeps them in its graph cache (graph_cache.rs),
  which answers counts and node names and feeds the waiting functions (context.rs). Over the entities
  travel CDR payloads with an attachment of sequence number, time and identity (cdr.rs,
  attachment.rs); services are queries whose server remembers them until they are answered
  (service.rs); actions are three services and two topics (action.rs); a parameter server is a store
  behind six services and a topic of events (parameters.rs).

  \<^bold>\<open>How the parts interact, DDS.\<close> A node creates readers and writers through rustdds and tells ROS
  discovery of them through its context (node.rs, context.rs, entities_info.rs). Its spinner serves the
  parameter services and keeps the tables of remote endpoints, nodes and receivers of status events,
  on which the waiting functions rest. Services wrap a request id into the sample by one of three
  mappings (service/wrappers.rs); the client skips responses to other requests. The asynchronous action
  server (action/server.rs) keeps the state machine of goals between the services and topics of an
  action; the wire forms of time are converted on the way (builtin_interfaces.rs, ros_time.rs,
  steady_time.rs).

  \<^bold>\<open>Theories, shared by both backends.\<close>
  \<^item> \<open>Rust_Prelude\<close>, \<open>Rust_Numbers\<close>, \<open>Rust_Maps\<close>: what the source uses of Rust. Results with
    \<open>and_then\<close> (the question mark), strings as their UTF-8 bytes with \<open>split\<close>, \<open>strip_prefix\<close>,
    \<open>replace\<close>; printing and parsing of integers, overflow in debug and release builds
    (\<open>overflow_mode\<close>), truncated division; the laws of the two standard maps as the locale
    \<open>rust_map\<close> with the interpretations \<open>hash_map\<close> and \<open>btree_map\<close>, and the contracts of
    encoders and decoders as the locales \<open>codec\<close> and \<open>total_codec\<close>.
  \<^item> \<open>Ros_Names\<close>: names.rs. The accepted names are characterised (\<open>name_parse_exact\<close>,
    \<open>name_new_exact\<close>, \<open>node_name_new_exact\<close>); printing and parsing are a \<open>total_codec\<close>.
  \<^item> \<open>Rust_Duration\<close>, \<open>Qos_Profile\<close>: qos.rs and qos_encoding.rs. The QoS text round-trips
    (interpretation \<open>qos\<close> of \<open>total_codec\<close>), decoding is canonical, and where it panics.
  \<^item> \<open>Type_Description\<close>: type_description.rs and type_hash.rs. The canonical JSON is prefix free
    (locales \<open>prefix_writer\<close>, \<open>object_writer\<close> and their interpretations), so it determines the
    description up to defaults and the order of references; hence what the type hash identifies.
  \<^item> \<open>Ros_Times\<close>: ros_time.rs, steady_time.rs, builtin_interfaces.rs, in both overflow modes.
  \<^item> \<open>Action_Msgs\<close>: the messages of actions (action_msgs.rs, action.rs, unique_identifier_msgs.rs).
  \<^item> \<open>Parameters\<close>: parameters.rs and rcl_interfaces.rs: values and their wire form, the answers of the
    parameter services as functions of a store, and the locale \<open>parameter_backend\<close> (setting one
    parameter changes at most it, in a sorted store), in which a request to set many is analysed once.
    It is interpreted three times: \<open>zenoh_params\<close>, \<open>node_params\<close>, \<open>spinner_params\<close>.
  \<^item> \<open>Logging\<close>: log.rs and both rosout.rs.
  \<^item> \<open>Wide_String\<close>: wide_string.rs over an arbitrary serde format.
  \<^item> \<open>Msg_Generator\<close>: the printer of bin/msggen/main.rs, from parsed items to the text of a Rust module.
    \<open>emits\<close> says of a printing operation which text it writes, under which condition it panics and what a
    failing writer leaves; it composes along the code, up to \<open>generated_module_exact\<close>.
  \<^item> \<open>Msg_Parser\<close>: parser.rs and stringparser.rs of msggen, over the combinators of nom. An interface file of
    the lines the grammar can read back (\<open>line_ok\<close>) does (\<open>interface_file_round_trip\<close>), of any input a prefix
    of its lines is taken (\<open>msg_spec_takes_lines\<close>), and parser and printer are joined (\<open>module_of_files\<close>).

  \<^bold>\<open>Theories of the Zenoh backend.\<close>
  \<^item> \<open>Zenoh_Keyexpr\<close>: keyexpr.rs. Token keys parse back into their entity; data-plane keys are
    injective.
  \<^item> \<open>Graph_Cache\<close>: graph_cache.rs. The abstract specification is a set of live tokens
    (\<open>live_run\<close>) and a list of events (\<open>events_run\<close>); the cache and its channels refine it for
    every history of puts, deletes, subscriptions and dropped receivers.
  \<^item> \<open>Zenoh_Node\<close>: node.rs and gid.rs, every constructor of an entity as an operation on the state of the
    node (entity counter and declarations made).
  \<^item> \<open>Zenoh_Context\<close>: context.rs. Waiting is modelled with the interleaving written out: what happens to
    the cache between the subscription, the check and the end.
  \<^item> \<open>Zenoh_Wire\<close>, \<open>Zenoh_Pubsub\<close>: cdr.rs, attachment.rs, pubsub.rs. The attachment is a \<open>codec\<close>; what
    a publisher puts arrives in order with its metadata (\<open>messages_delivered_in_order\<close>).
  \<^item> \<open>Zenoh_Service\<close>: service.rs. The locale \<open>pending_server\<close> is the contract of a server that accepts
    queries into a table and answers out of it, interpreted on the typed and the raw server; in it,
    every request is answered at most once and none is invented, for every sequence of operations.
  \<^item> \<open>Zenoh_Action\<close>: action.rs; the raw action server behaves as the typed one on encoded messages.
    \<open>Zenoh_Action_Calls\<close>: the calls of an action client through the session to a serving application and
    back, and its feedback and status.
  \<^item> \<open>Zenoh_Parameters\<close>: parameters.rs; after any history of local settings and of rounds of requests
    (\<open>param_run\<close>) the store holds what was set last (\<open>parameter_store_history\<close>); a value a client sets is the value
    a client reads, through encoding, queries and the loops of the server.

  \<^bold>\<open>Theories of the DDS backend.\<close>
  \<^item> \<open>Dds_Service\<close>: service/*.rs and message_info.rs: the three mappings, clients and servers over streams
    of samples. The enhanced mapping carries request and request id both ways; the other two do not.
  \<^item> \<open>Dds_Pubsub\<close>, \<open>Dds_Action\<close>: pubsub.rs, action/client.rs, the synchronous server of
    action/server.rs, action/raw_server.rs.
  \<^item> \<open>Action_Server\<close>: the asynchronous server of action/server.rs. \<open>action_step\<close> is its step relation,
    one rule per operation and error path, also for a poll of an operation that was pending,
    \<open>action_reachable\<close> its closure, both for an application that uses the server in any way, answers cancel
    requests only with live goals, or besides ends goals as ROS 2 asks (\<open>care\<close>). \<open>goal_edge\<close> is the goal state
    machine of ROS 2, which every step of the last kind refines (\<open>goal_state_machine\<close>); \<open>shortcut\<close> are the moves
    the code permits beyond it. The status messages follow the goals (\<open>status_published\<close>).
    \<open>Dds_Async_Action\<close> puts it on the services of \<open>Dds_Action\<close>: the client learns what was decided.
  \<^item> \<open>Dds_Qos\<close>, \<open>Dds_Open\<close>: the DDS side of qos.rs, builtin_topics.rs, distributions.rs and the opening of a
    context with its topics. A profile comes back from its policies; an opened context is where the
    histories of \<open>Dds_Graph\<close> start.
  \<^item> \<open>Dds_Context\<close>, \<open>Dds_Node\<close>: gid.rs, entities_info.rs, context.rs, node.rs: the operations of a node as
    functions on its state, which has the calls of rustdds made so far.
  \<^item> \<open>Dds_Graph\<close>: several nodes in one context (\<open>system_reach\<close>, the interleaving of what they create and of
    their ends). In an orderly history - no two living nodes of one name, no spinner that failed to be created, a
    discovery writer that takes every message - the last message to discovery describes exactly the living nodes, and
    a spinner that receives it knows them; what breaks without each of the three is shown beside it.
  \<^item> \<open>Dds_Announce\<close>: every endpoint of a reachable node is in the record the context last published
    (\<open>node_reach\<close>, \<open>endpoints_announced\<close>), and the way a failed spinner breaks it.
  \<^item> \<open>Dds_Action_Calls\<close>, \<open>Dds_Endpoints\<close>: a goal sent, canceled and asked for its result over DDS, from the
    client's request to what its receive loops return; the topics of action clients and servers
    agree.
  \<^item> \<open>Dds_Spinner\<close>: the start and the branches of the loop of the spinner, the counts of matched endpoints,
    waiting for them and for a service; \<open>Dds_Params\<close>: remote requests to set parameters never pass the validator by;
    \<open>Dds_Param_Calls\<close>: what a client sets through the services of the spinner is what a client reads.

  \<^bold>\<open>Theories of the example programs.\<close>
  \<^item> \<open>Turtle_Ui\<close>: examples/turtle_teleop/ui.rs, the screen and the keys.
  \<^item> \<open>Turtle_Teleop\<close>: examples/turtle_teleop/main.rs: the entities it creates on the node of \<open>Dds_Node\<close>, and
    its event loop with the tasks it spawns as the step relation \<open>teleop_step\<close>, whose reachable states
    \<open>teleop_reach\<close> keep \<open>teleop_invariant\<close>.
  \<^item> \<open>Fibonacci_Server\<close>: the examples minimal_action_server and concurrent_action_server, applications on top of
    \<open>Action_Server\<close>. A goal is served to the end (\<open>fibonacci_goal_served\<close>); in every interleaving of loop, tasks
    and requests (\<open>concurrent_run\<close>) the action server is used as the ROS 2 state machine asks, and all feedback and
    results are Fibonacci numbers of requested goals, as \<open>i32\<close> (\<open>concurrent_server_safe\<close>).
  \<^item> \<open>Fibonacci_Client\<close>: the example minimal_action_client and the entities of the three; their topics meet
    (\<open>examples_meet\<close>) and the orders it sends are those the servers serve, or 0 (\<open>client_orders_served\<close>).
  \<^item> \<open>Add_Two_Ints\<close>: the four examples of a service, over \<open>Dds_Service\<close>: a request comes back as its sum
    (\<open>add_two_ints_returns\<close>), and the synchronous server with an event per request does what the asynchronous
    one does (\<open>servers_agree\<close>).

  \<^bold>\<open>Code outside the repository\<close> is a parameter: which writes rustdds takes and which entities it
  creates (\<open>wr\<close>, \<open>dds_lib\<close>, \<open>dds_env\<close>), which declarations a Zenoh session takes (\<open>zok\<close> of
  \<open>environment\<close>), Zenoh's configuration, session opening and serializer (\<open>zenoh_lib\<close>, \<open>zserde\<close>), the CDR
  encoders of messages, SHA-256 and XXH3, chrono's range of dates, the validator and the set action of
  an application, the combinators of nom and the reading of floating-point numbers (the record \<open>nom\<close>, with
  the documented laws \<open>nom_lawful\<close> and the instance \<open>ref_nom\<close>), the events of the terminal. Hypotheses on them are named where they occur: collision freedom of SHA-256 is assumed for
  the two descriptions compared; a CDR decoder reads back what its encoder wrote; the queries a
  server receives are distinct; the discovery writer takes the records it is given.

  \<^bold>\<open>Recursion.\<close> No fuel is used. Loops over a finite list (the characters of a string, the items of a
  stream received so far) are structural recursions. The receive loops of the DDS clients take from a
  reader until an answer fits; they are \<open>function\<close>s whose termination is proved by the number of samples
  the reader holds, and \<open>receive_loops_terminate\<close> says with what they end. An await that finds no item is
  the value \<open>Pending\<close>, so that a claim that an operation returns is a claim that its value is \<open>Ready\<close>.

  \<^bold>\<open>Faults found.\<close>
  \<^item> Names and QoS: the relative DDS name in the root namespace has an empty level
    (\<open>to_dds_name_root_double_slash\<close>); \<open>decode_qos\<close> panics on a duration whose carry overflows
    (\<open>decode_qos_panics\<close>); a node called \<open>a__b\<close> has no parameter server (\<open>parameter_server_refused\<close>)
    and its spinner panics (\<open>spinner_panics_on_accepted_name\<close>); a large history depth wraps on its way to
    DDS (\<open>large_depth_lost\<close>).
  \<^item> Time: plus and minus of steady time are exchanged (\<open>steady_operators_exchanged\<close>); the wire time of
    the distant past panics or wraps (\<open>repr_time_underflow\<close>); negative wire durations with a fraction are
    off by two seconds (\<open>bi_duration_from_nanos_value\<close>).
  \<^item> Services: the basic and Cyclone mappings decode the message from the header
    (\<open>header_mappings_lose_message\<close>), and a Cyclone response is not recognised
    (\<open>cyclone_response_not_recognised\<close>); the raw topic changes bytes (\<open>raw_topic_round_trip\<close>).
  \<^item> Actions: a goal that has ended can be moved back to canceling (\<open>ended_goal_revived\<close>); an accepted goal
    can end and an executing one be reported canceled without a request (\<open>shortcut_taken\<close>, \<open>accepted_goal_aborts\<close>);
    a goal canceled before it was started can never be ended (\<open>canceling_unstarted_stuck\<close>); a goal accepted
    at the stamp of a cancel request is missed (\<open>cancel_at_stamp_missed\<close>); a client with two goals
    outstanding drops a response (\<open>earlier_goal_response_dropped\<close>); the Zenoh codes of aborted and
    canceled are exchanged (\<open>aborted_result_read_as_canceled\<close>); an undecodable result request stays pending
    (\<open>undecodable_result_request_kept\<close>); of two tasks that wait for a result request the first takes the
    request of the other (\<open>waiting_result_request_lost\<close>).
  \<^item> Nodes and parameters: a spinner that cannot be created silences its node
    (\<open>failed_spinner_silences_node\<close>); an undecodable request keeps those behind it waiting
    (\<open>undecodable_request_stalls_queue\<close>); a declared \<open>use_sim_time\<close> is overwritten over DDS and kept over
    Zenoh (\<open>backends_disagree_on_use_sim_time\<close>); of two nodes with one name in a context, dropping one
    withdraws the other (\<open>same_name_node_withdrawn\<close>); the readers a spinner makes for itself are not announced
    (\<open>spinner_readers_unannounced\<close>).
  \<^item> Messages: a wide string does not read back (\<open>wide_string_overreads\<close>); the generator leaves a stray
    keyword for a constant after a field (\<open>constant_after_field_dangles\<close>) and prints string constants
    without quotes (\<open>string_constant_unquoted\<close>); its parser silently drops the rest of a file at a type
    whose name starts with that of a primitive type, at a negative floating-point constant and at a default
    value (\<open>primitive_prefix_drops_file\<close>, \<open>negative_float_drops_file\<close>, \<open>default_value_drops_file\<close>),
    reads a negative integer constant as a large one (\<open>negative_constant_wraps\<close>) and panics on numbers
    that are too large (\<open>numbers_panic\<close>).
  \<^item> Teleop example: a failing terminal or an interrupt leaves the terminal in raw mode
    (\<open>restored_iff_quit\<close>); of two rotations only the last can be canceled
    (\<open>first_rotation_not_cancelable\<close>).
  \<^item> Fibonacci examples: a goal of order 1 never ends (\<open>order_one_never_ends\<close>), a negative order ends the server
    (\<open>negative_order_panics\<close>), a cancel request for another goal is dropped (\<open>other_cancel_swallowed\<close>), and a goal
    whose result nobody asks for stays as it is (\<open>unclaimed_goal_stays\<close>); the concurrent server asks for a
    durability the client does not offer (\<open>concurrent_durability\<close>).
  \<^item> Service examples: a sum that does not fit ends the server (\<open>sum_overflow_panics\<close>); requests that arrive
    together are not all taken (\<open>one_request_per_event\<close>), nor are responses behind one that cannot be read
    (\<open>undecodable_response_stalls\<close>); the asynchronous client does not wait for its server
    (\<open>service_not_awaited\<close>).

  \<^bold>\<open>Not modelled\<close>: registration with mio (a call of rustdds), the macros that log, marker traits and
  derived message types, the command line of the message generator and its search for packages (calls of
  colcon and of the file system), the other examples and the tests.
\<close>

text \<open>
  A declaration of \<open>use_sim_time\<close> in the options of a node: the DDS node starts with false whatever was
  declared, the Zenoh parameter server with the value declared.
\<close>

lemma backends_disagree_on_use_sim_time:
  "node_get_parameter ''use_sim_time'' (initial_node name (declare_parameter ''use_sim_time'' v opts) ctx calls g)
     = Some (Boolean False)
   \<and> zenoh_get_parameter ''use_sim_time''
        (parameter_server_new fqn [\<lparr>par_name = ''use_sim_time'', par_value = v\<rparr>] get types set_p set_at list_p desc events)
     = Some v"
  by (simp add: node_get_parameter_def initial_node_def declared_use_sim_time zenoh_get_parameter_def
      parameter_server_new_def initial_store_def bt_insert.simps)

end
